(* ===== verification/Prelude.thy ===== *)
theory Prelude
  imports Main
begin

text \<open>
  Shared vocabulary of the development: values of Python's dynamically typed payloads,
  the errors the modelled code can raise, Python dictionaries with their insertion order,
  and the theorem collections the component theories fill.
\<close>

section \<open>Theorem collections\<close>

named_theorems dict_simps "laws of dictionary operations"
named_theorems frame_simps "fields an operation leaves alone"

section \<open>Errors and dynamic values\<close>

text \<open>The exceptions that modelled code raises or lets through.\<close>

datatype py_error =
    ValueError string
  | IndexError
  | KeyError string
  | ZeroDivisionError
  | OtherError string

text \<open>Payload dictionaries (\<open>Dict[str, Any]\<close>) hold these values.\<close>

datatype 'n pyval =
    PNone
  | PBool bool
  | PInt int
  | PNum 'n
  | PStr string

section \<open>Dictionaries in insertion order\<close>

text \<open>
  A Python \<open>dict\<close> keeps its keys in insertion order: assigning to a present key keeps its
  place, a new key goes to the end, \<open>pop\<close> removes the key. Iteration over \<open>values()\<close> or
  \<open>items()\<close> follows that order, so the model is an association list, not a bare map.
\<close>

type_synonym ('k, 'v) dict = "('k \<times> 'v) list"

fun d_get :: "('k, 'v) dict \<Rightarrow> 'k \<Rightarrow> 'v option" where
  "d_get [] k = None"
| "d_get ((k', v) # d) k = (if k' = k then Some v else d_get d k)"

fun d_put :: "('k, 'v) dict \<Rightarrow> 'k \<Rightarrow> 'v \<Rightarrow> ('k, 'v) dict" where
  "d_put [] k v = [(k, v)]"
| "d_put ((k', v') # d) k v = (if k' = k then (k, v) # d else (k', v') # d_put d k v)"

fun d_pop :: "('k, 'v) dict \<Rightarrow> 'k \<Rightarrow> ('k, 'v) dict" where
  "d_pop [] k = []"
| "d_pop ((k', v) # d) k = (if k' = k then d else (k', v) # d_pop d k)"

definition d_keys :: "('k, 'v) dict \<Rightarrow> 'k list" where
  "d_keys d = map fst d"

definition d_vals :: "('k, 'v) dict \<Rightarrow> 'v list" where
  "d_vals d = map snd d"

definition d_get_or :: "('k, 'v) dict \<Rightarrow> 'k \<Rightarrow> 'v \<Rightarrow> 'v" where
  "d_get_or d k v = (case d_get d k of None \<Rightarrow> v | Some x \<Rightarrow> x)"

definition d_has :: "('k, 'v) dict \<Rightarrow> 'k \<Rightarrow> bool" where
  "d_has d k = (d_get d k \<noteq> None)"

abbreviation d_wf :: "('k, 'v) dict \<Rightarrow> bool" where
  "d_wf d \<equiv> distinct (map fst d)"

lemma d_get_put [simp, dict_simps]:
  "d_get (d_put d k v) k' = (if k' = k then Some v else d_get d k')"
  by (induction d) auto

lemma d_get_None_iff: "d_get d k = None \<longleftrightarrow> k \<notin> fst ` set d"
  by (induction d) (auto split: if_splits)

lemma d_get_absent: "k \<notin> fst ` set d \<Longrightarrow> d_get d k = None"
  by (simp add: d_get_None_iff)

lemma d_get_pop [simp, dict_simps]:
  "d_wf d \<Longrightarrow> d_get (d_pop d k) k' = (if k' = k then None else d_get d k')"
  by (induction d k rule: d_pop.induct) (auto simp: d_get_absent split: if_splits)

lemma set_d_put_keys: "fst ` set (d_put d k v) = insert k (fst ` set d)"
  by (induction d k v rule: d_put.induct) (simp_all add: insert_commute)

lemma set_d_pop_subset: "set (d_pop d k) \<subseteq> set d"
  by (induction d) (auto split: if_splits)

lemma d_wf_put [simp, intro]: "d_wf d \<Longrightarrow> d_wf (d_put d k v)"
proof (induction d)
  case (Cons p d)
  obtain k' v' where p: "p = (k', v')" by force
  have "fst ` set (d_put d k v) = insert k (fst ` set d)" by (rule set_d_put_keys)
  with Cons p show ?case by auto
qed simp

lemma d_wf_pop [simp, intro]: "d_wf d \<Longrightarrow> d_wf (d_pop d k)"
proof (induction d)
  case (Cons p d)
  then show ?case using set_d_pop_subset [of d k] by (cases p) auto
qed simp

lemma d_get_mem: "d_get d k = Some v \<Longrightarrow> (k, v) \<in> set d"
  by (induction d) (auto split: if_splits)

lemma d_mem_get: "d_wf d \<Longrightarrow> (k, v) \<in> set d \<Longrightarrow> d_get d k = Some v"
  by (induction d) (auto simp: rev_image_eqI split: if_splits)

lemma d_mem_iff: "d_wf d \<Longrightarrow> (k, v) \<in> set d \<longleftrightarrow> d_get d k = Some v"
  by (blast intro: d_get_mem d_mem_get)

lemma d_put_absent: "d_get d k = None \<Longrightarrow> d_put d k v = d @ [(k, v)]"
  by (induction d) (auto split: if_splits)

lemma d_keys_put_present:
  "d_get d k \<noteq> None \<Longrightarrow> map fst (d_put d k v) = map fst d"
  by (induction d) (auto split: if_splits)

lemma length_d_put:
  "length (d_put d k v) = (if d_get d k = None then Suc (length d) else length d)"
  by (induction d) (auto split: if_splits)

text \<open>A dictionary comprehension over distinct keys keeps the order of its list; in general the last entry of a key wins.\<close>

lemma fold_put_distinct:
  "distinct (map f xs) \<Longrightarrow> (\<And>x. x \<in> set xs \<Longrightarrow> d_get d (f x) = None) \<Longrightarrow>
     fold (\<lambda>x d. d_put d (f x) (g x)) xs d = d @ map (\<lambda>x. (f x, g x)) xs"
proof (induction xs arbitrary: d)
  case (Cons x xs)
  have "fold (\<lambda>x d. d_put d (f x) (g x)) xs (d_put d (f x) (g x)) = d_put d (f x) (g x) @ map (\<lambda>x. (f x, g x)) xs"
    using Cons.prems by (intro Cons.IH) (auto simp: image_iff)
  with Cons.prems(2) [of x] show ?case by (simp add: d_put_absent)
qed simp

lemma d_wf_fold_put [simp]: "d_wf d \<Longrightarrow> d_wf (fold (\<lambda>x d. d_put d (f x) (g x)) xs d)"
  by (induction xs arbitrary: d) simp_all

lemma d_get_fold_put:
  "d_get (fold (\<lambda>x d. d_put d (f x) (g x)) xs d) k =
     (case find (\<lambda>x. f x = k) (rev xs) of None \<Rightarrow> d_get d k | Some x \<Rightarrow> Some (g x))"
proof (induction xs rule: rev_induct)
  case (snoc x xs)
  then show ?case by (auto split: option.split)
qed simp

lemma d_has_iff: "d_has d k \<longleftrightarrow> k \<in> fst ` set d"
  by (simp add: d_has_def d_get_None_iff)

lemma d_put_put [simp]: "d_put (d_put d k v) k w = d_put d k w"
  by (induction d) auto

lemma d_put_same: "d_get d k = Some v \<Longrightarrow> d_put d k v = d"
  by (induction d) (auto split: if_splits)

section \<open>The dictionary interface\<close>

text \<open>What client code relies on: lookups after an assignment and after a \<open>pop\<close>.\<close>

locale dict_iface =
  fixes empty :: "'d"
    and lookup :: "'d \<Rightarrow> 'k \<Rightarrow> 'v option"
    and store :: "'d \<Rightarrow> 'k \<Rightarrow> 'v \<Rightarrow> 'd"
    and remove :: "'d \<Rightarrow> 'k \<Rightarrow> 'd"
    and invar :: "'d \<Rightarrow> bool"
  assumes lookup_empty: "lookup empty k = None"
    and lookup_store: "lookup (store d k v) k' = (if k' = k then Some v else lookup d k')"
    and lookup_remove: "invar d \<Longrightarrow> lookup (remove d k) k' = (if k' = k then None else lookup d k')"
    and invar_empty: "invar empty"
    and invar_store: "invar d \<Longrightarrow> invar (store d k v)"
    and invar_remove: "invar d \<Longrightarrow> invar (remove d k)"
begin

lemma store_commutes:
  "k \<noteq> k' \<Longrightarrow> lookup (store (store d k v) k' v') = lookup (store (store d k' v') k v)"
  by (auto simp: lookup_store fun_eq_iff)

lemma remove_store:
  "invar d \<Longrightarrow> lookup (remove (store d k v) k) = lookup (remove d k)"
  by (auto simp: lookup_store lookup_remove invar_store fun_eq_iff)

lemma fold_store_other:
  "k \<notin> set ks \<Longrightarrow> lookup (fold (\<lambda>k' d. store d k' (f k')) ks d) k = lookup d k"
  by (induction ks arbitrary: d) (auto simp: lookup_store)

lemma fold_remove_lookup:
  "invar d \<Longrightarrow> lookup (fold (\<lambda>k' d. remove d k') ks d) k =
     (if k \<in> set ks then None else lookup d k)"
  by (induction ks arbitrary: d) (auto simp: lookup_remove invar_remove)

lemma invar_fold_remove: "invar d \<Longrightarrow> invar (fold (\<lambda>k' d. remove d k') ks d)"
  by (induction ks arbitrary: d) (auto simp: invar_remove)

end

interpretation pd: dict_iface "[] :: ('k, 'v) dict" d_get d_put d_pop d_wf
  by unfold_locales auto

section \<open>Counters kept in dictionaries\<close>

definition d_incr :: "('k, nat) dict \<Rightarrow> 'k \<Rightarrow> ('k, nat) dict" where
  "d_incr d k = d_put d k (Suc (d_get_or d k 0))"

lemma d_get_or_incr [simp]:
  "d_get_or (d_incr d k) k' 0 = (if k' = k then Suc (d_get_or d k 0) else d_get_or d k' 0)"
  by (simp add: d_incr_def d_get_or_def)

lemma sum_list_incr: "sum_list (d_vals (d_incr d k)) = Suc (sum_list (d_vals d))"
proof -
  have "sum_list (map snd (d_put d k (Suc (d_get_or d k 0)))) = Suc (sum_list (map snd d))"
    by (induction d) (auto simp: d_get_or_def)
  then show ?thesis by (simp add: d_incr_def d_vals_def)
qed

lemma d_wf_incr [simp, intro]: "d_wf d \<Longrightarrow> d_wf (d_incr d k)"
  by (simp add: d_incr_def)

lemma d_get_or_put [simp]:
  "d_get_or (d_put d k v) k' x = (if k' = k then v else d_get_or d k' x)"
  by (simp add: d_get_or_def)

lemma d_get_or_pop [simp]:
  "d_wf d \<Longrightarrow> d_get_or (d_pop d k) k' x = (if k' = k then x else d_get_or d k' x)"
  by (simp add: d_get_or_def)

section \<open>Comprehensions whose element expression can raise\<close>

text \<open>\<open>[f(x) for x in xs]\<close> stops at the first exception.\<close>

fun try_map :: "('a \<Rightarrow> 'e + 'b) \<Rightarrow> 'a list \<Rightarrow> 'e + 'b list" where
  "try_map f [] = Inr []"
| "try_map f (x # xs) =
     (case f x of Inl e \<Rightarrow> Inl e
      | Inr y \<Rightarrow> (case try_map f xs of Inl e \<Rightarrow> Inl e | Inr ys \<Rightarrow> Inr (y # ys)))"

lemma try_map_Inr: "try_map f xs = Inr ys \<Longrightarrow> list_all2 (\<lambda>x y. f x = Inr y) xs ys"
  by (induction xs arbitrary: ys) (auto split: sum.splits)

lemma try_map_total: "(\<And>x. x \<in> set xs \<Longrightarrow> f x = Inr (g x)) \<Longrightarrow> try_map f xs = Inr (map g xs)"
  by (induction xs) auto

lemma try_map_fails: "x \<in> set xs \<Longrightarrow> f x = Inl e \<Longrightarrow> \<exists>e. try_map f xs = Inl e"
  by (induction xs) (auto split: sum.splits)

lemma try_map_Inr_set: "try_map f xs = Inr ys \<Longrightarrow> y \<in> set ys \<Longrightarrow> \<exists>x \<in> set xs. f x = Inr y"
  by (induction xs arbitrary: ys) (auto split: sum.splits)

section \<open>Truthiness of strings\<close>

definition s_truthy :: "string option \<Rightarrow> bool" where
  "s_truthy s = (case s of None \<Rightarrow> False | Some t \<Rightarrow> t \<noteq> [])"

text \<open>\<open>a or b\<close> on optional strings.\<close>

definition os_or :: "string option \<Rightarrow> string option \<Rightarrow> string option" where
  "os_or a b = (if s_truthy a then a else b)"

section \<open>Defaults for optional lists\<close>

text \<open>\<open>x or []\<close> and \<open>x or {}\<close>.\<close>

definition opt_list :: "'a list option \<Rightarrow> 'a list" where
  "opt_list x = (case x of None \<Rightarrow> [] | Some v \<Rightarrow> v)"

end
