(* ===== verification/Py_Float.thy ===== *)
theory Py_Float
  imports Complex_Main "HOL-Library.Log_Nat" Prelude
begin

text \<open>
  Python floats.  A float is a rational number; every arithmetic operation of the source is
  the exact rational operation followed by rounding to 53 significant bits, ties to even,
  which is what IEEE 754 double arithmetic does.  The exponent range is not bounded here, so
  overflow to infinity, gradual underflow and NaN are outside the model; nothing else of
  floating point is idealised, and no lemma of the development assumes that addition is
  associative or that a quotient is exact.
\<close>

type_synonym pyfloat = rat

text \<open>Payload dictionaries with float values.\<close>

type_synonym details = "(string \<times> pyfloat pyval) list"

section \<open>Rounding\<close>

definition ilog2 :: "rat \<Rightarrow> int" where
  "ilog2 x = (let (n, d) = quotient_of x; e = bitlen n - bitlen d
     in if 2 powi e \<le> x then e else e - 1)"

definition round_half_even :: "rat \<Rightarrow> int" where
  "round_half_even r = (let f = \<lfloor>r\<rfloor>; d = r - of_int f
     in if d < 1 / 2 then f else if 1 / 2 < d then f + 1 else if even f then f else f + 1)"

definition fl_pos :: "rat \<Rightarrow> rat" where
  "fl_pos x = (let e = ilog2 x - 52 in of_int (round_half_even (x / 2 powi e)) * 2 powi e)"

definition fl :: "rat \<Rightarrow> pyfloat" where
  "fl x = (if x = 0 then 0 else if 0 < x then fl_pos x else - fl_pos (- x))"

definition is_float :: "rat \<Rightarrow> bool" where
  "is_float x = (fl x = x)"

text \<open>The four operators; division raises \<open>ZeroDivisionError\<close>.\<close>

definition fadd :: "pyfloat \<Rightarrow> pyfloat \<Rightarrow> pyfloat" where "fadd a b = fl (a + b)"
definition fsub :: "pyfloat \<Rightarrow> pyfloat \<Rightarrow> pyfloat" where "fsub a b = fl (a - b)"
definition fmul :: "pyfloat \<Rightarrow> pyfloat \<Rightarrow> pyfloat" where "fmul a b = fl (a * b)"
definition fdiv :: "pyfloat \<Rightarrow> pyfloat \<Rightarrow> py_error + pyfloat" where
  "fdiv a b = (if b = 0 then Inl ZeroDivisionError else Inr (fl (a / b)))"

text \<open>\<open>sum\<close> over floats adds from the left, starting at the integer 0.\<close>

definition fsum :: "pyfloat list \<Rightarrow> pyfloat" where
  "fsum xs = foldl fadd 0 xs"

text \<open>Truthiness: \<open>x or d\<close> with a float \<open>x\<close>, and with an optional float.\<close>

definition f_or :: "pyfloat \<Rightarrow> pyfloat \<Rightarrow> pyfloat" where
  "f_or x d = (if x = 0 then d else x)"

definition fo_or :: "pyfloat option \<Rightarrow> pyfloat \<Rightarrow> pyfloat" where
  "fo_or x d = (case x of None \<Rightarrow> d | Some v \<Rightarrow> f_or v d)"

definition f_truthy :: "pyfloat option \<Rightarrow> bool" where
  "f_truthy x = (case x of None \<Rightarrow> False | Some v \<Rightarrow> v \<noteq> 0)"

text \<open>\<open>a or b\<close> on optional numbers.\<close>

definition of_or :: "pyfloat option \<Rightarrow> pyfloat option \<Rightarrow> pyfloat option" where
  "of_or a b = (if f_truthy a then a else b)"

section \<open>Binary logarithm and rounding to an integer\<close>

lemma powi_pos [simp]: "0 < (2 :: rat) powi e"
  by simp

lemma powi_mono: "a \<le> b \<Longrightarrow> (2 :: rat) powi a \<le> 2 powi b"
  by (rule power_int_increasing) auto

lemma powi_split: "(2 :: rat) powi (a + b) = 2 powi a * 2 powi b"
  by (simp add: power_int_add)

lemma powi_Suc: "(2 :: rat) powi (a + 1) = 2 * 2 powi a"
  by (simp add: power_int_add)

lemma bitlen_powi:
  assumes "0 < n"
  shows "(2 :: rat) powi (bitlen n - 1) \<le> of_int n" "of_int n < (2 :: rat) powi bitlen n"
proof -
  from assms have b: "2 ^ nat (bitlen n - 1) \<le> n \<and> n < 2 ^ nat (bitlen n)"
    by (rule bitlen_bounds)
  from assms have "1 \<le> bitlen n" using bitlen_le_iff_power [of n 0] by (simp add: not_le [symmetric])
  then have e: "(2 :: rat) powi (bitlen n - 1) = of_int (2 ^ nat (bitlen n - 1))"
    "(2 :: rat) powi bitlen n = of_int (2 ^ nat (bitlen n))"
    by (simp_all add: power_int_def)
  show "(2 :: rat) powi (bitlen n - 1) \<le> of_int n" unfolding e using b by (simp only: of_int_le_iff)
  show "of_int n < (2 :: rat) powi bitlen n" unfolding e using b by (simp only: of_int_less_iff)
qed

lemma ilog2_bounds:
  assumes "0 < x"
  shows "2 powi ilog2 x \<le> x" "x < 2 powi (ilog2 x + 1)"
proof -
  obtain n d where q: "quotient_of x = (n, d)" by force
  define e where "e = bitlen n - bitlen d"
  have d: "0 < d" and x: "x = of_int n / of_int d"
    using q by (auto intro: quotient_of_denom_pos quotient_of_div)
  with assms have n: "0 < n" by (simp add: zero_less_divide_iff)
  have lo: "2 powi (e - 1) \<le> x"
  proof -
    have "(2 :: rat) powi (e - 1) * of_int d \<le> 2 powi (e - 1) * 2 powi bitlen d"
      using bitlen_powi(2) [OF d] by (intro mult_left_mono) auto
    also have "\<dots> = 2 powi (bitlen n - 1)"
      unfolding e_def by (subst powi_split [symmetric]) simp
    also have "\<dots> \<le> of_int n" by (rule bitlen_powi(1) [OF n])
    finally show ?thesis using d by (simp add: x field_simps)
  qed
  have hi: "x < 2 powi (e + 1)"
  proof -
    have "of_int n < (2 :: rat) powi bitlen n" by (rule bitlen_powi(2) [OF n])
    also have "\<dots> = 2 powi (e + 1) * 2 powi (bitlen d - 1)"
      unfolding e_def by (subst powi_split [symmetric]) simp
    also have "\<dots> \<le> (2 :: rat) powi (e + 1) * of_int d"
      using bitlen_powi(1) [OF d] by (intro mult_left_mono) auto
    finally show ?thesis using d by (simp add: x field_simps)
  qed
  have il: "ilog2 x = (if 2 powi e \<le> x then e else e - 1)"
    by (simp add: ilog2_def q e_def Let_def)
  show "2 powi ilog2 x \<le> x" "x < 2 powi (ilog2 x + 1)"
    using lo hi by (auto simp: il not_le)
qed

lemma ilog2_unique:
  assumes "2 powi e \<le> x" "x < 2 powi (e + 1)"
  shows "ilog2 x = e"
proof (rule ccontr)
  from assms(1) have x: "0 < x" using powi_pos [of e] by linarith
  note b = ilog2_bounds [OF x]
  assume "ilog2 x \<noteq> e"
  then consider "ilog2 x + 1 \<le> e" | "e + 1 \<le> ilog2 x" by linarith
  then show False
  proof cases
    case 1 then show ?thesis using powi_mono [OF 1] b assms by linarith
  next
    case 2 then show ?thesis using powi_mono [OF 2] b assms by linarith
  qed
qed

lemma round_half_even_of_int [simp]: "round_half_even (of_int k) = k"
  by (simp add: round_half_even_def)

lemma round_half_even_bounds: "\<lfloor>r\<rfloor> \<le> round_half_even r" "round_half_even r \<le> \<lfloor>r\<rfloor> + 1"
  by (auto simp: round_half_even_def Let_def)

lemma round_half_even_mono:
  assumes "r \<le> s"
  shows "round_half_even r \<le> round_half_even s"
proof (cases "\<lfloor>r\<rfloor> = \<lfloor>s\<rfloor>")
  case True
  with assms show ?thesis by (auto simp: round_half_even_def Let_def)
next
  case False
  with floor_mono [OF assms] have "\<lfloor>r\<rfloor> + 1 \<le> \<lfloor>s\<rfloor>" by linarith
  then show ?thesis using round_half_even_bounds [of r] round_half_even_bounds [of s] by linarith
qed

lemma round_half_even_ge: "of_int k \<le> r \<Longrightarrow> k \<le> round_half_even r"
  using round_half_even_mono [of "of_int k" r] by simp

lemma round_half_even_le: "r \<le> of_int k \<Longrightarrow> round_half_even r \<le> k"
  using round_half_even_mono [of r "of_int k"] by simp

section \<open>Rounding to a float\<close>

lemma fl_pos_bounds:
  assumes "0 < x"
  shows "2 powi ilog2 x \<le> fl_pos x" "fl_pos x \<le> 2 powi (ilog2 x + 1)"
proof -
  define e where "e = ilog2 x - 52"
  note b = ilog2_bounds [OF assms]
  have c: "(2 :: rat) powi ilog2 x = of_int (2 ^ 52) * 2 powi e"
    "(2 :: rat) powi (ilog2 x + 1) = of_int (2 ^ 53) * 2 powi e"
    using powi_split [of 52 e] powi_split [of 53 e] by (simp_all add: e_def algebra_simps)
  have "2 ^ 52 \<le> round_half_even (x / 2 powi e)"
    using b(1) c(1) by (intro round_half_even_ge) (simp add: field_simps)
  moreover have "round_half_even (x / 2 powi e) \<le> 2 ^ 53"
    using b(2) c(2) by (intro round_half_even_le) (simp add: field_simps)
  ultimately show "2 powi ilog2 x \<le> fl_pos x" "fl_pos x \<le> 2 powi (ilog2 x + 1)"
    unfolding c by (simp_all only: fl_pos_def Let_def e_def [symmetric] of_int_le_iff
      mult_le_cancel_right_pos powi_pos)
qed

lemma fl_pos_mono:
  assumes "0 < x" "x \<le> y"
  shows "fl_pos x \<le> fl_pos y"
proof (cases "ilog2 x = ilog2 y")
  case True
  have "x / 2 powi (ilog2 y - 52) \<le> y / 2 powi (ilog2 y - 52)"
    using assms by (simp add: divide_right_mono)
  then show ?thesis
    by (simp add: fl_pos_def Let_def True round_half_even_mono)
next
  case False
  from assms have y: "0 < y" by linarith
  have "ilog2 x < ilog2 y"
  proof (rule ccontr)
    assume "\<not> ilog2 x < ilog2 y"
    with False have "ilog2 y + 1 \<le> ilog2 x" by linarith
    then show False
      using powi_mono [of "ilog2 y + 1" "ilog2 x"] ilog2_bounds [OF y] ilog2_bounds [OF assms(1)] assms
      by linarith
  qed
  then show ?thesis
    using fl_pos_bounds(2) [OF assms(1)] fl_pos_bounds(1) [OF y] powi_mono [of "ilog2 x + 1" "ilog2 y"]
    by linarith
qed

lemma fl_pos_pos: "0 < x \<Longrightarrow> 0 < fl_pos x"
  using fl_pos_bounds(1) [of x] powi_pos [of "ilog2 x"] by linarith

lemma fl_0 [simp]: "fl 0 = 0"
  by (simp add: fl_def)

lemma fl_minus [simp]: "fl (- x) = - fl x"
  by (simp add: fl_def)

lemma fl_less_0_iff [simp]: "fl x < 0 \<longleftrightarrow> x < 0"
  using fl_pos_pos [of x] fl_pos_pos [of "- x"] by (auto simp: fl_def)

lemma fl_greater_0_iff [simp]: "0 < fl x \<longleftrightarrow> 0 < x"
  using fl_pos_pos [of x] fl_pos_pos [of "- x"] by (auto simp: fl_def)

lemma fl_eq_0_iff [simp]: "fl x = 0 \<longleftrightarrow> x = 0"
  using fl_pos_pos [of x] fl_pos_pos [of "- x"] by (auto simp: fl_def)

lemma fl_le_0_iff [simp]: "fl x \<le> 0 \<longleftrightarrow> x \<le> 0"
  by (simp add: not_less [symmetric])

lemma fl_ge_0_iff [simp]: "0 \<le> fl x \<longleftrightarrow> 0 \<le> x"
  by (simp add: not_less [symmetric])

lemma fl_mono:
  assumes "x \<le> y"
  shows "fl x \<le> fl y"
proof (cases "0 < x")
  case True
  with assms show ?thesis by (auto simp: fl_def fl_pos_mono)
next
  case x: False
  show ?thesis
  proof (cases "y < 0")
    case True
    with assms show ?thesis using fl_pos_mono [of "- y" "- x"] by (auto simp: fl_def)
  next
    case False
    with x have "fl x \<le> 0" "0 \<le> fl y" by auto
    then show ?thesis by linarith
  qed
qed

lemma fl_abs: "\<bar>fl x\<bar> = fl \<bar>x\<bar>"
  by (cases "0 \<le> x") (auto simp: abs_if)

text \<open>A number with a 53-bit significand is left alone.\<close>

lemma fl_pos_exact_small:
  assumes m: "0 < m" "m < 2 ^ 53" and x: "x = of_int m * 2 powi e"
  shows "fl_pos x = x"
proof -
  from m have xp: "0 < x" by (simp add: x)
  have "x < of_int (2 ^ 53) * 2 powi e"
    unfolding x using m(2) by (intro mult_strict_right_mono) (simp_all only: of_int_less_iff powi_pos)
  also have "\<dots> = 2 powi (e + 53)" using powi_split [of e 53] by simp
  finally have up: "x < 2 powi (e + 53)" .
  have "ilog2 x < e + 53"
  proof (rule ccontr)
    assume "\<not> ilog2 x < e + 53"
    then have "e + 53 \<le> ilog2 x" by linarith
    then show False using powi_mono [of "e + 53" "ilog2 x"] ilog2_bounds(1) [OF xp] up by linarith
  qed
  then obtain k where k: "e = (ilog2 x - 52) + int k"
    using zle_iff_zadd [of "ilog2 x - 52" e] by auto
  have "x / 2 powi (ilog2 x - 52) = of_int (m * 2 ^ k)"
    by (subst x, subst k, subst powi_split) simp
  then have "fl_pos x = of_int (m * 2 ^ k) * 2 powi (ilog2 x - 52)"
    by (simp only: fl_pos_def Let_def round_half_even_of_int)
  also have "\<dots> = of_int m * 2 powi (ilog2 x - 52 + int k)" by (subst powi_split) simp
  also have "\<dots> = x" by (simp only: k [symmetric] x [symmetric])
  finally show ?thesis .
qed

lemma fl_pos_exact:
  assumes m: "0 < m" "m \<le> 2 ^ 53" and x: "x = of_int m * 2 powi e"
  shows "fl_pos x = x"
proof (cases "m = 2 ^ 53")
  case True
  then have "x = of_int 1 * 2 powi (e + 53)" using powi_split [of e 53] by (simp add: x)
  then show ?thesis by (rule fl_pos_exact_small [rotated 2]) auto
next
  case False
  with m x show ?thesis by (intro fl_pos_exact_small [of m]) auto
qed

lemma fl_exact:
  assumes "\<bar>m\<bar> \<le> 2 ^ 53" "x = of_int m * 2 powi e"
  shows "fl x = x"
proof (cases "m = 0")
  case True
  with assms show ?thesis by simp
next
  case False
  show ?thesis
  proof (cases "0 < m")
    case True
    with assms have "fl_pos x = x" "0 < x" by (auto intro: fl_pos_exact [of m])
    then show ?thesis by (simp add: fl_def)
  next
    case f: False
    with False assms have "fl_pos (- x) = - x" "x < 0"
      by (auto intro: fl_pos_exact [of "- m" _ e] simp: mult_less_0_iff)
    then show ?thesis by (simp add: fl_def)
  qed
qed

lemma fl_idem [simp]: "fl (fl x) = fl x"
proof -
  have pos: "fl (fl y) = fl y" if y: "0 < y" for y
  proof -
    define e where "e = ilog2 y - 52"
    let ?m = "round_half_even (y / 2 powi e)"
    have f: "fl y = of_int ?m * 2 powi e" using y by (simp add: fl_def fl_pos_def e_def Let_def)
    have up: "(2 :: rat) powi (ilog2 y + 1) = of_int (2 ^ 53) * 2 powi e"
      using powi_split [of 53 e] by (simp add: e_def algebra_simps)
    have "fl y = fl_pos y" using y by (simp add: fl_def)
    then have "of_int ?m * 2 powi e \<le> (of_int (2 ^ 53) :: rat) * 2 powi e"
      using fl_pos_bounds(2) [OF y] unfolding up f by simp
    then have "?m \<le> 2 ^ 53" by (simp only: mult_le_cancel_right_pos powi_pos of_int_le_iff)
    moreover have "0 < ?m" using y f by (metis fl_greater_0_iff of_int_0_less_iff powi_pos zero_less_mult_pos2)
    ultimately show ?thesis by (intro fl_exact [OF _ f]) simp
  qed
  consider "0 < x" | "x = 0" | "0 < - x" by linarith
  then show ?thesis
  proof cases
    case 3 then show ?thesis using pos [of "- x"] by simp
  qed (auto simp: pos)
qed

section \<open>Floats\<close>

lemma is_float_fl [simp, intro]: "is_float (fl x)"
  by (simp add: is_float_def)

lemma is_float_0 [simp]: "is_float 0"
  by (simp add: is_float_def)

lemma is_float_exact: "\<bar>m\<bar> \<le> 2 ^ 53 \<Longrightarrow> is_float (of_int m * 2 powi e)"
  unfolding is_float_def by (rule fl_exact [OF _ refl])

lemma fl_of_int: "\<bar>k\<bar> \<le> 2 ^ 53 \<Longrightarrow> fl (of_int k) = of_int k"
  by (rule fl_exact [of k _ 0]) auto

lemma fl_numeral [simp]: "(numeral k :: int) \<le> 2 ^ 53 \<Longrightarrow> fl (numeral k) = numeral k"
  using fl_of_int [of "numeral k"] by simp

lemma fl_1 [simp]: "fl 1 = 1"
  using fl_of_int [of 1] by simp

lemma fl_double: "is_float x \<Longrightarrow> fl (2 * x) = 2 * x"
proof -
  have pos: "fl (2 * y) = 2 * y" if y: "0 < y" "fl y = y" for y :: rat
  proof -
    have lo: "2 powi ilog2 y \<le> y" and hi: "y < 2 powi (ilog2 y + 1)"
      using ilog2_bounds [OF y(1)] by auto
    have "ilog2 (2 * y) = ilog2 y + 1"
      using lo hi powi_Suc [of "ilog2 y"] powi_Suc [of "ilog2 y + 1"] by (intro ilog2_unique) auto
    moreover have "2 * y / 2 powi (ilog2 y - 52 + 1) = y / 2 powi (ilog2 y - 52)"
      by (subst powi_Suc) simp
    ultimately have "fl_pos (2 * y) = 2 * fl_pos y"
      using powi_Suc [of "ilog2 y - 52"] by (simp add: fl_pos_def Let_def algebra_simps)
    with y show ?thesis by (simp add: fl_def)
  qed
  assume "is_float x"
  then have x: "fl x = x" by (simp add: is_float_def)
  consider "0 < x" | "x = 0" | "0 < - x" by linarith
  then show ?thesis
  proof cases
    case 3 then show ?thesis using pos [of "- x"] x fl_minus [of "2 * x"] by simp
  qed (auto simp: pos x)
qed

text \<open>Scaling by a power of two is exact.\<close>

lemma fl_scale: "fl (x * 2 powi k) = fl x * 2 powi k"
proof -
  have pos: "fl (y * 2 powi k) = fl y * 2 powi k" if y: "0 < y" for y :: rat
  proof -
    have "2 powi (ilog2 y + k) \<le> y * 2 powi k" "y * 2 powi k < 2 powi (ilog2 y + k + 1)"
      using ilog2_bounds [OF y] powi_split [of "ilog2 y" k] powi_split [of "ilog2 y + 1" k] by (simp_all add: algebra_simps)
    then have "ilog2 (y * 2 powi k) = ilog2 y + k" by (rule ilog2_unique)
    moreover have e: "(2 :: rat) powi (ilog2 y + k - 52) = 2 powi (ilog2 y - 52) * 2 powi k"
      using powi_split [of "ilog2 y - 52" k] by (simp add: algebra_simps)
    ultimately have "fl_pos (y * 2 powi k) = fl_pos y * 2 powi k" by (simp add: fl_pos_def Let_def)
    with y show ?thesis by (simp add: fl_def)
  qed
  consider "0 < x" | "x = 0" | "0 < - x" by linarith
  then show ?thesis
  proof cases
    case 3 then show ?thesis using pos [of "- x"] fl_minus [of "x * 2 powi k"] by simp
  qed (auto simp: pos)
qed

lemma is_float_scale: "is_float x \<Longrightarrow> is_float (x * 2 powi k)"
  by (simp add: is_float_def fl_scale)

lemma fl_ge: "is_float a \<Longrightarrow> a \<le> x \<Longrightarrow> a \<le> fl x"
  using fl_mono [of a x] by (simp add: is_float_def)

lemma fl_le: "is_float a \<Longrightarrow> x \<le> a \<Longrightarrow> fl x \<le> a"
  using fl_mono [of x a] by (simp add: is_float_def)

section \<open>Operators\<close>

text \<open>The relative error of a rounding.\<close>

lemma fl_error:
  assumes "0 \<le> x"
  shows "x * (1 - 1 / 2 ^ 52) \<le> fl x" "fl x \<le> x * (1 + 1 / 2 ^ 52)"
proof -
  have "\<bar>fl x - x\<bar> \<le> x * (1 / 2 ^ 52)"
  proof (cases "x = 0")
    case False
    with assms have x: "0 < x" by simp
    define u :: rat where "u = 2 powi (ilog2 x - 52)"
    have u: "0 < u" by (simp add: u_def)
    let ?r = "of_int (round_half_even (x / u)) :: rat"
    have "?r \<le> x / u + 1" "x / u - 1 \<le> ?r"
      using round_half_even_bounds [of "x / u"] of_int_floor_le [of "x / u"] floor_correct [of "x / u"] by linarith+
    then have "?r * u \<le> (x / u + 1) * u" "(x / u - 1) * u \<le> ?r * u" using u by (auto intro: mult_right_mono)
    then have "\<bar>?r * u - x\<bar> \<le> u" using u by (simp add: algebra_simps abs_le_iff)
    then have "\<bar>fl_pos x - x\<bar> \<le> u" by (simp add: fl_pos_def Let_def u_def [symmetric])
    also have "u = 2 powi ilog2 x * (1 / 2 ^ 52)"
      using powi_split [of "ilog2 x" "- 52"] by (simp add: u_def power_int_minus field_simps)
    also have "\<dots> \<le> x * (1 / 2 ^ 52)" using ilog2_bounds [OF x] by (intro mult_right_mono) auto
    finally show ?thesis using x by (simp add: fl_def)
  qed simp
  then show "x * (1 - 1 / 2 ^ 52) \<le> fl x" "fl x \<le> x * (1 + 1 / 2 ^ 52)" unfolding abs_le_iff by (auto simp: algebra_simps)
qed

lemma fsub_nonneg_iff [simp]: "0 \<le> fsub a b \<longleftrightarrow> b \<le> a"
  by (simp add: fsub_def)

lemma fsub_pos_iff [simp]: "0 < fsub a b \<longleftrightarrow> b < a"
  by (simp add: fsub_def)

lemma fsub_eq_0_iff [simp]: "fsub a b = 0 \<longleftrightarrow> a = b"
  by (simp add: fsub_def)

lemma fsub_self [simp]: "fsub a a = 0"
  by simp

lemma fsub_mono: "a \<le> a' \<Longrightarrow> b' \<le> b \<Longrightarrow> fsub a b \<le> fsub a' b'"
  by (simp add: fsub_def fl_mono)

lemma fadd_nonneg: "0 \<le> a \<Longrightarrow> 0 \<le> b \<Longrightarrow> 0 \<le> fadd a b"
  by (simp add: fadd_def)

lemma fadd_mono: "a \<le> a' \<Longrightarrow> b \<le> b' \<Longrightarrow> fadd a b \<le> fadd a' b'"
  by (simp add: fadd_def fl_mono)

lemma fmul_pos_iff: "0 < fmul a b \<longleftrightarrow> 0 < a * b"
  by (simp add: fmul_def)

lemma fmul_neg_iff: "fmul a b < 0 \<longleftrightarrow> a * b < 0"
  by (simp add: fmul_def)

lemma fmul_0 [simp]: "fmul 0 b = 0" "fmul a 0 = 0"
  by (simp_all add: fmul_def)

lemma is_float_ops [simp, intro]:
  "is_float (fadd a b)" "is_float (fsub a b)" "is_float (fmul a b)"
  by (simp_all add: fadd_def fsub_def fmul_def)

lemma fdiv_Inr: "fdiv a b = Inr q \<longleftrightarrow> b \<noteq> 0 \<and> q = fl (a / b)"
  by (auto simp: fdiv_def)

lemma fsum_nonneg:
  assumes "\<And>x. x \<in> set xs \<Longrightarrow> 0 \<le> x"
  shows "0 \<le> fsum xs"
proof -
  have "0 \<le> a \<Longrightarrow> (\<And>x. x \<in> set xs \<Longrightarrow> 0 \<le> x) \<Longrightarrow> 0 \<le> foldl fadd a xs" for a
    by (induction xs arbitrary: a) (auto simp: fadd_nonneg)
  with assms show ?thesis by (simp add: fsum_def)
qed

lemma fl_div_abs_le_1:
  assumes "\<bar>a\<bar> \<le> b" "0 < b"
  shows "\<bar>fl (a / b)\<bar> \<le> 1"
proof -
  from assms have "a / b \<le> 1" "- 1 \<le> a / b" by (auto simp: field_simps abs_le_iff)
  then have "fl (a / b) \<le> fl 1" "fl (- 1) \<le> fl (a / b)" by (blast intro: fl_mono)+
  then show ?thesis by (simp add: abs_le_iff)
qed

end
