(* ===== verification/Book_Types.thy ===== *)
theory Book_Types
  imports Py_Float
begin

text \<open>
  Order books (quantgambit/core/book/types.py): price levels with their validation, the book's
  queries, and the in-place delta update of one side.  A side is a list, best level first.
\<close>

section \<open>Levels\<close>

datatype book_side = Bid | Ask

record level =
  lv_price :: pyfloat
  lv_size :: pyfloat
  lv_count :: "int option"

definition mk_level :: "pyfloat \<Rightarrow> pyfloat \<Rightarrow> int option \<Rightarrow> py_error + level" where
  "mk_level p s c =
     (if p < 0 then Inl (ValueError ''Price cannot be negative'')
      else if s < 0 then Inl (ValueError ''Size cannot be negative'')
      else Inr \<lparr>lv_price = p, lv_size = s, lv_count = c\<rparr>)"

definition level_to_tuple :: "level \<Rightarrow> pyfloat \<times> pyfloat" where
  "level_to_tuple l = (lv_price l, lv_size l)"

definition level_from_tuple :: "pyfloat \<times> pyfloat \<Rightarrow> py_error + level" where
  "level_from_tuple d = mk_level (fst d) (snd d) None"

text \<open>\<open>int(x)\<close> truncates towards zero.\<close>

definition py_int :: "pyfloat \<Rightarrow> int" where
  "py_int x = (if 0 \<le> x then \<lfloor>x\<rfloor> else - \<lfloor>- x\<rfloor>)"

fun level_from_list :: "pyfloat list \<Rightarrow> py_error + level" where
  "level_from_list [] = Inl IndexError"
| "level_from_list [p] = Inl IndexError"
| "level_from_list [p, s] = mk_level p s None"
| "level_from_list (p # s # c # _) = mk_level p s (Some (py_int c))"

section \<open>Books\<close>

record order_book =
  ob_symbol :: string
  ob_bids :: "level list"
  ob_asks :: "level list"
  ob_update_id :: "int option"
  ob_timestamp :: "pyfloat option"
  ob_local_timestamp :: "pyfloat option"

definition first_of :: "'a list \<Rightarrow> 'a option" where
  "first_of xs = (case xs of [] \<Rightarrow> None | x # _ \<Rightarrow> Some x)"

definition best_bid :: "order_book \<Rightarrow> level option" where
  "best_bid b = first_of (ob_bids b)"

definition best_ask :: "order_book \<Rightarrow> level option" where
  "best_ask b = first_of (ob_asks b)"

definition best_bid_price :: "order_book \<Rightarrow> pyfloat option" where
  "best_bid_price b = map_option lv_price (first_of (ob_bids b))"

definition best_ask_price :: "order_book \<Rightarrow> pyfloat option" where
  "best_ask_price b = map_option lv_price (first_of (ob_asks b))"

text \<open>Division by the constants 2 and by a tested non-zero mid cannot raise, so \<open>fl\<close> is used directly.\<close>

definition mid_price :: "order_book \<Rightarrow> pyfloat option" where
  "mid_price b = (case (ob_bids b, ob_asks b) of
       (x # _, y # _) \<Rightarrow> Some (fl (fadd (lv_price x) (lv_price y) / 2))
     | _ \<Rightarrow> None)"

definition ob_spread :: "order_book \<Rightarrow> pyfloat option" where
  "ob_spread b = (case (ob_bids b, ob_asks b) of
       (x # _, y # _) \<Rightarrow> Some (fsub (lv_price y) (lv_price x))
     | _ \<Rightarrow> None)"

definition spread_bps :: "order_book \<Rightarrow> pyfloat option" where
  "spread_bps b = (case (mid_price b, ob_spread b) of
       (Some m, Some s) \<Rightarrow> if m = 0 then None else Some (fmul (fl (s / m)) 10000)
     | _ \<Rightarrow> None)"

definition is_crossed :: "order_book \<Rightarrow> bool" where
  "is_crossed b = (case (ob_bids b, ob_asks b) of
       (x # _, y # _) \<Rightarrow> lv_price y \<le> lv_price x
     | _ \<Rightarrow> False)"

definition ob_is_empty :: "order_book \<Rightarrow> bool" where
  "ob_is_empty b = (ob_bids b = [] \<and> ob_asks b = [])"

definition levels_of :: "order_book \<Rightarrow> book_side \<Rightarrow> level list" where
  "levels_of b sd = (case sd of Bid \<Rightarrow> ob_bids b | Ask \<Rightarrow> ob_asks b)"

definition ob_depth :: "order_book \<Rightarrow> book_side \<Rightarrow> nat" where
  "ob_depth b sd = length (levels_of b sd)"

definition total_depth :: "order_book \<Rightarrow> nat" where
  "total_depth b = length (ob_bids b) + length (ob_asks b)"

text \<open>A negative index counts from the end and raises when it is out of range.\<close>

definition size_at_level :: "order_book \<Rightarrow> book_side \<Rightarrow> int \<Rightarrow> py_error + pyfloat option" where
  "size_at_level b sd i = (let ls = levels_of b sd; n = int (length ls) in
     if i < n then
       (if 0 \<le> i then Inr (Some (lv_size (ls ! nat i)))
        else if 0 \<le> n + i then Inr (Some (lv_size (ls ! nat (n + i))))
        else Inl IndexError)
     else Inr None)"

text \<open>\<open>book_levels[:n]\<close> with a negative \<open>n\<close> drops from the end.\<close>

definition py_take :: "int \<Rightarrow> 'a list \<Rightarrow> 'a list" where
  "py_take n xs = (if 0 \<le> n then take (nat n) xs else take (length xs - nat (- n)) xs)"

definition cumulative_size :: "order_book \<Rightarrow> book_side \<Rightarrow> int \<Rightarrow> pyfloat" where
  "cumulative_size b sd n = fsum (map lv_size (py_take n (levels_of b sd)))"

fun price_for_size_loop ::
  "level list \<Rightarrow> pyfloat \<Rightarrow> pyfloat \<Rightarrow> pyfloat \<Rightarrow> pyfloat \<times> pyfloat \<times> pyfloat" where
  "price_for_size_loop [] remaining tv ts = (remaining, tv, ts)"
| "price_for_size_loop (l # ls) remaining tv ts =
     (let fill = min remaining (lv_size l);
          tv' = fadd tv (fmul fill (lv_price l));
          ts' = fadd ts fill;
          remaining' = fsub remaining fill
      in if remaining' \<le> 0 then (remaining', tv', ts')
         else price_for_size_loop ls remaining' tv' ts')"

definition price_for_size :: "order_book \<Rightarrow> book_side \<Rightarrow> pyfloat \<Rightarrow> pyfloat option" where
  "price_for_size b sd sz =
     (case price_for_size_loop (levels_of b sd) sz 0 0 of (remaining, tv, ts) \<Rightarrow>
        if 0 < remaining then None else if 0 < ts then Some (fl (tv / ts)) else None)"

definition imbalance :: "order_book \<Rightarrow> int \<Rightarrow> pyfloat option" where
  "imbalance b n = (let bs = cumulative_size b Bid n; as = cumulative_size b Ask n; total = fadd bs as
     in if total = 0 then None else Some (fl (fsub bs as / total)))"

definition microprice :: "order_book \<Rightarrow> pyfloat option" where
  "microprice b = (case (ob_bids b, ob_asks b) of
       (x # _, y # _) \<Rightarrow>
         (let total = fadd (lv_size x) (lv_size y)
          in if total = 0 then mid_price b
             else Some (fl (fadd (fmul (lv_size x) (lv_price y)) (fmul (lv_size y) (lv_price x)) / total)))
     | _ \<Rightarrow> None)"

section \<open>Delta update of a side\<close>

text \<open>
  The first loop of \<open>apply_delta\<close> looks for the price: a level found is removed (size 0) or
  replaced, and \<open>Level(...)\<close> may raise.  \<open>None\<close> is "not found".
\<close>

fun update_found :: "level list \<Rightarrow> pyfloat \<Rightarrow> pyfloat \<Rightarrow> (py_error + level list) option" where
  "update_found [] p s = None"
| "update_found (l # ls) p s =
     (if lv_price l = p then
        Some (if s = 0 then Inr ls
              else (case mk_level p s None of Inl e \<Rightarrow> Inl e | Inr n \<Rightarrow> Inr (n # ls)))
      else map_option (map_sum id ((#) l)) (update_found ls p s))"

definition before :: "book_side \<Rightarrow> pyfloat \<Rightarrow> pyfloat \<Rightarrow> bool" where
  "before sd p q = (case sd of Bid \<Rightarrow> q < p | Ask \<Rightarrow> p < q)"

fun insert_level :: "book_side \<Rightarrow> level \<Rightarrow> level list \<Rightarrow> level list" where
  "insert_level sd n [] = [n]"
| "insert_level sd n (l # ls) =
     (if before sd (lv_price n) (lv_price l) then n # l # ls else l # insert_level sd n ls)"

definition apply_delta_side :: "book_side \<Rightarrow> level list \<Rightarrow> pyfloat \<Rightarrow> pyfloat \<Rightarrow> py_error + level list" where
  "apply_delta_side sd ls p s =
     (case update_found ls p s of
        Some r \<Rightarrow> r
      | None \<Rightarrow>
          if 0 < s then (case mk_level p s None of Inl e \<Rightarrow> Inl e | Inr n \<Rightarrow> Inr (insert_level sd n ls))
          else Inr ls)"

definition set_levels :: "order_book \<Rightarrow> book_side \<Rightarrow> level list \<Rightarrow> order_book" where
  "set_levels b sd ls = (case sd of Bid \<Rightarrow> b\<lparr>ob_bids := ls\<rparr> | Ask \<Rightarrow> b\<lparr>ob_asks := ls\<rparr>)"

definition apply_delta :: "order_book \<Rightarrow> book_side \<Rightarrow> pyfloat \<Rightarrow> pyfloat \<Rightarrow> py_error + order_book" where
  "apply_delta b sd p s =
     (case apply_delta_side sd (levels_of b sd) p s of Inl e \<Rightarrow> Inl e | Inr ls \<Rightarrow> Inr (set_levels b sd ls))"

section \<open>Serialisation and copying\<close>

record book_dict =
  bd_symbol :: string
  bd_bids :: "pyfloat list list"
  bd_asks :: "pyfloat list list"
  bd_update_id :: "int option"
  bd_timestamp :: "pyfloat option"
  bd_local_timestamp :: "pyfloat option"

definition ob_to_dict :: "order_book \<Rightarrow> book_dict" where
  "ob_to_dict b = \<lparr>bd_symbol = ob_symbol b,
     bd_bids = map (\<lambda>l. [lv_price l, lv_size l]) (ob_bids b),
     bd_asks = map (\<lambda>l. [lv_price l, lv_size l]) (ob_asks b),
     bd_update_id = ob_update_id b, bd_timestamp = ob_timestamp b,
     bd_local_timestamp = ob_local_timestamp b\<rparr>"

definition ob_from_dict :: "book_dict \<Rightarrow> py_error + order_book" where
  "ob_from_dict d =
     (case try_map level_from_list (bd_bids d) of
        Inl e \<Rightarrow> Inl e
      | Inr bs \<Rightarrow>
          (case try_map level_from_list (bd_asks d) of
             Inl e \<Rightarrow> Inl e
           | Inr as \<Rightarrow> Inr \<lparr>ob_symbol = bd_symbol d, ob_bids = bs, ob_asks = as,
               ob_update_id = bd_update_id d, ob_timestamp = bd_timestamp d,
               ob_local_timestamp = bd_local_timestamp d\<rparr>))"

definition copy_level :: "level \<Rightarrow> py_error + level" where
  "copy_level l = mk_level (lv_price l) (lv_size l) (lv_count l)"

definition ob_copy :: "order_book \<Rightarrow> py_error + order_book" where
  "ob_copy b =
     (case try_map copy_level (ob_bids b) of
        Inl e \<Rightarrow> Inl e
      | Inr bs \<Rightarrow>
          (case try_map copy_level (ob_asks b) of
             Inl e \<Rightarrow> Inl e
           | Inr as \<Rightarrow> Inr (b\<lparr>ob_bids := bs, ob_asks := as\<rparr>)))"

section \<open>Book updates\<close>

record book_update =
  bu_symbol :: string
  bu_bids :: "level list"
  bu_asks :: "level list"
  bu_sequence_id :: "int option"
  bu_timestamp :: "pyfloat option"
  bu_is_snapshot :: bool

definition to_order_book :: "book_update \<Rightarrow> order_book" where
  "to_order_book u = \<lparr>ob_symbol = bu_symbol u, ob_bids = bu_bids u, ob_asks = bu_asks u,
     ob_update_id = bu_sequence_id u, ob_timestamp = bu_timestamp u, ob_local_timestamp = None\<rparr>"

section \<open>The representation invariant of a side\<close>

definition side_sorted :: "book_side \<Rightarrow> level list \<Rightarrow> bool" where
  "side_sorted sd ls = sorted_wrt (\<lambda>k l. before sd (lv_price k) (lv_price l)) ls"

definition level_ok :: "level \<Rightarrow> bool" where
  "level_ok l = (0 \<le> lv_price l \<and> 0 < lv_size l)"

definition side_ok :: "book_side \<Rightarrow> level list \<Rightarrow> bool" where
  "side_ok sd ls = (side_sorted sd ls \<and> list_all level_ok ls)"

definition book_ok :: "order_book \<Rightarrow> bool" where
  "book_ok b = (side_ok Bid (ob_bids b) \<and> side_ok Ask (ob_asks b))"

text \<open>What a side means: the sizes resting at each price.\<close>

definition side_map :: "level list \<Rightarrow> pyfloat \<rightharpoonup> pyfloat" where
  "side_map ls = map_of (map level_to_tuple ls)"

lemma side_map_simps [simp]:
  "side_map [] = Map.empty"
  "side_map (l # ls) = (side_map ls)(lv_price l \<mapsto> lv_size l)"
  by (simp_all add: side_map_def level_to_tuple_def)

lemma dom_side_map: "dom (side_map ls) = lv_price ` set ls"
  by (simp add: side_map_def dom_map_of_conv_image_fst image_image level_to_tuple_def)

lemma side_map_None: "side_map ls p = None \<longleftrightarrow> p \<notin> lv_price ` set ls"
  using dom_side_map [of ls] by (metis domIff)

lemma before_irrefl [simp]: "\<not> before sd p p"
  by (cases sd) (auto simp: before_def)

lemma before_trans: "before sd p q \<Longrightarrow> before sd q r \<Longrightarrow> before sd p r"
  by (cases sd) (auto simp: before_def)

lemma before_total: "p \<noteq> q \<Longrightarrow> \<not> before sd p q \<Longrightarrow> before sd q p"
  by (cases sd) (auto simp: before_def)

lemma side_sorted_simps [simp]:
  "side_sorted sd []"
  "side_sorted sd (l # ls) = ((\<forall>k \<in> set ls. before sd (lv_price l) (lv_price k)) \<and> side_sorted sd ls)"
  by (simp_all add: side_sorted_def)

lemma mk_level_Inr: "mk_level p s c = Inr l \<longleftrightarrow> 0 \<le> p \<and> 0 \<le> s \<and> l = \<lparr>lv_price = p, lv_size = s, lv_count = c\<rparr>"
  by (auto simp: mk_level_def)

section \<open>One delta\<close>

lemma update_found_None: "update_found ls p s = None \<longleftrightarrow> p \<notin> lv_price ` set ls"
  by (induction ls) (auto split: if_splits)

lemma update_found_prices:
  "update_found ls p s = Some (Inr ls') \<Longrightarrow> lv_price ` set ls' \<subseteq> lv_price ` set ls"
proof (induction ls arbitrary: ls')
  case (Cons l ls)
  show ?case
  proof (cases "lv_price l = p")
    case True
    with Cons.prems show ?thesis by (auto simp: mk_level_Inr split: if_splits sum.splits)
  next
    case False
    with Cons.prems obtain r where r: "update_found ls p s = Some r" "map_sum id ((#) l) r = Inr ls'"
      by auto
    then obtain ls'' where "r = Inr ls''" "ls' = l # ls''" by (cases r) auto
    with r Cons.IH show ?thesis by fastforce
  qed
qed simp

lemma update_found_Cons_other:
  assumes "update_found (l # ls) p s = Some (Inr ls')" "lv_price l \<noteq> p"
  obtains ls'' where "update_found ls p s = Some (Inr ls'')" "ls' = l # ls''"
proof -
  from assms obtain r where r: "update_found ls p s = Some r" "map_sum id ((#) l) r = Inr ls'" by auto
  then obtain ls'' where "r = Inr ls''" "ls' = l # ls''" by (cases r) auto
  with r that show ?thesis by blast
qed

lemma update_found_map:
  assumes "update_found ls p s = Some (Inr ls')" "side_sorted sd ls"
  shows "side_map ls' = (side_map ls)(p := if s = 0 then None else Some s) \<and> side_sorted sd ls'"
  using assms
proof (induction ls arbitrary: ls')
  case (Cons l ls)
  show ?case
  proof (cases "lv_price l = p")
    case True
    with Cons.prems(2) have "p \<notin> lv_price ` set ls" by auto
    then have "side_map ls p = None" by (simp add: side_map_None)
    with True Cons.prems show ?thesis
      by (auto simp: mk_level_Inr fun_eq_iff split: if_splits sum.splits)
  next
    case False
    from update_found_Cons_other [OF Cons.prems(1) False] obtain ls''
      where u: "update_found ls p s = Some (Inr ls'')" "ls' = l # ls''" by blast
    with Cons have ih: "side_map ls'' = (side_map ls)(p := if s = 0 then None else Some s)"
      "side_sorted sd ls''" by auto
    from update_found_prices [OF u(1)] Cons.prems(2)
    have "\<forall>k \<in> set ls''. before sd (lv_price l) (lv_price k)" by fastforce
    then have "side_sorted sd ls'" using ih(2) u(2) by simp
    moreover have "side_map ls' = (side_map (l # ls))(p := if s = 0 then None else Some s)"
      using ih(1) u(2) False by (simp add: fun_eq_iff)
    ultimately show ?thesis by blast
  qed
qed simp

lemma update_found_nonneg: "update_found ls p s = Some (Inr ls') \<Longrightarrow> 0 \<le> s"
proof (induction ls arbitrary: ls')
  case (Cons l ls)
  show ?case
  proof (cases "lv_price l = p")
    case True
    with Cons.prems show ?thesis by (auto simp: mk_level_Inr split: if_splits sum.splits)
  next
    case False
    from update_found_Cons_other [OF Cons.prems False] Cons.IH show ?thesis by blast
  qed
qed simp

lemma update_found_levels_ok:
  "update_found ls p s = Some (Inr ls') \<Longrightarrow> list_all level_ok ls \<Longrightarrow> list_all level_ok ls'"
proof (induction ls arbitrary: ls')
  case (Cons l ls)
  show ?case
  proof (cases "lv_price l = p")
    case True
    with Cons.prems show ?thesis by (auto simp: mk_level_Inr level_ok_def split: if_splits sum.splits)
  next
    case False
    from update_found_Cons_other [OF Cons.prems(1) False] obtain ls''
      where "update_found ls p s = Some (Inr ls'')" "ls' = l # ls''" by blast
    with Cons.IH [of ls''] Cons.prems(2) show ?thesis by simp
  qed
qed simp

lemma set_insert_level: "set (insert_level sd n ls) = insert n (set ls)"
  by (induction ls) auto

lemma insert_level_map:
  "lv_price n \<notin> lv_price ` set ls \<Longrightarrow>
     side_map (insert_level sd n ls) = (side_map ls)(lv_price n \<mapsto> lv_size n)"
  by (induction ls) (auto simp: fun_eq_iff)

lemma insert_level_sorted:
  "lv_price n \<notin> lv_price ` set ls \<Longrightarrow> side_sorted sd ls \<Longrightarrow> side_sorted sd (insert_level sd n ls)"
proof (induction ls)
  case (Cons l ls)
  show ?case
  proof (cases "before sd (lv_price n) (lv_price l)")
    case True
    with Cons.prems show ?thesis by (auto intro: before_trans)
  next
    case False
    with Cons.prems have "before sd (lv_price l) (lv_price n)" by (auto intro: before_total)
    with False Cons show ?thesis by (auto simp: set_insert_level)
  qed
qed simp

text \<open>A delta acts on the side's meaning as a map update, and keeps the side well-formed.\<close>

lemma apply_delta_side_map:
  assumes d: "apply_delta_side sd ls p s = Inr ls'" and srt: "side_sorted sd ls"
  shows "side_map ls' =
      (if s = 0 then (side_map ls)(p := None) else if 0 < s then (side_map ls)(p \<mapsto> s) else side_map ls)"
    and "side_sorted sd ls'"
proof -
  have "side_map ls' = (if s = 0 then (side_map ls)(p := None) else if 0 < s then (side_map ls)(p \<mapsto> s)
      else side_map ls) \<and> side_sorted sd ls'"
  proof (cases "update_found ls p s")
    case None
    then have p: "p \<notin> lv_price ` set ls" by (simp add: update_found_None)
    then have "(side_map ls)(p := None) = side_map ls" by (simp add: side_map_None fun_upd_idem)
    with None d srt p show ?thesis
      by (auto simp: apply_delta_side_def mk_level_Inr insert_level_map insert_level_sorted
          split: if_splits sum.splits)
  next
    case (Some r)
    with d have u: "update_found ls p s = Some (Inr ls')" by (simp add: apply_delta_side_def)
    from update_found_nonneg [OF u] update_found_map [OF u srt] show ?thesis by (cases "s = 0") auto
  qed
  then show "side_map ls' = (if s = 0 then (side_map ls)(p := None) else if 0 < s
      then (side_map ls)(p \<mapsto> s) else side_map ls)" "side_sorted sd ls'" by auto
qed

lemma apply_delta_side_ok:
  assumes "apply_delta_side sd ls p s = Inr ls'" "side_ok sd ls"
  shows "side_ok sd ls'"
proof -
  from assms have srt: "side_sorted sd ls'" by (auto simp: side_ok_def intro: apply_delta_side_map)
  have "list_all level_ok ls'"
  proof (cases "update_found ls p s")
    case None
    with assms show ?thesis
      by (auto simp: apply_delta_side_def side_ok_def mk_level_Inr level_ok_def list_all_iff
          set_insert_level split: if_splits sum.splits)
  next
    case (Some r)
    with assms show ?thesis by (auto simp: apply_delta_side_def side_ok_def intro: update_found_levels_ok)
  qed
  with srt show ?thesis by (simp add: side_ok_def)
qed

section \<open>Whole books\<close>

definition opposite :: "book_side \<Rightarrow> book_side" where
  "opposite sd = (case sd of Bid \<Rightarrow> Ask | Ask \<Rightarrow> Bid)"

definition book_sorted :: "order_book \<Rightarrow> bool" where
  "book_sorted b = (side_sorted Bid (ob_bids b) \<and> side_sorted Ask (ob_asks b))"

lemma levels_of_simps [simp]:
  "levels_of b Bid = ob_bids b" "levels_of b Ask = ob_asks b"
  "levels_of (set_levels b sd ls) sd = ls"
  "levels_of (set_levels b sd ls) (opposite sd) = levels_of b (opposite sd)"
  by (cases sd; simp add: levels_of_def set_levels_def opposite_def)+

lemma set_levels_frame [frame_simps, simp]:
  "ob_symbol (set_levels b sd ls) = ob_symbol b"
  "ob_update_id (set_levels b sd ls) = ob_update_id b"
  "ob_timestamp (set_levels b sd ls) = ob_timestamp b"
  "ob_local_timestamp (set_levels b sd ls) = ob_local_timestamp b"
  by (cases sd; simp add: set_levels_def)+

lemma book_ok_sides: "book_ok b \<longleftrightarrow> (\<forall>sd. side_ok sd (levels_of b sd))"
  by (auto simp: book_ok_def levels_of_def split: book_side.splits)

lemma side_cases: "(\<forall>sd. P sd) \<longleftrightarrow> P sd' \<and> P (opposite sd')" for P :: "book_side \<Rightarrow> bool"
  by (cases sd') (auto simp: opposite_def split: book_side.splits, (metis book_side.exhaust)+)

lemma apply_delta_ok:
  assumes "apply_delta b sd p s = Inr b'" "book_ok b"
  shows "book_ok b'"
proof -
  from assms(1) obtain ls where ls: "apply_delta_side sd (levels_of b sd) p s = Inr ls" "b' = set_levels b sd ls"
    by (auto simp: apply_delta_def split: sum.splits)
  from assms(2) have "side_ok sd (levels_of b sd)" "side_ok (opposite sd) (levels_of b (opposite sd))"
    by (auto simp: book_ok_sides)
  with apply_delta_side_ok [OF ls(1)] ls(2) show ?thesis
    unfolding book_ok_sides by (subst side_cases [of _ sd]) simp
qed

lemma apply_delta_frame [frame_simps]:
  "apply_delta b sd p s = Inr b' \<Longrightarrow> ob_symbol b' = ob_symbol b \<and> ob_update_id b' = ob_update_id b \<and>
     ob_timestamp b' = ob_timestamp b \<and> ob_local_timestamp b' = ob_local_timestamp b"
  by (auto simp: apply_delta_def split: sum.splits)

text \<open>When a delta raises: it replaces or inserts a level that \<open>Level.__post_init__\<close> rejects.\<close>

lemma map_sum_Inl_iff: "(\<exists>e. map_sum id g r = Inl e) \<longleftrightarrow> (\<exists>e. r = Inl e)"
  by (cases r) auto

lemma apply_delta_side_raises_iff:
  "(\<exists>e. apply_delta_side sd ls p s = Inl e) \<longleftrightarrow>
     (if p \<in> lv_price ` set ls then s \<noteq> 0 \<and> (p < 0 \<or> s < 0) else 0 < s \<and> p < 0)"
proof (cases "update_found ls p s")
  case None
  then have "p \<notin> lv_price ` set ls" by (simp add: update_found_None)
  with None show ?thesis by (auto simp: apply_delta_side_def mk_level_def)
next
  case (Some r)
  have "(\<exists>e. update_found ls p s = Some (Inl e)) \<longleftrightarrow> p \<in> lv_price ` set ls \<and> s \<noteq> 0 \<and> (p < 0 \<or> s < 0)"
  proof (induction ls)
    case (Cons l ls)
    have "(\<exists>e. map_option (map_sum id ((#) l)) (update_found ls p s) = Some (Inl e)) \<longleftrightarrow>
        (\<exists>e. update_found ls p s = Some (Inl e))" for l
      using map_sum_Inl_iff [of "(#) l"] by (cases "update_found ls p s") auto
    with Cons show ?case by (cases "lv_price l = p") (auto simp: mk_level_def)
  qed simp
  moreover have "p \<in> lv_price ` set ls" using Some by (metis option.distinct(1) update_found_None)
  ultimately show ?thesis using Some by (simp add: apply_delta_side_def)
qed

text \<open>The best level of a sorted side is ahead of every other level.\<close>

lemma first_of_best:
  "side_sorted sd ls \<Longrightarrow> first_of ls = Some l \<Longrightarrow> k \<in> set ls \<Longrightarrow> k = l \<or> before sd (lv_price l) (lv_price k)"
  by (auto simp: first_of_def split: list.splits)

lemma mk_level_ok: "level_ok l \<Longrightarrow> mk_level (lv_price l) (lv_size l) c = Inr (l\<lparr>lv_count := c\<rparr>)"
  by (simp add: level_ok_def mk_level_def)

lemma set_py_take: "set (py_take n xs) \<subseteq> set xs"
  by (auto simp: py_take_def dest: in_set_takeD)

lemma cumulative_size_nonneg: "list_all level_ok (levels_of b sd) \<Longrightarrow> 0 \<le> cumulative_size b sd n"
  unfolding cumulative_size_def
  by (rule fsum_nonneg) (auto simp: level_ok_def list_all_iff less_imp_le dest!: subsetD [OF set_py_take])

lemma imbalance_in_range:
  assumes "0 \<le> cumulative_size b Bid n" "0 \<le> cumulative_size b Ask n" "imbalance b n = Some q"
  shows "\<bar>q\<bar> \<le> 1"
proof -
  let ?x = "cumulative_size b Bid n" and ?y = "cumulative_size b Ask n"
  from assms(3) have t: "fadd ?x ?y \<noteq> 0" and q: "q = fl (fsub ?x ?y / fadd ?x ?y)"
    by (auto simp: imbalance_def Let_def split: if_splits)
  have "0 < fadd ?x ?y" using t fadd_nonneg [OF assms(1,2)] by linarith
  moreover have "\<bar>fsub ?x ?y\<bar> \<le> fadd ?x ?y"
    unfolding fsub_def fadd_def fl_abs using assms(1,2) by (intro fl_mono) (auto simp: abs_if)
  ultimately show ?thesis unfolding q by (intro fl_div_abs_le_1)
qed

lemma mid_between:
  assumes "is_float x" "is_float y" "x \<le> y"
  shows "x \<le> fl (fadd x y / 2)" "fl (fadd x y / 2) \<le> y"
proof -
  have "fl (2 * x) \<le> fadd x y" "fadd x y \<le> fl (2 * y)"
    unfolding fadd_def using assms(3) by (auto intro: fl_mono)
  then have "2 * x \<le> fadd x y" "fadd x y \<le> 2 * y" using assms(1,2) by (simp_all add: fl_double)
  then show "x \<le> fl (fadd x y / 2)" "fl (fadd x y / 2) \<le> y"
    using assms(1,2) by (auto intro: fl_ge fl_le)
qed

lemma try_map_levels:
  "list_all level_ok ls \<Longrightarrow> try_map level_from_list (map (\<lambda>l. [lv_price l, lv_size l]) ls) =
     Inr (map (\<lambda>l. l\<lparr>lv_count := None\<rparr>) ls)"
  by (induction ls) (auto simp: mk_level_ok)

lemma try_map_copy: "list_all level_ok ls \<Longrightarrow> try_map copy_level ls = Inr ls"
  by (induction ls) (auto simp: copy_level_def mk_level_ok)

section \<open>Properties\<close>

definition sample_book :: order_book where
  "sample_book = \<lparr>ob_symbol = ''BTCUSDT'',
     ob_bids = [\<lparr>lv_price = 100, lv_size = 1, lv_count = None\<rparr>, \<lparr>lv_price = 98, lv_size = 2, lv_count = Some 3\<rparr>],
     ob_asks = [\<lparr>lv_price = 101, lv_size = 4, lv_count = None\<rparr>],
     ob_update_id = Some 7, ob_timestamp = Some 50, ob_local_timestamp = None\<rparr>"

lemma sample_book_ok: "book_ok sample_book"
  by (simp add: sample_book_def book_ok_def side_ok_def level_ok_def before_def)

text \<open>C14: Refinement of a delta: on a well-formed book, \<open>apply_delta\<close> acts on the addressed side exactly
  as removing the price (size 0), setting it (positive size) or leaving the side alone, it keeps
  the other side, and the book stays well-formed (best level first, no duplicate price, positive sizes).\<close>

theorem apply_delta_refines_map:
  assumes "book_ok b" "apply_delta b sd p s = Inr b'"
  shows "book_ok b' \<and>
    side_map (levels_of b' sd) =
      (if s = 0 then (side_map (levels_of b sd))(p := None)
       else if 0 < s then (side_map (levels_of b sd))(p \<mapsto> s) else side_map (levels_of b sd)) \<and>
    levels_of b' (opposite sd) = levels_of b (opposite sd)"
proof -
  from assms(2) obtain ls where ls: "apply_delta_side sd (levels_of b sd) p s = Inr ls" "b' = set_levels b sd ls"
    by (auto simp: apply_delta_def split: sum.splits)
  from assms(1) have "side_sorted sd (levels_of b sd)" by (auto simp: book_ok_sides side_ok_def)
  from apply_delta_side_map(1) [OF ls(1) this] apply_delta_ok [OF assms(2,1)] ls(2) show ?thesis by simp
qed

lemma apply_delta_refines_map_witness:
  "\<exists>b'. apply_delta sample_book Bid 99 5 = Inr b' \<and> book_ok b' \<and>
     side_map (levels_of b' Bid) = (side_map (levels_of sample_book Bid))(99 \<mapsto> 5)"
proof -
  have "\<exists>b'. apply_delta sample_book Bid 99 5 = Inr b'"
    by (simp add: apply_delta_def apply_delta_side_def sample_book_def mk_level_def)
  then obtain b' where "apply_delta sample_book Bid 99 5 = Inr b'" by blast
  with apply_delta_refines_map [OF sample_book_ok this] show ?thesis by simp
qed

text \<open>A delta raises exactly when the level it would write is invalid: on a present price a non-zero
  size with a negative price or size, on an absent price a positive size with a negative price.  A
  negative size for an absent price is silently ignored, not rejected.\<close>

theorem apply_delta_raises_iff:
  "(\<exists>e. apply_delta b sd p s = Inl e) =
     (if p \<in> lv_price ` set (levels_of b sd) then s \<noteq> 0 \<and> (p < 0 \<or> s < 0) else 0 < s \<and> p < 0)"
  using apply_delta_side_raises_iff [of sd "levels_of b sd" p s]
  by (auto simp: apply_delta_def split: sum.splits)

text \<open>Bounds of the derived quantities in rounded arithmetic: the imbalance of a well-formed book lies in
  [-1, 1] for every number of levels, and the mid price of an uncrossed book with float prices lies
  between the best bid and the best ask.\<close>

theorem book_metrics_bounded:
  assumes "book_ok b"
  shows "(\<forall>n q. imbalance b n = Some q \<longrightarrow> \<bar>q\<bar> \<le> 1) \<and>
    (\<forall>x y. best_bid b = Some x \<and> best_ask b = Some y \<and> is_float (lv_price x) \<and> is_float (lv_price y) \<and>
       \<not> is_crossed b \<longrightarrow> (\<exists>m. mid_price b = Some m \<and> lv_price x \<le> m \<and> m \<le> lv_price y))"
proof (intro conjI allI impI)
  from assms have "list_all level_ok (levels_of b sd)" for sd by (auto simp: book_ok_sides side_ok_def)
  then show "imbalance b n = Some q \<Longrightarrow> \<bar>q\<bar> \<le> 1" for n q
    by (intro imbalance_in_range cumulative_size_nonneg)
next
  fix x y assume "best_bid b = Some x \<and> best_ask b = Some y \<and> is_float (lv_price x) \<and>
      is_float (lv_price y) \<and> \<not> is_crossed b"
  then show "\<exists>m. mid_price b = Some m \<and> lv_price x \<le> m \<and> m \<le> lv_price y"
    using mid_between [of "lv_price x" "lv_price y"]
    by (auto simp: best_bid_def best_ask_def first_of_def is_crossed_def mid_price_def split: list.splits)
qed

lemma book_metrics_bounded_witness:
  "(\<exists>q. imbalance sample_book 5 = Some q \<and> \<bar>q\<bar> \<le> 1) \<and> (\<exists>m. mid_price sample_book = Some m \<and> 100 \<le> m \<and> m \<le> 101)"
proof -
  have i: "imbalance sample_book 5 \<noteq> None" by code_simp
  obtain x y where xy: "best_bid sample_book = Some x" "lv_price x = 100" "best_ask sample_book = Some y"
      "lv_price y = 101" "\<not> is_crossed sample_book"
    by (simp add: sample_book_def best_bid_def best_ask_def first_of_def is_crossed_def)
  moreover have "is_float 100" "is_float 101" by (simp_all add: is_float_def)
  ultimately have "\<exists>m. mid_price sample_book = Some m \<and> lv_price x \<le> m \<and> m \<le> lv_price y"
    using book_metrics_bounded [OF sample_book_ok] by simp
  with i xy show ?thesis using book_metrics_bounded [OF sample_book_ok] by auto
qed

text \<open>Round trips: a well-formed book survives \<open>to_dict\<close> followed by \<open>from_dict\<close> except for the
  per-level order counts, which \<open>to_dict\<close> does not write; \<open>copy\<close> keeps the counts and returns an
  equal book.\<close>

theorem book_dict_roundtrip:
  assumes "book_ok b"
  shows "ob_from_dict (ob_to_dict b) =
      Inr (b\<lparr>ob_bids := map (lv_count_update Map.empty) (ob_bids b),
             ob_asks := map (lv_count_update Map.empty) (ob_asks b)\<rparr>) \<and> ob_copy b = Inr b"
  using assms by (simp add: book_ok_def side_ok_def ob_from_dict_def ob_to_dict_def ob_copy_def
      try_map_levels try_map_copy)

lemma book_dict_roundtrip_witness: "\<exists>b. ob_from_dict (ob_to_dict sample_book) = Inr b \<and> ob_copy sample_book = Inr sample_book"
  using book_dict_roundtrip [OF sample_book_ok] by blast

end
