(* ===== verification/Book_Sync.thy ===== *)
theory Book_Sync
  imports Book_Types
begin

text \<open>
  Order book synchronisation: the results and the interface of
  quantgambit/core/book/venue_sync.py, its \<open>BaseBookSync\<close>, and the Bybit subclass of
  quantgambit/io/adapters/bybit/book_sync.py.  A class hierarchy becomes a record extension;
  the overridable \<open>_check_sequence\<close> is an argument of the base class's \<open>on_delta\<close>.  An
  operation returns the new state beside its result or exception, so that what an
  exception leaves behind is visible.  Reasons, formatted text in the source, are kept as
  structured values.
\<close>

section \<open>Coherence and results\<close>

datatype coherence_status =
  COHERENT | STALE | SEQUENCE_GAP | CHECKSUM_FAIL | CROSSED | NO_SNAPSHOT | RESYNC_NEEDED

datatype sync_reason =
    CrossedSnapshot "pyfloat option" "pyfloat option"
  | CrossedAfterDelta "pyfloat option" "pyfloat option"
  | NoSnapshotYet
  | NoSnapshotYetBybit
  | NoSnapshotReceived
  | SequenceGapText int int int
  | BybitGapText int int int
  | ResyncRequested

record coherence =
  co_is_coherent :: bool
  co_status :: coherence_status
  co_sequence :: "int option"
  co_timestamp :: "pyfloat option"
  co_reason :: "sync_reason option"
  co_gap_count :: nat

definition coherent :: "int \<Rightarrow> pyfloat \<Rightarrow> coherence" where
  "coherent q t = \<lparr>co_is_coherent = True, co_status = COHERENT, co_sequence = Some q,
     co_timestamp = Some t, co_reason = None, co_gap_count = 0\<rparr>"

definition incoherent :: "coherence_status \<Rightarrow> sync_reason \<Rightarrow> int option \<Rightarrow> nat \<Rightarrow> coherence" where
  "incoherent st r q g = \<lparr>co_is_coherent = False, co_status = st, co_sequence = q,
     co_timestamp = None, co_reason = Some r, co_gap_count = g\<rparr>"

record sync_result =
  sr_book :: "order_book option"
  sr_coherence :: coherence
  sr_resync_requested :: bool

lemma coherent_simps [simp]:
  "co_is_coherent (coherent q t)" "\<not> co_is_coherent (incoherent st r q' g)"
  "co_status (coherent q t) = COHERENT" "co_status (incoherent st r q' g) = st"
  by (simp_all add: coherent_def incoherent_def)

section \<open>The base class\<close>

record base_sync =
  bs_max_gap :: int
  bs_max_stale_sec :: pyfloat
  bs_books :: "(string, order_book) dict"
  bs_last_sequence :: "(string, int) dict"
  bs_needs_resync :: "(string, bool) dict"
  bs_gap_counts :: "(string, nat) dict"
  bs_snapshot_counts :: "(string, nat) dict"
  bs_delta_counts :: "(string, nat) dict"

definition base_init :: "int \<Rightarrow> pyfloat \<Rightarrow> base_sync" where
  "base_init max_gap max_stale = \<lparr>bs_max_gap = max_gap, bs_max_stale_sec = max_stale, bs_books = [],
     bs_last_sequence = [], bs_needs_resync = [], bs_gap_counts = [], bs_snapshot_counts = [],
     bs_delta_counts = []\<rparr>"

type_synonym raw_levels = "pyfloat list list"

definition base_on_snapshot ::
  "'a base_sync_scheme \<Rightarrow> string \<Rightarrow> raw_levels \<Rightarrow> raw_levels \<Rightarrow> int \<Rightarrow> pyfloat \<Rightarrow>
     'a base_sync_scheme \<times> (py_error + sync_result)" where
  "base_on_snapshot s sy bids asks q t =
     (case try_map level_from_list bids of
        Inl e \<Rightarrow> (s, Inl e)
      | Inr bs \<Rightarrow>
     (case try_map level_from_list asks of
        Inl e \<Rightarrow> (s, Inl e)
      | Inr as \<Rightarrow>
          let book = \<lparr>ob_symbol = sy, ob_bids = bs, ob_asks = as, ob_update_id = Some q,
                ob_timestamp = Some t, ob_local_timestamp = None\<rparr>
          in if is_crossed book then
               (s, Inr \<lparr>sr_book = None,
                  sr_coherence = incoherent CROSSED
                    (CrossedSnapshot (best_bid_price book) (best_ask_price book)) (Some q) 0,
                  sr_resync_requested = True\<rparr>)
             else
               (s\<lparr>bs_books := d_put (bs_books s) sy book,
                  bs_last_sequence := d_put (bs_last_sequence s) sy q,
                  bs_needs_resync := d_put (bs_needs_resync s) sy False,
                  bs_snapshot_counts := d_incr (bs_snapshot_counts s) sy\<rparr>,
                Inr \<lparr>sr_book = Some book, sr_coherence = coherent q t, sr_resync_requested = False\<rparr>)))"

text \<open>The two loops over deltas mutate the stored book entry by entry, up to an exception.\<close>

fun apply_deltas :: "order_book \<Rightarrow> book_side \<Rightarrow> raw_levels \<Rightarrow> order_book \<times> py_error option" where
  "apply_deltas b sd [] = (b, None)"
| "apply_deltas b sd ((p # s # _) # ds) =
     (case apply_delta b sd p s of Inl e \<Rightarrow> (b, Some e) | Inr b' \<Rightarrow> apply_deltas b' sd ds)"
| "apply_deltas b sd (_ # ds) = (b, Some IndexError)"

definition base_on_delta ::
  "('a base_sync_scheme \<Rightarrow> string \<Rightarrow> int \<Rightarrow> int \<Rightarrow> 'a base_sync_scheme \<times> coherence) \<Rightarrow>
     'a base_sync_scheme \<Rightarrow> string \<Rightarrow> raw_levels \<Rightarrow> raw_levels \<Rightarrow> int \<Rightarrow> pyfloat \<Rightarrow>
     'a base_sync_scheme \<times> (py_error + sync_result)" where
  "base_on_delta check_sequence s sy bids asks q t =
     (case d_get (bs_books s) sy of
        None \<Rightarrow> (s, Inr \<lparr>sr_book = None, sr_coherence = incoherent NO_SNAPSHOT NoSnapshotYet (Some q) 0,
                      sr_resync_requested = True\<rparr>)
      | Some book \<Rightarrow>
     (let last_seq = d_get_or (bs_last_sequence s) sy 0;
          (s1, coh) = check_sequence s sy last_seq q
      in if \<not> co_is_coherent coh then
           (s1, Inr \<lparr>sr_book = Some book, sr_coherence = coh, sr_resync_requested = True\<rparr>)
         else
     (case apply_deltas book Bid bids of
        (book1, Some e) \<Rightarrow> (s1\<lparr>bs_books := d_put (bs_books s1) sy book1\<rparr>, Inl e)
      | (book1, None) \<Rightarrow>
     (case apply_deltas book1 Ask asks of
        (book2, Some e) \<Rightarrow> (s1\<lparr>bs_books := d_put (bs_books s1) sy book2\<rparr>, Inl e)
      | (book2, None) \<Rightarrow>
          let book3 = book2\<lparr>ob_update_id := Some q, ob_timestamp := Some t\<rparr>;
              s2 = s1\<lparr>bs_books := d_put (bs_books s1) sy book3,
                      bs_last_sequence := d_put (bs_last_sequence s1) sy q,
                      bs_delta_counts := d_incr (bs_delta_counts s1) sy\<rparr>
          in if is_crossed book3 then
               (s2\<lparr>bs_needs_resync := d_put (bs_needs_resync s2) sy True\<rparr>,
                Inr \<lparr>sr_book = Some book3,
                  sr_coherence = incoherent CROSSED
                    (CrossedAfterDelta (best_bid_price book3) (best_ask_price book3)) (Some q) 0,
                  sr_resync_requested = True\<rparr>)
             else (s2, Inr \<lparr>sr_book = Some book3, sr_coherence = coherent q t,
                            sr_resync_requested = False\<rparr>)))))"

definition base_check_sequence ::
  "'a base_sync_scheme \<Rightarrow> string \<Rightarrow> int \<Rightarrow> int \<Rightarrow> 'a base_sync_scheme \<times> coherence" where
  "base_check_sequence s sy last_seq new_seq =
     (let gap = new_seq - last_seq
      in if gap \<le> 0 then (s, coherent new_seq 0)
         else if bs_max_gap s + 1 < gap then
           (let gaps = d_incr (bs_gap_counts s) sy
            in (s\<lparr>bs_gap_counts := gaps\<rparr>,
                incoherent SEQUENCE_GAP (SequenceGapText last_seq new_seq gap) (Some new_seq) (d_get_or gaps sy 0)))
         else (s, coherent new_seq 0))"

definition base_get_book :: "'a base_sync_scheme \<Rightarrow> string \<Rightarrow> order_book option" where
  "base_get_book s sy = d_get (bs_books s) sy"

definition base_get_coherence :: "'a base_sync_scheme \<Rightarrow> string \<Rightarrow> coherence" where
  "base_get_coherence s sy =
     (case d_get (bs_books s) sy of
        None \<Rightarrow> incoherent NO_SNAPSHOT NoSnapshotReceived None 0
      | Some b \<Rightarrow>
          if d_get_or (bs_needs_resync s) sy False
          then incoherent RESYNC_NEEDED ResyncRequested (d_get (bs_last_sequence s) sy) 0
          else coherent (d_get_or (bs_last_sequence s) sy 0) (fo_or (ob_timestamp b) 0))"

definition base_needs_resync :: "'a base_sync_scheme \<Rightarrow> string \<Rightarrow> bool" where
  "base_needs_resync s sy = d_get_or (bs_needs_resync s) sy True"

definition base_request_resync :: "'a base_sync_scheme \<Rightarrow> string \<Rightarrow> 'a base_sync_scheme" where
  "base_request_resync s sy = s\<lparr>bs_needs_resync := d_put (bs_needs_resync s) sy True\<rparr>"

definition base_clear_resync :: "'a base_sync_scheme \<Rightarrow> string \<Rightarrow> 'a base_sync_scheme" where
  "base_clear_resync s sy = s\<lparr>bs_needs_resync := d_put (bs_needs_resync s) sy False\<rparr>"

definition base_reset :: "'a base_sync_scheme \<Rightarrow> string \<Rightarrow> 'a base_sync_scheme" where
  "base_reset s sy = s\<lparr>bs_books := d_pop (bs_books s) sy,
     bs_last_sequence := d_pop (bs_last_sequence s) sy,
     bs_needs_resync := d_pop (bs_needs_resync s) sy,
     bs_gap_counts := d_pop (bs_gap_counts s) sy\<rparr>"

record sync_stats =
  ss_symbols_tracked :: nat
  ss_total_snapshots :: nat
  ss_total_deltas :: nat
  ss_total_gaps :: nat
  ss_symbols_needing_resync :: nat

definition base_stats :: "'a base_sync_scheme \<Rightarrow> sync_stats" where
  "base_stats s = \<lparr>ss_symbols_tracked = length (bs_books s),
     ss_total_snapshots = sum_list (d_vals (bs_snapshot_counts s)),
     ss_total_deltas = sum_list (d_vals (bs_delta_counts s)),
     ss_total_gaps = sum_list (d_vals (bs_gap_counts s)),
     ss_symbols_needing_resync = length (filter id (d_vals (bs_needs_resync s)))\<rparr>"

section \<open>The interface\<close>

text \<open>
  The methods of the abstract class \<open>VenueBookSync\<close>, as a table of operations: clients such as
  the guardian take the table and so work with every venue.
\<close>

record 's sync_ops =
  so_snapshot :: "'s \<Rightarrow> string \<Rightarrow> raw_levels \<Rightarrow> raw_levels \<Rightarrow> int \<Rightarrow> pyfloat \<Rightarrow> 's \<times> (py_error + sync_result)"
  so_delta :: "'s \<Rightarrow> string \<Rightarrow> raw_levels \<Rightarrow> raw_levels \<Rightarrow> int \<Rightarrow> pyfloat \<Rightarrow> 's \<times> (py_error + sync_result)"
  so_get_book :: "'s \<Rightarrow> string \<Rightarrow> order_book option"
  so_get_coherence :: "'s \<Rightarrow> string \<Rightarrow> coherence"
  so_needs_resync :: "'s \<Rightarrow> string \<Rightarrow> bool"
  so_request_resync :: "'s \<Rightarrow> string \<Rightarrow> 's"
  so_reset :: "'s \<Rightarrow> string \<Rightarrow> 's"

text \<open>
  What a client relies on.  \<open>inv\<close> is the provider's representation invariant.  A successful
  snapshot makes the symbol coherent; no delta makes an incoherent symbol coherent;
  the book an accepted update returns is the stored one and is not crossed.
\<close>

locale venue_sync =
  fixes ops :: "'s sync_ops" and inv :: "'s \<Rightarrow> bool"
  assumes coherent_book: "co_is_coherent (so_get_coherence ops s sy) \<Longrightarrow> so_get_book ops s sy \<noteq> None"
    and snapshot_accepted: "so_snapshot ops s sy bs as q t = (s', Inr r) \<Longrightarrow> \<not> sr_resync_requested r \<Longrightarrow>
        sr_book r = so_get_book ops s' sy \<and> co_is_coherent (so_get_coherence ops s' sy) \<and>
        (\<exists>b. sr_book r = Some b \<and> \<not> is_crossed b)"
    and snapshot_refused: "so_snapshot ops s sy bs as q t = (s', Inr r) \<Longrightarrow> sr_resync_requested r \<Longrightarrow>
        so_get_book ops s' = so_get_book ops s \<and> so_get_coherence ops s' = so_get_coherence ops s"
    and delta_accepted: "so_delta ops s sy bs as q t = (s', Inr r) \<Longrightarrow> \<not> sr_resync_requested r \<Longrightarrow>
        sr_book r = so_get_book ops s' sy \<and> (\<exists>b. sr_book r = Some b \<and> \<not> is_crossed b)"
    and delta_no_cure: "so_delta ops s sy bs as q t = (s', res) \<Longrightarrow>
        \<not> co_is_coherent (so_get_coherence ops s sy') \<Longrightarrow> \<not> co_is_coherent (so_get_coherence ops s' sy')"
    and update_other: "so_snapshot ops s sy bs as q t = (s', res) \<or> so_delta ops s sy bs as q t = (s', res) \<Longrightarrow>
        sy' \<noteq> sy \<Longrightarrow> so_get_book ops s' sy' = so_get_book ops s sy' \<and>
        so_get_coherence ops s' sy' = so_get_coherence ops s sy'"
    and request_book: "so_get_book ops (so_request_resync ops s sy) sy' = so_get_book ops s sy'"
    and request_coherence: "so_get_coherence ops (so_request_resync ops s sy) sy' =
        (if sy' = sy then so_get_coherence ops (so_request_resync ops s sy) sy else so_get_coherence ops s sy')"
    and request_incoherent: "\<not> co_is_coherent (so_get_coherence ops (so_request_resync ops s sy) sy)"
    and request_needs: "so_needs_resync ops (so_request_resync ops s sy) sy"
    and reset_gone: "inv s \<Longrightarrow> so_get_book ops (so_reset ops s sy) sy = None"
    and inv_snapshot: "inv s \<Longrightarrow> inv (fst (so_snapshot ops s sy bs as q t))"
    and inv_delta: "inv s \<Longrightarrow> inv (fst (so_delta ops s sy bs as q t))"
    and inv_request: "inv s \<Longrightarrow> inv (so_request_resync ops s sy)"
    and inv_reset: "inv s \<Longrightarrow> inv (so_reset ops s sy)"
begin

text \<open>After a resync request, no number of deltas on any symbols makes the symbol coherent again.\<close>

lemma deltas_no_cure:
  "\<not> co_is_coherent (so_get_coherence ops s sy) \<Longrightarrow>
   \<not> co_is_coherent (so_get_coherence ops
       (fold (\<lambda>(y, bs, as, q, t) s. fst (so_delta ops s y bs as q t)) ds s) sy)"
proof (induction ds arbitrary: s)
  case (Cons d ds)
  obtain y bs as q t where d: "d = (y, bs, as, q, t)" by (metis prod_cases5)
  obtain s' r where e: "so_delta ops s y bs as q t = (s', r)" by force
  with Cons delta_no_cure [OF e] d show ?case by simp
qed simp

lemma resync_sticky:
  "\<not> co_is_coherent (so_get_coherence ops
       (fold (\<lambda>(y, bs, as, q, t) s. fst (so_delta ops s y bs as q t)) ds (so_request_resync ops s sy)) sy)"
  by (rule deltas_no_cure [OF request_incoherent])

lemma snapshot_cures:
  "so_snapshot ops (so_request_resync ops s sy) sy bs as q t = (s', Inr r) \<Longrightarrow> \<not> sr_resync_requested r \<Longrightarrow>
     co_is_coherent (so_get_coherence ops s' sy)"
  using snapshot_accepted by blast

lemma request_keeps_others: "sy' \<noteq> sy \<Longrightarrow>
    so_get_coherence ops (so_request_resync ops s sy) sy' = so_get_coherence ops s sy'"
  by (subst request_coherence) simp

end

section \<open>Library for the base class\<close>

lemma apply_deltas_simps [simp]:
  "apply_deltas b sd ([] # ds) = (b, Some IndexError)"
  "apply_deltas b sd ([p] # ds) = (b, Some IndexError)"
  by simp_all

lemma apply_deltas_frame:
  "apply_deltas b sd ds = (b', e) \<Longrightarrow> ob_symbol b' = ob_symbol b \<and> ob_update_id b' = ob_update_id b \<and>
     ob_timestamp b' = ob_timestamp b"
proof (induction b sd ds rule: apply_deltas.induct)
  case (2 b sd p s ds0 ds)
  then show ?case by (auto dest: apply_delta_frame split: sum.splits)
qed auto

lemma apply_deltas_ok: "apply_deltas b sd ds = (b', e) \<Longrightarrow> book_ok b \<Longrightarrow> book_ok b'"
proof (induction b sd ds rule: apply_deltas.induct)
  case (2 b sd p s ds0 ds)
  then show ?case by (auto dest: apply_delta_ok split: sum.splits)
qed auto

definition base_inv :: "'a base_sync_scheme \<Rightarrow> bool" where
  "base_inv s = (d_wf (bs_books s) \<and> d_wf (bs_last_sequence s) \<and> d_wf (bs_needs_resync s) \<and> d_wf (bs_gap_counts s))"

lemma base_inv_ops:
  "base_inv s \<Longrightarrow> base_inv (base_request_resync s sy)"
  "base_inv s \<Longrightarrow> base_inv (base_clear_resync s sy)"
  "base_inv s \<Longrightarrow> base_inv (base_reset s sy)"
  "base_inv s \<Longrightarrow> base_inv (fst (base_on_snapshot s sy bs as q t))"
  by (auto simp: base_inv_def base_request_resync_def base_clear_resync_def base_reset_def
      base_on_snapshot_def Let_def split: sum.splits)

text \<open>A sequence check may only count gaps.\<close>

definition gap_only :: "('a base_sync_scheme \<Rightarrow> string \<Rightarrow> int \<Rightarrow> int \<Rightarrow> 'a base_sync_scheme \<times> coherence) \<Rightarrow> bool" where
  "gap_only chk = (\<forall>s sy l q s1 coh. chk s sy l q = (s1, coh) \<longrightarrow>
     (\<exists>g. s1 = s\<lparr>bs_gap_counts := g\<rparr> \<and> (d_wf (bs_gap_counts s) \<longrightarrow> d_wf g)))"

lemma gap_same: "\<exists>g. s = s\<lparr>bs_gap_counts := g\<rparr> \<and> (d_wf (bs_gap_counts s) \<longrightarrow> d_wf g)"
  by (rule exI [of _ "bs_gap_counts s"]) simp

lemma gap_only_base: "gap_only base_check_sequence"
  by (auto simp: gap_only_def base_check_sequence_def Let_def split: if_splits intro: gap_same)

lemma gap_onlyE:
  assumes "gap_only chk" "chk s sy l q = (s1, coh)"
  obtains g where "s1 = s\<lparr>bs_gap_counts := g\<rparr>" "d_wf (bs_gap_counts s) \<Longrightarrow> d_wf g"
  using assms unfolding gap_only_def by blast

lemma coherence_iff:
  "co_is_coherent (base_get_coherence s sy) \<longleftrightarrow>
     d_get (bs_books s) sy \<noteq> None \<and> \<not> d_get_or (bs_needs_resync s) sy False"
  by (auto simp: base_get_coherence_def split: option.splits)

text \<open>The outcomes of a delta, one per return or exception of \<open>on_delta\<close>.\<close>

lemma base_on_delta_cases [consumes 2, case_names no_book gap bid_error ask_error crossed applied]:
  assumes "base_on_delta chk s sy bids asks q t = (s', res)" "gap_only chk"
    and "d_get (bs_books s) sy = None \<Longrightarrow> s' = s \<Longrightarrow>
      res = Inr \<lparr>sr_book = None, sr_coherence = incoherent NO_SNAPSHOT NoSnapshotYet (Some q) 0,
        sr_resync_requested = True\<rparr> \<Longrightarrow> thesis"
    and "\<And>book coh g. d_get (bs_books s) sy = Some book \<Longrightarrow>
      chk s sy (d_get_or (bs_last_sequence s) sy 0) q = (s', coh) \<Longrightarrow> \<not> co_is_coherent coh \<Longrightarrow>
      s' = s\<lparr>bs_gap_counts := g\<rparr> \<Longrightarrow> (d_wf (bs_gap_counts s) \<Longrightarrow> d_wf g) \<Longrightarrow>
      res = Inr \<lparr>sr_book = Some book, sr_coherence = coh, sr_resync_requested = True\<rparr> \<Longrightarrow> thesis"
    and "\<And>book book1 e g. d_get (bs_books s) sy = Some book \<Longrightarrow> apply_deltas book Bid bids = (book1, Some e) \<Longrightarrow>
      (d_wf (bs_gap_counts s) \<Longrightarrow> d_wf g) \<Longrightarrow>
      s' = s\<lparr>bs_gap_counts := g, bs_books := d_put (bs_books s) sy book1\<rparr> \<Longrightarrow> res = Inl e \<Longrightarrow> thesis"
    and "\<And>book book1 book2 e g. d_get (bs_books s) sy = Some book \<Longrightarrow> apply_deltas book Bid bids = (book1, None) \<Longrightarrow>
      apply_deltas book1 Ask asks = (book2, Some e) \<Longrightarrow> (d_wf (bs_gap_counts s) \<Longrightarrow> d_wf g) \<Longrightarrow>
      s' = s\<lparr>bs_gap_counts := g, bs_books := d_put (bs_books s) sy book2\<rparr> \<Longrightarrow> res = Inl e \<Longrightarrow> thesis"
    and "\<And>book book1 book2 book3 g. d_get (bs_books s) sy = Some book \<Longrightarrow>
      apply_deltas book Bid bids = (book1, None) \<Longrightarrow> apply_deltas book1 Ask asks = (book2, None) \<Longrightarrow>
      (d_wf (bs_gap_counts s) \<Longrightarrow> d_wf g) \<Longrightarrow>
      book3 = book2\<lparr>ob_update_id := Some q, ob_timestamp := Some t\<rparr> \<Longrightarrow> is_crossed book3 \<Longrightarrow>
      s' = s\<lparr>bs_gap_counts := g, bs_books := d_put (bs_books s) sy book3,
        bs_last_sequence := d_put (bs_last_sequence s) sy q, bs_delta_counts := d_incr (bs_delta_counts s) sy,
        bs_needs_resync := d_put (bs_needs_resync s) sy True\<rparr> \<Longrightarrow>
      res = Inr \<lparr>sr_book = Some book3, sr_coherence = incoherent CROSSED
          (CrossedAfterDelta (best_bid_price book3) (best_ask_price book3)) (Some q) 0,
        sr_resync_requested = True\<rparr> \<Longrightarrow> thesis"
    and "\<And>book book1 book2 book3 g. d_get (bs_books s) sy = Some book \<Longrightarrow>
      apply_deltas book Bid bids = (book1, None) \<Longrightarrow> apply_deltas book1 Ask asks = (book2, None) \<Longrightarrow>
      (d_wf (bs_gap_counts s) \<Longrightarrow> d_wf g) \<Longrightarrow>
      book3 = book2\<lparr>ob_update_id := Some q, ob_timestamp := Some t\<rparr> \<Longrightarrow> \<not> is_crossed book3 \<Longrightarrow>
      s' = s\<lparr>bs_gap_counts := g, bs_books := d_put (bs_books s) sy book3,
        bs_last_sequence := d_put (bs_last_sequence s) sy q,
        bs_delta_counts := d_incr (bs_delta_counts s) sy\<rparr> \<Longrightarrow>
      res = Inr \<lparr>sr_book = Some book3, sr_coherence = coherent q t, sr_resync_requested = False\<rparr> \<Longrightarrow> thesis"
  shows thesis
proof (cases "d_get (bs_books s) sy")
  case None
  with assms(1) have "s' = s" "res = Inr \<lparr>sr_book = None,
      sr_coherence = incoherent NO_SNAPSHOT NoSnapshotYet (Some q) 0, sr_resync_requested = True\<rparr>"
    by (simp_all add: base_on_delta_def)
  with assms(3) [OF None] show ?thesis by blast
next
  case (Some book)
  obtain s1 coh where chk: "chk s sy (d_get_or (bs_last_sequence s) sy 0) q = (s1, coh)" by force
  obtain g where g: "s1 = s\<lparr>bs_gap_counts := g\<rparr>" "d_wf (bs_gap_counts s) \<Longrightarrow> d_wf g"
    using gap_onlyE [OF assms(2) chk] by blast
  show ?thesis
  proof (cases "co_is_coherent coh")
    case False
    with assms(1) Some chk have "s' = s1"
      "res = Inr \<lparr>sr_book = Some book, sr_coherence = coh, sr_resync_requested = True\<rparr>"
      by (simp_all add: base_on_delta_def)
    with assms(4) [OF Some _ False _ g(2)] chk g(1) show ?thesis by blast
  next
    case True
    obtain b1 e1 where b1: "apply_deltas book Bid bids = (b1, e1)" by force
    obtain b2 e2 where b2: "apply_deltas b1 Ask asks = (b2, e2)" by force
    let ?b3 = "b2\<lparr>ob_update_id := Some q, ob_timestamp := Some t\<rparr>"
    note d = assms(1) [unfolded base_on_delta_def, simplified Some chk True b1 b2 g(1) Let_def
        option.case prod.case not_True_eq_False if_False if_True simp_thms]
    show ?thesis
    proof (cases e1)
      case (Some e)
      with d have "s' = s\<lparr>bs_gap_counts := g, bs_books := d_put (bs_books s) sy b1\<rparr>" "res = Inl e" by simp_all
      with assms(5) [OF \<open>d_get (bs_books s) sy = Some book\<close>] b1 Some g(2) show ?thesis by blast
    next
      case e1: None
      show ?thesis
      proof (cases e2)
        case (Some e)
        with d e1 have "s' = s\<lparr>bs_gap_counts := g, bs_books := d_put (bs_books s) sy b2\<rparr>" "res = Inl e"
          by simp_all
        with assms(6) [OF \<open>d_get (bs_books s) sy = Some book\<close>] b1 e1 b2 Some g(2) show ?thesis by blast
      next
        case e2: None
        show ?thesis
        proof (cases "is_crossed ?b3")
          case True
          with d e1 e2 show ?thesis
            by (intro assms(7) [OF \<open>d_get (bs_books s) sy = Some book\<close> b1 [unfolded e1] b2 [unfolded e2] g(2) refl True])
              simp_all
        next
          case False
          with d e1 e2 show ?thesis
            by (intro assms(8) [OF \<open>d_get (bs_books s) sy = Some book\<close> b1 [unfolded e1] b2 [unfolded e2] g(2) refl False])
              simp_all
        qed
      qed
    qed
  qed
qed

lemma base_inv_delta: "gap_only chk \<Longrightarrow> base_inv s \<Longrightarrow> base_inv (fst (base_on_delta chk s sy bids asks q t))"
proof -
  assume g: "gap_only chk" and i: "base_inv s"
  obtain s' r where e: "base_on_delta chk s sy bids asks q t = (s', r)" by force
  from e g have "base_inv s'" by (cases rule: base_on_delta_cases) (use i in \<open>auto simp: base_inv_def\<close>)
  with e show ?thesis by simp
qed

section \<open>The laws of the interface for the base class\<close>

lemma base_on_snapshot_cases [consumes 1, case_names error crossed accepted]:
  assumes "base_on_snapshot s sy bids asks q t = (s', res)"
    and "\<And>e. s' = s \<Longrightarrow> res = Inl e \<Longrightarrow> thesis"
    and "\<And>r. s' = s \<Longrightarrow> res = Inr r \<Longrightarrow> sr_book r = None \<Longrightarrow> sr_resync_requested r \<Longrightarrow>
      co_status (sr_coherence r) = CROSSED \<Longrightarrow> thesis"
    and "\<And>bs as book. try_map level_from_list bids = Inr bs \<Longrightarrow> try_map level_from_list asks = Inr as \<Longrightarrow>
      book = \<lparr>ob_symbol = sy, ob_bids = bs, ob_asks = as, ob_update_id = Some q, ob_timestamp = Some t,
        ob_local_timestamp = None\<rparr> \<Longrightarrow> \<not> is_crossed book \<Longrightarrow>
      s' = s\<lparr>bs_books := d_put (bs_books s) sy book, bs_last_sequence := d_put (bs_last_sequence s) sy q,
        bs_needs_resync := d_put (bs_needs_resync s) sy False,
        bs_snapshot_counts := d_incr (bs_snapshot_counts s) sy\<rparr> \<Longrightarrow>
      res = Inr \<lparr>sr_book = Some book, sr_coherence = coherent q t, sr_resync_requested = False\<rparr> \<Longrightarrow> thesis"
  shows thesis
proof (cases "try_map level_from_list bids")
  case (Inl e)
  with assms(1) have "s' = s" "res = Inl e" by (simp_all add: base_on_snapshot_def)
  then show ?thesis by (rule assms(2))
next
  case bs: (Inr bs)
  show ?thesis
  proof (cases "try_map level_from_list asks")
    case (Inl e)
    with assms(1) bs have "s' = s" "res = Inl e" by (simp_all add: base_on_snapshot_def)
    then show ?thesis by (rule assms(2))
  next
    case as: (Inr as)
    let ?b = "\<lparr>ob_symbol = sy, ob_bids = bs, ob_asks = as, ob_update_id = Some q, ob_timestamp = Some t,
        ob_local_timestamp = None\<rparr>"
    show ?thesis
    proof (cases "is_crossed ?b")
      case True
      with assms(1) bs as show ?thesis by (intro assms(3)) (auto simp: base_on_snapshot_def Let_def)
    next
      case False
      with assms(1) bs as show ?thesis
        by (intro assms(4) [OF bs as refl False]) (simp_all add: base_on_snapshot_def Let_def)
    qed
  qed
qed

lemma base_snapshot_accepted:
  "base_on_snapshot s sy bids asks q t = (s', Inr r) \<Longrightarrow> \<not> sr_resync_requested r \<Longrightarrow>
     sr_book r = base_get_book s' sy \<and> co_is_coherent (base_get_coherence s' sy) \<and>
     (\<exists>b. sr_book r = Some b \<and> \<not> is_crossed b)"
  by (cases rule: base_on_snapshot_cases [of s sy bids asks q t s' "Inr r"])
    (auto simp: base_get_book_def coherence_iff)

lemma base_snapshot_refused:
  "base_on_snapshot s sy bids asks q t = (s', Inr r) \<Longrightarrow> sr_resync_requested r \<Longrightarrow> s' = s"
  by (cases rule: base_on_snapshot_cases [of s sy bids asks q t s' "Inr r"]) auto

lemma base_delta_accepted:
  "base_on_delta chk s sy bids asks q t = (s', Inr r) \<Longrightarrow> gap_only chk \<Longrightarrow> \<not> sr_resync_requested r \<Longrightarrow>
     sr_book r = base_get_book s' sy \<and> (\<exists>b. sr_book r = Some b \<and> \<not> is_crossed b)"
  by (erule base_on_delta_cases, assumption) (auto simp: base_get_book_def)

lemma base_delta_no_cure:
  assumes "base_on_delta chk s sy bids asks q t = (s', res)" "gap_only chk"
    "\<not> co_is_coherent (base_get_coherence s sy')"
  shows "\<not> co_is_coherent (base_get_coherence s' sy')"
  using assms(1,2) by (cases rule: base_on_delta_cases) (use assms(3) in \<open>auto simp: coherence_iff\<close>)

lemma base_delta_other:
  assumes "base_on_delta chk s sy bids asks q t = (s', res)" "gap_only chk" "sy' \<noteq> sy"
  shows "base_get_book s' sy' = base_get_book s sy' \<and> base_get_coherence s' sy' = base_get_coherence s sy'"
  using assms(1,2)
  by (cases rule: base_on_delta_cases) (use assms(3) in \<open>auto simp: base_get_book_def base_get_coherence_def split: option.split\<close>)

lemma base_snapshot_other:
  assumes "base_on_snapshot s sy bids asks q t = (s', res)" "sy' \<noteq> sy"
  shows "base_get_book s' sy' = base_get_book s sy' \<and> base_get_coherence s' sy' = base_get_coherence s sy'"
  using assms(1)
  by (cases rule: base_on_snapshot_cases) (use assms(2) in \<open>auto simp: base_get_book_def base_get_coherence_def split: option.split\<close>)

lemma base_request_laws:
  "base_get_book (base_request_resync s sy) sy' = base_get_book s sy'"
  "sy' \<noteq> sy \<Longrightarrow> base_get_coherence (base_request_resync s sy) sy' = base_get_coherence s sy'"
  "\<not> co_is_coherent (base_get_coherence (base_request_resync s sy) sy)"
  "base_needs_resync (base_request_resync s sy) sy"
  by (auto simp: base_get_book_def base_request_resync_def base_get_coherence_def base_needs_resync_def
      split: option.splits)

lemma base_reset_book: "base_inv s \<Longrightarrow> base_get_book (base_reset s sy) sy = None"
  by (simp add: base_inv_def base_get_book_def base_reset_def)

lemmas base_laws = base_snapshot_accepted base_snapshot_refused base_delta_accepted base_delta_no_cure
  base_delta_other base_snapshot_other base_request_laws base_reset_book base_inv_ops base_inv_delta

definition base_ops :: "base_sync sync_ops" where
  "base_ops = \<lparr>so_snapshot = base_on_snapshot, so_delta = base_on_delta base_check_sequence,
     so_get_book = base_get_book, so_get_coherence = base_get_coherence, so_needs_resync = base_needs_resync,
     so_request_resync = base_request_resync, so_reset = base_reset\<rparr>"

interpretation base: venue_sync base_ops base_inv
proof (unfold_locales, goal_cases)
  case (1 s sy) then show ?case by (auto simp: base_ops_def coherence_iff base_get_book_def)
next
  case (2 s sy bs as q t s' r) then show ?case using base_snapshot_accepted by (simp add: base_ops_def) blast
next
  case (3 s sy bs as q t s' r) then show ?case by (auto simp: base_ops_def dest: base_snapshot_refused)
next
  case (4 s sy bs as q t s' r)
  then show ?case using base_delta_accepted [OF _ gap_only_base] by (simp add: base_ops_def) blast
next
  case (5 s sy bs as q t s' res sy')
  then show ?case using base_delta_no_cure [OF _ gap_only_base] by (simp add: base_ops_def) blast
next
  case (6 s sy bs as q t s' res sy')
  then show ?case using base_delta_other [OF _ gap_only_base] base_snapshot_other by (simp add: base_ops_def) blast
qed (auto simp: base_ops_def base_request_laws base_reset_book base_inv_ops base_inv_delta gap_only_base)

end
