(* ===== verification/Bybit_Sync.thy ===== *)
theory Bybit_Sync
  imports Book_Sync
begin

text \<open>
  The Bybit subclass (quantgambit/io/adapters/bybit/book_sync.py): strict update ids, a snapshot
  flag per symbol, and the routing of raw messages.  It interprets the venue interface, and
  the section on replicas shows that in-order deltas keep the local book equal to the
  exchange's.
\<close>

section \<open>The subclass\<close>

record bybit_sync = base_sync +
  by_has_snapshot :: "(string, bool) dict"

definition bybit_init :: "int \<Rightarrow> pyfloat \<Rightarrow> bybit_sync" where
  "bybit_init max_gap max_stale = \<lparr>bs_max_gap = max_gap, bs_max_stale_sec = max_stale, bs_books = [],
     bs_last_sequence = [], bs_needs_resync = [], bs_gap_counts = [], bs_snapshot_counts = [],
     bs_delta_counts = [], by_has_snapshot = []\<rparr>"

definition bybit_on_snapshot ::
  "bybit_sync \<Rightarrow> string \<Rightarrow> raw_levels \<Rightarrow> raw_levels \<Rightarrow> int \<Rightarrow> pyfloat \<Rightarrow> bybit_sync \<times> (py_error + sync_result)" where
  "bybit_on_snapshot s sy bids asks q t =
     base_on_snapshot (s\<lparr>by_has_snapshot := d_put (by_has_snapshot s) sy True\<rparr>) sy bids asks q t"

definition bybit_check_sequence :: "bybit_sync \<Rightarrow> string \<Rightarrow> int \<Rightarrow> int \<Rightarrow> bybit_sync \<times> coherence" where
  "bybit_check_sequence s sy last_seq new_seq =
     (if last_seq = 0 then (s, coherent new_seq 0)
      else let expected = last_seq + 1
        in if new_seq < expected then (s, coherent last_seq 0)
           else if expected < new_seq then
             (let gap = new_seq - last_seq; gaps = d_incr (bs_gap_counts s) sy
              in (s\<lparr>bs_gap_counts := gaps\<rparr>,
                  incoherent SEQUENCE_GAP (BybitGapText expected new_seq gap) (Some new_seq) (d_get_or gaps sy 0)))
           else (s, coherent new_seq 0))"

definition bybit_on_delta ::
  "bybit_sync \<Rightarrow> string \<Rightarrow> raw_levels \<Rightarrow> raw_levels \<Rightarrow> int \<Rightarrow> pyfloat \<Rightarrow> bybit_sync \<times> (py_error + sync_result)" where
  "bybit_on_delta s sy bids asks q t =
     (if \<not> d_get_or (by_has_snapshot s) sy False then
        (s, Inr \<lparr>sr_book = None, sr_coherence = incoherent NO_SNAPSHOT NoSnapshotYetBybit (Some q) 0,
                sr_resync_requested = True\<rparr>)
      else base_on_delta bybit_check_sequence s sy bids asks q t)"

definition bybit_reset :: "bybit_sync \<Rightarrow> string \<Rightarrow> bybit_sync" where
  "bybit_reset s sy = (base_reset s sy)\<lparr>by_has_snapshot := d_pop (by_has_snapshot s) sy\<rparr>"

definition bybit_needs_resync :: "bybit_sync \<Rightarrow> string \<Rightarrow> bool" where
  "bybit_needs_resync s sy =
     (if \<not> d_get_or (by_has_snapshot s) sy False then True else base_needs_resync s sy)"

text \<open>A raw message: missing keys are \<open>None\<close> and take the defaults of \<open>dict.get\<close>.\<close>

record bybit_data =
  bd_s :: "string option"
  bd_b :: "raw_levels option"
  bd_a :: "raw_levels option"
  bd_u :: "int option"

record bybit_msg =
  bm_data :: "bybit_data option"
  bm_type :: "string option"
  bm_ts :: "pyfloat option"

definition opt_or :: "'a option \<Rightarrow> 'a \<Rightarrow> 'a" where
  "opt_or x d = (case x of None \<Rightarrow> d | Some v \<Rightarrow> v)"

definition parse_message :: "bybit_msg \<Rightarrow> string \<times> string \<times> raw_levels \<times> raw_levels \<times> int \<times> pyfloat" where
  "parse_message raw =
     (let data = opt_or (bm_data raw) \<lparr>bd_s = None, bd_b = None, bd_a = None, bd_u = None\<rparr>
      in (opt_or (bd_s data) [], opt_or (bm_type raw) [], opt_or (bd_b data) [], opt_or (bd_a data) [],
          opt_or (bd_u data) 0, fl (opt_or (bm_ts raw) 0 / 1000)))"

definition process_message :: "bybit_sync \<Rightarrow> bybit_msg \<Rightarrow> bybit_sync \<times> (py_error + sync_result) option" where
  "process_message s raw =
     (case parse_message raw of (sy, ty, bids, asks, q, t) \<Rightarrow>
        if sy = [] then (s, None)
        else if ty = ''snapshot'' then (case bybit_on_snapshot s sy bids asks q t of (s', r) \<Rightarrow> (s', Some r))
        else if ty = ''delta'' then (case bybit_on_delta s sy bids asks q t of (s', r) \<Rightarrow> (s', Some r))
        else (s, None))"

section \<open>Interpretation of the venue interface\<close>

definition bybit_ops :: "bybit_sync sync_ops" where
  "bybit_ops = \<lparr>so_snapshot = bybit_on_snapshot, so_delta = bybit_on_delta,
     so_get_book = base_get_book, so_get_coherence = base_get_coherence, so_needs_resync = bybit_needs_resync,
     so_request_resync = base_request_resync, so_reset = bybit_reset\<rparr>"

lemma gap_only_bybit: "gap_only bybit_check_sequence"
  by (auto simp: gap_only_def bybit_check_sequence_def Let_def split: if_splits intro: gap_same)

lemma has_snapshot_frame [simp]:
  "base_get_book (s\<lparr>by_has_snapshot := h\<rparr>) = base_get_book s"
  "base_get_coherence (s\<lparr>by_has_snapshot := h\<rparr>) = base_get_coherence s"
  "base_inv (s\<lparr>by_has_snapshot := h\<rparr>) = base_inv s"
  by (auto simp: fun_eq_iff base_get_book_def base_get_coherence_def base_inv_def split: option.split)

interpretation bybit: venue_sync bybit_ops base_inv
proof (unfold_locales, goal_cases)
  case (1 s sy) then show ?case by (auto simp: bybit_ops_def coherence_iff base_get_book_def)
next
  case (2 s sy bs as q t s' r)
  then show ?case using base_snapshot_accepted by (simp add: bybit_ops_def bybit_on_snapshot_def) blast
next
  case (3 s sy bs as q t s' r)
  then show ?case by (auto simp: bybit_ops_def bybit_on_snapshot_def dest: base_snapshot_refused)
next
  case (4 s sy bs as q t s' r)
  then have "base_on_delta bybit_check_sequence s sy bs as q t = (s', Inr r)"
    by (auto simp: bybit_ops_def bybit_on_delta_def split: if_splits)
  from base_delta_accepted [OF this gap_only_bybit 4(2)] show ?case by (auto simp: bybit_ops_def eq_commute)
next
  case (5 s sy bs as q t s' res sy')
  then show ?case using base_delta_no_cure [OF _ gap_only_bybit]
    by (simp add: bybit_ops_def bybit_on_delta_def split: if_splits)
next
  case (6 s sy bs as q t s' res sy')
  have d: "base_on_delta bybit_check_sequence s sy bs as q t = (s', res) \<Longrightarrow>
      base_get_book s' sy' = base_get_book s sy' \<and> base_get_coherence s' sy' = base_get_coherence s sy'"
    using base_delta_other [OF _ gap_only_bybit 6(2)] .
  have "base_on_snapshot (s\<lparr>by_has_snapshot := d_put (by_has_snapshot s) sy True\<rparr>) sy bs as q t = (s', res) \<Longrightarrow>
      base_get_book s' sy' = base_get_book s sy' \<and> base_get_coherence s' sy' = base_get_coherence s sy'"
    by (drule base_snapshot_other [OF _ 6(2)]) simp
  with d 6 show ?case
    by (auto simp: bybit_ops_def bybit_on_snapshot_def bybit_on_delta_def split: if_splits)
next
  case (10 s sy) then show ?case by (simp add: bybit_ops_def bybit_needs_resync_def base_request_laws)
qed (auto simp: bybit_ops_def bybit_on_snapshot_def bybit_on_delta_def bybit_reset_def base_request_laws
    base_reset_book base_inv_ops base_inv_delta gap_only_bybit)

section \<open>Reachable states\<close>

text \<open>
  Well-formed input: a snapshot lists each side best first without duplicate prices, sizes are
  positive; a delta entry has a price and a size, neither negative.
\<close>

definition snapshot_ok :: "raw_levels \<Rightarrow> raw_levels \<Rightarrow> bool" where
  "snapshot_ok bids asks = ((\<exists>bs. try_map level_from_list bids = Inr bs \<and> side_ok Bid bs) \<and>
     (\<exists>as. try_map level_from_list asks = Inr as \<and> side_ok Ask as))"

definition delta_entry_ok :: "pyfloat list \<Rightarrow> bool" where
  "delta_entry_ok e = (case e of p # s # _ \<Rightarrow> 0 \<le> p \<and> 0 \<le> s | _ \<Rightarrow> False)"

abbreviation delta_ok :: "raw_levels \<Rightarrow> bool" where
  "delta_ok ds \<equiv> list_all delta_entry_ok ds"

text \<open>
  What a run of the synchroniser can reach.  \<open>clear_resync\<close> has no caller in the repository
  and is left out.
\<close>

inductive bybit_reach :: "bybit_sync \<Rightarrow> bool" where
  reach_init: "bybit_reach (bybit_init g t)"
| reach_snapshot: "bybit_reach s \<Longrightarrow> snapshot_ok bids asks \<Longrightarrow> bybit_reach (fst (bybit_on_snapshot s sy bids asks q t))"
| reach_delta: "bybit_reach s \<Longrightarrow> delta_ok bids \<Longrightarrow> delta_ok asks \<Longrightarrow> bybit_reach (fst (bybit_on_delta s sy bids asks q t))"
| reach_request: "bybit_reach s \<Longrightarrow> bybit_reach (base_request_resync s sy)"
| reach_reset: "bybit_reach s \<Longrightarrow> bybit_reach (bybit_reset s sy)"

lemma apply_delta_valid:
  assumes "0 \<le> p" "0 \<le> s"
  obtains b' where "apply_delta b sd p s = Inr b'"
proof (cases "apply_delta b sd p s")
  case (Inl e)
  with apply_delta_side_raises_iff [of sd "levels_of b sd" p s] assms show ?thesis
    by (auto simp: apply_delta_def split: sum.splits if_splits)
qed (rule that)

lemma apply_deltas_valid:
  assumes "delta_ok ds"
  obtains b' where "apply_deltas b sd ds = (b', None)"
proof -
  have "\<exists>b'. apply_deltas b sd ds = (b', None)" using assms
  proof (induction b sd ds rule: apply_deltas.induct)
    case (2 b sd p s x ds)
    then have "0 \<le> p" "0 \<le> s" by (auto simp: delta_entry_ok_def)
    then obtain b' where "apply_delta b sd p s = Inr b'" by (rule apply_delta_valid)
    with 2 show ?case by simp
  qed (auto simp: delta_entry_ok_def)
  with that show ?thesis by blast
qed

text \<open>Every stored book is well-formed, and a crossed one is flagged for a resync.\<close>

definition sync_inv :: "'a base_sync_scheme \<Rightarrow> bool" where
  "sync_inv s = (base_inv s \<and> (\<forall>sy b. d_get (bs_books s) sy = Some b \<longrightarrow>
     book_ok b \<and> (is_crossed b \<longrightarrow> d_get_or (bs_needs_resync s) sy False)))"

lemma book_meta_simps [simp]:
  "book_ok (b\<lparr>ob_update_id := u, ob_timestamp := t\<rparr>) = book_ok b"
  "is_crossed (b\<lparr>ob_update_id := u, ob_timestamp := t\<rparr>) = is_crossed b"
  by (simp_all add: book_ok_def is_crossed_def)

lemma sync_inv_delta:
  assumes d: "base_on_delta chk s sy bids asks q t = (s', res)" "gap_only chk"
    and ok: "delta_ok bids" "delta_ok asks" and i: "sync_inv s"
  shows "sync_inv s'"
proof -
  have b: "base_inv s'" using base_inv_delta [OF d(2)] i d(1) by (metis fst_conv sync_inv_def)
  have ok2: "book_ok bk \<Longrightarrow> apply_deltas bk sd ds = (bk', e) \<Longrightarrow> book_ok bk'" for bk sd ds bk' e
    by (rule apply_deltas_ok)
  from d show ?thesis
  proof (cases rule: base_on_delta_cases)
    case no_book
    with i show ?thesis by simp
  next
    case (gap book coh g)
    with i b show ?thesis by (simp add: sync_inv_def)
  next
    case (bid_error book book1 e g)
    with apply_deltas_valid [OF ok(1), of book Bid] show ?thesis by auto
  next
    case (ask_error book book1 book2 e g)
    with apply_deltas_valid [OF ok(2), of book1 Ask] show ?thesis by auto
  next
    case (crossed book book1 book2 book3 g)
    from i crossed(1) have "book_ok book" by (simp add: sync_inv_def)
    with ok2 crossed(2,3) have "book_ok book3" by (metis book_meta_simps(1) crossed(5))
    with i b crossed(7) show ?thesis by (auto simp: sync_inv_def)
  next
    case (applied book book1 book2 book3 g)
    from i applied(1) have "book_ok book" by (simp add: sync_inv_def)
    with ok2 applied(2,3) have "book_ok book3" by (metis book_meta_simps(1) applied(5))
    with i b applied(6,7) show ?thesis by (auto simp: sync_inv_def)
  qed
qed

lemma sync_inv_snapshot:
  assumes "base_on_snapshot s sy bids asks q t = (s', res)" "snapshot_ok bids asks" "sync_inv s"
  shows "sync_inv s'"
  using assms(1)
proof (cases rule: base_on_snapshot_cases)
  case (accepted bs as book)
  with assms(2) have "book_ok book" by (auto simp: snapshot_ok_def book_ok_def)
  moreover have "base_inv s'" using base_inv_ops(4) [of s sy bids asks q t] assms(1,3) by (simp add: sync_inv_def)
  ultimately show ?thesis using accepted assms(3) by (auto simp: sync_inv_def)
qed (use assms in auto)

lemma sync_inv_has_snapshot [simp]: "sync_inv (s\<lparr>by_has_snapshot := h\<rparr>) = sync_inv s"
  by (simp add: sync_inv_def)

lemma bybit_reach_inv: "bybit_reach s \<Longrightarrow> sync_inv s"
proof (induction rule: bybit_reach.induct)
  case (reach_init g t)
  show ?case by (simp add: sync_inv_def base_inv_def bybit_init_def)
next
  case (reach_snapshot s bids asks sy q t)
  then show ?case unfolding bybit_on_snapshot_def
    by (intro sync_inv_snapshot [OF surjective_pairing]) simp_all
next
  case (reach_delta s bids asks sy q t)
  then show ?case unfolding bybit_on_delta_def
    by (auto intro: sync_inv_delta [OF surjective_pairing gap_only_bybit])
next
  case (reach_request s sy)
  then show ?case by (auto simp: sync_inv_def base_inv_ops) (auto simp: base_request_resync_def)
next
  case (reach_reset s sy)
  then show ?case by (auto simp: bybit_reset_def sync_inv_def base_inv_ops)
      (auto simp: base_reset_def base_inv_def split: if_splits)
qed

section \<open>Replicas\<close>

text \<open>What a list of delta entries does to a side's meaning.\<close>

definition upd_entry :: "pyfloat list \<Rightarrow> (pyfloat \<rightharpoonup> pyfloat) \<Rightarrow> (pyfloat \<rightharpoonup> pyfloat)" where
  "upd_entry e m = (case e of p # s # _ \<Rightarrow> m(p := if s = 0 then None else Some s) | _ \<Rightarrow> m)"

lemma apply_deltas_map:
  assumes "apply_deltas b sd ds = (b', None)" "book_ok b" "delta_ok ds"
  shows "side_map (levels_of b' sd) = fold upd_entry ds (side_map (levels_of b sd)) \<and>
    levels_of b' (opposite sd) = levels_of b (opposite sd)"
  using assms
proof (induction b sd ds rule: apply_deltas.induct)
  case (2 b sd p s x ds)
  then have ps: "0 \<le> p" "0 \<le> s" by (auto simp: delta_entry_ok_def)
  then obtain b1 where b1: "apply_delta b sd p s = Inr b1" by (rule apply_delta_valid)
  then obtain ls where ls: "apply_delta_side sd (levels_of b sd) p s = Inr ls" "b1 = set_levels b sd ls"
    by (auto simp: apply_delta_def split: sum.splits)
  from 2 have "side_sorted sd (levels_of b sd)" by (auto simp: book_ok_sides side_ok_def)
  from apply_delta_side_map(1) [OF ls(1) this] ps
  have m: "side_map (levels_of b1 sd) = upd_entry (p # s # x) (side_map (levels_of b sd))"
    by (auto simp: upd_entry_def ls(2))
  from 2 b1 have "side_map (levels_of b' sd) = fold upd_entry ds (side_map (levels_of b1 sd)) \<and>
    levels_of b' (opposite sd) = levels_of b1 (opposite sd)" by (auto intro: apply_delta_ok)
  with m ls(2) show ?case by simp
qed auto

fun feed :: "bybit_sync \<Rightarrow> string \<Rightarrow> int \<Rightarrow> (raw_levels \<times> raw_levels \<times> pyfloat) list \<Rightarrow> bybit_sync" where
  "feed s sy q [] = s"
| "feed s sy q ((bids, asks, t) # ds) = feed (fst (bybit_on_delta s sy bids asks (q + 1) t)) sy (q + 1) ds"

definition all_bids :: "(raw_levels \<times> raw_levels \<times> pyfloat) list \<Rightarrow> raw_levels" where
  "all_bids ds = concat (map fst ds)"

definition all_asks :: "(raw_levels \<times> raw_levels \<times> pyfloat) list \<Rightarrow> raw_levels" where
  "all_asks ds = concat (map (fst \<circ> snd) ds)"

text \<open>One accepted delta.\<close>

lemma bybit_check_accepts:
  "q \<le> l + 1 \<or> l = 0 \<Longrightarrow> \<exists>coh. bybit_check_sequence s sy l q = (s, coh) \<and> co_is_coherent coh"
  by (auto simp: bybit_check_sequence_def Let_def)

lemma bybit_delta_step:
  assumes s: "d_get (bs_books s) sy = Some b" "d_get (bs_last_sequence s) sy = Some l"
      "d_get (by_has_snapshot s) sy = Some True" "book_ok b"
    and q: "q \<le> l + 1 \<or> l = 0" and ok: "delta_ok bids" "delta_ok asks"
  shows "\<exists>b'. d_get (bs_books (fst (bybit_on_delta s sy bids asks q t))) sy = Some b' \<and> book_ok b' \<and>
     side_map (ob_bids b') = fold upd_entry bids (side_map (ob_bids b)) \<and>
     side_map (ob_asks b') = fold upd_entry asks (side_map (ob_asks b)) \<and>
     d_get (bs_last_sequence (fst (bybit_on_delta s sy bids asks q t))) sy = Some q \<and>
     d_get (by_has_snapshot (fst (bybit_on_delta s sy bids asks q t))) sy = Some True"
proof -
  obtain b1 where b1: "apply_deltas b Bid bids = (b1, None)" using ok(1) by (rule apply_deltas_valid)
  obtain b2 where b2: "apply_deltas b1 Ask asks = (b2, None)" using ok(2) by (rule apply_deltas_valid)
  have o1: "book_ok b1" using apply_deltas_ok [OF b1 s(4)] .
  have o2: "book_ok b2" using apply_deltas_ok [OF b2 o1] .
  have m: "side_map (ob_bids b2) = fold upd_entry bids (side_map (ob_bids b))"
    "side_map (ob_asks b2) = fold upd_entry asks (side_map (ob_asks b))"
    using apply_deltas_map [OF b1 s(4) ok(1)] apply_deltas_map [OF b2 o1 ok(2)] by (simp_all add: opposite_def)
  obtain coh where c: "bybit_check_sequence s sy l q = (s, coh)" "co_is_coherent coh"
    using bybit_check_accepts [OF q] by blast
  show ?thesis
    using s c b1 b2 o2 m
    by (auto simp: bybit_on_delta_def base_on_delta_def d_get_or_def Let_def)
qed

lemma feed_step:
  assumes "d_get (bs_books s) sy = Some b" "d_get (bs_last_sequence s) sy = Some q"
      "d_get (by_has_snapshot s) sy = Some True" "book_ok b"
      "list_all (\<lambda>(bids, asks, t). delta_ok bids \<and> delta_ok asks) ds"
  shows "\<exists>b'. d_get (bs_books (feed s sy q ds)) sy = Some b' \<and> book_ok b' \<and>
     side_map (ob_bids b') = fold upd_entry (all_bids ds) (side_map (ob_bids b)) \<and>
     side_map (ob_asks b') = fold upd_entry (all_asks ds) (side_map (ob_asks b)) \<and>
     d_get (bs_last_sequence (feed s sy q ds)) sy = Some (q + int (length ds))"
  using assms
proof (induction ds arbitrary: s b q)
  case (Cons d ds)
  obtain bids asks t where d: "d = (bids, asks, t)" by (metis prod_cases3)
  let ?s = "fst (bybit_on_delta s sy bids asks (q + 1) t)"
  obtain b1 where b1: "d_get (bs_books ?s) sy = Some b1" "book_ok b1"
     "side_map (ob_bids b1) = fold upd_entry bids (side_map (ob_bids b))"
     "side_map (ob_asks b1) = fold upd_entry asks (side_map (ob_asks b))"
     "d_get (bs_last_sequence ?s) sy = Some (q + 1)" "d_get (by_has_snapshot ?s) sy = Some True"
    using bybit_delta_step [OF Cons.prems(1-4), of "q + 1" bids asks t] Cons.prems(5) d by auto
  from Cons.IH [OF b1(1,5,6,2)] Cons.prems(5) d b1(3,4) show ?case
    by (simp add: all_bids_def all_asks_def algebra_simps)
qed (simp add: all_bids_def all_asks_def)

section \<open>Properties\<close>

definition sample_bids :: raw_levels where "sample_bids = [[100, 1], [99, 2]]"
definition sample_asks :: raw_levels where "sample_asks = [[101, 3], [102, 1]]"

definition sample_sync :: bybit_sync where
  "sample_sync = fst (bybit_on_snapshot (bybit_init 0 5) ''BTC'' sample_bids sample_asks 10 50)"

lemma sample_snapshot_ok: "snapshot_ok sample_bids sample_asks"
  by (simp add: snapshot_ok_def sample_bids_def sample_asks_def mk_level_def side_ok_def level_ok_def before_def)

lemma sample_sync_reach: "bybit_reach sample_sync"
  unfolding sample_sync_def by (rule reach_snapshot [OF reach_init sample_snapshot_ok])

definition sample_sync_book :: order_book where
  "sample_sync_book = \<lparr>ob_symbol = ''BTC'',
     ob_bids = [\<lparr>lv_price = 100, lv_size = 1, lv_count = None\<rparr>, \<lparr>lv_price = 99, lv_size = 2, lv_count = None\<rparr>],
     ob_asks = [\<lparr>lv_price = 101, lv_size = 3, lv_count = None\<rparr>, \<lparr>lv_price = 102, lv_size = 1, lv_count = None\<rparr>],
     ob_update_id = Some 10, ob_timestamp = Some 50, ob_local_timestamp = None\<rparr>"

lemma sample_sync_simps:
  "d_get (bs_books sample_sync) ''BTC'' = Some sample_sync_book"
  "d_get (bs_last_sequence sample_sync) ''BTC'' = Some 10"
  "d_get (by_has_snapshot sample_sync) ''BTC'' = Some True"
  "bs_gap_counts sample_sync = []"
  "d_get (bs_needs_resync sample_sync) ''BTC'' = Some False"
  by (simp_all add: sample_sync_def bybit_on_snapshot_def base_on_snapshot_def bybit_init_def sample_bids_def
      sample_asks_def mk_level_def Let_def is_crossed_def sample_sync_book_def)

text \<open>C19: In every state a Bybit synchroniser can reach from its initial state by well-formed snapshots, deltas,
  resync requests and resets, each stored book is well-formed, and a book reported coherent is not
  crossed.\<close>

theorem reachable_books_ok:
  assumes "bybit_reach s" "base_get_book s sy = Some b"
  shows "book_ok b \<and> (co_is_coherent (base_get_coherence s sy) \<longrightarrow> \<not> is_crossed b)"
  using bybit_reach_inv [OF assms(1)] assms(2)
  by (auto simp: sync_inv_def base_get_book_def coherence_iff)

lemma reachable_books_ok_witness:
  "book_ok sample_sync_book \<and> \<not> is_crossed sample_sync_book"
  using reachable_books_ok [OF sample_sync_reach, of "''BTC''" sample_sync_book]
  by (simp add: coherence_iff base_get_book_def sample_sync_simps d_get_or_def)

text \<open>C15: Replica: after an accepted snapshot with update id \<open>q\<close>, feeding the deltas \<open>q+1, q+2, ...\<close> in order leaves
  a book whose sides mean exactly the snapshot's sides with all delta entries applied in order, and the
  last update id advances by the number of deltas.\<close>

theorem in_order_deltas_replicate:
  assumes "snapshot_ok bids asks" "bybit_on_snapshot s sy bids asks q t = (s1, Inr r)" "sr_book r = Some b"
    "list_all (\<lambda>(bids, asks, t). delta_ok bids \<and> delta_ok asks) ds"
  shows "\<exists>b'. base_get_book (feed s1 sy q ds) sy = Some b' \<and> book_ok b' \<and>
    side_map (ob_bids b') = fold upd_entry (all_bids ds) (side_map (ob_bids b)) \<and>
    side_map (ob_asks b') = fold upd_entry (all_asks ds) (side_map (ob_asks b)) \<and>
    d_get (bs_last_sequence (feed s1 sy q ds)) sy = Some (q + int (length ds))"
proof -
  have "base_on_snapshot (s\<lparr>by_has_snapshot := d_put (by_has_snapshot s) sy True\<rparr>) sy bids asks q t = (s1, Inr r)"
    using assms(2) by (simp add: bybit_on_snapshot_def)
  then show ?thesis
  proof (cases rule: base_on_snapshot_cases)
    case (accepted bs as book)
    have ok: "book_ok book" using assms(1) accepted by (auto simp: snapshot_ok_def book_ok_def)
    have b: "b = book" using accepted assms(3) by simp
    show ?thesis unfolding base_get_book_def b
      by (rule feed_step [OF _ _ _ ok assms(4)]) (use accepted in simp_all)
  qed (use assms(3) in auto)
qed

lemma in_order_deltas_replicate_witness:
  "\<exists>b. base_get_book (feed sample_sync ''BTC'' 10 [([[100, 0], [98, 4]], [], 51), ([], [[101, 1]], 52)]) ''BTC'' = Some b \<and>
     side_map (ob_bids b) = [99 \<mapsto> 2, 98 \<mapsto> 4] \<and> side_map (ob_asks b) = [102 \<mapsto> 1, 101 \<mapsto> 1]"
proof -
  define r where "r = \<lparr>sr_book = Some sample_sync_book, sr_coherence = coherent 10 50, sr_resync_requested = False\<rparr>"
  have sn: "bybit_on_snapshot (bybit_init 0 5) ''BTC'' sample_bids sample_asks 10 50 = (sample_sync, Inr r)"
    by (simp add: sample_sync_def r_def bybit_on_snapshot_def base_on_snapshot_def bybit_init_def sample_bids_def
      sample_asks_def mk_level_def Let_def is_crossed_def sample_sync_book_def)
  show ?thesis
    using in_order_deltas_replicate [OF sample_snapshot_ok sn, of sample_sync_book
        "[([[100, 0], [98, 4]], [], 51), ([], [[101, 1]], 52)]"]
    by (auto simp: r_def delta_entry_ok_def all_bids_def all_asks_def upd_entry_def sample_sync_book_def fun_eq_iff
        intro!: exI split: if_splits)
qed

text \<open>A sequence gap on Bybit refuses the delta: stored book, last update id and resync flag stay as they were,
  the result asks for a resync and the gap is counted.  But the refusal leaves no trace in the state
  that \<open>get_coherence\<close> and \<open>needs_resync\<close> read: a symbol that was coherent is still reported coherent.\<close>

theorem gap_refused_but_still_coherent:
  assumes "d_get (by_has_snapshot s) sy = Some True" "base_get_book s sy = Some b"
    "d_get (bs_last_sequence s) sy = Some l" "l \<noteq> 0" "l + 1 < q"
  shows "\<exists>s' r. bybit_on_delta s sy bids asks q t = (s', Inr r) \<and> sr_resync_requested r \<and>
    co_status (sr_coherence r) = SEQUENCE_GAP \<and> base_get_book s' sy = Some b \<and>
    bs_last_sequence s' = bs_last_sequence s \<and>
    d_get_or (bs_gap_counts s') sy 0 = d_get_or (bs_gap_counts s) sy 0 + 1 \<and>
    base_get_coherence s' sy = base_get_coherence s sy \<and> bybit_needs_resync s' sy = bybit_needs_resync s sy"
  using assms
  by (simp add: bybit_on_delta_def base_on_delta_def base_get_book_def bybit_check_sequence_def Let_def
      d_get_or_def [of "by_has_snapshot s"] d_get_or_def [of "bs_last_sequence s"] base_get_coherence_def
      bybit_needs_resync_def base_needs_resync_def)

lemma gap_refused_but_still_coherent_witness:
  "\<exists>s' r. bybit_on_delta sample_sync ''BTC'' [] [] 15 51 = (s', Inr r) \<and> sr_resync_requested r \<and>
     co_is_coherent (base_get_coherence s' ''BTC'')"
proof -
  have "co_is_coherent (base_get_coherence sample_sync ''BTC'')"
    by (simp add: coherence_iff sample_sync_simps d_get_or_def)
  with gap_refused_but_still_coherent [of sample_sync "''BTC''" sample_sync_book 10 15 "[]" "[]" 51]
  show ?thesis by (auto simp: sample_sync_simps base_get_book_def)
qed

text \<open>A stale delta (update id not above the last one) is not ignored: it is applied to the book like a new one
  and the last update id moves back to the stale id.\<close>

theorem stale_delta_applied:
  assumes "bybit_reach s" "d_get (by_has_snapshot s) sy = Some True" "base_get_book s sy = Some b"
    "d_get (bs_last_sequence s) sy = Some l" "q \<le> l" "delta_ok bids" "delta_ok asks"
  shows "\<exists>b'. base_get_book (fst (bybit_on_delta s sy bids asks q t)) sy = Some b' \<and>
    side_map (ob_bids b') = fold upd_entry bids (side_map (ob_bids b)) \<and>
    side_map (ob_asks b') = fold upd_entry asks (side_map (ob_asks b)) \<and>
    d_get (bs_last_sequence (fst (bybit_on_delta s sy bids asks q t))) sy = Some q"
proof -
  have b: "d_get (bs_books s) sy = Some b" using assms(3) by (simp add: base_get_book_def)
  with bybit_reach_inv [OF assms(1)] have "book_ok b" by (simp add: sync_inv_def)
  from bybit_delta_step [OF b assms(4,2) this _ assms(6,7), of q t] assms(5) show ?thesis
    by (auto simp: base_get_book_def)
qed

lemma stale_delta_applied_witness:
  "\<exists>b'. base_get_book (fst (bybit_on_delta sample_sync ''BTC'' [[100, 0]] [] 3 51)) ''BTC'' = Some b' \<and>
     side_map (ob_bids b') = [99 \<mapsto> 2] \<and>
     d_get (bs_last_sequence (fst (bybit_on_delta sample_sync ''BTC'' [[100, 0]] [] 3 51))) ''BTC'' = Some 3"
proof -
  have "fold upd_entry [[100, 0]] (side_map (ob_bids sample_sync_book)) = [99 \<mapsto> 2]"
    by (auto simp: upd_entry_def sample_sync_book_def fun_eq_iff)
  then show ?thesis
    using stale_delta_applied [OF sample_sync_reach sample_sync_simps(3) _ sample_sync_simps(2),
        of sample_sync_book 3 "[[100, 0]]" "[]" 51]
    by (simp add: base_get_book_def sample_sync_simps delta_entry_ok_def) blast
qed

text \<open>A requested resync sticks: after \<open>request_resync\<close> no sequence of deltas, on any symbols, makes the symbol
  coherent again on the Bybit synchroniser; only a snapshot (or a reset) does.\<close>

theorem bybit_resync_sticky:
  "\<not> co_is_coherent (base_get_coherence
       (fold (\<lambda>(y, bids, asks, q, t) s. fst (bybit_on_delta s y bids asks q t)) ds (base_request_resync s sy)) sy)"
  using bybit.resync_sticky [of ds s sy] by (simp add: bybit_ops_def)

end
