(* ===== verification/Guardian.thy ===== *)
theory Guardian
  imports Bybit_Sync
begin

text \<open>
  The quoteability gate (quantgambit/core/book/guardian.py).  The guardian works over any
  synchroniser, so its operations take the method table of Book_Sync; the generic lemmas are
  proved in the context of the venue interface and used at the Bybit synchroniser.  Clock
  readings are arguments, in the order the code takes them; the state-change callback is the
  list of notifications an operation emits.
\<close>

section \<open>Data\<close>

datatype block_reason =
  NO_BOOK | INCOHERENT | STALE_BOOK_AGE | CROSSED_BOOK | SPREAD_TOO_WIDE | INSUFFICIENT_DEPTH
| INSUFFICIENT_SIZE | RESYNC_PENDING

record guardian_config =
  gc_max_book_age_sec :: pyfloat
  gc_max_spread_bps :: pyfloat
  gc_min_depth_levels :: int
  gc_min_top_size :: pyfloat
  gc_min_total_size :: pyfloat
  gc_size_check_levels :: int

definition default_guardian_config :: guardian_config where
  "default_guardian_config = \<lparr>gc_max_book_age_sec = 5, gc_max_spread_bps = 50, gc_min_depth_levels = 3,
     gc_min_top_size = 0, gc_min_total_size = 0, gc_size_check_levels = 5\<rparr>"

record book_health =
  hl_symbol :: string
  hl_is_tradeable :: bool
  hl_block_reason :: "block_reason option"
  hl_coherence :: "coherence option"
  hl_book_age_sec :: pyfloat
  hl_spread_bps :: "pyfloat option"
  hl_bid_depth :: int
  hl_ask_depth :: int
  hl_best_bid :: "pyfloat option"
  hl_best_ask :: "pyfloat option"
  hl_mid_price :: "pyfloat option"
  hl_last_check_mono :: pyfloat
  hl_unsafe_since_mono :: "pyfloat option"
  hl_resync_count :: nat

definition new_health :: "string \<Rightarrow> book_health" where
  "new_health sy = \<lparr>hl_symbol = sy, hl_is_tradeable = False, hl_block_reason = None, hl_coherence = None,
     hl_book_age_sec = 0, hl_spread_bps = None, hl_bid_depth = 0, hl_ask_depth = 0, hl_best_bid = None,
     hl_best_ask = None, hl_mid_price = None, hl_last_check_mono = 0, hl_unsafe_since_mono = None,
     hl_resync_count = 0\<rparr>"

record 's guardian =
  gd_sync :: 's
  gd_config :: guardian_config
  gd_has_callback :: bool
  gd_health :: "(string, book_health) dict"

type_synonym notification = "string \<times> bool \<times> block_reason option"

definition guardian_init :: "'s \<Rightarrow> guardian_config option \<Rightarrow> bool \<Rightarrow> 's guardian" where
  "guardian_init s cfg cb = \<lparr>gd_sync = s,
     gd_config = (case cfg of None \<Rightarrow> default_guardian_config | Some c \<Rightarrow> c), gd_has_callback = cb, gd_health = []\<rparr>"

section \<open>The check\<close>

definition mark_unsafe :: "book_health \<Rightarrow> block_reason \<Rightarrow> pyfloat \<Rightarrow> book_health" where
  "mark_unsafe h r now_mono =
     (if hl_is_tradeable h then h\<lparr>hl_unsafe_since_mono := Some now_mono\<rparr> else h)
       \<lparr>hl_is_tradeable := False, hl_block_reason := Some r\<rparr>"

definition mark_safe :: "book_health \<Rightarrow> book_health" where
  "mark_safe h = h\<lparr>hl_is_tradeable := True, hl_block_reason := None, hl_unsafe_since_mono := None\<rparr>"

definition notify_if_changed :: "bool \<Rightarrow> string \<Rightarrow> bool \<Rightarrow> book_health \<Rightarrow> notification list" where
  "notify_if_changed has_callback sy was_tradeable h =
     (if has_callback \<and> was_tradeable \<noteq> hl_is_tradeable h then [(sy, hl_is_tradeable h, hl_block_reason h)] else [])"

definition update_metrics :: "book_health \<Rightarrow> order_book \<Rightarrow> book_health" where
  "update_metrics h b = h\<lparr>hl_best_bid := best_bid_price b, hl_best_ask := best_ask_price b,
     hl_mid_price := mid_price b, hl_spread_bps := spread_bps b,
     hl_bid_depth := int (length (ob_bids b)), hl_ask_depth := int (length (ob_asks b))\<rparr>"

definition spread_too_wide :: "guardian_config \<Rightarrow> pyfloat option \<Rightarrow> bool" where
  "spread_too_wide c sp = (case sp of None \<Rightarrow> False
     | Some x \<Rightarrow> fadd (gc_max_spread_bps c) (fl (1 / 1000000)) < x)"

definition top_too_thin :: "guardian_config \<Rightarrow> order_book \<Rightarrow> bool" where
  "top_too_thin c b = (0 < gc_min_top_size c \<and>
     (let bid_size = (case ob_bids b of [] \<Rightarrow> 0 | l # _ \<Rightarrow> lv_size l);
          ask_size = (case ob_asks b of [] \<Rightarrow> 0 | l # _ \<Rightarrow> lv_size l)
      in bid_size < gc_min_top_size c \<or> ask_size < gc_min_top_size c))"

definition total_too_thin :: "guardian_config \<Rightarrow> order_book \<Rightarrow> bool" where
  "total_too_thin c b = (0 < gc_min_total_size c \<and>
     (let bid_total = cumulative_size b Bid (gc_size_check_levels c);
          ask_total = cumulative_size b Ask (gc_size_check_levels c)
      in bid_total < gc_min_total_size c \<or> ask_total < gc_min_total_size c))"

text \<open>
  The eight checks in order.  The result is the synchroniser (a stale or crossed book requests
  a resync) and the health record, which the caller stores.
\<close>

definition run_checks ::
  "'s sync_ops \<Rightarrow> guardian_config \<Rightarrow> 's \<Rightarrow> string \<Rightarrow> book_health \<Rightarrow> pyfloat \<Rightarrow> pyfloat \<Rightarrow> 's \<times> book_health" where
  "run_checks ops c s sy h now_mono now_wall =
     (let coh = so_get_coherence ops s sy;
          h1 = h\<lparr>hl_coherence := Some coh, hl_last_check_mono := now_mono\<rparr>
      in case so_get_book ops s sy of
        None \<Rightarrow> (s, mark_unsafe h1 NO_BOOK now_mono)
      | Some b \<Rightarrow>
        if \<not> co_is_coherent coh then
          (s, mark_unsafe h1 (if co_status coh = RESYNC_NEEDED then RESYNC_PENDING else INCOHERENT) now_mono)
        else
     (let fresh_age = fsub now_wall (opt_or (ob_timestamp b) 0);
          h2 = (if f_truthy (ob_timestamp b) then h1\<lparr>hl_book_age_sec := fresh_age\<rparr> else h1)
      in if f_truthy (ob_timestamp b) \<and> gc_max_book_age_sec c < fresh_age then
          (so_request_resync ops s sy,
           (mark_unsafe h2 STALE_BOOK_AGE now_mono)\<lparr>hl_resync_count := Suc (hl_resync_count h2)\<rparr>)
        else if is_crossed b then
          (so_request_resync ops s sy,
           (mark_unsafe h2 CROSSED_BOOK now_mono)\<lparr>hl_resync_count := Suc (hl_resync_count h2)\<rparr>)
        else
     (let h3 = update_metrics h2 b
      in if spread_too_wide c (hl_spread_bps h3) then (s, mark_unsafe h3 SPREAD_TOO_WIDE now_mono)
         else if hl_bid_depth h3 < gc_min_depth_levels c \<or> hl_ask_depth h3 < gc_min_depth_levels c
         then (s, mark_unsafe h3 INSUFFICIENT_DEPTH now_mono)
         else if top_too_thin c b then (s, mark_unsafe h3 INSUFFICIENT_SIZE now_mono)
         else if total_too_thin c b then (s, mark_unsafe h3 INSUFFICIENT_SIZE now_mono)
         else (s, mark_safe h3))))"

definition check ::
  "'s sync_ops \<Rightarrow> 's guardian \<Rightarrow> string \<Rightarrow> pyfloat \<Rightarrow> pyfloat \<Rightarrow> 's guardian \<times> book_health \<times> notification list" where
  "check ops g sy now_mono now_wall =
     (let health = (case d_get (gd_health g) sy of None \<Rightarrow> new_health sy | Some h \<Rightarrow> h);
          was_tradeable = hl_is_tradeable health;
          (s', h') = run_checks ops (gd_config g) (gd_sync g) sy health now_mono now_wall
      in (g\<lparr>gd_sync := s', gd_health := d_put (gd_health g) sy h'\<rparr>, h',
          notify_if_changed (gd_has_callback g) sy was_tradeable h'))"

section \<open>Queries\<close>

definition is_tradeable :: "'s guardian \<Rightarrow> string \<Rightarrow> bool" where
  "is_tradeable g sy = (case d_get (gd_health g) sy of None \<Rightarrow> False | Some h \<Rightarrow> hl_is_tradeable h)"

definition get_health :: "'s guardian \<Rightarrow> string \<Rightarrow> book_health option" where
  "get_health g sy = d_get (gd_health g) sy"

definition get_all_health :: "'s guardian \<Rightarrow> (string, book_health) dict" where
  "get_all_health g = gd_health g"

definition get_tradeable_symbols :: "'s guardian \<Rightarrow> string list" where
  "get_tradeable_symbols g = [sy. (sy, h) \<leftarrow> gd_health g, hl_is_tradeable h]"

definition get_blocked_symbols :: "'s guardian \<Rightarrow> (string \<times> block_reason) list" where
  "get_blocked_symbols g = [(sy, the (hl_block_reason h)). (sy, h) \<leftarrow> gd_health g,
     \<not> hl_is_tradeable h \<and> hl_block_reason h \<noteq> None]"

definition guardian_reset :: "'s guardian \<Rightarrow> string \<Rightarrow> 's guardian" where
  "guardian_reset g sy = g\<lparr>gd_health := d_pop (gd_health g) sy\<rparr>"

record guardian_stats =
  gs_total_symbols :: nat
  gs_tradeable :: nat
  gs_blocked :: int
  gs_blocked_by_reason :: "(block_reason, nat) dict"
  gs_total_resyncs :: nat

fun count_reasons :: "book_health list \<Rightarrow> (block_reason, nat) dict \<Rightarrow> (block_reason, nat) dict" where
  "count_reasons [] d = d"
| "count_reasons (h # hs) d =
     count_reasons hs (case hl_block_reason h of
         Some r \<Rightarrow> if \<not> hl_is_tradeable h then d_incr d r else d
       | None \<Rightarrow> d)"

definition guardian_stats_of :: "'s guardian \<Rightarrow> guardian_stats" where
  "guardian_stats_of g = (let hs = d_vals (gd_health g); total = length hs;
       tradeable = length (filter hl_is_tradeable hs)
     in \<lparr>gs_total_symbols = total, gs_tradeable = tradeable, gs_blocked = int total - int tradeable,
         gs_blocked_by_reason = count_reasons hs [], gs_total_resyncs = sum_list (map hl_resync_count hs)\<rparr>)"

section \<open>The entry points of the hot path\<close>

text \<open>
  \<open>handle_update\<close>: the synchroniser's exception leaves through it; otherwise the check runs and
  the synchroniser's book is returned when the symbol is tradeable.  Three clock readings:
  the default timestamp, then the two of the check.
\<close>

definition raw_of :: "level list \<Rightarrow> raw_levels" where
  "raw_of ls = map (\<lambda>l. [lv_price l, lv_size l]) ls"

definition io_or :: "int option \<Rightarrow> int \<Rightarrow> int" where
  "io_or x d = (case x of None \<Rightarrow> d | Some v \<Rightarrow> if v = 0 then d else v)"

definition route_update ::
  "'s sync_ops \<Rightarrow> 's \<Rightarrow> string \<Rightarrow> book_update \<Rightarrow> pyfloat \<Rightarrow> 's \<times> (py_error + sync_result)" where
  "route_update ops s sy u wall0 =
     (let bids_raw = raw_of (bu_bids u); asks_raw = raw_of (bu_asks u);
          q = io_or (bu_sequence_id u) 0; t = fo_or (bu_timestamp u) wall0
      in if bu_is_snapshot u then so_snapshot ops s sy bids_raw asks_raw q t
         else so_delta ops s sy bids_raw asks_raw q t)"

definition handle_update ::
  "'s sync_ops \<Rightarrow> 's guardian \<Rightarrow> string \<Rightarrow> book_update \<Rightarrow> pyfloat \<Rightarrow> pyfloat \<Rightarrow> pyfloat \<Rightarrow>
     's guardian \<times> (py_error + order_book option) \<times> notification list" where
  "handle_update ops g sy u wall0 now_mono now_wall =
     (let (s', res) = route_update ops (gd_sync g) sy u wall0;
          g' = g\<lparr>gd_sync := s'\<rparr>
      in case res of
          Inl e \<Rightarrow> (g', Inl e, [])
        | Inr r \<Rightarrow>
            (let (g'', health, notes) = check ops g' sy now_mono now_wall
             in if sr_book r = None \<or> sr_resync_requested r then (g'', Inr None, notes)
                else if hl_is_tradeable health then (g'', Inr (sr_book r), notes)
                else (g'', Inr None, notes)))"

definition is_quoteable :: "'s guardian \<Rightarrow> string \<Rightarrow> bool" where
  "is_quoteable g sy = is_tradeable g sy"

section \<open>The specification of the gate\<close>

text \<open>The reasons in the order of priority, each with the condition under which it applies.\<close>

definition gate ::
  "'s sync_ops \<Rightarrow> guardian_config \<Rightarrow> 's \<Rightarrow> string \<Rightarrow> pyfloat \<Rightarrow> (block_reason \<times> bool) list" where
  "gate ops c s sy now_wall = (case so_get_book ops s sy of
       None \<Rightarrow> [(NO_BOOK, True)]
     | Some b \<Rightarrow>
        [(RESYNC_PENDING, \<not> co_is_coherent (so_get_coherence ops s sy) \<and>
            co_status (so_get_coherence ops s sy) = RESYNC_NEEDED),
         (INCOHERENT, \<not> co_is_coherent (so_get_coherence ops s sy)),
         (STALE_BOOK_AGE, case ob_timestamp b of None \<Rightarrow> False
            | Some t \<Rightarrow> t \<noteq> 0 \<and> gc_max_book_age_sec c < fsub now_wall t),
         (CROSSED_BOOK, is_crossed b),
         (SPREAD_TOO_WIDE, spread_too_wide c (spread_bps b)),
         (INSUFFICIENT_DEPTH, int (ob_depth b Bid) < gc_min_depth_levels c \<or> int (ob_depth b Ask) < gc_min_depth_levels c),
         (INSUFFICIENT_SIZE, top_too_thin c b \<or> total_too_thin c b)])"

definition first_reason :: "(block_reason \<times> bool) list \<Rightarrow> block_reason option" where
  "first_reason rs = map_option fst (find snd rs)"

lemma mark_simps [simp]:
  "hl_is_tradeable (mark_safe h)" "hl_block_reason (mark_safe h) = None"
  "\<not> hl_is_tradeable (mark_unsafe h r t)" "hl_block_reason (mark_unsafe h r t) = Some r"
  "hl_resync_count (mark_safe h) = hl_resync_count h"
  by (simp_all add: mark_safe_def mark_unsafe_def)

lemma run_checks_reason:
  "hl_block_reason (snd (run_checks ops c s sy h m w)) = first_reason (gate ops c s sy w)"
  by (cases "so_get_book ops s sy"; cases "ob_timestamp (the (so_get_book ops s sy))")
    (auto simp: run_checks_def gate_def first_reason_def Let_def f_truthy_def opt_or_def update_metrics_def ob_depth_def)

lemma run_checks_tradeable:
  "hl_is_tradeable (snd (run_checks ops c s sy h m w)) \<longleftrightarrow> first_reason (gate ops c s sy w) = None"
  unfolding run_checks_reason [symmetric, of ops c s sy w h m]
  by (auto simp: run_checks_def Let_def split: option.split)

section \<open>Library\<close>

lemma check_simps:
  "check ops g sy m w = (g', h, notes) \<Longrightarrow> d_get (gd_health g') sy = Some h \<and> gd_config g' = gd_config g \<and>
     is_tradeable g' sy = hl_is_tradeable h \<and> (sy' \<noteq> sy \<longrightarrow> d_get (gd_health g') sy' = d_get (gd_health g) sy')"
  by (auto simp: check_def is_tradeable_def Let_def split: prod.splits)

lemma check_outcome:
  assumes "check ops g sy m w = (g', h, notes)"
  shows "hl_block_reason h = first_reason (gate ops (gd_config g) (gd_sync g) sy w)"
    "hl_is_tradeable h \<longleftrightarrow> hl_block_reason h = None"
    "gd_sync g' = gd_sync g \<or> gd_sync g' = so_request_resync ops (gd_sync g) sy"
    "hl_is_tradeable h \<Longrightarrow> gd_sync g' = gd_sync g"
proof -
  obtain s' h' where rc: "run_checks ops (gd_config g) (gd_sync g) sy
      (case d_get (gd_health g) sy of None \<Rightarrow> new_health sy | Some h \<Rightarrow> h) m w = (s', h')" by force
  with assms have e: "gd_sync g' = s'" "h = h'" by (auto simp: check_def Let_def)
  from rc have r: "h' = snd (run_checks ops (gd_config g) (gd_sync g) sy
      (case d_get (gd_health g) sy of None \<Rightarrow> new_health sy | Some h \<Rightarrow> h) m w)" by simp
  show "hl_block_reason h = first_reason (gate ops (gd_config g) (gd_sync g) sy w)"
    unfolding e r by (rule run_checks_reason)
  then show "hl_is_tradeable h \<longleftrightarrow> hl_block_reason h = None"
    unfolding e r by (simp add: run_checks_tradeable run_checks_reason)
  from rc show "gd_sync g' = gd_sync g \<or> gd_sync g' = so_request_resync ops (gd_sync g) sy"
    unfolding e by (auto simp: run_checks_def Let_def split: option.splits if_splits)
  from rc show "hl_is_tradeable h \<Longrightarrow> gd_sync g' = gd_sync g"
    unfolding e by (auto simp: run_checks_def Let_def split: option.splits if_splits)
qed

text \<open>What passing the gate means.\<close>

definition passes_gate :: "guardian_config \<Rightarrow> pyfloat \<Rightarrow> order_book \<Rightarrow> bool" where
  "passes_gate c now_wall b = (\<not> is_crossed b \<and>
     (case ob_timestamp b of None \<Rightarrow> True | Some t \<Rightarrow> t = 0 \<or> fsub now_wall t \<le> gc_max_book_age_sec c) \<and>
     \<not> spread_too_wide c (spread_bps b) \<and> gc_min_depth_levels c \<le> int (ob_depth b Bid) \<and>
     gc_min_depth_levels c \<le> int (ob_depth b Ask) \<and> \<not> top_too_thin c b \<and> \<not> total_too_thin c b)"

lemma first_reason_None: "first_reason rs = None \<longleftrightarrow> list_all (\<lambda>(r, c). \<not> c) rs"
  by (auto simp: first_reason_def find_None_iff list_all_iff)

lemma gate_passed:
  "first_reason (gate ops c s sy w) = None \<longleftrightarrow>
     co_is_coherent (so_get_coherence ops s sy) \<and> (\<exists>b. so_get_book ops s sy = Some b \<and> passes_gate c w b)"
  by (auto simp: gate_def passes_gate_def first_reason_None not_less split: option.splits)

lemma handle_update_cases:
  assumes "handle_update ops g sy u w0 m w = (g', out, notes)"
  obtains (raised) e s' where "out = Inl e" "g' = g\<lparr>gd_sync := s'\<rparr>" "notes = []"
        "route_update ops (gd_sync g) sy u w0 = (s', Inl e)"
    | (checked) s' r h where "check ops (g\<lparr>gd_sync := s'\<rparr>) sy m w = (g', h, notes)"
        "out = Inr (if sr_book r = None \<or> sr_resync_requested r \<or> \<not> hl_is_tradeable h then None else sr_book r)"
        "route_update ops (gd_sync g) sy u w0 = (s', Inr r)"
proof -
  obtain s' res where u: "route_update ops (gd_sync g) sy u w0 = (s', res)" by force
  obtain g2 h n where c: "check ops (g\<lparr>gd_sync := s'\<rparr>) sy m w = (g2, h, n)" by (metis prod_cases3)
  show thesis
  proof (cases res)
    case (Inl e)
    with assms u show thesis by (intro raised [of e s']) (auto simp: handle_update_def Let_def)
  next
    case (Inr r)
    with assms u c show thesis
      by (intro checked [of s' h r]) (auto simp: handle_update_def Let_def split: if_splits)
  qed
qed

context venue_sync
begin

text \<open>A book that \<open>handle_update\<close> returns has passed every check, at the time of the update.\<close>

lemma handle_update_safe:
  assumes "handle_update ops g sy u w0 m w = (g', Inr (Some b), notes)"
  shows "so_get_book ops (gd_sync g') sy = Some b \<and> co_is_coherent (so_get_coherence ops (gd_sync g') sy) \<and>
     passes_gate (gd_config g) w b \<and> is_tradeable g' sy"
  using assms
proof (cases rule: handle_update_cases)
  case (checked s' r h)
  from checked(2) have r: "sr_book r = Some b" "\<not> sr_resync_requested r" "hl_is_tradeable h"
    by (auto split: if_splits)
  from check_outcome [OF checked(1)] r(3)
  have g: "first_reason (gate ops (gd_config g) s' sy w) = None" "gd_sync g' = s'" by auto
  from checked(3) r(2) have "sr_book r = so_get_book ops s' sy"
    by (auto simp: route_update_def Let_def dest: snapshot_accepted delta_accepted split: if_splits)
  with g r check_simps [OF checked(1), of sy] show ?thesis by (auto simp: gate_passed)
qed simp

text \<open>An incoherent symbol returns no book on a delta and stays incoherent.\<close>

lemma check_keeps_incoherent:
  assumes "check ops g sy m w = (g', h, notes)" "\<not> co_is_coherent (so_get_coherence ops (gd_sync g) sy')"
  shows "\<not> co_is_coherent (so_get_coherence ops (gd_sync g') sy')"
proof -
  have "\<not> co_is_coherent (so_get_coherence ops (so_request_resync ops (gd_sync g) sy) sy')"
    using assms(2) request_incoherent [of "gd_sync g" sy] request_keeps_others [of sy' sy "gd_sync g"]
    by (cases "sy' = sy") auto
  with check_outcome(3) [OF assms(1)] assms(2) show ?thesis by auto
qed

lemma delta_keeps_blocked:
  assumes "handle_update ops g sy u w0 m w = (g', out, notes)" "\<not> bu_is_snapshot u"
    "\<not> co_is_coherent (so_get_coherence ops (gd_sync g) sy')"
  shows "\<not> co_is_coherent (so_get_coherence ops (gd_sync g') sy') \<and> (sy' = sy \<longrightarrow> \<not> (\<exists>b. out = Inr (Some b)))"
proof -
  have inc: "\<not> co_is_coherent (so_get_coherence ops (gd_sync g') sy')"
    using assms(1)
  proof (cases rule: handle_update_cases)
    case (raised e s')
    with assms(2) delta_no_cure [OF _ assms(3)] show ?thesis by (auto simp: route_update_def Let_def)
  next
    case (checked s' r h)
    with assms(2) delta_no_cure [OF _ assms(3)] have "\<not> co_is_coherent (so_get_coherence ops s' sy')"
      by (auto simp: route_update_def Let_def)
    then show ?thesis by (intro check_keeps_incoherent [OF checked(1)]) simp
  qed
  moreover have "\<not> (\<exists>b. out = Inr (Some b))" if "sy' = sy"
    using handle_update_safe [of g sy u w0 m w g'] assms(1) inc that by blast
  ultimately show ?thesis by blast
qed

end

section \<open>Runs\<close>

datatype guardian_event =
    GUpdate string book_update pyfloat pyfloat pyfloat
  | GCheck string pyfloat pyfloat
  | GReset string

fun guardian_step :: "'s sync_ops \<Rightarrow> 's guardian \<Rightarrow> guardian_event \<Rightarrow> 's guardian \<times> (string \<times> order_book) list" where
  "guardian_step ops g (GUpdate sy u w0 m w) = (case handle_update ops g sy u w0 m w of
       (g', Inr (Some b), n) \<Rightarrow> (g', [(sy, b)])
     | (g', r, n) \<Rightarrow> (g', []))"
| "guardian_step ops g (GCheck sy m w) = (fst (check ops g sy m w), [])"
| "guardian_step ops g (GReset sy) = (guardian_reset g sy, [])"

text \<open>The final state and the books handed out, in order.\<close>

fun guardian_run :: "'s sync_ops \<Rightarrow> 's guardian \<Rightarrow> guardian_event list \<Rightarrow> 's guardian \<times> (string \<times> order_book) list" where
  "guardian_run ops g [] = (g, [])"
| "guardian_run ops g (e # es) =
     (let (g1, out) = guardian_step ops g e; (g2, outs) = guardian_run ops g1 es in (g2, out @ outs))"

fun is_snapshot_of :: "string \<Rightarrow> guardian_event \<Rightarrow> bool" where
  "is_snapshot_of sy (GUpdate sy' u w0 m w) = (sy' = sy \<and> bu_is_snapshot u)"
| "is_snapshot_of sy _ = False"

context venue_sync
begin

lemma step_keeps_blocked:
  assumes "\<not> is_snapshot_of sy e" "\<not> co_is_coherent (so_get_coherence ops (gd_sync g) sy)"
    "guardian_step ops g e = (g', out)"
  shows "\<not> co_is_coherent (so_get_coherence ops (gd_sync g') sy) \<and> sy \<notin> fst ` set out"
proof (cases e)
  case (GUpdate sy0 u w0 m w)
  obtain g1 r n where h: "handle_update ops g sy0 u w0 m w = (g1, r, n)" by (metis prod_cases3)
  have "\<not> co_is_coherent (so_get_coherence ops (gd_sync g1) sy) \<and> (sy = sy0 \<longrightarrow> \<not> (\<exists>b. r = Inr (Some b)))"
  proof (cases "bu_is_snapshot u")
    case False
    with delta_keeps_blocked [OF h False assms(2)] show ?thesis by blast
  next
    case True
    with GUpdate assms(1) have ne: "sy \<noteq> sy0" by auto
    from h have "\<not> co_is_coherent (so_get_coherence ops (gd_sync g1) sy)"
    proof (cases rule: handle_update_cases)
      case (raised e s')
      with True assms(2) update_other [OF disjI1 ne] show ?thesis by (auto simp: route_update_def Let_def)
    next
      case (checked s' r h)
      with True assms(2) update_other [OF disjI1 ne] have "\<not> co_is_coherent (so_get_coherence ops s' sy)"
        by (auto simp: route_update_def Let_def)
      then show ?thesis by (intro check_keeps_incoherent [OF checked(1)]) simp
    qed
    with ne show ?thesis by blast
  qed
  with GUpdate assms(3) h show ?thesis by (auto split: sum.splits option.splits)
next
  case (GCheck sy0 m w)
  obtain g1 h n where c: "check ops g sy0 m w = (g1, h, n)" by (metis prod_cases3)
  from check_keeps_incoherent [OF c assms(2)] GCheck assms(3) c show ?thesis by auto
next
  case (GReset sy0)
  with assms show ?thesis by (auto simp: guardian_reset_def)
qed

lemma run_keeps_blocked:
  assumes "\<not> co_is_coherent (so_get_coherence ops (gd_sync g) sy)" "\<not> list_ex (is_snapshot_of sy) es"
  shows "sy \<notin> fst ` set (snd (guardian_run ops g es))"
  using assms
proof (induction es arbitrary: g)
  case (Cons e es)
  obtain g1 out where s: "guardian_step ops g e = (g1, out)" by force
  from step_keeps_blocked [OF _ Cons.prems(1) s] Cons.prems(2) Cons.IH [of g1] s show ?case
    by (auto split: prod.split)
qed simp

end

text \<open>The bookkeeping invariant of the health table.\<close>

definition health_inv :: "'s guardian \<Rightarrow> bool" where
  "health_inv g = (d_wf (gd_health g) \<and>
     (\<forall>sy h. d_get (gd_health g) sy = Some h \<longrightarrow> (hl_is_tradeable h \<longleftrightarrow> hl_block_reason h = None)))"

lemma health_inv_check: "health_inv g \<Longrightarrow> health_inv (g\<lparr>gd_sync := s\<rparr>) \<and> health_inv (fst (check ops g sy m w))"
proof -
  assume i: "health_inv g"
  obtain g1 h n where c: "check ops g sy m w = (g1, h, n)" by (metis prod_cases3)
  then have "gd_health g1 = d_put (gd_health g) sy h" by (auto simp: check_def Let_def split: prod.splits)
  with i c check_outcome(2) [OF c] show ?thesis by (auto simp: health_inv_def)
qed

lemma health_inv_step: "health_inv g \<Longrightarrow> health_inv (fst (guardian_step ops g e))"
proof (induction ops g e rule: guardian_step.induct)
  case (1 ops g sy u w0 m w)
  obtain g1 r n where h: "handle_update ops g sy u w0 m w = (g1, r, n)" by (metis prod_cases3)
  then have "health_inv g1"
  proof (cases rule: handle_update_cases)
    case (raised e s')
    with 1 show ?thesis by (simp add: health_inv_def)
  next
    case (checked s' r h)
    have "health_inv (g\<lparr>gd_sync := s'\<rparr>)" using 1 by (simp add: health_inv_def)
    from health_inv_check [OF this, of _ ops sy m w] checked(1) show ?thesis by simp
  qed
  with h show ?case by (simp split: sum.split option.split)
next
  case (2 ops g sy m w) then show ?case using health_inv_check by fastforce
next
  case (3 ops g sy) then show ?case by (auto simp: health_inv_def guardian_reset_def)
qed

lemma health_inv_run: "health_inv g \<Longrightarrow> health_inv (fst (guardian_run ops g es))"
proof (induction es arbitrary: g)
  case (Cons e es)
  from Cons.IH [OF health_inv_step [OF Cons.prems, of ops e]] show ?case by (simp add: Let_def case_prod_beta)
qed simp

text \<open>Counting by reason: the counts add up to the blocked symbols.\<close>

lemma count_reasons_sum:
  assumes "d_wf d" "\<forall>h \<in> set hs. hl_is_tradeable h \<longleftrightarrow> hl_block_reason h = None"
  shows "sum_list (d_vals (count_reasons hs d)) = length (filter (\<lambda>h. \<not> hl_is_tradeable h) hs) + sum_list (d_vals d)"
  using assms by (induction hs d rule: count_reasons.induct) (auto simp: sum_list_incr split: option.splits)

lemma health_inv_vals:
  "health_inv g \<Longrightarrow> (sy, h) \<in> set (gd_health g) \<Longrightarrow> hl_is_tradeable h \<longleftrightarrow> hl_block_reason h = None"
  by (auto simp: health_inv_def d_mem_iff)

section \<open>Properties\<close>

definition sample_guardian :: "bybit_sync guardian" where
  "sample_guardian = guardian_init sample_sync
     (Some \<lparr>gc_max_book_age_sec = 5, gc_max_spread_bps = 150, gc_min_depth_levels = 2, gc_min_top_size = 1,
        gc_min_total_size = 2, gc_size_check_levels = 5\<rparr>) True"

text \<open>C4: The verdict of \<open>check\<close> on any synchroniser is the first failing condition of the declared gate: no book,
  resync pending, incoherent, stale, crossed, spread too wide, too few levels, too little size, in this order.
  The symbol becomes tradeable exactly when none fails, and the callback fires exactly when the cached
  status changes.\<close>

theorem check_implements_gate:
  "let (g', h, notes) = check ops g sy now_mono now_wall
   in hl_block_reason h = first_reason (gate ops (gd_config g) (gd_sync g) sy now_wall) \<and>
      is_tradeable g' sy = (first_reason (gate ops (gd_config g) (gd_sync g) sy now_wall) = None) \<and>
      notes = (if gd_has_callback g \<and> is_tradeable g sy \<noteq> is_tradeable g' sy
               then [(sy, is_tradeable g' sy, hl_block_reason h)] else [])"
proof -
  obtain g' h n where c: "check ops g sy now_mono now_wall = (g', h, n)" by (metis prod_cases3)
  then have "n = notify_if_changed (gd_has_callback g) sy (is_tradeable g sy) h"
    by (auto simp: check_def is_tradeable_def new_health_def Let_def split: prod.splits option.splits)
  with c check_outcome [OF c] check_simps [OF c, of sy] show ?thesis by (simp add: notify_if_changed_def)
qed

text \<open>Whatever book \<open>handle_update\<close> returns on the Bybit synchroniser is the stored book of the symbol, is
  coherent, not crossed, not older than the limit at the check's clock reading, and within the spread,
  depth and size limits.\<close>

theorem returned_book_is_safe:
  assumes "handle_update bybit_ops g sy u w0 m w = (g', Inr (Some b), notes)"
  shows "base_get_book (gd_sync g') sy = Some b \<and> co_is_coherent (base_get_coherence (gd_sync g') sy) \<and>
     passes_gate (gd_config g) w b \<and> is_quoteable g' sy"
  using bybit.handle_update_safe [OF assms] by (simp add: bybit_ops_def is_quoteable_def)

definition sample_update :: book_update where
  "sample_update = \<lparr>bu_symbol = ''BTC'', bu_bids = [\<lparr>lv_price = 99, lv_size = 7, lv_count = None\<rparr>], bu_asks = [],
     bu_sequence_id = Some 11, bu_timestamp = Some 51, bu_is_snapshot = False\<rparr>"

lemma returned_book_is_safe_witness:
  "\<exists>g' b n. handle_update bybit_ops sample_guardian ''BTC'' sample_update 52 3 52 = (g', Inr (Some b), n) \<and>
     is_quoteable g' ''BTC'' \<and> \<not> is_crossed b"
proof -
  have "(case handle_update bybit_ops sample_guardian ''BTC'' sample_update 52 3 52 of
      (g', Inr (Some b), n) \<Rightarrow> True | _ \<Rightarrow> False)" by code_simp
  then obtain g' b n where h: "handle_update bybit_ops sample_guardian ''BTC'' sample_update 52 3 52 = (g', Inr (Some b), n)"
    by (auto split: prod.splits sum.splits option.splits)
  from returned_book_is_safe [OF h] h show ?thesis by (auto simp: passes_gate_def)
qed

text \<open>C13: A stale book blocks its symbol until a snapshot: once \<open>check\<close> has found the stored book of the symbol
  stale or crossed, no later sequence of updates, checks and guardian resets on any symbols hands out a
  book for it unless the sequence holds a snapshot of that symbol.\<close>

theorem blocked_until_snapshot:
  assumes "check bybit_ops g sy m w = (g', h, notes)"
    "hl_block_reason h = Some STALE_BOOK_AGE \<or> hl_block_reason h = Some CROSSED_BOOK"
    "\<not> list_ex (is_snapshot_of sy) es"
  shows "sy \<notin> fst ` set (snd (guardian_run bybit_ops g' es))"
proof (rule bybit.run_keeps_blocked [OF _ assms(3)])
  have "gd_sync g' = so_request_resync bybit_ops (gd_sync g) sy"
    using assms(1,2) by (auto simp: check_def run_checks_def Let_def split: prod.splits option.splits if_splits)
  then show "\<not> co_is_coherent (so_get_coherence bybit_ops (gd_sync g') sy)"
    using bybit.request_incoherent by simp
qed

lemma blocked_until_snapshot_witness:
  "''BTC'' \<notin> fst ` set (snd (guardian_run bybit_ops (fst (check bybit_ops sample_guardian ''BTC'' 3 60))
     [GUpdate ''BTC'' sample_update 61 4 61, GReset ''BTC'', GCheck ''BTC'' 5 62]))"
proof -
  obtain g' h n where c: "check bybit_ops sample_guardian ''BTC'' 3 60 = (g', h, n)" by (metis prod_cases3)
  have "hl_block_reason (fst (snd (check bybit_ops sample_guardian ''BTC'' 3 60))) = Some STALE_BOOK_AGE" by code_simp
  with blocked_until_snapshot [OF c, of "[GUpdate ''BTC'' sample_update 61 4 61, GReset ''BTC'', GCheck ''BTC'' 5 62]"] c
  show ?thesis by (simp add: sample_update_def)
qed

text \<open>After a sequence gap the gate still reports the symbol quoteable: the update itself is refused, but the
  check that follows sees a coherent symbol, so a book that passed the gate before the gap keeps the
  symbol tradeable afterwards.\<close>

theorem gap_leaves_symbol_quoteable:
  assumes "d_get (by_has_snapshot (gd_sync g)) sy = Some True" "base_get_book (gd_sync g) sy = Some b"
    "d_get (bs_last_sequence (gd_sync g)) sy = Some l" "l \<noteq> 0"
    "\<not> bu_is_snapshot u" "bu_sequence_id u = Some q" "l + 1 < q"
    "co_is_coherent (base_get_coherence (gd_sync g) sy)" "passes_gate (gd_config g) w b"
  shows "\<exists>g' notes. handle_update bybit_ops g sy u w0 m w = (g', Inr None, notes) \<and> is_quoteable g' sy"
proof -
  obtain g' out n where h: "handle_update bybit_ops g sy u w0 m w = (g', out, n)" by (metis prod_cases3)
  define gaps where "gaps = d_incr (bs_gap_counts (gd_sync g)) sy"
  have route: "\<exists>r. route_update bybit_ops (gd_sync g) sy u w0 = ((gd_sync g)\<lparr>bs_gap_counts := gaps\<rparr>, Inr r) \<and> sr_resync_requested r"
    using assms(1-7)
    by (auto simp: route_update_def bybit_ops_def bybit_on_delta_def base_on_delta_def base_get_book_def d_get_or_def
        [of "by_has_snapshot s" for s] d_get_or_def [of "bs_last_sequence s" for s] bybit_check_sequence_def Let_def
        io_or_def gaps_def)
  have keep: "base_get_book ((gd_sync g)\<lparr>bs_gap_counts := gaps\<rparr>) sy = Some b"
    "co_is_coherent (base_get_coherence ((gd_sync g)\<lparr>bs_gap_counts := gaps\<rparr>) sy)"
    using assms(2,8) by (simp_all add: base_get_book_def coherence_iff)
  from h show ?thesis
  proof (cases rule: handle_update_cases)
    case (raised e s')
    with route show ?thesis by auto
  next
    case (checked s' r hl)
    with route have s': "s' = (gd_sync g)\<lparr>bs_gap_counts := gaps\<rparr>" and r: "sr_resync_requested r" by auto
    have "first_reason (gate bybit_ops (gd_config g) s' sy w) = None"
      unfolding gate_passed using keep assms(9) by (simp add: bybit_ops_def s')
    with check_outcome(1,2) [OF checked(1)] check_simps [OF checked(1), of sy] have "is_quoteable g' sy"
      by (simp add: is_quoteable_def)
    with h checked(2) r show ?thesis by auto
  qed
qed

lemma gap_leaves_symbol_quoteable_witness:
  "\<exists>g' n. handle_update bybit_ops sample_guardian ''BTC'' (sample_update\<lparr>bu_sequence_id := Some 20\<rparr>) 52 3 52 = (g', Inr None, n) \<and>
     is_quoteable g' ''BTC''"
proof (rule gap_leaves_symbol_quoteable [where l = 10 and q = 20 and b = sample_sync_book])
  show "passes_gate (gd_config sample_guardian) 52 sample_sync_book" by code_simp
qed (simp_all add: sample_guardian_def guardian_init_def sample_sync_simps base_get_book_def sample_update_def
      coherence_iff d_get_or_def)

text \<open>Bookkeeping over any run from an empty health table: a tracked symbol is tradeable with no reason or blocked
  with one, so the tradeable and the blocked symbols partition the tracked ones, and the statistics
  add up: the counts by reason sum to the number of blocked symbols.\<close>

theorem guardian_bookkeeping:
  "let g = fst (guardian_run ops (guardian_init s cfg cb) es); st = guardian_stats_of g
   in set (get_tradeable_symbols g) \<inter> fst ` set (get_blocked_symbols g) = {} \<and>
      set (get_tradeable_symbols g) \<union> fst ` set (get_blocked_symbols g) = set (d_keys (gd_health g)) \<and>
      gs_blocked st = int (sum_list (d_vals (gs_blocked_by_reason st))) \<and>
      gs_total_symbols st = gs_tradeable st + sum_list (d_vals (gs_blocked_by_reason st))"
proof -
  let ?g = "fst (guardian_run ops (guardian_init s cfg cb) es)"
  have i: "health_inv ?g" by (rule health_inv_run) (simp add: health_inv_def guardian_init_def)
  note v = health_inv_vals [OF i]
  have "\<forall>h \<in> set (d_vals (gd_health ?g)). hl_is_tradeable h \<longleftrightarrow> hl_block_reason h = None"
    using v by (auto simp: d_vals_def)
  then have c: "sum_list (d_vals (count_reasons (d_vals (gd_health ?g)) [])) =
      length (filter (\<lambda>h. \<not> hl_is_tradeable h) (d_vals (gd_health ?g)))"
    by (subst count_reasons_sum) (auto simp: d_vals_def)
  have n: "length (filter hl_is_tradeable (d_vals (gd_health ?g))) +
      length (filter (\<lambda>h. \<not> hl_is_tradeable h) (d_vals (gd_health ?g))) = length (d_vals (gd_health ?g))"
    by (rule sum_length_filter_compl)
  have d: "d_wf (gd_health ?g)" using i by (simp add: health_inv_def)
  have t: "sy \<in> set (get_tradeable_symbols ?g) \<longleftrightarrow> (\<exists>h. d_get (gd_health ?g) sy = Some h \<and> hl_is_tradeable h)" for sy
    by (auto simp: get_tradeable_symbols_def d_mem_iff [OF d])
  have b: "sy \<in> fst ` set (get_blocked_symbols ?g) \<longleftrightarrow> (\<exists>h. d_get (gd_health ?g) sy = Some h \<and> \<not> hl_is_tradeable h)" for sy
    using v by (force simp: get_blocked_symbols_def d_mem_iff [OF d, symmetric])
  have k: "sy \<in> set (d_keys (gd_health ?g)) \<longleftrightarrow> (\<exists>h. d_get (gd_health ?g) sy = Some h)" for sy
    by (force simp: d_keys_def d_mem_iff [OF d, symmetric])
  have 1: "set (get_tradeable_symbols ?g) \<inter> fst ` set (get_blocked_symbols ?g) = {}"
    unfolding disjoint_iff t b by auto
  have 2: "set (get_tradeable_symbols ?g) \<union> fst ` set (get_blocked_symbols ?g) = set (d_keys (gd_health ?g))"
    unfolding set_eq_iff Un_iff t b k by auto
  have arith: "x + y = z \<Longrightarrow> w = y \<Longrightarrow> int z - int x = int w \<and> z = x + w" for x y z w :: nat by simp
  note 3 = arith [OF n c]
  show ?thesis unfolding Let_def guardian_stats_of_def guardian_stats.select_convs
    by (rule conjI [OF 1 conjI [OF 2 3]])
qed

end
