(* ===== verification/Decision_Types.thy ===== *)
theory Decision_Types
  imports Guardian
begin

text \<open>
  The data of the decision pipeline (quantgambit/core/decision/interfaces.py): positions, book
  snapshots, decision inputs, the outputs of the stages and execution intents, with the methods
  the pipeline calls on them.
\<close>

section \<open>Outputs of the stages\<close>

record feature_frame =
  ff_symbol :: string
  ff_ts_mono :: pyfloat
  ff_version :: string
  ff_names :: "string list"
  ff_x :: "pyfloat list"
  ff_quality_score :: pyfloat
  ff_missing :: "(string, bool) dict"

record model_output =
  mod_version :: string
  mod_p_raw :: pyfloat
  mod_extra :: details

record calibrated_output =
  cal_version :: string
  cal_p_hat :: pyfloat
  cal_extra :: details

record edge_output =
  ed_s :: pyfloat
  ed_k :: pyfloat
  ed_tau :: pyfloat
  ed_deadband_blocked :: bool

record vol_out =
  vo_version :: string
  vo_vol_hat :: pyfloat
  vo_extra :: details

record risk_output =
  rk_version :: string
  rk_w_current :: pyfloat
  rk_w_target :: pyfloat
  rk_delta_w :: pyfloat
  rk_clipped :: bool
  rk_churn_guard_blocked :: bool
  rk_extra :: details

section \<open>Positions and snapshots\<close>

record position =
  po_size :: pyfloat
  po_entry_price :: "pyfloat option"
  po_unrealized_pnl :: pyfloat

definition po_side :: "position \<Rightarrow> string option" where
  "po_side p = (if 0 < po_size p then Some ''long'' else if po_size p < 0 then Some ''short'' else None)"

definition po_is_open :: "position \<Rightarrow> bool" where
  "po_is_open p = (fl (1 / 10000) < \<bar>po_size p\<bar>)"

record book_snapshot =
  sn_best_bid :: "pyfloat option"
  sn_best_ask :: "pyfloat option"
  sn_best_bid_size :: "pyfloat option"
  sn_best_ask_size :: "pyfloat option"
  sn_mid_price :: "pyfloat option"
  sn_spread_bps :: "pyfloat option"
  sn_bid_depth :: nat
  sn_ask_depth :: nat
  sn_sequence_id :: "int option"
  sn_is_quoteable :: bool
  sn_timestamp :: "pyfloat option"

definition sn_microprice :: "book_snapshot \<Rightarrow> pyfloat option" where
  "sn_microprice n =
     (if f_truthy (sn_best_bid_size n) \<and> f_truthy (sn_best_ask_size n) \<and> f_truthy (sn_best_bid n) \<and>
         f_truthy (sn_best_ask n) then
        (let bs = the (sn_best_bid_size n); as = the (sn_best_ask_size n); total = fadd bs as
         in if 0 < total then
              Some (fl (fadd (fmul bs (the (sn_best_ask n))) (fmul as (the (sn_best_bid n))) / total))
            else sn_mid_price n)
      else sn_mid_price n)"

text \<open>The \<open>levels\<close> argument of \<open>imbalance\<close> is not used by the source.\<close>

definition sn_imbalance :: "book_snapshot \<Rightarrow> int \<Rightarrow> pyfloat option" where
  "sn_imbalance n levels =
     (if \<not> f_truthy (sn_best_bid_size n) \<or> \<not> f_truthy (sn_best_ask_size n) then None
      else let bs = the (sn_best_bid_size n); as = the (sn_best_ask_size n); total = fadd bs as
        in if total \<le> 0 then None else Some (fl (fsub bs as / total)))"

definition snapshot_of_book :: "order_book \<Rightarrow> bool \<Rightarrow> book_snapshot" where
  "snapshot_of_book b quoteable =
     (let bid = best_bid_price b; ask = best_ask_price b; mid = mid_price b;
          sp = (if f_truthy bid \<and> f_truthy ask \<and> f_truthy mid \<and> 0 < the mid
                then Some (fmul (fl (fsub (the ask) (the bid) / the mid)) 10000) else None)
      in \<lparr>sn_best_bid = bid, sn_best_ask = ask, sn_best_bid_size = map_option lv_size (first_of (ob_bids b)),
          sn_best_ask_size = map_option lv_size (first_of (ob_asks b)), sn_mid_price = mid, sn_spread_bps = sp,
          sn_bid_depth = length (ob_bids b), sn_ask_depth = length (ob_asks b), sn_sequence_id = ob_update_id b,
          sn_is_quoteable = quoteable, sn_timestamp = ob_timestamp b\<rparr>)"

section \<open>Decision inputs\<close>

record decision_input =
  di_symbol :: string
  di_ts_wall :: pyfloat
  di_ts_mono :: pyfloat
  di_book :: book_snapshot
  di_recent_trades :: "details list"
  di_current_position :: "position option"
  di_account_equity :: pyfloat
  di_available_margin :: pyfloat
  di_open_order_count :: nat
  di_pending_intent_count :: nat
  di_max_position_size :: pyfloat
  di_max_position_value :: pyfloat
  di_max_leverage :: pyfloat
  di_config_bundle_id :: "string option"

definition current_position_size :: "decision_input \<Rightarrow> pyfloat" where
  "current_position_size d = (case di_current_position d of None \<Rightarrow> 0 | Some p \<Rightarrow> po_size p)"

definition current_position_entry_price :: "decision_input \<Rightarrow> pyfloat option" where
  "current_position_entry_price d = (case di_current_position d of None \<Rightarrow> None | Some p \<Rightarrow> po_entry_price p)"

text \<open>
  \<open>side.value\<close> is read from a plain string, which has no attribute \<open>value\<close>: the property raises
  \<open>AttributeError\<close> for every position with a side.
\<close>

definition current_position_side :: "decision_input \<Rightarrow> py_error + string option" where
  "current_position_side d = (case di_current_position d of
       None \<Rightarrow> Inr None
     | Some p \<Rightarrow> (case po_side p of None \<Rightarrow> Inr None | Some sd \<Rightarrow> Inl (OtherError ''AttributeError'')))"

definition current_weight :: "decision_input \<Rightarrow> pyfloat" where
  "current_weight d =
     (if di_account_equity d \<le> 0 then 0
      else case sn_mid_price (di_book d) of
          None \<Rightarrow> 0
        | Some mid \<Rightarrow>
     (case di_current_position d of
          None \<Rightarrow> 0
        | Some p \<Rightarrow>
            (let value = fmul \<bar>po_size p\<bar> mid; weight = fl (value / di_account_equity d)
             in if po_side p = Some ''short'' then - weight else weight)))"

section \<open>Execution intents\<close>

record execution_intent =
  ei_intent_id :: string
  ei_client_order_id :: string
  ei_symbol :: string
  ei_side :: string
  ei_order_type :: string
  ei_qty :: pyfloat
  ei_price :: "pyfloat option"
  ei_sl_price :: "pyfloat option"
  ei_tp_price :: "pyfloat option"
  ei_use_bracket :: bool
  ei_reduce_only :: bool
  ei_trace_id :: string
  ei_strategy_id :: string
  ei_decision_ts :: pyfloat
  ei_risk_mode :: string
  ei_extra :: details
  ei_max_age_sec :: pyfloat

definition ei_is_entry :: "execution_intent \<Rightarrow> bool" where "ei_is_entry i = (\<not> ei_reduce_only i)"
definition ei_is_exit :: "execution_intent \<Rightarrow> bool" where "ei_is_exit i = ei_reduce_only i"
definition ei_has_protection :: "execution_intent \<Rightarrow> bool" where
  "ei_has_protection i = (ei_sl_price i \<noteq> None \<or> ei_tp_price i \<noteq> None)"

section \<open>Library\<close>

lemma f_truthy_Some [simp]: "f_truthy (Some x) = (x \<noteq> 0)" "\<not> f_truthy None"
  by (simp_all add: f_truthy_def)

lemma f_truthy_the: "f_truthy x \<Longrightarrow> x = Some (the x) \<and> the x \<noteq> 0"
  by (cases x) auto

text \<open>The snapshot's imbalance is the book's imbalance at one level, when the sizes are positive.\<close>

lemma sn_imbalance_range:
  assumes "f_truthy (sn_best_bid_size n) \<longrightarrow> 0 < the (sn_best_bid_size n)"
    "f_truthy (sn_best_ask_size n) \<longrightarrow> 0 < the (sn_best_ask_size n)" "sn_imbalance n l = Some q"
  shows "\<bar>q\<bar> \<le> 1"
proof -
  let ?x = "the (sn_best_bid_size n)" and ?y = "the (sn_best_ask_size n)"
  from assms have p: "0 < ?x" "0 < ?y" and t: "0 < fadd ?x ?y" and q: "q = fl (fsub ?x ?y / fadd ?x ?y)"
    by (auto simp: sn_imbalance_def Let_def split: if_splits)
  have "\<bar>fsub ?x ?y\<bar> \<le> fadd ?x ?y"
    unfolding fsub_def fadd_def fl_abs using p by (intro fl_mono) (auto simp: abs_if)
  with t show ?thesis unfolding q by (intro fl_div_abs_le_1)
qed

text \<open>A position's weight has the sign of its size.\<close>

lemma current_weight_sign:
  assumes "0 < di_account_equity d" "sn_mid_price (di_book d) = Some mid" "0 < mid" "di_current_position d = Some p"
  shows "(0 < current_weight d) = (0 < po_size p)" "(current_weight d < 0) = (po_size p < 0)"
proof -
  have v: "0 < fl (fmul \<bar>po_size p\<bar> mid / di_account_equity d) \<longleftrightarrow> po_size p \<noteq> 0"
    using assms(1,3) by (auto simp: fmul_pos_iff zero_less_divide_iff zero_less_mult_iff)
  have nn: "0 \<le> fl (fmul \<bar>po_size p\<bar> mid / di_account_equity d)"
    using assms(1,3) by (simp add: fmul_def)
  show "(0 < current_weight d) = (0 < po_size p)" "(current_weight d < 0) = (po_size p < 0)"
    using assms v nn by (auto simp: current_weight_def po_side_def Let_def)
qed

end
