(* ===== verification/Machines.thy ===== *)
theory Machines
  imports Prelude
begin

text \<open>
  Contracts that several stateful components share: an invariant that every operation
  keeps, and a latch that only designated operations release; a third, for quantities that never shrink, extends the
  first.  A component is a step function
  on states and events; a run folds it over a list of events.
\<close>

locale invariant_machine =
  fixes step :: "'s \<Rightarrow> 'e \<Rightarrow> 's" and admits :: "'e \<Rightarrow> bool" and inv :: "'s \<Rightarrow> bool"
  assumes step_inv: "inv s \<Longrightarrow> admits e \<Longrightarrow> inv (step s e)"
begin

lemma run_inv: "inv s \<Longrightarrow> list_all admits es \<Longrightarrow> inv (foldl step s es)"
  by (induction es arbitrary: s) (auto intro: step_inv)

end

locale latch = invariant_machine step admits inv
  for step :: "'s \<Rightarrow> 'e \<Rightarrow> 's" and admits :: "'e \<Rightarrow> bool" and inv :: "'s \<Rightarrow> bool" +
  fixes closed :: "'s \<Rightarrow> bool" and releases :: "'e \<Rightarrow> bool" and memory :: "'s \<Rightarrow> 'm"
  assumes stays_closed:
    "inv s \<Longrightarrow> admits e \<Longrightarrow> closed s \<Longrightarrow> \<not> releases e \<Longrightarrow> closed (step s e) \<and> memory (step s e) = memory s"
begin

text \<open>A closed latch stays closed, and keeps what it remembers, until it is released.\<close>

lemma run_closed:
  assumes "inv s" "list_all admits es" "closed s" "\<not> list_ex releases es"
  shows "closed (foldl step s es) \<and> memory (foldl step s es) = memory s"
  using assms
proof (induction es arbitrary: s)
  case (Cons e es)
  with stays_closed [of s e] step_inv [of s e] Cons.IH [of "step s e"] show ?case by simp
qed simp

end

locale monotone_machine = invariant_machine step admits inv
  for step :: "'s \<Rightarrow> 'e \<Rightarrow> 's" and admits :: "'e \<Rightarrow> bool" and inv :: "'s \<Rightarrow> bool" +
  fixes measure_of :: "'s \<Rightarrow> 'm :: preorder" and disturbs :: "'e \<Rightarrow> bool"
  assumes step_grows: "inv s \<Longrightarrow> admits e \<Longrightarrow> \<not> disturbs e \<Longrightarrow> measure_of s \<le> measure_of (step s e)"
begin

lemma run_grows:
  "inv s \<Longrightarrow> list_all admits es \<Longrightarrow> \<not> list_ex disturbs es \<Longrightarrow> measure_of s \<le> measure_of (foldl step s es)"
proof (induction es arbitrary: s)
  case (Cons e es)
  with step_grows [of s e] step_inv [of s e] Cons.IH [of "step s e"] show ?case
    by (auto intro: order_trans)
qed simp

end

end
