(* ===== verification/Sym_Calibrator.thy ===== *)
theory Sym_Calibrator
  imports Machines Py_Float
begin

text \<open>
  Per-symbol thresholds: the symbol calibrator (quantgambit/risk/symbol_calibrator.py), which keeps
  rolling samples and caches thresholds for ten seconds, and the calibration gate
  (quantgambit/core/decision/calibration.py), which blocks or shrinks a decision by them.  Readings
  of \<open>time.time()\<close> are arguments.
\<close>

section \<open>Data\<close>

record symbol_thresholds =
  th_symbol :: string
  th_spread_typical_bps :: pyfloat
  th_spread_warn_bps :: pyfloat
  th_spread_block_bps :: pyfloat
  th_depth_typical_usd :: pyfloat
  th_depth_warn_usd :: pyfloat
  th_depth_block_usd :: pyfloat
  th_sample_count :: nat
  th_quality :: string
  th_last_updated :: pyfloat

record calibration_config =
  cc_max_samples :: nat
  cc_sample_interval_sec :: pyfloat
  cc_spread_warn_multiplier :: pyfloat
  cc_spread_block_multiplier :: pyfloat
  cc_depth_warn_fraction :: pyfloat
  cc_depth_block_fraction :: pyfloat
  cc_fallback_spread_warn_bps :: pyfloat
  cc_fallback_spread_block_bps :: pyfloat
  cc_fallback_depth_warn_usd :: pyfloat
  cc_fallback_depth_block_usd :: pyfloat
  cc_min_samples :: nat
  cc_good_samples :: nat

definition default_calibration_config :: calibration_config where
  "default_calibration_config = \<lparr>cc_max_samples = 1000, cc_sample_interval_sec = 1,
     cc_spread_warn_multiplier = 2, cc_spread_block_multiplier = 4, cc_depth_warn_fraction = 1 / 2,
     cc_depth_block_fraction = 1 / 4, cc_fallback_spread_warn_bps = 10, cc_fallback_spread_block_bps = 30,
     cc_fallback_depth_warn_usd = 5000, cc_fallback_depth_block_usd = 1000, cc_min_samples = 20,
     cc_good_samples = 100\<rparr>"

record symbol_stats =
  st_maxlen :: nat
  st_spread_samples :: "pyfloat list"
  st_depth_samples :: "pyfloat list"
  st_last_sample_time :: pyfloat

text \<open>\<open>append\<close> on a deque with a maximal length drops from the left.\<close>

definition deque_append :: "nat \<Rightarrow> 'a list \<Rightarrow> 'a \<Rightarrow> 'a list" where
  "deque_append maxlen xs x = (let ys = xs @ [x] in drop (length ys - maxlen) ys)"

definition positive_sample :: "pyfloat option \<Rightarrow> bool" where
  "positive_sample x = (case x of None \<Rightarrow> False | Some v \<Rightarrow> 0 < v)"

definition add_sample ::
  "symbol_stats \<Rightarrow> pyfloat option \<Rightarrow> pyfloat option \<Rightarrow> pyfloat \<Rightarrow> pyfloat \<Rightarrow> symbol_stats \<times> bool" where
  "add_sample st spread depth ts min_interval =
     (if fsub ts (st_last_sample_time st) < min_interval then (st, False)
      else
     (let st1 = (if positive_sample spread
            then st\<lparr>st_spread_samples := deque_append (st_maxlen st) (st_spread_samples st) (the spread)\<rparr> else st);
          st2 = (if positive_sample depth
            then st1\<lparr>st_depth_samples := deque_append (st_maxlen st) (st_depth_samples st1) (the depth)\<rparr> else st1)
      in (st2\<lparr>st_last_sample_time := ts\<rparr>, True)))"

text \<open>\<open>statistics.median\<close>, asked for only from five samples on.\<close>

definition median :: "pyfloat list \<Rightarrow> pyfloat" where
  "median xs = (let ys = sort xs; n = length ys
     in if odd n then ys ! (n div 2) else fl (fadd (ys ! (n div 2 - 1)) (ys ! (n div 2)) / 2))"

definition sample_median :: "pyfloat list \<Rightarrow> pyfloat option" where
  "sample_median xs = (if 5 \<le> length xs then Some (median xs) else None)"

section \<open>The calibrator\<close>

record symbol_calibrator =
  sy_config :: calibration_config
  sy_stats :: "(string, symbol_stats) dict"
  sy_cached :: "(string, symbol_thresholds) dict"

definition calibrator_init :: "calibration_config option \<Rightarrow> symbol_calibrator" where
  "calibrator_init cfg = \<lparr>sy_config = (case cfg of None \<Rightarrow> default_calibration_config | Some c \<Rightarrow> c),
     sy_stats = [], sy_cached = []\<rparr>"

definition min_depth :: "pyfloat option \<Rightarrow> pyfloat option \<Rightarrow> pyfloat option" where
  "min_depth bid ask = (case (bid, ask) of
       (Some b, Some a) \<Rightarrow> Some (min b a) | (Some b, None) \<Rightarrow> Some b | (None, a) \<Rightarrow> a)"

definition observe ::
  "symbol_calibrator \<Rightarrow> string \<Rightarrow> pyfloat option \<Rightarrow> pyfloat option \<Rightarrow> pyfloat option \<Rightarrow> pyfloat \<Rightarrow> symbol_calibrator" where
  "observe c sy spread bid_depth ask_depth ts =
     (let st = (case d_get (sy_stats c) sy of
            Some s \<Rightarrow> s
          | None \<Rightarrow> \<lparr>st_maxlen = cc_max_samples (sy_config c), st_spread_samples = [], st_depth_samples = [],
              st_last_sample_time = 0\<rparr>);
          (st', ok) = add_sample st spread (min_depth bid_depth ask_depth) ts (cc_sample_interval_sec (sy_config c))
      in c\<lparr>sy_stats := d_put (sy_stats c) sy st'\<rparr>)"

definition fallback_thresholds :: "calibration_config \<Rightarrow> string \<Rightarrow> nat \<Rightarrow> pyfloat \<Rightarrow> symbol_thresholds" where
  "fallback_thresholds c sy n now =
     \<lparr>th_symbol = sy, th_spread_typical_bps = fl (cc_fallback_spread_warn_bps c / 2),
      th_spread_warn_bps = cc_fallback_spread_warn_bps c, th_spread_block_bps = cc_fallback_spread_block_bps c,
      th_depth_typical_usd = fmul (cc_fallback_depth_warn_usd c) 2, th_depth_warn_usd = cc_fallback_depth_warn_usd c,
      th_depth_block_usd = cc_fallback_depth_block_usd c, th_sample_count = n, th_quality = ''poor'',
      th_last_updated = now\<rparr>"

definition compute_thresholds :: "symbol_calibrator \<Rightarrow> string \<Rightarrow> pyfloat \<Rightarrow> symbol_thresholds" where
  "compute_thresholds c sy now =
     (let cfg = sy_config c
      in case d_get (sy_stats c) sy of
           None \<Rightarrow> fallback_thresholds cfg sy 0 now
         | Some st \<Rightarrow>
             (let n = length (st_spread_samples st)
              in if n < cc_min_samples cfg then fallback_thresholds cfg sy n now
                 else
             (let sm = fo_or (sample_median (st_spread_samples st)) (fl (cc_fallback_spread_warn_bps cfg / 2));
                  spread_warn = max (fmul sm (cc_spread_warn_multiplier cfg)) 2;
                  spread_block = max (fmul sm (cc_spread_block_multiplier cfg)) 5;
                  dm = fo_or (sample_median (st_depth_samples st)) (fmul (cc_fallback_depth_warn_usd cfg) 2);
                  depth_warn = fmul dm (cc_depth_warn_fraction cfg);
                  depth_block = max (fmul dm (cc_depth_block_fraction cfg)) 500;
                  quality = (if cc_good_samples cfg \<le> n then ''good''
                             else if cc_min_samples cfg \<le> n then ''fair'' else ''poor'')
              in \<lparr>th_symbol = sy, th_spread_typical_bps = sm, th_spread_warn_bps = spread_warn,
                  th_spread_block_bps = spread_block, th_depth_typical_usd = dm, th_depth_warn_usd = depth_warn,
                  th_depth_block_usd = depth_block, th_sample_count = n, th_quality = quality,
                  th_last_updated = now\<rparr>)))"

definition get_thresholds :: "symbol_calibrator \<Rightarrow> string \<Rightarrow> pyfloat \<Rightarrow> symbol_calibrator \<times> symbol_thresholds" where
  "get_thresholds c sy now =
     (let fresh = compute_thresholds c sy now; store = c\<lparr>sy_cached := d_put (sy_cached c) sy fresh\<rparr>
      in case d_get (sy_cached c) sy of
           None \<Rightarrow> (store, fresh)
         | Some th \<Rightarrow> if fsub now (th_last_updated th) < 10 then (c, th) else (store, fresh))"

definition calibrator_reset :: "symbol_calibrator \<Rightarrow> string option \<Rightarrow> symbol_calibrator" where
  "calibrator_reset c sy = (if s_truthy sy
     then c\<lparr>sy_stats := d_pop (sy_stats c) (the sy), sy_cached := d_pop (sy_cached c) (the sy)\<rparr>
     else c\<lparr>sy_stats := [], sy_cached := []\<rparr>)"

section \<open>The gate\<close>

record calibration_output =
  co_spread_block_bps :: pyfloat
  co_spread_warn_bps :: pyfloat
  co_spread_typical_bps :: pyfloat
  co_depth_block_usd :: pyfloat
  co_depth_warn_usd :: pyfloat
  co_depth_typical_usd :: pyfloat
  co_spread_current_bps :: pyfloat
  co_depth_current_usd :: pyfloat
  co_spread_blocked :: bool
  co_spread_warn :: bool
  co_depth_blocked :: bool
  co_depth_warn :: bool
  co_size_multiplier :: pyfloat
  co_adjustment_reason :: "string option"
  co_calibration_quality :: string
  co_sample_count :: nat
  co_using_fallback :: bool

definition co_is_blocked :: "calibration_output \<Rightarrow> bool" where
  "co_is_blocked o' = (co_spread_blocked o' \<or> co_depth_blocked o')"

definition co_is_degraded :: "calibration_output \<Rightarrow> bool" where
  "co_is_degraded o' = (co_spread_warn o' \<or> co_depth_warn o')"

definition gate_output ::
  "pyfloat \<Rightarrow> symbol_thresholds \<Rightarrow> pyfloat \<Rightarrow> pyfloat \<Rightarrow> pyfloat \<Rightarrow> calibration_output" where
  "gate_output warn_multiplier th spread_bps bid_depth ask_depth =
     (let depth = min bid_depth ask_depth;
          spread_blocked = th_spread_block_bps th < spread_bps;
          spread_warn = (th_spread_warn_bps th < spread_bps \<and> \<not> spread_blocked);
          depth_blocked = depth < th_depth_block_usd th;
          depth_warn = (depth < th_depth_warn_usd th \<and> \<not> depth_blocked);
          m1 = (if spread_warn then fmul 1 warn_multiplier else 1);
          m2 = (if depth_warn then fmul m1 warn_multiplier else m1);
          reason = (if spread_warn \<and> depth_warn then Some ''spread_warn, depth_warn''
                    else if spread_warn then Some ''spread_warn''
                    else if depth_warn then Some ''depth_warn'' else None)
      in \<lparr>co_spread_block_bps = th_spread_block_bps th, co_spread_warn_bps = th_spread_warn_bps th,
          co_spread_typical_bps = th_spread_typical_bps th, co_depth_block_usd = th_depth_block_usd th,
          co_depth_warn_usd = th_depth_warn_usd th, co_depth_typical_usd = th_depth_typical_usd th,
          co_spread_current_bps = spread_bps, co_depth_current_usd = depth, co_spread_blocked = spread_blocked,
          co_spread_warn = spread_warn, co_depth_blocked = depth_blocked, co_depth_warn = depth_warn,
          co_size_multiplier = m2, co_adjustment_reason = reason, co_calibration_quality = th_quality th,
          co_sample_count = th_sample_count th, co_using_fallback = (th_quality th = ''poor'')\<rparr>)"

definition gate_check ::
  "symbol_calibrator \<Rightarrow> pyfloat \<Rightarrow> string \<Rightarrow> pyfloat \<Rightarrow> pyfloat \<Rightarrow> pyfloat \<Rightarrow> pyfloat \<Rightarrow>
     symbol_calibrator \<times> calibration_output" where
  "gate_check c warn_multiplier sy spread_bps bid_depth ask_depth now =
     (let (c', th) = get_thresholds c sy now in (c', gate_output warn_multiplier th spread_bps bid_depth ask_depth))"

section \<open>Runs\<close>

datatype calibrator_event =
    CObserve string "pyfloat option" "pyfloat option" "pyfloat option" pyfloat
  | CThresholds string pyfloat
  | CReset "string option"

fun calibrator_step :: "symbol_calibrator \<Rightarrow> calibrator_event \<Rightarrow> symbol_calibrator" where
  "calibrator_step c (CObserve sy sp b a ts) = observe c sy sp b a ts"
| "calibrator_step c (CThresholds sy now) = fst (get_thresholds c sy now)"
| "calibrator_step c (CReset sy) = calibrator_reset c sy"

definition thresholds_ok :: "calibration_config \<Rightarrow> symbol_thresholds \<Rightarrow> bool" where
  "thresholds_ok cfg th =
     (if th_quality th = ''poor''
      then th_spread_block_bps th = cc_fallback_spread_block_bps cfg \<and> th_depth_block_usd th = cc_fallback_depth_block_usd cfg
      else cc_min_samples cfg \<le> th_sample_count th \<and> 5 \<le> th_spread_block_bps th \<and> 2 \<le> th_spread_warn_bps th \<and>
        500 \<le> th_depth_block_usd th)"

definition samples_ok :: "symbol_stats \<Rightarrow> bool" where
  "samples_ok st = (length (st_spread_samples st) \<le> st_maxlen st \<and> length (st_depth_samples st) \<le> st_maxlen st \<and>
     list_all (\<lambda>x. 0 < x) (st_spread_samples st) \<and> list_all (\<lambda>x. 0 < x) (st_depth_samples st))"

definition calibrator_inv :: "symbol_calibrator \<Rightarrow> bool" where
  "calibrator_inv c = (d_wf (sy_stats c) \<and> d_wf (sy_cached c) \<and>
     (\<forall>sy th. d_get (sy_cached c) sy = Some th \<longrightarrow> thresholds_ok (sy_config c) th) \<and>
     (\<forall>sy st. d_get (sy_stats c) sy = Some st \<longrightarrow> samples_ok st \<and> st_maxlen st = cc_max_samples (sy_config c)))"

lemma compute_thresholds_ok: "thresholds_ok (sy_config c) (compute_thresholds c sy now)"
  by (auto simp: compute_thresholds_def thresholds_ok_def fallback_thresholds_def Let_def split: option.split)

lemma deque_append_props:
  "length (deque_append n xs x) \<le> n" "list_all P xs \<Longrightarrow> P x \<Longrightarrow> list_all P (deque_append n xs x)"
  by (auto simp: deque_append_def Let_def list_all_iff dest: in_set_dropD)

lemma add_sample_ok: "samples_ok st \<Longrightarrow> add_sample st sp d ts mi = (st', ok) \<Longrightarrow> samples_ok st' \<and> st_maxlen st' = st_maxlen st"
  by (auto simp: add_sample_def samples_ok_def positive_sample_def deque_append_props Let_def
      split: if_splits option.splits)

lemma empty_samples_ok: "samples_ok \<lparr>st_maxlen = n, st_spread_samples = [], st_depth_samples = [], st_last_sample_time = t\<rparr>"
  by (simp add: samples_ok_def)

interpretation calibrator: invariant_machine calibrator_step "\<lambda>e. True" calibrator_inv
proof
  fix c e assume i: "calibrator_inv c"
  show "calibrator_inv (calibrator_step c e)"
  proof (cases e)
    case (CObserve sy sp b a ts)
    define st where "st = (case d_get (sy_stats c) sy of Some s \<Rightarrow> s
        | None \<Rightarrow> \<lparr>st_maxlen = cc_max_samples (sy_config c), st_spread_samples = [], st_depth_samples = [],
            st_last_sample_time = 0\<rparr>)"
    have st: "samples_ok st" "st_maxlen st = cc_max_samples (sy_config c)"
      using i by (auto simp: st_def calibrator_inv_def empty_samples_ok split: option.split)
    obtain st' ok where a: "add_sample st sp (min_depth b a) ts (cc_sample_interval_sec (sy_config c)) = (st', ok)" by force
    have "calibrator_step c e = c\<lparr>sy_stats := d_put (sy_stats c) sy st'\<rparr>"
      using a by (simp add: CObserve observe_def Let_def flip: st_def)
    with i add_sample_ok [OF st(1) a] st(2) show ?thesis by (auto simp: calibrator_inv_def)
  next
    case (CThresholds sy now)
    with i compute_thresholds_ok show ?thesis
      by (auto simp: calibrator_inv_def get_thresholds_def Let_def split: option.split)
  next
    case (CReset sy)
    with i show ?thesis by (auto simp: calibrator_inv_def calibrator_reset_def)
  qed
qed

definition calibrator_run :: "calibration_config option \<Rightarrow> calibrator_event list \<Rightarrow> symbol_calibrator" where
  "calibrator_run cfg es = foldl calibrator_step (calibrator_init cfg) es"

lemma calibrator_run_inv: "calibrator_inv (calibrator_run cfg es)"
  unfolding calibrator_run_def
  by (rule calibrator.run_inv) (simp_all add: calibrator_inv_def calibrator_init_def list_all_iff)

lemma calibrator_step_config: "sy_config (calibrator_step c e) = sy_config c"
  by (cases e) (auto simp: observe_def get_thresholds_def calibrator_reset_def Let_def split: option.split prod.split)

lemma calibrator_run_config: "sy_config (calibrator_run cfg es) = sy_config (calibrator_init cfg)"
proof -
  have "sy_config (foldl calibrator_step c es) = sy_config c" for c
    by (induction es arbitrary: c) (auto simp: calibrator_step_config)
  then show ?thesis by (simp add: calibrator_run_def)
qed

lemma get_thresholds_ok: "calibrator_inv c \<Longrightarrow> thresholds_ok (sy_config c) (snd (get_thresholds c sy now))"
  using compute_thresholds_ok by (auto simp: get_thresholds_def calibrator_inv_def Let_def split: option.split)

section \<open>Properties\<close>

text \<open>Thresholds are always usable: after any observations, queries and resets, the thresholds of a symbol (cached or
  fresh) are the configured fallbacks, marked \<open>poor\<close>, or computed from at least \<open>min_samples\<close> samples with a
  blocking spread of at least 5 bps and a blocking depth of at least 500 USD; the sample windows never exceed their
  maximal length and hold positive values only.\<close>

theorem thresholds_usable:
  "thresholds_ok (sy_config (calibrator_init cfg)) (snd (get_thresholds (calibrator_run cfg es) sy now)) \<and>
   (case d_get (sy_stats (calibrator_run cfg es)) sy of None \<Rightarrow> True
    | Some st \<Rightarrow> samples_ok st \<and> st_maxlen st = cc_max_samples (sy_config (calibrator_init cfg)))"
  using get_thresholds_ok [OF calibrator_run_inv, of cfg es sy now] calibrator_run_inv [of cfg es]
  by (auto simp: calibrator_run_config calibrator_inv_def split: option.split)

text \<open>The gate's size multiplier depends on the warnings only: 1 without a warning, the warn multiplier for one and its
  rounded square for both; it lies in [0, 1] when the warn multiplier is a float in [0, 1].  A dimension is
  never both blocked and warned.\<close>

theorem gate_multiplier:
  assumes "is_float w" "0 \<le> w" "w \<le> 1"
  shows "let g = gate_output w th sp b a
    in co_size_multiplier g = (if co_spread_warn g \<and> co_depth_warn g then fmul w w else if co_is_degraded g then w else 1) \<and>
       0 \<le> co_size_multiplier g \<and> co_size_multiplier g \<le> 1 \<and>
       \<not> (co_spread_blocked g \<and> co_spread_warn g) \<and> \<not> (co_depth_blocked g \<and> co_depth_warn g)"
proof -
  have "fmul 1 w = w" using assms(1) by (simp add: fmul_def is_float_def)
  moreover have "fmul w w \<le> fl 1" unfolding fmul_def using assms by (intro fl_mono mult_le_one) auto
  then have "fmul w w \<le> 1" by simp
  moreover have "0 \<le> fmul w w" by (simp add: fmul_def)
  ultimately show ?thesis using assms by (simp add: gate_output_def co_is_degraded_def Let_def)
qed

lemma gate_multiplier_witness:
  "co_size_multiplier (gate_output (1 / 2) (fallback_thresholds default_calibration_config ''BTC'' 0 1) 20 2000 3000) = 1 / 4"
proof -
  have "is_float (1 / 2)" using is_float_exact [of 1 "- 1"] by simp
  moreover have "fmul (1 / 2) (1 / 2) = 1 / 4" by code_simp
  ultimately show ?thesis
    using gate_multiplier [of "1 / 2" "fallback_thresholds default_calibration_config ''BTC'' 0 1" 20 2000 3000]
    by (simp add: Let_def gate_output_def fallback_thresholds_def default_calibration_config_def)
qed

end
