(* ===== verification/Decision_Record.thy ===== *)
theory Decision_Record
  imports Decision_Types Sym_Calibrator
begin

text \<open>
  The audit record of a decision cycle and its builder (quantgambit/core/decision/record.py).  The
  builder mutates one record, so each builder method is a function on records.  Block reasons,
  formatted text in the source, are kept as structured values.
\<close>

datatype decision_outcome =
    NO_ACTION | INTENT_EMITTED
  | BLOCKED_KILL_SWITCH | BLOCKED_BOOK_UNSAFE | BLOCKED_DEADBAND | BLOCKED_CHURN_GUARD | BLOCKED_MAX_POSITION
  | BLOCKED_COOLDOWN | BLOCKED_RISK_LIMIT | BLOCKED_DATA_QUALITY | BLOCKED_NO_EQUITY | BLOCKED_STALE_DATA
  | BLOCKED_SPREAD_WIDE | BLOCKED_DEPTH_THIN
  | ERROR_FEATURE_BUILD | ERROR_MODEL_INFER | ERROR_CALIBRATION | ERROR_EDGE_TRANSFORM | ERROR_VOL_ESTIMATE
  | ERROR_RISK_MAP | ERROR_INTENT_BUILD

datatype reason_text =
    NoReason
  | KillSwitchActive
  | SpreadAbove pyfloat pyfloat
  | DepthBelow pyfloat pyfloat
  | SignalBelow pyfloat pyfloat
  | DeltaBelow pyfloat
  | EntriesDisabled
  | ExitsDisabled
  | NoIntentsGenerated

record decision_record =
  dr_schema_version :: int
  dr_record_id :: string
  dr_trace_id :: string
  dr_symbol :: string
  dr_ts_wall :: pyfloat
  dr_ts_mono :: pyfloat
  dr_ts_book :: "pyfloat option"
  dr_bundle_id :: string
  dr_feature_set_version_id :: string
  dr_model_version_id :: string
  dr_calibrator_version_id :: string
  dr_edge_transform_version_id :: string
  dr_vol_estimator_version_id :: string
  dr_risk_profile_version_id :: string
  dr_execution_policy_version_id :: string
  dr_book_bid :: "pyfloat option"
  dr_book_ask :: "pyfloat option"
  dr_book_mid :: "pyfloat option"
  dr_book_spread_bps :: "pyfloat option"
  dr_book_seq :: "int option"
  dr_book_is_quoteable :: bool
  dr_position_size :: pyfloat
  dr_position_entry_price :: "pyfloat option"
  dr_position_unrealized_pnl :: "pyfloat option"
  dr_account_equity :: pyfloat
  dr_feature_frame :: "feature_frame option"
  dr_model_output :: "model_output option"
  dr_calibrated_output :: "calibrated_output option"
  dr_edge_output :: "edge_output option"
  dr_vol_output :: "vol_out option"
  dr_risk_output :: "risk_output option"
  dr_calibration_output :: "calibration_output option"
  dr_signal_s :: pyfloat
  dr_vol_hat :: pyfloat
  dr_w_current :: pyfloat
  dr_w_target :: pyfloat
  dr_delta_w :: pyfloat
  dr_outcome :: decision_outcome
  dr_block_reason :: reason_text
  dr_intents :: "execution_intent list"
  dr_error_stage :: string
  dr_error_message :: "py_error option"
  dr_extra :: details

definition new_record :: decision_record where
  "new_record = \<lparr>dr_schema_version = 1, dr_record_id = [], dr_trace_id = [], dr_symbol = [], dr_ts_wall = 0,
     dr_ts_mono = 0, dr_ts_book = Some 0, dr_bundle_id = [], dr_feature_set_version_id = [], dr_model_version_id = [],
     dr_calibrator_version_id = [], dr_edge_transform_version_id = [], dr_vol_estimator_version_id = [],
     dr_risk_profile_version_id = [], dr_execution_policy_version_id = [], dr_book_bid = None, dr_book_ask = None,
     dr_book_mid = None, dr_book_spread_bps = None, dr_book_seq = None, dr_book_is_quoteable = False,
     dr_position_size = 0, dr_position_entry_price = None, dr_position_unrealized_pnl = None, dr_account_equity = 0,
     dr_feature_frame = None, dr_model_output = None, dr_calibrated_output = None, dr_edge_output = None,
     dr_vol_output = None, dr_risk_output = None, dr_calibration_output = None, dr_signal_s = 0, dr_vol_hat = 0,
     dr_w_current = 0, dr_w_target = 0, dr_delta_w = 0, dr_outcome = NO_ACTION, dr_block_reason = NoReason,
     dr_intents = [], dr_error_stage = [], dr_error_message = None, dr_extra = []\<rparr>"

definition with_identifiers :: "string \<Rightarrow> string \<Rightarrow> string \<Rightarrow> decision_record \<Rightarrow> decision_record" where
  "with_identifiers rid tid sy r = r\<lparr>dr_record_id := rid, dr_trace_id := tid, dr_symbol := sy\<rparr>"

definition with_timestamps :: "pyfloat \<Rightarrow> pyfloat \<Rightarrow> pyfloat option \<Rightarrow> decision_record \<Rightarrow> decision_record" where
  "with_timestamps w m b r = r\<lparr>dr_ts_wall := w, dr_ts_mono := m, dr_ts_book := b\<rparr>"

definition with_bundle ::
  "string \<Rightarrow> string \<Rightarrow> string \<Rightarrow> string \<Rightarrow> string \<Rightarrow> string \<Rightarrow> string \<Rightarrow> string \<Rightarrow> decision_record \<Rightarrow> decision_record" where
  "with_bundle bundle fs md cal edge vol risk policy r =
     r\<lparr>dr_bundle_id := bundle, dr_feature_set_version_id := fs, dr_model_version_id := md,
       dr_calibrator_version_id := cal, dr_edge_transform_version_id := edge, dr_vol_estimator_version_id := vol,
       dr_risk_profile_version_id := risk, dr_execution_policy_version_id := policy\<rparr>"

definition with_book_state ::
  "pyfloat option \<Rightarrow> pyfloat option \<Rightarrow> pyfloat option \<Rightarrow> pyfloat option \<Rightarrow> int option \<Rightarrow> bool \<Rightarrow>
     decision_record \<Rightarrow> decision_record" where
  "with_book_state bid ask mid sp sq q r =
     r\<lparr>dr_book_bid := bid, dr_book_ask := ask, dr_book_mid := mid, dr_book_spread_bps := sp, dr_book_seq := sq,
       dr_book_is_quoteable := q\<rparr>"

definition with_position ::
  "pyfloat \<Rightarrow> pyfloat option \<Rightarrow> pyfloat option \<Rightarrow> decision_record \<Rightarrow> decision_record" where
  "with_position sz e u r = r\<lparr>dr_position_size := sz, dr_position_entry_price := e, dr_position_unrealized_pnl := u\<rparr>"

definition with_account :: "pyfloat \<Rightarrow> decision_record \<Rightarrow> decision_record" where
  "with_account e r = r\<lparr>dr_account_equity := e\<rparr>"

definition with_feature_frame :: "feature_frame \<Rightarrow> decision_record \<Rightarrow> decision_record" where
  "with_feature_frame f r = r\<lparr>dr_feature_frame := Some f, dr_feature_set_version_id := ff_version f\<rparr>"

definition with_model_output :: "model_output \<Rightarrow> decision_record \<Rightarrow> decision_record" where
  "with_model_output m r = r\<lparr>dr_model_output := Some m, dr_model_version_id := mod_version m\<rparr>"

definition with_calibrated_output :: "calibrated_output \<Rightarrow> decision_record \<Rightarrow> decision_record" where
  "with_calibrated_output c r = r\<lparr>dr_calibrated_output := Some c, dr_calibrator_version_id := cal_version c\<rparr>"

text \<open>An edge output has no \<open>extra\<close>, so its version id is the default, the empty string.\<close>

definition with_edge_output :: "edge_output \<Rightarrow> decision_record \<Rightarrow> decision_record" where
  "with_edge_output e r = r\<lparr>dr_edge_output := Some e, dr_signal_s := ed_s e, dr_edge_transform_version_id := []\<rparr>"

definition with_vol_output :: "vol_out \<Rightarrow> decision_record \<Rightarrow> decision_record" where
  "with_vol_output v r = r\<lparr>dr_vol_output := Some v, dr_vol_hat := vo_vol_hat v, dr_vol_estimator_version_id := vo_version v\<rparr>"

definition with_risk_output :: "risk_output \<Rightarrow> decision_record \<Rightarrow> decision_record" where
  "with_risk_output k r = r\<lparr>dr_risk_output := Some k, dr_risk_profile_version_id := rk_version k,
     dr_w_current := rk_w_current k, dr_w_target := rk_w_target k, dr_delta_w := rk_delta_w k\<rparr>"

definition with_outcome :: "decision_outcome \<Rightarrow> reason_text \<Rightarrow> decision_record \<Rightarrow> decision_record" where
  "with_outcome oc t r = r\<lparr>dr_outcome := oc, dr_block_reason := t\<rparr>"

definition with_intents :: "execution_intent list \<Rightarrow> decision_record \<Rightarrow> decision_record" where
  "with_intents is r = (let r1 = r\<lparr>dr_intents := is\<rparr> in if is \<noteq> [] then r1\<lparr>dr_outcome := INTENT_EMITTED\<rparr> else r1)"

definition stage_outcome :: "string \<Rightarrow> decision_outcome" where
  "stage_outcome stage =
     (if stage = ''feature_build'' then ERROR_FEATURE_BUILD else if stage = ''model_infer'' then ERROR_MODEL_INFER
      else if stage = ''calibration'' then ERROR_CALIBRATION else if stage = ''edge_transform'' then ERROR_EDGE_TRANSFORM
      else if stage = ''vol_estimate'' then ERROR_VOL_ESTIMATE else if stage = ''risk_map'' then ERROR_RISK_MAP
      else if stage = ''intent_build'' then ERROR_INTENT_BUILD else ERROR_FEATURE_BUILD)"

definition with_error :: "string \<Rightarrow> py_error \<Rightarrow> decision_record \<Rightarrow> decision_record" where
  "with_error stage e r = r\<lparr>dr_error_stage := stage, dr_error_message := Some e, dr_outcome := stage_outcome stage\<rparr>"

definition with_extra :: "details \<Rightarrow> decision_record \<Rightarrow> decision_record" where
  "with_extra ex r = r\<lparr>dr_extra := fold (\<lambda>(k, v) d. d_put d k v) ex (dr_extra r)\<rparr>"

definition with_calibration_output :: "calibration_output \<Rightarrow> decision_record \<Rightarrow> decision_record" where
  "with_calibration_output c r = r\<lparr>dr_calibration_output := Some c\<rparr>"

text \<open>\<open>is_blocked\<close> and \<open>is_error\<close> test the prefix of the outcome's name.\<close>

definition dr_is_blocked :: "decision_record \<Rightarrow> bool" where
  "dr_is_blocked r = (dr_outcome r \<in> {BLOCKED_KILL_SWITCH, BLOCKED_BOOK_UNSAFE, BLOCKED_DEADBAND, BLOCKED_CHURN_GUARD,
     BLOCKED_MAX_POSITION, BLOCKED_COOLDOWN, BLOCKED_RISK_LIMIT, BLOCKED_DATA_QUALITY, BLOCKED_NO_EQUITY,
     BLOCKED_STALE_DATA, BLOCKED_SPREAD_WIDE, BLOCKED_DEPTH_THIN})"

definition dr_is_error :: "decision_record \<Rightarrow> bool" where
  "dr_is_error r = (dr_outcome r \<in> {ERROR_FEATURE_BUILD, ERROR_MODEL_INFER, ERROR_CALIBRATION, ERROR_EDGE_TRANSFORM,
     ERROR_VOL_ESTIMATE, ERROR_RISK_MAP, ERROR_INTENT_BUILD})"

definition dr_produced_intents :: "decision_record \<Rightarrow> bool" where
  "dr_produced_intents r = (dr_intents r \<noteq> [])"

lemmas builder_defs = with_identifiers_def with_timestamps_def with_bundle_def with_book_state_def with_position_def
  with_account_def with_feature_frame_def with_model_output_def with_calibrated_output_def with_edge_output_def
  with_vol_output_def with_risk_output_def with_calibration_output_def

text \<open>No stage of the builder but the outcome, the error and the intents touches the outcome or the intents.\<close>

lemma builder_frame [simp]:
  "dr_intents (with_outcome oc t r) = dr_intents r" "dr_outcome (with_outcome oc t r) = oc"
  "dr_intents (with_error st e r) = dr_intents r" "dr_outcome (with_error st e r) = stage_outcome st"
  "dr_intents (with_intents is r) = is"
  "dr_outcome (with_intents is r) = (if is = [] then dr_outcome r else INTENT_EMITTED)"
  by (simp_all add: with_outcome_def with_error_def with_intents_def Let_def)

end
