(* ===== verification/Ids.thy ===== *)
theory Ids
  imports Py_Float
begin

text \<open>
  Identifiers of intents and orders (quantgambit/core/ids.py).  The hash behind an intent id
  and the fixed-point formatting that feeds it are arguments: SHA-256 and the formatter are
  library code.  \<open>str\<close> and \<open>int\<close> on decimal numerals are modelled.
\<close>

section \<open>Decimal numerals\<close>

definition digit_char :: "nat \<Rightarrow> char" where
  "digit_char d = ''0123456789'' ! d"

fun nat_to_str :: "nat \<Rightarrow> string" where
  "nat_to_str n = (if n < 10 then [digit_char n] else nat_to_str (n div 10) @ [digit_char (n mod 10)])"

declare nat_to_str.simps [simp del]

definition int_to_str :: "int \<Rightarrow> string" where
  "int_to_str k = (if k < 0 then CHR ''-'' # nat_to_str (nat (- k)) else nat_to_str (nat k))"

definition digit_value :: "char \<Rightarrow> nat option" where
  "digit_value c = (let n = of_char c :: nat in if 48 \<le> n \<and> n \<le> 57 then Some (n - 48) else None)"

text \<open>Digits, with single underscores between them, as \<open>int\<close> reads them.\<close>

fun parse_digits :: "nat \<Rightarrow> string \<Rightarrow> nat option" where
  "parse_digits acc [] = Some acc"
| "parse_digits acc (c # cs) =
     (case digit_value c of
        Some d \<Rightarrow> parse_digits (10 * acc + d) cs
      | None \<Rightarrow> if c = CHR ''_'' then
          (case cs of [] \<Rightarrow> None
           | c' # cs' \<Rightarrow> (case digit_value c' of None \<Rightarrow> None | Some d \<Rightarrow> parse_digits (10 * acc + d) cs'))
          else None)"

definition parse_nat :: "string \<Rightarrow> nat option" where
  "parse_nat s = (case s of [] \<Rightarrow> None
     | c # cs \<Rightarrow> (case digit_value c of None \<Rightarrow> None | Some d \<Rightarrow> parse_digits d cs))"

definition is_space :: "char \<Rightarrow> bool" where
  "is_space c = (let n = of_char c :: nat in n = 32 \<or> (9 \<le> n \<and> n \<le> 13) \<or> (28 \<le> n \<and> n \<le> 31))"

definition strip :: "string \<Rightarrow> string" where
  "strip s = rev (dropWhile is_space (rev (dropWhile is_space s)))"

definition parse_int :: "string \<Rightarrow> py_error + int" where
  "parse_int s = (case (case strip s of
         [] \<Rightarrow> None
       | c # cs \<Rightarrow> if c = CHR ''-'' then map_option (\<lambda>n. - int n) (parse_nat cs)
                 else if c = CHR ''+'' then map_option int (parse_nat cs)
                 else map_option int (parse_nat (c # cs)))
     of None \<Rightarrow> Inl (ValueError s) | Some k \<Rightarrow> Inr k)"

section \<open>Identifiers\<close>

definition intent_prefix :: string where "intent_prefix = ''i_''"
definition client_order_prefix :: string where "client_order_prefix = ''qg_''"
definition intent_hash_length :: nat where "intent_hash_length = 16"
definition max_client_order_id_length :: int where "max_client_order_id_length = 32"

text \<open>What an intent id is computed from.\<close>

record intent_key =
  ik_strategy_id :: string
  ik_symbol :: string
  ik_side :: string
  ik_qty :: pyfloat
  ik_entry_type :: string
  ik_entry_price :: "pyfloat option"
  ik_stop_loss :: "pyfloat option"
  ik_take_profit :: "pyfloat option"
  ik_risk_mode :: string
  ik_decision_ts_bucket :: int

definition generate_intent_id :: "(string \<Rightarrow> string) \<Rightarrow> (pyfloat \<Rightarrow> string) \<Rightarrow> intent_key \<Rightarrow> string" where
  "generate_intent_id sha256_hex fmt8 k =
     (let norm = (\<lambda>x. case x of None \<Rightarrow> ''none'' | Some v \<Rightarrow> fmt8 v);
          hash_input = ik_strategy_id k @ ''|'' @ ik_symbol k @ ''|'' @ ik_side k @ ''|'' @ fmt8 (ik_qty k) @ ''|'' @
            ik_entry_type k @ ''|'' @ norm (ik_entry_price k) @ ''|'' @ norm (ik_stop_loss k) @ ''|'' @
            norm (ik_take_profit k) @ ''|'' @ ik_risk_mode k @ ''|'' @ int_to_str (ik_decision_ts_bucket k)
      in intent_prefix @ take intent_hash_length (sha256_hex hash_input))"

definition py_prefix :: "int \<Rightarrow> 'a list \<Rightarrow> 'a list" where
  "py_prefix n xs = (if 0 \<le> n then take (nat n) xs else take (length xs - nat (- n)) xs)"

definition generate_client_order_id :: "string \<Rightarrow> int \<Rightarrow> string" where
  "generate_client_order_id intent_id attempt =
     (let suffix = ''_a'' @ int_to_str attempt;
          cid = client_order_prefix @ intent_id @ suffix
      in if max_client_order_id_length < int (length cid) then
           (let prefix_len = int (length client_order_prefix) + int (length intent_prefix);
                available = max_client_order_id_length - prefix_len - int (length suffix);
                hash_part = drop (length intent_prefix) intent_id
            in client_order_prefix @ intent_prefix @ py_prefix available hash_part @ suffix)
         else cid)"

text \<open>\<open>rfind\<close> of the separator: the text before and after its last occurrence.\<close>

fun split_last_sep :: "string \<Rightarrow> (string \<times> string) option" where
  "split_last_sep [] = None"
| "split_last_sep (c # cs) =
     (case split_last_sep cs of
        Some (l, r) \<Rightarrow> Some (c # l, r)
      | None \<Rightarrow> (case cs of c' # cs' \<Rightarrow> if c = CHR ''_'' \<and> c' = CHR ''a'' then Some ([], cs') else None
                | [] \<Rightarrow> None))"

definition is_quantgambit_order :: "string \<Rightarrow> bool" where
  "is_quantgambit_order cid = (take (length client_order_prefix) cid = client_order_prefix)"

definition parse_client_order_id :: "string \<Rightarrow> (string \<times> int) option" where
  "parse_client_order_id cid =
     (if \<not> is_quantgambit_order cid then None
      else case split_last_sep (drop (length client_order_prefix) cid) of
          None \<Rightarrow> None
        | Some (intent_id, attempt_str) \<Rightarrow>
            (case parse_int attempt_str of Inl e \<Rightarrow> None | Inr attempt \<Rightarrow> Some (intent_id, attempt)))"

definition bucket_timestamp :: "int \<Rightarrow> int \<Rightarrow> py_error + int" where
  "bucket_timestamp ts_ms bucket_ms =
     (if bucket_ms = 0 then Inl ZeroDivisionError else Inr (ts_ms div bucket_ms * bucket_ms))"

record intent_identity =
  id_intent_id :: string
  id_attempt :: int
  id_client_order_id :: string

definition identity_create :: "(string \<Rightarrow> string) \<Rightarrow> (pyfloat \<Rightarrow> string) \<Rightarrow> intent_key \<Rightarrow> int \<Rightarrow> intent_identity" where
  "identity_create sha256_hex fmt8 k attempt =
     (let i = generate_intent_id sha256_hex fmt8 k
      in \<lparr>id_intent_id = i, id_attempt = attempt, id_client_order_id = generate_client_order_id i attempt\<rparr>)"

definition identity_next :: "intent_identity \<Rightarrow> intent_identity" where
  "identity_next i = (let a = id_attempt i + 1
     in \<lparr>id_intent_id = id_intent_id i, id_attempt = a,
         id_client_order_id = generate_client_order_id (id_intent_id i) a\<rparr>)"

definition is_same_intent :: "intent_identity \<Rightarrow> intent_identity \<Rightarrow> bool" where
  "is_same_intent i j = (id_intent_id i = id_intent_id j)"

section \<open>Attempt tracking\<close>

record attempt_tracker =
  at_attempts :: "(string, int) dict"
  at_max_attempts :: int

definition at_init :: "int \<Rightarrow> attempt_tracker" where
  "at_init n = \<lparr>at_attempts = [], at_max_attempts = n\<rparr>"

definition at_get_attempt :: "attempt_tracker \<Rightarrow> string \<Rightarrow> int" where
  "at_get_attempt t i = d_get_or (at_attempts t) i 0"

definition at_next_attempt :: "attempt_tracker \<Rightarrow> string \<Rightarrow> attempt_tracker \<times> int option" where
  "at_next_attempt t i =
     (let next_num = d_get_or (at_attempts t) i 0 + 1
      in if at_max_attempts t < next_num then (t, None)
         else (t\<lparr>at_attempts := d_put (at_attempts t) i next_num\<rparr>, Some next_num))"

definition at_reset :: "attempt_tracker \<Rightarrow> string \<Rightarrow> attempt_tracker" where
  "at_reset t i = t\<lparr>at_attempts := d_pop (at_attempts t) i\<rparr>"

definition at_clear_old :: "attempt_tracker \<Rightarrow> string list \<Rightarrow> attempt_tracker \<times> nat" where
  "at_clear_old t keep =
     (let to_remove = [k. k \<leftarrow> d_keys (at_attempts t), k \<notin> set keep]
      in (t\<lparr>at_attempts := fold (\<lambda>k d. d_pop d k) to_remove (at_attempts t)\<rparr>, length to_remove))"

definition at_to_dict :: "attempt_tracker \<Rightarrow> (string, int) dict" where
  "at_to_dict t = at_attempts t"

definition at_from_dict :: "(string, int) dict \<Rightarrow> int \<Rightarrow> attempt_tracker" where
  "at_from_dict d n = \<lparr>at_attempts = d, at_max_attempts = n\<rparr>"

section \<open>Numerals read back\<close>

lemma digit_cases: "d < 10 \<Longrightarrow> d \<in> {0, 1, 2, 3, 4, 5, 6, 7, 8, 9}" for d :: nat
  by auto

lemma digit_char_value: "d < 10 \<Longrightarrow> digit_value (digit_char d) = Some d"
  by (drule digit_cases) (auto simp: digit_value_def digit_char_def)

lemma digit_char_plain: "d < 10 \<Longrightarrow> digit_char d \<notin> {CHR ''_'', CHR ''a'', CHR ''-'', CHR ''+''} \<and> \<not> is_space (digit_char d)"
  by (drule digit_cases) (auto simp: digit_char_def is_space_def)

lemma parse_digits_append:
  "list_all (\<lambda>c. digit_value c \<noteq> None) xs \<Longrightarrow>
     parse_digits acc (xs @ ys) = parse_digits (the (parse_digits acc xs)) ys"
  by (induction xs arbitrary: acc) auto

lemma nat_to_str_digits: "list_all (\<lambda>c. \<exists>d < 10. c = digit_char d) (nat_to_str n)"
proof (induction n rule: nat_to_str.induct)
  case (1 n)
  have "n mod 10 < 10" by simp
  with 1 show ?case by (subst nat_to_str.simps) (auto simp del: mod_less_divisor)
qed

lemma nat_to_str_nonempty: "nat_to_str n \<noteq> []"
  by (subst nat_to_str.simps) simp

lemma nat_to_str_all_digits: "list_all (\<lambda>c. digit_value c \<noteq> None) (nat_to_str n)"
  using nat_to_str_digits [of n] by (auto simp: list_all_iff digit_char_value)

lemma parse_nat_as_digits: "s \<noteq> [] \<Longrightarrow> list_all (\<lambda>c. digit_value c \<noteq> None) s \<Longrightarrow> parse_nat s = parse_digits 0 s"
  by (cases s) (auto simp: parse_nat_def)

lemma parse_digits_nat_to_str: "parse_digits 0 (nat_to_str n) = Some n"
proof (induction n rule: nat_to_str.induct)
  case (1 n)
  show ?case
  proof (cases "n < 10")
    case True
    then show ?thesis by (subst nat_to_str.simps) (simp add: digit_char_value)
  next
    case False
    with 1 show ?thesis
      by (subst nat_to_str.simps)
        (simp add: parse_digits_append [OF nat_to_str_all_digits] digit_char_value)
  qed
qed

lemma parse_nat_to_str: "parse_nat (nat_to_str n) = Some n"
  by (simp only: parse_nat_as_digits [OF nat_to_str_nonempty nat_to_str_all_digits] parse_digits_nat_to_str)

lemma strip_plain:
  assumes "s \<noteq> []" "\<not> is_space (hd s)" "\<not> is_space (List.last s)"
  shows "strip s = s"
proof -
  have "dropWhile is_space s = s" using assms(1,2) by (cases s) auto
  moreover have "dropWhile is_space (rev s) = rev s" using assms(1,3) by (cases s rule: rev_cases) auto
  ultimately show ?thesis by (simp add: strip_def)
qed

lemma nat_to_str_chars: "c \<in> set (nat_to_str n) \<Longrightarrow> c \<notin> {CHR ''_'', CHR ''a'', CHR ''-'', CHR ''+''} \<and> \<not> is_space c"
  using nat_to_str_digits [of n] digit_char_plain by (fastforce simp: list_all_iff)

lemma int_to_str_chars: "c \<in> set (int_to_str k) \<Longrightarrow> c \<notin> {CHR ''_'', CHR ''a''} \<and> \<not> is_space c"
  using nat_to_str_chars by (auto simp: int_to_str_def is_space_def split: if_splits)

lemma parse_int_to_str: "parse_int (int_to_str k) = Inr k"
proof -
  have ne: "int_to_str k \<noteq> []" by (simp add: int_to_str_def nat_to_str_nonempty)
  have s: "strip (int_to_str k) = int_to_str k"
    using int_to_str_chars [OF hd_in_set [OF ne]] int_to_str_chars [OF last_in_set [OF ne]] ne
    by (intro strip_plain) auto
  show ?thesis
  proof (cases "k < 0")
    case True
    then show ?thesis by (simp add: parse_int_def s) (simp add: int_to_str_def parse_nat_to_str)
  next
    case False
    obtain c cs where c: "nat_to_str (nat k) = c # cs" using nat_to_str_nonempty by (cases "nat_to_str (nat k)") auto
    then have "c \<noteq> CHR ''-''" "c \<noteq> CHR ''+''" using nat_to_str_chars [of c "nat k"] by auto
    moreover have "parse_nat (c # cs) = Some (nat k)" using parse_nat_to_str [of "nat k"] c by simp
    moreover have "int_to_str k = c # cs" using False c by (simp add: int_to_str_def)
    ultimately show ?thesis using s False by (simp add: parse_int_def)
  qed
qed

lemma split_last_sep_none: "CHR ''_'' \<notin> set r \<Longrightarrow> split_last_sep r = None"
  by (induction r) (auto split: list.split)

lemma split_last_sep_append: "CHR ''_'' \<notin> set r \<Longrightarrow> split_last_sep (l @ CHR ''_'' # CHR ''a'' # r) = Some (l, r)"
  by (induction l) (auto simp: split_last_sep_none split: list.split)

lemma parse_built:
  "parse_client_order_id (client_order_prefix @ i @ ''_a'' @ int_to_str a) = Some (i, a)"
proof -
  have "CHR ''_'' \<notin> set (int_to_str a)" using int_to_str_chars by blast
  then show ?thesis
    by (simp add: parse_client_order_id_def is_quantgambit_order_def client_order_prefix_def split_last_sep_append parse_int_to_str)
qed

section \<open>Properties\<close>

text \<open>The attempt's numeral, as long as it leaves room for the prefixes.\<close>

definition attempt_fits :: "int \<Rightarrow> bool" where
  "attempt_fits a = (length (int_to_str a) \<le> 25)"

text \<open>The intent id that a client order id names: the whole id, or its truncation.\<close>

definition named_intent :: "string \<Rightarrow> int \<Rightarrow> string" where
  "named_intent i a =
     (if 32 < 5 + length i + length (int_to_str a)
      then intent_prefix @ py_prefix (25 - int (length (int_to_str a))) (drop 2 i) else i)"

lemma generate_named: "generate_client_order_id i a = client_order_prefix @ named_intent i a @ ''_a'' @ int_to_str a"
  by (auto simp: generate_client_order_id_def named_intent_def client_order_prefix_def intent_prefix_def
      max_client_order_id_length_def numeral_2_eq_2 Let_def)

lemma parse_generated: "parse_client_order_id (generate_client_order_id i a) = Some (named_intent i a, a)"
  by (simp only: generate_named parse_built)

text \<open>C30: Client order ids round-trip: parsing a generated id always returns the attempt, and it returns the intent id
  itself whenever the id needed no truncation, whatever characters the intent id holds, and else the prefix with
  as much of the hash as fits.\<close>

theorem client_order_id_roundtrip:
  "parse_client_order_id (generate_client_order_id i a) =
     Some (if length i + length (int_to_str a) \<le> 27 then i
           else intent_prefix @ py_prefix (25 - int (length (int_to_str a))) (drop 2 i), a)"
  by (auto simp: parse_generated named_intent_def)

text \<open>Client order ids meet the venue limit and separate attempts: an id has at most 32 characters for every
  intent id and every attempt whose numeral has at most 25 characters, and two attempts of
  one intent never share an id, also after truncation.\<close>

theorem client_order_id_bounded_injective:
  assumes "attempt_fits a"
  shows "length (generate_client_order_id i a) \<le> 32 \<and>
    (generate_client_order_id i a = generate_client_order_id i b) = (a = b)"
proof
  show "length (generate_client_order_id i a) \<le> 32"
    using assms by (auto simp: generate_named named_intent_def attempt_fits_def client_order_prefix_def
        intent_prefix_def py_prefix_def)
  show "(generate_client_order_id i a = generate_client_order_id i b) = (a = b)"
  proof
    assume "generate_client_order_id i a = generate_client_order_id i b"
    then have "parse_client_order_id (generate_client_order_id i a) = parse_client_order_id (generate_client_order_id i b)"
      by simp
    then show "a = b" by (simp add: parse_generated)
  qed simp
qed

lemma client_order_id_bounded_injective_witness:
  "length (generate_client_order_id ''i_a1b2c3d4e5f67890a1b2c3d4'' 12) \<le> 32 \<and>
   generate_client_order_id ''i_a1b2c3d4e5f67890a1b2c3d4'' 12 \<noteq> generate_client_order_id ''i_a1b2c3d4e5f67890a1b2c3d4'' 13"
proof -
  have "attempt_fits 12" by code_simp
  from client_order_id_bounded_injective [OF this] show ?thesis by simp
qed

text \<open>The attempts handed out for one intent.\<close>

fun attempts_run :: "attempt_tracker \<Rightarrow> string \<Rightarrow> nat \<Rightarrow> int option list" where
  "attempts_run t i 0 = []"
| "attempts_run t i (Suc n) = (case at_next_attempt t i of (t', r) \<Rightarrow> r # attempts_run t' i n)"

lemma attempts_run_from:
  "d_get_or (at_attempts t) i 0 = c \<Longrightarrow> attempts_run t i n =
     map (\<lambda>k. if c + 1 + int k \<le> at_max_attempts t then Some (c + 1 + int k) else None) [0..<n]"
proof (induction n arbitrary: t c)
  case (Suc n)
  let ?f = "\<lambda>k. if c + 1 + int k \<le> at_max_attempts t then Some (c + 1 + int k) else None"
  have m: "map ?f [0..<Suc n] = ?f 0 # map (\<lambda>k. ?f (Suc k)) [0..<n]"
    by (simp only: upt_conv_Cons zero_less_Suc list.map map_Suc_upt [symmetric] list.map_comp comp_def)
  show ?case
  proof (cases "at_max_attempts t < c + 1")
    case True
    with Suc.prems Suc.IH [of t c] m show ?thesis by (simp add: at_next_attempt_def Let_def)
  next
    case False
    let ?t = "t\<lparr>at_attempts := d_put (at_attempts t) i (c + 1)\<rparr>"
    from False Suc.prems Suc.IH [of ?t "c + 1"] m show ?thesis
      by (simp add: at_next_attempt_def Let_def algebra_simps)
  qed
qed simp

text \<open>A fresh attempt tracker hands out the attempts 1, 2, ... up to the maximum, each once and in order, and refuses
  every further request for the intent.\<close>

theorem attempts_are_bounded:
  "attempts_run (at_init mx) i n = map (\<lambda>k. if 1 + int k \<le> mx then Some (1 + int k) else None) [0..<n]"
  using attempts_run_from [of "at_init mx" i 0 n] by (simp add: at_init_def d_get_or_def)

end
