(* ===== verification/Features.thy ===== *)
theory Features
  imports Decision_Types Ids
begin

text \<open>
  The default feature builder (quantgambit/core/decision/impl/feature_builder.py).  It fills two
  dictionaries, features and missing flags, and counts quality issues; the model threads the three
  as a state.
\<close>

record feature_builder =
  fb_version_id :: string
  fb_imbalance_depths :: "int list"

definition fb_init :: "string \<Rightarrow> int list option \<Rightarrow> feature_builder" where
  "fb_init v depths = \<lparr>fb_version_id = v,
     fb_imbalance_depths = (if opt_list depths = [] then [1, 3, 5, 10] else opt_list depths)\<rparr>"

definition imbalance_key :: "int \<Rightarrow> string" where
  "imbalance_key depth = ''imbalance_'' @ int_to_str depth"

definition feature_names :: "feature_builder \<Rightarrow> string list" where
  "feature_names b =
     [''spread_bps'', ''mid_price'', ''microprice'', ''bid_depth'', ''ask_depth'', ''total_depth''] @
     map imbalance_key (fb_imbalance_depths b) @
     [''position_size'', ''position_pnl_pct'', ''position_duration_sec'']"

record feature_state =
  fs_features :: "(string, pyfloat) dict"
  fs_missing :: "(string, bool) dict"
  fs_issues :: nat

definition put_feature :: "string \<Rightarrow> pyfloat \<Rightarrow> bool \<Rightarrow> feature_state \<Rightarrow> feature_state" where
  "put_feature k v miss st = st\<lparr>fs_features := d_put (fs_features st) k v, fs_missing := d_put (fs_missing st) k miss\<rparr>"

text \<open>The branch shared by the book features: the value, or a default flagged missing.\<close>

definition put_optional :: "string \<Rightarrow> pyfloat option \<Rightarrow> pyfloat \<Rightarrow> feature_state \<Rightarrow> feature_state" where
  "put_optional k v dflt st = (case v of
       Some x \<Rightarrow> put_feature k x False st
     | None \<Rightarrow> (put_feature k dflt True st)\<lparr>fs_issues := Suc (fs_issues st)\<rparr>)"

definition book_features :: "feature_builder \<Rightarrow> book_snapshot \<Rightarrow> feature_state" where
  "book_features b n =
     (let s0 = \<lparr>fs_features = [], fs_missing = [], fs_issues = 0\<rparr>;
          s1 = put_optional ''spread_bps'' (sn_spread_bps n) 0 s0;
          s2 = put_optional ''mid_price'' (sn_mid_price n) 0 s1;
          s3 = put_optional ''microprice'' (sn_microprice n) (d_get_or (fs_features s2) ''mid_price'' 0) s2;
          bd = fl (of_nat (sn_bid_depth n)); ad = fl (of_nat (sn_ask_depth n));
          s4 = put_feature ''total_depth'' (fadd bd ad) False
                 (put_feature ''ask_depth'' ad False (put_feature ''bid_depth'' bd False s3))
      in fold (\<lambda>depth. put_optional (imbalance_key depth) (sn_imbalance n depth) 0) (fb_imbalance_depths b) s4)"

definition pnl_feature :: "decision_input \<Rightarrow> feature_state \<Rightarrow> py_error + feature_state" where
  "pnl_feature d st =
     (let entry = current_position_entry_price d; mid = sn_mid_price (di_book d)
      in if f_truthy entry \<and> 0 < the entry then
           (if f_truthy mid \<and> 0 < the mid then
              (let pnl = fmul (fl (fsub (the mid) (the entry) / the entry)) 100
               in case current_position_side d of
                    Inl e \<Rightarrow> Inl e
                  | Inr sd \<Rightarrow> Inr (put_feature ''position_pnl_pct'' (if sd = Some ''short'' then - pnl else pnl) False st))
            else Inr (put_feature ''position_pnl_pct'' 0 True st))
         else Inr (put_feature ''position_pnl_pct'' 0 False st))"

definition build_features :: "feature_builder \<Rightarrow> decision_input \<Rightarrow> py_error + feature_frame" where
  "build_features b d =
     (let s1 = put_feature ''position_size'' (current_position_size d) False (book_features b (di_book d))
      in case pnl_feature d s1 of
           Inl e \<Rightarrow> Inl e
         | Inr s2 \<Rightarrow>
             (let s3 = put_feature ''position_duration_sec'' 0 (current_position_size d \<noteq> 0) s2;
                  names = feature_names b
              in Inr \<lparr>ff_symbol = di_symbol d, ff_ts_mono = di_ts_mono d, ff_version = fb_version_id b,
                   ff_names = names, ff_x = map (\<lambda>k. d_get_or (fs_features s3) k 0) names,
                   ff_quality_score = max 0 (fsub 1 (fl (of_nat (fs_issues s3) / of_nat (length names)))),
                   ff_missing = fs_missing s3\<rparr>))"

section \<open>Library\<close>

lemma put_issues [simp]: "fs_issues (put_feature k v m st) = fs_issues st"
  by (simp add: put_feature_def)

lemma put_feature_get [simp]:
  "d_get (fs_features (put_feature k v m st)) k' = (if k' = k then Some v else d_get (fs_features st) k')"
  by (simp add: put_feature_def)

lemma pnl_feature_issues: "pnl_feature d st = Inr st' \<Longrightarrow> fs_issues st' = fs_issues st"
  by (auto simp: pnl_feature_def Let_def split: if_splits sum.splits)

text \<open>When the builder raises.\<close>

definition position_breaks_features :: "decision_input \<Rightarrow> bool" where
  "position_breaks_features d = (case di_current_position d of
       None \<Rightarrow> False
     | Some p \<Rightarrow> po_size p \<noteq> 0 \<and> (case po_entry_price p of None \<Rightarrow> False | Some e \<Rightarrow> 0 < e) \<and>
         (case sn_mid_price (di_book d) of None \<Rightarrow> False | Some m \<Rightarrow> 0 < m))"

lemma build_features_raises:
  "build_features b d = Inl e \<longleftrightarrow> position_breaks_features d \<and> e = OtherError ''AttributeError''"
proof (cases "di_current_position d")
  case None
  then show ?thesis
    by (simp add: build_features_def pnl_feature_def position_breaks_features_def current_position_entry_price_def Let_def)
next
  case (Some p)
  then show ?thesis
    by (cases "po_entry_price p"; cases "sn_mid_price (di_book d)")
      (auto simp: build_features_def pnl_feature_def position_breaks_features_def current_position_entry_price_def
        current_position_side_def po_side_def Let_def)
qed

section \<open>Properties\<close>

definition sample_snapshot :: book_snapshot where
  "sample_snapshot = snapshot_of_book sample_book True"

definition sample_input :: decision_input where
  "sample_input = \<lparr>di_symbol = ''BTCUSDT'', di_ts_wall = 1000, di_ts_mono = 10, di_book = sample_snapshot,
     di_recent_trades = [], di_current_position = None, di_account_equity = 1000, di_available_margin = 1000,
     di_open_order_count = 0, di_pending_intent_count = 0, di_max_position_size = 0, di_max_position_value = 0,
     di_max_leverage = 1, di_config_bundle_id = None\<rparr>"

text \<open>The feature builder fails exactly when there is an open position with a positive entry price and the book has
  a positive mid price: \<open>current_position_side\<close> reads an attribute that its string does not have.  In every
  other case it returns one value per feature name and a quality score between 0 and 1.\<close>

theorem features_fail_iff_position_open:
  "case build_features b d of
     Inl e \<Rightarrow> position_breaks_features d \<and> e = OtherError ''AttributeError''
   | Inr f \<Rightarrow> \<not> position_breaks_features d \<and> ff_names f = feature_names b \<and> length (ff_x f) = length (ff_names f) \<and>
       0 \<le> ff_quality_score f \<and> ff_quality_score f \<le> 1"
proof (cases "build_features b d")
  case (Inl e)
  from build_features_raises [THEN iffD1, OF this] show ?thesis unfolding Inl sum.case .
next
  case (Inr f)
  then have "\<not> position_breaks_features d" using build_features_raises by (metis Inl_Inr_False)
  moreover have "ff_names f = feature_names b \<and> length (ff_x f) = length (ff_names f) \<and> 0 \<le> ff_quality_score f"
    using Inr by (auto simp: build_features_def Let_def split: sum.splits)
  moreover have "ff_quality_score f \<le> 1"
  proof -
    obtain i n :: nat where "ff_quality_score f = max 0 (fsub 1 (fl (of_nat i / of_nat n)))"
      using Inr by (auto simp: build_features_def Let_def split: sum.splits)
    moreover have "fsub 1 (fl (of_nat i / of_nat n)) \<le> fl 1" unfolding fsub_def by (rule fl_mono) simp
    ultimately show ?thesis by simp
  qed
  ultimately show ?thesis using Inr by simp
qed

end
