(* ===== verification/Stages.thy ===== *)
theory Stages
  imports Decision_Types
begin

text \<open>
  The scalar stages of the pipeline: model runners, calibrators, edge transforms and volatility
  estimators (quantgambit/core/decision/impl/model_runner.py, calibrator.py, edge_transform.py,
  vol_estimator.py).  \<open>math.exp\<close> and \<open>math.tanh\<close> are arguments of the definitions that use them;
  what a lemma needs of them is a named hypothesis.
\<close>

section \<open>Model runners\<close>

definition passthrough_infer :: "string \<Rightarrow> pyfloat \<Rightarrow> feature_frame \<Rightarrow> model_output" where
  "passthrough_infer ver default_p f = \<lparr>mod_version = ver, mod_p_raw = default_p, mod_extra = []\<rparr>"

fun index_of :: "'a \<Rightarrow> 'a list \<Rightarrow> nat option" where
  "index_of k [] = None"
| "index_of k (x # xs) = (if x = k then Some 0 else map_option Suc (index_of k xs))"

text \<open>A frame's value list that is shorter than its names raises \<open>IndexError\<close>; a zero denominator raises too.\<close>

definition imbalance_infer ::
  "(pyfloat \<Rightarrow> pyfloat) \<Rightarrow> string \<Rightarrow> string \<Rightarrow> pyfloat \<Rightarrow> feature_frame \<Rightarrow> py_error + model_output" where
  "imbalance_infer exp_f ver feature sens f =
     (case (case index_of feature (ff_names f) of
              None \<Rightarrow> Inr 0
            | Some i \<Rightarrow> if i < length (ff_x f) then Inr (ff_x f ! i) else Inl IndexError) of
        Inl e \<Rightarrow> Inl e
      | Inr imb \<Rightarrow>
          (let z = fmul imb sens
           in case fdiv 1 (fadd 1 (exp_f (- z))) of
                Inl e \<Rightarrow> Inl e
              | Inr p \<Rightarrow> Inr \<lparr>mod_version = ver, mod_p_raw = p,
                  mod_extra = [(''imbalance'', PNum imb), (''z'', PNum z)]\<rparr>))"

section \<open>Calibrators\<close>

definition identity_calibrate :: "string \<Rightarrow> model_output \<Rightarrow> calibrated_output" where
  "identity_calibrate ver m = \<lparr>cal_version = ver, cal_p_hat = mod_p_raw m, cal_extra = []\<rparr>"

definition platt_calibrate ::
  "(pyfloat \<Rightarrow> pyfloat) \<Rightarrow> string \<Rightarrow> pyfloat \<Rightarrow> pyfloat \<Rightarrow> model_output \<Rightarrow> py_error + calibrated_output" where
  "platt_calibrate exp_f ver a b m =
     (let z = fadd (fmul a (mod_p_raw m)) b
      in case fdiv 1 (fadd 1 (exp_f (- z))) of
           Inl e \<Rightarrow> Inl e
         | Inr p \<Rightarrow> Inr \<lparr>cal_version = ver, cal_p_hat = p,
             cal_extra = [(''z'', PNum z), (''a'', PNum a), (''b'', PNum b)]\<rparr>)"

text \<open>The default parameters of the source.\<close>

definition platt_default_a :: pyfloat where "platt_default_a = - 1"
definition platt_default_b :: pyfloat where "platt_default_b = 0"

text \<open>The constructor sorts the pairs by raw probability, keeping ties in order.\<close>

definition isotonic_map :: "(pyfloat \<times> pyfloat) list \<Rightarrow> (pyfloat \<times> pyfloat) list" where
  "isotonic_map m = sort_key fst m"

fun interpolate :: "nat \<Rightarrow> (pyfloat \<times> pyfloat) list \<Rightarrow> pyfloat \<Rightarrow> (pyfloat \<times> details) option" where
  "interpolate i ((x0, y0) # (x1, y1) # ps) p =
     (if x0 \<le> p \<and> p \<le> x1 then
        (let t = fl (fsub p x0 / fsub x1 x0)
         in Some (if x1 = x0 then y0 else fadd y0 (fmul t (fsub y1 y0)),
             [(''bin'', PInt (int i)), (''t'', if x1 = x0 then PInt 0 else PNum t)]))
      else interpolate (Suc i) ((x1, y1) # ps) p)"
| "interpolate i _ p = None"

definition isotonic_calibrate :: "string \<Rightarrow> (pyfloat \<times> pyfloat) list \<Rightarrow> model_output \<Rightarrow> calibrated_output" where
  "isotonic_calibrate ver cmap m =
     (let p = mod_p_raw m; out = (\<lambda>v ex. \<lparr>cal_version = ver, cal_p_hat = v, cal_extra = ex\<rparr>);
          mp = isotonic_map cmap
      in if mp = [] then out p [(''warning'', PStr ''empty_map'')]
         else if p \<le> fst (hd mp) then out (snd (hd mp)) [(''bin'', PInt 0)]
         else if fst (last mp) \<le> p then out (snd (last mp)) [(''bin'', PInt (int (length mp) - 1))]
         else case interpolate 0 mp p of
             Some (v, ex) \<Rightarrow> out v ex
           | None \<Rightarrow> out p [(''warning'', PStr ''interpolation_failed'')])"

definition binning_calibrate :: "string \<Rightarrow> int \<Rightarrow> pyfloat list \<Rightarrow> model_output \<Rightarrow> calibrated_output" where
  "binning_calibrate ver num_bins adjustments m =
     (let p = mod_p_raw m;
          b0 = min (py_int (fmul p (fl (of_int num_bins)))) (num_bins - 1);
          b = max 0 b0;
          adj = (if nat b < length adjustments then adjustments ! nat b else 1);
          v = max 0 (min 1 (fmul p adj))
      in \<lparr>cal_version = ver, cal_p_hat = v, cal_extra = [(''bin'', PInt b), (''adjustment'', PNum adj)]\<rparr>)"

section \<open>Edge transforms\<close>

definition tanh_to_edge :: "(pyfloat \<Rightarrow> pyfloat) \<Rightarrow> pyfloat \<Rightarrow> pyfloat \<Rightarrow> pyfloat \<Rightarrow> edge_output" where
  "tanh_to_edge tanh_f k tau p_hat =
     (let x = fsub p_hat (1 / 2); s = tanh_f (fmul k x)
      in \<lparr>ed_s = s, ed_k = k, ed_tau = tau, ed_deadband_blocked = (\<bar>s\<bar> < tau)\<rparr>)"

definition linear_to_edge :: "pyfloat \<Rightarrow> pyfloat \<Rightarrow> pyfloat \<Rightarrow> edge_output" where
  "linear_to_edge scale tau p_hat =
     (let s = max (- 1) (min 1 (fmul scale (fsub p_hat (1 / 2))))
      in \<lparr>ed_s = s, ed_k = scale, ed_tau = tau, ed_deadband_blocked = (\<bar>s\<bar> < tau)\<rparr>)"

definition threshold_to_edge :: "pyfloat \<Rightarrow> pyfloat \<Rightarrow> pyfloat \<Rightarrow> edge_output" where
  "threshold_to_edge upper lower p_hat =
     (let (s, blocked) = (if upper \<le> p_hat then (1, False) else if p_hat \<le> lower then (- 1, False) else (0, True))
      in \<lparr>ed_s = s, ed_k = 1, ed_tau = fl (fsub upper lower / 2), ed_deadband_blocked = blocked\<rparr>)"

section \<open>Volatility estimators\<close>

definition simple_vol :: "string \<Rightarrow> pyfloat \<Rightarrow> pyfloat \<Rightarrow> decision_input \<Rightarrow> vol_out" where
  "simple_vol ver base mult d =
     (let spread = fo_or (sn_spread_bps (di_book d)) 0; sv = fmul (fl (spread / 10000)) mult
      in \<lparr>vo_version = ver, vo_vol_hat = fadd base sv,
          vo_extra = [(''spread_bps'', PNum spread), (''base_vol'', PNum base), (''spread_vol'', PNum sv)]\<rparr>)"

definition constant_vol :: "string \<Rightarrow> pyfloat \<Rightarrow> decision_input \<Rightarrow> vol_out" where
  "constant_vol ver v d = \<lparr>vo_version = ver, vo_vol_hat = v, vo_extra = []\<rparr>"

record ewma_state =
  ew_variance :: "(string, pyfloat) dict"
  ew_last_price :: "(string, pyfloat) dict"

record ewma_config =
  ec_version :: string
  ec_decay :: pyfloat
  ec_initial_vol :: pyfloat
  ec_annualization :: pyfloat

text \<open>Squaring is one multiplication; \<open>last > 0\<close> guards the logarithm.\<close>

definition ewma_vol ::
  "(pyfloat \<Rightarrow> pyfloat) \<Rightarrow> (pyfloat \<Rightarrow> pyfloat) \<Rightarrow> ewma_config \<Rightarrow> ewma_state \<Rightarrow> decision_input \<Rightarrow>
     ewma_state \<times> (py_error + vol_out)" where
  "ewma_vol log_f sqrt_f c st d =
     (let out = (\<lambda>v ex. Inr \<lparr>vo_version = ec_version c, vo_vol_hat = v, vo_extra = ex\<rparr>); sy = di_symbol d
      in case sn_mid_price (di_book d) of
           None \<Rightarrow> (st, out (ec_initial_vol c) [(''warning'', PStr ''no_mid_price'')])
         | Some mid \<Rightarrow>
             if mid \<le> 0 then (st, out (ec_initial_vol c) [(''warning'', PStr ''no_mid_price'')])
             else
      case d_get (ew_variance st) sy of
          None \<Rightarrow>
            (case fdiv (ec_initial_vol c) (ec_annualization c) of
               Inl e \<Rightarrow> (st, Inl e)
             | Inr q \<Rightarrow>
                 (st\<lparr>ew_variance := d_put (ew_variance st) sy (fmul q q),
                     ew_last_price := d_put (ew_last_price st) sy mid\<rparr>,
                  out (ec_initial_vol c) [(''initialized'', PBool True)]))
        | Some v \<Rightarrow>
      (case d_get (ew_last_price st) sy of
          None \<Rightarrow> (st, Inl (KeyError sy))
        | Some prev \<Rightarrow>
            (let ret = (if 0 < prev then log_f (fl (mid / prev)) else 0);
                 v' = fadd (fmul (ec_decay c) v) (fmul (fsub 1 (ec_decay c)) (fmul ret ret))
             in (st\<lparr>ew_variance := d_put (ew_variance st) sy v', ew_last_price := d_put (ew_last_price st) sy mid\<rparr>,
                 out (fmul (sqrt_f v') (ec_annualization c))
                   [(''return'', PNum ret), (''variance'', PNum v'), (''decay'', PNum (ec_decay c))]))))"

definition ewma_reset :: "ewma_state \<Rightarrow> string option \<Rightarrow> ewma_state" where
  "ewma_reset st sy = (if s_truthy sy
     then st\<lparr>ew_variance := d_pop (ew_variance st) (the sy), ew_last_price := d_pop (ew_last_price st) (the sy)\<rparr>
     else st\<lparr>ew_variance := [], ew_last_price := []\<rparr>)"

section \<open>Library\<close>

lemma fdiv_1_mono:
  assumes "0 < y" "y \<le> x"
  shows "\<exists>p q. fdiv 1 x = Inr p \<and> fdiv 1 y = Inr q \<and> p \<le> q"
proof -
  have "1 / x \<le> 1 / y" using assms by (intro divide_left_mono) auto
  then show ?thesis using assms by (auto simp: fdiv_def intro: fl_mono)
qed

lemma interpolate_total:
  assumes "ps \<noteq> []" "fst (hd ps) \<le> p" "p < fst (last ps)"
  shows "interpolate i ps p \<noteq> None"
  using assms
proof (induction i ps p rule: interpolate.induct)
  case (1 i x0 y0 x1 y1 ps p)
  then show ?case by (auto simp: Let_def)
qed auto

lemma is_float_half: "is_float (1 / 2)"
  using is_float_exact [of 1 "- 1"] by simp

section \<open>Properties\<close>

text \<open>The edge signal stays in [-1, 1]: always for the linear and the threshold transform, and for the tanh
  transform whenever the library's \<open>tanh\<close> has values in [-1, 1].  The deadband flag of the continuous
  transforms is exactly |s| < tau, and the threshold transform blocks exactly strictly between its
  thresholds.\<close>

theorem edge_signal_bounded:
  assumes tanh_range: "\<And>x. \<bar>tanh_f x\<bar> \<le> (1 :: pyfloat)"
  shows "\<bar>ed_s (linear_to_edge scale tau p)\<bar> \<le> 1 \<and> \<bar>ed_s (threshold_to_edge upper lower p)\<bar> \<le> 1 \<and>
    \<bar>ed_s (tanh_to_edge tanh_f k tau p)\<bar> \<le> 1 \<and>
    ed_deadband_blocked (linear_to_edge scale tau p) = (\<bar>ed_s (linear_to_edge scale tau p)\<bar> < tau) \<and>
    ed_deadband_blocked (tanh_to_edge tanh_f k tau p) = (\<bar>ed_s (tanh_to_edge tanh_f k tau p)\<bar> < tau) \<and>
    ed_deadband_blocked (threshold_to_edge upper lower p) = (lower < p \<and> p < upper)"
  using tanh_range
  by (auto simp: linear_to_edge_def threshold_to_edge_def tanh_to_edge_def Let_def abs_le_iff min_le_iff_disj
      le_max_iff_disj not_le)

lemma edge_signal_bounded_witness:
  "\<bar>ed_s (tanh_to_edge (\<lambda>x. max (- 1) (min 1 x)) (5 / 2) (3 / 20) (9 / 10))\<bar> \<le> 1"
  by (rule edge_signal_bounded [THEN conjunct2, THEN conjunct2, THEN conjunct1]) (auto simp: abs_le_iff min_le_iff_disj)

text \<open>With its default parameters the Platt calibrator reverses the model: a larger raw probability never yields a
  larger calibrated one, for every positive increasing \<open>exp\<close>.  The code negates \<open>z\<close> where the documented
  formula does not, and keeps the negative default slope of the documented formula.\<close>

theorem platt_default_reverses:
  assumes exp_pos: "\<And>x :: pyfloat. 0 < exp_f x" and exp_mono: "\<And>x y :: pyfloat. x \<le> y \<Longrightarrow> exp_f x \<le> exp_f y"
    and "mod_p_raw m1 \<le> mod_p_raw m2"
  shows "\<exists>c1 c2. platt_calibrate exp_f ver platt_default_a platt_default_b m1 = Inr c1 \<and>
    platt_calibrate exp_f ver platt_default_a platt_default_b m2 = Inr c2 \<and> cal_p_hat c2 \<le> cal_p_hat c1"
proof -
  let ?z = "\<lambda>m. fadd (fmul platt_default_a (mod_p_raw m)) platt_default_b"
  have z: "- ?z m = fl (fl (mod_p_raw m))" for m
    by (simp add: platt_default_a_def platt_default_b_def fadd_def fmul_def)
  have "- ?z m1 \<le> - ?z m2" unfolding z using assms(3) by (intro fl_mono)
  then have "fadd 1 (exp_f (- ?z m1)) \<le> fadd 1 (exp_f (- ?z m2))" by (intro fadd_mono exp_mono) simp
  moreover have "0 < fadd 1 (exp_f (- ?z m1))" using exp_pos [of "- ?z m1"] by (simp add: fadd_def)
  ultimately obtain p q where pq: "fdiv 1 (fadd 1 (exp_f (- ?z m2))) = Inr p" "fdiv 1 (fadd 1 (exp_f (- ?z m1))) = Inr q" "p \<le> q"
    using fdiv_1_mono by blast
  then show ?thesis by (auto simp: platt_calibrate_def Let_def)
qed

lemma platt_default_reverses_witness:
  "\<exists>c1 c2. platt_calibrate (\<lambda>x. 1 + max 0 x) ''v'' platt_default_a platt_default_b \<lparr>mod_version = ''m'', mod_p_raw = 1 / 4, mod_extra = []\<rparr> = Inr c1 \<and>
     platt_calibrate (\<lambda>x. 1 + max 0 x) ''v'' platt_default_a platt_default_b \<lparr>mod_version = ''m'', mod_p_raw = 3 / 4, mod_extra = []\<rparr> = Inr c2 \<and>
     cal_p_hat c2 \<le> cal_p_hat c1"
  by (rule platt_default_reverses) (auto simp: max_def)

text \<open>The isotonic calibrator never takes its fallback on a non-empty map: below the first and above the last knot it
  returns the end values, in between it always finds a bin to interpolate in.\<close>

theorem isotonic_always_interpolates:
  assumes "cmap \<noteq> []"
  shows "cal_extra (isotonic_calibrate ver cmap m) \<noteq> [(''warning'', PStr ''interpolation_failed'')] \<and>
    (mod_p_raw m \<le> fst (hd (isotonic_map cmap)) \<longrightarrow>
       cal_p_hat (isotonic_calibrate ver cmap m) = snd (hd (isotonic_map cmap)))"
proof -
  let ?mp = "isotonic_map cmap"
  have ne: "?mp \<noteq> []" using assms by (metis isotonic_map_def length_0_conv length_sort)
  show ?thesis
  proof (cases "\<not> mod_p_raw m \<le> fst (hd ?mp) \<and> \<not> fst (last ?mp) \<le> mod_p_raw m")
    case True
    then obtain v ex where i: "interpolate 0 ?mp (mod_p_raw m) = Some (v, ex)"
      using interpolate_total [OF ne, of "mod_p_raw m" 0] by fastforce
    have "interpolate k ps p = Some (v, ex) \<Longrightarrow> ex \<noteq> [(''warning'', PStr ''interpolation_failed'')]" for k ps p
      by (induction k ps p rule: interpolate.induct) (auto simp: Let_def split: if_splits)
    with i True ne show ?thesis by (auto simp: isotonic_calibrate_def Let_def)
  next
    case False
    with ne show ?thesis by (auto simp: isotonic_calibrate_def Let_def)
  qed
qed

lemma isotonic_always_interpolates_witness:
  "cal_p_hat (isotonic_calibrate ''v'' [(1 / 2, 3 / 5), (1 / 4, 1 / 5)] \<lparr>mod_version = ''m'', mod_p_raw = 1 / 8, mod_extra = []\<rparr>) = 1 / 5"
proof -
  have "isotonic_map [(1 / 2, 3 / 5), (1 / 4, 1 / 5)] = [(1 / 4, 1 / 5), (1 / 2, 3 / 5)]"
    by (simp add: isotonic_map_def)
  with isotonic_always_interpolates [of "[(1 / 2, 3 / 5), (1 / 4, 1 / 5)]" "''v''"
      "\<lparr>mod_version = ''m'', mod_p_raw = 1 / 8, mod_extra = []\<rparr>"] show ?thesis by simp
qed

end
