(* ===== verification/Risk.thy ===== *)
theory Risk
  imports Decision_Types
begin

text \<open>
  The risk mappers (quantgambit/core/decision/impl/risk_mapper.py): from an edge signal and a
  volatility to a target weight, with the clip, the churn guard and the current weight that all
  three mappers compute alike.
\<close>

definition mapper_current_weight :: "decision_input \<Rightarrow> pyfloat" where
  "mapper_current_weight d = (case di_current_position d of
       None \<Rightarrow> 0
     | Some pos \<Rightarrow>
         (let mid = sn_mid_price (di_book d); equity = di_account_equity d
          in if \<not> f_truthy mid \<or> the mid \<le> 0 \<or> equity \<le> 0 then 0
             else fl (fmul (po_size pos) (the mid) / equity)))"

text \<open>The guard at the end of every mapper: a small change keeps the current weight.\<close>

definition churn_guard :: "pyfloat \<Rightarrow> pyfloat \<Rightarrow> pyfloat \<Rightarrow> pyfloat \<times> pyfloat \<times> bool" where
  "churn_guard min_delta_w w_current w_target =
     (let delta_w = fsub w_target w_current; blocked = \<bar>delta_w\<bar> < min_delta_w
      in if blocked then (w_current, 0, True) else (w_target, delta_w, False))"

section \<open>Volatility targeting\<close>

record vol_target_mapper =
  vt_version :: string
  vt_w_max :: pyfloat
  vt_target_vol :: pyfloat
  vt_min_delta_w :: pyfloat
  vt_kelly_frac :: pyfloat

definition raw_weight :: "vol_target_mapper \<Rightarrow> pyfloat \<Rightarrow> pyfloat \<Rightarrow> pyfloat" where
  "raw_weight m s vol_hat = (if vol_hat \<le> 0 then 0
     else fmul (fmul (fl (vt_target_vol m / vol_hat)) s) (vt_kelly_frac m))"

definition vol_target_map :: "vol_target_mapper \<Rightarrow> pyfloat \<Rightarrow> pyfloat \<Rightarrow> decision_input \<Rightarrow> risk_output" where
  "vol_target_map m s vol_hat d =
     (let w_current = mapper_current_weight d;
          w_raw = raw_weight m s vol_hat;
          clipped = vt_w_max m \<le> \<bar>w_raw\<bar>;
          w0 = max (min w_raw (vt_w_max m)) (- vt_w_max m);
          (w_target, delta_w, blocked) = churn_guard (vt_min_delta_w m) w_current w0
      in \<lparr>rk_version = vt_version m, rk_w_current = w_current, rk_w_target = w_target, rk_delta_w = delta_w,
          rk_clipped = clipped, rk_churn_guard_blocked = blocked,
          rk_extra = [(''w_raw'', PNum w_raw), (''vol_hat'', PNum vol_hat), (''kelly_frac'', PNum (vt_kelly_frac m)),
            (''target_vol'', PNum (vt_target_vol m))]\<rparr>)"

section \<open>Fixed size\<close>

record fixed_size_mapper =
  fx_version :: string
  fx_fixed_w :: pyfloat
  fx_min_delta_w :: pyfloat

definition fixed_size_map :: "fixed_size_mapper \<Rightarrow> pyfloat \<Rightarrow> pyfloat \<Rightarrow> decision_input \<Rightarrow> risk_output" where
  "fixed_size_map m s vol_hat d =
     (let w_current = mapper_current_weight d;
          w0 = (if fl (1 / 100) < \<bar>s\<bar> then (if 0 < s then fx_fixed_w m else - fx_fixed_w m) else 0);
          (w_target, delta_w, blocked) = churn_guard (fx_min_delta_w m) w_current w0
      in \<lparr>rk_version = fx_version m, rk_w_current = w_current, rk_w_target = w_target, rk_delta_w = delta_w,
          rk_clipped = False, rk_churn_guard_blocked = blocked,
          rk_extra = [(''fixed_weight'', PNum (fx_fixed_w m)), (''signal'', PNum s)]\<rparr>)"

section \<open>Scaled signal\<close>

record scaled_signal_mapper =
  sc_version :: string
  sc_max_w :: pyfloat
  sc_min_delta_w :: pyfloat

definition scaled_signal_map :: "scaled_signal_mapper \<Rightarrow> pyfloat \<Rightarrow> pyfloat \<Rightarrow> decision_input \<Rightarrow> risk_output" where
  "scaled_signal_map m s vol_hat d =
     (let w_current = mapper_current_weight d;
          w0 = fmul s (sc_max_w m);
          (w_target, delta_w, blocked) = churn_guard (sc_min_delta_w m) w_current w0
      in \<lparr>rk_version = sc_version m, rk_w_current = w_current, rk_w_target = w_target, rk_delta_w = delta_w,
          rk_clipped = (1 \<le> \<bar>s\<bar>), rk_churn_guard_blocked = blocked,
          rk_extra = [(''max_weight'', PNum (sc_max_w m)), (''signal'', PNum s)]\<rparr>)"

section \<open>The contract of a mapper\<close>

text \<open>
  What the pipeline relies on: a blocked output keeps the current weight with a zero change, an
  unblocked one states its change exactly and does not change by less than the threshold.
\<close>

definition risk_consistent :: "pyfloat \<Rightarrow> risk_output \<Rightarrow> bool" where
  "risk_consistent min_delta r =
     (if rk_churn_guard_blocked r then rk_w_target r = rk_w_current r \<and> rk_delta_w r = 0
      else rk_delta_w r = fsub (rk_w_target r) (rk_w_current r) \<and> min_delta \<le> \<bar>rk_delta_w r\<bar>)"

locale risk_mapper =
  fixes map_risk :: "pyfloat \<Rightarrow> pyfloat \<Rightarrow> decision_input \<Rightarrow> risk_output"
    and limit :: pyfloat and min_delta :: pyfloat and signal_ok :: "pyfloat \<Rightarrow> bool"
  assumes consistent: "risk_consistent min_delta (map_risk s v d)"
    and bounded: "signal_ok s \<Longrightarrow> \<not> rk_churn_guard_blocked (map_risk s v d) \<Longrightarrow> \<bar>rk_w_target (map_risk s v d)\<bar> \<le> limit"
    and current: "rk_w_current (map_risk s v d) = mapper_current_weight d"
begin

text \<open>From a flat position the mapper either does nothing or opens within the limit.\<close>

lemma flat_start:
  assumes "di_current_position d = None" "signal_ok s"
  shows "if rk_churn_guard_blocked (map_risk s v d) then rk_w_target (map_risk s v d) = 0 \<and> rk_delta_w (map_risk s v d) = 0
    else \<bar>rk_w_target (map_risk s v d)\<bar> \<le> limit \<and> rk_delta_w (map_risk s v d) = fl (rk_w_target (map_risk s v d))"
  using consistent [of s v d] bounded [OF assms(2), of v d] current [of s v d] assms(1)
  by (auto simp: risk_consistent_def mapper_current_weight_def fsub_def)

lemma never_exceeds:
  assumes "signal_ok s" "\<bar>mapper_current_weight d\<bar> \<le> limit"
  shows "\<bar>rk_w_target (map_risk s v d)\<bar> \<le> limit"
  using consistent [of s v d] bounded [OF assms(1), of v d] current [of s v d] assms(2)
  by (cases "rk_churn_guard_blocked (map_risk s v d)") (auto simp: risk_consistent_def)

end

lemma churn_guard_cases:
  "churn_guard m c w = (if \<bar>fsub w c\<bar> < m then (c, 0, True) else (w, fsub w c, False))"
  by (simp add: churn_guard_def Let_def)

lemma vol_target_mapper_law: "0 \<le> vt_w_max m \<Longrightarrow> risk_mapper (vol_target_map m) (vt_w_max m) (vt_min_delta_w m) (\<lambda>s. True)"
  by unfold_locales
    (auto simp: vol_target_map_def churn_guard_cases risk_consistent_def Let_def abs_le_iff not_less min_le_iff_disj le_max_iff_disj)

lemma fixed_size_mapper_law: "0 \<le> fx_fixed_w m \<Longrightarrow> risk_mapper (fixed_size_map m) (fx_fixed_w m) (fx_min_delta_w m) (\<lambda>s. True)"
  by unfold_locales
    (auto simp: fixed_size_map_def churn_guard_cases risk_consistent_def Let_def not_less)

lemma scaled_bound:
  assumes "is_float w" "0 \<le> w" "\<bar>s\<bar> \<le> 1"
  shows "\<bar>fmul s w\<bar> \<le> w"
proof -
  have "\<bar>s * w\<bar> \<le> w" using assms by (simp add: abs_mult mult_left_le_one_le)
  then show ?thesis unfolding fmul_def fl_abs by (rule fl_le [OF assms(1)])
qed

lemma scaled_signal_mapper_law:
  "is_float (sc_max_w m) \<Longrightarrow> 0 \<le> sc_max_w m \<Longrightarrow>
     risk_mapper (scaled_signal_map m) (sc_max_w m) (sc_min_delta_w m) (\<lambda>s. \<bar>s\<bar> \<le> 1)"
  by unfold_locales
    (auto simp: scaled_signal_map_def churn_guard_cases risk_consistent_def Let_def not_less scaled_bound)

text \<open>The source's default mappers.\<close>

definition default_vol_target :: vol_target_mapper where
  "default_vol_target = \<lparr>vt_version = ''vol_target:1.0.0'', vt_w_max = fl (1 / 10), vt_target_vol = fl (2 / 100),
     vt_min_delta_w = fl (5 / 1000), vt_kelly_frac = 1 / 4\<rparr>"

definition default_fixed_size :: fixed_size_mapper where
  "default_fixed_size = \<lparr>fx_version = ''fixed:1.0.0'', fx_fixed_w = fl (5 / 100), fx_min_delta_w = fl (1 / 100)\<rparr>"

definition default_scaled_signal :: scaled_signal_mapper where
  "default_scaled_signal = \<lparr>sc_version = ''scaled:1.0.0'', sc_max_w = fl (1 / 10), sc_min_delta_w = fl (5 / 1000)\<rparr>"

interpretation vol_target: risk_mapper "vol_target_map default_vol_target" "fl (1 / 10)" "fl (5 / 1000)" "\<lambda>s. True"
  using vol_target_mapper_law [of default_vol_target] by (simp add: default_vol_target_def)

interpretation fixed_size: risk_mapper "fixed_size_map default_fixed_size" "fl (5 / 100)" "fl (1 / 100)" "\<lambda>s. True"
  using fixed_size_mapper_law [of default_fixed_size] by (simp add: default_fixed_size_def)

interpretation scaled_signal: risk_mapper "scaled_signal_map default_scaled_signal" "fl (1 / 10)" "fl (5 / 1000)" "\<lambda>s. \<bar>s\<bar> \<le> 1"
  using scaled_signal_mapper_law [of default_scaled_signal] by (simp add: default_scaled_signal_def)

section \<open>Properties\<close>

lemma fmul_nonneg: "0 \<le> a \<Longrightarrow> 0 \<le> b \<Longrightarrow> 0 \<le> fmul a b"
  by (simp add: fmul_def)

lemma raw_weight_nonneg:
  "0 \<le> vt_target_vol m \<Longrightarrow> 0 \<le> vt_kelly_frac m \<Longrightarrow> 0 \<le> s \<Longrightarrow> 0 \<le> raw_weight m s v"
  by (simp add: raw_weight_def fmul_nonneg)

lemma raw_weight_odd: "raw_weight m (- s) v = - raw_weight m s v"
  by (simp add: raw_weight_def fmul_def)

text \<open>Volatility targeting, for every configuration with non-negative limits: the output is consistent (a blocked
  one keeps the current weight, an unblocked one changes it by at least the threshold, stated exactly),
  an unblocked target lies within the limit and on the side of the signal, and \<open>clipped\<close> says exactly that the
  raw weight reached the limit.\<close>

theorem vol_target_sound:
  assumes "0 \<le> vt_w_max m" "0 \<le> vt_target_vol m" "0 \<le> vt_kelly_frac m"
  shows "let r = vol_target_map m s v d
    in risk_consistent (vt_min_delta_w m) r \<and> rk_w_current r = mapper_current_weight d \<and>
       rk_clipped r = (vt_w_max m \<le> \<bar>raw_weight m s v\<bar>) \<and>
       (rk_churn_guard_blocked r \<or> \<bar>rk_w_target r\<bar> \<le> vt_w_max m \<and>
         (0 \<le> s \<longrightarrow> 0 \<le> rk_w_target r) \<and> (s \<le> 0 \<longrightarrow> rk_w_target r \<le> 0))"
proof -
  let ?r = "vol_target_map m s v d"
  have c: "risk_consistent (vt_min_delta_w m) ?r" "rk_w_current ?r = mapper_current_weight d"
    "rk_churn_guard_blocked ?r \<or> \<bar>rk_w_target ?r\<bar> \<le> vt_w_max m"
    using risk_mapper.consistent [OF vol_target_mapper_law [OF assms(1)], of s v d]
      risk_mapper.current [OF vol_target_mapper_law [OF assms(1)], of s v d]
      risk_mapper.bounded [OF vol_target_mapper_law [OF assms(1)], of s v d] by blast+
  have "rk_clipped ?r = (vt_w_max m \<le> \<bar>raw_weight m s v\<bar>)"
    by (simp add: vol_target_map_def Let_def churn_guard_cases)
  moreover have "rk_churn_guard_blocked ?r \<or> rk_w_target ?r = max (min (raw_weight m s v) (vt_w_max m)) (- vt_w_max m)"
    by (simp add: vol_target_map_def Let_def churn_guard_cases)
  moreover have "0 \<le> s \<longrightarrow> 0 \<le> raw_weight m s v" using raw_weight_nonneg [OF assms(2,3)] by blast
  moreover have "s \<le> 0 \<longrightarrow> raw_weight m s v \<le> 0"
    using raw_weight_nonneg [OF assms(2,3), of "- s" v] raw_weight_odd [of m s v] by simp
  ultimately show ?thesis using c assms(1) unfolding Let_def by (auto simp: max_def min_def)
qed

definition sample_long :: decision_input where
  "sample_long = \<lparr>di_symbol = ''BTCUSDT'', di_ts_wall = 1000, di_ts_mono = 10,
     di_book = snapshot_of_book sample_book True, di_recent_trades = [],
     di_current_position = Some \<lparr>po_size = 1 / 2, po_entry_price = Some 90, po_unrealized_pnl = 5\<rparr>,
     di_account_equity = 1000, di_available_margin = 1000, di_open_order_count = 0, di_pending_intent_count = 0,
     di_max_position_size = 0, di_max_position_value = 0, di_max_leverage = 1, di_config_bundle_id = None\<rparr>"

lemma vol_target_sound_witness:
  "\<bar>rk_w_target (vol_target_map default_vol_target 1 (1 / 50) sample_long)\<bar> \<le> fl (1 / 10)"
proof -
  have "\<not> rk_churn_guard_blocked (vol_target_map default_vol_target 1 (1 / 50) sample_long)" by code_simp
  moreover have "0 \<le> vt_w_max default_vol_target" "0 \<le> vt_target_vol default_vol_target" "0 \<le> vt_kelly_frac default_vol_target"
    by (simp_all add: default_vol_target_def)
  moreover have "vt_w_max default_vol_target = fl (1 / 10)" by (simp add: default_vol_target_def)
  ultimately show ?thesis using vol_target_sound [of default_vol_target 1 "1 / 50" sample_long] unfolding Let_def by auto
qed

text \<open>The default mappers keep a position within their limits: from a current weight within the limit, the
  volatility and the fixed-size mapper yield a target within the limit for every signal, and the scaled
  mapper does for every signal in [-1, 1].\<close>

theorem default_mappers_respect_limits:
  assumes "\<bar>mapper_current_weight d\<bar> \<le> fl (5 / 100)"
  shows "\<bar>rk_w_target (vol_target_map default_vol_target s v d)\<bar> \<le> fl (1 / 10) \<and>
    \<bar>rk_w_target (fixed_size_map default_fixed_size s v d)\<bar> \<le> fl (5 / 100) \<and>
    (\<bar>s\<bar> \<le> 1 \<longrightarrow> \<bar>rk_w_target (scaled_signal_map default_scaled_signal s v d)\<bar> \<le> fl (1 / 10))"
proof -
  have "fl (5 / 100) \<le> fl (1 / 10)" by (rule fl_mono) simp
  with assms have w: "\<bar>mapper_current_weight d\<bar> \<le> fl (1 / 10)" by linarith
  show ?thesis
    using vol_target.never_exceeds [OF _ w, of s v] fixed_size.never_exceeds [OF _ assms, of s v]
      scaled_signal.never_exceeds [OF _ w, of s v] by blast
qed

lemma default_mappers_respect_limits_witness:
  "\<bar>rk_w_target (scaled_signal_map default_scaled_signal (- 1) 0 (sample_long\<lparr>di_current_position := None\<rparr>))\<bar> \<le> fl (1 / 10)"
proof -
  have "\<bar>mapper_current_weight (sample_long\<lparr>di_current_position := None\<rparr>)\<bar> \<le> fl (5 / 100)"
    by (simp add: mapper_current_weight_def)
  from default_mappers_respect_limits [OF this, of "- 1" 0] show ?thesis by simp
qed

text \<open>The two computations of the current weight agree: the mappers' signed formula and the decision input's formula by
  side give the same float whenever the mid price is absent or positive.\<close>

theorem current_weights_agree:
  assumes "case sn_mid_price (di_book d) of None \<Rightarrow> True | Some mid \<Rightarrow> 0 < mid"
  shows "mapper_current_weight d = current_weight d"
proof (cases "di_current_position d")
  case None
  then show ?thesis by (simp add: mapper_current_weight_def current_weight_def split: option.split)
next
  case (Some p)
  show ?thesis
  proof (cases "sn_mid_price (di_book d)")
    case None
    with Some show ?thesis by (simp add: mapper_current_weight_def current_weight_def)
  next
    case m: (Some mid')
    have "fl (fmul \<bar>po_size p\<bar> mid' / e) = - fl (fmul (po_size p) mid' / e)" if "po_size p < 0" for e
      using that by (simp add: fmul_def)
    with Some m show ?thesis
      using assms by (auto simp: mapper_current_weight_def current_weight_def po_side_def Let_def)
  qed
qed

lemma current_weights_agree_witness: "mapper_current_weight sample_long = current_weight sample_long"
proof (rule current_weights_agree)
  show "case sn_mid_price (di_book sample_long) of None \<Rightarrow> True | Some mid \<Rightarrow> 0 < mid" by code_simp
qed

end
