(* ===== verification/Policy.thy ===== *)
theory Policy
  imports Risk Ids
begin

text \<open>
  The execution policies (quantgambit/core/decision/impl/execution_policy.py): from a risk output to
  at most one execution intent.  The intent id is computed by an argument \<open>gen_id\<close>, which the
  repository instantiates with \<open>generate_intent_id\<close>.  A policy keeps an attempt counter, so
  \<open>build_intents\<close> returns the counter beside its result or exception.
\<close>

record protective_params =
  pp_stop_loss_pct :: pyfloat
  pp_take_profit_pct :: "pyfloat option"
  pp_use_bracket :: bool

definition decision_bucket :: "decision_input \<Rightarrow> int \<Rightarrow> py_error + int" where
  "decision_bucket d bucket_ms =
     (case fdiv (fmul (di_ts_mono d) 1000) (fl (of_int bucket_ms)) of
        Inl e \<Rightarrow> Inl e
      | Inr q \<Rightarrow> Inr (py_int q * bucket_ms))"

definition delta_to_qty :: "pyfloat \<Rightarrow> pyfloat \<Rightarrow> pyfloat \<Rightarrow> pyfloat" where
  "delta_to_qty w equity mid = \<bar>fl (fmul w equity / mid)\<bar>"

definition side_of_delta :: "pyfloat \<Rightarrow> string" where
  "side_of_delta delta_w = (if 0 < delta_w then ''BUY'' else ''SELL'')"

text \<open>Stop loss and take profit around a reference price.\<close>

definition protection :: "protective_params option \<Rightarrow> string \<Rightarrow> pyfloat \<Rightarrow> pyfloat option \<times> pyfloat option" where
  "protection prot side ref = (case prot of
       None \<Rightarrow> (None, None)
     | Some p \<Rightarrow>
         if side = ''BUY'' then
           (Some (fmul ref (fsub 1 (pp_stop_loss_pct p))),
            if f_truthy (pp_take_profit_pct p) then Some (fmul ref (fadd 1 (the (pp_take_profit_pct p)))) else None)
         else
           (Some (fmul ref (fadd 1 (pp_stop_loss_pct p))),
            if f_truthy (pp_take_profit_pct p) then Some (fmul ref (fsub 1 (the (pp_take_profit_pct p)))) else None))"

definition uses_bracket :: "protective_params option \<Rightarrow> bool" where
  "uses_bracket prot = (case prot of None \<Rightarrow> False | Some p \<Rightarrow> pp_use_bracket p)"

text \<open>The guard on the book and the account: no mid price, or a non-positive mid or equity, yields no intent.\<close>

definition unpriceable :: "decision_input \<Rightarrow> bool" where
  "unpriceable d = (\<not> f_truthy (sn_mid_price (di_book d)) \<or> the (sn_mid_price (di_book d)) \<le> 0 \<or> di_account_equity d \<le> 0)"

section \<open>Market orders\<close>

record market_policy =
  mp_version :: string
  mp_strategy_id :: string
  mp_bucket_ms :: int
  mp_protective :: "protective_params option"

definition market_build ::
  "(intent_key \<Rightarrow> string) \<Rightarrow> market_policy \<Rightarrow> int \<Rightarrow> risk_output \<Rightarrow> decision_input \<Rightarrow>
     int \<times> (py_error + execution_intent list)" where
  "market_build gen_id p attempts r d =
     (let delta_w = rk_delta_w r
      in if rk_churn_guard_blocked r \<or> \<bar>delta_w\<bar> < fl (1 / 10000) then (attempts, Inr [])
         else if unpriceable d then (attempts, Inr [])
         else
     (let mid = the (sn_mid_price (di_book d)); qty = delta_to_qty delta_w (di_account_equity d) mid;
          side = side_of_delta delta_w; (sl, tp) = protection (mp_protective p) side mid
      in case decision_bucket d (mp_bucket_ms p) of
           Inl e \<Rightarrow> (attempts, Inl e)
         | Inr bucket \<Rightarrow>
             (let iid = gen_id \<lparr>ik_strategy_id = mp_strategy_id p, ik_symbol = di_symbol d, ik_side = side, ik_qty = qty,
                    ik_entry_type = ''MARKET'', ik_entry_price = None, ik_stop_loss = sl, ik_take_profit = tp,
                    ik_risk_mode = ''default'', ik_decision_ts_bucket = bucket\<rparr>;
                  attempts' = attempts + 1
              in (attempts', Inr [\<lparr>ei_intent_id = iid, ei_client_order_id = generate_client_order_id iid attempts',
                    ei_symbol = di_symbol d, ei_side = side, ei_order_type = ''MARKET'', ei_qty = qty, ei_price = None,
                    ei_sl_price = sl, ei_tp_price = tp, ei_use_bracket = uses_bracket (mp_protective p),
                    ei_reduce_only = (fmul delta_w (rk_w_current r) < 0), ei_trace_id = [], ei_strategy_id = [],
                    ei_decision_ts = 0, ei_risk_mode = [],
                    ei_extra = [(''execution_policy_version_id'', PStr (mp_version p)), (''delta_w'', PNum delta_w),
                      (''mid_price'', PNum mid)], ei_max_age_sec = 3\<rparr>]))))"

section \<open>Limit orders\<close>

record limit_policy =
  lp_version :: string
  lp_strategy_id :: string
  lp_bucket_ms :: int
  lp_offset_bps :: pyfloat
  lp_post_only :: bool
  lp_protective :: "protective_params option"

definition limit_price :: "pyfloat \<Rightarrow> string \<Rightarrow> book_snapshot \<Rightarrow> pyfloat \<Rightarrow> pyfloat" where
  "limit_price offset_bps side n mid =
     (let offset_mult = fl (offset_bps / 10000)
      in if side = ''BUY'' then
           (let price = fmul mid (fsub 1 offset_mult)
            in if f_truthy (sn_best_bid n) then min price (the (sn_best_bid n)) else price)
         else
           (let price = fmul mid (fadd 1 offset_mult)
            in if f_truthy (sn_best_ask n) then max price (the (sn_best_ask n)) else price))"

definition limit_build ::
  "(intent_key \<Rightarrow> string) \<Rightarrow> limit_policy \<Rightarrow> int \<Rightarrow> risk_output \<Rightarrow> decision_input \<Rightarrow>
     int \<times> (py_error + execution_intent list)" where
  "limit_build gen_id p attempts r d =
     (let delta_w = rk_delta_w r
      in if rk_churn_guard_blocked r \<or> \<bar>delta_w\<bar> < fl (1 / 10000) then (attempts, Inr [])
         else if unpriceable d then (attempts, Inr [])
         else
     (let mid = the (sn_mid_price (di_book d)); qty = delta_to_qty delta_w (di_account_equity d) mid;
          side = side_of_delta delta_w; price = limit_price (lp_offset_bps p) side (di_book d) mid;
          (sl, tp) = protection (lp_protective p) side price
      in case decision_bucket d (lp_bucket_ms p) of
           Inl e \<Rightarrow> (attempts, Inl e)
         | Inr bucket \<Rightarrow>
             (let ty = (if lp_post_only p then ''POST_ONLY'' else ''LIMIT'');
                  iid = gen_id \<lparr>ik_strategy_id = lp_strategy_id p, ik_symbol = di_symbol d, ik_side = side, ik_qty = qty,
                    ik_entry_type = ty, ik_entry_price = Some price, ik_stop_loss = sl, ik_take_profit = tp,
                    ik_risk_mode = ''default'', ik_decision_ts_bucket = bucket\<rparr>;
                  attempts' = attempts + 1
              in (attempts', Inr [\<lparr>ei_intent_id = iid, ei_client_order_id = generate_client_order_id iid attempts',
                    ei_symbol = di_symbol d, ei_side = side, ei_order_type = ty, ei_qty = qty, ei_price = Some price,
                    ei_sl_price = sl, ei_tp_price = tp, ei_use_bracket = uses_bracket (lp_protective p),
                    ei_reduce_only = (fmul delta_w (rk_w_current r) < 0), ei_trace_id = [], ei_strategy_id = [],
                    ei_decision_ts = 0, ei_risk_mode = [],
                    ei_extra = [(''execution_policy_version_id'', PStr (lp_version p)), (''delta_w'', PNum delta_w),
                      (''mid_price'', PNum mid), (''offset_bps'', PNum (lp_offset_bps p))], ei_max_age_sec = 3\<rparr>]))))"

section \<open>Exits only\<close>

record exit_policy =
  xp_version :: string
  xp_strategy_id :: string
  xp_bucket_ms :: int

definition exit_build ::
  "(intent_key \<Rightarrow> string) \<Rightarrow> exit_policy \<Rightarrow> int \<Rightarrow> risk_output \<Rightarrow> decision_input \<Rightarrow>
     int \<times> (py_error + execution_intent list)" where
  "exit_build gen_id p attempts r d =
     (let delta_w = rk_delta_w r; w_current = rk_w_current r
      in if \<bar>w_current\<bar> < fl (1 / 10000) then (attempts, Inr [])
         else if 0 \<le> fmul delta_w w_current then (attempts, Inr [])
         else if rk_churn_guard_blocked r then (attempts, Inr [])
         else if unpriceable d then (attempts, Inr [])
         else
     (let mid = the (sn_mid_price (di_book d)); equity = di_account_equity d;
          qty = min (delta_to_qty delta_w equity mid) (delta_to_qty w_current equity mid);
          side = (if 0 < w_current then ''SELL'' else ''BUY'')
      in case decision_bucket d (xp_bucket_ms p) of
           Inl e \<Rightarrow> (attempts, Inl e)
         | Inr bucket \<Rightarrow>
             (let iid = gen_id \<lparr>ik_strategy_id = xp_strategy_id p, ik_symbol = di_symbol d, ik_side = side, ik_qty = qty,
                    ik_entry_type = ''MARKET'', ik_entry_price = None, ik_stop_loss = None, ik_take_profit = None,
                    ik_risk_mode = ''exit'', ik_decision_ts_bucket = bucket\<rparr>;
                  attempts' = attempts + 1
              in (attempts', Inr [\<lparr>ei_intent_id = iid, ei_client_order_id = generate_client_order_id iid attempts',
                    ei_symbol = di_symbol d, ei_side = side, ei_order_type = ''MARKET'', ei_qty = qty, ei_price = None,
                    ei_sl_price = None, ei_tp_price = None, ei_use_bracket = False, ei_reduce_only = True,
                    ei_trace_id = [], ei_strategy_id = [], ei_decision_ts = 0, ei_risk_mode = [],
                    ei_extra = [(''execution_policy_version_id'', PStr (xp_version p)), (''exit_reason'', PStr ''signal''),
                      (''w_current'', PNum w_current)], ei_max_age_sec = 3\<rparr>]))))"

section \<open>The contract of a policy\<close>

lemma unpriceable_iff: "\<not> unpriceable d \<longleftrightarrow> (\<exists>mid. sn_mid_price (di_book d) = Some mid \<and> 0 < mid) \<and> 0 < di_account_equity d"
  by (cases "sn_mid_price (di_book d)") (auto simp: unpriceable_def not_le)

lemma delta_to_qty_pos: "w \<noteq> 0 \<Longrightarrow> 0 < e \<Longrightarrow> 0 < m \<Longrightarrow> 0 < delta_to_qty w e m"
  by (simp add: delta_to_qty_def fmul_def)

lemma delta_to_qty_mono:
  assumes "\<bar>v\<bar> \<le> \<bar>w\<bar>" "0 < e" "0 < m"
  shows "delta_to_qty v e m \<le> delta_to_qty w e m"
proof -
  have "\<bar>v * e\<bar> \<le> \<bar>w * e\<bar>" using assms by (simp add: abs_mult mult_right_mono)
  then have "\<bar>fmul v e\<bar> \<le> \<bar>fmul w e\<bar>" unfolding fmul_def fl_abs by (rule fl_mono)
  then have "\<bar>fmul v e / m\<bar> \<le> \<bar>fmul w e / m\<bar>" using assms(3) by (simp add: abs_divide divide_right_mono)
  then show ?thesis unfolding delta_to_qty_def fl_abs by (rule fl_mono)
qed

lemma tiny_pos: "0 < fl (1 / 10000)"
  by simp

text \<open>
  Every policy returns at most one intent, of positive quantity, on the side of the weight change,
  reduce-only exactly when told so by the risk output, and none when the churn guard blocked.
\<close>

definition intent_sound :: "risk_output \<Rightarrow> decision_input \<Rightarrow> execution_intent \<Rightarrow> bool" where
  "intent_sound r d i = (ei_symbol i = di_symbol d \<and> 0 < ei_qty i \<and> \<not> rk_churn_guard_blocked r \<and>
     ei_qty i \<le> delta_to_qty (rk_delta_w r) (di_account_equity d) (the (sn_mid_price (di_book d))) \<and>
     ei_side i = side_of_delta (rk_delta_w r) \<and> ei_reduce_only i = (rk_delta_w r * rk_w_current r < 0))"

locale execution_policy =
  fixes build :: "int \<Rightarrow> risk_output \<Rightarrow> decision_input \<Rightarrow> int \<times> (py_error + execution_intent list)"
  assumes at_most_one: "build n r d = (n', Inr is) \<Longrightarrow> length is \<le> 1"
    and sound: "build n r d = (n', Inr is) \<Longrightarrow> i \<in> set is \<Longrightarrow> intent_sound r d i"
    and counts: "build n r d = (n', Inr is) \<Longrightarrow> n' = n + int (length is)"
    and fresh_id: "build n r d = (n', Inr is) \<Longrightarrow> i \<in> set is \<Longrightarrow>
      ei_client_order_id i = generate_client_order_id (ei_intent_id i) n'"
begin

lemma emits: "build n r d = (n', Inr is) \<Longrightarrow> length is \<le> 1 \<and> n' = n + int (length is) \<and> list_all (intent_sound r d) is"
  using at_most_one sound counts by (simp add: list_all_iff)

text \<open>Successive calls for the same intent id carry different client order ids.\<close>

lemma ids_differ:
  assumes "build n r d = (n1, Inr is1)" "build n1 r' d' = (n2, Inr is2)" "i \<in> set is1" "j \<in> set is2"
    "ei_intent_id i = ei_intent_id j"
  shows "ei_client_order_id i \<noteq> ei_client_order_id j"
proof
  assume e: "ei_client_order_id i = ei_client_order_id j"
  have "n2 = n1 + int (length is2)" "is2 \<noteq> []" using counts [OF assms(2)] assms(4) by auto
  then have "n1 \<noteq> n2" by simp
  moreover have "parse_client_order_id (generate_client_order_id k a) = Some (named_intent k a, a)" for k a
    by (rule parse_generated)
  ultimately show False using e fresh_id [OF assms(1,3)] fresh_id [OF assms(2,4)] assms(5)
    by (metis option.inject prod.inject)
qed

end

lemma bucket_total: "m \<noteq> 0 \<Longrightarrow> \<exists>b. decision_bucket d m = Inr b"
  by (auto simp: decision_bucket_def fdiv_def)

lemmas build_simps = Let_def intent_sound_def fmul_neg_iff not_less unpriceable_iff

lemma market_law: "execution_policy (market_build g p)"
  by unfold_locales
    (auto simp: market_build_def Let_def intent_sound_def fmul_neg_iff unpriceable_iff
      intro!: delta_to_qty_pos split: if_splits sum.splits prod.splits)

lemma limit_law: "execution_policy (limit_build g p)"
  by unfold_locales
    (auto simp: limit_build_def Let_def intent_sound_def fmul_neg_iff unpriceable_iff
      intro!: delta_to_qty_pos split: if_splits sum.splits prod.splits)

interpretation market: execution_policy "market_build g p" for g p
  by (rule market_law)

interpretation limit: execution_policy "limit_build g p" for g p
  by (rule limit_law)

lemma exit_side: "\<not> 0 \<le> fmul x w \<Longrightarrow> (if 0 < w then ''SELL'' else ''BUY'') = side_of_delta x"
  by (auto simp: side_of_delta_def not_le fmul_neg_iff mult_less_0_iff)

lemma exit_law: "execution_policy (exit_build g p)"
  by unfold_locales
    (auto simp: exit_build_def Let_def intent_sound_def unpriceable_iff exit_side not_le fmul_neg_iff
      intro!: delta_to_qty_pos split: if_splits sum.splits prod.splits)

interpretation exit: execution_policy "exit_build g p" for g p
  by (rule exit_law)

section \<open>Properties\<close>

definition sample_risk :: risk_output where
  "sample_risk = \<lparr>rk_version = ''v'', rk_w_current = 1 / 16, rk_w_target = - 1 / 16, rk_delta_w = - 1 / 8, rk_clipped = False,
     rk_churn_guard_blocked = False, rk_extra = []\<rparr>"

definition sample_market :: market_policy where
  "sample_market = \<lparr>mp_version = ''market:1.0.0'', mp_strategy_id = ''default'', mp_bucket_ms = 1000,
     mp_protective = Some \<lparr>pp_stop_loss_pct = 1 / 64, pp_take_profit_pct = Some (1 / 32), pp_use_bracket = False\<rparr>\<rparr>"

definition sample_exit :: exit_policy where
  "sample_exit = \<lparr>xp_version = ''exit_only:1.0.0'', xp_strategy_id = ''exit'', xp_bucket_ms = 1000\<rparr>"

definition simple_id :: "intent_key \<Rightarrow> string" where
  "simple_id k = ''i_'' @ ik_symbol k @ ik_side k"

definition intents_of :: "int \<times> (py_error + execution_intent list) \<Rightarrow> execution_intent list" where
  "intents_of x = (case snd x of Inl e \<Rightarrow> [] | Inr is \<Rightarrow> is)"

text \<open>C31: All three policies emit at most one intent, and only a sound one: of positive quantity, not above the quantity
  of the weight change, for the input's symbol, on the side of the change, never when the churn guard
  blocked, and reduce-only exactly when the change opposes the current weight.\<close>

theorem policies_emit_sound_intents:
  assumes "build \<in> {market_build g mp, limit_build g lp, exit_build g xp}" "build n r d = (n', Inr is)"
  shows "length is \<le> 1 \<and> n' = n + int (length is) \<and> list_all (intent_sound r d) is"
  using assms market.emits limit.emits exit.emits by (elim insertE emptyE) simp_all

lemma policies_emit_sound_intents_witness:
  "\<exists>n' i. market_build simple_id sample_market 0 sample_risk sample_long = (n', Inr [i]) \<and> n' = 1 \<and> ei_side i = ''SELL''"
proof -
  have "(case market_build simple_id sample_market 0 sample_risk sample_long of (n', Inr [i]) \<Rightarrow> True | _ \<Rightarrow> False)"
    by code_simp
  then obtain n' i where b: "market_build simple_id sample_market 0 sample_risk sample_long = (n', Inr [i])"
    by (auto split: prod.splits sum.splits list.splits)
  from policies_emit_sound_intents [where build = "market_build simple_id sample_market" and g = simple_id
      and mp = sample_market, OF _ b] b
  show ?thesis by (simp add: intent_sound_def side_of_delta_def sample_risk_def)
qed

text \<open>The exit-only policy never opens and never flips: its intent is reduce-only, on the side opposite to the position,
  and its quantity is at most the position's own quantity.\<close>

theorem exit_policy_only_reduces:
  assumes "exit_build g xp n r d = (n', Inr [i])"
  shows "ei_reduce_only i \<and> rk_w_current r \<noteq> 0 \<and> ei_side i = (if 0 < rk_w_current r then ''SELL'' else ''BUY'') \<and>
    ei_qty i \<le> delta_to_qty (rk_w_current r) (di_account_equity d) (the (sn_mid_price (di_book d)))"
  using assms by (auto simp: exit_build_def Let_def split: if_splits sum.splits)

lemma exit_policy_only_reduces_witness:
  "\<exists>n' i. exit_build simple_id sample_exit 0 sample_risk sample_long = (n', Inr [i]) \<and> ei_side i = ''SELL'' \<and> ei_reduce_only i"
proof -
  have "(case exit_build simple_id sample_exit 0 sample_risk sample_long of (n', Inr [i]) \<Rightarrow> True | _ \<Rightarrow> False)"
    by code_simp
  then obtain n' i where b: "exit_build simple_id sample_exit 0 sample_risk sample_long = (n', Inr [i])"
    by (auto split: prod.splits sum.splits list.splits)
  from exit_policy_only_reduces [OF b] b show ?thesis by (simp add: sample_risk_def)
qed

text \<open>A reversal is emitted as one reduce-only order for more than the position: when the change opposes the current
  weight and is at least as large, the market policy's intent is reduce-only although its quantity is at least
  the position's, so the part beyond the position can never open the other side.\<close>

theorem reversal_is_reduce_only:
  assumes "market_build g mp n r d = (n', Inr [i])" "rk_delta_w r * rk_w_current r < 0"
    "\<bar>rk_w_current r\<bar> \<le> \<bar>rk_delta_w r\<bar>"
  shows "ei_reduce_only i \<and>
    delta_to_qty (rk_w_current r) (di_account_equity d) (the (sn_mid_price (di_book d))) \<le> ei_qty i"
  using assms
  by (auto simp: market_build_def Let_def fmul_neg_iff unpriceable_iff intro: delta_to_qty_mono
      split: if_splits sum.splits prod.splits)

lemma reversal_is_reduce_only_witness:
  "\<exists>n' i. market_build simple_id sample_market 0 sample_risk sample_long = (n', Inr [i]) \<and> ei_reduce_only i"
proof -
  have "(case market_build simple_id sample_market 0 sample_risk sample_long of (n', Inr [i]) \<Rightarrow> True | _ \<Rightarrow> False)"
    by code_simp
  then obtain n' i where b: "market_build simple_id sample_market 0 sample_risk sample_long = (n', Inr [i])"
    by (auto split: prod.splits sum.splits list.splits)
  from reversal_is_reduce_only [OF b] b show ?thesis by (simp add: sample_risk_def)
qed

text \<open>A limit intent never crosses the spread: a buy is priced at or below the best bid, a sell at or above the best
  ask.  Around a positive float reference price and with non-negative percentages, stop loss and take profit
  bracket it on the protective side.\<close>

theorem limit_price_and_protection:
  assumes "is_float ref" "0 < ref" "0 \<le> pp_stop_loss_pct p" "pp_take_profit_pct p = Some tp" "0 < tp"
  shows "(\<forall>b. sn_best_bid sn = Some b \<and> b \<noteq> 0 \<longrightarrow> limit_price off ''BUY'' sn mid \<le> b) \<and>
    (\<forall>a. sn_best_ask sn = Some a \<and> a \<noteq> 0 \<longrightarrow> a \<le> limit_price off ''SELL'' sn mid) \<and>
    (\<exists>sl tk. protection (Some p) ''BUY'' ref = (Some sl, Some tk) \<and> sl \<le> ref \<and> ref \<le> tk) \<and>
    (\<exists>sl tk. protection (Some p) ''SELL'' ref = (Some sl, Some tk) \<and> ref \<le> sl \<and> tk \<le> ref)"
proof -
  have down: "fmul ref (fsub 1 x) \<le> ref" if "0 \<le> x" for x
  proof -
    have "fsub 1 x \<le> fl 1" unfolding fsub_def using that by (intro fl_mono) simp
    then have "ref * fsub 1 x \<le> ref" using assms(2) by (simp add: mult_left_le)
    then show ?thesis unfolding fmul_def by (rule fl_le [OF assms(1)])
  qed
  have up: "ref \<le> fmul ref (fadd 1 x)" if "0 \<le> x" for x
  proof -
    have "fl 1 \<le> fadd 1 x" unfolding fadd_def using that by (intro fl_mono) simp
    then have "ref \<le> ref * fadd 1 x" using assms(2) by simp
    then show ?thesis unfolding fmul_def by (rule fl_ge [OF assms(1)])
  qed
  show ?thesis
    using assms(3-5) by (auto simp: limit_price_def protection_def Let_def down up)
qed

lemma limit_price_and_protection_witness:
  "\<exists>sl tk. protection (mp_protective sample_market) ''SELL'' 100 = (Some sl, Some tk) \<and> 100 \<le> sl \<and> tk \<le> 100"
proof -
  have "is_float 100" by (simp add: is_float_def)
  from limit_price_and_protection [OF this, of "the (mp_protective sample_market)" "1 / 32"] show ?thesis
    by (simp add: sample_market_def)
qed

end
