(* ===== verification/Kill_Switch.thy ===== *)
theory Kill_Switch
  imports Machines Py_Float
begin

text \<open>
  The kill switch (quantgambit/core/risk/kill_switch.py): a latch that halts trading when a
  threshold is exceeded.  Clock readings and the audit record's fresh id are arguments, in the
  order the code takes them; the \<open>on_trigger\<close> callback is the list of calls an operation
  makes.
\<close>

section \<open>Data\<close>

datatype trigger_reason =
  TR_STALE_BOOK | TR_INCOHERENT_BOOK | TR_RESYNC_LOOP | TR_REPEATED_REJECTS | TR_WS_DISCONNECT
| TR_SLIPPAGE_SPIKE | TR_LATENCY_BREACH | TR_EQUITY_DRAWDOWN | TR_MARGIN_CALL | TR_MANUAL
| TR_PROTECTION_FAILURE | TR_RECONCILIATION_FAILURE

datatype ks_state = ARMED | TRIGGERED | RECOVERING | DISABLED

record ks_config =
  kc_max_reject_count :: int
  kc_reject_window_sec :: pyfloat
  kc_max_resync_count :: int
  kc_resync_window_sec :: pyfloat
  kc_max_slippage_bps :: pyfloat
  kc_max_latency_p95_ms :: pyfloat
  kc_max_drawdown_pct :: pyfloat
  kc_ws_disconnect_timeout_sec :: pyfloat

definition default_ks_config :: ks_config where
  "default_ks_config = \<lparr>kc_max_reject_count = 5, kc_reject_window_sec = 60, kc_max_resync_count = 3,
     kc_resync_window_sec = 60, kc_max_slippage_bps = 100, kc_max_latency_p95_ms = 500,
     kc_max_drawdown_pct = 10, kc_ws_disconnect_timeout_sec = 5\<rparr>"

datatype audit_action = A_TRIGGERED | A_RESET | A_CLEANUP_STARTED

record ks_audit =
  ka_event_id :: string
  ka_action :: audit_action
  ka_trigger :: "trigger_reason option"
  ka_ts_wall :: pyfloat
  ka_ts_mono :: pyfloat
  ka_details :: details

record kill_switch =
  ks_config :: ks_config
  ks_has_callback :: bool
  ks_state :: ks_state
  ks_trigger_reason :: "trigger_reason option"
  ks_trigger_time_mono :: "pyfloat option"
  ks_trigger_time_wall :: "pyfloat option"
  ks_trigger_details :: details
  ks_reject_times :: "pyfloat list"
  ks_resync_times :: "pyfloat list"
  ks_last_ws_heartbeat :: "pyfloat option"
  ks_audit_trail :: "ks_audit list"
  ks_total_triggers :: nat
  ks_total_resets :: nat

definition ks_init :: "ks_config option \<Rightarrow> bool \<Rightarrow> kill_switch" where
  "ks_init cfg cb = \<lparr>ks_config = (case cfg of None \<Rightarrow> default_ks_config | Some c \<Rightarrow> c), ks_has_callback = cb,
     ks_state = ARMED, ks_trigger_reason = None, ks_trigger_time_mono = None, ks_trigger_time_wall = None,
     ks_trigger_details = [], ks_reject_times = [], ks_resync_times = [], ks_last_ws_heartbeat = None,
     ks_audit_trail = [], ks_total_triggers = 0, ks_total_resets = 0\<rparr>"

text \<open>The environment's answers at one call: the monotonic and the wall clock, and a fresh id.\<close>

record reading =
  rd_mono :: pyfloat
  rd_wall :: pyfloat
  rd_uid :: string

section \<open>Operations\<close>

definition is_killed :: "kill_switch \<Rightarrow> bool" where
  "is_killed k = (ks_state k \<in> {TRIGGERED, RECOVERING})"

definition is_active :: "kill_switch \<Rightarrow> bool" where
  "is_active k = is_killed k"

definition is_armed :: "kill_switch \<Rightarrow> bool" where
  "is_armed k = (ks_state k = ARMED)"

type_synonym ks_call = "trigger_reason \<times> details"

definition trigger ::
  "kill_switch \<Rightarrow> trigger_reason \<Rightarrow> details option \<Rightarrow> reading \<Rightarrow> kill_switch \<times> bool \<times> ks_call list" where
  "trigger k reason det rd =
     (if ks_state k \<noteq> ARMED then (k, False, [])
      else let d = opt_list det
        in (k\<lparr>ks_state := TRIGGERED, ks_trigger_reason := Some reason,
              ks_trigger_time_mono := Some (rd_mono rd), ks_trigger_time_wall := Some (rd_wall rd),
              ks_trigger_details := d, ks_total_triggers := Suc (ks_total_triggers k),
              ks_audit_trail := ks_audit_trail k @
                [\<lparr>ka_event_id = rd_uid rd, ka_action = A_TRIGGERED, ka_trigger = Some reason,
                  ka_ts_wall = rd_wall rd, ka_ts_mono = rd_mono rd, ka_details = d\<rparr>]\<rparr>,
            True, if ks_has_callback k then [(reason, d)] else []))"

definition ks_reset :: "kill_switch \<Rightarrow> string \<Rightarrow> string \<Rightarrow> reading \<Rightarrow> kill_switch \<times> bool" where
  "ks_reset k operator_id reason rd =
     (if ks_state k \<notin> {TRIGGERED, RECOVERING} then (k, False)
      else (k\<lparr>ks_audit_trail := ks_audit_trail k @
               [\<lparr>ka_event_id = rd_uid rd, ka_action = A_RESET, ka_trigger = ks_trigger_reason k,
                 ka_ts_wall = rd_wall rd, ka_ts_mono = rd_mono rd,
                 ka_details = [(''operator_id'', PStr operator_id), (''reason'', PStr reason),
                   (''was_triggered_at'', (case ks_trigger_time_wall k of None \<Rightarrow> PNone | Some t \<Rightarrow> PNum t)),
                   (''duration_sec'', PNum (fsub (rd_mono rd) (fo_or (ks_trigger_time_mono k) (rd_mono rd))))]\<rparr>],
              ks_state := ARMED, ks_trigger_reason := None, ks_trigger_time_mono := None,
              ks_trigger_time_wall := None, ks_trigger_details := [],
              ks_total_resets := Suc (ks_total_resets k), ks_reject_times := [], ks_resync_times := []\<rparr>, True))"

definition mark_recovering :: "kill_switch \<Rightarrow> reading \<Rightarrow> kill_switch" where
  "mark_recovering k rd =
     (if ks_state k = TRIGGERED then
        k\<lparr>ks_state := RECOVERING, ks_audit_trail := ks_audit_trail k @
          [\<lparr>ka_event_id = rd_uid rd, ka_action = A_CLEANUP_STARTED, ka_trigger = ks_trigger_reason k,
            ka_ts_wall = rd_wall rd, ka_ts_mono = rd_mono rd, ka_details = []\<rparr>]\<rparr>
      else k)"

definition on_reject ::
  "kill_switch \<Rightarrow> string \<Rightarrow> string \<Rightarrow> pyfloat \<Rightarrow> reading \<Rightarrow> kill_switch \<times> bool \<times> ks_call list" where
  "on_reject k sy reason now rd =
     (if \<not> is_armed k then (k, False, [])
      else let cutoff = fsub now (kc_reject_window_sec (ks_config k));
               times = filter (\<lambda>t. cutoff \<le> t) (ks_reject_times k @ [now]);
               k1 = k\<lparr>ks_reject_times := times\<rparr>
        in if kc_max_reject_count (ks_config k) \<le> int (length times) then
             trigger k1 TR_REPEATED_REJECTS
               (Some [(''symbol'', PStr sy), (''reason'', PStr reason), (''count'', PInt (int (length times)))]) rd
           else (k1, False, []))"

definition on_resync ::
  "kill_switch \<Rightarrow> string \<Rightarrow> pyfloat \<Rightarrow> reading \<Rightarrow> kill_switch \<times> bool \<times> ks_call list" where
  "on_resync k sy now rd =
     (if \<not> is_armed k then (k, False, [])
      else let cutoff = fsub now (kc_resync_window_sec (ks_config k));
               times = filter (\<lambda>t. cutoff \<le> t) (ks_resync_times k @ [now]);
               k1 = k\<lparr>ks_resync_times := times\<rparr>
        in if kc_max_resync_count (ks_config k) \<le> int (length times) then
             trigger k1 TR_RESYNC_LOOP
               (Some [(''symbol'', PStr sy), (''count'', PInt (int (length times)))]) rd
           else (k1, False, []))"

definition on_ws_heartbeat :: "kill_switch \<Rightarrow> pyfloat \<Rightarrow> kill_switch" where
  "on_ws_heartbeat k now = k\<lparr>ks_last_ws_heartbeat := Some now\<rparr>"

definition check_ws_timeout :: "kill_switch \<Rightarrow> pyfloat \<Rightarrow> reading \<Rightarrow> kill_switch \<times> bool \<times> ks_call list" where
  "check_ws_timeout k now rd =
     (if \<not> is_armed k then (k, False, [])
      else case ks_last_ws_heartbeat k of
          None \<Rightarrow> (k, False, [])
        | Some hb \<Rightarrow>
            (let elapsed = fsub now hb; timeout = kc_ws_disconnect_timeout_sec (ks_config k)
             in if timeout < elapsed then
                  trigger k TR_WS_DISCONNECT (Some [(''elapsed_sec'', PNum elapsed), (''timeout_sec'', PNum timeout)]) rd
                else (k, False, [])))"

definition on_slippage ::
  "kill_switch \<Rightarrow> string \<Rightarrow> pyfloat \<Rightarrow> reading \<Rightarrow> kill_switch \<times> bool \<times> ks_call list" where
  "on_slippage k sy bps rd =
     (if \<not> is_armed k then (k, False, [])
      else if kc_max_slippage_bps (ks_config k) < bps then
        trigger k TR_SLIPPAGE_SPIKE (Some [(''symbol'', PStr sy), (''slippage_bps'', PNum bps),
          (''threshold_bps'', PNum (kc_max_slippage_bps (ks_config k)))]) rd
      else (k, False, []))"

definition on_latency ::
  "kill_switch \<Rightarrow> string \<Rightarrow> pyfloat \<Rightarrow> reading \<Rightarrow> kill_switch \<times> bool \<times> ks_call list" where
  "on_latency k operation p95 rd =
     (if \<not> is_armed k then (k, False, [])
      else if kc_max_latency_p95_ms (ks_config k) < p95 then
        trigger k TR_LATENCY_BREACH (Some [(''operation'', PStr operation), (''latency_p95_ms'', PNum p95),
          (''threshold_ms'', PNum (kc_max_latency_p95_ms (ks_config k)))]) rd
      else (k, False, []))"

definition on_drawdown :: "kill_switch \<Rightarrow> pyfloat \<Rightarrow> reading \<Rightarrow> kill_switch \<times> bool \<times> ks_call list" where
  "on_drawdown k pct rd =
     (if \<not> is_armed k then (k, False, [])
      else if kc_max_drawdown_pct (ks_config k) < pct then
        trigger k TR_EQUITY_DRAWDOWN (Some [(''drawdown_pct'', PNum pct),
          (''threshold_pct'', PNum (kc_max_drawdown_pct (ks_config k)))]) rd
      else (k, False, []))"

record ks_stats =
  kst_state :: ks_state
  kst_trigger_reason :: "trigger_reason option"
  kst_trigger_time :: "pyfloat option"
  kst_total_triggers :: nat
  kst_total_resets :: nat
  kst_recent_rejects :: nat
  kst_recent_resyncs :: nat
  kst_audit_trail_size :: nat

definition ks_stats_of :: "kill_switch \<Rightarrow> ks_stats" where
  "ks_stats_of k = \<lparr>kst_state = ks_state k, kst_trigger_reason = ks_trigger_reason k,
     kst_trigger_time = ks_trigger_time_wall k, kst_total_triggers = ks_total_triggers k,
     kst_total_resets = ks_total_resets k, kst_recent_rejects = length (ks_reject_times k),
     kst_recent_resyncs = length (ks_resync_times k), kst_audit_trail_size = length (ks_audit_trail k)\<rparr>"

text \<open>The payload of \<open>to_event\<close>.\<close>

record ks_payload =
  kp_state :: ks_state
  kp_trigger :: "trigger_reason option"
  kp_trigger_time :: "pyfloat option"
  kp_details :: details

definition ks_event_payload :: "kill_switch \<Rightarrow> ks_payload" where
  "ks_event_payload k = \<lparr>kp_state = ks_state k, kp_trigger = ks_trigger_reason k,
     kp_trigger_time = ks_trigger_time_wall k, kp_details = ks_trigger_details k\<rparr>"

section \<open>Runs\<close>

datatype ks_event =
    KTrigger trigger_reason "details option" reading
  | KReset string string reading
  | KRecovering reading
  | KReject string string pyfloat reading
  | KResync string pyfloat reading
  | KHeartbeat pyfloat
  | KCheckWs pyfloat reading
  | KSlippage string pyfloat reading
  | KLatency string pyfloat reading
  | KDrawdown pyfloat reading

text \<open>One call; the calls of the callback are collected beside the switch.\<close>

fun ks_apply :: "kill_switch \<Rightarrow> ks_event \<Rightarrow> kill_switch \<times> ks_call list" where
  "ks_apply k (KTrigger r d rd) = (let (k', b, cs) = trigger k r d rd in (k', cs))"
| "ks_apply k (KReset op r rd) = (fst (ks_reset k op r rd), [])"
| "ks_apply k (KRecovering rd) = (mark_recovering k rd, [])"
| "ks_apply k (KReject sy r now rd) = (let (k', b, cs) = on_reject k sy r now rd in (k', cs))"
| "ks_apply k (KResync sy now rd) = (let (k', b, cs) = on_resync k sy now rd in (k', cs))"
| "ks_apply k (KHeartbeat now) = (on_ws_heartbeat k now, [])"
| "ks_apply k (KCheckWs now rd) = (let (k', b, cs) = check_ws_timeout k now rd in (k', cs))"
| "ks_apply k (KSlippage sy bps rd) = (let (k', b, cs) = on_slippage k sy bps rd in (k', cs))"
| "ks_apply k (KLatency op p rd) = (let (k', b, cs) = on_latency k op p rd in (k', cs))"
| "ks_apply k (KDrawdown pct rd) = (let (k', b, cs) = on_drawdown k pct rd in (k', cs))"

definition ks_step :: "kill_switch \<times> ks_call list \<Rightarrow> ks_event \<Rightarrow> kill_switch \<times> ks_call list" where
  "ks_step s e = (let (k', cs) = ks_apply (fst s) e in (k', snd s @ cs))"

fun is_reset :: "ks_event \<Rightarrow> bool" where
  "is_reset (KReset op r rd) = True"
| "is_reset _ = False"

text \<open>The audit trail as an automaton: which actions may follow which, and the state they lead to.\<close>

fun audit_next :: "ks_state \<Rightarrow> audit_action \<Rightarrow> ks_state option" where
  "audit_next ARMED A_TRIGGERED = Some TRIGGERED"
| "audit_next TRIGGERED A_CLEANUP_STARTED = Some RECOVERING"
| "audit_next TRIGGERED A_RESET = Some ARMED"
| "audit_next RECOVERING A_RESET = Some ARMED"
| "audit_next _ _ = None"

fun audit_replay :: "ks_state \<Rightarrow> audit_action list \<Rightarrow> ks_state option" where
  "audit_replay q [] = Some q"
| "audit_replay q (a # as) = (case audit_next q a of None \<Rightarrow> None | Some q' \<Rightarrow> audit_replay q' as)"

lemma audit_replay_snoc:
  "audit_replay q (as @ [a]) = (case audit_replay q as of None \<Rightarrow> None | Some q' \<Rightarrow> audit_next q' a)"
  by (induction as arbitrary: q) (auto split: option.split)

abbreviation actions :: "kill_switch \<Rightarrow> audit_action list" where
  "actions k \<equiv> map ka_action (ks_audit_trail k)"

definition trail_calls :: "kill_switch \<Rightarrow> ks_call list" where
  "trail_calls k = [(the (ka_trigger a), ka_details a). a \<leftarrow> ks_audit_trail k, ka_action a = A_TRIGGERED]"

definition ks_inv :: "kill_switch \<times> ks_call list \<Rightarrow> bool" where
  "ks_inv s = (case s of (k, calls) \<Rightarrow>
     audit_replay ARMED (actions k) = Some (ks_state k) \<and>
     ks_state k \<noteq> DISABLED \<and>
     (ks_trigger_reason k \<noteq> None \<longleftrightarrow> is_killed k) \<and>
     (ks_trigger_time_mono k \<noteq> None \<longleftrightarrow> is_killed k) \<and>
     ks_total_triggers k = ks_total_resets k + (if is_killed k then 1 else 0) \<and>
     count_list (actions k) A_TRIGGERED = ks_total_triggers k \<and>
     count_list (actions k) A_RESET = ks_total_resets k \<and>
     calls = (if ks_has_callback k then trail_calls k else []))"

lemma ks_inv_frame:
  "ks_inv (k\<lparr>ks_reject_times := r\<rparr>, c) = ks_inv (k, c)"
  "ks_inv (k\<lparr>ks_resync_times := r\<rparr>, c) = ks_inv (k, c)"
  "ks_inv (k\<lparr>ks_last_ws_heartbeat := h\<rparr>, c) = ks_inv (k, c)"
  by (simp_all add: ks_inv_def is_killed_def trail_calls_def)

lemma trigger_inv: "ks_inv (k, c) \<Longrightarrow> trigger k r d rd = (k', b, cs) \<Longrightarrow> ks_inv (k', c @ cs)"
  by (auto simp: trigger_def ks_inv_def is_killed_def trail_calls_def audit_replay_snoc Let_def split: if_splits)

lemma reset_inv: "ks_inv (k, c) \<Longrightarrow> ks_inv (fst (ks_reset k op r rd), c)"
  by (auto simp: ks_reset_def ks_inv_def is_killed_def trail_calls_def audit_replay_snoc split: if_splits)

lemma recovering_inv: "ks_inv (k, c) \<Longrightarrow> ks_inv (mark_recovering k rd, c)"
  by (auto simp: mark_recovering_def ks_inv_def is_killed_def trail_calls_def audit_replay_snoc)

lemma apply_inv: "ks_inv (k, c) \<Longrightarrow> ks_apply k e = (k', cs) \<Longrightarrow> ks_inv (k', c @ cs)"
  by (cases e)
    (auto simp: on_reject_def on_resync_def check_ws_timeout_def on_slippage_def on_latency_def on_drawdown_def
      on_ws_heartbeat_def ks_inv_frame reset_inv recovering_inv Let_def
      intro: trigger_inv trigger_inv [OF ks_inv_frame(1) [THEN iffD2]] trigger_inv [OF ks_inv_frame(2) [THEN iffD2]]
      split: prod.splits if_splits option.splits)

lemma killed_apply:
  assumes "is_killed k" "\<not> is_reset e"
  shows "\<exists>k'. ks_apply k e = (k', []) \<and> is_killed k' \<and> ks_trigger_reason k' = ks_trigger_reason k \<and>
    ks_trigger_time_wall k' = ks_trigger_time_wall k \<and> ks_total_triggers k' = ks_total_triggers k"
  using assms
  by (cases e) (auto simp: is_killed_def is_armed_def trigger_def on_reject_def on_resync_def check_ws_timeout_def
      on_slippage_def on_latency_def on_drawdown_def on_ws_heartbeat_def mark_recovering_def)

interpretation ks: latch ks_step "\<lambda>e. True" ks_inv "\<lambda>s. is_killed (fst s)" is_reset
  "\<lambda>s. (ks_trigger_reason (fst s), ks_trigger_time_wall (fst s), ks_total_triggers (fst s), snd s)"
proof
  show "ks_inv s \<Longrightarrow> ks_inv (ks_step s e)" for s e
    by (cases s; cases "ks_apply (fst s) e") (auto simp: ks_step_def intro: apply_inv)
next
  fix s :: "kill_switch \<times> ks_call list" and e
  assume "is_killed (fst s)" "\<not> is_reset e"
  from killed_apply [OF this] show "is_killed (fst (ks_step s e)) \<and>
      (ks_trigger_reason (fst (ks_step s e)), ks_trigger_time_wall (fst (ks_step s e)),
       ks_total_triggers (fst (ks_step s e)), snd (ks_step s e)) =
      (ks_trigger_reason (fst s), ks_trigger_time_wall (fst s), ks_total_triggers (fst s), snd s)"
    by (auto simp: ks_step_def)
qed

definition ks_run :: "ks_config option \<Rightarrow> bool \<Rightarrow> ks_event list \<Rightarrow> kill_switch \<times> ks_call list" where
  "ks_run cfg cb es = foldl ks_step (ks_init cfg cb, []) es"

lemma ks_run_inv: "ks_inv (ks_run cfg cb es)"
  unfolding ks_run_def
  by (rule ks.run_inv) (simp_all add: list_all_iff ks_inv_def ks_init_def is_killed_def trail_calls_def)

section \<open>The sliding window of rejects\<close>

text \<open>Rejects reported while armed, at the given clock readings, until one of them triggers.\<close>

fun reject_run :: "kill_switch \<Rightarrow> pyfloat list \<Rightarrow> reading \<Rightarrow> kill_switch \<times> bool" where
  "reject_run k [] rd = (k, False)"
| "reject_run k (t # ts) rd =
     (case on_reject k [] [] t rd of (k', True, cs) \<Rightarrow> (k', True) | (k', False, cs) \<Rightarrow> reject_run k' ts rd)"

definition window_count :: "pyfloat \<Rightarrow> pyfloat list \<Rightarrow> pyfloat \<Rightarrow> nat" where
  "window_count w ts now = length (filter (\<lambda>t. fsub now w \<le> t) ts)"

text \<open>
  While armed and not triggering, the tracked list is the whole history cut to the window: dropping old
  entries early loses nothing because the cutoff only moves forward.
\<close>

lemma on_reject_armed:
  assumes "ks_state k = ARMED"
    and w: "ks_reject_times k = filter (\<lambda>t. fsub prev (kc_reject_window_sec (ks_config k)) \<le> t) hist"
    and "prev \<le> now" "on_reject k sy r now rd = (k', b, cs)"
  shows "b \<longleftrightarrow> kc_max_reject_count (ks_config k) \<le> int (window_count (kc_reject_window_sec (ks_config k)) (hist @ [now]) now)"
    and "\<not> b \<Longrightarrow> ks_state k' = ARMED \<and> ks_config k' = ks_config k \<and>
      ks_reject_times k' = filter (\<lambda>t. fsub now (kc_reject_window_sec (ks_config k)) \<le> t) (hist @ [now])"
    and "b \<Longrightarrow> is_killed k' \<and> ks_trigger_reason k' = Some TR_REPEATED_REJECTS"
proof -
  let ?w = "kc_reject_window_sec (ks_config k)"
  have "fsub prev ?w \<le> fsub now ?w" by (rule fsub_mono) (simp_all add: assms(3))
  then have f: "filter (\<lambda>t. fsub now ?w \<le> t) (ks_reject_times k @ [now]) = filter (\<lambda>t. fsub now ?w \<le> t) (hist @ [now])"
    unfolding w by (auto intro!: filter_cong)
  note d = assms(4) [unfolded on_reject_def is_armed_def assms(1) Let_def f trigger_def, simplified assms(1)]
  show "b \<longleftrightarrow> kc_max_reject_count (ks_config k) \<le> int (window_count ?w (hist @ [now]) now)"
    using d assms(1) by (auto simp: window_count_def Let_def split: if_splits)
  show "\<not> b \<Longrightarrow> ks_state k' = ARMED \<and> ks_config k' = ks_config k \<and>
      ks_reject_times k' = filter (\<lambda>t. fsub now ?w \<le> t) (hist @ [now])"
    using d assms(1) by (auto simp: Let_def split: if_splits)
  show "b \<Longrightarrow> is_killed k' \<and> ks_trigger_reason k' = Some TR_REPEATED_REJECTS"
    using d assms(1) by (auto simp: Let_def is_killed_def split: if_splits)
qed

lemma reject_run_window:
  assumes "ks_state k = ARMED"
    "ks_reject_times k = filter (\<lambda>t. fsub prev (kc_reject_window_sec (ks_config k)) \<le> t) hist"
    "sorted (prev # ts)"
  shows "snd (reject_run k ts rd) \<longleftrightarrow>
    (\<exists>i < length ts. kc_max_reject_count (ks_config k) \<le>
       int (window_count (kc_reject_window_sec (ks_config k)) (hist @ take (Suc i) ts) (ts ! i)))"
  using assms
proof (induction ts arbitrary: k prev hist)
  case (Cons t ts)
  obtain k' b cs where o: "on_reject k [] [] t rd = (k', b, cs)" by (metis prod_cases3)
  have lt: "prev \<le> t" and srt: "sorted (t # ts)" using Cons.prems(3) by auto
  note a = on_reject_armed [OF Cons.prems(1,2) lt o]
  let ?P = "\<lambda>i. kc_max_reject_count (ks_config k) \<le>
       int (window_count (kc_reject_window_sec (ks_config k)) (hist @ take (Suc i) (t # ts)) ((t # ts) ! i))"
  have split: "(\<exists>i < length (t # ts). ?P i) \<longleftrightarrow> ?P 0 \<or> (\<exists>i < length ts. ?P (Suc i))"
    by (simp only: length_Cons Ex_less_Suc2)
  show ?case
  proof (cases b)
    case True
    with a(1) o split show ?thesis by simp
  next
    case False
    with a(2) have k': "ks_state k' = ARMED" "ks_config k' = ks_config k"
      "ks_reject_times k' = filter (\<lambda>u. fsub t (kc_reject_window_sec (ks_config k)) \<le> u) (hist @ [t])" by auto
    have "snd (reject_run k (t # ts) rd) \<longleftrightarrow> snd (reject_run k' ts rd)" using o False by simp
    also have "\<dots> \<longleftrightarrow> (\<exists>i < length ts. ?P (Suc i))"
      using Cons.IH [of k' t "hist @ [t]"] k' srt by (simp add: k'(2))
    finally show ?thesis using a(1) False split by simp
  qed
qed simp

section \<open>Properties\<close>

definition sample_reading :: reading where
  "sample_reading = \<lparr>rd_mono = 7, rd_wall = 1007, rd_uid = ''u1''\<rparr>"

text \<open>C22: The kill switch latches: once it is active, no sequence of operations without a \<open>reset\<close> deactivates it, changes
  the recorded reason and time, triggers again, or calls the callback again.\<close>

theorem kill_switch_latches:
  assumes "is_active (fst (ks_run cfg cb es1))" "\<not> list_ex is_reset es2"
  shows "is_active (fst (ks_run cfg cb (es1 @ es2))) \<and>
    ks_trigger_reason (fst (ks_run cfg cb (es1 @ es2))) = ks_trigger_reason (fst (ks_run cfg cb es1)) \<and>
    ks_trigger_time_wall (fst (ks_run cfg cb (es1 @ es2))) = ks_trigger_time_wall (fst (ks_run cfg cb es1)) \<and>
    ks_total_triggers (fst (ks_run cfg cb (es1 @ es2))) = ks_total_triggers (fst (ks_run cfg cb es1)) \<and>
    snd (ks_run cfg cb (es1 @ es2)) = snd (ks_run cfg cb es1)"
  using ks.run_closed [OF ks_run_inv, of es2 cfg cb es1] assms by (simp add: ks_run_def is_active_def list_all_iff)

lemma kill_switch_latches_witness:
  "is_active (fst (ks_run None True ([KTrigger TR_MANUAL None sample_reading] @ [KRecovering sample_reading, KDrawdown 50 sample_reading])))"
proof -
  have "is_active (fst (ks_run None True [KTrigger TR_MANUAL None sample_reading]))"
    by (simp add: ks_run_def ks_step_def ks_init_def trigger_def is_active_def is_killed_def Let_def)
  from kill_switch_latches [OF this, of "[KRecovering sample_reading, KDrawdown 50 sample_reading]"] show ?thesis by simp
qed

text \<open>Accounting over every run from the initial state: triggers exceed resets by one exactly while the switch is
  active, a reason is recorded exactly while it is active, the audit trail replays through the automaton
  armed, triggered, recovering, armed to the current state (so \<open>DISABLED\<close> is never reached), it
  holds one record per trigger and per reset, and with a callback installed the callback was called once per
  trigger record, with that record's reason and details.\<close>

theorem kill_switch_accounting:
  "let (k, calls) = ks_run cfg cb es
   in ks_total_triggers k = ks_total_resets k + (if is_killed k then 1 else 0) \<and>
      (ks_trigger_reason k \<noteq> None) = is_killed k \<and>
      audit_replay ARMED (actions k) = Some (ks_state k) \<and> ks_state k \<noteq> DISABLED \<and>
      count_list (actions k) A_TRIGGERED = ks_total_triggers k \<and>
      count_list (actions k) A_RESET = ks_total_resets k \<and>
      calls = (if ks_has_callback k then trail_calls k else [])"
  using ks_run_inv [of cfg cb es] by (auto simp: ks_inv_def split: prod.splits)

text \<open>Rejects trigger exactly when the window fills: reporting rejects at non-decreasing times to an armed switch
  with an empty history triggers within the sequence if and only if some reject has at least
  \<open>max_reject_count\<close> rejects (itself included) no older than \<open>now - reject_window_sec\<close>, counted over
  the whole history although the code only keeps the recent part.\<close>

theorem rejects_trigger_iff_window_full:
  assumes "ks_state k = ARMED" "ks_reject_times k = []" "sorted ts"
  shows "snd (reject_run k ts rd) = (\<exists>i < length ts. kc_max_reject_count (ks_config k) \<le>
     int (window_count (kc_reject_window_sec (ks_config k)) (take (Suc i) ts) (ts ! i)))"
proof (cases ts)
  case (Cons t ts')
  then show ?thesis
    using reject_run_window [of k t "[]" ts rd] assms by simp
qed simp

lemma rejects_trigger_iff_window_full_witness:
  "\<not> snd (reject_run (ks_init None True) [1, 30, 50, 60, 120] sample_reading) \<and>
   snd (reject_run (ks_init None True) [1, 30, 50, 60, 61] sample_reading)"
proof -
  let ?k = "ks_init None True"
  have a: "ks_state ?k = ARMED" "ks_reject_times ?k = []" "kc_max_reject_count (ks_config ?k) = 5"
     "kc_reject_window_sec (ks_config ?k) = 60"
    by (simp_all add: ks_init_def default_ks_config_def)
  have f: "fsub 61 60 = 1" "fsub 120 60 = 60" "fsub 60 60 = 0" "fsub 50 60 = -10" "fsub 30 60 = - 30" "fsub 1 60 = - 59"
    by code_simp+
  have "\<not> 5 \<le> int (window_count 60 (take (Suc i) [1, 30, 50, 60, 120]) ([1, 30, 50, 60, 120] ! i))" if "i < 5" for i
  proof -
    from that have "i \<in> {0, 1, 2, 3, 4}" by auto
    then show ?thesis by (auto simp: window_count_def f)
  qed
  moreover have "5 \<le> int (window_count 60 (take (Suc 4) [1, 30, 50, 60, 61]) ([1, 30, 50, 60, 61] ! 4))"
    by (simp add: window_count_def f)
  ultimately show ?thesis
    using rejects_trigger_iff_window_full [OF a(1,2), of "[1, 30, 50, 60, 120]" sample_reading]
      rejects_trigger_iff_window_full [OF a(1,2), of "[1, 30, 50, 60, 61]" sample_reading] a
    by (auto intro!: exI [of _ 4])
qed

text \<open>A reset does not forget the last heartbeat: if the heartbeat is overdue at the next timeout check, the freshly
  reset switch triggers again at once for the disconnect.\<close>

theorem reset_keeps_overdue_heartbeat:
  assumes "is_killed k" "ks_last_ws_heartbeat k = Some hb" "kc_ws_disconnect_timeout_sec (ks_config k) < fsub now hb"
  shows "let k1 = fst (ks_reset k op r rd1); (k2, b, calls) = check_ws_timeout k1 now rd2
    in is_armed k1 \<and> b \<and> is_killed k2 \<and> ks_trigger_reason k2 = Some TR_WS_DISCONNECT"
  using assms by (auto simp: ks_reset_def is_killed_def is_armed_def check_ws_timeout_def trigger_def Let_def)

lemma reset_keeps_overdue_heartbeat_witness:
  "is_killed (fst (check_ws_timeout (fst (ks_reset (fst (trigger (on_ws_heartbeat (ks_init None False) 1) TR_MANUAL None
     sample_reading)) ''ops'' [] sample_reading)) 9 sample_reading))"
proof -
  let ?k = "fst (trigger (on_ws_heartbeat (ks_init None False) 1) TR_MANUAL None sample_reading)"
  have f: "fsub 9 1 = 8" by code_simp
  have "is_killed ?k" "ks_last_ws_heartbeat ?k = Some 1" "kc_ws_disconnect_timeout_sec (ks_config ?k) < fsub 9 1"
    by (simp_all add: trigger_def on_ws_heartbeat_def ks_init_def is_killed_def default_ks_config_def Let_def f)
  from reset_keeps_overdue_heartbeat [OF this, of "''ops''" "[]" sample_reading sample_reading] show ?thesis
    by (auto simp: Let_def split: prod.splits)
qed

end
