(* ===== verification/Lifecycle.thy ===== *)
theory Lifecycle
  imports Machines Ids
begin

text \<open>
  The order lifecycle (quantgambit/core/lifecycle.py): the state machine of one order and the
  manager that tracks orders under three indexes.  The manager owns its orders, so an order
  that the source shares by reference is the entry of the manager's dictionary here, and a
  direct call of \<open>transition\<close> on a tracked order is the operation \<open>transition_order\<close>.  A Python
  set of order ids is a list without duplicates.
\<close>

section \<open>Data\<close>

datatype order_state =
  NEW | SENT | ACKED | PARTIAL | FILLED | REJECTED | CANCEL_REQUESTED | CANCELED | FAILED | EXPIRED

fun order_state_value :: "order_state \<Rightarrow> string" where
  "order_state_value NEW = ''new''"
| "order_state_value SENT = ''sent''"
| "order_state_value ACKED = ''acked''"
| "order_state_value PARTIAL = ''partial''"
| "order_state_value FILLED = ''filled''"
| "order_state_value REJECTED = ''rejected''"
| "order_state_value CANCEL_REQUESTED = ''cancel_requested''"
| "order_state_value CANCELED = ''canceled''"
| "order_state_value FAILED = ''failed''"
| "order_state_value EXPIRED = ''expired''"

fun valid_transitions :: "order_state \<Rightarrow> order_state list" where
  "valid_transitions NEW = [SENT, CANCELED]"
| "valid_transitions SENT = [ACKED, REJECTED, FILLED, PARTIAL, CANCELED, EXPIRED]"
| "valid_transitions ACKED = [PARTIAL, FILLED, CANCEL_REQUESTED, CANCELED, EXPIRED]"
| "valid_transitions PARTIAL = [PARTIAL, FILLED, CANCEL_REQUESTED, CANCELED, EXPIRED]"
| "valid_transitions CANCEL_REQUESTED = [CANCELED, FILLED, PARTIAL, FAILED, EXPIRED]"
| "valid_transitions FILLED = []"
| "valid_transitions REJECTED = []"
| "valid_transitions CANCELED = []"
| "valid_transitions FAILED = []"
| "valid_transitions EXPIRED = []"

definition terminal_states :: "order_state list" where
  "terminal_states = [FILLED, REJECTED, CANCELED, FAILED, EXPIRED]"

definition live_states :: "order_state list" where
  "live_states = [SENT, ACKED, PARTIAL, CANCEL_REQUESTED]"

record order_transition =
  tr_from :: order_state
  tr_to :: order_state
  tr_ts_mono :: pyfloat
  tr_ts_wall :: pyfloat
  tr_reason :: "string option"
  tr_exchange_data :: "details option"

record managed_order =
  mo_identity :: intent_identity
  mo_symbol :: string
  mo_side :: string
  mo_qty :: pyfloat
  mo_order_type :: string
  mo_price :: "pyfloat option"
  mo_reduce_only :: bool
  mo_state :: order_state
  mo_exchange_order_id :: "string option"
  mo_filled_qty :: pyfloat
  mo_avg_fill_price :: "pyfloat option"
  mo_fees :: pyfloat
  mo_transitions :: "order_transition list"
  mo_created_at_mono :: pyfloat
  mo_created_at_wall :: pyfloat
  mo_sent_at_mono :: "pyfloat option"
  mo_acked_at_mono :: "pyfloat option"
  mo_first_fill_at_mono :: "pyfloat option"
  mo_terminal_at_mono :: "pyfloat option"

text \<open>The constructor with the defaults; \<open>__post_init__\<close> stamps an order whose creation time is 0.\<close>

definition mk_order ::
  "intent_identity \<Rightarrow> string \<Rightarrow> string \<Rightarrow> pyfloat \<Rightarrow> string \<Rightarrow> pyfloat option \<Rightarrow> bool \<Rightarrow> pyfloat \<Rightarrow> pyfloat \<Rightarrow>
     pyfloat \<Rightarrow> pyfloat \<Rightarrow> managed_order" where
  "mk_order ident sy sd q ty p ro created_mono created_wall now_mono now_wall =
     (let stamp = (created_mono = 0)
      in \<lparr>mo_identity = ident, mo_symbol = sy, mo_side = sd, mo_qty = q, mo_order_type = ty, mo_price = p,
          mo_reduce_only = ro, mo_state = NEW, mo_exchange_order_id = None, mo_filled_qty = 0,
          mo_avg_fill_price = None, mo_fees = 0, mo_transitions = [],
          mo_created_at_mono = (if stamp then now_mono else created_mono),
          mo_created_at_wall = (if stamp then now_wall else created_wall),
          mo_sent_at_mono = None, mo_acked_at_mono = None, mo_first_fill_at_mono = None,
          mo_terminal_at_mono = None\<rparr>)"

section \<open>One order\<close>

definition can_transition :: "managed_order \<Rightarrow> order_state \<Rightarrow> bool" where
  "can_transition o' st = (st \<in> set (valid_transitions (mo_state o')))"

definition transition ::
  "managed_order \<Rightarrow> order_state \<Rightarrow> pyfloat \<Rightarrow> pyfloat \<Rightarrow> string option \<Rightarrow> details option \<Rightarrow> managed_order \<times> bool" where
  "transition o' st ts_mono ts_wall reason exdata =
     (if \<not> can_transition o' st then (o', False)
      else
     (let tr = \<lparr>tr_from = mo_state o', tr_to = st, tr_ts_mono = ts_mono, tr_ts_wall = ts_wall,
            tr_reason = reason, tr_exchange_data = exdata\<rparr>;
          o1 = o'\<lparr>mo_transitions := mo_transitions o' @ [tr], mo_state := st\<rparr>;
          o2 = (if st = SENT then o1\<lparr>mo_sent_at_mono := Some ts_mono\<rparr>
                else if st = ACKED then o1\<lparr>mo_acked_at_mono := Some ts_mono\<rparr>
                else if st \<in> {PARTIAL, FILLED} then
                  (if mo_first_fill_at_mono o1 = None then o1\<lparr>mo_first_fill_at_mono := Some ts_mono\<rparr> else o1)
                else o1);
          o3 = (if st \<in> set terminal_states then o2\<lparr>mo_terminal_at_mono := Some ts_mono\<rparr> else o2)
      in (o3, True)))"

definition update_fill :: "managed_order \<Rightarrow> pyfloat \<Rightarrow> pyfloat \<Rightarrow> pyfloat \<Rightarrow> managed_order \<times> bool" where
  "update_fill o' filled avg fees =
     (if filled < mo_filled_qty o' then (o', False)
      else if mo_qty o' < filled then (o', False)
      else (o'\<lparr>mo_filled_qty := filled, mo_avg_fill_price := Some avg, mo_fees := fees\<rparr>, True))"

definition is_terminal :: "managed_order \<Rightarrow> bool" where
  "is_terminal o' = (mo_state o' \<in> set terminal_states)"

definition is_live :: "managed_order \<Rightarrow> bool" where
  "is_live o' = (mo_state o' \<in> set live_states)"

definition is_filled :: "managed_order \<Rightarrow> bool" where
  "is_filled o' = (mo_state o' = FILLED)"

definition is_canceled :: "managed_order \<Rightarrow> bool" where
  "is_canceled o' = (mo_state o' = CANCELED)"

definition remaining_qty :: "managed_order \<Rightarrow> pyfloat" where
  "remaining_qty o' = fsub (mo_qty o') (mo_filled_qty o')"

definition fill_pct :: "managed_order \<Rightarrow> pyfloat" where
  "fill_pct o' = (if mo_qty o' = 0 then 0 else fmul (fl (mo_filled_qty o' / mo_qty o')) 100)"

definition latency_ms :: "pyfloat option \<Rightarrow> pyfloat option \<Rightarrow> pyfloat option" where
  "latency_ms from till = (case (from, till) of (Some a, Some b) \<Rightarrow> Some (fmul (fsub b a) 1000) | _ \<Rightarrow> None)"

definition latency_to_ack_ms :: "managed_order \<Rightarrow> pyfloat option" where
  "latency_to_ack_ms o' = latency_ms (mo_sent_at_mono o') (mo_acked_at_mono o')"

definition latency_to_first_fill_ms :: "managed_order \<Rightarrow> pyfloat option" where
  "latency_to_first_fill_ms o' = latency_ms (mo_sent_at_mono o') (mo_first_fill_at_mono o')"

definition latency_to_terminal_ms :: "managed_order \<Rightarrow> pyfloat option" where
  "latency_to_terminal_ms o' = latency_ms (mo_sent_at_mono o') (mo_terminal_at_mono o')"

section \<open>The manager\<close>

record lifecycle_manager =
  lm_orders :: "(string, managed_order) dict"
  lm_by_exchange_id :: "(string, string) dict"
  lm_by_intent_id :: "(string, string list) dict"
  lm_by_symbol :: "(string, string list) dict"

definition lm_init :: lifecycle_manager where
  "lm_init = \<lparr>lm_orders = [], lm_by_exchange_id = [], lm_by_intent_id = [], lm_by_symbol = []\<rparr>"

abbreviation coid_of :: "managed_order \<Rightarrow> string" where
  "coid_of o' \<equiv> id_client_order_id (mo_identity o')"

abbreviation intent_of :: "managed_order \<Rightarrow> string" where
  "intent_of o' \<equiv> id_intent_id (mo_identity o')"

definition register :: "lifecycle_manager \<Rightarrow> managed_order \<Rightarrow> py_error + lifecycle_manager" where
  "register m o' =
     (let coid = coid_of o'
      in if d_has (lm_orders m) coid then Inl (ValueError (''Order '' @ coid @ '' already registered''))
         else Inr (m\<lparr>lm_orders := d_put (lm_orders m) coid o',
           lm_by_intent_id := d_put (lm_by_intent_id m) (intent_of o')
             (d_get_or (lm_by_intent_id m) (intent_of o') [] @ [coid]),
           lm_by_symbol := d_put (lm_by_symbol m) (mo_symbol o')
             (List.insert coid (d_get_or (lm_by_symbol m) (mo_symbol o') []))\<rparr>))"

definition get_by_client_order_id :: "lifecycle_manager \<Rightarrow> string \<Rightarrow> managed_order option" where
  "get_by_client_order_id m c = d_get (lm_orders m) c"

text \<open>The key under which \<open>get_by_exchange_id\<close> finds the order; an empty id counts as absent.\<close>

definition find_exchange_id :: "lifecycle_manager \<Rightarrow> string \<Rightarrow> string option" where
  "find_exchange_id m e = (case d_get (lm_by_exchange_id m) e of
       None \<Rightarrow> None
     | Some coid \<Rightarrow> if coid = [] then None else if d_has (lm_orders m) coid then Some coid else None)"

definition get_by_exchange_id :: "lifecycle_manager \<Rightarrow> string \<Rightarrow> managed_order option" where
  "get_by_exchange_id m e = (case find_exchange_id m e of None \<Rightarrow> None | Some coid \<Rightarrow> d_get (lm_orders m) coid)"

definition get_by_intent_id :: "lifecycle_manager \<Rightarrow> string \<Rightarrow> managed_order list" where
  "get_by_intent_id m i = List.map_filter (d_get (lm_orders m)) (d_get_or (lm_by_intent_id m) i [])"

definition get_orders_for_symbol :: "lifecycle_manager \<Rightarrow> string \<Rightarrow> managed_order list" where
  "get_orders_for_symbol m sy = List.map_filter (d_get (lm_orders m)) (d_get_or (lm_by_symbol m) sy [])"

definition get_live_orders :: "lifecycle_manager \<Rightarrow> string option \<Rightarrow> managed_order list" where
  "get_live_orders m sy = (if s_truthy sy then filter is_live (get_orders_for_symbol m (the sy))
     else filter is_live (d_vals (lm_orders m)))"

definition set_order :: "lifecycle_manager \<Rightarrow> string \<Rightarrow> managed_order \<Rightarrow> lifecycle_manager" where
  "set_order m coid o' = m\<lparr>lm_orders := d_put (lm_orders m) coid o'\<rparr>"

definition transition_order ::
  "lifecycle_manager \<Rightarrow> string \<Rightarrow> order_state \<Rightarrow> pyfloat \<Rightarrow> pyfloat \<Rightarrow> string option \<Rightarrow> details option \<Rightarrow>
     lifecycle_manager \<times> bool" where
  "transition_order m coid st tm tw reason exdata = (case d_get (lm_orders m) coid of
       None \<Rightarrow> (m, False)
     | Some o' \<Rightarrow> (case transition o' st tm tw reason exdata of (o1, ok) \<Rightarrow> (set_order m coid o1, ok)))"

definition process_ack ::
  "lifecycle_manager \<Rightarrow> string \<Rightarrow> string \<Rightarrow> details option \<Rightarrow> pyfloat \<Rightarrow> pyfloat \<Rightarrow>
     lifecycle_manager \<times> managed_order option" where
  "process_ack m coid exid exdata tm tw = (case d_get (lm_orders m) coid of
       None \<Rightarrow> (m, None)
     | Some o' \<Rightarrow>
         (let (o1, ok) = transition (o'\<lparr>mo_exchange_order_id := Some exid\<rparr>) ACKED tm tw (Some ''exchange_ack'') exdata
          in ((set_order m coid o1)\<lparr>lm_by_exchange_id := d_put (lm_by_exchange_id m) exid coid\<rparr>, Some o1)))"

text \<open>The lookup by either id that \<open>process_fill\<close> and \<open>process_cancel\<close> share, as the order's key.\<close>

definition find_order :: "lifecycle_manager \<Rightarrow> string option \<Rightarrow> string option \<Rightarrow> string option" where
  "find_order m coid exid =
     (let byclient = (if s_truthy coid \<and> d_has (lm_orders m) (the coid) then coid else None)
      in if byclient = None \<and> s_truthy exid then find_exchange_id m (the exid) else byclient)"

definition process_fill ::
  "lifecycle_manager \<Rightarrow> string option \<Rightarrow> string option \<Rightarrow> pyfloat \<Rightarrow> pyfloat \<Rightarrow> pyfloat \<Rightarrow> bool \<Rightarrow> details option \<Rightarrow>
     pyfloat \<Rightarrow> pyfloat \<Rightarrow> lifecycle_manager \<times> managed_order option" where
  "process_fill m coid exid filled avg fees is_complete exdata tm tw =
     (case find_order m coid exid of
        None \<Rightarrow> (m, None)
      | Some c \<Rightarrow>
     (case d_get (lm_orders m) c of
        None \<Rightarrow> (m, None)
      | Some o' \<Rightarrow>
     (let (o1, ok) = update_fill o' filled avg fees
      in if \<not> ok then (m, None)
         else let new_state = (if is_complete \<or> mo_qty o1 \<le> filled then FILLED else PARTIAL);
                  (o2, ok2) = transition o1 new_state tm tw (Some ''fill'') exdata
              in (set_order m c o2, Some o2))))"

definition process_reject ::
  "lifecycle_manager \<Rightarrow> string \<Rightarrow> string \<Rightarrow> details option \<Rightarrow> pyfloat \<Rightarrow> pyfloat \<Rightarrow>
     lifecycle_manager \<times> managed_order option" where
  "process_reject m coid reason exdata tm tw = (case d_get (lm_orders m) coid of
       None \<Rightarrow> (m, None)
     | Some o' \<Rightarrow> (let (o1, ok) = transition o' REJECTED tm tw (Some reason) exdata
                  in (set_order m coid o1, Some o1)))"

definition process_cancel ::
  "lifecycle_manager \<Rightarrow> string option \<Rightarrow> string option \<Rightarrow> string \<Rightarrow> details option \<Rightarrow> pyfloat \<Rightarrow> pyfloat \<Rightarrow>
     lifecycle_manager \<times> managed_order option" where
  "process_cancel m coid exid reason exdata tm tw =
     (case find_order m coid exid of
        None \<Rightarrow> (m, None)
      | Some c \<Rightarrow>
     (case d_get (lm_orders m) c of
        None \<Rightarrow> (m, None)
      | Some o' \<Rightarrow> (let (o1, ok) = transition o' CANCELED tm tw (Some reason) exdata
                   in (set_order m c o1, Some o1))))"

definition request_cancel ::
  "lifecycle_manager \<Rightarrow> string \<Rightarrow> pyfloat \<Rightarrow> pyfloat \<Rightarrow> lifecycle_manager \<times> managed_order option" where
  "request_cancel m coid tm tw = (case d_get (lm_orders m) coid of
       None \<Rightarrow> (m, None)
     | Some o' \<Rightarrow> (let (o1, ok) = transition o' CANCEL_REQUESTED tm tw None None
                  in if ok then (set_order m coid o1, Some o1) else (m, None)))"

definition expired_terminal :: "pyfloat \<Rightarrow> managed_order \<Rightarrow> bool" where
  "expired_terminal cutoff o' = (is_terminal o' \<and>
     (case mo_terminal_at_mono o' of None \<Rightarrow> False | Some t \<Rightarrow> t \<noteq> 0 \<and> t < cutoff))"

definition remove_order :: "string \<Rightarrow> lifecycle_manager \<Rightarrow> lifecycle_manager" where
  "remove_order coid m = (case d_get (lm_orders m) coid of
       None \<Rightarrow> m
     | Some o' \<Rightarrow>
         (let intents = lm_by_intent_id m; i = intent_of o'; left = filter (\<lambda>c. c \<noteq> coid) (d_get_or intents i []);
              symbols = lm_by_symbol m; sy = mo_symbol o'
          in m\<lparr>lm_orders := d_pop (lm_orders m) coid,
               lm_by_exchange_id := (if s_truthy (mo_exchange_order_id o')
                 then d_pop (lm_by_exchange_id m) (the (mo_exchange_order_id o')) else lm_by_exchange_id m),
               lm_by_intent_id := (if d_has intents i
                 then (if left = [] then d_pop intents i else d_put intents i left) else intents),
               lm_by_symbol := (if d_has symbols sy
                 then d_put symbols sy (filter (\<lambda>c. c \<noteq> coid) (d_get_or symbols sy [])) else symbols)\<rparr>))"

definition cleanup_terminal :: "lifecycle_manager \<Rightarrow> pyfloat \<Rightarrow> pyfloat \<Rightarrow> lifecycle_manager \<times> nat" where
  "cleanup_terminal m max_age now =
     (let cutoff = fsub now max_age;
          to_remove = [coid. (coid, o') \<leftarrow> lm_orders m, expired_terminal cutoff o']
      in (fold remove_order to_remove m, length to_remove))"

fun count_states :: "managed_order list \<Rightarrow> (order_state, nat) dict \<Rightarrow> (order_state, nat) dict" where
  "count_states [] d = d"
| "count_states (o' # os) d = count_states os (d_incr d (mo_state o'))"

record lifecycle_stats =
  ls_total_orders :: nat
  ls_by_state :: "(order_state, nat) dict"
  ls_unique_intents :: nat
  ls_symbols_tracked :: nat

definition lm_stats :: "lifecycle_manager \<Rightarrow> lifecycle_stats" where
  "lm_stats m = \<lparr>ls_total_orders = length (lm_orders m), ls_by_state = count_states (d_vals (lm_orders m)) [],
     ls_unique_intents = length (lm_by_intent_id m), ls_symbols_tracked = length (lm_by_symbol m)\<rparr>"

section \<open>The invariant of one order\<close>

text \<open>The history replays the transition table from \<open>NEW\<close> to the current state.\<close>

fun replay :: "order_state \<Rightarrow> order_transition list \<Rightarrow> order_state option" where
  "replay st [] = Some st"
| "replay st (t # ts) = (if tr_from t = st \<and> tr_to t \<in> set (valid_transitions st) then replay (tr_to t) ts else None)"

definition order_inv :: "managed_order \<Rightarrow> bool" where
  "order_inv o' = (0 \<le> mo_filled_qty o' \<and> mo_filled_qty o' \<le> mo_qty o' \<and>
     replay NEW (mo_transitions o') = Some (mo_state o') \<and>
     (is_terminal o' \<longleftrightarrow> mo_terminal_at_mono o' \<noteq> None))"

definition fresh_order :: "managed_order \<Rightarrow> bool" where
  "fresh_order o' = (mo_state o' = NEW \<and> mo_filled_qty o' = 0 \<and> 0 \<le> mo_qty o' \<and> mo_transitions o' = [] \<and>
     mo_terminal_at_mono o' = None)"

lemma replay_snoc:
  "replay st (ts @ [t]) = (case replay st ts of None \<Rightarrow> None
     | Some st' \<Rightarrow> if tr_from t = st' \<and> tr_to t \<in> set (valid_transitions st') then Some (tr_to t) else None)"
  by (induction st ts rule: replay.induct) auto

lemma terminal_no_transition: "st \<in> set (valid_transitions q) \<Longrightarrow> q \<notin> set terminal_states"
  by (cases q) (auto simp: terminal_states_def)

lemma transition_frame:
  "transition o' st tm tw r x = (o1, ok) \<Longrightarrow> mo_identity o1 = mo_identity o' \<and> mo_symbol o1 = mo_symbol o' \<and>
     mo_qty o1 = mo_qty o' \<and> mo_filled_qty o1 = mo_filled_qty o' \<and> mo_exchange_order_id o1 = mo_exchange_order_id o' \<and>
     (ok \<longleftrightarrow> can_transition o' st) \<and> mo_state o1 = (if ok then st else mo_state o') \<and> (\<not> ok \<longrightarrow> o1 = o')"
  by (auto simp: transition_def Let_def split: if_splits)

lemma transition_inv:
  assumes "order_inv o'" "transition o' st tm tw r x = (o1, ok)"
  shows "order_inv o1"
proof (cases "can_transition o' st")
  case False
  with assms show ?thesis by (simp add: transition_def)
next
  case True
  then have v: "st \<in> set (valid_transitions (mo_state o'))" by (simp add: can_transition_def)
  with terminal_no_transition have n: "\<not> is_terminal o'" by (auto simp: is_terminal_def)
  have "mo_transitions o1 = mo_transitions o' @ [\<lparr>tr_from = mo_state o', tr_to = st, tr_ts_mono = tm, tr_ts_wall = tw,
      tr_reason = r, tr_exchange_data = x\<rparr>]" "mo_state o1 = st"
    "mo_terminal_at_mono o1 = (if st \<in> set terminal_states then Some tm else mo_terminal_at_mono o')"
    using assms(2) True by (auto simp: transition_def Let_def split: if_splits)
  with assms v n transition_frame [OF assms(2)] show ?thesis
    by (auto simp: order_inv_def replay_snoc is_terminal_def)
qed

lemma update_fill_inv:
  assumes "order_inv o'" "update_fill o' f a fe = (o1, ok)"
  shows "order_inv o1 \<and> mo_identity o1 = mo_identity o' \<and> mo_symbol o1 = mo_symbol o' \<and> mo_state o1 = mo_state o' \<and>
    mo_qty o1 = mo_qty o' \<and> mo_exchange_order_id o1 = mo_exchange_order_id o' \<and> mo_filled_qty o' \<le> mo_filled_qty o1"
  using assms by (auto simp: update_fill_def order_inv_def is_terminal_def split: if_splits)

section \<open>The invariant of the manager\<close>

text \<open>The two grouping indexes list, without duplicates, exactly the tracked orders of the group.\<close>

definition group_ok :: "('g, string list) dict \<Rightarrow> (string, managed_order) dict \<Rightarrow> (managed_order \<Rightarrow> 'g) \<Rightarrow> bool" where
  "group_ok ix os f = (d_wf ix \<and> (\<forall>g. distinct (d_get_or ix g []) \<and>
     (\<forall>c. c \<in> set (d_get_or ix g []) \<longleftrightarrow> (\<exists>o'. d_get os c = Some o' \<and> f o' = g))))"

definition lm_inv :: "lifecycle_manager \<Rightarrow> bool" where
  "lm_inv m = (d_wf (lm_orders m) \<and> d_wf (lm_by_exchange_id m) \<and>
     (\<forall>c o'. d_get (lm_orders m) c = Some o' \<longrightarrow> coid_of o' = c \<and> order_inv o') \<and>
     group_ok (lm_by_intent_id m) (lm_orders m) intent_of \<and>
     group_ok (lm_by_symbol m) (lm_orders m) mo_symbol)"

lemma group_ok_same:
  "group_ok ix os f \<Longrightarrow> d_get os c = Some o' \<Longrightarrow> f o1 = f o' \<Longrightarrow> group_ok ix (d_put os c o1) f"
  by (auto simp: group_ok_def)

lemma group_ok_insert:
  assumes "group_ok ix os f" "d_get os c = None" "set l = insert c (set (d_get_or ix (f o') []))" "distinct l"
  shows "group_ok (d_put ix (f o') l) (d_put os c o') f"
  using assms by (auto simp: group_ok_def)

lemma group_ok_remove:
  assumes g: "group_ok ix os f" and os: "d_wf os" "d_get os c = Some o'"
    and ix': "d_wf ix'" "\<And>g. d_get_or ix' g [] = (if g = f o' then filter (\<lambda>x. x \<noteq> c) (d_get_or ix g []) else d_get_or ix g [])"
  shows "group_ok ix' (d_pop os c) f"
  using g os ix' by (auto simp: group_ok_def)

lemma set_order_inv:
  assumes "lm_inv m" "d_get (lm_orders m) c = Some o'" "order_inv o1"
    "mo_identity o1 = mo_identity o'" "mo_symbol o1 = mo_symbol o'"
  shows "lm_inv (set_order m c o1)"
  using assms group_ok_same by (fastforce simp: lm_inv_def set_order_def)

lemma exchange_index_inv: "lm_inv m \<Longrightarrow> lm_inv (m\<lparr>lm_by_exchange_id := d_put (lm_by_exchange_id m) e c\<rparr>)"
  by (simp add: lm_inv_def)

lemma remove_order_inv:
  assumes "lm_inv m"
  shows "lm_inv (remove_order c m)"
proof (cases "d_get (lm_orders m) c")
  case None
  with assms show ?thesis by (simp add: remove_order_def)
next
  case (Some o')
  from assms have d: "d_wf (lm_orders m)" and gi: "group_ok (lm_by_intent_id m) (lm_orders m) intent_of"
    and gs: "group_ok (lm_by_symbol m) (lm_orders m) mo_symbol" by (auto simp: lm_inv_def)
  from gi gs have w: "d_wf (lm_by_intent_id m)" "d_wf (lm_by_symbol m)" by (auto simp: group_ok_def)
  let ?m = "remove_order c m"
  have o: "lm_orders ?m = d_pop (lm_orders m) c" using Some by (simp add: remove_order_def Let_def)
  have "group_ok (lm_by_intent_id ?m) (d_pop (lm_orders m) c) intent_of"
    by (rule group_ok_remove [OF gi d Some])
      (use Some w in \<open>auto simp: remove_order_def Let_def d_has_def d_get_or_def filter_empty_conv split: option.splits\<close>)
  moreover have "group_ok (lm_by_symbol ?m) (d_pop (lm_orders m) c) mo_symbol"
    by (rule group_ok_remove [OF gs d Some])
      (use Some w in \<open>auto simp: remove_order_def Let_def d_has_def d_get_or_def split: option.splits\<close>)
  moreover have "d_wf (lm_by_exchange_id ?m)" using assms Some by (auto simp: remove_order_def Let_def lm_inv_def)
  ultimately show ?thesis using assms d by (auto simp: lm_inv_def o)
qed

lemma remove_orders_inv: "lm_inv m \<Longrightarrow> lm_inv (fold remove_order cs m)"
  by (induction cs arbitrary: m) (auto intro: remove_order_inv)

lemma register_inv:
  assumes "lm_inv m" "fresh_order o'" "register m o' = Inr m'"
  shows "lm_inv m'"
proof -
  from assms(3) have n: "d_get (lm_orders m) (coid_of o') = None" and m': "m' = m\<lparr>lm_orders := d_put (lm_orders m) (coid_of o') o',
           lm_by_intent_id := d_put (lm_by_intent_id m) (intent_of o')
             (d_get_or (lm_by_intent_id m) (intent_of o') [] @ [coid_of o']),
           lm_by_symbol := d_put (lm_by_symbol m) (mo_symbol o')
             (List.insert (coid_of o') (d_get_or (lm_by_symbol m) (mo_symbol o') []))\<rparr>"
    by (auto simp: register_def Let_def d_has_def split: if_splits)
  from assms(2) have "order_inv o'" by (simp add: fresh_order_def order_inv_def is_terminal_def terminal_states_def)
  moreover from assms(1) have gi: "group_ok (lm_by_intent_id m) (lm_orders m) intent_of"
    and gs: "group_ok (lm_by_symbol m) (lm_orders m) mo_symbol" by (auto simp: lm_inv_def)
  moreover have "coid_of o' \<notin> set (d_get_or (lm_by_intent_id m) (intent_of o') [])" "distinct (d_get_or (lm_by_intent_id m) (intent_of o') [])"
    "distinct (d_get_or (lm_by_symbol m) (mo_symbol o') [])"
    using gi gs n by (auto simp: group_ok_def)
  ultimately show ?thesis using assms(1) n unfolding m'
    by (auto simp: lm_inv_def intro!: group_ok_insert)
qed

section \<open>Runs\<close>

datatype lc_event =
    LRegister managed_order
  | LTransition string order_state pyfloat pyfloat "string option"
  | LAck string string "details option" pyfloat pyfloat
  | LFill "string option" "string option" pyfloat pyfloat pyfloat bool "details option" pyfloat pyfloat
  | LReject string string "details option" pyfloat pyfloat
  | LCancel "string option" "string option" string "details option" pyfloat pyfloat
  | LRequestCancel string pyfloat pyfloat
  | LCleanup pyfloat pyfloat

fun lc_step :: "lifecycle_manager \<Rightarrow> lc_event \<Rightarrow> lifecycle_manager" where
  "lc_step m (LRegister o') = (case register m o' of Inl e \<Rightarrow> m | Inr m' \<Rightarrow> m')"
| "lc_step m (LTransition c st tm tw r) = fst (transition_order m c st tm tw r None)"
| "lc_step m (LAck c e x tm tw) = fst (process_ack m c e x tm tw)"
| "lc_step m (LFill c e f a fe done x tm tw) = fst (process_fill m c e f a fe done x tm tw)"
| "lc_step m (LReject c r x tm tw) = fst (process_reject m c r x tm tw)"
| "lc_step m (LCancel c e r x tm tw) = fst (process_cancel m c e r x tm tw)"
| "lc_step m (LRequestCancel c tm tw) = fst (request_cancel m c tm tw)"
| "lc_step m (LCleanup age now) = fst (cleanup_terminal m age now)"

text \<open>Registered orders are newly built ones.\<close>

fun registers_fresh :: "lc_event \<Rightarrow> bool" where
  "registers_fresh (LRegister o') = fresh_order o'"
| "registers_fresh _ = True"

fun is_cleanup :: "lc_event \<Rightarrow> bool" where
  "is_cleanup (LCleanup age now) = True"
| "is_cleanup _ = False"

text \<open>
  Every operation but registration and cleanup touches_one at most one order, through fills and
  transitions.  The relation between an order before and after it:
\<close>

definition order_next :: "managed_order \<Rightarrow> managed_order \<Rightarrow> bool" where
  "order_next o' o1 = (mo_identity o1 = mo_identity o' \<and> mo_symbol o1 = mo_symbol o' \<and> mo_qty o1 = mo_qty o' \<and>
     mo_filled_qty o' \<le> mo_filled_qty o1 \<and> (is_terminal o' \<longrightarrow> mo_state o1 = mo_state o') \<and>
     (order_inv o' \<longrightarrow> order_inv o1))"

lemma order_next_refl [simp]: "order_next o' o'"
  by (simp add: order_next_def)

lemma order_next_trans: "order_next o' o1 \<Longrightarrow> order_next o1 o2 \<Longrightarrow> order_next o' o2"
  by (auto simp: order_next_def is_terminal_def)

lemma order_next_transition: "transition o' st tm tw r x = (o1, ok) \<Longrightarrow> order_next o' o1"
  using transition_frame [of o' st tm tw r x o1 ok] transition_inv [of o' st tm tw r x o1 ok]
    terminal_no_transition [of st "mo_state o'"]
  by (auto simp: order_next_def is_terminal_def can_transition_def)

lemma order_next_fill: "update_fill o' f a fe = (o1, ok) \<Longrightarrow> order_next o' o1"
  by (auto simp: update_fill_def order_next_def order_inv_def is_terminal_def split: if_splits)

lemma order_next_exid: "order_next o' (o'\<lparr>mo_exchange_order_id := e\<rparr>)"
  by (simp add: order_next_def order_inv_def is_terminal_def)

fun touches_one :: "lc_event \<Rightarrow> bool" where
  "touches_one (LRegister o') = False"
| "touches_one (LCleanup age now) = False"
| "touches_one _ = True"

lemma step_touches_one:
  assumes "touches_one e"
  obtains (same) "lc_step m e = m"
  | (one) c o' o1 ix where "d_get (lm_orders m) c = Some o'" "order_next o' o1"
      "lc_step m e = (set_order m c o1)\<lparr>lm_by_exchange_id := ix\<rparr>" "d_wf (lm_by_exchange_id m) \<Longrightarrow> d_wf ix"
proof -
  have "lc_step m e = m \<or> (\<exists>c o' o1 ix. d_get (lm_orders m) c = Some o' \<and> order_next o' o1 \<and>
      lc_step m e = (set_order m c o1)\<lparr>lm_by_exchange_id := ix\<rparr> \<and> (d_wf (lm_by_exchange_id m) \<longrightarrow> d_wf ix))"
    (is "_ \<or> ?R")
  proof -
    have plain: ?R if "d_get (lm_orders m) c = Some o'" "order_next o' o1" "lc_step m e = set_order m c o1" for c o' o1
      by (rule exI [of _ c], rule exI [of _ o'], rule exI [of _ o1], rule exI [of _ "lm_by_exchange_id m"])
        (use that in \<open>simp add: set_order_def\<close>)
    show ?thesis
    proof (cases e)
      case (LTransition c st tm tw r)
      show ?thesis
        using LTransition plain order_next_transition
        by (simp add: transition_order_def split: option.splits prod.splits)
    next
      case (LAck c ex x tm tw)
      show ?thesis
      proof (cases "d_get (lm_orders m) c")
        case (Some o')
        obtain o1 ok where t: "transition (o'\<lparr>mo_exchange_order_id := Some ex\<rparr>) ACKED tm tw (Some ''exchange_ack'') x = (o1, ok)"
          by force
        have "order_next o' o1" using order_next_trans [OF order_next_exid order_next_transition [OF t]] .
        with Some t LAck show ?thesis
          by (intro disjI2 exI [of _ c] exI [of _ o'] exI [of _ o1] exI [of _ "d_put (lm_by_exchange_id m) ex c"])
            (simp add: process_ack_def)
      qed (use LAck in \<open>simp add: process_ack_def\<close>)
    next
      case (LFill c ex f a fe dn x tm tw)
      show ?thesis
      proof (cases "find_order m c ex")
        case (Some k)
        show ?thesis
        proof (cases "d_get (lm_orders m) k")
          case (Some o')
          obtain o1 ok where u: "update_fill o' f a fe = (o1, ok)" by force
          obtain o2 ok2 where t: "transition o1 (if dn \<or> mo_qty o1 \<le> f then FILLED else PARTIAL) tm tw (Some ''fill'') x = (o2, ok2)"
            by force
          have "order_next o' o2" using order_next_trans [OF order_next_fill [OF u] order_next_transition [OF t]] .
          with LFill \<open>find_order m c ex = Some k\<close> Some u t plain [OF Some] show ?thesis
            by (cases ok) (auto simp: process_fill_def Let_def)
        qed (use LFill Some in \<open>simp add: process_fill_def\<close>)
      qed (use LFill in \<open>simp add: process_fill_def\<close>)
    next
      case (LReject c r x tm tw)
      show ?thesis
        using LReject plain order_next_transition
        by (simp add: process_reject_def split: option.splits prod.splits)
    next
      case (LCancel c ex r x tm tw)
      show ?thesis
        using LCancel plain order_next_transition
        by (simp add: process_cancel_def split: option.splits prod.splits)
    next
      case (LRequestCancel c tm tw)
      show ?thesis
        using LRequestCancel plain order_next_transition
        by (simp add: request_cancel_def split: option.splits prod.splits)
    qed (use assms in simp_all)
  qed
  with that show thesis by blast
qed

lemma lc_step_inv: "lm_inv m \<Longrightarrow> registers_fresh e \<Longrightarrow> lm_inv (lc_step m e)"
proof (cases "touches_one e")
  case True
  assume i: "lm_inv m"
  from True show ?thesis
  proof (cases rule: step_touches_one [where m = m])
    case (one c o' o1 ix)
    from i one(1) have oi: "order_inv o'" by (auto simp: lm_inv_def)
    with one(2) have n: "order_inv o1" "mo_identity o1 = mo_identity o'" "mo_symbol o1 = mo_symbol o'"
      by (auto simp: order_next_def)
    have "lm_inv (set_order m c o1)" by (rule set_order_inv [OF i one(1) n])
    with one(4) i show ?thesis unfolding one(3) by (auto simp: lm_inv_def)
  qed (use i in simp)
next
  case False
  assume "lm_inv m" "registers_fresh e"
  with False show ?thesis
    by (cases e) (auto simp: cleanup_terminal_def Let_def intro: remove_orders_inv register_inv split: sum.splits)
qed

lemma register_keeps: "register m o' = Inr m' \<Longrightarrow> d_get (lm_orders m) c = Some o1 \<Longrightarrow> d_get (lm_orders m') c = Some o1"
  by (auto simp: register_def Let_def d_has_def split: if_splits)

text \<open>Between cleanups a tracked order stays tracked and only moves forward.\<close>

lemma lc_step_order:
  assumes "\<not> is_cleanup e" "d_get (lm_orders m) c = Some o'"
  shows "\<exists>o1. d_get (lm_orders (lc_step m e)) c = Some o1 \<and> order_next o' o1"
proof (cases "touches_one e")
  case True
  from True show ?thesis
  proof (cases rule: step_touches_one [where m = m])
    case (one c' o2 o3 ix)
    with assms(2) show ?thesis unfolding one(3) by (auto simp: set_order_def)
  qed (use assms in simp)
next
  case False
  with assms show ?thesis
    by (cases e) (auto split: sum.splits intro: register_keeps)
qed

interpretation lc: invariant_machine lc_step registers_fresh lm_inv
  by unfold_locales (rule lc_step_inv)

lemma order_next_terminal: "order_next o' o1 \<Longrightarrow> is_terminal o' \<Longrightarrow> is_terminal o1 \<and> mo_state o1 = mo_state o'"
  by (auto simp: order_next_def is_terminal_def)

interpretation lc_terminal: latch lc_step registers_fresh lm_inv
  "\<lambda>m. \<exists>o'. d_get (lm_orders m) c = Some o' \<and> is_terminal o'" is_cleanup
  "\<lambda>m. map_option mo_state (d_get (lm_orders m) c)" for c
  by unfold_locales (use lc_step_order order_next_terminal in fastforce)

definition filled_of :: "lifecycle_manager \<Rightarrow> string \<Rightarrow> pyfloat" where
  "filled_of m c = (case d_get (lm_orders m) c of None \<Rightarrow> 0 | Some o' \<Rightarrow> mo_filled_qty o')"

lemma filled_of_nonneg: "lm_inv m \<Longrightarrow> 0 \<le> filled_of m c"
  by (auto simp: filled_of_def lm_inv_def order_inv_def split: option.split)

interpretation lc_fill: monotone_machine lc_step registers_fresh lm_inv "\<lambda>m. filled_of m c" is_cleanup for c
proof
  fix m e assume i: "lm_inv m" "registers_fresh e" "\<not> is_cleanup e"
  show "filled_of m c \<le> filled_of (lc_step m e) c"
  proof (cases "d_get (lm_orders m) c")
    case None
    with filled_of_nonneg [OF lc_step_inv [OF i(1,2)], of c] show ?thesis by (simp add: filled_of_def)
  next
    case (Some o')
    from lc_step_order [OF i(3) Some] Some show ?thesis by (auto simp: filled_of_def order_next_def)
  qed
qed

definition lc_run :: "lc_event list \<Rightarrow> lifecycle_manager" where
  "lc_run es = foldl lc_step lm_init es"

lemma lm_init_inv: "lm_inv lm_init"
  by (simp add: lm_inv_def lm_init_def group_ok_def d_get_or_def)

lemma lc_run_inv: "list_all registers_fresh es \<Longrightarrow> lm_inv (lc_run es)"
  unfolding lc_run_def by (rule lc.run_inv [OF lm_init_inv])

lemma set_map_filter_get: "set (List.map_filter (d_get os) cs) = {o'. \<exists>c \<in> set cs. d_get os c = Some o'}"
  by (force simp: List.map_filter_def)

text \<open>Cleanup, order by order.\<close>

lemma remove_order_get:
  "lm_inv m \<Longrightarrow> d_get (lm_orders (remove_order c m)) c' = (if c' = c then None else d_get (lm_orders m) c')"
  by (auto simp: remove_order_def Let_def lm_inv_def split: option.split)

lemma remove_orders_get:
  "lm_inv m \<Longrightarrow> d_get (lm_orders (fold remove_order cs m)) c' = (if c' \<in> set cs then None else d_get (lm_orders m) c')"
  by (induction cs arbitrary: m) (auto simp: remove_order_get remove_order_inv)

section \<open>The index by exchange id\<close>

text \<open>What the index relies on: the exchange assigns each order one id of its own, and orders are registered under an id and without
  an exchange id.\<close>

fun exchange_assigns :: "(string \<Rightarrow> string) \<Rightarrow> lc_event \<Rightarrow> bool" where
  "exchange_assigns f (LAck c ex x tm tw) = (ex = f c)"
| "exchange_assigns f (LRegister o') = (coid_of o' \<noteq> [] \<and> mo_exchange_order_id o' = None)"
| "exchange_assigns f _ = True"

definition own_ids :: "(string \<Rightarrow> string) \<Rightarrow> bool" where
  "own_ids f = (inj f \<and> (\<forall>c. f c \<noteq> []))"

text \<open>The exchange id of an order, if it is tracked and if it has one; the index holds exactly these.\<close>

definition exid_of :: "lifecycle_manager \<Rightarrow> string \<Rightarrow> string option option" where
  "exid_of m c = map_option mo_exchange_order_id (d_get (lm_orders m) c)"

definition exid_ok :: "(string \<Rightarrow> string) \<Rightarrow> lifecycle_manager \<Rightarrow> bool" where
  "exid_ok f m = ((\<forall>c x. exid_of m c = Some (Some x) \<longrightarrow> x = f c) \<and> (\<forall>c. exid_of m c \<noteq> None \<longrightarrow> c \<noteq> []) \<and>
     (\<forall>x c. d_get (lm_by_exchange_id m) x = Some c \<longleftrightarrow> exid_of m c = Some (Some x)))"

lemma exid_set_order: "exid_of (set_order m c o1) c' = (if c' = c then Some (mo_exchange_order_id o1) else exid_of m c')"
  by (simp add: exid_of_def set_order_def)

lemma exid_index [simp]: "exid_of (m\<lparr>lm_by_exchange_id := ix\<rparr>) c = exid_of m c"
  by (simp add: exid_of_def)

lemma exid_set_same: "d_get (lm_orders m) c = Some o' \<Longrightarrow> mo_exchange_order_id o1 = mo_exchange_order_id o' \<Longrightarrow>
    exid_of (set_order m c o1) = exid_of m"
  by (rule ext) (simp add: exid_set_order, simp add: exid_of_def)

lemma set_order_index [simp]: "lm_by_exchange_id (set_order m c o1) = lm_by_exchange_id m"
  by (simp add: set_order_def)

lemma transition_exid: "transition o' st tm tw r x = (o1, ok) \<Longrightarrow> mo_exchange_order_id o1 = mo_exchange_order_id o'"
  by (drule transition_frame) simp

lemma update_fill_exid: "update_fill o' f a fe = (o1, ok) \<Longrightarrow> mo_exchange_order_id o1 = mo_exchange_order_id o'"
  by (auto simp: update_fill_def split: if_splits)

fun is_ack :: "lc_event \<Rightarrow> bool" where
  "is_ack (LAck c ex x tm tw) = True"
| "is_ack _ = False"

text \<open>Only acknowledgements, registrations and cleanups change exchange ids or their index.\<close>

lemma step_keeps_exids:
  assumes "touches_one e" "\<not> is_ack e"
  shows "lm_by_exchange_id (lc_step m e) = lm_by_exchange_id m \<and> exid_of (lc_step m e) = exid_of m"
proof (cases e)
  case (LTransition c st tm tw r)
  then show ?thesis
    by (auto simp: transition_order_def split: option.splits prod.splits dest!: transition_exid intro: exid_set_same)
next
  case (LFill c ex f a fe dn x tm tw)
  then show ?thesis
    by (auto simp: process_fill_def Let_def split: option.splits prod.splits dest!: transition_exid update_fill_exid
        intro!: exid_set_same)
next
  case (LReject c r x tm tw)
  then show ?thesis
    by (auto simp: process_reject_def split: option.splits prod.splits dest!: transition_exid intro: exid_set_same)
next
  case (LCancel c ex r x tm tw)
  then show ?thesis
    by (auto simp: process_cancel_def split: option.splits prod.splits dest!: transition_exid intro: exid_set_same)
next
  case (LRequestCancel c tm tw)
  then show ?thesis
    by (auto simp: request_cancel_def split: option.splits prod.splits dest!: transition_exid intro: exid_set_same)
qed (use assms in simp_all)

lemma ack_exids:
  assumes "d_get (lm_orders m) c = Some o'"
  shows "exid_of (lc_step m (LAck c ex x tm tw)) = (exid_of m)(c := Some (Some ex))"
    "lm_by_exchange_id (lc_step m (LAck c ex x tm tw)) = d_put (lm_by_exchange_id m) ex c"
  using assms by (auto simp: process_ack_def exid_set_order split: prod.splits dest!: transition_exid)

lemma exid_ok_ack:
  assumes "exid_ok f m" "own_ids f" "exid_of m c \<noteq> None"
    and "exid_of m' = (exid_of m)(c := Some (Some (f c)))" "lm_by_exchange_id m' = d_put (lm_by_exchange_id m) (f c) c"
  shows "exid_ok f m'"
proof -
  have "c' = c" if "exid_of m c' = Some (Some (f c))" for c'
    using that assms(1,2) unfolding exid_ok_def own_ids_def by (metis injD)
  with assms show ?thesis by (auto simp: exid_ok_def)
qed

lemma remove_exids:
  assumes "d_wf (lm_orders m)" "exid_of m c \<noteq> None"
  shows "exid_of (remove_order c m) = (exid_of m)(c := None)"
    "lm_by_exchange_id (remove_order c m) = (case the (exid_of m c) of
       Some x \<Rightarrow> if x = [] then lm_by_exchange_id m else d_pop (lm_by_exchange_id m) x | None \<Rightarrow> lm_by_exchange_id m)"
  using assms by (auto simp: remove_order_def exid_of_def Let_def s_truthy_def split: option.split)

lemma exid_ok_remove:
  assumes "exid_ok f m" "own_ids f" "lm_inv m"
  shows "exid_ok f (remove_order c m)"
proof (cases "d_get (lm_orders m) c")
  case None
  with assms(1) show ?thesis by (simp add: remove_order_def)
next
  case (Some o')
  then have e: "exid_of m c = Some (mo_exchange_order_id o')" by (simp add: exid_of_def)
  have w: "d_wf (lm_orders m)" "d_wf (lm_by_exchange_id m)" using assms(3) by (simp_all add: lm_inv_def)
  have r: "exid_of (remove_order c m) = (exid_of m)(c := None)" using remove_exids(1) [OF w(1)] e by simp
  show ?thesis
  proof (cases "mo_exchange_order_id o'")
    case None
    then have "lm_by_exchange_id (remove_order c m) = lm_by_exchange_id m" using remove_exids(2) [OF w(1)] e by simp
    with r assms(1) e None show ?thesis by (auto simp: exid_ok_def)
  next
    case (Some x)
    then have "x = f c" using assms(1) e by (simp add: exid_ok_def)
    then have x: "x = f c" "x \<noteq> []" using assms(2) by (auto simp: own_ids_def)
    have own: "c' = c" if "exid_of m c' = Some (Some (f c))" for c'
    using that assms(1,2) unfolding exid_ok_def own_ids_def by (metis injD)
    then have "lm_by_exchange_id (remove_order c m) = d_pop (lm_by_exchange_id m) x"
      using remove_exids(2) [OF w(1)] e Some x(2) by simp
    moreover have "d_get (d_pop (lm_by_exchange_id m) x) y = Some c' \<longleftrightarrow> ((exid_of m)(c := None)) c' = Some (Some y)" for y c'
    proof -
      have ix: "d_get (lm_by_exchange_id m) y = Some c' \<longleftrightarrow> exid_of m c' = Some (Some y)" using assms(1) by (simp add: exid_ok_def)
      have pop: "d_get (d_pop (lm_by_exchange_id m) x) y = (if y = x then None else d_get (lm_by_exchange_id m) y)" using w(2) by simp
      show ?thesis
      proof (cases "y = x")
        case True
        then have "exid_of m c' = Some (Some y) \<Longrightarrow> c' = c" using own x(1) by blast
        then show ?thesis using True pop by (cases "c' = c") auto
      next
        case False
        then have "exid_of m c \<noteq> Some (Some y)" using e Some by simp
        then show ?thesis using False pop ix by (cases "c' = c") auto
      qed
    qed
    moreover have "((exid_of m)(c := None)) c' = Some (Some y) \<Longrightarrow> y = f c'" "((exid_of m)(c := None)) c' \<noteq> None \<Longrightarrow> c' \<noteq> []" for c' y
      using assms(1) by (auto simp: exid_ok_def split: if_splits)
    ultimately show ?thesis using r by (simp add: exid_ok_def)
  qed
qed

lemma exid_ok_cleanup: "exid_ok f m \<Longrightarrow> own_ids f \<Longrightarrow> lm_inv m \<Longrightarrow> exid_ok f (fold remove_order cs m)"
  by (induction cs arbitrary: m) (simp_all add: exid_ok_remove remove_order_inv)

lemma exid_ok_register:
  assumes "exid_ok f m" "register m o' = Inr m'" "coid_of o' \<noteq> []" "mo_exchange_order_id o' = None"
  shows "exid_ok f m'"
proof -
  have "exid_of m' = (exid_of m)(coid_of o' := Some None)" "lm_by_exchange_id m' = lm_by_exchange_id m" "exid_of m (coid_of o') = None"
    using assms(2,4) by (auto simp: register_def Let_def exid_of_def d_has_def split: if_splits)
  with assms(1,3) show ?thesis by (auto simp: exid_ok_def)
qed

lemma lc_step_exid:
  assumes "lm_inv m" "exid_ok f m" "own_ids f" "exchange_assigns f e"
  shows "exid_ok f (lc_step m e)"
proof (cases e)
  case (LAck c ex x tm tw)
  show ?thesis
  proof (cases "d_get (lm_orders m) c")
    case None
    with LAck assms(2) show ?thesis by (simp add: process_ack_def)
  next
    case (Some o')
    with assms(4) ack_exids [OF Some, of ex x tm tw] LAck show ?thesis
      by (intro exid_ok_ack [OF assms(2,3), of c]) (simp_all add: exid_of_def)
  qed
next
  case (LRegister o')
  with assms show ?thesis by (auto split: sum.split intro: exid_ok_register)
next
  case (LCleanup age now)
  with assms show ?thesis by (simp add: cleanup_terminal_def Let_def exid_ok_cleanup)
qed (use step_keeps_exids [of e m] assms(2) in \<open>simp_all add: exid_ok_def\<close>)

interpretation lc_exid: invariant_machine lc_step "\<lambda>e. own_ids f \<and> registers_fresh e \<and> exchange_assigns f e"
  "\<lambda>m. lm_inv m \<and> exid_ok f m" for f
  by unfold_locales (use lc_step_inv lc_step_exid in blast)

lemma lc_run_exid:
  assumes "own_ids f" "list_all registers_fresh es" "list_all (exchange_assigns f) es"
  shows "exid_ok f (lc_run es)"
proof -
  have "list_all (\<lambda>e. own_ids f \<and> registers_fresh e \<and> exchange_assigns f e) es" using assms by (auto simp: list_all_iff)
  moreover have "lm_inv lm_init \<and> exid_ok f lm_init" by (simp add: lm_init_inv) (simp add: exid_ok_def exid_of_def lm_init_def)
  ultimately show ?thesis unfolding lc_run_def using lc_exid.run_inv by blast
qed

lemma exchange_lookup:
  assumes "exid_ok f m"
  shows "get_by_exchange_id m x = Some o' \<longleftrightarrow> (\<exists>c. d_get (lm_orders m) c = Some o' \<and> mo_exchange_order_id o' = Some x)"
proof -
  have ix: "d_get (lm_by_exchange_id m) x = Some c \<longleftrightarrow> exid_of m c = Some (Some x)" for c using assms by (simp add: exid_ok_def)
  have ne: "d_get (lm_orders m) c \<noteq> None \<Longrightarrow> c \<noteq> []" for c using assms by (simp add: exid_ok_def exid_of_def)
  show ?thesis
  proof
    assume "get_by_exchange_id m x = Some o'"
    then obtain c where c: "d_get (lm_by_exchange_id m) x = Some c" "d_get (lm_orders m) c = Some o'"
      by (auto simp: get_by_exchange_id_def find_exchange_id_def split: option.splits if_splits)
    then have "mo_exchange_order_id o' = Some x" using ix [of c] by (simp add: exid_of_def)
    with c show "\<exists>c. d_get (lm_orders m) c = Some o' \<and> mo_exchange_order_id o' = Some x" by blast
  next
    assume "\<exists>c. d_get (lm_orders m) c = Some o' \<and> mo_exchange_order_id o' = Some x"
    then obtain c where c: "d_get (lm_orders m) c = Some o'" "mo_exchange_order_id o' = Some x" by blast
    then have "d_get (lm_by_exchange_id m) x = Some c" by (simp add: ix exid_of_def)
    with c ne [of c] show "get_by_exchange_id m x = Some o'" by (simp add: get_by_exchange_id_def find_exchange_id_def d_has_def)
  qed
qed

section \<open>Properties\<close>

definition sample_order :: managed_order where
  "sample_order = mk_order \<lparr>id_intent_id = ''i1'', id_attempt = 1, id_client_order_id = ''c1''\<rparr> ''BTC'' ''buy'' 10
     ''limit'' (Some 100) False 1 1001 1 1001"

definition sample_events :: "lc_event list" where
  "sample_events = [LRegister sample_order, LTransition ''c1'' SENT 2 1002 None, LAck ''c1'' ''x1'' None 3 1003,
     LFill None (Some ''x1'') 4 100 1 False None 4 1004]"

lemma sample_fresh: "list_all registers_fresh sample_events"
  by (simp add: sample_events_def sample_order_def mk_order_def fresh_order_def Let_def)

definition sample_tracked :: managed_order where
  "sample_tracked = the (d_get (lm_orders (lc_run sample_events)) ''c1'')"

lemma sample_get: "d_get (lm_orders (lc_run sample_events)) ''c1'' = Some sample_tracked"
  "mo_state sample_tracked = PARTIAL" "mo_filled_qty sample_tracked = 4" "mo_qty sample_tracked = 10"
proof -
  have "map_option (\<lambda>o'. (mo_state o', mo_filled_qty o', mo_qty o')) (d_get (lm_orders (lc_run sample_events)) ''c1'') =
      Some (PARTIAL, 4, 10)" by code_simp
  then show "d_get (lm_orders (lc_run sample_events)) ''c1'' = Some sample_tracked"
    "mo_state sample_tracked = PARTIAL" "mo_filled_qty sample_tracked = 4" "mo_qty sample_tracked = 10"
    by (auto simp: sample_tracked_def)
qed

text \<open>C23: Whatever updates arrive, in whatever order and however often: each tracked order has
  0 \<open>\<le>\<close> filled \<open>\<le>\<close> quantity, its recorded transitions are a path of the transition table from
  \<open>NEW\<close> to its current state, and it carries a terminal time exactly when it is terminal.\<close>

theorem orders_follow_the_table:
  assumes "list_all registers_fresh es" "get_by_client_order_id (lc_run es) c = Some o'"
  shows "0 \<le> mo_filled_qty o' \<and> mo_filled_qty o' \<le> mo_qty o' \<and>
    replay NEW (mo_transitions o') = Some (mo_state o') \<and> (is_terminal o' \<longleftrightarrow> mo_terminal_at_mono o' \<noteq> None)"
  using lc_run_inv [OF assms(1)] assms(2) by (auto simp: lm_inv_def order_inv_def get_by_client_order_id_def)

lemma orders_follow_the_table_witness: "replay NEW (mo_transitions sample_tracked) = Some PARTIAL"
  using orders_follow_the_table [OF sample_fresh, of "''c1''" sample_tracked] sample_get
  by (simp add: get_by_client_order_id_def)

text \<open>Terminal states are absorbing for every tracked order: after an order is terminal, no operation other than the
  cleanup of old orders changes its state or drops it.\<close>

theorem terminal_orders_stay:
  assumes "list_all registers_fresh (es1 @ es2)" "\<not> list_ex is_cleanup es2"
    "get_by_client_order_id (lc_run es1) c = Some o'" "is_terminal o'"
  shows "\<exists>o1. get_by_client_order_id (lc_run (es1 @ es2)) c = Some o1 \<and> mo_state o1 = mo_state o'"
proof -
  have f: "list_all registers_fresh es1" "list_all registers_fresh es2" using assms(1) by auto
  from lc_terminal.run_closed [OF lc_run_inv [OF f(1)] f(2) _ assms(2), of c] assms(3,4) show ?thesis
    by (auto simp: lc_run_def get_by_client_order_id_def)
qed

lemma terminal_orders_stay_witness:
  "\<exists>o1. get_by_client_order_id (lc_run ((sample_events @ [LCancel (Some ''c1'') None [] None 5 1005]) @
      [LAck ''c1'' ''x2'' None 6 1006, LFill (Some ''c1'') None 9 100 1 False None 7 1007])) ''c1'' = Some o1 \<and>
     mo_state o1 = CANCELED"
proof -
  let ?es = "sample_events @ [LCancel (Some ''c1'') None [] None 5 1005]"
  have "map_option mo_state (get_by_client_order_id (lc_run ?es) ''c1'') = Some CANCELED" by code_simp
  then obtain o' where o': "get_by_client_order_id (lc_run ?es) ''c1'' = Some o'" "mo_state o' = CANCELED" by auto
  have "is_terminal o'" by (simp add: is_terminal_def terminal_states_def o')
  from terminal_orders_stay [OF _ _ o'(1) this,
      of "[LAck ''c1'' ''x2'' None 6 1006, LFill (Some ''c1'') None 9 100 1 False None 7 1007]"]
  show ?thesis using sample_fresh o'(2) by simp
qed

text \<open>The filled quantity of a tracked order never decreases between cleanups, whatever stale or duplicate updates
  arrive.\<close>

theorem fills_never_shrink:
  assumes "list_all registers_fresh (es1 @ es2)" "\<not> list_ex is_cleanup es2"
  shows "filled_of (lc_run es1) c \<le> filled_of (lc_run (es1 @ es2)) c"
proof -
  have f: "list_all registers_fresh es1" "list_all registers_fresh es2" using assms(1) by auto
  from lc_fill.run_grows [OF lc_run_inv [OF f(1)] f(2) assms(2), of c] show ?thesis by (simp add: lc_run_def)
qed

lemma fills_never_shrink_witness:
  "4 \<le> filled_of (lc_run (sample_events @ [LFill (Some ''c1'') None 3 100 1 False None 7 1007])) ''c1''"
  using fills_never_shrink [of sample_events "[LFill (Some ''c1'') None 3 100 1 False None 7 1007]" "''c1''"]
    sample_fresh sample_get by (simp add: filled_of_def)

text \<open>C24: The indexes stay consistent: in every reachable manager, the lookup by intent and by symbol return exactly the
  tracked orders of that intent and of that symbol, and the live orders of a symbol are its orders in a live
  state.  The lookup by exchange id returns exactly the tracked order that carries the id, as long as the exchange gives
  each order one own, non-empty id and orders are registered under a non-empty client id and without an exchange id; a second
  acknowledgement of an order under another id would leave the first one in the index.\<close>

theorem indexes_consistent:
  assumes "list_all registers_fresh es"
  shows "set (get_by_intent_id (lc_run es) i) = {o'. \<exists>c. d_get (lm_orders (lc_run es)) c = Some o' \<and> intent_of o' = i} \<and>
    set (get_orders_for_symbol (lc_run es) sy) = {o'. \<exists>c. d_get (lm_orders (lc_run es)) c = Some o' \<and> mo_symbol o' = sy} \<and>
    set (get_live_orders (lc_run es) (Some sy)) =
      {o'. \<exists>c. d_get (lm_orders (lc_run es)) c = Some o' \<and> (sy = [] \<or> mo_symbol o' = sy) \<and> is_live o'} \<and>
    (own_ids f \<and> list_all (exchange_assigns f) es \<longrightarrow>
      (\<forall>o'. get_by_exchange_id (lc_run es) x = Some o' \<longleftrightarrow>
        (\<exists>c. d_get (lm_orders (lc_run es)) c = Some o' \<and> mo_exchange_order_id o' = Some x)))"
proof -
  let ?m = "lc_run es"
  have i: "lm_inv ?m" by (rule lc_run_inv [OF assms])
  then have g: "c \<in> set (d_get_or (lm_by_intent_id ?m) j []) \<longleftrightarrow> (\<exists>o'. d_get (lm_orders ?m) c = Some o' \<and> intent_of o' = j)"
    "c \<in> set (d_get_or (lm_by_symbol ?m) y []) \<longleftrightarrow> (\<exists>o'. d_get (lm_orders ?m) c = Some o' \<and> mo_symbol o' = y)" for c j y
    unfolding lm_inv_def group_ok_def by blast+
  have v: "set (d_vals (lm_orders ?m)) = {o'. \<exists>c. d_get (lm_orders ?m) c = Some o'}"
    using i by (auto simp: d_vals_def lm_inv_def d_mem_iff [symmetric] intro: rev_image_eqI)
  have 1: "set (get_by_intent_id ?m i) = {o'. \<exists>c. d_get (lm_orders ?m) c = Some o' \<and> intent_of o' = i}"
    unfolding get_by_intent_id_def set_map_filter_get using g(1) by force
  have 2: "set (get_orders_for_symbol ?m y) = {o'. \<exists>c. d_get (lm_orders ?m) c = Some o' \<and> mo_symbol o' = y}" for y
    unfolding get_orders_for_symbol_def set_map_filter_get using g(2) by force
  have 3: "set (get_live_orders ?m (Some sy)) =
      {o'. \<exists>c. d_get (lm_orders ?m) c = Some o' \<and> (sy = [] \<or> mo_symbol o' = sy) \<and> is_live o'}"
    by (auto simp: get_live_orders_def s_truthy_def 2 v)
  have 4: "own_ids f \<and> list_all (exchange_assigns f) es \<longrightarrow> (\<forall>o'. get_by_exchange_id ?m x = Some o' \<longleftrightarrow>
      (\<exists>c. d_get (lm_orders ?m) c = Some o' \<and> mo_exchange_order_id o' = Some x))"
    using exchange_lookup lc_run_exid [OF _ assms] by blast
  show ?thesis by (intro conjI 1 2 3 4)
qed

lemma indexes_consistent_witness:
  "sample_tracked \<in> set (get_live_orders (lc_run sample_events) (Some ''BTC'')) \<and>
   get_by_exchange_id (lc_run sample_events) ''x1'' = Some sample_tracked"
proof -
  have "map_option (\<lambda>o'. (mo_symbol o', mo_exchange_order_id o')) (d_get (lm_orders (lc_run sample_events)) ''c1'') = Some (''BTC'', Some ''x1'')"
    by code_simp
  with sample_get have b: "mo_symbol sample_tracked = ''BTC''" "mo_exchange_order_id sample_tracked = Some ''x1''" by simp_all
  let ?f = "\<lambda>c. if c = ''c1'' then ''x1'' else CHR ''y'' # c"
  have "own_ids ?f" by (auto simp: own_ids_def inj_def)
  moreover have "list_all (exchange_assigns ?f) sample_events"
    by (simp add: sample_events_def sample_order_def mk_order_def Let_def)
  ultimately show ?thesis
    using indexes_consistent [OF sample_fresh, of "''i1''" "''BTC''" ?f "''x1''"] b sample_get
    by (auto simp: is_live_def live_states_def)
qed

text \<open>\<open>process_fill\<close> on a tracked order, on every branch: a total below the recorded fill or above the order
  quantity changes nothing and returns nothing; otherwise the fill is recorded, and the state becomes
  \<open>FILLED\<close> (total reached, or flagged complete) or \<open>PARTIAL\<close> if the transition table allows it and stays
  otherwise.\<close>

theorem process_fill_branches:
  assumes "find_order m coid exid = Some c" "d_get (lm_orders m) c = Some o'"
  shows "if filled < mo_filled_qty o' \<or> mo_qty o' < filled
    then process_fill m coid exid filled avg fees done x tm tw = (m, None)
    else \<exists>o1. process_fill m coid exid filled avg fees done x tm tw = (set_order m c o1, Some o1) \<and>
      mo_filled_qty o1 = filled \<and>
      mo_state o1 = (let st = if done \<or> mo_qty o' \<le> filled then FILLED else PARTIAL
                     in if can_transition o' st then st else mo_state o')"
proof -
  have "can_transition (o'\<lparr>mo_filled_qty := f, mo_avg_fill_price := a, mo_fees := fe\<rparr>) st = can_transition o' st" for f a fe st
    by (simp add: can_transition_def)
  with assms show ?thesis
    by (auto simp: process_fill_def update_fill_def Let_def split: prod.splits dest!: transition_frame)
qed

lemma process_fill_branches_witness:
  "process_fill (lc_run sample_events) (Some ''c1'') None 3 100 1 False None 7 1007 = (lc_run sample_events, None)"
proof -
  have "find_order (lc_run sample_events) (Some ''c1'') None = Some ''c1''"
    using sample_get(1) by (simp add: find_order_def s_truthy_def d_has_def Let_def)
  from process_fill_branches [OF this sample_get(1), of 3] sample_get(3) show ?thesis by simp
qed

text \<open>The documented invariant that \<open>FILLED\<close> implies a complete fill does not hold: a fill flagged complete with a
  total below the quantity moves a live order to \<open>FILLED\<close> with quantity remaining.\<close>

theorem complete_flag_fills_partially:
  assumes "find_order m coid exid = Some c" "d_get (lm_orders m) c = Some o'" "is_live o'"
    "mo_filled_qty o' \<le> filled" "filled < mo_qty o'"
  shows "\<exists>o1. get_by_client_order_id (fst (process_fill m coid exid filled avg fees True x tm tw)) c = Some o1 \<and>
    is_filled o1 \<and> mo_filled_qty o1 < mo_qty o1 \<and> 0 < remaining_qty o1"
proof -
  have "can_transition (o'\<lparr>mo_filled_qty := filled, mo_avg_fill_price := Some avg, mo_fees := fees\<rparr>) FILLED"
    using assms(3) by (auto simp: is_live_def live_states_def can_transition_def)
  then show ?thesis
    using assms
    by (auto simp: process_fill_def update_fill_def Let_def get_by_client_order_id_def set_order_def is_filled_def
        remaining_qty_def split: prod.splits dest!: transition_frame)
qed

lemma complete_flag_fills_partially_witness:
  "\<exists>o1. get_by_client_order_id (fst (process_fill (lc_run sample_events) (Some ''c1'') None 5 100 1 True None 7 1007)) ''c1'' = Some o1 \<and>
     is_filled o1 \<and> mo_filled_qty o1 < mo_qty o1"
proof -
  have f: "find_order (lc_run sample_events) (Some ''c1'') None = Some ''c1''"
    using sample_get(1) by (simp add: find_order_def s_truthy_def d_has_def Let_def)
  from complete_flag_fills_partially [OF f sample_get(1), of 5 100 1 None 7 1007] sample_get show ?thesis
    by (auto simp: is_live_def live_states_def)
qed

text \<open>A late fill is recorded on a terminal order without moving its state: a canceled or rejected order keeps its
  state while its filled quantity grows.\<close>

theorem late_fill_changes_terminal_order:
  assumes "find_order m coid exid = Some c" "d_get (lm_orders m) c = Some o'" "is_terminal o'"
    "mo_filled_qty o' < filled" "filled \<le> mo_qty o'"
  shows "\<exists>o1. get_by_client_order_id (fst (process_fill m coid exid filled avg fees done x tm tw)) c = Some o1 \<and>
    mo_state o1 = mo_state o' \<and> mo_filled_qty o' < mo_filled_qty o1 \<and> mo_transitions o1 = mo_transitions o'"
proof -
  have "\<not> can_transition (o'\<lparr>mo_filled_qty := f, mo_avg_fill_price := a, mo_fees := fe\<rparr>) st" for f a fe st
    using assms(3) terminal_no_transition [of st "mo_state o'"] by (auto simp: is_terminal_def can_transition_def)
  then show ?thesis
    using assms
    by (auto simp: process_fill_def update_fill_def Let_def get_by_client_order_id_def set_order_def transition_def)
qed

lemma late_fill_changes_terminal_order_witness:
  "\<exists>o1. get_by_client_order_id (fst (process_fill (lc_run (sample_events @ [LCancel (Some ''c1'') None [] None 5 1005]))
      (Some ''c1'') None 9 100 1 False None 7 1007)) ''c1'' = Some o1 \<and> mo_state o1 = CANCELED \<and> 4 < mo_filled_qty o1"
proof -
  let ?m = "lc_run (sample_events @ [LCancel (Some ''c1'') None [] None 5 1005])"
  have "map_option (\<lambda>o'. (mo_state o', mo_filled_qty o', mo_qty o')) (d_get (lm_orders ?m) ''c1'') = Some (CANCELED, 4, 10)"
    by code_simp
  then obtain o' where o': "d_get (lm_orders ?m) ''c1'' = Some o'" "mo_state o' = CANCELED" "mo_filled_qty o' = 4" "mo_qty o' = 10"
    by auto
  have f: "find_order ?m (Some ''c1'') None = Some ''c1''"
    using o'(1) by (simp add: find_order_def s_truthy_def d_has_def Let_def)
  from late_fill_changes_terminal_order [OF f o'(1), of 9 100 1 False None 7 1007] o'(2-4) show ?thesis
    by (auto simp: is_terminal_def terminal_states_def)
qed

text \<open>Cleanup removes exactly the terminal orders whose (non-zero) terminal time lies before the cutoff, keeps every
  other order as it is, returns how many it removed, and leaves no removed order in the intent and
  symbol lookups.\<close>

theorem cleanup_exact:
  assumes "list_all registers_fresh es" "cleanup_terminal (lc_run es) age now = (m', n)"
  shows "(\<forall>c. get_by_client_order_id m' c =
        (case get_by_client_order_id (lc_run es) c of None \<Rightarrow> None
         | Some o' \<Rightarrow> if expired_terminal (fsub now age) o' then None else Some o')) \<and>
    n = length (filter (expired_terminal (fsub now age)) (d_vals (lm_orders (lc_run es)))) \<and>
    (\<forall>i. set (get_by_intent_id m' i) \<union> set (get_orders_for_symbol m' i) \<subseteq> {o'. \<not> expired_terminal (fsub now age) o'})"
proof -
  let ?m = "lc_run es" and ?x = "expired_terminal (fsub now age)"
  have i: "lm_inv ?m" by (rule lc_run_inv [OF assms(1)])
  then have d: "d_wf (lm_orders ?m)" by (simp add: lm_inv_def)
  define rm where "rm = [coid. (coid, o') \<leftarrow> lm_orders ?m, ?x o']"
  have m': "m' = fold remove_order rm ?m" "n = length rm"
    using assms(2) by (simp_all add: cleanup_terminal_def Let_def rm_def)
  have mem: "c \<in> set rm \<longleftrightarrow> (\<exists>o'. d_get (lm_orders ?m) c = Some o' \<and> ?x o')" for c
    by (auto simp: rm_def d_mem_iff [OF d])
  have get: "d_get (lm_orders m') c = (if c \<in> set rm then None else d_get (lm_orders ?m) c)" for c
    unfolding m' by (rule remove_orders_get [OF i])
  have 1: "\<forall>c. get_by_client_order_id m' c = (case get_by_client_order_id ?m c of None \<Rightarrow> None
         | Some o' \<Rightarrow> if ?x o' then None else Some o')"
    by (auto simp: get_by_client_order_id_def get mem split: option.split)
  have "length [coid. (coid, o') \<leftarrow> xs, ?x o'] = length (filter ?x (map snd xs))" for xs :: "(string, managed_order) dict"
    by (induction xs) auto
  then have 2: "n = length (filter ?x (d_vals (lm_orders ?m)))" by (simp add: m'(2) rm_def d_vals_def)
  have 3: "\<forall>j. set (get_by_intent_id m' j) \<union> set (get_orders_for_symbol m' j) \<subseteq> {o'. \<not> ?x o'}"
    unfolding get_by_intent_id_def get_orders_for_symbol_def set_map_filter_get by (auto simp: get mem split: if_splits)
  show ?thesis by (intro conjI 1 2 3)
qed

lemma cleanup_exact_witness:
  "\<exists>m' n. cleanup_terminal (lc_run sample_events) 1 100 = (m', n) \<and> get_by_client_order_id m' ''c1'' = Some sample_tracked"
proof -
  obtain m' n where c: "cleanup_terminal (lc_run sample_events) 1 100 = (m', n)" by force
  have "\<not> expired_terminal (fsub 100 1) sample_tracked"
    by (simp add: expired_terminal_def is_terminal_def terminal_states_def sample_get)
  with cleanup_exact [OF sample_fresh c] c sample_get show ?thesis by (auto simp: get_by_client_order_id_def)
qed

end
