(* ===== verification/Hot_Path.thy ===== *)
theory Hot_Path
  imports Decision_Record Features Stages Policy Kill_Switch Lifecycle
begin

text \<open>
  The hot path (quantgambit/runtime/hot_path.py): from a book update through the guardian, the kill
  switch, the calibration gate and the decision stages to intents and a decision record.  The stages
  are injected through protocols in the source, so they are a table of functions here, each with
  the shared state of the stages; \<open>standard_stages\<close> is the table that
  quantgambit/runtime/hot_path_wiring.py builds by default.  Outputs are the published records and
  intent events and the submissions to the gateway, in order.  Stage timers are left out; the
  number of latencies recorded for a tick is kept.  A stage's exception is the error of its result.
\<close>

section \<open>Stages, configuration, state\<close>

record 'p stages =
  sg_build :: "'p \<Rightarrow> decision_input \<Rightarrow> 'p \<times> (py_error + feature_frame)"
  sg_infer :: "'p \<Rightarrow> feature_frame \<Rightarrow> 'p \<times> (py_error + model_output)"
  sg_calibrate :: "'p \<Rightarrow> model_output \<Rightarrow> 'p \<times> (py_error + calibrated_output)"
  sg_edge :: "'p \<Rightarrow> pyfloat \<Rightarrow> 'p \<times> (py_error + edge_output)"
  sg_vol :: "'p \<Rightarrow> decision_input \<Rightarrow> 'p \<times> (py_error + vol_out)"
  sg_map :: "'p \<Rightarrow> pyfloat \<Rightarrow> pyfloat \<Rightarrow> decision_input \<Rightarrow> 'p \<times> (py_error + risk_output)"
  sg_policy :: "'p \<Rightarrow> risk_output \<Rightarrow> decision_input \<Rightarrow> 'p \<times> (py_error + execution_intent list)"

record hot_path_config =
  hc_max_decision_age_ms :: pyfloat
  hc_staleness_threshold_ms :: pyfloat
  hc_allow_entries :: bool
  hc_allow_exits :: bool
  hc_feature_set_version_id :: string
  hc_model_version_id :: string
  hc_calibrator_version_id :: string
  hc_risk_profile_version_id :: string
  hc_execution_policy_version_id :: string
  hc_config_bundle_id :: string

definition default_hot_path_config :: hot_path_config where
  "default_hot_path_config = \<lparr>hc_max_decision_age_ms = 500, hc_staleness_threshold_ms = 1000, hc_allow_entries = True,
     hc_allow_exits = True, hc_feature_set_version_id = ''default'', hc_model_version_id = ''default'',
     hc_calibrator_version_id = ''default'', hc_risk_profile_version_id = ''default'',
     hc_execution_policy_version_id = ''default'', hc_config_bundle_id = ''default_bundle''\<rparr>"

text \<open>The gate either shares the hot path's calibrator or has its own; both carry the warn multiplier.\<close>

datatype hot_gate = SharedGate pyfloat | OwnGate symbol_calibrator pyfloat

record ('s, 'p) hot_path =
  hp_guardian :: "'s guardian"
  hp_kill :: kill_switch
  hp_stage_state :: 'p
  hp_calibrator :: "symbol_calibrator option"
  hp_gate :: "hot_gate option"
  hp_config :: hot_path_config
  hp_positions :: "(string, position) dict"
  hp_equity :: pyfloat
  hp_margin :: pyfloat
  hp_pending :: "(string, execution_intent) dict"
  hp_ticks :: nat
  hp_decisions :: nat
  hp_emitted :: nat
  hp_blocked :: nat
  hp_recent_trades :: "(string, details list) dict"
  hp_tick_timings :: nat

definition hot_path_init ::
  "'s guardian \<Rightarrow> kill_switch \<Rightarrow> 'p \<Rightarrow> hot_path_config option \<Rightarrow> symbol_calibrator option \<Rightarrow> hot_gate option \<Rightarrow>
     ('s, 'p) hot_path" where
  "hot_path_init g k p cfg cal gt = \<lparr>hp_guardian = g, hp_kill = k, hp_stage_state = p, hp_calibrator = cal,
     hp_gate = (case gt of Some x \<Rightarrow> Some x | None \<Rightarrow> if cal = None then None else Some (SharedGate (1 / 2))),
     hp_config = (case cfg of None \<Rightarrow> default_hot_path_config | Some c \<Rightarrow> c), hp_positions = [], hp_equity = 0,
     hp_margin = 0, hp_pending = [], hp_ticks = 0, hp_decisions = 0, hp_emitted = 0, hp_blocked = 0,
     hp_recent_trades = [], hp_tick_timings = 0\<rparr>"

text \<open>What the environment supplies during one tick: clock readings and the trace id.\<close>

record tick_env =
  te_update_wall :: pyfloat
  te_check_mono :: pyfloat
  te_check_wall :: pyfloat
  te_trace_id :: string
  te_ts_wall :: pyfloat
  te_ts_mono :: pyfloat
  te_observe_time :: pyfloat
  te_gate_time :: pyfloat

datatype hot_output =
    OutRecord decision_record
  | OutSubmit execution_intent
  | OutIntentEvent execution_intent

section \<open>Updates of the state\<close>

definition on_trade :: "('s, 'p) hot_path \<Rightarrow> string \<Rightarrow> details \<Rightarrow> ('s, 'p) hot_path" where
  "on_trade hp sy trade =
     (let trades = d_get_or (hp_recent_trades hp) sy [] @ [trade];
          kept = (if 100 < length trades then drop (length trades - 100) trades else trades)
      in hp\<lparr>hp_recent_trades := d_put (hp_recent_trades hp) sy kept\<rparr>)"

definition update_position :: "('s, 'p) hot_path \<Rightarrow> string \<Rightarrow> position \<Rightarrow> ('s, 'p) hot_path" where
  "update_position hp sy p = hp\<lparr>hp_positions := d_put (hp_positions hp) sy p\<rparr>"

definition update_account :: "('s, 'p) hot_path \<Rightarrow> pyfloat \<Rightarrow> pyfloat \<Rightarrow> ('s, 'p) hot_path" where
  "update_account hp e m = hp\<lparr>hp_equity := e, hp_margin := m\<rparr>"

fun drop_pending :: "string \<Rightarrow> (string, execution_intent) dict \<Rightarrow> (string, execution_intent) dict" where
  "drop_pending c [] = []"
| "drop_pending c ((k, i) # d) = (if ei_client_order_id i = c then d else (k, i) # drop_pending c d)"

definition on_order_update :: "('s, 'p) hot_path \<Rightarrow> string \<Rightarrow> string \<Rightarrow> pyfloat \<Rightarrow> ('s, 'p) hot_path" where
  "on_order_update hp coid status filled_qty =
     (if status \<in> {''FILLED'', ''CANCELED'', ''REJECTED''}
      then hp\<lparr>hp_pending := drop_pending coid (hp_pending hp)\<rparr> else hp)"

section \<open>The decision pipeline\<close>

definition build_decision_input ::
  "('s, 'p) hot_path \<Rightarrow> string \<Rightarrow> order_book \<Rightarrow> pyfloat \<Rightarrow> pyfloat \<Rightarrow> decision_input" where
  "build_decision_input hp sy book ts_wall ts_mono =
     \<lparr>di_symbol = sy, di_ts_wall = ts_wall, di_ts_mono = ts_mono, di_book = snapshot_of_book book True,
      di_recent_trades = d_get_or (hp_recent_trades hp) sy [], di_current_position = d_get (hp_positions hp) sy,
      di_account_equity = hp_equity hp, di_available_margin = hp_margin hp, di_open_order_count = 0,
      di_pending_intent_count = length (hp_pending hp), di_max_position_size = 0, di_max_position_value = 0,
      di_max_leverage = 1, di_config_bundle_id = Some (hc_config_bundle_id (hp_config hp))\<rparr>"

definition start_record :: "hot_path_config \<Rightarrow> string \<Rightarrow> order_book \<Rightarrow> decision_input \<Rightarrow> string \<Rightarrow> decision_record" where
  "start_record c sy book d trace =
     (let r1 = with_account (di_account_equity d)
            (with_book_state (best_bid_price book) (best_ask_price book) (mid_price book) (sn_spread_bps (di_book d))
              (ob_update_id book) True
            (with_bundle (hc_config_bundle_id c) (hc_feature_set_version_id c) (hc_model_version_id c)
              (hc_calibrator_version_id c) [] [] (hc_risk_profile_version_id c) (hc_execution_policy_version_id c)
            (with_timestamps (di_ts_wall d) (di_ts_mono d) (ob_timestamp book)
            (with_identifiers (''rec_'' @ trace) trace sy new_record))))
      in case di_current_position d of
           None \<Rightarrow> r1
         | Some p \<Rightarrow> with_position (po_size p) (po_entry_price p) (Some (po_unrealized_pnl p)) r1)"

text \<open>A book snapshot has no attribute \<open>bid_depth_usd\<close> or \<open>ask_depth_usd\<close>, so \<open>getattr\<close> yields its default.\<close>

definition snapshot_depth_usd :: "book_snapshot \<Rightarrow> pyfloat option" where
  "snapshot_depth_usd n = None"

definition gate_calibrator :: "('s, 'p) hot_path \<Rightarrow> symbol_calibrator" where
  "gate_calibrator hp = (case hp_gate hp of
       Some (OwnGate c w) \<Rightarrow> c
     | _ \<Rightarrow> (case hp_calibrator hp of Some c \<Rightarrow> c | None \<Rightarrow> calibrator_init None))"

definition store_gate_calibrator :: "('s, 'p) hot_path \<Rightarrow> symbol_calibrator \<Rightarrow> ('s, 'p) hot_path" where
  "store_gate_calibrator hp c = (case hp_gate hp of
       Some (OwnGate c0 w) \<Rightarrow> hp\<lparr>hp_gate := Some (OwnGate c w)\<rparr>
     | _ \<Rightarrow> hp\<lparr>hp_calibrator := Some c\<rparr>)"

fun gate_warn :: "hot_gate \<Rightarrow> pyfloat" where
  "gate_warn (SharedGate w) = w"
| "gate_warn (OwnGate c w) = w"

datatype verdict =
    Blocked decision_outcome reason_text
  | NoAction reason_text
  | Failed py_error
  | Emit "execution_intent list"

text \<open>Observation and gating: the state, the record so far, and a block or the size multiplier.\<close>

definition gating ::
  "('s, 'p) hot_path \<Rightarrow> string \<Rightarrow> decision_input \<Rightarrow> decision_record \<Rightarrow> tick_env \<Rightarrow>
     ('s, 'p) hot_path \<times> decision_record \<times> (verdict + pyfloat)" where
  "gating hp sy d rb env =
     (let spread_bps = fo_or (sn_spread_bps (di_book d)) 0;
          bid_depth = fo_or (snapshot_depth_usd (di_book d)) 0;
          ask_depth = fo_or (snapshot_depth_usd (di_book d)) 0;
          hp1 = (case hp_calibrator hp of None \<Rightarrow> hp
            | Some c \<Rightarrow> hp\<lparr>hp_calibrator := Some (observe c sy (Some spread_bps) (Some bid_depth) (Some ask_depth) (te_observe_time env))\<rparr>)
      in case hp_gate hp1 of
           None \<Rightarrow> (hp1, rb, Inr 1)
         | Some g \<Rightarrow>
             (let (c', out) = gate_check (gate_calibrator hp1) (gate_warn g) sy spread_bps bid_depth ask_depth (te_gate_time env);
                  hp2 = store_gate_calibrator hp1 c';
                  rb1 = with_calibration_output out rb
              in if co_spread_blocked out then
                   (hp2, rb1, Inl (Blocked BLOCKED_SPREAD_WIDE (SpreadAbove spread_bps (co_spread_block_bps out))))
                 else if co_depth_blocked out then
                   (hp2, rb1, Inl (Blocked BLOCKED_DEPTH_THIN (DepthBelow (co_depth_current_usd out) (co_depth_block_usd out))))
                 else (hp2, rb1, Inr (co_size_multiplier out))))"

text \<open>Features, model, calibration, edge: a verdict, or the edge signal.\<close>

definition signal_stages ::
  "'p stages \<Rightarrow> 'p \<Rightarrow> decision_input \<Rightarrow> decision_record \<Rightarrow> 'p \<times> decision_record \<times> (verdict + edge_output)" where
  "signal_stages sg p d rb =
     (case sg_build sg p d of
        (p1, Inl e) \<Rightarrow> (p1, rb, Inl (Failed e))
      | (p1, Inr f) \<Rightarrow> let rb1 = with_feature_frame f rb in
     (case sg_infer sg p1 f of
        (p2, Inl e) \<Rightarrow> (p2, rb1, Inl (Failed e))
      | (p2, Inr m) \<Rightarrow> let rb2 = with_model_output m rb1 in
     (case sg_calibrate sg p2 m of
        (p3, Inl e) \<Rightarrow> (p3, rb2, Inl (Failed e))
      | (p3, Inr c) \<Rightarrow> let rb3 = with_calibrated_output c rb2 in
     (case sg_edge sg p3 (cal_p_hat c) of
        (p4, Inl e) \<Rightarrow> (p4, rb3, Inl (Failed e))
      | (p4, Inr ed) \<Rightarrow> let rb4 = with_edge_output ed rb3 in
          if ed_deadband_blocked ed then (p4, rb4, Inl (Blocked BLOCKED_DEADBAND (SignalBelow (ed_s ed) (ed_tau ed))))
          else (p4, rb4, Inr ed)))))"

definition apply_multiplier :: "pyfloat \<Rightarrow> risk_output \<Rightarrow> risk_output" where
  "apply_multiplier m r =
     (if m < 1 then
        (let w = fmul (rk_w_target r) m
         in r\<lparr>rk_w_target := w, rk_delta_w := fsub w (rk_w_current r),
              rk_extra := d_put (d_put (rk_extra r) ''calibration_size_multiplier'' (PNum m)) ''original_w_target'' (PNum (rk_w_target r))\<rparr>)
      else r)"

text \<open>Volatility, risk, size multiplier, churn guard, permission and policy.\<close>

definition sizing_stages ::
  "'p stages \<Rightarrow> hot_path_config \<Rightarrow> 'p \<Rightarrow> decision_input \<Rightarrow> pyfloat \<Rightarrow> edge_output \<Rightarrow> decision_record \<Rightarrow>
     'p \<times> decision_record \<times> verdict" where
  "sizing_stages sg c p d mult ed rb =
     (case sg_vol sg p d of
        (p1, Inl e) \<Rightarrow> (p1, rb, Failed e)
      | (p1, Inr v) \<Rightarrow> let rb1 = with_vol_output v rb in
     (case sg_map sg p1 (ed_s ed) (vo_vol_hat v) d of
        (p2, Inl e) \<Rightarrow> (p2, rb1, Failed e)
      | (p2, Inr r0) \<Rightarrow>
          (let r = apply_multiplier mult r0; rb2 = with_risk_output r rb1
           in if rk_churn_guard_blocked r then (p2, rb2, Blocked BLOCKED_CHURN_GUARD (DeltaBelow (rk_delta_w r)))
              else
          (let is_entry = (0 \<le> fmul (rk_delta_w r) (current_weight d))
           in if is_entry \<and> \<not> hc_allow_entries c then (p2, rb2, NoAction EntriesDisabled)
              else if \<not> is_entry \<and> \<not> hc_allow_exits c then (p2, rb2, NoAction ExitsDisabled)
              else
          (case sg_policy sg p2 r d of
             (p3, Inl e) \<Rightarrow> (p3, rb2, Failed e)
           | (p3, Inr is) \<Rightarrow> if is = [] then (p3, rb2, NoAction NoIntentsGenerated) else (p3, rb2, Emit is))))))"

text \<open>Each intent is tracked, submitted and announced.\<close>

fun submit_intents :: "string \<Rightarrow> execution_intent list \<Rightarrow> (string, execution_intent) dict \<Rightarrow>
    (string, execution_intent) dict \<times> hot_output list" where
  "submit_intents trace [] pend = (pend, [])"
| "submit_intents trace (i # is) pend =
     (let i' = i\<lparr>ei_trace_id := trace\<rparr>;
          (pend', outs) = submit_intents trace is (d_put pend (ei_intent_id i') i')
      in (pend', OutSubmit i' # OutIntentEvent i' # outs))"

text \<open>The end of a pipeline run: the counters, the submissions and the record.\<close>

definition conclude ::
  "('s, 'p) hot_path \<Rightarrow> string \<Rightarrow> decision_record \<Rightarrow> verdict \<Rightarrow> ('s, 'p) hot_path \<times> hot_output list" where
  "conclude hp trace rb v = (case v of
       Blocked oc t \<Rightarrow> (hp\<lparr>hp_blocked := Suc (hp_blocked hp)\<rparr>, [OutRecord (with_outcome oc t rb)])
     | NoAction t \<Rightarrow> (hp, [OutRecord (with_outcome NO_ACTION t rb)])
     | Failed e \<Rightarrow> (hp, [OutRecord (with_error ''pipeline'' e rb)])
     | Emit is \<Rightarrow>
         (let (pend, outs) = submit_intents trace is (hp_pending hp)
          in (hp\<lparr>hp_pending := pend, hp_decisions := Suc (hp_decisions hp), hp_emitted := hp_emitted hp + length is\<rparr>,
              outs @ [OutRecord (with_intents (map (\<lambda>i. i\<lparr>ei_trace_id := trace\<rparr>) is) rb)])))"

definition run_decision_pipeline ::
  "'p stages \<Rightarrow> ('s, 'p) hot_path \<Rightarrow> string \<Rightarrow> order_book \<Rightarrow> tick_env \<Rightarrow> ('s, 'p) hot_path \<times> hot_output list" where
  "run_decision_pipeline sg hp sy book env =
     (let trace = te_trace_id env
      in if is_active (hp_kill hp) then
           (hp\<lparr>hp_blocked := Suc (hp_blocked hp)\<rparr>,
            [OutRecord (with_outcome BLOCKED_KILL_SWITCH KillSwitchActive
               (with_timestamps (te_ts_wall env) (te_ts_mono env) (ob_timestamp book)
                 (with_identifiers (''rec_'' @ trace) trace sy new_record)))])
         else
     (let d = build_decision_input hp sy book (te_ts_wall env) (te_ts_mono env);
          rb0 = start_record (hp_config hp) sy book d trace
      in case gating hp sy d rb0 env of
           (hp1, rb1, Inl v) \<Rightarrow> conclude hp1 trace rb1 v
         | (hp1, rb1, Inr mult) \<Rightarrow>
     (case signal_stages sg (hp_stage_state hp1) d rb1 of
           (p2, rb2, Inl v) \<Rightarrow> conclude (hp1\<lparr>hp_stage_state := p2\<rparr>) trace rb2 v
         | (p2, rb2, Inr ed) \<Rightarrow>
     (case sizing_stages sg (hp_config hp1) p2 d mult ed rb2 of
           (p3, rb3, v) \<Rightarrow> conclude (hp1\<lparr>hp_stage_state := p3\<rparr>) trace rb3 v))))"

definition on_book_update ::
  "'s sync_ops \<Rightarrow> 'p stages \<Rightarrow> ('s, 'p) hot_path \<Rightarrow> string \<Rightarrow> book_update \<Rightarrow> tick_env \<Rightarrow>
     ('s, 'p) hot_path \<times> hot_output list" where
  "on_book_update ops sg hp sy u env =
     (let hp1 = hp\<lparr>hp_ticks := Suc (hp_ticks hp)\<rparr>;
          (g, res, notes) = handle_update ops (hp_guardian hp1) sy u (te_update_wall env) (te_check_mono env) (te_check_wall env);
          hp2 = hp1\<lparr>hp_guardian := g\<rparr>;
          timed = (\<lambda>n h. h\<lparr>hp_tick_timings := hp_tick_timings h + n\<rparr>)
      in case res of
           Inl e \<Rightarrow> (timed 1 hp2, [])
         | Inr None \<Rightarrow> (timed 2 hp2, [])
         | Inr (Some book) \<Rightarrow>
             if \<not> is_quoteable g sy then (timed 2 hp2, [])
             else (let (hp3, outs) = run_decision_pipeline sg hp2 sy book env in (timed 1 hp3, outs)))"

text \<open>Orders reported by the exchange: the canonical state of the wiring, an \<open>OrderState\<close>, is passed as the status.\<close>

definition map_order_status :: "string \<Rightarrow> order_state option" where
  "map_order_status b = d_get [(''Created'', NEW), (''New'', ACKED), (''Rejected'', REJECTED),
     (''PartiallyFilled'', PARTIAL), (''PartiallyFilledCanceled'', CANCELED), (''Filled'', FILLED),
     (''Cancelled'', CANCELED), (''Untriggered'', ACKED), (''Triggered'', ACKED), (''Deactivated'', CANCELED),
     (''Active'', ACKED)] b"

definition is_terminal_status :: "string \<Rightarrow> bool" where
  "is_terminal_status b = (b \<in> set [''Rejected'', ''Filled'', ''Cancelled'', ''PartiallyFilledCanceled'', ''Deactivated''])"

definition wired_order_update :: "('s, 'p) hot_path \<Rightarrow> string option \<Rightarrow> string \<Rightarrow> pyfloat \<Rightarrow> ('s, 'p) hot_path" where
  "wired_order_update hp coid bybit_status filled =
     (if s_truthy coid then
        (case map_order_status bybit_status of
           None \<Rightarrow> hp
         | Some st \<Rightarrow> on_order_update hp (the coid) (order_state_value st) filled)
      else hp)"

section \<open>The default stages\<close>

definition standard_stages :: "(intent_key \<Rightarrow> string) \<Rightarrow> int stages" where
  "standard_stages gen_id = \<lparr>
     sg_build = (\<lambda>n d. (n, build_features (fb_init ''v1.0.0'' None) d)),
     sg_infer = (\<lambda>n f. (n, Inr (passthrough_infer ''passthrough:1.0.0'' (1 / 2) f))),
     sg_calibrate = (\<lambda>n m. (n, Inr (identity_calibrate ''identity:1.0.0'' m))),
     sg_edge = (\<lambda>n p. (n, Inr (linear_to_edge 2 (fl (15 / 100)) p))),
     sg_vol = (\<lambda>n d. (n, Inr (simple_vol ''spread_proxy:1.0.0'' (fl (20 / 100)) 100 d))),
     sg_map = (\<lambda>n s v d. (n, Inr (fixed_size_map default_fixed_size s v d))),
     sg_policy = market_build gen_id \<lparr>mp_version = ''market:1.0.0'', mp_strategy_id = ''default'', mp_bucket_ms = 1000,
       mp_protective = None\<rparr>\<rparr>"

section \<open>Library\<close>

definition records_of :: "hot_output list \<Rightarrow> decision_record list" where
  "records_of outs = concat (map (\<lambda>o'. case o' of OutRecord r \<Rightarrow> [r] | _ \<Rightarrow> []) outs)"

definition submits_of :: "hot_output list \<Rightarrow> execution_intent list" where
  "submits_of outs = concat (map (\<lambda>o'. case o' of OutSubmit i \<Rightarrow> [i] | _ \<Rightarrow> []) outs)"

lemma outputs_simps [simp]:
  "records_of [] = []" "submits_of [] = []"
  "records_of (OutRecord r # os) = r # records_of os" "records_of (OutSubmit i # os) = records_of os"
  "records_of (OutIntentEvent i # os) = records_of os"
  "submits_of (OutRecord r # os) = submits_of os" "submits_of (OutSubmit i # os) = i # submits_of os"
  "submits_of (OutIntentEvent i # os) = submits_of os"
  "records_of (os @ os') = records_of os @ records_of os'" "submits_of (os @ os') = submits_of os @ submits_of os'"
  by (simp_all add: records_of_def submits_of_def)

text \<open>A record under construction has no intents and the default outcome.\<close>

definition rb_clean :: "decision_record \<Rightarrow> bool" where
  "rb_clean r = (dr_intents r = [] \<and> dr_outcome r = NO_ACTION)"

lemma rb_clean_builders [simp]:
  "rb_clean (with_calibration_output c r) = rb_clean r" "rb_clean (with_feature_frame f r) = rb_clean r"
  "rb_clean (with_model_output m r) = rb_clean r" "rb_clean (with_calibrated_output cc r) = rb_clean r"
  "rb_clean (with_edge_output e r) = rb_clean r" "rb_clean (with_vol_output v r) = rb_clean r"
  "rb_clean (with_risk_output k r) = rb_clean r" "rb_clean (with_position a b c' r) = rb_clean r"
  by (simp_all add: rb_clean_def builder_defs)

lemma start_record_clean: "rb_clean (start_record c sy book d tr)"
  by (auto simp: start_record_def Let_def split: option.split)
    (simp_all add: rb_clean_def new_record_def builder_defs)

fun verdict_ok :: "verdict \<Rightarrow> bool" where
  "verdict_ok (Blocked oc t) = (oc \<in> {BLOCKED_DEADBAND, BLOCKED_CHURN_GUARD, BLOCKED_SPREAD_WIDE, BLOCKED_DEPTH_THIN})"
| "verdict_ok (Emit is) = (is \<noteq> [])"
| "verdict_ok _ = True"

lemma gating_ok: "gating hp sy d rb env = (hp', rb', v) \<Longrightarrow> rb_clean rb \<Longrightarrow>
    rb_clean rb' \<and> (\<forall>x. v = Inl x \<longrightarrow> verdict_ok x)"
  by (auto simp: gating_def Let_def split: option.splits prod.splits if_splits)

lemma signal_ok: "signal_stages sg p d rb = (p', rb', v) \<Longrightarrow> rb_clean rb \<Longrightarrow>
    rb_clean rb' \<and> (\<forall>x. v = Inl x \<longrightarrow> verdict_ok x)"
  by (auto simp: signal_stages_def Let_def split: prod.splits sum.splits if_splits)

lemma sizing_ok: "sizing_stages sg c p d m ed rb = (p', rb', v) \<Longrightarrow> rb_clean rb \<Longrightarrow> rb_clean rb' \<and> verdict_ok v"
  by (auto simp: sizing_stages_def Let_def split: prod.splits sum.splits if_splits)

lemma submit_intents_outs:
  "submit_intents tr is pend = (pend', outs) \<Longrightarrow> records_of outs = [] \<and> submits_of outs = map (\<lambda>i. i\<lparr>ei_trace_id := tr\<rparr>) is"
  by (induction "is" arbitrary: pend pend' outs) (auto simp: Let_def split: prod.splits)

text \<open>What a pipeline run adds to the counters and the outputs.\<close>

definition audited :: "('s, 'p) hot_path \<Rightarrow> ('s, 'p) hot_path \<Rightarrow> hot_output list \<Rightarrow> bool" where
  "audited hp hp' outs = (\<exists>r. records_of outs = [r] \<and> submits_of outs = dr_intents r \<and>
     (dr_outcome r = INTENT_EMITTED \<longleftrightarrow> dr_intents r \<noteq> []) \<and>
     hp_emitted hp' = hp_emitted hp + length (dr_intents r) \<and>
     hp_blocked hp' = hp_blocked hp + (if dr_is_blocked r then 1 else 0) \<and>
     hp_decisions hp' = hp_decisions hp + (if dr_outcome r = INTENT_EMITTED then 1 else 0))"

lemma conclude_audited:
  assumes "conclude hp tr rb v = (hp', outs)" "rb_clean rb" "verdict_ok v"
  shows "audited hp hp' outs"
proof (cases v)
  case (Blocked oc t)
  with assms show ?thesis unfolding audited_def
    by (intro exI [of _ "with_outcome oc t rb"]) (auto simp: conclude_def rb_clean_def dr_is_blocked_def)
next
  case (NoAction t)
  with assms show ?thesis unfolding audited_def
    by (intro exI [of _ "with_outcome NO_ACTION t rb"]) (auto simp: conclude_def rb_clean_def dr_is_blocked_def)
next
  case (Failed e)
  with assms show ?thesis unfolding audited_def
    by (intro exI [of _ "with_error ''pipeline'' e rb"])
      (auto simp: conclude_def rb_clean_def dr_is_blocked_def stage_outcome_def)
next
  case (Emit "is")
  obtain pend os where s: "submit_intents tr is (hp_pending hp) = (pend, os)" by force
  from submit_intents_outs [OF s] Emit s assms show ?thesis unfolding audited_def
    by (intro exI [of _ "with_intents (map (\<lambda>i. i\<lparr>ei_trace_id := tr\<rparr>) is) rb"])
      (auto simp: conclude_def dr_is_blocked_def)
qed

definition same_counters :: "('s, 'p) hot_path \<Rightarrow> ('s, 'p) hot_path \<Rightarrow> bool" where
  "same_counters h h' = (hp_emitted h' = hp_emitted h \<and> hp_blocked h' = hp_blocked h \<and> hp_decisions h' = hp_decisions h \<and>
     hp_ticks h' = hp_ticks h \<and> hp_kill h' = hp_kill h \<and> hp_guardian h' = hp_guardian h \<and> hp_tick_timings h' = hp_tick_timings h)"

lemma gating_counters: "gating hp sy d rb env = (hp', rb', v) \<Longrightarrow> same_counters hp hp'"
  by (auto simp: gating_def same_counters_def store_gate_calibrator_def Let_def
      split: option.splits prod.splits if_splits hot_gate.splits)

lemma conclude_frame: "conclude hp tr rb v = (hp', outs) \<Longrightarrow> hp_guardian hp' = hp_guardian hp \<and> hp_kill hp' = hp_kill hp \<and>
    hp_ticks hp' = hp_ticks hp \<and> hp_tick_timings hp' = hp_tick_timings hp"
  by (auto simp: conclude_def Let_def split: verdict.splits prod.splits)

lemma audited_same: "same_counters h h1 \<Longrightarrow> audited (h1\<lparr>hp_stage_state := p\<rparr>) h' outs \<Longrightarrow> audited h h' outs"
  "same_counters h h1 \<Longrightarrow> audited h1 h' outs \<Longrightarrow> audited h h' outs"
  by (auto simp: same_counters_def audited_def)

text \<open>A pipeline run: halted by the kill switch, or concluded with a verdict on a clean record.\<close>

lemma pipeline_cases:
  assumes "run_decision_pipeline sg hp sy book env = (hp', outs)"
  obtains (halted) "is_active (hp_kill hp)" "hp' = hp\<lparr>hp_blocked := Suc (hp_blocked hp)\<rparr>"
      "\<exists>r. outs = [OutRecord r] \<and> dr_outcome r = BLOCKED_KILL_SWITCH \<and> dr_intents r = []"
  | (decided) h1 p rb v where "\<not> is_active (hp_kill hp)" "same_counters hp h1" "rb_clean rb" "verdict_ok v"
      "conclude (h1\<lparr>hp_stage_state := p\<rparr>) (te_trace_id env) rb v = (hp', outs)"
proof (cases "is_active (hp_kill hp)")
  case True
  with assms show thesis
    by (intro halted) (auto simp: run_decision_pipeline_def new_record_def builder_defs with_outcome_def Let_def)
next
  case False
  let ?d = "build_decision_input hp sy book (te_ts_wall env) (te_ts_mono env)"
  let ?rb = "start_record (hp_config hp) sy book ?d (te_trace_id env)"
  obtain h1 rb1 v1 where g: "gating hp sy ?d ?rb env = (h1, rb1, v1)" by (metis prod_cases3)
  note g_ok = gating_ok [OF g start_record_clean] and g_c = gating_counters [OF g]
  show thesis
  proof (cases v1)
    case (Inl v)
    have "conclude (h1\<lparr>hp_stage_state := hp_stage_state h1\<rparr>) (te_trace_id env) rb1 v = (hp', outs)"
      using assms False g Inl by (simp add: run_decision_pipeline_def Let_def)
    with decided [OF False g_c] g_ok Inl show thesis by blast
  next
    case (Inr mult)
    obtain p2 rb2 v2 where s: "signal_stages sg (hp_stage_state h1) ?d rb1 = (p2, rb2, v2)" by (metis prod_cases3)
    note s_ok = signal_ok [OF s]
    show thesis
    proof (cases v2)
      case (Inl v)
      have "conclude (h1\<lparr>hp_stage_state := p2\<rparr>) (te_trace_id env) rb2 v = (hp', outs)"
        using assms False g s Inl \<open>v1 = Inr mult\<close> by (simp add: run_decision_pipeline_def Let_def)
      with decided [OF False g_c] g_ok s_ok Inl show thesis by blast
    next
      case (Inr ed)
      obtain p3 rb3 v where z: "sizing_stages sg (hp_config h1) p2 ?d mult ed rb2 = (p3, rb3, v)" by (metis prod_cases3)
      have "conclude (h1\<lparr>hp_stage_state := p3\<rparr>) (te_trace_id env) rb3 v = (hp', outs)"
        using assms False g s z Inr \<open>v1 = Inr mult\<close> by (simp add: run_decision_pipeline_def Let_def)
      with decided [OF False g_c] g_ok s_ok sizing_ok [OF z] show thesis by blast
    qed
  qed
qed

lemma pipeline_audited:
  assumes "run_decision_pipeline sg hp sy book env = (hp', outs)"
  shows "audited hp hp' outs \<and> hp_guardian hp' = hp_guardian hp \<and> hp_kill hp' = hp_kill hp \<and>
    hp_ticks hp' = hp_ticks hp \<and> hp_tick_timings hp' = hp_tick_timings hp"
  using assms
proof (cases rule: pipeline_cases)
  case halted
  then show ?thesis by (auto simp: audited_def dr_is_blocked_def)
next
  case (decided h1 p rb v)
  from audited_same(1) [OF decided(2) conclude_audited [OF decided(5,3,4)]] conclude_frame [OF decided(5)] decided(2)
  show ?thesis by (simp add: same_counters_def)
qed

text \<open>A tick: a book reaches the pipeline exactly when \<open>handle_update\<close> returns one.\<close>

lemma handled_book_quoteable: "handle_update ops g sy u w0 m w = (g', Inr (Some b), n) \<Longrightarrow> is_quoteable g' sy"
proof (erule handle_update_cases)
  fix s' r h
  assume c: "check ops (g\<lparr>gd_sync := s'\<rparr>) sy m w = (g', h, n)"
    and o: "Inr (Some b) = Inr (if sr_book r = None \<or> sr_resync_requested r \<or> \<not> hl_is_tradeable h then None else sr_book r)"
  from o have "hl_is_tradeable h" by (auto split: if_splits)
  with check_simps [OF c, of sy] show "is_quoteable g' sy" by (simp add: is_quoteable_def)
qed simp

lemma tick_cases:
  assumes "on_book_update ops sg hp sy u env = (hp', outs)"
    "handle_update ops (hp_guardian hp) sy u (te_update_wall env) (te_check_mono env) (te_check_wall env) = (g, res, n)"
  obtains (no_book) "\<not> (\<exists>b. res = Inr (Some b))" "outs = []" "same_counters (hp\<lparr>hp_ticks := Suc (hp_ticks hp), hp_guardian := g,
        hp_tick_timings := hp_tick_timings hp + (if \<exists>e. res = Inl e then 1 else 2)\<rparr>) hp'"
  | (pipeline) b h where "res = Inr (Some b)" "is_quoteable g sy"
      "run_decision_pipeline sg (hp\<lparr>hp_ticks := Suc (hp_ticks hp), hp_guardian := g\<rparr>) sy b env = (h, outs)"
      "hp' = h\<lparr>hp_tick_timings := hp_tick_timings h + 1\<rparr>"
proof (cases "\<exists>b. res = Inr (Some b)")
  case True
  then obtain b where b: "res = Inr (Some b)" by blast
  with handled_book_quoteable assms(2) have q: "is_quoteable g sy" by blast
  obtain h os where r: "run_decision_pipeline sg (hp\<lparr>hp_ticks := Suc (hp_ticks hp), hp_guardian := g\<rparr>) sy b env = (h, os)" by force
  with assms b q have "outs = os" "hp' = h\<lparr>hp_tick_timings := hp_tick_timings h + 1\<rparr>" by (simp_all add: on_book_update_def)
  with pipeline [OF b q] r show thesis by blast
next
  case False
  with assms show thesis
    by (intro no_book) (auto simp: on_book_update_def same_counters_def Let_def split: sum.splits option.splits)
qed

section \<open>Runs\<close>

datatype hot_event =
    HUpdate string book_update tick_env
  | HTrade string details
  | HPosition string position
  | HAccount pyfloat pyfloat
  | HOrder "string option" string pyfloat
  | HKill ks_event

text \<open>The state with everything it has output so far.\<close>

fun hot_step :: "'s sync_ops \<Rightarrow> 'p stages \<Rightarrow> ('s, 'p) hot_path \<times> hot_output list \<Rightarrow> hot_event \<Rightarrow>
    ('s, 'p) hot_path \<times> hot_output list" where
  "hot_step ops sg (hp, outs) (HUpdate sy u env) = (let (hp', os) = on_book_update ops sg hp sy u env in (hp', outs @ os))"
| "hot_step ops sg (hp, outs) (HTrade sy t) = (on_trade hp sy t, outs)"
| "hot_step ops sg (hp, outs) (HPosition sy p) = (update_position hp sy p, outs)"
| "hot_step ops sg (hp, outs) (HAccount e m) = (update_account hp e m, outs)"
| "hot_step ops sg (hp, outs) (HOrder c st f) = (wired_order_update hp c st f, outs)"
| "hot_step ops sg (hp, outs) (HKill e) = (hp\<lparr>hp_kill := fst (ks_apply (hp_kill hp) e)\<rparr>, outs)"

fun is_kill_reset :: "hot_event \<Rightarrow> bool" where
  "is_kill_reset (HKill e) = is_reset e"
| "is_kill_reset _ = False"

definition hot_stats :: "('s, 'p) hot_path \<times> hot_output list \<Rightarrow> bool" where
  "hot_stats s = (case s of (hp, outs) \<Rightarrow>
     submits_of outs = concat (map dr_intents (records_of outs)) \<and>
     hp_emitted hp = length (submits_of outs) \<and>
     hp_blocked hp = length (filter dr_is_blocked (records_of outs)) \<and>
     hp_decisions hp = length (filter (\<lambda>r. dr_outcome r = INTENT_EMITTED) (records_of outs)))"

lemma tick_audited:
  assumes t: "on_book_update ops sg hp sy u env = (hp', outs)"
    and hu: "handle_update ops (hp_guardian hp) sy u (te_update_wall env) (te_check_mono env) (te_check_wall env) = (g, res, n)"
  shows "hp_guardian hp' = g \<and> hp_kill hp' = hp_kill hp \<and> hp_ticks hp' = Suc (hp_ticks hp) \<and>
    hp_tick_timings hp' = hp_tick_timings hp + (case res of Inr None \<Rightarrow> 2 | _ \<Rightarrow> 1) \<and>
    (if \<exists>b. res = Inr (Some b) then audited hp hp' outs
     else outs = [] \<and> hp_emitted hp' = hp_emitted hp \<and> hp_blocked hp' = hp_blocked hp \<and> hp_decisions hp' = hp_decisions hp)"
  using t hu
proof (cases rule: tick_cases)
  case no_book
  then show ?thesis by (auto simp: same_counters_def split: sum.splits option.splits)
next
  case (pipeline b h)
  from pipeline_audited [OF pipeline(3)] pipeline show ?thesis by (auto simp: audited_def)
qed

lemma hot_stats_step: "hot_stats s \<Longrightarrow> hot_stats (hot_step ops sg s e)"
proof (cases s)
  case s: (Pair hp outs)
  assume i: "hot_stats s"
  show ?thesis
  proof (cases e)
    case (HUpdate sy u env)
    obtain g res n where hu: "handle_update ops (hp_guardian hp) sy u (te_update_wall env) (te_check_mono env) (te_check_wall env) = (g, res, n)"
      by (metis prod_cases3)
    obtain hp' os where t: "on_book_update ops sg hp sy u env = (hp', os)" by force
    from tick_audited [OF t hu] i show ?thesis
      by (auto simp: s HUpdate t hot_stats_def audited_def split: if_splits)
  qed (use i in \<open>auto simp: s hot_stats_def on_trade_def update_position_def update_account_def wired_order_update_def
      on_order_update_def Let_def split: option.splits\<close>)
qed

lemma killed_kill_apply: "is_killed k \<Longrightarrow> \<not> is_reset e \<Longrightarrow> is_killed (fst (ks_apply k e))"
  using killed_apply by fastforce

lemma killed_tick:
  assumes "is_killed (hp_kill hp)" "on_book_update ops sg hp sy u env = (hp', outs)"
  shows "submits_of outs = [] \<and> is_killed (hp_kill hp')"
proof -
  obtain g res n where hu: "handle_update ops (hp_guardian hp) sy u (te_update_wall env) (te_check_mono env) (te_check_wall env) = (g, res, n)"
    by (metis prod_cases3)
  from assms(2) hu show ?thesis
  proof (cases rule: tick_cases)
    case no_book
    with assms(1) show ?thesis by (simp add: same_counters_def)
  next
    case (pipeline b h)
    from pipeline(3) show ?thesis
    proof (cases rule: pipeline_cases)
      case halted
      with assms(1) pipeline(4) show ?thesis by auto
    qed (use assms(1) in \<open>simp add: is_active_def\<close>)
  qed
qed

interpretation hot: latch "hot_step ops sg" "\<lambda>e. True" hot_stats "\<lambda>s. is_killed (hp_kill (fst s))" is_kill_reset
  "\<lambda>s. submits_of (snd s)" for ops sg
proof
  show "hot_stats s \<Longrightarrow> hot_stats (hot_step ops sg s e)" for s e by (rule hot_stats_step)
next
  fix s :: "('a, 'b) hot_path \<times> hot_output list" and e
  assume k: "is_killed (hp_kill (fst s))" and r: "\<not> is_kill_reset e"
  obtain hp outs where s: "s = (hp, outs)" by force
  show "is_killed (hp_kill (fst (hot_step ops sg s e))) \<and> submits_of (snd (hot_step ops sg s e)) = submits_of (snd s)"
  proof (cases e)
    case (HUpdate sy u env)
    obtain hp' os where t: "on_book_update ops sg hp sy u env = (hp', os)" by force
    from killed_tick [OF _ t] k show ?thesis by (simp add: s HUpdate t)
  next
    case (HKill e')
    with k r killed_kill_apply show ?thesis by (simp add: s)
  qed (use k in \<open>auto simp: s on_trade_def update_position_def update_account_def wired_order_update_def
      on_order_update_def Let_def split: option.splits\<close>)
qed

definition hot_run :: "'s sync_ops \<Rightarrow> 'p stages \<Rightarrow> ('s, 'p) hot_path \<Rightarrow> hot_event list \<Rightarrow> ('s, 'p) hot_path \<times> hot_output list" where
  "hot_run ops sg hp es = foldl (hot_step ops sg) (hp, []) es"

lemma hot_run_stats: "hot_stats (hot_run ops sg (hot_path_init g k p cfg cal gt) es)"
  unfolding hot_run_def
  by (rule hot.run_inv) (simp_all add: hot_stats_def hot_path_init_def list_all_iff)

lemma conclude_trace: "conclude hp tr rb v = (hp', outs) \<Longrightarrow> i \<in> set (submits_of outs) \<Longrightarrow> ei_trace_id i = tr"
  by (auto simp: conclude_def submit_intents_outs split: verdict.splits prod.splits dest!: submit_intents_outs)

text \<open>The path of a tick on which no stage fails, blocks or declines.\<close>

lemma signal_stages_pass:
  assumes "sg_build sg p d = (p1, Inr f)" "sg_infer sg p1 f = (p2, Inr m)" "sg_calibrate sg p2 m = (p3, Inr c)"
    "sg_edge sg p3 (cal_p_hat c) = (p4, Inr ed)" "\<not> ed_deadband_blocked ed"
  shows "\<exists>rb'. signal_stages sg p d rb = (p4, rb', Inr ed)"
  using assms by (simp add: signal_stages_def Let_def)

lemma sizing_stages_pass:
  assumes "sg_vol sg p d = (p1, Inr v)" "sg_map sg p1 (ed_s ed) (vo_vol_hat v) d = (p2, Inr r)"
    "\<not> rk_churn_guard_blocked r" "sg_policy sg p2 r d = (p3, Inr is)" "is \<noteq> []" "hc_allow_entries c" "hc_allow_exits c"
  shows "\<exists>rb'. sizing_stages sg c p d 1 ed rb = (p3, rb', Emit is)"
  using assms by (simp add: sizing_stages_def apply_multiplier_def Let_def)

lemma tick_emits:
  assumes "\<not> is_active (hp_kill hp)" "hp_calibrator hp = None" "hp_gate hp = None"
    "handle_update ops (hp_guardian hp) sy u (te_update_wall env) (te_check_mono env) (te_check_wall env) = (g, Inr (Some b), n)"
    "d = build_decision_input hp sy b (te_ts_wall env) (te_ts_mono env)"
    "\<And>rb. \<exists>rb'. signal_stages sg (hp_stage_state hp) d rb = (p, rb', Inr ed)"
    "\<And>rb. \<exists>rb'. sizing_stages sg (hp_config hp) p d 1 ed rb = (p', rb', Emit is)"
  shows "submits_of (snd (on_book_update ops sg hp sy u env)) = map (\<lambda>i. i\<lparr>ei_trace_id := te_trace_id env\<rparr>) is"
proof -
  let ?hp = "hp\<lparr>hp_ticks := Suc (hp_ticks hp), hp_guardian := g\<rparr>"
  let ?rb = "start_record (hp_config hp) sy b d (te_trace_id env)"
  have d: "build_decision_input ?hp sy b (te_ts_wall env) (te_ts_mono env) = d"
    by (simp add: assms(5) build_decision_input_def)
  obtain rb1 where 1: "signal_stages sg (hp_stage_state hp) d ?rb = (p, rb1, Inr ed)" using assms(6) by blast
  obtain rb2 where 2: "sizing_stages sg (hp_config hp) p d 1 ed rb1 = (p', rb2, Emit is)" using assms(7) by blast
  obtain pend os where s: "submit_intents (te_trace_id env) is (hp_pending hp) = (pend, os)" by force
  have "submits_of (snd (run_decision_pipeline sg ?hp sy b env)) = map (\<lambda>i. i\<lparr>ei_trace_id := te_trace_id env\<rparr>) is"
    using assms(1-3) 1 2 s submit_intents_outs [OF s]
    by (simp add: run_decision_pipeline_def d gating_def conclude_def Let_def)
  with assms(4) handled_book_quoteable [OF assms(4)] show ?thesis
    by (simp add: on_book_update_def case_prod_beta Let_def)
qed

section \<open>Properties\<close>

text \<open>A set-up for the witnesses: the default stages, with a model that is sure of a rise.\<close>

definition sample_stages :: "int stages" where
  "sample_stages = (standard_stages simple_id)\<lparr>sg_infer := (\<lambda>n f. (n, Inr (passthrough_infer ''sample:1'' 1 f)))\<rparr>"

definition sample_env :: tick_env where
  "sample_env = \<lparr>te_update_wall = 52, te_check_mono = 3, te_check_wall = 52, te_trace_id = ''t1'', te_ts_wall = 52,
     te_ts_mono = 3, te_observe_time = 52, te_gate_time = 52\<rparr>"

definition sample_path :: "(bybit_sync, int) hot_path" where
  "sample_path = update_account (hot_path_init sample_guardian (ks_init None False) 0 None None None) 10000 10000"

definition sample_tick :: "(bybit_sync, int) hot_path \<times> hot_output list" where
  "sample_tick = on_book_update bybit_ops sample_stages sample_path ''BTC'' sample_update sample_env"

definition sample_tick_book :: order_book where
  "sample_tick_book =
     \<lparr>ob_symbol = ''BTC'',
      ob_bids = [\<lparr>lv_price = 100, lv_size = 1, lv_count = None\<rparr>, \<lparr>lv_price = 99, lv_size = 7, lv_count = None\<rparr>],
      ob_asks = [\<lparr>lv_price = 101, lv_size = 3, lv_count = None\<rparr>, \<lparr>lv_price = 102, lv_size = 1, lv_count = None\<rparr>],
      ob_update_id = Some 11, ob_timestamp = Some 51, ob_local_timestamp = None\<rparr>"

definition sample_tick_input :: decision_input where
  "sample_tick_input = build_decision_input sample_path ''BTC'' sample_tick_book 52 3"

definition sample_tick_risk :: risk_output where
  "sample_tick_risk = fixed_size_map default_fixed_size 1 0 sample_tick_input"

lemma sample_signal: "\<exists>rb'. signal_stages sample_stages p sample_tick_input rb =
    (p, rb', Inr \<lparr>ed_s = 1, ed_k = 2, ed_tau = fl (15 / 100), ed_deadband_blocked = False\<rparr>)"
proof -
  have "di_current_position sample_tick_input = None"
    by (simp add: sample_tick_input_def build_decision_input_def sample_path_def update_account_def hot_path_init_def)
  then obtain f where f: "build_features (fb_init ''v1.0.0'' None) sample_tick_input = Inr f"
    using build_features_raises by (cases "build_features (fb_init ''v1.0.0'' None) sample_tick_input")
      (auto simp: position_breaks_features_def)
  have e: "linear_to_edge 2 (fl (15 / 100)) 1 = \<lparr>ed_s = 1, ed_k = 2, ed_tau = fl (15 / 100), ed_deadband_blocked = False\<rparr>"
    by code_simp
  have c: "cal_p_hat (identity_calibrate v (passthrough_infer w 1 f)) = 1" for v w
    by (simp add: passthrough_infer_def identity_calibrate_def)
  show ?thesis
    by (rule signal_stages_pass [where f = f and m = "passthrough_infer ''sample:1'' 1 f" and ?p1.0 = p and ?p2.0 = p
        and ?p3.0 = p and c = "identity_calibrate ''identity:1.0.0'' (passthrough_infer ''sample:1'' 1 f)"])
      (simp_all add: sample_stages_def standard_stages_def f c e [simplified])
qed

lemma sample_tick_policy: "\<exists>i. sg_policy sample_stages 0 sample_tick_risk sample_tick_input = (1, Inr [i])"
proof -
  have "(case market_build simple_id \<lparr>mp_version = ''market:1.0.0'', mp_strategy_id = ''default'', mp_bucket_ms = 1000,
      mp_protective = None\<rparr> 0 sample_tick_risk sample_tick_input of (n', Inr [i]) \<Rightarrow> n' = 1 | _ \<Rightarrow> False)"
    by code_simp
  then show ?thesis
    by (auto simp: sample_stages_def standard_stages_def split: prod.splits sum.splits list.splits)
qed

lemma sample_tick_submits: "submits_of (snd sample_tick) \<noteq> []"
proof -
  obtain i where i: "sg_policy sample_stages 0 sample_tick_risk sample_tick_input = (1, Inr [i])"
    using sample_tick_policy by blast
  have r: "\<not> rk_churn_guard_blocked sample_tick_risk" by code_simp
  have z: "\<exists>rb'. sizing_stages sample_stages default_hot_path_config 0 sample_tick_input 1
      \<lparr>ed_s = 1, ed_k = 2, ed_tau = fl (15 / 100), ed_deadband_blocked = False\<rparr> rb = (1, rb', Emit [i])" for rb
    by (rule sizing_stages_pass [OF _ _ r i, where ?p1.0 = 0 and v = "simple_vol ''spread_proxy:1.0.0'' (fl (20 / 100)) 100 sample_tick_input"])
      (simp_all add: sample_stages_def standard_stages_def default_hot_path_config_def sample_tick_risk_def fixed_size_map_def)
  have h: "\<exists>g n. handle_update bybit_ops sample_guardian ''BTC'' sample_update 52 3 52 = (g, Inr (Some sample_tick_book), n)"
  proof -
    have "(case handle_update bybit_ops sample_guardian ''BTC'' sample_update 52 3 52 of
        (g, Inr (Some b), n) \<Rightarrow> b = sample_tick_book | _ \<Rightarrow> False)" by code_simp
    then show ?thesis by (auto split: prod.splits sum.splits option.splits)
  qed
  then obtain g n where h: "handle_update bybit_ops sample_guardian ''BTC'' sample_update 52 3 52 = (g, Inr (Some sample_tick_book), n)"
    by blast
  have p: "hp_kill sample_path = ks_init None False" "hp_calibrator sample_path = None" "hp_gate sample_path = None"
    "hp_guardian sample_path = sample_guardian" "hp_config sample_path = default_hot_path_config" "hp_stage_state sample_path = 0"
    by (simp_all add: sample_path_def update_account_def hot_path_init_def)
  have "submits_of (snd sample_tick) = map (\<lambda>i. i\<lparr>ei_trace_id := te_trace_id sample_env\<rparr>) [i]"
    unfolding sample_tick_def
    by (rule tick_emits [where d = sample_tick_input and p = 0 and p' = 1 and g = g and b = sample_tick_book and n = n,
        OF _ _ _ _ _ _ ])
      (use sample_signal z h in \<open>simp_all add: p is_active_def is_killed_def ks_init_def sample_env_def sample_tick_input_def\<close>)
  then show ?thesis by simp
qed

text \<open>C1: Safety of a tick on Bybit: an intent is submitted only if the kill switch is not active, the symbol is
  quoteable after the update, and its stored book is coherent and within the gate's limits (not stale, not
  crossed, spread, depth and size) at the check's clock reading; the intent carries the tick's trace id.\<close>

theorem submission_needs_safe_book:
  assumes "on_book_update bybit_ops sg hp sy u env = (hp', outs)" "i \<in> set (submits_of outs)"
  shows "\<not> is_active (hp_kill hp) \<and> is_quoteable (hp_guardian hp') sy \<and> ei_trace_id i = te_trace_id env \<and>
    co_is_coherent (base_get_coherence (gd_sync (hp_guardian hp')) sy) \<and>
    (\<exists>b. base_get_book (gd_sync (hp_guardian hp')) sy = Some b \<and> passes_gate (gd_config (hp_guardian hp)) (te_check_wall env) b)"
proof -
  obtain g res n where hu: "handle_update bybit_ops (hp_guardian hp) sy u (te_update_wall env) (te_check_mono env)
      (te_check_wall env) = (g, res, n)" by (metis prod_cases3)
  from assms(1) hu show ?thesis
  proof (cases rule: tick_cases)
    case no_book
    with assms(2) show ?thesis by simp
  next
    case (pipeline b h)
    have g: "hp_guardian hp' = g" using pipeline_audited [OF pipeline(3)] pipeline(4) by simp
    have safe: "so_get_book bybit_ops (gd_sync g) sy = Some b" "co_is_coherent (so_get_coherence bybit_ops (gd_sync g) sy)"
      "passes_gate (gd_config (hp_guardian hp)) (te_check_wall env) b"
      using bybit.handle_update_safe hu pipeline(1) by blast+
    from pipeline(3) show ?thesis
    proof (cases rule: pipeline_cases)
      case halted
      with assms(2) show ?thesis by auto
    next
      case (decided h1 p rb v)
      have "ei_trace_id i = te_trace_id env" using conclude_trace [OF decided(5) assms(2)] .
      with g safe pipeline(2) decided(1) show ?thesis by (simp add: bybit_ops_def)
    qed
  qed
qed

lemma submission_needs_safe_book_witness:
  "\<exists>i. i \<in> set (submits_of (snd sample_tick)) \<and> ei_trace_id i = ''t1'' \<and> is_quoteable (hp_guardian (fst sample_tick)) ''BTC''"
proof -
  obtain hp' outs where t: "on_book_update bybit_ops sample_stages sample_path ''BTC'' sample_update sample_env = (hp', outs)"
    by force
  obtain i where i: "i \<in> set (submits_of outs)"
    using sample_tick_submits t by (cases "submits_of outs") (auto simp: sample_tick_def)
  from submission_needs_safe_book [OF t i] i t show ?thesis by (auto simp: sample_tick_def sample_env_def)
qed

text \<open>C2: A killed hot path is silent: once the kill switch is active, whatever book updates, trades, positions, account
  and order updates and kill-switch events follow, no further intent is submitted and the switch stays active,
  until the switch is reset.\<close>

theorem killed_path_is_silent:
  assumes "is_killed (hp_kill (fst (hot_run ops sg (hot_path_init g k p cfg cal gt) es)))" "\<not> list_ex is_kill_reset es'"
  shows "submits_of (snd (hot_run ops sg (hot_path_init g k p cfg cal gt) (es @ es'))) =
      submits_of (snd (hot_run ops sg (hot_path_init g k p cfg cal gt) es)) \<and>
    is_killed (hp_kill (fst (hot_run ops sg (hot_path_init g k p cfg cal gt) (es @ es'))))"
  using hot.run_closed [OF hot_run_stats _ assms] by (simp add: hot_run_def list_all_iff)

definition sample_start :: "(bybit_sync, int) hot_path" where
  "sample_start = hot_path_init sample_guardian (ks_init None False) 0 None None None"

lemma killed_path_is_silent_witness:
  "submits_of (snd (hot_run bybit_ops sample_stages sample_start
     [HKill (KTrigger TR_MANUAL None sample_reading), HAccount 10000 10000, HUpdate ''BTC'' sample_update sample_env])) = []"
proof -
  let ?es = "[HKill (KTrigger TR_MANUAL None sample_reading)]"
  have "is_killed (hp_kill (fst (hot_run bybit_ops sample_stages sample_start ?es)))"
    "submits_of (snd (hot_run bybit_ops sample_stages sample_start ?es)) = []"
    by (simp_all add: hot_run_def sample_start_def hot_path_init_def ks_init_def trigger_def is_killed_def Let_def)
  with killed_path_is_silent [where ops = bybit_ops and sg = sample_stages and g = sample_guardian and k = "ks_init None False"
      and p = 0 and cfg = None and cal = None and gt = None and es = ?es
      and es' = "[HAccount 10000 10000, HUpdate ''BTC'' sample_update sample_env]"]
  show ?thesis by (simp add: sample_start_def)
qed

text \<open>C6: One record per handled book: a tick emits exactly one decision record when the guardian hands out a book and no
  output at all otherwise; the submitted intents are the record's intents, in order, and each counter grows by what
  the record says.\<close>

theorem one_record_per_handled_book:
  assumes "on_book_update ops sg hp sy u env = (hp', outs)"
    "handle_update ops (hp_guardian hp) sy u (te_update_wall env) (te_check_mono env) (te_check_wall env) = (g, res, notes)"
  shows "hp_guardian hp' = g \<and> hp_kill hp' = hp_kill hp \<and> hp_ticks hp' = Suc (hp_ticks hp) \<and>
    (if \<exists>b. res = Inr (Some b) then
       \<exists>r. records_of outs = [r] \<and> submits_of outs = dr_intents r \<and> (dr_outcome r = INTENT_EMITTED \<longleftrightarrow> dr_intents r \<noteq> []) \<and>
         hp_emitted hp' = hp_emitted hp + length (dr_intents r) \<and>
         hp_blocked hp' = hp_blocked hp + (if dr_is_blocked r then 1 else 0) \<and>
         hp_decisions hp' = hp_decisions hp + (if dr_outcome r = INTENT_EMITTED then 1 else 0)
     else outs = [] \<and> hp_emitted hp' = hp_emitted hp \<and> hp_blocked hp' = hp_blocked hp \<and> hp_decisions hp' = hp_decisions hp)"
  using tick_audited [OF assms] unfolding audited_def by simp

lemma one_record_per_handled_book_witness:
  "\<exists>r. records_of (snd sample_tick) = [r] \<and> submits_of (snd sample_tick) = dr_intents r \<and> dr_outcome r = INTENT_EMITTED"
proof -
  obtain hp' outs where t: "on_book_update bybit_ops sample_stages sample_path ''BTC'' sample_update sample_env = (hp', outs)"
    by force
  obtain g res n where h: "handle_update bybit_ops (hp_guardian sample_path) ''BTC'' sample_update (te_update_wall sample_env)
      (te_check_mono sample_env) (te_check_wall sample_env) = (g, res, n)" by (metis prod_cases3)
  have "submits_of outs \<noteq> []" using sample_tick_submits t by (simp add: sample_tick_def)
  with one_record_per_handled_book [OF t h] t show ?thesis by (auto simp: sample_tick_def split: if_splits)
qed

text \<open>C12: The statistics never drift: after any run from the start, the submitted intents are the intents of the
  emitted records in order, and the counters of decisions, blocks and intents are the numbers of such records and
  intents.\<close>

theorem hot_path_statistics:
  "case hot_run ops sg (hot_path_init g k p cfg cal gt) es of (hp, outs) \<Rightarrow>
     submits_of outs = concat (map dr_intents (records_of outs)) \<and>
     hp_emitted hp = length (submits_of outs) \<and>
     hp_blocked hp = length (filter dr_is_blocked (records_of outs)) \<and>
     hp_decisions hp = length (filter (\<lambda>r. dr_outcome r = INTENT_EMITTED) (records_of outs))"
  using hot_run_stats [of ops sg g k p cfg cal gt es] by (simp add: hot_stats_def split: prod.split)

section \<open>The calibration gate inside the path\<close>

text \<open>The hot path shares one calibrator between observation and gate, with a positive blocking depth as fallback.\<close>

definition shared_calibration :: "calibration_config \<Rightarrow> ('s, 'p) hot_path \<times> hot_output list \<Rightarrow> bool" where
  "shared_calibration cfg s = (case s of (hp, outs) \<Rightarrow>
     submits_of outs = [] \<and> (\<exists>w. hp_gate hp = Some (SharedGate w)) \<and>
     (\<exists>c. hp_calibrator hp = Some c \<and> calibrator_inv c \<and> sy_config c = cfg))"

lemma gating_starves:
  assumes "shared_calibration cfg (hp, [])" "0 < cc_fallback_depth_block_usd cfg"
    "gating hp sy d rb env = (hp', rb', v)"
  shows "shared_calibration cfg (hp', []) \<and>
    (\<exists>oc t. v = Inl (Blocked oc t) \<and> oc \<in> {BLOCKED_SPREAD_WIDE, BLOCKED_DEPTH_THIN})"
proof -
  obtain w c where c: "hp_gate hp = Some (SharedGate w)" "hp_calibrator hp = Some c" "calibrator_inv c" "sy_config c = cfg"
    using assms(1) by (auto simp: shared_calibration_def)
  let ?sp = "fo_or (sn_spread_bps (di_book d)) 0"
  let ?c1 = "observe c sy (Some ?sp) (Some 0) (Some 0) (te_observe_time env)"
  have c1: "calibrator_inv ?c1" "sy_config ?c1 = cfg"
    using calibrator.step_inv [OF c(3), of "CObserve sy (Some ?sp) (Some 0) (Some 0) (te_observe_time env)"]
      calibrator_step_config [of c "CObserve sy (Some ?sp) (Some 0) (Some 0) (te_observe_time env)"] c(4) by simp_all
  obtain c2 th where t: "get_thresholds ?c1 sy (te_gate_time env) = (c2, th)" by force
  have c2: "calibrator_inv c2" "sy_config c2 = cfg"
    using calibrator.step_inv [OF c1(1), of "CThresholds sy (te_gate_time env)"]
      calibrator_step_config [of ?c1 "CThresholds sy (te_gate_time env)"] c1(2) t by simp_all
  have "thresholds_ok cfg th" using get_thresholds_ok [OF c1(1), of sy "te_gate_time env"] t c1(2) by simp
  then have th: "0 < th_depth_block_usd th" using assms(2) by (auto simp: thresholds_ok_def split: if_splits)
  then show ?thesis
    using assms(3) c c2 t
    by (auto simp: gating_def gate_check_def gate_output_def gate_calibrator_def store_gate_calibrator_def
        snapshot_depth_usd_def fo_or_def shared_calibration_def Let_def split: if_splits)
qed

lemma conclude_blocked: "conclude hp tr rb (Blocked oc t) = (hp', outs) \<Longrightarrow> submits_of outs = [] \<and>
    hp_gate hp' = hp_gate hp \<and> hp_calibrator hp' = hp_calibrator hp"
  by (auto simp: conclude_def)

lemma pipeline_starves:
  assumes "shared_calibration cfg (hp, [])" "0 < cc_fallback_depth_block_usd cfg"
    "run_decision_pipeline sg hp sy book env = (hp', outs)"
  shows "shared_calibration cfg (hp', []) \<and> submits_of outs = []"
proof (cases "is_active (hp_kill hp)")
  case True
  with assms show ?thesis by (auto simp: run_decision_pipeline_def shared_calibration_def Let_def)
next
  case False
  let ?d = "build_decision_input hp sy book (te_ts_wall env) (te_ts_mono env)"
  obtain h1 rb v where g: "gating hp sy ?d (start_record (hp_config hp) sy book ?d (te_trace_id env)) env = (h1, rb, v)"
    by (metis prod_cases3)
  obtain oc t where v: "v = Inl (Blocked oc t)" using gating_starves [OF assms(1,2) g] by blast
  have k: "conclude h1 (te_trace_id env) rb (Blocked oc t) = (hp', outs)"
    using assms(3) False g v by (simp add: run_decision_pipeline_def Let_def)
  from conclude_blocked [OF k] gating_starves [OF assms(1,2) g] show ?thesis by (auto simp: shared_calibration_def)
qed

lemma tick_starves:
  assumes "shared_calibration cfg (hp, [])" "0 < cc_fallback_depth_block_usd cfg"
    "on_book_update ops sg hp sy u env = (hp', outs)"
  shows "shared_calibration cfg (hp', []) \<and> submits_of outs = []"
proof -
  obtain g res n where hu: "handle_update ops (hp_guardian hp) sy u (te_update_wall env) (te_check_mono env) (te_check_wall env) = (g, res, n)"
    by (metis prod_cases3)
  show ?thesis
  proof (cases "\<exists>b. res = Inr (Some b)")
    case True
    then obtain b where b: "res = Inr (Some b)" by blast
    let ?hp = "hp\<lparr>hp_ticks := Suc (hp_ticks hp), hp_guardian := g\<rparr>"
    obtain h os where r: "run_decision_pipeline sg ?hp sy b env = (h, os)" by force
    have "shared_calibration cfg (?hp, [])" using assms(1) by (simp add: shared_calibration_def)
    from pipeline_starves [OF this assms(2) r] assms(3) hu b r handled_book_quoteable [of ops _ sy] show ?thesis
      by (auto simp: on_book_update_def shared_calibration_def Let_def split: if_splits)
  next
    case False
    with assms(1,3) hu show ?thesis
      by (auto simp: on_book_update_def shared_calibration_def Let_def split: sum.splits option.splits)
  qed
qed

interpretation starved: invariant_machine "hot_step ops sg" "\<lambda>e. True"
  "\<lambda>s. 0 < cc_fallback_depth_block_usd cfg \<longrightarrow> shared_calibration cfg s" for ops sg cfg
proof (unfold_locales, rule impI)
  fix s :: "('a, 'b) hot_path \<times> hot_output list" and e
  assume i: "0 < cc_fallback_depth_block_usd cfg \<longrightarrow> shared_calibration cfg s" and p: "0 < cc_fallback_depth_block_usd cfg"
  obtain hp outs where s: "s = (hp, outs)" by force
  have i0: "shared_calibration cfg (hp, [])" "submits_of outs = []" using i p by (auto simp: s shared_calibration_def)
  show "shared_calibration cfg (hot_step ops sg s e)"
  proof (cases e)
    case (HUpdate sy u env)
    obtain hp' os where t: "on_book_update ops sg hp sy u env = (hp', os)" by force
    from tick_starves [OF i0(1) p t] i0(2) show ?thesis by (simp add: s HUpdate t shared_calibration_def)
  qed (use i0 in \<open>auto simp: s shared_calibration_def on_trade_def update_position_def update_account_def
      wired_order_update_def on_order_update_def Let_def split: option.splits\<close>)
qed

text \<open>With a symbol calibrator the path never trades: the gate reads depths that a book snapshot does not carry, sees
  zero, and a positive blocking depth blocks every decision.  Whatever events arrive, from the start no intent is ever
  submitted.\<close>

theorem calibrated_path_never_trades:
  assumes "0 < cc_fallback_depth_block_usd (sy_config (calibrator_init cc))"
  shows "submits_of (snd (hot_run ops sg (hot_path_init g k p cfg (Some (calibrator_init cc)) None) es)) = []"
proof -
  let ?hp = "hot_path_init g k p cfg (Some (calibrator_init cc)) None"
  have "shared_calibration (sy_config (calibrator_init cc)) (?hp, [])"
    by (auto simp: shared_calibration_def hot_path_init_def calibrator_inv_def calibrator_init_def
        intro: exI [of _ "1 / 2"])
  with starved.run_inv [of "sy_config (calibrator_init cc)" "(?hp, [])" es ops sg] assms show ?thesis
    by (auto simp: hot_run_def shared_calibration_def list_all_iff split: prod.splits)
qed

lemma calibrated_path_never_trades_witness:
  "submits_of (snd (hot_run bybit_ops sample_stages
     (hot_path_init sample_guardian (ks_init None False) 0 None (Some (calibrator_init None)) None)
     [HAccount 10000 10000, HUpdate ''BTC'' sample_update sample_env])) = []"
  by (rule calibrated_path_never_trades) (simp add: calibrator_init_def default_calibration_config_def)

text \<open>With the default feature builder an open position stops trading: when the position's entry price and the mid price
  are positive the pipeline ends in a feature-build error, submits nothing (so no exit either) and counts neither a
  decision nor a block.\<close>

theorem open_position_stops_trading:
  assumes "\<not> is_active (hp_kill hp)" "hp_calibrator hp = None" "hp_gate hp = None" "sg_build sg = (\<lambda>p d. (p, build_features b d))"
    "d_get (hp_positions hp) sy = Some pos" "po_size pos \<noteq> 0" "po_entry_price pos = Some e" "0 < e"
    "mid_price book = Some m" "0 < m"
  shows "\<exists>hp' r. run_decision_pipeline sg hp sy book env = (hp', [OutRecord r]) \<and> dr_outcome r = ERROR_FEATURE_BUILD \<and>
    dr_intents r = [] \<and> hp_decisions hp' = hp_decisions hp \<and> hp_blocked hp' = hp_blocked hp"
proof -
  let ?d = "build_decision_input hp sy book (te_ts_wall env) (te_ts_mono env)"
  have "position_breaks_features ?d"
    using assms(5-) by (simp add: position_breaks_features_def build_decision_input_def snapshot_of_book_def Let_def)
  then have "build_features b ?d = Inl (OtherError ''AttributeError'')" by (simp add: build_features_raises)
  moreover have "rb_clean (start_record (hp_config hp) sy book ?d (te_trace_id env))" by (rule start_record_clean)
  ultimately show ?thesis
    using assms(1-4)
    by (auto simp: run_decision_pipeline_def gating_def signal_stages_def conclude_def rb_clean_def stage_outcome_def Let_def)
qed

definition sample_position :: position where
  "sample_position = \<lparr>po_size = 2, po_entry_price = Some 90, po_unrealized_pnl = 0\<rparr>"

lemma open_position_stops_trading_witness:
  "\<exists>hp' r. run_decision_pipeline sample_stages (update_position sample_path ''BTC'' sample_position) ''BTC'' sample_tick_book sample_env
     = (hp', [OutRecord r]) \<and> dr_outcome r = ERROR_FEATURE_BUILD"
proof -
  let ?hp = "update_position sample_path ''BTC'' sample_position"
  have m: "mid_price sample_tick_book = Some (201 / 2)" by code_simp
  have "\<exists>hp' r. run_decision_pipeline sample_stages ?hp ''BTC'' sample_tick_book sample_env = (hp', [OutRecord r]) \<and>
      dr_outcome r = ERROR_FEATURE_BUILD \<and> dr_intents r = [] \<and> hp_decisions hp' = hp_decisions ?hp \<and> hp_blocked hp' = hp_blocked ?hp"
    by (rule open_position_stops_trading [where b = "fb_init ''v1.0.0'' None" and pos = sample_position and e = 90 and m = "201 / 2"])
      (simp_all add: update_position_def sample_path_def update_account_def hot_path_init_def is_active_def is_killed_def
        ks_init_def sample_stages_def standard_stages_def sample_position_def m)
  then show ?thesis by blast
qed

text \<open>Exchange order updates never clear a pending intent: the wiring passes the canonical state's lower-case value while
  the handler compares with upper-case names, so the hot path is left unchanged by every update.\<close>

theorem order_updates_are_ignored:
  "wired_order_update hp coid bybit_status filled = hp"
proof -
  have "order_state_value st \<notin> {''FILLED'', ''CANCELED'', ''REJECTED''}" for st by (cases st) simp_all
  then show ?thesis by (simp add: wired_order_update_def on_order_update_def split: option.split)
qed

end
