(* ===== verification/Backlog.thy ===== *)
theory Backlog
  imports Machines Py_Float "HOL-Library.Sublist"
begin

text \<open>
  The backlog policy (quantgambit/io/backlog_policy.py): tiers from stream depth and consumer lag, and
  what is done in the hard tier.  The three callbacks are optional arguments that return a count or
  raise; the calls made are an output, in order.  Clock readings are arguments.
\<close>

section \<open>Data\<close>

datatype backlog_tier = TIER_NORMAL | TIER_SOFT | TIER_HARD

datatype stream_type = ST_TRADES | ST_ORDERBOOK | ST_MARKET_DATA | ST_FEATURES | ST_DECISIONS

text \<open>The list \<open>tier_order\<close> of the source, as positions.\<close>

fun tier_index :: "backlog_tier \<Rightarrow> nat" where
  "tier_index TIER_NORMAL = 0"
| "tier_index TIER_SOFT = 1"
| "tier_index TIER_HARD = 2"

instantiation backlog_tier :: linorder
begin

definition less_eq_backlog_tier :: "backlog_tier \<Rightarrow> backlog_tier \<Rightarrow> bool" where
  "less_eq_backlog_tier a b = (tier_index a \<le> tier_index b)"

definition less_backlog_tier :: "backlog_tier \<Rightarrow> backlog_tier \<Rightarrow> bool" where
  "less_backlog_tier a b = (tier_index a < tier_index b)"

lemma tier_index_inj: "tier_index a = tier_index b \<Longrightarrow> a = b"
  by (cases a; cases b) simp_all

instance
  by standard (auto simp: less_eq_backlog_tier_def less_backlog_tier_def intro: tier_index_inj)

end

record stream_config =
  bc_stream_type :: stream_type
  bc_soft_threshold :: int
  bc_hard_threshold :: int
  bc_max_depth :: int
  bc_top_n_levels :: int
  bc_trim_batch_size :: int
  bc_min_retain_sec :: pyfloat
  bc_protect_exit_signals :: bool
  bc_resync_after_trim :: bool

definition default_stream_config :: stream_config where
  "default_stream_config = \<lparr>bc_stream_type = ST_MARKET_DATA, bc_soft_threshold = 5000, bc_hard_threshold = 15000,
     bc_max_depth = 50000, bc_top_n_levels = 20, bc_trim_batch_size = 1000, bc_min_retain_sec = 5,
     bc_protect_exit_signals = True, bc_resync_after_trim = True\<rparr>"

record backlog_config =
  bp_streams :: "(string, stream_config) dict"
  bp_check_interval_sec :: pyfloat
  bp_lag_soft_threshold :: int
  bp_lag_hard_threshold :: int
  bp_enable_compaction :: bool
  bp_enable_trimming :: bool

text \<open>The per-stream defaults that \<open>__post_init__\<close> adds for absent streams.\<close>

definition stream_defaults :: "(string, stream_config) dict" where
  "stream_defaults = [
     (''events:market_data'', default_stream_config\<lparr>bc_soft_threshold := 10000, bc_hard_threshold := 30000\<rparr>),
     (''events:trades'', default_stream_config\<lparr>bc_stream_type := ST_TRADES, bc_max_depth := 30000\<rparr>),
     (''events:orderbook_feed'', default_stream_config\<lparr>bc_stream_type := ST_ORDERBOOK, bc_max_depth := 30000\<rparr>),
     (''events:features'', default_stream_config\<lparr>bc_stream_type := ST_FEATURES, bc_soft_threshold := 10000,
        bc_hard_threshold := 30000\<rparr>),
     (''events:decisions'', default_stream_config\<lparr>bc_stream_type := ST_DECISIONS, bc_soft_threshold := 2000,
        bc_hard_threshold := 5000, bc_max_depth := 10000\<rparr>)]"

definition add_stream_defaults :: "backlog_config \<Rightarrow> backlog_config" where
  "add_stream_defaults c =
     c\<lparr>bp_streams := fold (\<lambda>(k, v) d. if d_has d k then d else d_put d k v) stream_defaults (bp_streams c)\<rparr>"

definition default_backlog_config :: backlog_config where
  "default_backlog_config = add_stream_defaults \<lparr>bp_streams = [], bp_check_interval_sec = 1, bp_lag_soft_threshold = 1000,
     bp_lag_hard_threshold = 5000, bp_enable_compaction = True, bp_enable_trimming = True\<rparr>"

record backlog_state =
  bk_stream_name :: string
  bk_depth :: int
  bk_consumer_lag :: int
  bk_tier :: backlog_tier
  bk_last_trim_ts :: pyfloat
  bk_trim_count :: nat
  bk_compact_count :: nat
  bk_resync_count :: nat
  bk_entries_trimmed :: int

definition new_backlog_state :: "string \<Rightarrow> backlog_state" where
  "new_backlog_state n = \<lparr>bk_stream_name = n, bk_depth = 0, bk_consumer_lag = 0, bk_tier = TIER_NORMAL,
     bk_last_trim_ts = 0, bk_trim_count = 0, bk_compact_count = 0, bk_resync_count = 0, bk_entries_trimmed = 0\<rparr>"

record backlog_metrics =
  bm_streams :: "(string, backlog_state) dict"
  bm_overall_tier :: backlog_tier
  bm_total_depth :: int
  bm_total_lag :: int
  bm_total_trimmed :: int
  bm_total_compacted :: int
  bm_total_resyncs :: nat
  bm_last_check_ts :: pyfloat

definition new_backlog_metrics :: backlog_metrics where
  "new_backlog_metrics = \<lparr>bm_streams = [], bm_overall_tier = TIER_NORMAL, bm_total_depth = 0, bm_total_lag = 0,
     bm_total_trimmed = 0, bm_total_compacted = 0, bm_total_resyncs = 0, bm_last_check_ts = 0\<rparr>"

text \<open>The callbacks: each may be absent, and a present one returns or raises.\<close>

record backlog_env =
  be_trim :: "(string \<Rightarrow> int \<Rightarrow> py_error + int) option"
  be_resync :: "(string \<Rightarrow> py_error option) option"
  be_compact :: "(string \<Rightarrow> int \<Rightarrow> py_error + int) option"
  be_trim_time :: "string \<Rightarrow> pyfloat"

datatype backlog_call = CallTrim string int | CallCompact string int | CallResync string

record backlog_policy =
  bl_config :: backlog_config
  bl_states :: "(string, backlog_state) dict"
  bl_metrics :: backlog_metrics
  bl_last_check :: pyfloat

definition backlog_init :: "backlog_config \<Rightarrow> backlog_policy" where
  "backlog_init c = \<lparr>bl_config = c, bl_states = [], bl_metrics = new_backlog_metrics, bl_last_check = 0\<rparr>"

section \<open>Operations\<close>

fun prefix_config :: "string \<Rightarrow> (string, stream_config) dict \<Rightarrow> stream_config" where
  "prefix_config n [] = default_stream_config"
| "prefix_config n ((p, c) # d) = (if prefix p n then c else prefix_config n d)"

definition get_stream_config :: "backlog_config \<Rightarrow> string \<Rightarrow> stream_config" where
  "get_stream_config c n = (case d_get (bp_streams c) n of Some sc \<Rightarrow> sc | None \<Rightarrow> prefix_config n (bp_streams c))"

definition get_backlog_state :: "(string, backlog_state) dict \<Rightarrow> string \<Rightarrow> backlog_state" where
  "get_backlog_state d n = (case d_get d n of Some s \<Rightarrow> s | None \<Rightarrow> new_backlog_state n)"

text \<open>\<open>max(depth_tier, lag_tier, key=...)\<close> returns the first of equals, which are the same tier.\<close>

definition threshold_tier :: "int \<Rightarrow> int \<Rightarrow> int \<Rightarrow> backlog_tier" where
  "threshold_tier x soft hard = (if hard \<le> x then TIER_HARD else if soft \<le> x then TIER_SOFT else TIER_NORMAL)"

definition compute_tier :: "backlog_config \<Rightarrow> int \<Rightarrow> int \<Rightarrow> stream_config \<Rightarrow> backlog_tier" where
  "compute_tier c depth lag sc =
     (let depth_tier = threshold_tier depth (bc_soft_threshold sc) (bc_hard_threshold sc);
          lag_tier = threshold_tier lag (bp_lag_soft_threshold c) (bp_lag_hard_threshold c)
      in if tier_index depth_tier < tier_index lag_tier then lag_tier else depth_tier)"

text \<open>The hard tier: first the action, with the flag that asks for a resync, then the resync.\<close>

definition hard_action ::
  "backlog_config \<Rightarrow> backlog_env \<Rightarrow> string \<Rightarrow> backlog_state \<Rightarrow> stream_config \<Rightarrow> backlog_metrics \<Rightarrow>
     backlog_state \<times> backlog_metrics \<times> bool \<times> backlog_call list" where
  "hard_action c env n st sc m =
     (if bc_stream_type sc = ST_ORDERBOOK \<and> bp_enable_compaction c then
        (case be_compact env of
           None \<Rightarrow> (st, m, False, [])
         | Some f \<Rightarrow>
             (case f n (bc_top_n_levels sc) of
                Inl e \<Rightarrow> (st, m, False, [CallCompact n (bc_top_n_levels sc)])
              | Inr k \<Rightarrow> (st\<lparr>bk_compact_count := Suc (bk_compact_count st)\<rparr>,
                  m\<lparr>bm_total_compacted := bm_total_compacted m + k\<rparr>, True, [CallCompact n (bc_top_n_levels sc)])))
      else if bc_stream_type sc = ST_TRADES then (st, m, False, [])
      else if bp_enable_trimming c \<and> \<not> bc_protect_exit_signals sc then
        (case be_trim env of
           None \<Rightarrow> (st, m, False, [])
         | Some f \<Rightarrow>
             (let to_trim = min (bk_depth st - bc_soft_threshold sc) (bc_trim_batch_size sc)
              in if 0 < to_trim then
                   (case f n to_trim of
                      Inl e \<Rightarrow> (st, m, False, [CallTrim n to_trim])
                    | Inr k \<Rightarrow> (st\<lparr>bk_trim_count := Suc (bk_trim_count st), bk_entries_trimmed := bk_entries_trimmed st + k,
                          bk_last_trim_ts := be_trim_time env n\<rparr>,
                        m\<lparr>bm_total_trimmed := bm_total_trimmed m + k\<rparr>, True, [CallTrim n to_trim]))
                 else (st, m, False, [])))
      else (st, m, False, []))"

definition enforce_hard_tier ::
  "backlog_config \<Rightarrow> backlog_env \<Rightarrow> string \<Rightarrow> backlog_state \<Rightarrow> stream_config \<Rightarrow> backlog_metrics \<Rightarrow>
     backlog_state \<times> backlog_metrics \<times> backlog_call list" where
  "enforce_hard_tier c env n st sc m =
     (let (st1, m1, needs_resync, calls) = hard_action c env n st sc m
      in if needs_resync \<and> bc_resync_after_trim sc then
           (case be_resync env of
              None \<Rightarrow> (st1, m1, calls)
            | Some f \<Rightarrow>
                (case f n of
                   Some e \<Rightarrow> (st1, m1, calls @ [CallResync n])
                 | None \<Rightarrow> (st1\<lparr>bk_resync_count := Suc (bk_resync_count st1)\<rparr>,
                     m1\<lparr>bm_total_resyncs := Suc (bm_total_resyncs m1)\<rparr>, calls @ [CallResync n])))
         else (st1, m1, calls))"

text \<open>One stream of the loop: the running overall tier and totals, the states, the metrics and the calls.\<close>

record check_acc =
  ca_states :: "(string, backlog_state) dict"
  ca_metrics :: backlog_metrics
  ca_overall :: backlog_tier
  ca_depth :: int
  ca_lag :: int
  ca_calls :: "backlog_call list"

definition check_stream ::
  "backlog_config \<Rightarrow> backlog_env \<Rightarrow> (string, int) dict \<Rightarrow> string \<times> int \<Rightarrow> check_acc \<Rightarrow> check_acc" where
  "check_stream c env lags nd a =
     (let (n, depth) = nd; sc = get_stream_config c n; lag = d_get_or lags n 0; t = compute_tier c depth lag sc;
          st = (get_backlog_state (ca_states a) n)\<lparr>bk_depth := depth, bk_consumer_lag := lag, bk_tier := t\<rparr>;
          overall = (if t = TIER_HARD then TIER_HARD
            else if t = TIER_SOFT \<and> ca_overall a \<noteq> TIER_HARD then TIER_SOFT else ca_overall a);
          (st', m', calls) = (if t = TIER_HARD then enforce_hard_tier c env n st sc (ca_metrics a)
            else (st, ca_metrics a, []))
      in \<lparr>ca_states = d_put (ca_states a) n st', ca_metrics = m', ca_overall = overall,
          ca_depth = ca_depth a + depth, ca_lag = ca_lag a + lag, ca_calls = ca_calls a @ calls\<rparr>)"

definition check_and_enforce ::
  "backlog_policy \<Rightarrow> backlog_env \<Rightarrow> (string, int) dict \<Rightarrow> (string, int) dict option \<Rightarrow> pyfloat \<Rightarrow>
     backlog_policy \<times> backlog_call list" where
  "check_and_enforce p env depths lags now =
     (let a = fold (check_stream (bl_config p) env (opt_list lags)) depths
            \<lparr>ca_states = bl_states p, ca_metrics = bl_metrics p, ca_overall = TIER_NORMAL, ca_depth = 0, ca_lag = 0, ca_calls = []\<rparr>
      in (p\<lparr>bl_states := ca_states a, bl_metrics := (ca_metrics a)\<lparr>bm_streams := ca_states a,
              bm_overall_tier := ca_overall a, bm_total_depth := ca_depth a, bm_total_lag := ca_lag a,
              bm_last_check_ts := now\<rparr>, bl_last_check := now\<rparr>, ca_calls a))"

definition get_overall_tier :: "backlog_policy \<Rightarrow> backlog_tier" where
  "get_overall_tier p = bm_overall_tier (bl_metrics p)"

definition should_reduce_size :: "backlog_policy \<Rightarrow> bool" where
  "should_reduce_size p = (bm_overall_tier (bl_metrics p) \<in> {TIER_SOFT, TIER_HARD})"

definition should_block_entries :: "backlog_policy \<Rightarrow> bool" where
  "should_block_entries p = (bm_overall_tier (bl_metrics p) = TIER_HARD)"

definition get_stream_state :: "backlog_policy \<Rightarrow> string \<Rightarrow> backlog_state option" where
  "get_stream_state p n = d_get (bl_states p) n"

definition reset_metrics :: "backlog_policy \<Rightarrow> backlog_policy" where
  "reset_metrics p = p\<lparr>bl_metrics := new_backlog_metrics,
     bl_states := map (\<lambda>(n, s). (n, s\<lparr>bk_trim_count := 0, bk_compact_count := 0, bk_resync_count := 0,
       bk_entries_trimmed := 0\<rparr>)) (bl_states p)\<rparr>"

section \<open>Library\<close>

lemma compute_tier_max:
  "compute_tier c depth lag sc = max (threshold_tier depth (bc_soft_threshold sc) (bc_hard_threshold sc))
     (threshold_tier lag (bp_lag_soft_threshold c) (bp_lag_hard_threshold c))"
  by (auto simp: compute_tier_def max_def less_eq_backlog_tier_def Let_def intro: tier_index_inj)

text \<open>The tier a check assigns to one stream.\<close>

definition stream_tier :: "backlog_config \<Rightarrow> (string, int) dict \<Rightarrow> string \<times> int \<Rightarrow> backlog_tier" where
  "stream_tier c lags nd = compute_tier c (snd nd) (d_get_or lags (fst nd) 0) (get_stream_config c (fst nd))"

lemma tier_bounds [simp]: "TIER_NORMAL \<le> t" "t \<le> TIER_HARD"
  by (cases t; simp add: less_eq_backlog_tier_def)+

lemma tier_neq_simps [simp]:
  "TIER_SOFT \<le> TIER_HARD" "\<not> TIER_HARD \<le> TIER_SOFT" "\<not> TIER_HARD \<le> TIER_NORMAL" "\<not> TIER_SOFT \<le> TIER_NORMAL"
  by (simp_all add: less_eq_backlog_tier_def)

lemma check_stream_overall: "ca_overall (check_stream c env lags nd a) = max (ca_overall a) (stream_tier c lags nd)"
  by (cases "stream_tier c lags nd"; cases "ca_overall a")
    (auto simp: check_stream_def stream_tier_def max_def Let_def split: prod.splits)

lemma check_overall: "ca_overall (fold (check_stream c env lags) ds a) = fold (\<lambda>nd t. max t (stream_tier c lags nd)) ds (ca_overall a)"
  by (induction ds arbitrary: a) (simp_all add: check_stream_overall)

lemma fold_max_ge: "t \<le> fold (\<lambda>x t. max t (f x)) xs s \<longleftrightarrow> t \<le> s \<or> list_ex (\<lambda>x. t \<le> f x) xs" for t :: "'a :: linorder"
  by (induction xs arbitrary: s) (auto simp: le_max_iff_disj)

lemma overall_ge: "t \<le> get_overall_tier (fst (check_and_enforce p env ds lags now)) \<longleftrightarrow>
    t = TIER_NORMAL \<or> list_ex (\<lambda>nd. t \<le> stream_tier (bl_config p) (opt_list lags) nd) ds"
  by (cases t) (simp_all add: get_overall_tier_def check_and_enforce_def Let_def check_overall fold_max_ge)

lemma tier_ge_simps: "TIER_HARD \<le> t \<longleftrightarrow> t = TIER_HARD" "TIER_SOFT \<le> t \<longleftrightarrow> t \<in> {TIER_SOFT, TIER_HARD}"
  by (cases t; simp)+

text \<open>Which calls a check may make.\<close>

fun call_allowed :: "backlog_config \<Rightarrow> (string, int) dict \<Rightarrow> string \<times> int \<Rightarrow> backlog_call \<Rightarrow> bool" where
  "call_allowed c lags nd (CallTrim n k) = (n = fst nd \<and> stream_tier c lags nd = TIER_HARD \<and>
     bp_enable_trimming c \<and> bc_stream_type (get_stream_config c n) \<noteq> ST_TRADES \<and>
     \<not> bc_protect_exit_signals (get_stream_config c n) \<and> 0 < k \<and> k \<le> bc_trim_batch_size (get_stream_config c n) \<and>
     k \<le> snd nd - bc_soft_threshold (get_stream_config c n))"
| "call_allowed c lags nd (CallCompact n k) = (n = fst nd \<and> stream_tier c lags nd = TIER_HARD \<and>
     bp_enable_compaction c \<and> bc_stream_type (get_stream_config c n) = ST_ORDERBOOK \<and>
     k = bc_top_n_levels (get_stream_config c n))"
| "call_allowed c lags nd (CallResync n) = (n = fst nd \<and> stream_tier c lags nd = TIER_HARD \<and>
     bc_stream_type (get_stream_config c n) \<noteq> ST_TRADES \<and> bc_resync_after_trim (get_stream_config c n))"

text \<open>The calls for one stream: nothing, a failed or unsynchronised action, or an action and then the resync.\<close>

fun calls_shape :: "backlog_call list \<Rightarrow> bool" where
  "calls_shape [] = True"
| "calls_shape [CallResync n] = False"
| "calls_shape [a] = True"
| "calls_shape [CallTrim n k, CallResync m] = (m = n)"
| "calls_shape [CallCompact n k, CallResync m] = (m = n)"
| "calls_shape _ = False"

lemma hard_calls:
  assumes "enforce_hard_tier c env n st (get_stream_config c n) m = (st', m', calls)" "bk_depth st = depth"
    "stream_tier c lags (n, depth) = TIER_HARD"
  shows "list_all (call_allowed c lags (n, depth)) calls \<and> calls_shape calls"
  using assms
  by (auto simp: enforce_hard_tier_def hard_action_def Let_def split: if_splits option.splits sum.splits)

lemma check_stream_calls:
  "\<exists>cs. ca_calls (check_stream c env lags nd a) = ca_calls a @ cs \<and> list_all (call_allowed c lags nd) cs \<and> calls_shape cs"
proof -
  obtain n depth where nd: "nd = (n, depth)" by force
  let ?st = "(get_backlog_state (ca_states a) n)\<lparr>bk_depth := depth, bk_consumer_lag := d_get_or lags n 0, bk_tier := TIER_HARD\<rparr>"
  obtain st' m' cs where h: "enforce_hard_tier c env n ?st (get_stream_config c n) (ca_metrics a) = (st', m', cs)"
    by (metis prod_cases3)
  have "ca_calls (check_stream c env lags nd a) = ca_calls a @ (if stream_tier c lags nd = TIER_HARD then cs else [])"
    using h by (simp add: check_stream_def nd stream_tier_def Let_def)
  with hard_calls [OF h] nd show ?thesis by (cases "stream_tier c lags nd = TIER_HARD") auto
qed

lemma check_calls:
  "\<exists>css. ca_calls (fold (check_stream c env lags) ds a) = ca_calls a @ concat css \<and>
     list_all2 (\<lambda>nd cs. list_all (call_allowed c lags nd) cs \<and> calls_shape cs) ds css"
proof (induction ds arbitrary: a)
  case (Cons nd ds)
  obtain cs where 1: "ca_calls (check_stream c env lags nd a) = ca_calls a @ cs"
     "list_all (call_allowed c lags nd) cs \<and> calls_shape cs" using check_stream_calls by blast
  obtain css where 2: "ca_calls (fold (check_stream c env lags) ds (check_stream c env lags nd a)) =
      ca_calls (check_stream c env lags nd a) @ concat css"
     "list_all2 (\<lambda>nd cs. list_all (call_allowed c lags nd) cs \<and> calls_shape cs) ds css" using Cons by blast
  from 1 2 show ?case by (intro exI [of _ "cs # css"]) simp
qed simp

lemma policy_calls:
  "list_all (\<lambda>call. list_ex (\<lambda>nd. call_allowed (bl_config p) (opt_list lags) nd call) ds)
     (snd (check_and_enforce p env ds lags now))"
proof -
  let ?a = "\<lparr>ca_states = bl_states p, ca_metrics = bl_metrics p, ca_overall = TIER_NORMAL, ca_depth = 0, ca_lag = 0, ca_calls = []\<rparr>"
  obtain css where "snd (check_and_enforce p env ds lags now) = concat css"
     "list_all2 (\<lambda>nd cs. list_all (call_allowed (bl_config p) (opt_list lags) nd) cs \<and> calls_shape cs) ds css"
    using check_calls [of "bl_config p" env "opt_list lags" ds ?a] by (auto simp: check_and_enforce_def Let_def)
  then show ?thesis
    by (auto simp: list_all_iff list_ex_iff list_all2_conv_all_nth in_set_conv_nth) (metis nth_mem)
qed

section \<open>Runs and accounting\<close>

datatype backlog_event =
    BCheck backlog_env "(string, int) dict" "(string, int) dict option" pyfloat
  | BReset

fun backlog_step :: "backlog_policy \<times> backlog_call list \<Rightarrow> backlog_event \<Rightarrow> backlog_policy \<times> backlog_call list" where
  "backlog_step (p, calls) (BCheck env ds lags now) =
     (let (p', cs) = check_and_enforce p env ds lags now in (p', calls @ cs))"
| "backlog_step (p, calls) BReset = (reset_metrics p, calls)"

definition backlog_run :: "backlog_config \<Rightarrow> backlog_event list \<Rightarrow> backlog_policy \<times> backlog_call list" where
  "backlog_run c es = foldl backlog_step (backlog_init c, []) es"

lemma d_put_sum:
  fixes f :: "'b \<Rightarrow> int"
  assumes "d_wf d"
  shows "sum_list (map (f \<circ> snd) (d_put d k v)) =
    sum_list (map (f \<circ> snd) d) + f v - (case d_get d k of None \<Rightarrow> 0 | Some w \<Rightarrow> f w)"
  using assms by (induction d) (auto simp: d_get_absent split: option.split)

text \<open>Totals of the metrics against the sums over the streams.\<close>

definition backlog_balanced :: "(string, backlog_state) dict \<Rightarrow> backlog_metrics \<Rightarrow> bool" where
  "backlog_balanced d m = (d_wf d \<and> bm_total_trimmed m = sum_list (map (bk_entries_trimmed \<circ> snd) d) \<and>
     int (bm_total_resyncs m) = sum_list (map ((\<lambda>s. int (bk_resync_count s)) \<circ> snd) d))"

lemma hard_balance:
  assumes "enforce_hard_tier c env n st sc m = (st', m', calls)"
  shows "bm_total_trimmed m' - bm_total_trimmed m = bk_entries_trimmed st' - bk_entries_trimmed st \<and>
    int (bm_total_resyncs m') - int (bm_total_resyncs m) = int (bk_resync_count st') - int (bk_resync_count st)"
  using assms
  by (auto simp: enforce_hard_tier_def hard_action_def Let_def split: if_splits option.splits sum.splits)

lemma check_stream_balanced:
  assumes "backlog_balanced (ca_states a) (ca_metrics a)"
  shows "backlog_balanced (ca_states (check_stream c env lags nd a)) (ca_metrics (check_stream c env lags nd a))"
proof -
  obtain n depth where nd: "nd = (n, depth)" by force
  let ?s0 = "get_backlog_state (ca_states a) n"
  let ?st = "?s0\<lparr>bk_depth := depth, bk_consumer_lag := d_get_or lags n 0, bk_tier := TIER_HARD\<rparr>"
  let ?soft = "?s0\<lparr>bk_depth := depth, bk_consumer_lag := d_get_or lags n 0, bk_tier := stream_tier c lags nd\<rparr>"
  have zero: "(case d_get (ca_states a) n of None \<Rightarrow> 0 | Some w \<Rightarrow> bk_entries_trimmed w) = bk_entries_trimmed ?s0"
    "(case d_get (ca_states a) n of None \<Rightarrow> 0 | Some w \<Rightarrow> int (bk_resync_count w)) = int (bk_resync_count ?s0)"
    by (auto simp: get_backlog_state_def new_backlog_state_def split: option.split)
  obtain st' m' cs where h: "enforce_hard_tier c env n ?st (get_stream_config c n) (ca_metrics a) = (st', m', cs)"
    by (metis prod_cases3)
  have w: "d_wf (ca_states a)" using assms by (simp add: backlog_balanced_def)
  let ?hard = "stream_tier c lags nd = TIER_HARD"
  have c: "ca_states (check_stream c env lags nd a) = d_put (ca_states a) n (if ?hard then st' else ?soft)"
    "ca_metrics (check_stream c env lags nd a) = (if ?hard then m' else ca_metrics a)"
    using h by (simp_all add: check_stream_def nd stream_tier_def Let_def)
  from hard_balance [OF h] assms show ?thesis
    by (auto simp: c backlog_balanced_def d_put_sum [OF w] zero)
qed

lemma check_balanced:
  "backlog_balanced (ca_states a) (ca_metrics a) \<Longrightarrow>
    backlog_balanced (ca_states (fold (check_stream c env lags) ds a)) (ca_metrics (fold (check_stream c env lags) ds a))"
  by (induction ds arbitrary: a) (simp_all add: check_stream_balanced)

interpretation backlog: invariant_machine backlog_step "\<lambda>e. True" "\<lambda>s. backlog_balanced (bl_states (fst s)) (bl_metrics (fst s))"
proof
  fix s :: "backlog_policy \<times> backlog_call list" and e
  assume i: "backlog_balanced (bl_states (fst s)) (bl_metrics (fst s))"
  obtain p calls where s: "s = (p, calls)" by force
  show "backlog_balanced (bl_states (fst (backlog_step s e))) (bl_metrics (fst (backlog_step s e)))"
  proof (cases e)
    case (BCheck env ds lags now)
    let ?a = "\<lparr>ca_states = bl_states p, ca_metrics = bl_metrics p, ca_overall = TIER_NORMAL, ca_depth = 0, ca_lag = 0, ca_calls = []\<rparr>"
    have "backlog_balanced (ca_states ?a) (ca_metrics ?a)" using i by (simp add: s)
    from check_balanced [OF this, of "bl_config p" env "opt_list lags" ds] show ?thesis
      by (simp add: s BCheck check_and_enforce_def backlog_balanced_def Let_def)
  next
    case BReset
    from i show ?thesis
      by (auto simp: s BReset reset_metrics_def backlog_balanced_def new_backlog_metrics_def case_prod_beta comp_def)
  qed
qed

lemma backlog_step_config: "bl_config (fst (backlog_step s e)) = bl_config (fst s)"
  by (cases s; cases e) (simp_all add: check_and_enforce_def reset_metrics_def Let_def)

lemma backlog_run_config: "bl_config (fst (backlog_run c es)) = c"
proof -
  have "bl_config (fst (foldl backlog_step s es)) = bl_config (fst s)" for s
    by (induction es arbitrary: s) (simp_all add: backlog_step_config)
  then show ?thesis by (simp add: backlog_run_def backlog_init_def)
qed

lemma default_streams_protect: "bc_protect_exit_signals (get_stream_config default_backlog_config n)"
  by (simp add: get_stream_config_def default_backlog_config_def add_stream_defaults_def stream_defaults_def d_has_def
      default_stream_config_def)

section \<open>Properties\<close>

text \<open>The overall tier after a check is the worst tier of the checked streams, each the worse of its depth tier and its
  lag tier: entries are blocked exactly when some stream is in the hard tier, and sizes are reduced exactly when some
  stream is in the soft or the hard tier.\<close>

theorem backlog_tier_is_worst:
  "let p' = fst (check_and_enforce p env depths lags now); tier = stream_tier (bl_config p) (opt_list lags)
   in get_overall_tier p' = fold (\<lambda>nd t. max t (tier nd)) depths TIER_NORMAL \<and>
      should_block_entries p' = list_ex (\<lambda>nd. tier nd = TIER_HARD) depths \<and>
      should_reduce_size p' = list_ex (\<lambda>nd. tier nd \<in> {TIER_SOFT, TIER_HARD}) depths \<and>
      compute_tier c d l sc = max (threshold_tier d (bc_soft_threshold sc) (bc_hard_threshold sc))
        (threshold_tier l (bp_lag_soft_threshold c) (bp_lag_hard_threshold c))"
proof -
  let ?p = "fst (check_and_enforce p env depths lags now)"
  have g: "get_overall_tier ?p = fold (\<lambda>nd t. max t (stream_tier (bl_config p) (opt_list lags) nd)) depths TIER_NORMAL"
    by (simp add: get_overall_tier_def check_and_enforce_def check_overall Let_def)
  have "should_block_entries ?p \<longleftrightarrow> TIER_HARD \<le> get_overall_tier ?p"
    "should_reduce_size ?p \<longleftrightarrow> TIER_SOFT \<le> get_overall_tier ?p"
    by (simp_all add: should_block_entries_def should_reduce_size_def get_overall_tier_def tier_ge_simps)
  then show ?thesis
    unfolding Let_def g [symmetric] by (simp add: overall_ge tier_ge_simps compute_tier_max del: insert_iff)
qed

text \<open>What a check may do to the streams: it trims only an unprotected non-trade stream in the hard tier when trimming is
  enabled, by a positive number that exceeds neither the batch size nor the excess over the soft threshold; it compacts
  only an order-book stream in the hard tier; it asks for a resync only for a stream whose configuration wants one;
  and it never touches a trade stream.\<close>

theorem backlog_calls_allowed:
  "list_all (\<lambda>call. list_ex (\<lambda>nd. call_allowed (bl_config p) (opt_list lags) nd call) depths)
     (snd (check_and_enforce p env depths lags now))"
  by (rule policy_calls)

text \<open>Accounting over any run of checks and metric resets: the totals of trimmed entries and of resyncs in the metrics are
  the sums over the streams.\<close>

theorem backlog_totals_balanced:
  "let p = fst (backlog_run c es)
   in bm_total_trimmed (bl_metrics p) = sum_list (map (bk_entries_trimmed \<circ> snd) (bl_states p)) \<and>
      int (bm_total_resyncs (bl_metrics p)) = sum_list (map ((\<lambda>s. int (bk_resync_count s)) \<circ> snd) (bl_states p))"
proof -
  have "backlog_balanced (bl_states (fst (backlog_run c es))) (bl_metrics (fst (backlog_run c es)))"
    unfolding backlog_run_def
    by (rule backlog.run_inv) (simp_all add: backlog_balanced_def backlog_init_def new_backlog_metrics_def list_all_iff)
  then show ?thesis by (simp add: backlog_balanced_def Let_def)
qed

text \<open>With the default configuration the policy never trims a stream, whatever depths, lags and callbacks: every default
  and fallback stream configuration protects exit signals, which switches trimming off.\<close>

theorem default_policy_never_trims:
  "\<not> list_ex (\<lambda>call. \<exists>n k. call = CallTrim n k) (snd (backlog_run default_backlog_config es))"
proof -
  have "\<not> list_ex (\<lambda>call. \<exists>n k. call = CallTrim n k) (snd (foldl backlog_step s es))"
    if "bl_config (fst s) = default_backlog_config" "\<not> list_ex (\<lambda>call. \<exists>n k. call = CallTrim n k) (snd s)" for s
    using that
  proof (induction es arbitrary: s)
    case (Cons e es)
    obtain p calls where s: "s = (p, calls)" by force
    have "\<not> list_ex (\<lambda>call. \<exists>n k. call = CallTrim n k) (snd (backlog_step s e))"
    proof (cases e)
      case (BCheck env ds lags now)
      from policy_calls [of p lags ds env now] Cons.prems show ?thesis
        by (auto simp: s BCheck list_all_iff list_ex_iff default_streams_protect case_prod_beta)
    qed (use Cons.prems in \<open>simp add: s\<close>)
    with Cons show ?case by (simp add: backlog_step_config)
  qed simp
  then show ?thesis by (simp add: backlog_run_def backlog_init_def)
qed

end
