(* ===== verification/Py_Strings.thy ===== *)
theory Py_Strings
  imports Ids
begin

text \<open>
  The string methods that the execution layer uses on symbols and statuses, on ASCII strings (\<open>lower\<close>,
  \<open>upper\<close>, \<open>replace\<close>, \<open>split\<close>), and the symbol normalisation of quantgambit/execution/symbols.py.
\<close>

section \<open>Methods\<close>

definition lower_char :: "char \<Rightarrow> char" where
  "lower_char c = (let n = of_char c :: nat in if 65 \<le> n \<and> n \<le> 90 then char_of (n + 32) else c)"

definition upper_char :: "char \<Rightarrow> char" where
  "upper_char c = (let n = of_char c :: nat in if 97 \<le> n \<and> n \<le> 122 then char_of (n - 32) else c)"

definition py_lower :: "string \<Rightarrow> string" where "py_lower s = map lower_char s"
definition py_upper :: "string \<Rightarrow> string" where "py_upper s = map upper_char s"

definition replace_char :: "char \<Rightarrow> char \<Rightarrow> string \<Rightarrow> string" where
  "replace_char a b s = map (\<lambda>c. if c = a then b else c) s"

text \<open>\<open>s.split(sep)\<close> for a one-character separator; \<open>s.split(sep, 1)[0]\<close> is the part before the first one.\<close>

fun split_char :: "char \<Rightarrow> string \<Rightarrow> string list" where
  "split_char sep [] = [[]]"
| "split_char sep (c # cs) = (if c = sep then [] # split_char sep cs
     else (case split_char sep cs of [] \<Rightarrow> [[c]] | w # ws \<Rightarrow> (c # w) # ws))"

definition before_char :: "char \<Rightarrow> string \<Rightarrow> string" where
  "before_char sep s = takeWhile (\<lambda>c. c \<noteq> sep) s"

text \<open>\<open>s.replace(old, new)\<close> for a non-empty \<open>old\<close>: left to right, without overlaps.\<close>

function replace_str :: "string \<Rightarrow> string \<Rightarrow> string \<Rightarrow> string" where
  "replace_str old new s =
     (if old = [] \<or> s = [] then s
      else if take (length old) s = old then new @ replace_str old new (drop (length old) s)
      else hd s # replace_str old new (tl s))"
  by pat_completeness auto

termination
  by (relation "measure (\<lambda>(old, new, s). length s)") auto

declare replace_str.simps [simp del]

text \<open>\<open>pat in s\<close>.\<close>

fun py_contains :: "string \<Rightarrow> string \<Rightarrow> bool" where
  "py_contains pat [] = (pat = [])"
| "py_contains pat (c # cs) = (take (length pat) (c # cs) = pat \<or> py_contains pat cs)"

section \<open>Symbols\<close>

definition perp_words :: "string list" where
  "perp_words = [''SWAP'', ''PERP'', ''PERPETUAL'', ''FUTURES'']"

definition canonical_text :: "string \<Rightarrow> string" where
  "canonical_text s =
     (let raw0 = py_upper (strip s)
      in if raw0 = [] then raw0
         else
     (let raw = (if CHR '':'' \<in> set raw0 then before_char CHR '':'' raw0 else raw0);
          cleaned = replace_char CHR ''/'' CHR ''-'' raw;
          parts = filter (\<lambda>p. p \<noteq> []) (split_char CHR ''-'' cleaned)
      in if parts = [] then cleaned
         else
     (let filtered = filter (\<lambda>p. p \<notin> set perp_words) parts;
          compact = concat (if filtered = [] then parts else filtered)
      in replace_str ''USDTUSDT'' ''USDT'' compact)))"

definition canonical_symbol :: "string option \<Rightarrow> string option" where
  "canonical_symbol s = (if s_truthy s then Some (canonical_text (the s)) else s)"

definition to_storage_symbol :: "string option \<Rightarrow> string option" where
  "to_storage_symbol s = canonical_symbol s"

definition ends_with :: "string \<Rightarrow> string \<Rightarrow> bool" where
  "ends_with suf s = (length suf \<le> length s \<and> drop (length s - length suf) s = suf)"

text \<open>\<open>s.split(c, 1)\<close>: the parts before and after the first \<open>c\<close>, if there is one.\<close>

definition split_once :: "char \<Rightarrow> string \<Rightarrow> (string \<times> string) option" where
  "split_once c s = (if c \<in> set s then Some (before_char c s, drop (Suc (length (before_char c s))) s) else None)"

definition normalize_exchange_symbol :: "string option \<Rightarrow> string option \<Rightarrow> string option \<Rightarrow> string option" where
  "normalize_exchange_symbol exchange symbol market_type =
     (if \<not> s_truthy symbol then symbol
      else let raw = strip (the symbol)
      in if raw = [] then Some raw
         else if py_lower (case exchange of Some e \<Rightarrow> e | None \<Rightarrow> []) = ''okx''
         then (let r1 = (if CHR '':'' \<in> set raw then before_char CHR '':'' raw else raw); r2 = replace_char CHR ''/'' CHR ''-'' r1
               in Some (if py_lower (case market_type of Some m \<Rightarrow> m | None \<Rightarrow> []) = ''spot'' then py_upper r2
                        else if ends_with ''-SWAP'' r2 then py_upper r2
                        else if CHR ''-'' \<in> set r2 then py_upper r2 @ ''-SWAP''
                        else py_upper r2))
         else canonical_symbol (Some raw))"

definition to_ccxt_market_symbol :: "string option \<Rightarrow> string option \<Rightarrow> string option \<Rightarrow> py_error + string option" where
  "to_ccxt_market_symbol exchange symbol market_type =
     (if \<not> s_truthy symbol then Inr symbol
      else let raw = strip (the symbol); ex = py_lower (case exchange of Some e \<Rightarrow> e | None \<Rightarrow> []);
               spot = (py_lower (case market_type of Some m \<Rightarrow> if m = [] then ''perp'' else m | None \<Rightarrow> ''perp'') = ''spot'');
               pair = (\<lambda>base quot. if spot then base @ ''/'' @ quot else base @ ''/'' @ quot @ '':USDT'')
      in if raw = [] then Inr (Some raw)
         else if ex = ''okx''
         then (let cleaned = py_upper raw
               in if ends_with ''-SWAP'' cleaned
                  then (case split_once CHR ''-'' cleaned of
                      Some (base, rest) \<Rightarrow> (case split_once CHR ''-'' rest of
                          Some (quot, _) \<Rightarrow> Inr (Some (base @ ''/'' @ quot @ '':USDT''))
                        | None \<Rightarrow> Inl (OtherError ''ValueError''))
                    | None \<Rightarrow> Inl (OtherError ''ValueError''))
                  else (case split_once CHR ''-'' cleaned of
                      Some (base, quot) \<Rightarrow> Inr (Some (pair base quot))
                    | None \<Rightarrow> Inr (Some cleaned)))
         else if ex \<in> {''bybit'', ''binance''}
         then (let cleaned = py_upper (case canonical_symbol (Some raw) of Some c \<Rightarrow> c | None \<Rightarrow> [])
               in if CHR ''/'' \<in> set cleaned then Inr (Some (if spot then cleaned else cleaned @ '':USDT''))
                  else let compact = filter (\<lambda>c. c \<noteq> CHR ''-'' \<and> c \<noteq> CHR ''/'') cleaned
                  in if 6 \<le> length compact
                     then Inr (Some (pair (take (length compact - 4) compact) (drop (length compact - 4) compact)))
                     else Inr (Some compact))
         else Inr (Some raw))"

section \<open>Library\<close>

lemma lower_char_idem [simp]: "lower_char (lower_char c) = lower_char c"
  by (simp add: lower_char_def Let_def)

lemma py_lower_idem [simp]: "py_lower (py_lower s) = py_lower s"
  by (simp add: py_lower_def)

lemma lower_char_space [simp]: "is_space (lower_char c) = is_space c"
  by (simp add: lower_char_def is_space_def Let_def)

lemma replace_char_idem [simp]: "a \<noteq> b \<Longrightarrow> replace_char a b (replace_char a b s) = replace_char a b s"
  by (simp add: replace_char_def)

lemma replace_char_absent: "a \<notin> set s \<Longrightarrow> replace_char a b s = s"
  unfolding replace_char_def by (rule map_idI) auto

lemma dropWhile_map_same: "(\<And>c. P (f c) = P c) \<Longrightarrow> dropWhile P (map f s) = map f (dropWhile P s)"
  by (induction s) auto

lemma strip_map: "(\<And>c. is_space (f c) = is_space c) \<Longrightarrow> strip (map f s) = map f (strip s)"
  by (simp add: strip_def dropWhile_map_same rev_map)

lemma dropWhile_idem_hd: "dropWhile P (dropWhile P s) = dropWhile P s"
  by (induction s) auto

text \<open>A swap symbol in lower case gets its suffix twice.\<close>

lemma lower_case_swap:
  "normalize_exchange_symbol (Some ''okx'') (Some ''btc-usdt-swap'') None = Some ''BTC-USDT-SWAP-SWAP''"
  "normalize_exchange_symbol (Some ''okx'') (Some ''BTC-USDT-SWAP'') None = Some ''BTC-USDT-SWAP''"
  by code_simp+

end
