(* ===== verification/Positions.thy ===== *)
theory Positions
  imports Py_Strings Machines
begin

text \<open>
  Open positions in memory (quantgambit/portfolio/state_manager.py): adding, accumulating or replacing,
  tracking the extreme prices since entry, closing, and the account figures.  A snapshot of a position
  has the fields of \<open>pos_core\<close>; a stored position adds the closing mark.  The operations
  that create a position take their keyword arguments as such a snapshot and ignore its tracking fields.
\<close>

section \<open>Data\<close>

record pos_core =
  ps_symbol :: string
  ps_side :: string
  ps_size :: pyfloat
  ps_entry_client_order_id :: "string option"
  ps_entry_decision_id :: "string option"
  ps_reference_price :: "pyfloat option"
  ps_entry_price :: "pyfloat option"
  ps_entry_fee_usd :: "pyfloat option"
  ps_stop_loss :: "pyfloat option"
  ps_take_profit :: "pyfloat option"
  ps_opened_at :: "pyfloat option"
  ps_prediction_confidence :: "pyfloat option"
  ps_prediction_direction :: "string option"
  ps_prediction_source :: "string option"
  ps_entry_p_hat :: "pyfloat option"
  ps_entry_p_hat_source :: "string option"
  ps_strategy_id :: "string option"
  ps_profile_id :: "string option"
  ps_mfe_price :: "pyfloat option"
  ps_mae_price :: "pyfloat option"
  ps_mfe_pct :: "pyfloat option"
  ps_mae_pct :: "pyfloat option"
  ps_entry_signal_strength :: "string option"
  ps_entry_signal_confidence :: "pyfloat option"
  ps_entry_confirmation_count :: "int option"
  ps_expected_horizon_sec :: "pyfloat option"
  ps_time_to_work_sec :: "pyfloat option"
  ps_max_hold_sec :: "pyfloat option"
  ps_mfe_min_bps :: "pyfloat option"
  ps_model_side :: "string option"
  ps_p_up :: "pyfloat option"
  ps_p_down :: "pyfloat option"
  ps_p_flat :: "pyfloat option"

record position_record = pos_core +
  pr_closing :: bool
  pr_close_reason :: "string option"

record account_state =
  ac_equity :: pyfloat
  ac_daily_pnl :: pyfloat
  ac_peak_balance :: pyfloat
  ac_consecutive_losses :: int

record state_manager =
  sm_positions :: "(string, position_record) dict"
  sm_account :: account_state

definition state_manager_init :: state_manager where
  "state_manager_init = \<lparr>sm_positions = [],
     sm_account = \<lparr>ac_equity = 0, ac_daily_pnl = 0, ac_peak_balance = 0, ac_consecutive_losses = 0\<rparr>\<rparr>"

definition oi_or :: "int option \<Rightarrow> int option \<Rightarrow> int option" where
  "oi_or a b = (case a of None \<Rightarrow> b | Some v \<Rightarrow> if v = 0 then b else a)"

text \<open>A stored position that is not closing.\<close>

definition open_record :: "pos_core \<Rightarrow> position_record" where
  "open_record a = pos_core.extend a \<lparr>pr_closing = False, pr_close_reason = None\<rparr>"

section \<open>Operations\<close>

text \<open>The keyword arguments that have a default.\<close>

definition position_args :: "string \<Rightarrow> string \<Rightarrow> pyfloat \<Rightarrow> pos_core" where
  "position_args sy side qty =
     \<lparr>ps_symbol = sy, ps_side = side, ps_size = qty, ps_entry_client_order_id = None, ps_entry_decision_id = None,
      ps_reference_price = None, ps_entry_price = None, ps_entry_fee_usd = None, ps_stop_loss = None, ps_take_profit = None,
      ps_opened_at = None, ps_prediction_confidence = None, ps_prediction_direction = None, ps_prediction_source = None,
      ps_entry_p_hat = None, ps_entry_p_hat_source = None, ps_strategy_id = None, ps_profile_id = None,
      ps_mfe_price = None, ps_mae_price = None, ps_mfe_pct = None, ps_mae_pct = None,
      ps_entry_signal_strength = None, ps_entry_signal_confidence = None, ps_entry_confirmation_count = None,
      ps_expected_horizon_sec = None, ps_time_to_work_sec = None, ps_max_hold_sec = None, ps_mfe_min_bps = None,
      ps_model_side = None, ps_p_up = None, ps_p_down = None, ps_p_flat = None\<rparr>"

text \<open>Tracking starts at the entry price.\<close>

definition fresh_position :: "pos_core \<Rightarrow> position_record" where
  "fresh_position a = open_record (a\<lparr>ps_mfe_price := ps_entry_price a, ps_mae_price := ps_entry_price a,
     ps_mfe_pct := Some 0, ps_mae_pct := Some 0\<rparr>)"

definition add_position :: "state_manager \<Rightarrow> pos_core \<Rightarrow> state_manager" where
  "add_position m a = m\<lparr>sm_positions := d_put (sm_positions m) (ps_symbol a) (fresh_position a)\<rparr>"

definition accumulated_entry :: "position_record \<Rightarrow> pos_core \<Rightarrow> pyfloat" where
  "accumulated_entry ex a =
     (let old_entry = fo_or (ps_entry_price ex) (fo_or (ps_reference_price a) 0);
          new_entry = fo_or (ps_entry_price a) (fo_or (ps_reference_price a) old_entry);
          total = fadd (ps_size ex) (ps_size a)
      in if 0 < total \<and> 0 < old_entry \<and> 0 < new_entry
         then fl (fadd (fmul (ps_size ex) old_entry) (fmul (ps_size a) new_entry) / total)
         else f_or new_entry old_entry)"

definition accumulated_fee :: "pyfloat option \<Rightarrow> pyfloat option \<Rightarrow> pyfloat option" where
  "accumulated_fee old new = (if old = None \<and> new = None then None else Some (fadd (fo_or old 0) (fo_or new 0)))"

definition accumulated_position :: "position_record \<Rightarrow> pos_core \<Rightarrow> position_record" where
  "accumulated_position ex a = open_record
     \<lparr>ps_symbol = ps_symbol a, ps_side = ps_side a, ps_size = fadd (ps_size ex) (ps_size a),
      ps_entry_client_order_id = os_or (ps_entry_client_order_id ex) (ps_entry_client_order_id a),
      ps_entry_decision_id = os_or (ps_entry_decision_id ex) (ps_entry_decision_id a),
      ps_reference_price = of_or (ps_reference_price a) (ps_reference_price ex),
      ps_entry_price = Some (accumulated_entry ex a),
      ps_entry_fee_usd = accumulated_fee (ps_entry_fee_usd ex) (ps_entry_fee_usd a),
      ps_stop_loss = of_or (ps_stop_loss a) (ps_stop_loss ex),
      ps_take_profit = of_or (ps_take_profit a) (ps_take_profit ex),
      ps_opened_at = of_or (ps_opened_at ex) (ps_opened_at a),
      ps_prediction_confidence = of_or (ps_prediction_confidence a) (ps_prediction_confidence ex),
      ps_prediction_direction = os_or (ps_prediction_direction a) (ps_prediction_direction ex),
      ps_prediction_source = os_or (ps_prediction_source a) (ps_prediction_source ex),
      ps_entry_p_hat = of_or (ps_entry_p_hat a) (ps_entry_p_hat ex),
      ps_entry_p_hat_source = os_or (ps_entry_p_hat_source a) (ps_entry_p_hat_source ex),
      ps_strategy_id = os_or (ps_strategy_id a) (ps_strategy_id ex),
      ps_profile_id = os_or (ps_profile_id a) (ps_profile_id ex),
      ps_mfe_price = ps_mfe_price ex, ps_mae_price = ps_mae_price ex, ps_mfe_pct = ps_mfe_pct ex, ps_mae_pct = ps_mae_pct ex,
      ps_entry_signal_strength = os_or (ps_entry_signal_strength ex) (ps_entry_signal_strength a),
      ps_entry_signal_confidence = of_or (ps_entry_signal_confidence ex) (ps_entry_signal_confidence a),
      ps_entry_confirmation_count = oi_or (ps_entry_confirmation_count ex) (ps_entry_confirmation_count a),
      ps_expected_horizon_sec = of_or (ps_expected_horizon_sec ex) (ps_expected_horizon_sec a),
      ps_time_to_work_sec = of_or (ps_time_to_work_sec ex) (ps_time_to_work_sec a),
      ps_max_hold_sec = of_or (ps_max_hold_sec ex) (ps_max_hold_sec a),
      ps_mfe_min_bps = of_or (ps_mfe_min_bps ex) (ps_mfe_min_bps a),
      ps_model_side = os_or (ps_model_side a) (ps_model_side ex),
      ps_p_up = (if ps_p_up a = None then ps_p_up ex else ps_p_up a),
      ps_p_down = (if ps_p_down a = None then ps_p_down ex else ps_p_down a),
      ps_p_flat = (if ps_p_flat a = None then ps_p_flat ex else ps_p_flat a)\<rparr>"

definition sm_update_position :: "state_manager \<Rightarrow> pos_core \<Rightarrow> bool \<Rightarrow> state_manager" where
  "sm_update_position m a accumulate =
     (let new = (case d_get (sm_positions m) (ps_symbol a) of
            None \<Rightarrow> fresh_position a
          | Some ex \<Rightarrow> if accumulate \<and> ps_side ex = ps_side a \<and> \<not> pr_closing ex then accumulated_position ex a
              else fresh_position a)
      in m\<lparr>sm_positions := d_put (sm_positions m) (ps_symbol a) new\<rparr>)"

definition sm_get_position :: "state_manager \<Rightarrow> string \<Rightarrow> position_record option" where
  "sm_get_position m sy = d_get (sm_positions m) sy"

definition sm_get_positions :: "state_manager \<Rightarrow> position_record list" where
  "sm_get_positions m = d_vals (sm_positions m)"

definition list_symbols :: "state_manager \<Rightarrow> string list" where
  "list_symbols m = d_keys (sm_positions m)"

definition is_long_side :: "string \<Rightarrow> bool" where
  "is_long_side s = (py_lower s = ''long'' \<or> py_lower s = ''buy'')"

definition excursion_pct :: "bool \<Rightarrow> pyfloat \<Rightarrow> pyfloat \<Rightarrow> pyfloat" where
  "excursion_pct is_long entry price =
     (if is_long then fmul (fl (fsub price entry / entry)) 100 else fmul (fl (fsub entry price / entry)) 100)"

text \<open>What \<open>update_mfe_mae\<close> does to a position it does not skip.\<close>

definition track_price :: "position_record \<Rightarrow> pyfloat \<Rightarrow> position_record" where
  "track_price p price =
     (let long = is_long_side (ps_side p); exc = excursion_pct long (the (ps_entry_price p)) price;
          better = (case ps_mfe_price p of None \<Rightarrow> True | Some q \<Rightarrow> if long then q < price else price < q);
          worse = (case ps_mae_price p of None \<Rightarrow> True | Some q \<Rightarrow> if long then price < q else q < price);
          mfe_pct = fo_or (ps_mfe_pct p) 0; mae_pct = fo_or (ps_mae_pct p) 0
      in p\<lparr>ps_reference_price := Some price,
           ps_mfe_price := (if better then Some price else ps_mfe_price p),
           ps_mfe_pct := Some (if better then max exc mfe_pct else mfe_pct),
           ps_mae_price := (if worse then Some price else ps_mae_price p),
           ps_mae_pct := Some (if worse then min exc mae_pct else mae_pct)\<rparr>)"

definition update_mfe_mae :: "state_manager \<Rightarrow> string \<Rightarrow> pyfloat \<Rightarrow> state_manager" where
  "update_mfe_mae m sy price =
     (case d_get (sm_positions m) sy of
        None \<Rightarrow> m
      | Some p \<Rightarrow> if pr_closing p \<or> \<not> f_truthy (ps_entry_price p) then m
          else m\<lparr>sm_positions := d_put (sm_positions m) sy (track_price p price)\<rparr>)"

definition restore_positions :: "state_manager \<Rightarrow> pos_core list \<Rightarrow> state_manager" where
  "restore_positions m snaps =
     m\<lparr>sm_positions := fold (\<lambda>s d. d_put d (ps_symbol s) (open_record s)) snaps []\<rparr>"

definition list_positions :: "state_manager \<Rightarrow> bool \<Rightarrow> pos_core list" where
  "list_positions m include_closing =
     map pos_core.truncate (filter (\<lambda>p. include_closing \<or> \<not> pr_closing p) (d_vals (sm_positions m)))"

definition mark_closing :: "state_manager \<Rightarrow> string \<Rightarrow> string \<Rightarrow> state_manager" where
  "mark_closing m sy reason = (case d_get (sm_positions m) sy of
       None \<Rightarrow> m
     | Some p \<Rightarrow> m\<lparr>sm_positions := d_put (sm_positions m) sy (p\<lparr>pr_closing := True, pr_close_reason := Some reason\<rparr>)\<rparr>)"

definition finalize_close :: "state_manager \<Rightarrow> string \<Rightarrow> state_manager" where
  "finalize_close m sy = m\<lparr>sm_positions := d_pop (sm_positions m) sy\<rparr>"

definition update_account_state ::
  "state_manager \<Rightarrow> pyfloat option \<Rightarrow> pyfloat option \<Rightarrow> pyfloat option \<Rightarrow> int option \<Rightarrow> state_manager" where
  "update_account_state m equity pnl peak losses =
     (let keep = (\<lambda>new old. case new of None \<Rightarrow> old | Some v \<Rightarrow> v); a = sm_account m
      in m\<lparr>sm_account := a\<lparr>ac_equity := keep equity (ac_equity a), ac_daily_pnl := keep pnl (ac_daily_pnl a),
            ac_peak_balance := keep peak (ac_peak_balance a),
            ac_consecutive_losses := (case losses of None \<Rightarrow> ac_consecutive_losses a | Some n \<Rightarrow> n)\<rparr>\<rparr>)"

section \<open>The positions are keyed by their symbols\<close>

datatype position_event =
    Add pos_core
  | Update pos_core bool
  | Tick string pyfloat
  | Closing string string
  | Closed string
  | Restore "pos_core list"

fun position_step :: "state_manager \<Rightarrow> position_event \<Rightarrow> state_manager" where
  "position_step m (Add a) = add_position m a"
| "position_step m (Update a acc) = sm_update_position m a acc"
| "position_step m (Tick sy price) = update_mfe_mae m sy price"
| "position_step m (Closing sy reason) = mark_closing m sy reason"
| "position_step m (Closed sy) = finalize_close m sy"
| "position_step m (Restore snaps) = restore_positions m snaps"

definition positions_keyed :: "state_manager \<Rightarrow> bool" where
  "positions_keyed m = (d_wf (sm_positions m) \<and> list_all (\<lambda>(k, p). ps_symbol p = k) (sm_positions m))"

lemma keyed_put:
  "list_all (\<lambda>(k, p). ps_symbol p = k) d \<Longrightarrow> ps_symbol v = k \<Longrightarrow> list_all (\<lambda>(k, p). ps_symbol p = k) (d_put d k v)"
  by (induction d k v rule: d_put.induct) auto

lemma keyed_get:
  "list_all (\<lambda>(k, p). ps_symbol p = k) d \<Longrightarrow> d_get d k = Some p \<Longrightarrow> ps_symbol p = k"
  by (auto simp: list_all_iff dest!: d_get_mem)

lemma keyed_pop: "list_all P d \<Longrightarrow> list_all P (d_pop d k)"
  using set_d_pop_subset [of d k] by (auto simp: list_all_iff)

lemma symbol_of_new [simp]:
  "ps_symbol (open_record a) = ps_symbol a" "ps_symbol (fresh_position a) = ps_symbol a"
  "ps_symbol (accumulated_position ex a) = ps_symbol a" "ps_symbol (track_price p price) = ps_symbol p"
  by (simp_all add: open_record_def fresh_position_def accumulated_position_def track_price_def Let_def pos_core.defs)

lemma keyed_restore:
  "d_wf d \<and> list_all (\<lambda>(k, p). ps_symbol p = k) d \<Longrightarrow>
   d_wf (fold (\<lambda>s d. d_put d (ps_symbol s) (open_record s)) snaps d) \<and>
   list_all (\<lambda>(k, p). ps_symbol p = k) (fold (\<lambda>s d. d_put d (ps_symbol s) (open_record s)) snaps d)"
proof (induction snaps arbitrary: d)
  case (Cons a snaps)
  then show ?case using Cons.IH [of "d_put d (ps_symbol a) (open_record a)"] by (simp add: keyed_put)
qed simp

lemma keyed_symbols: "positions_keyed m \<Longrightarrow> distinct (map (\<lambda>x. ps_symbol (snd x)) (sm_positions m))"
proof -
  assume k: "positions_keyed m"
  then have "map (\<lambda>x. ps_symbol (snd x)) (sm_positions m) = map fst (sm_positions m)"
    by (intro map_cong) (auto simp: positions_keyed_def list_all_iff)
  with k show ?thesis by (simp only: positions_keyed_def)
qed

lemma position_step_keyed: "positions_keyed m \<Longrightarrow> positions_keyed (position_step m e)"
proof (cases e)
  case (Restore snaps)
  then show ?thesis using keyed_restore [of "[]" snaps] by (simp add: positions_keyed_def restore_positions_def)
next
  case (Update a acc)
  moreover assume "positions_keyed m"
  ultimately show ?thesis
    by (auto simp: positions_keyed_def sm_update_position_def Let_def intro!: keyed_put split: option.split)
qed (auto simp: positions_keyed_def add_position_def update_mfe_mae_def mark_closing_def finalize_close_def
       intro!: keyed_put keyed_pop dest: keyed_get split: option.split)

interpretation pm: invariant_machine position_step "\<lambda>_. True" positions_keyed
  by unfold_locales (rule position_step_keyed)

section \<open>Extreme prices since entry\<close>

lemma excursion_order:
  assumes "0 < e"
  shows "p \<le> q \<Longrightarrow> excursion_pct True e p \<le> excursion_pct True e q"
    "p \<le> q \<Longrightarrow> excursion_pct False e q \<le> excursion_pct False e p"
    "excursion_pct b e e = 0"
  using assms
  by (simp_all add: excursion_pct_def fmul_def fsub_def fl_mono mult_right_mono divide_right_mono)

text \<open>What tracking has seen so far: the prices \<open>lo\<close> and \<open>hi\<close> and the excursions they stand for.\<close>

definition tracked :: "position_record \<Rightarrow> pyfloat \<Rightarrow> pyfloat \<Rightarrow> pyfloat \<Rightarrow> bool" where
  "tracked p e lo hi =
     (let long = is_long_side (ps_side p); best = (if long then hi else lo); worst = (if long then lo else hi)
      in lo \<le> e \<and> e \<le> hi \<and> \<not> pr_closing p \<and> ps_entry_price p = Some e \<and>
         ps_mfe_price p = Some best \<and> ps_mae_price p = Some worst \<and>
         ps_mfe_pct p = Some (excursion_pct long e best) \<and> ps_mae_pct p = Some (excursion_pct long e worst))"

lemma tracked_fresh: "ps_entry_price a = Some e \<Longrightarrow> 0 < e \<Longrightarrow> tracked (fresh_position a) e e e"
  by (simp add: tracked_def fresh_position_def open_record_def pos_core.defs excursion_order)

lemma fo_or_0 [simp]: "fo_or (Some x) 0 = x"
  by (simp add: fo_or_def f_or_def)

lemma tracked_step:
  assumes e: "0 < e" and t: "tracked p e lo hi"
  shows "tracked (track_price p q) e (min lo q) (max hi q)"
proof (cases "is_long_side (ps_side p)")
  case True
  with t excursion_order(1) [OF e, of hi q] excursion_order(1) [OF e, of q lo] show ?thesis
    by (auto simp: tracked_def track_price_def Let_def min_def max_def)
next
  case False
  with t excursion_order(2) [OF e, of q lo] excursion_order(2) [OF e, of hi q] show ?thesis
    by (auto simp: tracked_def track_price_def Let_def min_def max_def)
qed

lemma track_side [simp]: "ps_side (track_price p q) = ps_side p"
  by (simp add: track_price_def Let_def)

lemma fold_min_max:
  "foldl min (x :: 'a :: linorder) ys = Min (set (x # ys))" "foldl max x ys = Max (set (x # ys))"
  unfolding foldl_conv_fold Min.set_eq_fold Max.set_eq_fold by (simp_all only: min.commute max.commute)

lemma tracked_run:
  assumes "0 < e" "d_get (sm_positions m) sy = Some p" "tracked p e lo hi"
  shows "\<exists>p'. d_get (sm_positions (foldl (\<lambda>m. update_mfe_mae m sy) m prices)) sy = Some p' \<and>
     ps_side p' = ps_side p \<and> tracked p' e (foldl min lo prices) (foldl max hi prices)"
  using assms(2,3)
proof (induction prices arbitrary: m p lo hi)
  case (Cons q prices)
  have "update_mfe_mae m sy q = m\<lparr>sm_positions := d_put (sm_positions m) sy (track_price p q)\<rparr>"
    using Cons.prems assms(1) by (simp add: update_mfe_mae_def tracked_def Let_def f_truthy_def)
  with Cons.IH [of "update_mfe_mae m sy q" "track_price p q" "min lo q" "max hi q"] tracked_step [OF assms(1) Cons.prems(2)]
  show ?case by simp
qed simp

section \<open>Repeated fills\<close>

lemma accumulated_fields [simp]:
  "ps_side (accumulated_position ex a) = ps_side a" "ps_size (accumulated_position ex a) = fadd (ps_size ex) (ps_size a)"
  "ps_mfe_price (accumulated_position ex a) = ps_mfe_price ex" "ps_mae_price (accumulated_position ex a) = ps_mae_price ex"
  "ps_opened_at (accumulated_position ex a) = of_or (ps_opened_at ex) (ps_opened_at a)"
  "\<not> pr_closing (accumulated_position ex a)"
  by (simp_all add: accumulated_position_def open_record_def pos_core.defs)

lemma fresh_fields [simp]:
  "ps_side (fresh_position a) = ps_side a" "ps_size (fresh_position a) = ps_size a"
  "ps_mfe_price (fresh_position a) = ps_entry_price a" "ps_mae_price (fresh_position a) = ps_entry_price a"
  "ps_entry_price (fresh_position a) = ps_entry_price a"
  "ps_opened_at (fresh_position a) = ps_opened_at a" "\<not> pr_closing (fresh_position a)"
  by (simp_all add: fresh_position_def open_record_def pos_core.defs)

lemma fills_run:
  assumes "d_get (sm_positions m) sy = Some p" "\<not> pr_closing p" "f_truthy (ps_opened_at p)"
    and "list_all (\<lambda>f. ps_symbol f = sy \<and> ps_side f = ps_side p) fs"
  shows "\<exists>p'. d_get (sm_positions (foldl (\<lambda>m f. sm_update_position m f True) m fs)) sy = Some p' \<and>
     ps_side p' = ps_side p \<and> ps_size p' = foldl fadd (ps_size p) (map ps_size fs) \<and> ps_opened_at p' = ps_opened_at p \<and>
     ps_mfe_price p' = ps_mfe_price p \<and> ps_mae_price p' = ps_mae_price p"
  using assms
proof (induction fs arbitrary: m p)
  case (Cons f fs)
  have "sm_update_position m f True = m\<lparr>sm_positions := d_put (sm_positions m) sy (accumulated_position p f)\<rparr>"
    using Cons.prems by (simp add: sm_update_position_def)
  with Cons.IH [of "sm_update_position m f True" "accumulated_position p f"] Cons.prems show ?case
    by (simp add: of_or_def)
qed simp

section \<open>Snapshots\<close>

text \<open>The closing mark is not part of a snapshot.\<close>

definition unmarked :: "position_record \<Rightarrow> position_record" where
  "unmarked p = p\<lparr>pr_closing := False, pr_close_reason := None\<rparr>"

lemma open_truncate: "open_record (pos_core.truncate p) = unmarked p"
  by (cases p) (simp add: open_record_def unmarked_def pos_core.defs)

lemma truncate_unmarked [simp]: "pos_core.truncate (unmarked p) = pos_core.truncate p"
  by (cases p) (simp add: unmarked_def pos_core.defs)

lemma symbol_truncate [simp]: "ps_symbol (pos_core.truncate p) = ps_symbol p"
  by (cases p) (simp add: pos_core.defs)

section \<open>Properties\<close>

text \<open>From the moment a position is opened at a positive price, its best and worst prices are exactly the extremes of the entry
  price and all prices seen since (exchanged for a short position), and the recorded excursions are those of these prices,
  so that the favourable one is never negative and the adverse one never positive.\<close>

theorem extremes_since_entry:
  assumes "ps_entry_price a = Some e" and "0 < e"
  shows "\<exists>p. d_get (sm_positions (foldl (\<lambda>m. update_mfe_mae m (ps_symbol a)) (add_position m a) prices)) (ps_symbol a) = Some p \<and>
     (let long = is_long_side (ps_side a); lo = Min (set (e # prices)); hi = Max (set (e # prices));
          best = (if long then hi else lo); worst = (if long then lo else hi)
      in ps_mfe_price p = Some best \<and> ps_mae_price p = Some worst \<and>
         ps_mfe_pct p = Some (excursion_pct long e best) \<and> ps_mae_pct p = Some (excursion_pct long e worst) \<and>
         0 \<le> excursion_pct long e best \<and> excursion_pct long e worst \<le> 0)"
proof -
  let ?m = "add_position m a"
  have "d_get (sm_positions ?m) (ps_symbol a) = Some (fresh_position a)" by (simp add: add_position_def)
  from tracked_run [OF assms(2) this tracked_fresh [OF assms], of prices]
  obtain p where p: "d_get (sm_positions (foldl (\<lambda>m. update_mfe_mae m (ps_symbol a)) ?m prices)) (ps_symbol a) = Some p"
    "ps_side p = ps_side a" and t: "tracked p e (Min (set (e # prices))) (Max (set (e # prices)))"
    by (auto simp: fold_min_max simp del: list.set)
  have sign: "0 \<le> excursion_pct True e q \<and> excursion_pct False e q \<le> 0" if "e \<le> q" for q
    using that excursion_order [OF assms(2)] by metis
  have sign': "excursion_pct True e q \<le> 0 \<and> 0 \<le> excursion_pct False e q" if "q \<le> e" for q
    using that excursion_order [OF assms(2)] by metis
  from p t sign sign' show ?thesis by (cases "is_long_side (ps_side a)") (auto simp: tracked_def Let_def simp del: list.set)
qed

theorem extremes_since_entry_witness:
  "\<exists>p. d_get (sm_positions (foldl (\<lambda>m. update_mfe_mae m ''BTCUSDT'')
     (add_position state_manager_init ((position_args ''BTCUSDT'' ''long'' 1)\<lparr>ps_entry_price := Some 100\<rparr>)) [103, 99, 101]))
     ''BTCUSDT'' = Some p \<and> ps_mfe_price p = Some 103 \<and> ps_mae_price p = Some 99"
proof -
  have "is_long_side ''long''" by code_simp
  then show ?thesis
    using extremes_since_entry [of "(position_args ''BTCUSDT'' ''long'' 1)\<lparr>ps_entry_price := Some 100\<rparr>" 100 state_manager_init
        "[103, 99, 101]"]
    by (auto simp: position_args_def)
qed

text \<open>A first fill and any number of further fills on the same side make one position: its size is the running float sum of the
  fill sizes, its opening time and its extreme prices remain those of the first fill, whatever the later fills cost.\<close>

theorem fills_make_one_position:
  assumes "d_get (sm_positions m) (ps_symbol a) = None" and "f_truthy (ps_opened_at a)"
    and "list_all (\<lambda>f. ps_symbol f = ps_symbol a \<and> ps_side f = ps_side a) fs"
  shows "\<exists>p. d_get (sm_positions (foldl (\<lambda>m f. sm_update_position m f True) m (a # fs))) (ps_symbol a) = Some p \<and>
     ps_side p = ps_side a \<and> ps_size p = foldl fadd (ps_size a) (map ps_size fs) \<and> ps_opened_at p = ps_opened_at a \<and>
     ps_mfe_price p = ps_entry_price a \<and> ps_mae_price p = ps_entry_price a"
proof -
  have "sm_update_position m a True = m\<lparr>sm_positions := d_put (sm_positions m) (ps_symbol a) (fresh_position a)\<rparr>"
    using assms(1) by (simp add: sm_update_position_def)
  with fills_run [of "sm_update_position m a True" "ps_symbol a" "fresh_position a" fs] assms(2,3) show ?thesis by simp
qed

theorem fills_make_one_position_witness:
  "\<exists>p. d_get (sm_positions (foldl (\<lambda>m f. sm_update_position m f True) state_manager_init
     [(position_args ''BTCUSDT'' ''long'' 1)\<lparr>ps_entry_price := Some 100, ps_opened_at := Some 7\<rparr>,
      (position_args ''BTCUSDT'' ''long'' 2)\<lparr>ps_entry_price := Some 110, ps_opened_at := Some 9\<rparr>]))
     ''BTCUSDT'' = Some p \<and> ps_size p = fadd 1 2 \<and> ps_opened_at p = Some 7 \<and> ps_mfe_price p = Some 100"
  using fills_make_one_position [of state_manager_init
      "(position_args ''BTCUSDT'' ''long'' 1)\<lparr>ps_entry_price := Some 100, ps_opened_at := Some 7\<rparr>"
      "[(position_args ''BTCUSDT'' ''long'' 2)\<lparr>ps_entry_price := Some 110, ps_opened_at := Some 9\<rparr>]"]
  by (auto simp: position_args_def state_manager_init_def f_truthy_def)

text \<open>Restoring the snapshot of a state taken after any history of operations gives back every position, in the same order and
  under the same symbol, except that no position is marked as closing any more.\<close>

theorem snapshot_reopens_closing_positions:
  "sm_positions (restore_positions m0 (list_positions (foldl position_step state_manager_init es) True)) =
     map (\<lambda>(k, p). (k, unmarked p)) (sm_positions (foldl position_step state_manager_init es))"
proof -
  let ?m = "foldl position_step state_manager_init es"
  have "positions_keyed ?m"
    by (rule pm.run_inv) (simp_all add: positions_keyed_def state_manager_init_def list_all_iff)
  then show ?thesis
    using fold_put_distinct [of ps_symbol "list_positions ?m True" "[]" open_record] keyed_symbols [of ?m]
    by (auto simp: restore_positions_def list_positions_def d_vals_def comp_def open_truncate positions_keyed_def list_all_iff)
qed

end
