(* ===== verification/Pos_Reconcile.thy ===== *)
theory Pos_Reconcile
  imports Positions
begin

text \<open>
  Reconciling positions with the exchange (quantgambit/execution/reconciliation.py, the position half), over the
  position store protocol of that module, with the adapter of quantgambit/runtime/quant_integration.py that
  puts the in-memory state manager behind the protocol.  Exchange payloads are dictionaries of dynamic
  values; reading text as a number and showing a value as text are arguments.  The order in which
  Python walks a set of symbols is an argument as well.  Descriptions and time stamps of discrepancies are left out.
\<close>

section \<open>Data\<close>

datatype discrepancy_type =
    GHOST_ORDER
  | ORPHAN_ORDER
  | ORDER_STATE_MISMATCH
  | ORDER_FILLED_QTY_MISMATCH
  | GHOST_POSITION
  | ORPHAN_POSITION
  | POSITION_SIZE_MISMATCH
  | POSITION_SIDE_MISMATCH

datatype resolution =
    Unresolved
  | MarkedCanceled
  | CancelledOrphan
  | FilledSet pyfloat
  | ClearedLocal
  | SyncedLocal pyfloat
  | SizeSet pyfloat

record discrepancy =
  di_type :: discrepancy_type
  di_symbol :: string
  di_local :: details
  di_exchange :: details
  di_resolved :: bool
  di_action :: resolution

record recon_config =
  rc_tolerance :: pyfloat
  rc_heal :: bool
  rc_symbols :: "string list option"

definition default_recon_config :: recon_config where
  "default_recon_config = \<lparr>rc_tolerance = fl (1 / 10 ^ 8), rc_heal = True, rc_symbols = None\<rparr>"

record text_codec =
  tx_float :: "string \<Rightarrow> pyfloat option"
  tx_str :: "pyfloat pyval \<Rightarrow> string"

record local_position =
  lp_symbol :: string
  lp_size :: pyfloat
  lp_side :: string
  lp_entry_price :: "pyfloat option"

text \<open>The operations of the protocol that the worker calls.\<close>

record 's position_store =
  st_all :: "'s \<Rightarrow> (string, local_position) dict"
  st_update :: "'s \<Rightarrow> string \<Rightarrow> pyfloat \<Rightarrow> pyfloat \<Rightarrow> 's"
  st_clear :: "'s \<Rightarrow> string \<Rightarrow> 's"

record 's rec_pass =
  rp_store :: 's
  rp_discs :: "discrepancy list"
  rp_healed :: nat

section \<open>Reading payloads\<close>

definition canonical_key :: "string option \<Rightarrow> string" where
  "canonical_key s = (case to_storage_symbol s of None \<Rightarrow> [] | Some t \<Rightarrow> t)"

definition payload_symbol :: "text_codec \<Rightarrow> details \<Rightarrow> string" where
  "payload_symbol tx p = (case d_get p ''symbol'' of
       None \<Rightarrow> canonical_key (Some [])
     | Some PNone \<Rightarrow> canonical_key None
     | Some (PStr s) \<Rightarrow> canonical_key (Some s)
     | Some (PBool b) \<Rightarrow> if b then canonical_text (tx_str tx (PBool b)) else []
     | Some (PInt i) \<Rightarrow> if i \<noteq> 0 then canonical_text (tx_str tx (PInt i)) else []
     | Some (PNum x) \<Rightarrow> if x \<noteq> 0 then canonical_text (tx_str tx (PNum x)) else [])"

text \<open>\<open>float(payload.get(key, 0) or 0)\<close>\<close>

definition payload_float :: "text_codec \<Rightarrow> details \<Rightarrow> string \<Rightarrow> py_error + pyfloat" where
  "payload_float tx p key = (case d_get p key of
       None \<Rightarrow> Inr 0
     | Some PNone \<Rightarrow> Inr 0
     | Some (PBool b) \<Rightarrow> Inr (of_bool b)
     | Some (PInt i) \<Rightarrow> Inr (fl (of_int i))
     | Some (PNum x) \<Rightarrow> Inr x
     | Some (PStr s) \<Rightarrow> if s = [] then Inr 0
         else (case tx_float tx s of None \<Rightarrow> Inl (ValueError s) | Some x \<Rightarrow> Inr x))"

definition exchange_by_symbol :: "text_codec \<Rightarrow> details list \<Rightarrow> (string, details) dict" where
  "exchange_by_symbol tx ps = fold (\<lambda>p d. d_put d (payload_symbol tx p) p) ps []"

section \<open>One pass\<close>

definition worker_symbols :: "string list option \<Rightarrow> string list option" where
  "worker_symbols s = (case s of None \<Rightarrow> None | Some ss \<Rightarrow> if ss = [] then None else Some (map (\<lambda>t. canonical_key (Some t)) ss))"

definition out_of_scope :: "recon_config \<Rightarrow> string \<Rightarrow> bool" where
  "out_of_scope c sy = (case rc_symbols c of None \<Rightarrow> False | Some ss \<Rightarrow> ss \<noteq> [] \<and> sy \<notin> set ss)"

text \<open>A discrepancy is recorded; with healing on, the repair is applied and counted.\<close>

definition found ::
  "recon_config \<Rightarrow> 's rec_pass \<Rightarrow> discrepancy_type \<Rightarrow> string \<Rightarrow> details \<Rightarrow> details \<Rightarrow> ('s \<Rightarrow> 's) \<Rightarrow> resolution \<Rightarrow> 's rec_pass" where
  "found c ps ty sy loc ex repair act =
     (let d = \<lparr>di_type = ty, di_symbol = sy, di_local = loc, di_exchange = ex, di_resolved = rc_heal c,
               di_action = (if rc_heal c then act else Unresolved)\<rparr>
      in if rc_heal c
         then \<lparr>rp_store = repair (rp_store ps), rp_discs = rp_discs ps @ [d], rp_healed = Suc (rp_healed ps)\<rparr>
         else ps\<lparr>rp_discs := rp_discs ps @ [d]\<rparr>)"

text \<open>A loop whose body can raise.\<close>

fun until_error :: "('p \<Rightarrow> 'a \<Rightarrow> 'p \<times> py_error option) \<Rightarrow> 'p \<Rightarrow> 'a list \<Rightarrow> 'p \<times> py_error option" where
  "until_error step ps [] = (ps, None)"
| "until_error step ps (x # xs) =
     (case step ps x of (ps', None) \<Rightarrow> until_error step ps' xs | (ps', Some e) \<Rightarrow> (ps', Some e))"

definition ghost_position_step ::
  "'s position_store \<Rightarrow> recon_config \<Rightarrow> (string, details) dict \<Rightarrow> 's rec_pass \<Rightarrow> string \<times> local_position \<Rightarrow> 's rec_pass" where
  "ghost_position_step P c X ps item =
     (let symbol = fst item; sy = canonical_key (Some symbol); sz = lp_size (snd item)
      in if out_of_scope c sy then ps
         else if \<not> d_has X sy \<and> rc_tolerance c < \<bar>sz\<bar>
         then found c ps GHOST_POSITION sy [(''size'', PNum sz)] [] (\<lambda>s. st_clear P s symbol) ClearedLocal
         else ps)"

definition orphan_position_step ::
  "'s position_store \<Rightarrow> text_codec \<Rightarrow> recon_config \<Rightarrow> (string, local_position) dict \<Rightarrow> 's rec_pass \<Rightarrow> string \<times> details \<Rightarrow>
     's rec_pass \<times> py_error option" where
  "orphan_position_step P tx c D ps item =
     (let symbol = fst item
      in if out_of_scope c symbol then (ps, None)
         else case payload_float tx (snd item) ''size'' of
           Inl e \<Rightarrow> (ps, Some e)
         | Inr x \<Rightarrow>
             if \<not> list_ex (\<lambda>raw. canonical_key (Some raw) = symbol) (d_keys D) \<and> rc_tolerance c < \<bar>x\<bar>
             then (case (if rc_heal c then payload_float tx (snd item) ''avgPrice'' else Inr 0) of
                 Inl e \<Rightarrow> (ps, Some e)
               | Inr px \<Rightarrow> (found c ps ORPHAN_POSITION symbol [] [(''size'', PNum x)] (\<lambda>s. st_update P s symbol x px) (SyncedLocal x), None))
             else (ps, None))"

definition size_mismatch_step ::
  "'s position_store \<Rightarrow> text_codec \<Rightarrow> recon_config \<Rightarrow> (string, string \<times> local_position) dict \<Rightarrow> (string, details) dict \<Rightarrow>
     's rec_pass \<Rightarrow> string \<Rightarrow> 's rec_pass \<times> py_error option" where
  "size_mismatch_step P tx c L X ps symbol =
     (if out_of_scope c symbol then (ps, None)
      else case (d_get L symbol, d_get X symbol) of
        (Some (raw, lp), Some xp) \<Rightarrow>
          (case payload_float tx xp ''size'' of
             Inl e \<Rightarrow> (ps, Some e)
           | Inr x \<Rightarrow>
               if rc_tolerance c < \<bar>fsub (lp_size lp) x\<bar>
               then (case (if rc_heal c then payload_float tx xp ''avgPrice'' else Inr 0) of
                   Inl e \<Rightarrow> (ps, Some e)
                 | Inr px \<Rightarrow> (found c ps POSITION_SIZE_MISMATCH symbol [(''size'', PNum (lp_size lp))] [(''size'', PNum x)]
                     (\<lambda>s. if rc_tolerance c < \<bar>x\<bar> then st_update P s raw x px else st_clear P s raw) (SizeSet x), None))
               else (ps, None))
      | _ \<Rightarrow> (ps, None))"

definition locals_by_symbol :: "(string, local_position) dict \<Rightarrow> (string, string \<times> local_position) dict" where
  "locals_by_symbol D = fold (\<lambda>(k, lp) d. d_put d (canonical_key (Some k)) (k, lp)) D []"

text \<open>The result is the discrepancies, the repairs and the number of positions checked, or the exception; repairs made
  before an exception stay.\<close>

definition reconcile_positions ::
  "'s position_store \<Rightarrow> text_codec \<Rightarrow> recon_config \<Rightarrow> (string list \<Rightarrow> string list) \<Rightarrow> details list \<Rightarrow> 's \<Rightarrow>
     's \<times> (py_error + discrepancy list \<times> nat \<times> nat)" where
  "reconcile_positions P tx c set_order exch s =
     (let D = st_all P s; X = exchange_by_symbol tx exch; checked = length D + length X;
          ps1 = foldl (ghost_position_step P c X) \<lparr>rp_store = s, rp_discs = [], rp_healed = 0\<rparr> D
      in case until_error (orphan_position_step P tx c D) ps1 X of
           (ps2, Some e) \<Rightarrow> (rp_store ps2, Inl e)
         | (ps2, None) \<Rightarrow>
             let L = locals_by_symbol D
             in (case until_error (size_mismatch_step P tx c L X) ps2 (set_order (filter (d_has X) (d_keys L))) of
                   (ps3, Some e) \<Rightarrow> (rp_store ps3, Inl e)
                 | (ps3, None) \<Rightarrow> (rp_store ps3, Inr (rp_discs ps3, rp_healed ps3, checked))))"

section \<open>The adapter over the state manager\<close>

definition local_view :: "position_record \<Rightarrow> local_position" where
  "local_view p = \<lparr>lp_symbol = ps_symbol p, lp_size = ps_size p, lp_side = ps_side p, lp_entry_price = ps_entry_price p\<rparr>"

definition adapter_get_position :: "state_manager \<Rightarrow> string \<Rightarrow> local_position option" where
  "adapter_get_position m sy = map_option local_view (find (\<lambda>p. ps_symbol p = sy) (sm_get_positions m))"

definition adapter_get_all :: "state_manager \<Rightarrow> (string, local_position) dict" where
  "adapter_get_all m = fold (\<lambda>p d. d_put d (ps_symbol p) (local_view p)) (sm_get_positions m) []"

text \<open>A field of the stored position, if there is one.\<close>

definition kept :: "state_manager \<Rightarrow> string \<Rightarrow> (position_record \<Rightarrow> 'a option) \<Rightarrow> 'a option" where
  "kept m sy f = (case sm_get_position m sy of None \<Rightarrow> None | Some p \<Rightarrow> f p)"

definition adapter_update :: "state_manager \<Rightarrow> string \<Rightarrow> pyfloat \<Rightarrow> pyfloat \<Rightarrow> state_manager" where
  "adapter_update m sy x px =
     sm_update_position m
       ((position_args sy (if 0 \<le> x then ''long'' else ''short'') \<bar>x\<bar>)
         \<lparr>ps_entry_price := Some px, ps_reference_price := kept m sy ps_reference_price,
          ps_entry_fee_usd := kept m sy ps_entry_fee_usd, ps_stop_loss := kept m sy ps_stop_loss,
          ps_take_profit := kept m sy ps_take_profit, ps_opened_at := kept m sy ps_opened_at,
          ps_prediction_confidence := kept m sy ps_prediction_confidence, ps_strategy_id := kept m sy ps_strategy_id,
          ps_profile_id := kept m sy ps_profile_id, ps_entry_signal_strength := kept m sy ps_entry_signal_strength,
          ps_entry_signal_confidence := kept m sy ps_entry_signal_confidence,
          ps_entry_confirmation_count := kept m sy ps_entry_confirmation_count,
          ps_expected_horizon_sec := kept m sy ps_expected_horizon_sec, ps_time_to_work_sec := kept m sy ps_time_to_work_sec,
          ps_max_hold_sec := kept m sy ps_max_hold_sec, ps_mfe_min_bps := kept m sy ps_mfe_min_bps\<rparr>) False"

definition adapter_clear :: "state_manager \<Rightarrow> string \<Rightarrow> state_manager" where
  "adapter_clear m sy = m\<lparr>sm_positions := d_pop (sm_positions m) sy\<rparr>"

definition manager_store :: "state_manager position_store" where
  "manager_store = \<lparr>st_all = adapter_get_all, st_update = adapter_update, st_clear = adapter_clear\<rparr>"

section \<open>The simple reconciler\<close>

text \<open>\<open>SimpleExchangeReconciler.reconcile\<close> over the provider's positions (symbol, side, size).\<close>

definition simple_reconcile :: "(string \<times> string \<times> pyfloat) list \<Rightarrow> state_manager \<Rightarrow> state_manager" where
  "simple_reconcile exch m =
     (let ghosts = filter (\<lambda>sy. sy \<notin> set (map fst exch)) (d_keys (sm_positions m));
          m1 = m\<lparr>sm_positions := fold (\<lambda>sy d. d_pop d sy) ghosts (sm_positions m)\<rparr>
      in fold (\<lambda>(sy, side, qty) m. add_position m (position_args sy side qty)) exch m1)"

section \<open>What the exchange client answers\<close>

text \<open>The guarded client turns a failed query into an empty list (quantgambit/execution/guards.py), the adapter a missing answer
  (quantgambit/runtime/quant_integration.py).\<close>

definition guarded_fetch_positions :: "py_error + details list option \<Rightarrow> details list option" where
  "guarded_fetch_positions r = (case r of Inl e \<Rightarrow> Some [] | Inr ps \<Rightarrow> ps)"

definition client_get_positions :: "details list option \<Rightarrow> details list" where
  "client_get_positions r = opt_list r"

section \<open>Folding dictionaries\<close>

lemma d_wf_exchange [simp]: "d_wf (exchange_by_symbol tx ps)"
  by (simp add: exchange_by_symbol_def)

lemma locals_fold: "locals_by_symbol D = fold (\<lambda>x d. d_put d (canonical_key (Some (fst x))) x) D []"
  unfolding locals_by_symbol_def by (rule arg_cong [where f = "\<lambda>f. fold f D []"]) (auto simp: fun_eq_iff)

lemma d_wf_locals [simp]: "d_wf (locals_by_symbol D)"
  by (simp add: locals_fold)

lemma find_fst:
  assumes "distinct (map fst xs)" and "(k, v) \<in> set xs"
  shows "find (\<lambda>x. fst x = k) xs = Some (k, v)"
  using assms by (induction xs) (auto simp: rev_image_eqI)

text \<open>With local keys in canonical form the lookup by symbol is the local dictionary.\<close>

lemma locals_canonical:
  assumes "d_wf D" and "list_all (\<lambda>k. canonical_key (Some k) = k) (d_keys D)"
  shows "d_get (locals_by_symbol D) k = map_option (Pair k) (d_get D k)"
proof -
  have c: "\<And>x. x \<in> set (rev D) \<Longrightarrow> canonical_key (Some (fst x)) = fst x"
    using assms(2) by (auto simp: list_all_iff d_keys_def)
  have f: "find (\<lambda>x. canonical_key (Some (fst x)) = k) (rev D) = find (\<lambda>x. fst x = k) (rev D)"
    by (rule find_cong) (use c in auto)
  show ?thesis
  proof (cases "d_get D k")
    case None
    then have "find (\<lambda>x. fst x = k) (rev D) = None" by (force simp: find_None_iff d_get_None_iff)
    with None show ?thesis by (simp add: locals_fold d_get_fold_put f)
  next
    case (Some v)
    then have "find (\<lambda>x. fst x = k) (rev D) = Some (k, v)"
      using assms(1) by (intro find_fst) (auto simp: rev_map [symmetric] dest: d_get_mem)
    with Some show ?thesis by (simp add: locals_fold d_get_fold_put f)
  qed
qed

section \<open>Loops over a store\<close>

lemma until_error_total:
  "(\<And>ps x. x \<in> set xs \<Longrightarrow> snd (step ps x) = None) \<Longrightarrow> until_error step ps xs = (foldl (\<lambda>ps x. fst (step ps x)) ps xs, None)"
proof (induction xs arbitrary: ps)
  case (Cons x xs)
  have "step ps x = (fst (step ps x), None)" using Cons.prems [of x ps] by (simp add: prod_eq_iff)
  then show ?case using Cons.IH [of "fst (step ps x)"] Cons.prems by (auto split: prod.split)
qed simp

lemma until_error_idle: "(\<And>x. x \<in> set xs \<Longrightarrow> step ps x = (ps, None)) \<Longrightarrow> until_error step ps xs = (ps, None)"
  by (induction xs) auto

lemma foldl_idle: "(\<And>x. x \<in> set xs \<Longrightarrow> step ps x = ps) \<Longrightarrow> foldl step ps xs = ps"
  by (induction xs) auto

section \<open>When a pass can repair everything\<close>

text \<open>Every exchange position has readable numbers as its size and its average price; local symbols are canonical.\<close>

definition readable :: "text_codec \<Rightarrow> details \<Rightarrow> bool" where
  "readable tx p = ((case payload_float tx p ''size'' of Inl _ \<Rightarrow> False | Inr x \<Rightarrow> True) \<and>
     (case payload_float tx p ''avgPrice'' of Inl _ \<Rightarrow> False | Inr _ \<Rightarrow> True))"

definition canonical_locals :: "(string, local_position) dict \<Rightarrow> bool" where
  "canonical_locals D = list_all (\<lambda>k. canonical_key (Some k) = k) (d_keys D)"

lemma canonical_localsD: "canonical_locals D \<Longrightarrow> (k, lp) \<in> set D \<Longrightarrow> canonical_key (Some k) = k"
  by (auto simp: canonical_locals_def list_all_iff d_keys_def)

lemma has_local_iff: "canonical_locals D \<Longrightarrow> list_ex (\<lambda>raw. canonical_key (Some raw) = k) (d_keys D) = d_has D k"
  by (force simp: canonical_locals_def list_all_iff list_ex_iff d_keys_def d_has_iff)

definition size_of :: "text_codec \<Rightarrow> details \<Rightarrow> pyfloat" where
  "size_of tx p = (case payload_float tx p ''size'' of Inl _ \<Rightarrow> 0 | Inr x \<Rightarrow> x)"

lemma readableD:
  "readable tx p \<Longrightarrow> payload_float tx p ''size'' = Inr (size_of tx p) \<and>
     (\<exists>px. payload_float tx p ''avgPrice'' = Inr px)"
  by (auto simp: readable_def size_of_def split: sum.splits)

lemma found_store [simp]:
  "rc_heal c \<Longrightarrow> rp_store (found c ps ty sy loc ex repair act) = repair (rp_store ps)"
  by (simp add: found_def)

lemma found_grows: "set (rp_discs ps) \<subseteq> set (rp_discs (found c ps ty sy loc ex repair act))"
  by (auto simp: found_def Let_def)

lemma mismatch_grows: "set (rp_discs ps) \<subseteq> set (rp_discs (fst (size_mismatch_step P tx c L X ps k)))"
  using found_grows by (auto simp: size_mismatch_step_def Let_def found_def split: option.splits sum.splits)

lemma mismatch_kept:
  assumes "k \<in> set ks" and grows: "\<And>ps k. set (rp_discs ps) \<subseteq> set (rp_discs (fst (step ps k)))"
    and "\<And>ps. \<exists>d \<in> set (rp_discs (fst (step ps k))). Q d" and "until_error step ps ks = (ps', None)"
  shows "\<exists>d \<in> set (rp_discs ps'). Q d"
proof -
  have keep: "until_error step ps xs = (ps', None) \<Longrightarrow> set (rp_discs ps) \<subseteq> set (rp_discs ps')" for ps xs
  proof (induction xs arbitrary: ps)
    case (Cons x xs)
    then show ?case using grows [of ps x] by (cases "step ps x") (auto split: option.splits)
  qed simp
  show ?thesis using assms(1,4)
  proof (induction ks arbitrary: ps)
    case (Cons x xs)
    obtain ps1 where 1: "step ps x = (ps1, None)" "until_error step ps1 xs = (ps', None)"
      using Cons.prems(2) by (cases "step ps x") (auto split: option.splits)
    show ?case
    proof (cases "x = k")
      case True
      with assms(3) [of ps] keep [OF 1(2)] 1(1) show ?thesis by auto
    next
      case False
      with Cons.IH [OF _ 1(2)] Cons.prems(1) show ?thesis by simp
    qed
  qed simp
qed

section \<open>The position store protocol\<close>

text \<open>The size a healing pass leaves under a symbol, from the local and the exchange size.\<close>

definition healed_size :: "recon_config \<Rightarrow> string \<Rightarrow> pyfloat option \<Rightarrow> pyfloat option \<Rightarrow> pyfloat option" where
  "healed_size c k here there =
     (if out_of_scope c k then here
      else case there of
        None \<Rightarrow> (case here of None \<Rightarrow> None | Some z \<Rightarrow> if rc_tolerance c < \<bar>z\<bar> then None else Some z)
      | Some x \<Rightarrow> if (case here of None \<Rightarrow> False | Some z \<Rightarrow> \<bar>fsub z x\<bar> \<le> rc_tolerance c) then here
          else if rc_tolerance c < \<bar>x\<bar> then Some \<bar>x\<bar> else None)"

text \<open>The two sizes agree up to the tolerance.\<close>

definition settled :: "recon_config \<Rightarrow> pyfloat option \<Rightarrow> pyfloat option \<Rightarrow> bool" where
  "settled c here there = (case here of
       None \<Rightarrow> (case there of None \<Rightarrow> True | Some x \<Rightarrow> \<bar>x\<bar> \<le> rc_tolerance c)
     | Some z \<Rightarrow> (case there of None \<Rightarrow> \<bar>z\<bar> \<le> rc_tolerance c | Some x \<Rightarrow> \<bar>fsub z x\<bar> \<le> rc_tolerance c))"

lemma healed_settled:
  assumes "0 \<le> rc_tolerance c" "\<And>x. there = Some x \<Longrightarrow> 0 \<le> x" "\<not> out_of_scope c k"
  shows "settled c (healed_size c k here there) there"
  using assms by (auto simp: settled_def healed_size_def fsub_def split: option.splits)

definition visits_each :: "(string list \<Rightarrow> string list) \<Rightarrow> bool" where
  "visits_each f = (\<forall>xs. distinct xs \<longrightarrow> distinct (f xs) \<and> set (f xs) = set xs)"

definition there_size :: "text_codec \<Rightarrow> (string, details) dict \<Rightarrow> string \<Rightarrow> pyfloat option" where
  "there_size tx X k = map_option (size_of tx) (d_get X k)"

text \<open>What the worker relies on: clearing a symbol removes it and only it; updating it stores the magnitude of the size.\<close>

locale position_protocol =
  fixes P :: "'s position_store" and invar :: "'s \<Rightarrow> bool"
  assumes all_wf: "invar s \<Longrightarrow> d_wf (st_all P s)"
    and clear_invar: "invar s \<Longrightarrow> invar (st_clear P s k)"
    and update_invar: "invar s \<Longrightarrow> invar (st_update P s k x px)"
    and size_clear: "invar s \<Longrightarrow> map_option lp_size (d_get (st_all P (st_clear P s k)) k') =
          (if k' = k then None else map_option lp_size (d_get (st_all P s) k'))"
    and size_update: "invar s \<Longrightarrow> map_option lp_size (d_get (st_all P (st_update P s k x px)) k') =
          (if k' = k then Some \<bar>x\<bar> else map_option lp_size (d_get (st_all P s) k'))"
begin

definition size_at :: "'s \<Rightarrow> string \<Rightarrow> pyfloat option" where
  "size_at s k = map_option lp_size (d_get (st_all P s) k)"

lemma size_at_simps [simp]:
  "invar s \<Longrightarrow> size_at (st_clear P s k) k' = (if k' = k then None else size_at s k')"
  "invar s \<Longrightarrow> size_at (st_update P s k x px) k' = (if k' = k then Some \<bar>x\<bar> else size_at s k')"
  by (simp_all add: size_at_def size_clear size_update)

text \<open>A loop whose steps act on one key each.\<close>

lemma foldl_keys:
  assumes step: "\<And>ps x. x \<in> set xs \<Longrightarrow> invar (rp_store ps) \<Longrightarrow>
        invar (rp_store (step ps x)) \<and>
        (\<forall>k'. size_at (rp_store (step ps x)) k' = (if k' = key x then f x (size_at (rp_store ps) k') else size_at (rp_store ps) k'))"
    and "invar (rp_store ps)" "distinct (map key xs)"
  shows "invar (rp_store (foldl step ps xs)) \<and>
     (\<forall>x \<in> set xs. size_at (rp_store (foldl step ps xs)) (key x) = f x (size_at (rp_store ps) (key x))) \<and>
     (\<forall>k. k \<notin> key ` set xs \<longrightarrow> size_at (rp_store (foldl step ps xs)) k = size_at (rp_store ps) k)"
  using assms
proof (induction xs arbitrary: ps)
  case (Cons x xs)
  have 1: "invar (rp_store (step ps x))"
    "\<And>k'. size_at (rp_store (step ps x)) k' = (if k' = key x then f x (size_at (rp_store ps) k') else size_at (rp_store ps) k')"
    using Cons.prems(1) [of x ps] Cons.prems(2) by simp_all
  have "invar (rp_store (foldl step (step ps x) xs)) \<and>
     (\<forall>y \<in> set xs. size_at (rp_store (foldl step (step ps x) xs)) (key y) = f y (size_at (rp_store (step ps x)) (key y))) \<and>
     (\<forall>k. k \<notin> key ` set xs \<longrightarrow> size_at (rp_store (foldl step (step ps x) xs)) k = size_at (rp_store (step ps x)) k)"
    using Cons.prems 1(1) by (intro Cons.IH) auto
  with 1(2) Cons.prems(3) show ?case by (auto simp: image_iff)
qed simp

text \<open>The three loops of a healing pass, for local keys in canonical form and readable exchange positions.\<close>

lemma ghosts_healed:
  assumes "rc_heal c" "invar (rp_store ps)" "canonical_locals D" "d_wf D"
  shows "invar (rp_store (foldl (ghost_position_step P c X) ps D)) \<and>
     (\<forall>x \<in> set D. size_at (rp_store (foldl (ghost_position_step P c X) ps D)) (fst x) =
        (if \<not> out_of_scope c (fst x) \<and> \<not> d_has X (fst x) \<and> rc_tolerance c < \<bar>lp_size (snd x)\<bar> then None
         else size_at (rp_store ps) (fst x))) \<and>
     (\<forall>k. k \<notin> fst ` set D \<longrightarrow> size_at (rp_store (foldl (ghost_position_step P c X) ps D)) k = size_at (rp_store ps) k)"
  by (rule foldl_keys [where f = "\<lambda>x v. if \<not> out_of_scope c (fst x) \<and> \<not> d_has X (fst x) \<and> rc_tolerance c < \<bar>lp_size (snd x)\<bar>
      then None else v"])
    (use assms in \<open>auto simp: ghost_position_step_def Let_def canonical_localsD clear_invar\<close>)

lemma orphan_step_ok:
  assumes "rc_heal c" "canonical_locals D" "readable tx (snd x)"
  shows "\<exists>px. orphan_position_step P tx c D ps x =
     (if \<not> out_of_scope c (fst x) \<and> \<not> d_has D (fst x) \<and> rc_tolerance c < \<bar>size_of tx (snd x)\<bar>
      then found c ps ORPHAN_POSITION (fst x) [] [(''size'', PNum (size_of tx (snd x)))]
        (\<lambda>s. st_update P s (fst x) (size_of tx (snd x)) px) (SyncedLocal (size_of tx (snd x)))
      else ps, None)"
  using readableD [OF assms(3)] assms by (auto simp: orphan_position_step_def Let_def has_local_iff)

lemma orphans_healed:
  assumes "rc_heal c" "invar (rp_store ps)" "canonical_locals D" "d_wf X" "list_all (\<lambda>x. readable tx (snd x)) X"
  shows "\<exists>ps'. until_error (orphan_position_step P tx c D) ps X = (ps', None) \<and> invar (rp_store ps') \<and>
     (\<forall>x \<in> set X. size_at (rp_store ps') (fst x) =
        (if \<not> out_of_scope c (fst x) \<and> \<not> d_has D (fst x) \<and> rc_tolerance c < \<bar>size_of tx (snd x)\<bar> then Some \<bar>size_of tx (snd x)\<bar>
         else size_at (rp_store ps) (fst x))) \<and>
     (\<forall>k. k \<notin> fst ` set X \<longrightarrow> size_at (rp_store ps') k = size_at (rp_store ps) k)"
proof -
  have ok: "readable tx (snd x)" if "x \<in> set X" for x using assms(5) that by (simp add: list_all_iff)
  have "until_error (orphan_position_step P tx c D) ps X =
      (foldl (\<lambda>ps x. fst (orphan_position_step P tx c D ps x)) ps X, None)"
    by (rule until_error_total) (use orphan_step_ok [OF assms(1,3) ok] in \<open>metis snd_conv\<close>)
  moreover have "invar (rp_store (foldl (\<lambda>ps x. fst (orphan_position_step P tx c D ps x)) ps X)) \<and>
     (\<forall>x \<in> set X. size_at (rp_store (foldl (\<lambda>ps x. fst (orphan_position_step P tx c D ps x)) ps X)) (fst x) =
        (if \<not> out_of_scope c (fst x) \<and> \<not> d_has D (fst x) \<and> rc_tolerance c < \<bar>size_of tx (snd x)\<bar> then Some \<bar>size_of tx (snd x)\<bar>
         else size_at (rp_store ps) (fst x))) \<and>
     (\<forall>k. k \<notin> fst ` set X \<longrightarrow>
        size_at (rp_store (foldl (\<lambda>ps x. fst (orphan_position_step P tx c D ps x)) ps X)) k = size_at (rp_store ps) k)"
  proof (rule foldl_keys [where f = "\<lambda>x v. if \<not> out_of_scope c (fst x) \<and> \<not> d_has D (fst x) \<and> rc_tolerance c < \<bar>size_of tx (snd x)\<bar>
      then Some \<bar>size_of tx (snd x)\<bar> else v"])
    fix ps :: "'s rec_pass" and x
    assume "x \<in> set X" "invar (rp_store ps)"
    with orphan_step_ok [OF assms(1,3) ok, of x ps] assms(1)
    show "invar (rp_store (fst (orphan_position_step P tx c D ps x))) \<and>
      (\<forall>k'. size_at (rp_store (fst (orphan_position_step P tx c D ps x))) k' =
         (if k' = fst x then if \<not> out_of_scope c (fst x) \<and> \<not> d_has D (fst x) \<and> rc_tolerance c < \<bar>size_of tx (snd x)\<bar>
            then Some \<bar>size_of tx (snd x)\<bar> else size_at (rp_store ps) k' else size_at (rp_store ps) k'))"
      by (auto simp: update_invar)
  qed (use assms in auto)
  ultimately show ?thesis by blast
qed

lemma mismatch_step_ok:
  assumes "rc_heal c" "canonical_locals D" "d_wf D" "d_get D k = Some lp" "d_get X k = Some xp" "readable tx xp"
  shows "\<exists>px. size_mismatch_step P tx c (locals_by_symbol D) X ps k =
     (if \<not> out_of_scope c k \<and> rc_tolerance c < \<bar>fsub (lp_size lp) (size_of tx xp)\<bar>
      then found c ps POSITION_SIZE_MISMATCH k [(''size'', PNum (lp_size lp))] [(''size'', PNum (size_of tx xp))]
        (\<lambda>s. if rc_tolerance c < \<bar>size_of tx xp\<bar> then st_update P s k (size_of tx xp) px else st_clear P s k) (SizeSet (size_of tx xp))
      else ps, None)"
  using readableD [OF assms(6)] assms
  by (auto simp: size_mismatch_step_def Let_def locals_canonical canonical_locals_def)

lemma mismatches_healed:
  assumes "rc_heal c" "invar (rp_store ps)" "canonical_locals D" "d_wf D" "d_wf X" "list_all (\<lambda>x. readable tx (snd x)) X"
    and "distinct ks" "\<And>k. k \<in> set ks \<Longrightarrow> d_has D k \<and> d_has X k"
  shows "\<exists>ps'. until_error (size_mismatch_step P tx c (locals_by_symbol D) X) ps ks = (ps', None) \<and> invar (rp_store ps') \<and>
     (\<forall>k \<in> set ks. size_at (rp_store ps') k =
        (let x = size_of tx (the (d_get X k))
         in if \<not> out_of_scope c k \<and> rc_tolerance c < \<bar>fsub (lp_size (the (d_get D k))) x\<bar>
            then if rc_tolerance c < \<bar>x\<bar> then Some \<bar>x\<bar> else None else size_at (rp_store ps) k)) \<and>
     (\<forall>k. k \<notin> set ks \<longrightarrow> size_at (rp_store ps') k = size_at (rp_store ps) k)"
proof -
  let ?step = "size_mismatch_step P tx c (locals_by_symbol D) X"
  let ?f = "\<lambda>k v. let x = size_of tx (the (d_get X k))
    in if \<not> out_of_scope c k \<and> rc_tolerance c < \<bar>fsub (lp_size (the (d_get D k))) x\<bar>
       then if rc_tolerance c < \<bar>x\<bar> then Some \<bar>x\<bar> else None else v"
  have step: "\<exists>lp xp px. d_get D k = Some lp \<and> d_get X k = Some xp \<and> ?step ps k =
     (if \<not> out_of_scope c k \<and> rc_tolerance c < \<bar>fsub (lp_size lp) (size_of tx xp)\<bar>
      then found c ps POSITION_SIZE_MISMATCH k [(''size'', PNum (lp_size lp))] [(''size'', PNum (size_of tx xp))]
        (\<lambda>s. if rc_tolerance c < \<bar>size_of tx xp\<bar> then st_update P s k (size_of tx xp) px else st_clear P s k) (SizeSet (size_of tx xp))
      else ps, None)" if k: "k \<in> set ks" for ps k
  proof -
    obtain lp xp where g: "d_get D k = Some lp" "d_get X k = Some xp" using assms(8) [OF k] by (auto simp: d_has_def)
    then have "readable tx xp" using assms(6) by (auto simp: list_all_iff dest!: d_get_mem)
    from mismatch_step_ok [OF assms(1,3,4) g this] g show ?thesis by blast
  qed
  have "until_error ?step ps ks = (foldl (\<lambda>ps k. fst (?step ps k)) ps ks, None)"
  proof (rule until_error_total)
    show "snd (?step ps k) = None" if "k \<in> set ks" for ps k using step [OF that, of ps] by auto
  qed
  moreover have "invar (rp_store (foldl (\<lambda>ps k. fst (?step ps k)) ps ks)) \<and>
     (\<forall>k \<in> set ks. size_at (rp_store (foldl (\<lambda>ps k. fst (?step ps k)) ps ks)) (id k) = ?f k (size_at (rp_store ps) (id k))) \<and>
     (\<forall>k. k \<notin> id ` set ks \<longrightarrow> size_at (rp_store (foldl (\<lambda>ps k. fst (?step ps k)) ps ks)) k = size_at (rp_store ps) k)"
  proof (rule foldl_keys)
    fix ps :: "'s rec_pass" and k
    assume "k \<in> set ks" "invar (rp_store ps)"
    with step [of k ps] assms(1)
    show "invar (rp_store (fst (?step ps k))) \<and> (\<forall>k'. size_at (rp_store (fst (?step ps k))) k' =
        (if k' = id k then ?f k (size_at (rp_store ps) k') else size_at (rp_store ps) k'))"
      by (auto simp: Let_def update_invar clear_invar)
  qed (use assms in auto)
  ultimately show ?thesis by (simp only: id_apply image_id) blast
qed

text \<open>A healing pass on readable exchange positions.\<close>

lemma pass_heals:
  fixes s :: 's and tx :: text_codec and exch :: "details list"
  defines "D \<equiv> st_all P s" and "X \<equiv> exchange_by_symbol tx exch"
  assumes heal: "rc_heal c" and inv: "invar s" and can: "canonical_locals D"
    and ok: "list_all (\<lambda>x. readable tx (snd x)) X" and order: "visits_each set_order"
  shows "\<exists>s' ds h. reconcile_positions P tx c set_order exch s = (s', Inr (ds, h, length D + length X)) \<and> invar s' \<and>
     (\<forall>k. size_at s' k = healed_size c k (size_at s k) (there_size tx X k))"
proof -
  have wf: "d_wf D" "d_wf X" using inv by (simp_all add: D_def X_def all_wf)
  let ?ps0 = "\<lparr>rp_store = s, rp_discs = [], rp_healed = 0\<rparr>"
  define ps1 where "ps1 = foldl (ghost_position_step P c X) ?ps0 D"
  have g: "invar (rp_store ps1)"
    "\<And>k lp. d_get D k = Some lp \<Longrightarrow> size_at (rp_store ps1) k =
        (if \<not> out_of_scope c k \<and> \<not> d_has X k \<and> rc_tolerance c < \<bar>lp_size lp\<bar> then None else size_at s k)"
    "\<And>k. d_get D k = None \<Longrightarrow> size_at (rp_store ps1) k = size_at s k"
    using ghosts_healed [OF heal, of ?ps0 D X] inv can wf(1)
    by (fastforce simp: ps1_def d_get_None_iff dest: d_get_mem)+
  obtain ps2 where o: "until_error (orphan_position_step P tx c D) ps1 X = (ps2, None)" "invar (rp_store ps2)"
    "\<forall>x \<in> set X. size_at (rp_store ps2) (fst x) =
        (if \<not> out_of_scope c (fst x) \<and> \<not> d_has D (fst x) \<and> rc_tolerance c < \<bar>size_of tx (snd x)\<bar> then Some \<bar>size_of tx (snd x)\<bar>
         else size_at (rp_store ps1) (fst x))"
    "\<forall>k. k \<notin> fst ` set X \<longrightarrow> size_at (rp_store ps2) k = size_at (rp_store ps1) k"
    using orphans_healed [OF heal g(1) can wf(2) ok] by blast
  define ks where "ks = set_order (filter (d_has X) (d_keys (locals_by_symbol D)))"
  have ks: "distinct ks" "set ks = {k. d_has D k \<and> d_has X k}"
  proof -
    have "distinct (d_keys (locals_by_symbol D))" by (simp add: d_keys_def)
    moreover have "k \<in> set (d_keys (locals_by_symbol D)) \<longleftrightarrow> d_has D k" for k
    proof -
      have "k \<in> set (d_keys (locals_by_symbol D)) \<longleftrightarrow> d_has (locals_by_symbol D) k" by (simp add: d_keys_def d_has_iff)
      also have "\<dots> \<longleftrightarrow> d_has D k" using locals_canonical [OF wf(1)] can by (simp add: d_has_def canonical_locals_def)
      finally show ?thesis .
    qed
    ultimately show "distinct ks" "set ks = {k. d_has D k \<and> d_has X k}"
      using order by (auto simp: ks_def visits_each_def)
  qed
  obtain ps3 where m: "until_error (size_mismatch_step P tx c (locals_by_symbol D) X) ps2 ks = (ps3, None)" "invar (rp_store ps3)"
    "\<forall>k \<in> set ks. size_at (rp_store ps3) k =
        (let x = size_of tx (the (d_get X k))
         in if \<not> out_of_scope c k \<and> rc_tolerance c < \<bar>fsub (lp_size (the (d_get D k))) x\<bar>
            then if rc_tolerance c < \<bar>x\<bar> then Some \<bar>x\<bar> else None else size_at (rp_store ps2) k)"
    "\<forall>k. k \<notin> set ks \<longrightarrow> size_at (rp_store ps3) k = size_at (rp_store ps2) k"
    using mismatches_healed [OF heal o(2) can wf ok ks(1)] ks(2) by blast
  have "size_at (rp_store ps3) k = healed_size c k (size_at s k) (there_size tx X k)" for k
  proof (cases "d_get X k")
    case None
    then have "k \<notin> set ks" "k \<notin> fst ` set X" by (simp_all add: ks(2) d_has_def d_get_None_iff [symmetric])
    with None m(4) o(4) g(2,3) show ?thesis
      by (cases "d_get D k") (auto simp: healed_size_def there_size_def size_at_def D_def [symmetric] d_has_def)
  next
    case (Some xp)
    then have "(k, xp) \<in> set X" by (rule d_get_mem)
    with o(3) have o': "size_at (rp_store ps2) k =
        (if \<not> out_of_scope c k \<and> \<not> d_has D k \<and> rc_tolerance c < \<bar>size_of tx xp\<bar> then Some \<bar>size_of tx xp\<bar>
         else size_at (rp_store ps1) k)" by (metis fst_conv snd_conv)
    show ?thesis
    proof (cases "d_get D k")
      case None
      then have "k \<notin> set ks" by (simp add: ks(2) d_has_def)
      with None Some m(4) o' g(3) show ?thesis
        by (auto simp: healed_size_def there_size_def size_at_def D_def [symmetric] d_has_def)
    next
      case (Some lp)
      with \<open>d_get X k = Some xp\<close> have "k \<in> set ks" by (simp add: ks(2) d_has_def)
      with m(3) Some \<open>d_get X k = Some xp\<close> o' g(2) [OF Some] show ?thesis
        by (auto simp: healed_size_def there_size_def size_at_def D_def [symmetric] d_has_def Let_def not_less)
    qed
  qed
  moreover have "reconcile_positions P tx c set_order exch s =
      (rp_store ps3, Inr (rp_discs ps3, rp_healed ps3, length D + length X))"
    using o(1) m(1) unfolding reconcile_positions_def Let_def D_def [symmetric] X_def [symmetric] ps1_def [symmetric] ks_def [symmetric]
    by simp
  ultimately show ?thesis using m(2) by blast
qed

text \<open>A pass over settled positions finds nothing and changes nothing, whether healing is on or off.\<close>

lemma settled_pass:
  fixes s :: 's and tx :: text_codec and exch :: "details list"
  defines "D \<equiv> st_all P s" and "X \<equiv> exchange_by_symbol tx exch"
  assumes inv: "invar s" and can: "canonical_locals D"
    and ok: "list_all (\<lambda>x. readable tx (snd x)) X"
    and st: "\<And>k. \<not> out_of_scope c k \<Longrightarrow> settled c (size_at s k) (there_size tx X k)"
    and order: "visits_each set_order"
  shows "reconcile_positions P tx c set_order exch s = (s, Inr ([], 0, length D + length X))"
proof -
  have wf: "d_wf D" "d_wf X" using inv by (simp_all add: D_def X_def all_wf)
  let ?ps0 = "\<lparr>rp_store = s, rp_discs = [], rp_healed = 0\<rparr>"
  have st': "settled c (map_option lp_size (d_get D k)) (map_option (size_of tx) (d_get X k))" if "\<not> out_of_scope c k" for k
    using st [OF that] by (simp add: size_at_def there_size_def D_def)
  have rd: "payload_float tx xp ''size'' = Inr (size_of tx xp)" if "d_get X k = Some xp" for k xp
    using ok that readableD [of tx xp] by (auto simp: list_all_iff dest!: d_get_mem)
  have "ghost_position_step P c X ?ps0 x = ?ps0" if x: "x \<in> set D" for x
  proof -
    have "d_get D (fst x) = Some (snd x)" using d_mem_get [OF wf(1), of "fst x" "snd x"] x by simp
    moreover have "canonical_key (Some (fst x)) = fst x" using canonical_localsD [OF can, of "fst x" "snd x"] x by simp
    ultimately show ?thesis using st' [of "fst x"]
      by (auto simp: ghost_position_step_def Let_def d_has_def settled_def split: option.splits)
  qed
  then have 1: "foldl (ghost_position_step P c X) ?ps0 D = ?ps0" by (rule foldl_idle)
  have "orphan_position_step P tx c D ?ps0 x = (?ps0, None)" if x: "x \<in> set X" for x
  proof -
    have "d_get X (fst x) = Some (snd x)" using d_mem_get [OF wf(2), of "fst x" "snd x"] x by simp
    with st' [of "fst x"] rd [of "fst x" "snd x"] show ?thesis
      by (auto simp: orphan_position_step_def Let_def has_local_iff [OF can] d_has_def settled_def split: option.splits)
  qed
  then have 2: "until_error (orphan_position_step P tx c D) ?ps0 X = (?ps0, None)" by (rule until_error_idle)
  have "size_mismatch_step P tx c (locals_by_symbol D) X ?ps0 k = (?ps0, None)" for k
    using st' [of k] rd [of k] locals_canonical [OF wf(1), of k] can
    by (auto simp: size_mismatch_step_def canonical_locals_def settled_def not_less split: option.splits)
  then have 3: "until_error (size_mismatch_step P tx c (locals_by_symbol D) X) ?ps0 ks = (?ps0, None)" for ks
    by (intro until_error_idle) simp
  show ?thesis
    unfolding reconcile_positions_def Let_def D_def [symmetric] X_def [symmetric] by (simp add: 1 2 3)
qed

lemma pass_keeps_canonical:
  fixes s :: 's and tx :: text_codec and exch :: "details list"
  defines "X \<equiv> exchange_by_symbol tx exch"
  assumes heal: "rc_heal c" and inv: "invar s" and can: "canonical_locals (st_all P s)"
    and ok: "list_all (\<lambda>x. readable tx (snd x)) X" "list_all (\<lambda>k. canonical_key (Some k) = k) (d_keys X)"
    and order: "visits_each set_order"
    and s': "s' = fst (reconcile_positions P tx c set_order exch s)"
  shows "invar s'" "canonical_locals (st_all P s')" "size_at s' k = healed_size c k (size_at s k) (there_size tx X k)"
proof -
  have r: "invar s'" "\<And>k. size_at s' k = healed_size c k (size_at s k) (there_size tx X k)"
    using pass_heals [OF heal inv can ok(1) [unfolded X_def] order] s' by (auto simp: X_def)
  have "canonical_key (Some k) = k" if k: "k \<in> set (d_keys (st_all P s'))" for k
  proof -
    have "size_at s' k \<noteq> None" using k by (auto simp: size_at_def d_keys_def d_get_None_iff)
    then have "size_at s k \<noteq> None \<or> there_size tx X k \<noteq> None" by (auto simp: r(2) healed_size_def split: if_splits option.splits)
    then have "k \<in> set (d_keys (st_all P s)) \<or> k \<in> set (d_keys X)"
      by (auto simp: size_at_def there_size_def d_keys_def dest: d_get_mem intro: rev_image_eqI)
    with can ok(2) show ?thesis by (auto simp: canonical_locals_def list_all_iff)
  qed
  then show "canonical_locals (st_all P s')" by (simp add: canonical_locals_def list_all_iff)
  from r show "invar s'" "size_at s' k = healed_size c k (size_at s k) (there_size tx X k)" by simp_all
qed

text \<open>One healing pass settles every position in scope, so a second one has nothing to do.\<close>

lemma second_pass_idle:
  fixes s :: 's and tx :: text_codec and exch :: "details list"
  defines "X \<equiv> exchange_by_symbol tx exch"
  assumes heal: "rc_heal c" and tol: "0 \<le> rc_tolerance c" and inv: "invar s" and can: "canonical_locals (st_all P s)"
    and ok: "list_all (\<lambda>x. readable tx (snd x)) X" "list_all (\<lambda>k. canonical_key (Some k) = k) (d_keys X)"
    and unsigned: "list_all (\<lambda>x. 0 \<le> size_of tx (snd x)) X"
    and order: "visits_each set_order"
    and s': "s' = fst (reconcile_positions P tx c set_order exch s)"
  shows "reconcile_positions P tx c set_order exch s' = (s', Inr ([], 0, length (st_all P s') + length X))"
proof -
  note r = pass_keeps_canonical [OF heal inv can ok [unfolded X_def] order s', folded X_def]
  have pos: "0 \<le> x" if "there_size tx X k = Some x" for k x
    using that unsigned by (auto simp: there_size_def list_all_iff dest!: d_get_mem)
  have "settled c (size_at s' k) (there_size tx X k)" if "\<not> out_of_scope c k" for k
    unfolding r(3) by (rule healed_settled [OF tol pos that])
  then show ?thesis using settled_pass [OF r(1,2) ok(1) [unfolded X_def] _ order] by (simp add: X_def)
qed

text \<open>A size mismatch is always reported.\<close>

lemma mismatch_reported:
  fixes s :: 's and tx :: text_codec and exch :: "details list"
  defines "D \<equiv> st_all P s" and "X \<equiv> exchange_by_symbol tx exch"
  assumes heal: "rc_heal c" and inv: "invar s" and can: "canonical_locals D"
    and ok: "list_all (\<lambda>x. readable tx (snd x)) X" and order: "visits_each set_order"
    and k: "d_get D k = Some lp" "d_get X k = Some xp" "\<not> out_of_scope c k"
      "rc_tolerance c < \<bar>fsub (lp_size lp) (size_of tx xp)\<bar>"
  shows "\<exists>s' ds h n. reconcile_positions P tx c set_order exch s = (s', Inr (ds, h, n)) \<and>
     (\<exists>d \<in> set ds. di_type d = POSITION_SIZE_MISMATCH \<and> di_symbol d = k)"
proof -
  have wf: "d_wf D" "d_wf X" using inv by (simp_all add: D_def X_def all_wf)
  define ks where "ks = set_order (filter (d_has X) (d_keys (locals_by_symbol D)))"
  let ?step = "size_mismatch_step P tx c (locals_by_symbol D) X"
  obtain ps1 where ps1: "ps1 = foldl (ghost_position_step P c X) \<lparr>rp_store = s, rp_discs = [], rp_healed = 0\<rparr> D" by blast
  obtain ps2 where ps2: "until_error (orphan_position_step P tx c D) ps1 X = (ps2, None)"
    using orphans_healed [OF heal _ can wf(2) ok, of ps1]
      ghosts_healed [OF heal _ can wf(1), of "\<lparr>rp_store = s, rp_discs = [], rp_healed = 0\<rparr>" X] inv ps1 by auto
  obtain s' ds h n where r: "reconcile_positions P tx c set_order exch s = (s', Inr (ds, h, n))"
    using pass_heals [OF heal inv can [unfolded D_def] ok [unfolded X_def] order] by blast
  then obtain ps3 where ps3: "until_error ?step ps2 ks = (ps3, None)" "ds = rp_discs ps3"
    unfolding reconcile_positions_def Let_def D_def [symmetric] X_def [symmetric] ps1 [symmetric] ks_def [symmetric]
    by (auto simp: ps2 split: prod.splits option.splits)
  have mem: "k \<in> set ks"
  proof -
    have "d_has (locals_by_symbol D) k" using k(1) locals_canonical [OF wf(1)] can by (simp add: d_has_def canonical_locals_def)
    then show ?thesis using order k(2) by (auto simp: ks_def visits_each_def d_keys_def d_has_iff [symmetric] d_has_def)
  qed
  have xp: "readable tx xp" using ok k(2) by (auto simp: list_all_iff dest!: d_get_mem)
  have step: "\<exists>d \<in> set (rp_discs (fst (?step ps k))). di_type d = POSITION_SIZE_MISMATCH \<and> di_symbol d = k" for ps
    using mismatch_step_ok [OF heal can wf(1) k(1,2) xp, of ps] k(3,4) by (auto simp: found_def)
  show ?thesis using r ps3 mismatch_kept [OF mem mismatch_grows step ps3(1)] by blast
qed

end

section \<open>The state manager behind the protocol\<close>

lemma d_get_map_snd: "d_get (map (\<lambda>(k, p). (k, f p)) d) k = map_option f (d_get d k)"
  by (induction d) auto

lemma keyed_pairs: "positions_keyed m \<Longrightarrow> map (\<lambda>x. (ps_symbol (snd x), f (snd x))) (sm_positions m) = map (\<lambda>(k, p). (k, f p)) (sm_positions m)"
  by (auto simp: positions_keyed_def list_all_iff)

lemma adapter_all: "positions_keyed m \<Longrightarrow> adapter_get_all m = map (\<lambda>(k, p). (k, local_view p)) (sm_positions m)"
  using fold_put_distinct [of ps_symbol "map snd (sm_positions m)" "[]" local_view] keyed_symbols [of m] keyed_pairs [of m local_view]
  by (simp add: adapter_get_all_def sm_get_positions_def d_vals_def comp_def)

lemma adapter_update_eq:
  "\<exists>p. adapter_update m k x px = m\<lparr>sm_positions := d_put (sm_positions m) k p\<rparr> \<and> ps_symbol p = k \<and> ps_size p = \<bar>x\<bar> \<and>
     ps_side p = (if 0 \<le> x then ''long'' else ''short'') \<and> ps_entry_price p = Some px \<and>
     ps_stop_loss p = kept m k ps_stop_loss \<and> ps_take_profit p = kept m k ps_take_profit \<and> ps_opened_at p = kept m k ps_opened_at"
proof -
  let ?a = "(position_args k (if 0 \<le> x then ''long'' else ''short'') \<bar>x\<bar>)
         \<lparr>ps_entry_price := Some px, ps_reference_price := kept m k ps_reference_price,
          ps_entry_fee_usd := kept m k ps_entry_fee_usd, ps_stop_loss := kept m k ps_stop_loss,
          ps_take_profit := kept m k ps_take_profit, ps_opened_at := kept m k ps_opened_at,
          ps_prediction_confidence := kept m k ps_prediction_confidence, ps_strategy_id := kept m k ps_strategy_id,
          ps_profile_id := kept m k ps_profile_id, ps_entry_signal_strength := kept m k ps_entry_signal_strength,
          ps_entry_signal_confidence := kept m k ps_entry_signal_confidence,
          ps_entry_confirmation_count := kept m k ps_entry_confirmation_count,
          ps_expected_horizon_sec := kept m k ps_expected_horizon_sec, ps_time_to_work_sec := kept m k ps_time_to_work_sec,
          ps_max_hold_sec := kept m k ps_max_hold_sec, ps_mfe_min_bps := kept m k ps_mfe_min_bps\<rparr>"
  have "adapter_update m k x px = m\<lparr>sm_positions := d_put (sm_positions m) k (fresh_position ?a)\<rparr>"
    by (simp add: adapter_update_def sm_update_position_def position_args_def split: option.split)
  then show ?thesis
    by (intro exI [of _ "fresh_position ?a"])
      (simp add: fresh_position_def open_record_def pos_core.defs position_args_def)
qed

lemma adapter_update_keyed: "positions_keyed m \<Longrightarrow> positions_keyed (adapter_update m k x px)"
  using adapter_update_eq [of m k x px] by (auto simp: positions_keyed_def intro!: keyed_put)

lemma adapter_clear_keyed: "positions_keyed m \<Longrightarrow> positions_keyed (adapter_clear m k)"
  using position_step_keyed [of m "Closed k"] by (simp add: adapter_clear_def finalize_close_def)

lemma adapter_size:
  "positions_keyed m \<Longrightarrow> map_option lp_size (d_get (adapter_get_all m) k) = map_option ps_size (d_get (sm_positions m) k)"
  by (simp add: adapter_all d_get_map_snd local_view_def option.map_comp comp_def)

interpretation ms: position_protocol manager_store positions_keyed
proof unfold_locales
  show "positions_keyed s \<Longrightarrow> d_wf (st_all manager_store s)" for s
    by (simp add: manager_store_def adapter_all positions_keyed_def case_prod_beta comp_def)
  show "positions_keyed s \<Longrightarrow> positions_keyed (st_clear manager_store s k)" for s k
    by (simp add: manager_store_def adapter_clear_keyed)
  show "positions_keyed s \<Longrightarrow> positions_keyed (st_update manager_store s k x px)" for s k x px
    by (simp add: manager_store_def adapter_update_keyed)
  show "positions_keyed s \<Longrightarrow> map_option lp_size (d_get (st_all manager_store (st_clear manager_store s k)) k') =
      (if k' = k then None else map_option lp_size (d_get (st_all manager_store s) k'))" for s k k'
    using adapter_clear_keyed [of s k]
    by (simp add: manager_store_def adapter_size) (simp add: adapter_clear_def positions_keyed_def)
  show "positions_keyed s \<Longrightarrow> map_option lp_size (d_get (st_all manager_store (st_update manager_store s k x px)) k') =
      (if k' = k then Some \<bar>x\<bar> else map_option lp_size (d_get (st_all manager_store s) k'))" for s k x px k'
    using adapter_update_keyed [of s k x px] adapter_update_eq [of s k x px]
    by (auto simp: manager_store_def adapter_size)
qed

lemma ms_all [simp]: "st_all manager_store = adapter_get_all"
  by (simp add: manager_store_def)

lemma ms_size_at: "positions_keyed m \<Longrightarrow> ms.size_at m k = map_option ps_size (d_get (sm_positions m) k)"
  by (simp add: ms.size_at_def adapter_size)

lemma adapter_length: "positions_keyed m \<Longrightarrow> length (adapter_get_all m) = length (sm_positions m)"
  by (simp add: adapter_all)

lemma adapter_get: "positions_keyed m \<Longrightarrow> d_get (adapter_get_all m) k = map_option local_view (d_get (sm_positions m) k)"
  by (simp add: adapter_all d_get_map_snd)

text \<open>A local long of size 1 and exchange answers for the same symbol.\<close>

definition sample_manager :: state_manager where
  "sample_manager = add_position state_manager_init ((position_args ''BTCUSDT'' ''long'' 1)\<lparr>ps_entry_price := Some 100\<rparr>)"

definition sample_payload :: "pyfloat pyval \<Rightarrow> details" where
  "sample_payload x = [(''symbol'', PStr ''BTCUSDT''), (''size'', x), (''avgPrice'', PInt 100)]"

definition plain_codec :: text_codec where
  "plain_codec = \<lparr>tx_float = (\<lambda>_. None), tx_str = (\<lambda>_. [])\<rparr>"

lemma sample_symbol: "canonical_key (Some ''BTCUSDT'') = ''BTCUSDT''"
  by code_simp

lemma sample_manager_ok:
  "positions_keyed sample_manager" "canonical_locals (adapter_get_all sample_manager)"
  "map_option ps_size (d_get (sm_positions sample_manager) ''BTCUSDT'') = Some 1"
proof -
  show k: "positions_keyed sample_manager"
    by (simp add: sample_manager_def add_position_def state_manager_init_def positions_keyed_def position_args_def)
  show "canonical_locals (adapter_get_all sample_manager)"
    using sample_symbol by (simp add: adapter_all [OF k] canonical_locals_def d_keys_def)
      (simp add: sample_manager_def add_position_def state_manager_init_def position_args_def)
  show "map_option ps_size (d_get (sm_positions sample_manager) ''BTCUSDT'') = Some 1"
    by (simp add: sample_manager_def add_position_def state_manager_init_def position_args_def)
qed

lemma sample_exchange:
  "exchange_by_symbol tx [sample_payload x] = [(''BTCUSDT'', sample_payload x)]"
  using sample_symbol by (simp add: exchange_by_symbol_def payload_symbol_def sample_payload_def)

lemma sample_size: "payload_float tx (sample_payload (PNum x)) ''size'' = Inr x" "readable tx (sample_payload (PNum x))"
  "size_of tx (sample_payload (PNum x)) = x"
  by (simp_all add: payload_float_def sample_payload_def readable_def size_of_def)

lemma visits_id: "visits_each (\<lambda>xs. xs)"
  by (simp add: visits_each_def)

lemma default_tolerance: "0 < rc_tolerance default_recon_config" "rc_tolerance default_recon_config < 1"
proof -
  have "fl (1 / 10 ^ 8) \<le> 1 / 2" by (rule fl_le) (use is_float_exact [of 1 "- 1"] in \<open>simp_all add: power_int_def\<close>)
  then show "rc_tolerance default_recon_config < 1" by (simp add: default_recon_config_def)
  show "0 < rc_tolerance default_recon_config" by (simp add: default_recon_config_def)
qed

lemma default_scope [simp]: "rc_heal default_recon_config" "\<not> out_of_scope default_recon_config k"
  by (simp_all add: default_recon_config_def out_of_scope_def)

text \<open>Two payloads that agree on the keys that are read.\<close>

definition same_reading :: "details \<Rightarrow> details \<Rightarrow> bool" where
  "same_reading p q = (d_get p ''symbol'' = d_get q ''symbol'' \<and> d_get p ''size'' = d_get q ''size'' \<and>
     d_get p ''avgPrice'' = d_get q ''avgPrice'')"

lemma same_reading_floats:
  "same_reading p q \<Longrightarrow> payload_float tx p ''size'' = payload_float tx q ''size'' \<and>
     payload_float tx p ''avgPrice'' = payload_float tx q ''avgPrice''"
  by (simp add: same_reading_def payload_float_def)

lemma same_reading_put:
  "list_all2 (\<lambda>x y. fst x = fst y \<and> same_reading (snd x) (snd y)) d e \<Longrightarrow> same_reading p q \<Longrightarrow>
     list_all2 (\<lambda>x y. fst x = fst y \<and> same_reading (snd x) (snd y)) (d_put d k p) (d_put e k q)"
  by (induction rule: list_all2_induct) auto

lemma same_reading_get:
  "list_all2 (\<lambda>x y. fst x = fst y \<and> same_reading (snd x) (snd y)) d e \<Longrightarrow> rel_option same_reading (d_get d k) (d_get e k)"
  by (induction rule: list_all2_induct) auto

lemma same_reading_exchange:
  assumes "list_all2 same_reading xs ys"
  shows "list_all2 (\<lambda>x y. fst x = fst y \<and> same_reading (snd x) (snd y)) (exchange_by_symbol tx xs) (exchange_by_symbol tx ys)"
proof -
  let ?rel = "list_all2 (\<lambda>x y. fst x = fst y \<and> same_reading (snd x) (snd y))"
  have "?rel d e \<Longrightarrow> ?rel (fold (\<lambda>p d. d_put d (payload_symbol tx p) p) xs d) (fold (\<lambda>p d. d_put d (payload_symbol tx p) p) ys e)"
    for d e using assms
  proof (induction xs ys arbitrary: d e rule: list_all2_induct)
    case (Cons x xs y ys)
    then have "payload_symbol tx x = payload_symbol tx y" by (simp add: payload_symbol_def same_reading_def)
    with Cons.IH [OF same_reading_put [OF Cons.prems(1) Cons.hyps(1)], of "payload_symbol tx x"] show ?case by simp
  qed simp
  then show ?thesis by (simp add: exchange_by_symbol_def)
qed

section \<open>Properties\<close>

text \<open>C5: A healing pass over readable exchange positions does not fail, keeps the positions keyed by symbol, and leaves under every symbol
  exactly the size the specification \<open>healed_size\<close> gives: the local size where the two agree within the tolerance or the
  symbol is out of scope, the magnitude of the exchange size where they do not, nothing where the exchange has nothing.\<close>

theorem healing_pass_syncs_positions:
  assumes "rc_heal c" and "positions_keyed m" and "canonical_locals (adapter_get_all m)"
    and "list_all (\<lambda>x. readable tx (snd x)) (exchange_by_symbol tx exch)" and "visits_each set_order"
  shows "\<exists>m' ds h. reconcile_positions manager_store tx c set_order exch m =
       (m', Inr (ds, h, length (sm_positions m) + length (exchange_by_symbol tx exch))) \<and> positions_keyed m' \<and>
     (\<forall>k. map_option ps_size (d_get (sm_positions m') k) =
        healed_size c k (map_option ps_size (d_get (sm_positions m) k)) (there_size tx (exchange_by_symbol tx exch) k))"
  using ms.pass_heals [of c m tx exch set_order] assms by (auto simp: ms_size_at adapter_length)

theorem healing_pass_syncs_positions_witness:
  "map_option ps_size (d_get (sm_positions (fst (reconcile_positions manager_store plain_codec default_recon_config (\<lambda>xs. xs)
     [sample_payload (PNum 2)] sample_manager))) ''BTCUSDT'') = Some 2"
proof -
  have "fsub 1 2 = (- 1 :: rat)" by (simp add: fsub_def)
  then have "healed_size default_recon_config ''BTCUSDT'' (Some 1) (Some 2) = Some 2"
    using default_tolerance by (simp add: healed_size_def)
  moreover obtain m' ds h n where "reconcile_positions manager_store plain_codec default_recon_config (\<lambda>xs. xs) [sample_payload (PNum 2)]
      sample_manager = (m', Inr (ds, h, n))"
    "\<forall>k. map_option ps_size (d_get (sm_positions m') k) = healed_size default_recon_config k
       (map_option ps_size (d_get (sm_positions sample_manager) k))
       (there_size plain_codec [(''BTCUSDT'', sample_payload (PNum 2))] k)"
    using healing_pass_syncs_positions [of default_recon_config sample_manager plain_codec "[sample_payload (PNum 2)]" "\<lambda>xs. xs",
        OF _ sample_manager_ok(1,2) _ visits_id] sample_size(2) unfolding sample_exchange by auto
  moreover have "there_size plain_codec [(''BTCUSDT'', sample_payload (PNum 2))] ''BTCUSDT'' = Some 2"
    by (simp add: there_size_def sample_size)
  ultimately show ?thesis using sample_manager_ok(3) by auto
qed

text \<open>C3: Position reconciliation converges in one pass: after a healing pass over readable, unsigned exchange positions with canonical
  symbols, a second pass over the same answer finds nothing, repairs nothing and changes nothing.\<close>

theorem second_pass_finds_nothing:
  assumes "rc_heal c" and "0 \<le> rc_tolerance c" and "positions_keyed m" and "canonical_locals (adapter_get_all m)"
    and "list_all (\<lambda>x. readable tx (snd x) \<and> 0 \<le> size_of tx (snd x) \<and> canonical_key (Some (fst x)) = fst x) (exchange_by_symbol tx exch)"
    and "visits_each set_order"
  shows "let m' = fst (reconcile_positions manager_store tx c set_order exch m)
     in reconcile_positions manager_store tx c set_order exch m' =
          (m', Inr ([], 0, length (sm_positions m') + length (exchange_by_symbol tx exch)))"
proof -
  let ?X = "exchange_by_symbol tx exch"
  let ?m' = "fst (reconcile_positions manager_store tx c set_order exch m)"
  have X: "list_all (\<lambda>x. readable tx (snd x)) ?X" "list_all (\<lambda>k. canonical_key (Some k) = k) (d_keys ?X)"
    "list_all (\<lambda>x. 0 \<le> size_of tx (snd x)) ?X"
    using assms(5) by (auto simp: list_all_iff d_keys_def)
  have "positions_keyed ?m'" using ms.pass_keeps_canonical [of c m tx exch set_order ?m'] assms X by simp
  then show ?thesis using ms.second_pass_idle [of c m tx exch set_order ?m'] assms X by (simp add: Let_def adapter_length)
qed

theorem second_pass_finds_nothing_witness:
  "let m' = fst (reconcile_positions manager_store plain_codec default_recon_config (\<lambda>xs. xs) [sample_payload (PNum 2)] sample_manager)
   in reconcile_positions manager_store plain_codec default_recon_config (\<lambda>xs. xs) [sample_payload (PNum 2)] m' =
     (m', Inr ([], 0, length (sm_positions m') + 1))"
  using second_pass_finds_nothing [of default_recon_config sample_manager plain_codec "[sample_payload (PNum 2)]" "\<lambda>xs. xs"]
    sample_manager_ok default_tolerance visits_id
  by (simp add: sample_exchange sample_size sample_symbol less_imp_le)

text \<open>A short position that the exchange reports with a negative size is never settled: after any number of passes the local
  size is its magnitude, and the next pass reports a size mismatch for it again.\<close>

theorem signed_size_never_settles:
  assumes "rc_heal c" and "0 \<le> rc_tolerance c" and "positions_keyed m" and "canonical_locals (adapter_get_all m)"
    and "list_all (\<lambda>x. readable tx (snd x) \<and> canonical_key (Some (fst x)) = fst x) (exchange_by_symbol tx exch)"
    and "visits_each set_order" and "there_size tx (exchange_by_symbol tx exch) k = Some x" and "is_float x" and "x < - rc_tolerance c"
    and "\<not> out_of_scope c k" and "\<forall>z. map_option ps_size (d_get (sm_positions m) k) = Some z \<longrightarrow> 0 \<le> z"
  shows "let pass = (\<lambda>m. fst (reconcile_positions manager_store tx c set_order exch m)); m' = (pass ^^ Suc n) m
     in map_option ps_size (d_get (sm_positions m') k) = Some (- x) \<and>
        (\<exists>ds h j. snd (reconcile_positions manager_store tx c set_order exch m') = Inr (ds, h, j) \<and>
           (\<exists>d \<in> set ds. di_type d = POSITION_SIZE_MISMATCH \<and> di_symbol d = k))"
proof -
  let ?X = "exchange_by_symbol tx exch"
  define pass where "pass = (\<lambda>m. fst (reconcile_positions manager_store tx c set_order exch m))"
  have X: "list_all (\<lambda>x. readable tx (snd x)) ?X" "list_all (\<lambda>k. canonical_key (Some k) = k) (d_keys ?X)"
    using assms(5) by (auto simp: list_all_iff d_keys_def)
  define good where "good m = (positions_keyed m \<and> canonical_locals (adapter_get_all m) \<and>
      (\<forall>z. map_option ps_size (d_get (sm_positions m) k) = Some z \<longrightarrow> 0 \<le> z))" for m
  have far: "rc_tolerance c < \<bar>fsub z x\<bar>" if "0 \<le> z" for z
  proof -
    have "- x \<le> fl (z - x)" by (rule fl_ge) (use that assms(8) in \<open>simp_all add: is_float_def\<close>)
    then show ?thesis using assms(9) by (simp add: fsub_def)
  qed
  have size: "map_option ps_size (d_get (sm_positions (pass m)) k) = Some (- x)" and good: "good (pass m)" if "good m" for m
  proof -
    have m: "positions_keyed m" "canonical_locals (st_all manager_store m)" using that by (simp_all add: good_def)
    have "pass m = fst (reconcile_positions manager_store tx c set_order exch m)" by (simp add: pass_def)
    note p = ms.pass_keeps_canonical [OF assms(1) m X assms(6) this]
    have "map_option ps_size (d_get (sm_positions (pass m)) k) =
        healed_size c k (map_option ps_size (d_get (sm_positions m) k)) (Some x)"
      using p(3) [of k] p(1) m(1) assms(7) by (simp add: ms_size_at)
    also have "\<dots> = Some (- x)"
      using that far assms(2,9,10) by (force simp: good_def healed_size_def not_le split: option.splits)
    finally show s: "map_option ps_size (d_get (sm_positions (pass m)) k) = Some (- x)" .
    from s p(1,2) assms(2,9) show "good (pass m)" by (auto simp: good_def)
  qed
  have "good m" using assms(3,4,11) by (simp add: good_def)
  then have g: "good ((pass ^^ n) m)" by (induction n) (simp_all add: good)
  let ?m' = "(pass ^^ Suc n) m"
  have s: "map_option ps_size (d_get (sm_positions ?m') k) = Some (- x)" using size [OF g] by simp
  have m': "positions_keyed ?m'" "canonical_locals (st_all manager_store ?m')" using good [OF g] by (simp_all add: good_def)
  obtain xp where xp: "d_get ?X k = Some xp" "size_of tx xp = x" using assms(7) by (auto simp: there_size_def)
  obtain p where p: "d_get (st_all manager_store ?m') k = Some (local_view p)" "ps_size p = - x"
    using s m'(1) by (auto simp: adapter_get)
  have "rc_tolerance c < \<bar>fsub (lp_size (local_view p)) (size_of tx xp)\<bar>"
    using far [of "- x"] assms(2,9) p xp by (simp add: local_view_def)
  from ms.mismatch_reported [OF assms(1) m' X(1) assms(6) p(1) xp(1) assms(10) this] s
  show ?thesis unfolding Let_def pass_def [symmetric] by (metis snd_conv)
qed

theorem signed_size_never_settles_witness:
  "map_option ps_size (d_get (sm_positions (((\<lambda>m. fst (reconcile_positions manager_store plain_codec default_recon_config (\<lambda>xs. xs)
     [sample_payload (PNum (- 2))] m)) ^^ Suc 5) sample_manager)) ''BTCUSDT'') = Some 2"
  using signed_size_never_settles [of default_recon_config sample_manager plain_codec "[sample_payload (PNum (- 2))]" "\<lambda>xs. xs"
      "''BTCUSDT''" "- 2" 5] sample_manager_ok default_tolerance visits_id
  by (simp add: sample_exchange sample_size sample_symbol there_size_def less_imp_le is_float_def Let_def del: funpow.simps)

text \<open>C25: A failed position query empties the books: the guarded client answers a failure with an empty list, and a healing pass then
  clears every local position in scope whose size exceeds the tolerance, though nothing is known about the exchange.\<close>

theorem failed_query_clears_positions:
  assumes "rc_heal c" and "positions_keyed m" and "canonical_locals (adapter_get_all m)" and "visits_each set_order"
    and "d_get (sm_positions m) k = Some p" and "rc_tolerance c < \<bar>ps_size p\<bar>" and "\<not> out_of_scope c k"
  shows "d_get (sm_positions (fst (reconcile_positions manager_store tx c set_order
     (client_get_positions (guarded_fetch_positions (Inl e))) m))) k = None"
  using ms.pass_heals [of c m tx "[]" set_order] assms
  by (auto simp: client_get_positions_def guarded_fetch_positions_def opt_list_def exchange_by_symbol_def ms_size_at
      healed_size_def there_size_def dest: spec [of _ k])

theorem failed_query_clears_positions_witness:
  "d_get (sm_positions (fst (reconcile_positions manager_store plain_codec default_recon_config (\<lambda>xs. xs)
     (client_get_positions (guarded_fetch_positions (Inl (OtherError ''timeout'')))) sample_manager))) ''BTCUSDT'' = None"
proof -
  obtain p where p: "d_get (sm_positions sample_manager) ''BTCUSDT'' = Some p" "ps_size p = 1" using sample_manager_ok(3) by auto
  show ?thesis
    by (rule failed_query_clears_positions [OF _ sample_manager_ok(1,2) visits_id p(1)]) (use p default_tolerance in simp_all)
qed

text \<open>An exchange position without a \<open>size\<close> key counts as size zero, so a healing pass clears the local position of
  that symbol.\<close>

theorem unsized_answer_clears_position:
  assumes "rc_heal c" and "0 \<le> rc_tolerance c" and "positions_keyed m" and "canonical_locals (adapter_get_all m)" and "visits_each set_order"
    and "list_all (\<lambda>x. readable tx (snd x)) (exchange_by_symbol tx exch)"
    and "d_get (exchange_by_symbol tx exch) k = Some xp" and "d_get xp ''size'' = None"
    and "d_get (sm_positions m) k = Some p" and "rc_tolerance c < \<bar>ps_size p\<bar>" and "is_float (ps_size p)" and "\<not> out_of_scope c k"
  shows "d_get (sm_positions (fst (reconcile_positions manager_store tx c set_order exch m))) k = None"
proof -
  have "there_size tx (exchange_by_symbol tx exch) k = Some 0"
    using assms(7,8) by (simp add: there_size_def size_of_def payload_float_def)
  with ms.pass_heals [of c m tx exch set_order] assms show ?thesis
    by (auto simp: ms_size_at healed_size_def fsub_def is_float_def dest: spec [of _ k])
qed

theorem unsized_answer_clears_position_witness:
  "d_get (sm_positions (fst (reconcile_positions manager_store plain_codec default_recon_config (\<lambda>xs. xs)
     [[(''symbol'', PStr ''BTCUSDT''), (''contracts'', PNum 1), (''side'', PStr ''long'')]] sample_manager))) ''BTCUSDT'' = None"
proof -
  let ?xp = "[(''symbol'', PStr ''BTCUSDT''), (''contracts'', PNum 1), (''side'', PStr ''long'')]"
  have X: "exchange_by_symbol plain_codec [?xp] = [(''BTCUSDT'', ?xp)]"
    using sample_symbol by (simp add: exchange_by_symbol_def payload_symbol_def)
  obtain p where p: "d_get (sm_positions sample_manager) ''BTCUSDT'' = Some p" "ps_size p = 1" using sample_manager_ok(3) by auto
  show ?thesis
    by (rule unsized_answer_clears_position [OF _ _ sample_manager_ok(1,2) visits_id, where xp = ?xp, OF _ _ _ _ _ p(1)])
      (use p default_tolerance X in \<open>simp_all add: readable_def payload_float_def is_float_def less_imp_le\<close>)
qed

text \<open>Reconciliation reads nothing of an exchange position but its symbol, size and average price: two answers that agree on these
  keys have the same outcome, whatever they say about the side.\<close>

theorem exchange_side_is_not_read:
  assumes "list_all2 same_reading exch exch'"
  shows "reconcile_positions P tx c set_order exch s = reconcile_positions P tx c set_order exch' s"
proof -
  note read = same_reading_floats
  define A where "A = exchange_by_symbol tx exch"
  define B where "B = exchange_by_symbol tx exch'"
  have AB: "list_all2 (\<lambda>x y. fst x = fst y \<and> same_reading (snd x) (snd y)) A B"
    using same_reading_exchange [OF assms] by (simp add: A_def B_def)
  note get = same_reading_get [OF AB]
  have has: "d_has A = d_has B" using get unfolding d_has_def fun_eq_iff option.rel_sel by simp
  have 1: "ghost_position_step P c A = ghost_position_step P c B"
    by (simp add: ghost_position_step_def fun_eq_iff has Let_def)
  have 2: "until_error (orphan_position_step P tx c D) ps A = until_error (orphan_position_step P tx c D) ps B" for D ps
    using AB
  proof (induction arbitrary: ps rule: list_all2_induct)
    case (Cons x xs y ys)
    then have "fst x = fst y" and "payload_float tx (snd x) ''size'' = payload_float tx (snd y) ''size''"
      and "payload_float tx (snd x) ''avgPrice'' = payload_float tx (snd y) ''avgPrice''" using read by blast+
    then have "orphan_position_step P tx c D ps x = orphan_position_step P tx c D ps y" for ps
      by (simp only: orphan_position_step_def)
    with Cons show ?case by (auto split: prod.split option.split)
  qed simp
  have 3: "size_mismatch_step P tx c L A = size_mismatch_step P tx c L B" for L
  proof (intro ext)
    fix ps k
    show "size_mismatch_step P tx c L A ps k = size_mismatch_step P tx c L B ps k"
    proof (cases "d_get A k")
      case None
      with get [of k] show ?thesis by (simp add: size_mismatch_step_def split: option.split)
    next
      case (Some p)
      with get [of k] obtain q where q: "d_get B k = Some q" "same_reading p q" by (auto simp: option_rel_Some1)
      then have "payload_float tx p ''size'' = payload_float tx q ''size''" "payload_float tx p ''avgPrice'' = payload_float tx q ''avgPrice''"
        using read by blast+
      then show ?thesis by (simp only: size_mismatch_step_def Some q option.case prod.case)
    qed
  qed
  have "length A = length B" using AB by (rule list_all2_lengthD)
  then show ?thesis unfolding reconcile_positions_def A_def [symmetric] B_def [symmetric] Let_def by (simp only: 1 2 3 has)
qed

theorem exchange_side_is_not_read_witness:
  "reconcile_positions manager_store plain_codec default_recon_config (\<lambda>xs. xs) [sample_payload (PNum 2) @ [(''side'', PStr ''short'')]]
     state_manager_init =
   reconcile_positions manager_store plain_codec default_recon_config (\<lambda>xs. xs) [sample_payload (PNum 2) @ [(''side'', PStr ''long'')]]
     state_manager_init"
  by (rule exchange_side_is_not_read) (simp add: sample_payload_def same_reading_def)

lemma fold_add_positions:
  "d_get (sm_positions (fold (\<lambda>(sy, side, qty) m. add_position m (position_args sy side qty)) exch m)) k =
     (case find (\<lambda>x. fst x = k) (rev exch) of None \<Rightarrow> d_get (sm_positions m) k
      | Some x \<Rightarrow> Some (fresh_position (position_args k (fst (snd x)) (snd (snd x)))))"
proof (induction exch rule: rev_induct)
  case (snoc x exch)
  then show ?case by (cases x) (auto simp: add_position_def position_args_def)
qed simp

text \<open>The simple reconciler mirrors the exchange and forgets everything else: afterwards a symbol has a position exactly when
  the exchange lists it, with the side and size of its last entry, and with no entry price, stop loss or opening time, whatever
  was known about the position before.\<close>

theorem simple_reconciler_mirrors_exchange:
  assumes "positions_keyed m"
  shows "d_get (sm_positions (simple_reconcile exch m)) k =
     (case find (\<lambda>x. fst x = k) (rev exch) of None \<Rightarrow> None
      | Some x \<Rightarrow> Some (fresh_position (position_args k (fst (snd x)) (snd (snd x)))))"
proof (cases "find (\<lambda>x. fst x = k) (rev exch)")
  case None
  then have k: "k \<notin> fst ` set exch" by (auto simp: find_None_iff)
  let ?g = "filter (\<lambda>sy. sy \<notin> set (map fst exch)) (d_keys (sm_positions m))"
  have "d_get (fold (\<lambda>sy d. d_pop d sy) ?g (sm_positions m)) k = (if k \<in> set ?g then None else d_get (sm_positions m) k)"
    using assms by (intro pd.fold_remove_lookup) (simp add: positions_keyed_def)
  also have "\<dots> = None" using k by (auto simp: d_keys_def d_get_None_iff)
  finally show ?thesis by (simp add: simple_reconcile_def Let_def fold_add_positions None)
next
  case (Some x)
  then show ?thesis by (simp add: simple_reconcile_def Let_def fold_add_positions)
qed

theorem simple_reconciler_mirrors_exchange_witness:
  "map_option ps_entry_price (d_get (sm_positions (simple_reconcile [(''BTCUSDT'', ''short'', 3)] sample_manager)) ''BTCUSDT'') = Some None"
  using simple_reconciler_mirrors_exchange [OF sample_manager_ok(1), of "[(''BTCUSDT'', ''short'', 3)]" "''BTCUSDT''"]
  by (simp add: position_args_def)

end
