(* ===== verification/Order_Store.thy ===== *)
theory Order_Store
  imports Py_Strings Machines
begin

text \<open>
  Order statuses as text (quantgambit/execution/order_statuses.py) and the in-memory order store
  (quantgambit/execution/order_store.py).  Writing snapshots and database rows is left out, and so is
  loading them.  The fallback key of an order without ids is formatted by an argument.
\<close>

section \<open>Statuses\<close>

definition pending_statuses :: "string list" where
  "pending_statuses = [''pending'', ''accepted'', ''new'', ''created'']"

definition open_statuses :: "string list" where
  "open_statuses = [''open'', ''live'', ''active'', ''triggered'', ''untriggered'', ''pending_cancel'']"

definition partial_statuses :: "string list" where
  "partial_statuses = [''partially_filled'', ''partiallyfilled'', ''partial'', ''partial_fill'']"

definition filled_statuses :: "string list" where
  "filled_statuses = [''filled'', ''complete'', ''done'', ''closed'']"

definition canceled_statuses :: "string list" where
  "canceled_statuses = [''canceled'', ''cancelled'', ''canceled_by_user'', ''canceling'', ''canceled_by_system'',
     ''deactivated'', ''expired_canceled'', ''partially_filled_canceled'', ''partiallyfilledcanceled'']"

definition rejected_statuses :: "string list" where
  "rejected_statuses = [''rejected'', ''failed'', ''error'']"

definition expired_statuses :: "string list" where
  "expired_statuses = [''expired'', ''expired_in_match'']"

definition classify_status :: "string \<Rightarrow> string" where
  "classify_status n =
     (if n \<in> set filled_statuses then ''filled''
      else if n \<in> set partial_statuses then ''partially_filled''
      else if n \<in> set pending_statuses then ''pending''
      else if n \<in> set open_statuses then ''open''
      else if n \<in> set canceled_statuses then ''canceled''
      else if n \<in> set rejected_statuses then ''rejected''
      else if n \<in> set expired_statuses then ''expired''
      else n)"

definition normalize_order_status :: "string option \<Rightarrow> string" where
  "normalize_order_status s =
     (if \<not> s_truthy s then ''unknown''
      else classify_status (replace_char CHR '' '' CHR ''_'' (py_lower (strip (the s)))))"

definition is_open_status :: "string option \<Rightarrow> bool" where
  "is_open_status s = (normalize_order_status s \<in> set [''pending'', ''open'', ''partially_filled''])"

definition is_terminal_text :: "string option \<Rightarrow> bool" where
  "is_terminal_text s = (normalize_order_status s \<in> set [''filled'', ''canceled'', ''rejected'', ''expired''])"

definition order_status_rank :: "string option \<Rightarrow> nat" where
  "order_status_rank s = d_get_or [(''unknown'', 0), (''pending'', 1), (''open'', 2), (''partially_filled'', 3),
     (''filled'', 4), (''canceled'', 4), (''rejected'', 4), (''expired'', 4)] (normalize_order_status s) 0"

definition is_valid_transition :: "string option \<Rightarrow> string option \<Rightarrow> bool" where
  "is_valid_transition previous next =
     (let prev = normalize_order_status previous; nxt = normalize_order_status next
      in if prev = ''unknown'' then True
         else if prev = nxt then True
         else if nxt = ''unknown'' then False
         else if is_terminal_text (Some prev) then False
         else if is_terminal_text (Some nxt) then True
         else order_status_rank (Some prev) \<le> order_status_rank (Some nxt))"

section \<open>The store\<close>

record status_update =
  su_status :: string
  su_timestamp :: pyfloat
  su_reason :: "string option"
  su_fill_price :: "pyfloat option"
  su_fee_usd :: "pyfloat option"
  su_filled_size :: "pyfloat option"
  su_remaining_size :: "pyfloat option"
  su_source :: "string option"
  su_raw_exchange_status :: "string option"

record order_record =
  or_symbol :: string
  or_side :: string
  or_size :: pyfloat
  or_status :: string
  or_order_id :: "string option"
  or_client_order_id :: "string option"
  or_filled_size :: "pyfloat option"
  or_remaining_size :: "pyfloat option"
  or_order_type :: "string option"
  or_history :: "status_update list"

record intent_meta =
  im_symbol :: "string option"
  im_side :: "string option"
  im_size :: "pyfloat option"
  im_strategy_id :: "string option"
  im_profile_id :: "string option"
  im_entry_price :: "pyfloat option"
  im_stop_loss :: "pyfloat option"
  im_take_profit :: "pyfloat option"

record order_store =
  os_orders :: "(string, order_record) dict"
  os_max_history :: int
  os_intent_meta :: "(string, intent_meta) dict"

definition order_store_init :: "int \<Rightarrow> order_store" where
  "order_store_init m = \<lparr>os_orders = [], os_max_history = m, os_intent_meta = []\<rparr>"

text \<open>The arguments of \<open>record\<close> that reach the in-memory state.\<close>

record record_args =
  ra_symbol :: string
  ra_side :: string
  ra_size :: pyfloat
  ra_status :: string
  ra_order_id :: "string option"
  ra_client_order_id :: "string option"
  ra_reason :: "string option"
  ra_fill_price :: "pyfloat option"
  ra_fee_usd :: "pyfloat option"
  ra_filled_size :: "pyfloat option"
  ra_remaining_size :: "pyfloat option"
  ra_timestamp :: "pyfloat option"
  ra_source :: "string option"
  ra_raw_exchange_status :: "string option"

text \<open>The slice \<open>xs[-m:]\<close>.\<close>

definition py_last_n :: "int \<Rightarrow> 'a list \<Rightarrow> 'a list" where
  "py_last_n m xs = (if 0 < m then drop (length xs - nat m) xs else drop (nat (- m)) xs)"

definition order_key :: "(string \<Rightarrow> string \<Rightarrow> pyfloat \<Rightarrow> string) \<Rightarrow> record_args \<Rightarrow> string" where
  "order_key fmt a = (if s_truthy (ra_order_id a) then the (ra_order_id a)
     else if s_truthy (ra_client_order_id a) then the (ra_client_order_id a)
     else fmt (ra_symbol a) (ra_side a) (ra_size a))"

definition accepts_update :: "order_record \<Rightarrow> string \<Rightarrow> pyfloat \<Rightarrow> string option \<Rightarrow> bool" where
  "accepts_update r status ts source =
     (if or_history r \<noteq> [] \<and> ts < su_timestamp (last (or_history r)) then False
      else if or_history r \<noteq> [] \<and> \<not> is_valid_transition (Some (or_status r)) (Some status) then
        source = Some ''rest'' \<and> is_terminal_text (Some status)
      else True)"

definition record_order ::
  "(string \<Rightarrow> string \<Rightarrow> pyfloat \<Rightarrow> string) \<Rightarrow> order_store \<Rightarrow> record_args \<Rightarrow> pyfloat \<Rightarrow> order_store \<times> order_record" where
  "record_order fmt s a now =
     (let status = normalize_order_status (Some (ra_status a)); key = order_key fmt a;
          r = (case d_get (os_orders s) key of
                 Some r \<Rightarrow> r
               | None \<Rightarrow> \<lparr>or_symbol = ra_symbol a, or_side = ra_side a, or_size = ra_size a, or_status = status,
                   or_order_id = ra_order_id a, or_client_order_id = ra_client_order_id a, or_filled_size = None,
                   or_remaining_size = None, or_order_type = None, or_history = []\<rparr>);
          ts = fo_or (ra_timestamp a) now
      in if or_history r \<noteq> [] \<and> \<not> accepts_update r status ts (ra_source a) then
           (s\<lparr>os_orders := d_put (os_orders s) key r\<rparr>, r)
         else
     (let h = or_history r @ [\<lparr>su_status = status, su_timestamp = ts, su_reason = ra_reason a, su_fill_price = ra_fill_price a,
            su_fee_usd = ra_fee_usd a, su_filled_size = ra_filled_size a, su_remaining_size = ra_remaining_size a,
            su_source = ra_source a, su_raw_exchange_status = ra_raw_exchange_status a\<rparr>];
          r' = r\<lparr>or_status := status, or_order_id := os_or (ra_order_id a) (or_order_id r),
            or_client_order_id := os_or (ra_client_order_id a) (or_client_order_id r),
            or_filled_size := (if ra_filled_size a = None then or_filled_size r else ra_filled_size a),
            or_remaining_size := (if ra_remaining_size a = None then or_remaining_size r else ra_remaining_size a),
            or_history := (if os_max_history s < int (length h) then py_last_n (os_max_history s) h else h)\<rparr>
      in (s\<lparr>os_orders := d_put (os_orders s) key r'\<rparr>, r')))"

definition get_order :: "order_store \<Rightarrow> string option \<Rightarrow> string option \<Rightarrow> order_record option" where
  "get_order s oid cid = (let key = os_or oid cid in if s_truthy key then d_get (os_orders s) (the key) else None)"

definition should_accept_update ::
  "order_store \<Rightarrow> string option \<Rightarrow> string option \<Rightarrow> string \<Rightarrow> pyfloat option \<Rightarrow> string option \<Rightarrow> pyfloat \<Rightarrow> bool" where
  "should_accept_update s oid cid status ts source now =
     (case get_order s oid cid of
        None \<Rightarrow> True
      | Some r \<Rightarrow> accepts_update r (normalize_order_status (Some status)) (fo_or ts now) source)"

definition list_orders :: "order_store \<Rightarrow> order_record list" where
  "list_orders s = d_vals (os_orders s)"

definition record_intent :: "order_store \<Rightarrow> string \<Rightarrow> intent_meta \<Rightarrow> order_store" where
  "record_intent s cid m = (if cid \<noteq> [] then s\<lparr>os_intent_meta := d_put (os_intent_meta s) cid m\<rparr> else s)"

definition get_intent_meta :: "order_store \<Rightarrow> string option \<Rightarrow> intent_meta option" where
  "get_intent_meta s cid = (if s_truthy cid then d_get (os_intent_meta s) (the cid) else None)"

section \<open>Statuses form a preorder\<close>

lemmas status_lists = pending_statuses_def open_statuses_def partial_statuses_def filled_statuses_def
  canceled_statuses_def rejected_statuses_def expired_statuses_def

abbreviation known_statuses :: "string list" where
  "known_statuses \<equiv> [''unknown'', ''pending'', ''open'', ''partially_filled'', ''filled'', ''canceled'', ''rejected'', ''expired'']"

lemma normalize_known: "list_all (\<lambda>w. normalize_order_status (Some w) = w) known_statuses"
  by code_simp

lemma classify_cases: "classify_status n = n \<or> classify_status n \<in> set known_statuses"
  by (simp add: classify_status_def)

lemma classify_idem: "classify_status (classify_status n) = classify_status n"
proof -
  have "list_all (\<lambda>w. classify_status w = w) known_statuses" by code_simp
  with classify_cases [of n] show ?thesis by (auto simp: list_all_iff)
qed

lemma strip_fixed: "s = [] \<or> \<not> is_space (hd s) \<and> \<not> is_space (last s) \<Longrightarrow> strip s = s"
proof -
  have "xs = [] \<or> \<not> P (hd xs) \<Longrightarrow> dropWhile P xs = xs" for P :: "char \<Rightarrow> bool" and xs by (cases xs) auto
  then show "s = [] \<or> \<not> is_space (hd s) \<and> \<not> is_space (last s) \<Longrightarrow> strip s = s"
    by (auto simp: strip_def hd_rev)
qed

lemma strip_ends: "strip s = [] \<or> \<not> is_space (hd (strip s)) \<and> \<not> is_space (last (strip s))"
proof -
  let ?t = "dropWhile is_space s"
  have last: "strip s \<noteq> [] \<Longrightarrow> \<not> is_space (last (strip s))"
    using hd_dropWhile [of is_space "rev ?t"] by (auto simp: strip_def last_rev)
  have "hd (strip s) = hd ?t" if "strip s \<noteq> []"
  proof -
    have "rev (strip s) @ [] = dropWhile is_space (rev ?t)" by (simp add: strip_def)
    then have "rev ?t = takeWhile is_space (rev ?t) @ rev (strip s)" by (metis append_Nil2 takeWhile_dropWhile_id)
    then have "?t = strip s @ rev (takeWhile is_space (rev ?t))" by (metis rev_append rev_rev_ident)
    with that show ?thesis by (metis hd_append2)
  qed
  moreover have "strip s \<noteq> [] \<Longrightarrow> ?t \<noteq> []" unfolding strip_def by (cases ?t) simp_all
  moreover have "?t \<noteq> [] \<Longrightarrow> \<not> is_space (hd ?t)" using hd_dropWhile [of is_space s] dropWhile_eq_Nil_conv by metis
  ultimately show ?thesis using last by metis
qed

lemma clean_char_space: "\<not> is_space c \<Longrightarrow> \<not> is_space (if lower_char c = CHR '' '' then CHR ''_'' else lower_char c)"
  using lower_char_space [of c] by (auto simp: is_space_def Let_def)

lemma clean_char_idem:
  "(let d = (if lower_char c = CHR '' '' then CHR ''_'' else lower_char c)
    in if lower_char d = CHR '' '' then CHR ''_'' else lower_char d) = (if lower_char c = CHR '' '' then CHR ''_'' else lower_char c)"
proof -
  have "lower_char CHR ''_'' = CHR ''_''" by code_simp
  then show ?thesis by (simp add: Let_def)
qed

lemma clean_word:
  assumes "n = replace_char CHR '' '' CHR ''_'' (py_lower (strip t))"
  shows "replace_char CHR '' '' CHR ''_'' (py_lower (strip n)) = n"
proof -
  define f where "f = (\<lambda>c. if lower_char c = CHR '' '' then CHR ''_'' else lower_char c)"
  have m: "replace_char CHR '' '' CHR ''_'' (py_lower x) = map f x" for x
    by (simp add: replace_char_def py_lower_def f_def)
  have sp: "\<not> is_space c \<Longrightarrow> \<not> is_space (f c)" and id: "f (f c) = f c" for c
    using clean_char_space [of c] clean_char_idem [of c] by (simp_all add: f_def Let_def)
  have "strip n = n"
  proof (rule strip_fixed)
    show "n = [] \<or> \<not> is_space (hd n) \<and> \<not> is_space (last n)"
      using strip_ends [of t] sp by (cases "strip t = []") (simp_all add: assms m hd_map last_map)
  qed
  then show ?thesis by (simp add: assms m id)
qed

lemma normalize_idem: "normalize_order_status (Some (normalize_order_status s)) =
    (if normalize_order_status s = [] then ''unknown'' else normalize_order_status s)"
proof (cases "s_truthy s")
  case True
  define n where "n = replace_char CHR '' '' CHR ''_'' (py_lower (strip (the s)))"
  have s: "normalize_order_status s = classify_status n" using True by (simp add: normalize_order_status_def n_def)
  show ?thesis
  proof (cases "classify_status n = n")
    case False
    with classify_cases [of n] normalize_known show ?thesis by (auto simp: s list_all_iff)
  next
    case True
    have "normalize_order_status (Some n) = (if n = [] then ''unknown'' else classify_status n)"
      using clean_word [OF n_def] by (simp add: normalize_order_status_def s_truthy_def)
    with True show ?thesis by (simp add: s)
  qed
next
  case False
  then have "normalize_order_status s = ''unknown''" by (simp add: normalize_order_status_def)
  with normalize_known show ?thesis by simp
qed

lemma unknown_not_terminal: "\<not> is_terminal_text (Some ''unknown'')"
  by code_simp

lemma valid_transition_refl: "is_valid_transition s s"
  by (simp add: is_valid_transition_def Let_def)

lemma valid_transition_trans: "is_valid_transition a b \<Longrightarrow> is_valid_transition b c \<Longrightarrow> is_valid_transition a c"
  using unknown_not_terminal by (auto simp: is_valid_transition_def Let_def split: if_splits)

lemma terminal_normalized: "is_terminal_text (Some (normalize_order_status s)) = is_terminal_text s"
  using normalize_idem [of s] by (auto simp: is_terminal_text_def)

lemma normalize_not_blank: "is_terminal_text s \<Longrightarrow> normalize_order_status (Some (normalize_order_status s)) = normalize_order_status s"
  using normalize_idem [of s] by (auto simp: is_terminal_text_def)

lemma terminal_maximal: "is_terminal_text a \<Longrightarrow> is_valid_transition a b \<Longrightarrow> normalize_order_status b = normalize_order_status a"
  using unknown_not_terminal terminal_normalized [of a]
  by (auto simp: is_valid_transition_def Let_def is_terminal_text_def split: if_splits)

section \<open>The store's invariant\<close>

definition update_follows :: "status_update \<Rightarrow> status_update \<Rightarrow> bool" where
  "update_follows u v = (su_timestamp u \<le> su_timestamp v \<and>
     (is_valid_transition (Some (su_status u)) (Some (su_status v)) \<or>
      su_source v = Some ''rest'' \<and> is_terminal_text (Some (su_status v))))"

text \<open>Statuses in the store are in normal form.\<close>

definition normal_status :: "string \<Rightarrow> bool" where
  "normal_status t = (normalize_order_status (Some t) = (if t = [] then ''unknown'' else t))"

lemma normal_status_normalize [simp]: "normal_status (normalize_order_status s)"
  by (simp add: normal_status_def normalize_idem)

lemma normal_terminal: "normal_status t \<Longrightarrow> is_terminal_text (Some t) \<Longrightarrow> normalize_order_status (Some t) = t"
  using unknown_not_terminal by (auto simp: normal_status_def is_terminal_text_def split: if_splits)

definition record_wf :: "order_record \<Rightarrow> bool" where
  "record_wf r = (normal_status (or_status r) \<and> or_history r \<noteq> [] \<and> or_status r = su_status (last (or_history r)) \<and> successively update_follows (or_history r))"

definition store_wf :: "order_store \<Rightarrow> bool" where
  "store_wf s = (d_wf (os_orders s) \<and> 0 \<le> os_max_history s \<and>
     (\<forall>k r. d_get (os_orders s) k = Some r \<longrightarrow>
        record_wf r \<and> (0 < os_max_history s \<longrightarrow> int (length (or_history r)) \<le> os_max_history s)))"

lemma successively_drop: "successively P xs \<Longrightarrow> successively P (drop n xs)"
  by (metis append_take_drop_id successively_append_iff)

lemma py_last_n_props:
  assumes "0 \<le> m" "xs \<noteq> []"
  shows "py_last_n m xs \<noteq> []" "last (py_last_n m xs) = last xs" "successively P xs \<Longrightarrow> successively P (py_last_n m xs)"
    "0 < m \<Longrightarrow> int (length (py_last_n m xs)) \<le> m"
  using assms by (cases xs; auto simp: py_last_n_def successively_drop last_drop)+

lemma accepts_follows:
  assumes "record_wf r" "accepts_update r (su_status u) (su_timestamp u) (su_source u)"
  shows "update_follows (last (or_history r)) u"
  using assms by (auto simp: accepts_update_def update_follows_def record_wf_def split: if_splits)

text \<open>What \<open>record_order\<close> leaves in the store under its key.\<close>

lemma record_order_cases:
  assumes "record_order fmt s a now = (s', r')"
  obtains (refused) r where "d_get (os_orders s) (order_key fmt a) = Some r" "or_history r \<noteq> []"
      "\<not> accepts_update r (normalize_order_status (Some (ra_status a))) (fo_or (ra_timestamp a) now) (ra_source a)"
      "s' = s\<lparr>os_orders := d_put (os_orders s) (order_key fmt a) r\<rparr>" "r' = r"
  | (taken) u h where "s' = s\<lparr>os_orders := d_put (os_orders s) (order_key fmt a) r'\<rparr>"
      "or_history r' = (if os_max_history s < int (length (h @ [u])) then py_last_n (os_max_history s) (h @ [u]) else h @ [u])"
      "or_status r' = su_status u" "su_status u = normalize_order_status (Some (ra_status a))"
      "su_timestamp u = fo_or (ra_timestamp a) now" "su_source u = ra_source a"
      "(case d_get (os_orders s) (order_key fmt a) of None \<Rightarrow> h = [] | Some r \<Rightarrow> h = or_history r \<and>
          (h \<noteq> [] \<longrightarrow> accepts_update r (su_status u) (su_timestamp u) (su_source u)))"
proof (cases "d_get (os_orders s) (order_key fmt a)")
  case None
  show thesis
    by (rule taken [where u = "\<lparr>su_status = normalize_order_status (Some (ra_status a)), su_timestamp = fo_or (ra_timestamp a) now,
         su_reason = ra_reason a, su_fill_price = ra_fill_price a, su_fee_usd = ra_fee_usd a,
         su_filled_size = ra_filled_size a, su_remaining_size = ra_remaining_size a,
         su_source = ra_source a, su_raw_exchange_status = ra_raw_exchange_status a\<rparr>" and h = "[]"])
      (use assms None in \<open>auto simp: record_order_def Let_def split: if_splits\<close>)
next
  case (Some r)
  show thesis
  proof (cases "or_history r \<noteq> [] \<and>
      \<not> accepts_update r (normalize_order_status (Some (ra_status a))) (fo_or (ra_timestamp a) now) (ra_source a)")
    case True
    with assms Some show thesis by (intro refused) (auto simp: record_order_def Let_def)
  next
    case False
    show thesis
      by (rule taken [where u = "\<lparr>su_status = normalize_order_status (Some (ra_status a)), su_timestamp = fo_or (ra_timestamp a) now,
           su_reason = ra_reason a, su_fill_price = ra_fill_price a, su_fee_usd = ra_fee_usd a,
           su_filled_size = ra_filled_size a, su_remaining_size = ra_remaining_size a,
           su_source = ra_source a, su_raw_exchange_status = ra_raw_exchange_status a\<rparr>" and h = "or_history r"])
        (use assms Some False in \<open>auto simp: record_order_def Let_def split: if_splits\<close>)
  qed
qed

lemma record_order_wf:
  assumes "store_wf s" "record_order fmt s a now = (s', r')"
  shows "store_wf s'"
  using assms(2)
proof (cases rule: record_order_cases)
  case (refused r)
  with assms(1) show ?thesis by (auto simp: store_wf_def)
next
  case (taken u h)
  have "h \<noteq> [] \<Longrightarrow> update_follows (last h) u \<and> successively update_follows h"
    using taken(7) assms(1) accepts_follows by (auto simp: store_wf_def record_wf_def split: option.splits)
  then have "successively update_follows (h @ [u])" by (cases "h = []") (auto simp: successively_append_iff)
  with taken(2-4) py_last_n_props [of "os_max_history s" "h @ [u]"] assms(1)
  have "record_wf r' \<and> (0 < os_max_history s \<longrightarrow> int (length (or_history r')) \<le> os_max_history s)"
    by (auto simp: record_wf_def store_wf_def)
  with assms(1) taken(1) show ?thesis by (auto simp: store_wf_def)
qed

section \<open>Runs\<close>

datatype store_event =
    SRecord record_args pyfloat
  | SIntent string intent_meta

fun store_step :: "(string \<Rightarrow> string \<Rightarrow> pyfloat \<Rightarrow> string) \<Rightarrow> order_store \<Rightarrow> store_event \<Rightarrow> order_store" where
  "store_step fmt s (SRecord a now) = fst (record_order fmt s a now)"
| "store_step fmt s (SIntent cid m) = record_intent s cid m"

definition store_run :: "(string \<Rightarrow> string \<Rightarrow> pyfloat \<Rightarrow> string) \<Rightarrow> int \<Rightarrow> store_event list \<Rightarrow> order_store" where
  "store_run fmt m es = foldl (store_step fmt) (order_store_init m) es"

lemma store_step_wf: "store_wf s \<Longrightarrow> store_wf (store_step fmt s e)"
proof (cases e)
  case (SRecord a now)
  obtain s' r' where "record_order fmt s a now = (s', r')" by force
  then show "store_wf s \<Longrightarrow> ?thesis" using record_order_wf by (simp add: SRecord)
qed (simp add: store_wf_def record_intent_def)

text \<open>A terminal record stays terminal, and keeps its status unless a REST poll reports another one.\<close>

definition terminal_at :: "string \<Rightarrow> order_store \<Rightarrow> bool" where
  "terminal_at k s = (store_wf s \<and> (\<exists>r. d_get (os_orders s) k = Some r \<and> is_terminal_text (Some (or_status r))))"

definition status_at :: "string \<Rightarrow> order_store \<Rightarrow> string option" where
  "status_at k s = map_option or_status (d_get (os_orders s) k)"

fun from_rest :: "store_event \<Rightarrow> bool" where
  "from_rest (SRecord a now) = (ra_source a = Some ''rest'')"
| "from_rest _ = False"

lemma terminal_step:
  assumes "terminal_at k s"
  shows "terminal_at k (store_step fmt s e) \<and> (\<not> from_rest e \<longrightarrow> status_at k (store_step fmt s e) = status_at k s)"
proof (cases e)
  case (SRecord a now)
  obtain s' r' where ro: "record_order fmt s a now = (s', r')" by force
  have wf: "store_wf s'" using record_order_wf [OF _ ro] assms by (simp add: terminal_at_def)
  obtain r where r: "d_get (os_orders s) k = Some r" "is_terminal_text (Some (or_status r))" "record_wf r"
    using assms by (auto simp: terminal_at_def store_wf_def)
  from ro show ?thesis
  proof (cases rule: record_order_cases)
    case (refused r0)
    with r wf show ?thesis by (auto simp: SRecord ro terminal_at_def status_at_def)
  next
    case (taken u h)
    show ?thesis
    proof (cases "k = order_key fmt a")
      case False
      with taken(1) r wf show ?thesis by (auto simp: SRecord ro terminal_at_def status_at_def)
    next
      case True
      with taken(7) r have a: "accepts_update r (su_status u) (su_timestamp u) (su_source u)" "or_history r \<noteq> []"
        by (auto simp: record_wf_def)
      have u: "normal_status (su_status u)" using taken(4) by simp
      have r0: "normal_status (or_status r)" using r(3) unfolding record_wf_def by blast
      show ?thesis
      proof (cases "is_valid_transition (Some (or_status r)) (Some (su_status u))")
        case v: True
        have "normalize_order_status (Some (su_status u)) = or_status r"
          using terminal_maximal [OF r(2) v] normal_terminal [OF r0 r(2)] by simp
        then have t: "is_terminal_text (Some (su_status u))" "su_status u = or_status r"
          using terminal_normalized [of "Some (su_status u)"] r(2) normal_terminal [OF u] by auto
        with True taken(1,3) r wf show ?thesis by (simp add: SRecord ro terminal_at_def status_at_def)
      next
        case False
        with a have "ra_source a = Some ''rest''" "is_terminal_text (Some (su_status u))"
          using taken(6) by (auto simp: accepts_update_def split: if_splits)
        with True taken(1,3) wf show ?thesis by (simp add: SRecord ro terminal_at_def)
      qed
    qed
  qed
qed (use assms in \<open>simp add: terminal_at_def status_at_def record_intent_def store_wf_def\<close>)

interpretation order_store: invariant_machine "store_step fmt" "\<lambda>e. True" store_wf for fmt
  by unfold_locales (rule store_step_wf)

interpretation terminal_order: latch "store_step fmt" "\<lambda>e. True" "\<lambda>s. True" "terminal_at k" from_rest "status_at k" for fmt k
  by unfold_locales (use terminal_step in blast)+

interpretation terminal_record: invariant_machine "store_step fmt" "\<lambda>e. True" "terminal_at k" for fmt k
  by unfold_locales (use terminal_step in blast)

lemma store_init_wf: "0 \<le> m \<Longrightarrow> store_wf (order_store_init m)"
  by (simp add: store_wf_def order_store_init_def)

lemma store_run_wf: "0 \<le> m \<Longrightarrow> store_wf (store_run fmt m es)"
  unfolding store_run_def by (rule order_store.run_inv) (simp_all add: store_init_wf list_all_iff)

lemma store_run_append: "store_run fmt m (es @ es') = foldl (store_step fmt) (store_run fmt m es) es'"
  by (simp add: store_run_def)

lemma store_step_max [simp]: "os_max_history (store_step fmt s e) = os_max_history s"
  by (cases e) (auto simp: record_order_def record_intent_def Let_def)

lemma store_run_max: "os_max_history (store_run fmt m es) = m"
proof -
  have "os_max_history (foldl (store_step fmt) s es) = os_max_history s" for s by (induction es arbitrary: s) simp_all
  then show ?thesis by (simp add: store_run_def order_store_init_def)
qed

section \<open>Properties\<close>

text \<open>Order statuses: normalising is idempotent but for texts that normalise to the empty string; allowed transitions are
  reflexive and transitive, and from a terminal status the only allowed one is to the same status.\<close>

theorem status_order:
  "normalize_order_status (Some (normalize_order_status s)) =
     (if normalize_order_status s = [] then ''unknown'' else normalize_order_status s) \<and>
   is_valid_transition a a \<and>
   (is_valid_transition a b \<and> is_valid_transition b c \<longrightarrow> is_valid_transition a c) \<and>
   (is_terminal_text a \<and> is_valid_transition a b \<longrightarrow> normalize_order_status b = normalize_order_status a)"
  using normalize_idem valid_transition_refl valid_transition_trans terminal_maximal by blast

lemma status_order_witness:
  "is_valid_transition (Some ''New'') (Some ''FILLED'') \<and> normalize_order_status (Some '' Filled '') = ''filled''"
proof -
  have 1: "is_valid_transition (Some ''New'') (Some ''Active'')" "is_valid_transition (Some ''Active'') (Some ''FILLED'')"
    by code_simp+
  have 2: "is_terminal_text (Some ''closed'')" "is_valid_transition (Some ''closed'') (Some '' Filled '')"
    "normalize_order_status (Some ''closed'') = ''filled''" by code_simp+
  show ?thesis
    using status_order [of None "Some ''New''" "Some ''Active''" "Some ''FILLED''"] 1
      status_order [of None "Some ''closed''" "Some '' Filled ''" None] 2 by simp
qed

text \<open>C20: The order store keeps legal histories: after any records and intents, each order's history is not empty, its last
  update carries the order's status, timestamps never decrease and every step is an allowed transition or a
  terminal status reported by a REST poll; the history stays within its maximal length.\<close>

theorem order_histories_legal:
  assumes "0 < m" "d_get (os_orders (store_run fmt m es)) k = Some r"
  shows "or_history r \<noteq> [] \<and> or_status r = su_status (last (or_history r)) \<and>
    int (length (or_history r)) \<le> m \<and>
    successively (\<lambda>u v. su_timestamp u \<le> su_timestamp v \<and>
      (is_valid_transition (Some (su_status u)) (Some (su_status v)) \<or>
       su_source v = Some ''rest'' \<and> is_terminal_text (Some (su_status v)))) (or_history r)"
proof -
  have "store_wf (store_run fmt m es)" using assms(1) by (intro store_run_wf) simp
  then have "record_wf r \<and> int (length (or_history r)) \<le> m" using assms by (auto simp: store_wf_def store_run_max)
  then show ?thesis by (simp add: record_wf_def update_follows_def [abs_def])
qed

definition sample_args :: record_args where
  "sample_args = \<lparr>ra_symbol = ''BTC'', ra_side = ''buy'', ra_size = 2, ra_status = ''New'', ra_order_id = None,
     ra_client_order_id = Some ''c1'', ra_reason = None, ra_fill_price = None, ra_fee_usd = None, ra_filled_size = None,
     ra_remaining_size = None, ra_timestamp = None, ra_source = Some ''local'', ra_raw_exchange_status = None\<rparr>"

definition sample_records :: "store_event list" where
  "sample_records = [SRecord sample_args 1, SRecord (sample_args\<lparr>ra_status := ''Filled'', ra_source := Some ''ws''\<rparr>) 2]"

definition plain_key :: "string \<Rightarrow> string \<Rightarrow> pyfloat \<Rightarrow> string" where
  "plain_key sy sd sz = sy @ sd"

lemma sample_store: "map_option or_status (d_get (os_orders (store_run plain_key 200 sample_records)) ''c1'') = Some ''filled''"
  by code_simp

lemma order_histories_legal_witness:
  "\<exists>r. d_get (os_orders (store_run plain_key 200 sample_records)) ''c1'' = Some r \<and> or_status r = ''filled'' \<and>
     su_status (last (or_history r)) = ''filled''"
proof -
  obtain r where r: "d_get (os_orders (store_run plain_key 200 sample_records)) ''c1'' = Some r" "or_status r = ''filled''"
    using sample_store by auto
  from order_histories_legal [OF _ r(1)] r show ?thesis by auto
qed

text \<open>C21: Terminal orders stay terminal in the order store: once an order's status is terminal, no later record or intent makes it
  anything but terminal, and its status can change at all only by a record whose source is a REST poll.\<close>

theorem stored_terminal_stays:
  assumes "0 \<le> m" "d_get (os_orders (store_run fmt m es)) k = Some r" "is_terminal_text (Some (or_status r))"
  shows "\<exists>r'. d_get (os_orders (store_run fmt m (es @ es'))) k = Some r' \<and> is_terminal_text (Some (or_status r')) \<and>
    (\<not> list_ex from_rest es' \<longrightarrow> or_status r' = or_status r)"
proof -
  have t: "terminal_at k (store_run fmt m es)"
    using assms store_run_wf by (auto simp: terminal_at_def)
  have "terminal_at k (store_run fmt m (es @ es'))"
    unfolding store_run_append by (rule terminal_record.run_inv [OF t]) (simp add: list_all_iff)
  moreover have "\<not> list_ex from_rest es' \<Longrightarrow> status_at k (store_run fmt m (es @ es')) = status_at k (store_run fmt m es)"
    unfolding store_run_append using terminal_order.run_closed [OF _ _ t] by (simp add: list_all_iff)
  ultimately show ?thesis using assms(2) by (auto simp: terminal_at_def status_at_def)
qed

lemma stored_terminal_stays_witness:
  "\<exists>r. d_get (os_orders (store_run plain_key 200 (sample_records @ [SRecord (sample_args\<lparr>ra_status := ''open''\<rparr>) 3]))) ''c1'' = Some r \<and>
     or_status r = ''filled''"
proof -
  obtain r where r: "d_get (os_orders (store_run plain_key 200 sample_records)) ''c1'' = Some r" "or_status r = ''filled''"
    using sample_store by auto
  have "is_terminal_text (Some ''filled'')" by code_simp
  with stored_terminal_stays [OF _ r(1), of "[SRecord (sample_args\<lparr>ra_status := ''open''\<rparr>) 3]"] r
  show ?thesis by (auto simp: sample_args_def)
qed

text \<open>An order known by its client id and then reported with an exchange id is stored twice: the second record goes under the
  exchange id, and the first keeps its status under the client id whatever is reported for the order.\<close>

theorem exchange_id_splits_order:
  assumes "ra_client_order_id a = Some c" "ra_order_id a = Some oid" "oid \<noteq> []" "oid \<noteq> c"
    "d_get (os_orders s) c = Some r"
  shows "d_get (os_orders (fst (record_order fmt s a now))) c = Some r \<and>
    d_get (os_orders (fst (record_order fmt s a now))) oid \<noteq> None"
  using assms by (simp add: record_order_def order_key_def s_truthy_def Let_def)

lemma exchange_id_splits_order_witness:
  "map_option or_status (d_get (os_orders (fst (record_order plain_key (store_run plain_key 200 [SRecord sample_args 1])
     (sample_args\<lparr>ra_status := ''Filled'', ra_order_id := Some ''x9''\<rparr>) 2))) ''c1'') = Some ''pending''"
proof -
  have "map_option or_status (d_get (os_orders (store_run plain_key 200 [SRecord sample_args 1])) ''c1'') = Some ''pending''"
    by code_simp
  then obtain r where r: "d_get (os_orders (store_run plain_key 200 [SRecord sample_args 1])) ''c1'' = Some r" "or_status r = ''pending''"
    by auto
  from exchange_id_splits_order [OF _ _ _ _ r(1), of "sample_args\<lparr>ra_status := ''Filled'', ra_order_id := Some ''x9''\<rparr>" "''x9''" plain_key 2] r(2)
  show ?thesis by (simp add: sample_args_def)
qed

end
