(* ===== verification/Exec_Reconcile.thy ===== *)
theory Exec_Reconcile
  imports Pos_Reconcile Order_Store Lifecycle
begin

text \<open>
  The order half of quantgambit/execution/reconciliation.py, the whole run, and the adapter of
  quantgambit/runtime/quant_integration.py between the worker and the order store.  The adapter's writes are tasks that run
  once the pass has yielded; the model queues them and applies them in order.  The exchange's answer to a
  cancellation is an argument.
\<close>

section \<open>The adapter over the order store\<close>

definition text_or :: "string option \<Rightarrow> string \<Rightarrow> string" where
  "text_or a b = (if s_truthy a then the a else b)"

definition managed_of_record :: "pyfloat \<Rightarrow> pyfloat \<Rightarrow> order_record \<Rightarrow> managed_order" where
  "managed_of_record mt wt r =
     (let cid = text_or (or_client_order_id r) (text_or (or_order_id r) ''unknown'')
      in (mk_order \<lparr>id_intent_id = cid, id_attempt = 1, id_client_order_id = cid\<rparr> (or_symbol r) (text_or (Some (or_side r)) ''buy'')
            (or_size r) (text_or (or_order_type r) ''market'') None False 0 0 mt wt)
         \<lparr>mo_filled_qty := fo_or (or_filled_size r) 0\<rparr>)"

definition adapter_open_orders :: "pyfloat \<Rightarrow> pyfloat \<Rightarrow> order_store \<Rightarrow> managed_order list" where
  "adapter_open_orders mt wt s =
     map (managed_of_record mt wt) (filter (\<lambda>r. is_open_status (Some (or_status r))) (list_orders s))"

definition adapter_get_order :: "order_store \<Rightarrow> string \<Rightarrow> order_record option" where
  "adapter_get_order s cid = find (\<lambda>r. or_client_order_id r = Some cid) (list_orders s)"

text \<open>The record that \<open>update_order\<close> submits, if any.\<close>

definition adapter_update_order :: "order_store \<Rightarrow> managed_order \<Rightarrow> record_args option" where
  "adapter_update_order s mo =
     (let cid = id_client_order_id (mo_identity mo);
          existing = (if cid = [] then None else adapter_get_order s cid);
          symbol = (if mo_symbol mo \<noteq> [] then mo_symbol mo else case existing of None \<Rightarrow> [] | Some r \<Rightarrow> or_symbol r);
          side = (if mo_side mo \<noteq> [] then mo_side mo
            else case existing of None \<Rightarrow> ''buy'' | Some r \<Rightarrow> text_or (Some (or_side r)) ''buy'');
          qty = f_or (mo_qty mo) (case existing of None \<Rightarrow> 0 | Some r \<Rightarrow> or_size r)
      in if symbol = [] \<or> cid = [] then None
         else Some \<lparr>ra_symbol = symbol, ra_side = side, ra_size = qty, ra_status = order_state_value (mo_state mo),
           ra_order_id = (case existing of None \<Rightarrow> None | Some r \<Rightarrow> or_order_id r), ra_client_order_id = Some cid,
           ra_reason = Some ''reconciliation_heal'', ra_fill_price = None, ra_fee_usd = None,
           ra_filled_size = Some (mo_filled_qty mo), ra_remaining_size = None, ra_timestamp = None,
           ra_source = Some ''reconciliation'', ra_raw_exchange_status = None\<rparr>)"

text \<open>The records of \<open>remove_order\<close> and \<open>add_order\<close>, which the protocol offers and the worker does not call.\<close>

definition adapter_remove_order :: "order_store \<Rightarrow> string \<Rightarrow> record_args option" where
  "adapter_remove_order s cid = (case adapter_get_order s cid of
       None \<Rightarrow> None
     | Some r \<Rightarrow> Some \<lparr>ra_symbol = or_symbol r, ra_side = text_or (Some (or_side r)) ''buy'', ra_size = or_size r, ra_status = ''canceled'',
         ra_order_id = or_order_id r, ra_client_order_id = Some cid, ra_reason = Some ''reconciliation_remove'', ra_fill_price = None,
         ra_fee_usd = None, ra_filled_size = or_filled_size r, ra_remaining_size = or_remaining_size r, ra_timestamp = None,
         ra_source = Some ''reconciliation'', ra_raw_exchange_status = None\<rparr>)"

definition adapter_add_order :: "managed_order \<Rightarrow> record_args option" where
  "adapter_add_order mo =
     (if mo_symbol mo = [] \<or> id_client_order_id (mo_identity mo) = [] then None
      else Some \<lparr>ra_symbol = mo_symbol mo, ra_side = text_or (Some (mo_side mo)) ''buy'', ra_size = mo_qty mo, ra_status = ''pending'',
         ra_order_id = None, ra_client_order_id = Some (id_client_order_id (mo_identity mo)), ra_reason = Some ''reconciliation_add'',
         ra_fill_price = None, ra_fee_usd = None, ra_filled_size = None, ra_remaining_size = None, ra_timestamp = None,
         ra_source = Some ''reconciliation'', ra_raw_exchange_status = None\<rparr>)"

text \<open>The task behind a submission: the record, and for a finished order its intent.\<close>

definition persist_write ::
  "(string \<Rightarrow> string \<Rightarrow> pyfloat \<Rightarrow> string) \<Rightarrow> pyfloat \<Rightarrow> order_store \<Rightarrow> record_args \<Rightarrow> order_store" where
  "persist_write fmt now s a =
     (let s' = fst (record_order fmt s a now)
      in if s_truthy (ra_client_order_id a) \<and>
            py_lower (ra_status a) \<in> set [''filled'', ''canceled'', ''rejected'', ''failed'', ''expired'']
         then record_intent s' (the (ra_client_order_id a))
           \<lparr>im_symbol = Some (ra_symbol a), im_side = Some (ra_side a), im_size = Some (ra_size a), im_strategy_id = None,
            im_profile_id = None, im_entry_price = None, im_stop_loss = None, im_take_profit = None\<rparr>
         else s')"

definition apply_writes ::
  "(string \<Rightarrow> string \<Rightarrow> pyfloat \<Rightarrow> string) \<Rightarrow> pyfloat \<Rightarrow> record_args list \<Rightarrow> order_store \<Rightarrow> order_store" where
  "apply_writes fmt now ws s = foldl (persist_write fmt now) s ws"

section \<open>The order pass\<close>

text \<open>An open order as the exchange adapter normalises it.\<close>

record exchange_order =
  xo_client_order_id :: "string option"
  xo_order_id :: "string option"
  xo_symbol :: "string option"
  xo_status :: "string option"
  xo_qty :: "pyfloat pyval"
  xo_cum_exec_qty :: "pyfloat pyval"

record order_pass =
  op_writes :: "record_args list"
  op_cancels :: "(string \<times> string option) list"
  op_discs :: "discrepancy list"
  op_healed :: nat

definition queue_write :: "order_store \<Rightarrow> managed_order \<Rightarrow> record_args list" where
  "queue_write s mo = (case adapter_update_order s mo of None \<Rightarrow> [] | Some a \<Rightarrow> [a])"

definition opt_text :: "string option \<Rightarrow> pyfloat pyval" where
  "opt_text t = (case t of None \<Rightarrow> PNone | Some s \<Rightarrow> PStr s)"

definition found_order ::
  "recon_config \<Rightarrow> order_pass \<Rightarrow> discrepancy_type \<Rightarrow> string \<Rightarrow> details \<Rightarrow> details \<Rightarrow> record_args list \<Rightarrow> resolution \<Rightarrow> order_pass" where
  "found_order c ps ty sy loc ex ws act =
     (let d = \<lparr>di_type = ty, di_symbol = sy, di_local = loc, di_exchange = ex, di_resolved = rc_heal c,
               di_action = (if rc_heal c then act else Unresolved)\<rparr>
      in ps\<lparr>op_discs := op_discs ps @ [d], op_writes := op_writes ps @ (if rc_heal c then ws else []),
            op_healed := op_healed ps + (if rc_heal c then 1 else 0)\<rparr>)"

definition ghost_order_step ::
  "order_store \<Rightarrow> recon_config \<Rightarrow> (string, exchange_order) dict \<Rightarrow> order_pass \<Rightarrow> string \<times> managed_order \<Rightarrow> order_pass" where
  "ghost_order_step s c X ps item =
     (let coid = fst item; mo = snd item; sy = canonical_key (Some (mo_symbol mo))
      in if out_of_scope c sy then ps
         else if \<not> d_has X coid
         then found_order c ps GHOST_ORDER sy
           [(''client_order_id'', PStr coid), (''state'', PStr (order_state_value (mo_state mo))), (''qty'', PNum (mo_qty mo))] []
           (queue_write s (mo\<lparr>mo_state := CANCELED\<rparr>)) MarkedCanceled
         else ps)"

text \<open>An orphan is cancelled on the exchange; the discrepancy is resolved only when the exchange says so.\<close>

definition orphan_order_step ::
  "(string \<Rightarrow> string option \<Rightarrow> py_error + bool) \<Rightarrow> recon_config \<Rightarrow> (string, managed_order) dict \<Rightarrow> order_pass \<Rightarrow>
     string \<times> exchange_order \<Rightarrow> order_pass" where
  "orphan_order_step cancel c L ps item =
     (let coid = fst item; xo = snd item; sy = canonical_key (xo_symbol xo); done = (rc_heal c \<and> cancel sy (xo_order_id xo) = Inr True);
          d = \<lparr>di_type = ORPHAN_ORDER, di_symbol = sy, di_local = [],
               di_exchange = [(''client_order_id'', PStr coid), (''exchange_order_id'', opt_text (xo_order_id xo)),
                 (''status'', opt_text (xo_status xo)), (''qty'', xo_qty xo)],
               di_resolved = done, di_action = (if done then CancelledOrphan else Unresolved)\<rparr>
      in if out_of_scope c sy then ps
         else if \<not> d_has L coid
         then ps\<lparr>op_discs := op_discs ps @ [d],
                 op_cancels := op_cancels ps @ (if rc_heal c then [(sy, xo_order_id xo)] else []),
                 op_healed := op_healed ps + (if done then 1 else 0)\<rparr>
         else ps)"

definition fill_tolerance :: pyfloat where
  "fill_tolerance = fl (1 / 10 ^ 8)"

definition fill_mismatch_step ::
  "order_store \<Rightarrow> text_codec \<Rightarrow> recon_config \<Rightarrow> (string, managed_order) dict \<Rightarrow> (string, exchange_order) dict \<Rightarrow> order_pass \<Rightarrow> string \<Rightarrow>
     order_pass \<times> py_error option" where
  "fill_mismatch_step s tx c L X ps coid =
     (case (d_get L coid, d_get X coid) of
        (Some mo, Some xo) \<Rightarrow>
          (let sy = canonical_key (Some (mo_symbol mo))
           in if out_of_scope c sy then (ps, None)
              else case payload_float tx [(''cumExecQty'', xo_cum_exec_qty xo)] ''cumExecQty'' of
                Inl e \<Rightarrow> (ps, Some e)
              | Inr x \<Rightarrow>
                  if fill_tolerance < \<bar>fsub (mo_filled_qty mo) x\<bar>
                  then (found_order c ps ORDER_FILLED_QTY_MISMATCH sy [(''filled_qty'', PNum (mo_filled_qty mo))] [(''filled_qty'', PNum x)]
                          (queue_write s (mo\<lparr>mo_filled_qty := x\<rparr>)) (FilledSet x), None)
                  else (ps, None))
      | _ \<Rightarrow> (ps, None))"

definition locals_by_coid :: "managed_order list \<Rightarrow> (string, managed_order) dict" where
  "locals_by_coid os = fold (\<lambda>mo d. d_put d (id_client_order_id (mo_identity mo)) mo) os []"

definition exchange_by_coid :: "exchange_order list \<Rightarrow> (string, exchange_order) dict" where
  "exchange_by_coid xs = fold (\<lambda>xo d. d_put d (the (xo_client_order_id xo)) xo) (filter (\<lambda>xo. s_truthy (xo_client_order_id xo)) xs) []"

text \<open>The queued writes and cancellations stand even when the pass fails; the count of orders checked comes last.\<close>

definition reconcile_orders ::
  "text_codec \<Rightarrow> recon_config \<Rightarrow> (string list \<Rightarrow> string list) \<Rightarrow> (string \<Rightarrow> string option \<Rightarrow> py_error + bool) \<Rightarrow> pyfloat \<Rightarrow> pyfloat \<Rightarrow>
     exchange_order list \<Rightarrow> order_store \<Rightarrow> order_pass \<times> (py_error + nat)" where
  "reconcile_orders tx c arrange cancel mt wt exch s =
     (let L = locals_by_coid (adapter_open_orders mt wt s); X = exchange_by_coid exch;
          ps1 = foldl (ghost_order_step s c X) \<lparr>op_writes = [], op_cancels = [], op_discs = [], op_healed = 0\<rparr> L;
          ps2 = foldl (orphan_order_step cancel c L) ps1 X
      in case until_error (fill_mismatch_step s tx c L X) ps2 (arrange (filter (d_has X) (d_keys L))) of
           (ps3, Some e) \<Rightarrow> (ps3, Inl e)
         | (ps3, None) \<Rightarrow> (ps3, Inr (length L + length X)))"

section \<open>A whole run\<close>

record recon_result =
  rr_discrepancies :: "discrepancy list"
  rr_orders_checked :: nat
  rr_positions_checked :: nat
  rr_symbols_checked :: nat
  rr_healing_actions :: nat

record recon_worker =
  rw_last_result :: "recon_result option"
  rw_total_runs :: nat
  rw_total_discrepancies :: nat
  rw_total_healed :: nat

definition recon_worker_init :: recon_worker where
  "recon_worker_init = \<lparr>rw_last_result = None, rw_total_runs = 0, rw_total_discrepancies = 0, rw_total_healed = 0\<rparr>"

record recon_env =
  re_codec :: text_codec
  re_config :: recon_config
  re_set_order :: "string list \<Rightarrow> string list"
  re_cancel :: "string \<Rightarrow> string option \<Rightarrow> py_error + bool"
  re_fallback_key :: "string \<Rightarrow> string \<Rightarrow> pyfloat \<Rightarrow> string"

text \<open>What a run reads from outside: the clock and the exchange's answers, either of which can be an exception.\<close>

record run_inputs =
  ri_now :: pyfloat
  ri_orders :: "py_error + exchange_order list"
  ri_positions :: "py_error + details list"

record recon_state =
  rs_orders :: order_store
  rs_positions :: state_manager
  rs_worker :: recon_worker

definition finish_run :: "recon_worker \<Rightarrow> recon_result \<Rightarrow> recon_worker" where
  "finish_run w r = \<lparr>rw_last_result = Some r, rw_total_runs = Suc (rw_total_runs w),
     rw_total_discrepancies = rw_total_discrepancies w + length (rr_discrepancies r),
     rw_total_healed = rw_total_healed w + rr_healing_actions r\<rparr>"

definition order_phase :: "recon_env \<Rightarrow> run_inputs \<Rightarrow> order_store \<Rightarrow> order_pass \<times> (py_error + nat)" where
  "order_phase env inp s = (case ri_orders inp of
       Inl e \<Rightarrow> (\<lparr>op_writes = [], op_cancels = [], op_discs = [], op_healed = 0\<rparr>, Inl e)
     | Inr xs \<Rightarrow> reconcile_orders (re_codec env) (re_config env) (re_set_order env) (re_cancel env) (ri_now inp) (ri_now inp) xs s)"

text \<open>An exception anywhere ends the checking: what was found before it is kept only if it came from the finished order pass.\<close>

definition position_phase ::
  "recon_env \<Rightarrow> run_inputs \<Rightarrow> order_pass \<times> (py_error + nat) \<Rightarrow> state_manager \<Rightarrow> state_manager \<times> recon_result" where
  "position_phase env inp orders m =
     (let found = (\<lambda>ds n k syms h. \<lparr>rr_discrepancies = ds, rr_orders_checked = n, rr_positions_checked = k, rr_symbols_checked = syms,
            rr_healing_actions = h\<rparr>); ps = fst orders
      in case snd orders of
           Inl e \<Rightarrow> (m, found [] 0 0 0 0)
         | Inr n \<Rightarrow>
             (case ri_positions inp of
                Inl e \<Rightarrow> (m, found (op_discs ps) n 0 0 (op_healed ps))
              | Inr exch \<Rightarrow>
                  (case reconcile_positions manager_store (re_codec env) (re_config env) (re_set_order env) exch m of
                     (m', Inl e) \<Rightarrow> (m', found (op_discs ps) n 0 0 (op_healed ps))
                   | (m', Inr (ds, h, k)) \<Rightarrow>
                       (m', found (op_discs ps @ ds) n k (length (remdups (map di_symbol (op_discs ps @ ds)))) (op_healed ps + h)))))"

definition reconcile :: "recon_env \<Rightarrow> run_inputs \<Rightarrow> recon_state \<Rightarrow> recon_state \<times> recon_result" where
  "reconcile env inp st =
     (let orders = order_phase env inp (rs_orders st); (m', r) = position_phase env inp orders (rs_positions st)
      in (\<lparr>rs_orders = apply_writes (re_fallback_key env) (ri_now inp) (op_writes (fst orders)) (rs_orders st), rs_positions = m',
           rs_worker = finish_run (rs_worker st) r\<rparr>, r))"

section \<open>What the order query answers\<close>

text \<open>Per symbol the adapter tries its candidate spellings; the first answer counts, and when all fail there are no rows.  The rows
  are taken as already normalised.\<close>

fun fetch_open_orders_for_symbol :: "(py_error + exchange_order list option) list \<Rightarrow> exchange_order list" where
  "fetch_open_orders_for_symbol [] = []"
| "fetch_open_orders_for_symbol (Inl e # rest) = fetch_open_orders_for_symbol rest"
| "fetch_open_orders_for_symbol (Inr rows # rest) = opt_list rows"

text \<open>With configured symbols and a client; on Bybit an empty result falls back to a direct request.\<close>

definition client_open_orders ::
  "(py_error + exchange_order list option) list list \<Rightarrow> bool \<Rightarrow> exchange_order list \<Rightarrow> exchange_order list" where
  "client_open_orders attempts is_bybit direct =
     (let out = concat (map fetch_open_orders_for_symbol attempts) in if out = [] \<and> is_bybit then direct else out)"

section \<open>Writing to the store\<close>

lemma record_order_shape:
  "record_order fmt s a now = (s\<lparr>os_orders := d_put (os_orders s) (order_key fmt a) (snd (record_order fmt s a now))\<rparr>,
     snd (record_order fmt s a now))"
  by (simp add: record_order_def Let_def)

lemma record_order_local:
  "d_get (os_orders s) (order_key fmt a) = d_get (os_orders s') (order_key fmt a) \<Longrightarrow> os_max_history s = os_max_history s' \<Longrightarrow>
     snd (record_order fmt s a now) = snd (record_order fmt s' a now)"
  by (simp add: record_order_def Let_def)

lemma write_get:
  "d_get (os_orders (fst (record_order fmt s a now))) k =
     (if k = order_key fmt a then Some (snd (record_order fmt s a now)) else d_get (os_orders s) k)"
  by (subst record_order_shape) simp

lemma write_max [simp]: "os_max_history (fst (record_order fmt s a now)) = os_max_history s"
  by (subst record_order_shape) simp

lemma persist_get:
  "d_get (os_orders (persist_write fmt now s a)) k =
     (if k = order_key fmt a then Some (snd (record_order fmt s a now)) else d_get (os_orders s) k)"
  by (simp add: persist_write_def record_intent_def write_get Let_def)

lemma persist_max [simp]: "os_max_history (persist_write fmt now s a) = os_max_history s"
  by (simp add: persist_write_def record_intent_def Let_def)

lemma apply_writes_Cons: "apply_writes fmt now (a # ws) s = apply_writes fmt now ws (persist_write fmt now s a)"
  by (simp add: apply_writes_def)

lemma writes_elsewhere:
  "k \<notin> order_key fmt ` set ws \<Longrightarrow> d_get (os_orders (apply_writes fmt now ws s)) k = d_get (os_orders s) k \<and>
     os_max_history (apply_writes fmt now ws s) = os_max_history s"
proof (induction ws arbitrary: s)
  case (Cons a ws)
  then show ?case by (simp add: apply_writes_Cons persist_get)
qed (simp add: apply_writes_def)

text \<open>Writes under distinct keys do not see each other.\<close>

lemma writes_distinct:
  assumes "distinct (map (order_key fmt) ws)" and "a \<in> set ws"
  shows "d_get (os_orders (apply_writes fmt now ws s)) (order_key fmt a) = Some (snd (record_order fmt s a now))"
  using assms
proof (induction ws arbitrary: s)
  case (Cons b ws)
  show ?case
  proof (cases "a = b")
    case True
    then have "order_key fmt a \<notin> order_key fmt ` set ws" using Cons.prems(1) by auto
    with writes_elsewhere [OF this, of now "persist_write fmt now s b"] True show ?thesis
      by (simp add: apply_writes_Cons persist_get)
  next
    case False
    then have a: "a \<in> set ws" using Cons.prems(2) by simp
    have "order_key fmt a \<noteq> order_key fmt b" using Cons.prems(1) a by (auto simp: image_iff)
    then have "snd (record_order fmt (persist_write fmt now s b) a now) = snd (record_order fmt s a now)"
      by (intro record_order_local) (simp_all add: persist_get)
    with Cons.IH [OF _ a, of "persist_write fmt now s b"] Cons.prems(1) show ?thesis by (simp add: apply_writes_Cons)
  qed
qed simp

lemma refused_write: 
  assumes "d_get (os_orders s) (order_key fmt a) = Some r" "or_history r \<noteq> []"
    "\<not> accepts_update r (normalize_order_status (Some (ra_status a))) (fo_or (ra_timestamp a) now) (ra_source a)"
  shows "fst (record_order fmt s a now) = s"
  using assms by (simp add: record_order_def Let_def d_put_same)

lemma refused_writes: "(\<And>a. a \<in> set ws \<Longrightarrow> persist_write fmt now s a = s) \<Longrightarrow> apply_writes fmt now ws s = s"
  by (induction ws) (simp_all add: apply_writes_def)

section \<open>Stores whose orders the adapter can find\<close>

text \<open>Every order has a client id of its own and is kept under its exchange id, or under the client id when it has none.\<close>

definition findable :: "order_store \<Rightarrow> bool" where
  "findable s = (d_wf (os_orders s) \<and> distinct (map (\<lambda>x. or_client_order_id (snd x)) (os_orders s)) \<and>
     list_all (\<lambda>(k, r). or_history r \<noteq> [] \<and> or_symbol r \<noteq> [] \<and> s_truthy (or_client_order_id r) \<and>
       (if s_truthy (or_order_id r) then or_order_id r = Some k else or_client_order_id r = Some k)) (os_orders s))"

lemma findableD:
  assumes "findable s" "(k, r) \<in> set (os_orders s)"
  shows "or_history r \<noteq> []" "or_symbol r \<noteq> []" "\<exists>cid. or_client_order_id r = Some cid \<and> cid \<noteq> []"
    "if s_truthy (or_order_id r) then or_order_id r = Some k else or_client_order_id r = Some k"
proof -
  have all: "or_history r \<noteq> [] \<and> or_symbol r \<noteq> [] \<and> s_truthy (or_client_order_id r) \<and>
       (if s_truthy (or_order_id r) then or_order_id r = Some k else or_client_order_id r = Some k)"
    using assms by (auto simp: findable_def list_all_iff)
  then show "or_history r \<noteq> []" "or_symbol r \<noteq> []" "\<exists>cid. or_client_order_id r = Some cid \<and> cid \<noteq> []"
    "if s_truthy (or_order_id r) then or_order_id r = Some k else or_client_order_id r = Some k"
    by (auto simp: s_truthy_def split: option.splits)
qed

lemma find_client:
  assumes "findable s" "(k, r) \<in> set (os_orders s)" "or_client_order_id r = Some cid"
  shows "adapter_get_order s cid = Some r"
proof -
  have "distinct (map (\<lambda>x. or_client_order_id (snd x)) d) \<Longrightarrow> (k, r) \<in> set d \<Longrightarrow>
      find (\<lambda>r. or_client_order_id r = Some cid) (map snd d) = Some r" for d
    using assms(3) by (induction d) (auto simp: rev_image_eqI)
  with assms show ?thesis by (simp add: adapter_get_order_def list_orders_def d_vals_def findable_def)
qed

text \<open>The write the adapter makes for an order of the store goes back to that order's key.\<close>

lemma write_of_record:
  assumes "findable s" "(k, r) \<in> set (os_orders s)" "or_client_order_id r = Some cid"
    and "mo_symbol mo = or_symbol r" "id_client_order_id (mo_identity mo) = cid"
  shows "\<exists>a. queue_write s mo = [a] \<and> order_key fmt a = k \<and> ra_status a = order_state_value (mo_state mo) \<and>
     ra_source a = Some ''reconciliation'' \<and> ra_timestamp a = None \<and> ra_filled_size a = Some (mo_filled_qty mo)"
  using findableD [OF assms(1,2)] find_client [OF assms(1-3)] assms(3-5)
  by (auto simp: queue_write_def adapter_update_order_def Let_def order_key_def s_truthy_def split: if_splits option.splits)

lemma managed_fields [simp]:
  "mo_symbol (managed_of_record mt wt r) = or_symbol r" "mo_state (managed_of_record mt wt r) = NEW"
  "mo_filled_qty (managed_of_record mt wt r) = fo_or (or_filled_size r) 0"
  "id_client_order_id (mo_identity (managed_of_record mt wt r)) = text_or (or_client_order_id r) (text_or (or_order_id r) ''unknown'')"
  by (simp_all add: managed_of_record_def mk_order_def Let_def)

text \<open>The local orders of a pass, by client id.\<close>

definition open_records :: "order_store \<Rightarrow> (string \<times> order_record) list" where
  "open_records s = filter (\<lambda>x. is_open_status (Some (or_status (snd x)))) (os_orders s)"

definition client_id :: "order_record \<Rightarrow> string" where
  "client_id r = text_or (or_client_order_id r) (text_or (or_order_id r) ''unknown'')"

lemma client_id_eq: "findable s \<Longrightarrow> (k, r) \<in> set (os_orders s) \<Longrightarrow> or_client_order_id r = Some (client_id r)"
  using findableD(3) [of s k r] by (auto simp: client_id_def text_or_def s_truthy_def)

lemma distinct_client_ids: "findable s \<Longrightarrow> distinct (map (\<lambda>x. client_id (snd x)) (open_records s))"
proof -
  assume f: "findable s"
  have "map (\<lambda>x. or_client_order_id (snd x)) (os_orders s) = map Some (map (\<lambda>x. client_id (snd x)) (os_orders s))"
    using client_id_eq [OF f] by auto
  with f have "distinct (map Some (map (\<lambda>x. client_id (snd x)) (os_orders s)))" by (simp add: findable_def del: map_map)
  then have "distinct (map (\<lambda>x. client_id (snd x)) (os_orders s))" by (simp only: distinct_map)
  then show ?thesis by (simp add: open_records_def distinct_map_filter)
qed

lemma local_orders:
  "findable s \<Longrightarrow> locals_by_coid (adapter_open_orders mt wt s) =
     map (\<lambda>x. (client_id (snd x), managed_of_record mt wt (snd x))) (open_records s)"
  using fold_put_distinct [of "\<lambda>mo. id_client_order_id (mo_identity mo)" "adapter_open_orders mt wt s" "[]" "\<lambda>mo. mo"]
    distinct_client_ids [of s]
  by (simp add: locals_by_coid_def adapter_open_orders_def list_orders_def d_vals_def open_records_def filter_map comp_def
      client_id_def)

section \<open>Refused heals\<close>

lemma statuses_facts:
  "normalize_order_status (Some ''new'') = ''pending''" "normalize_order_status (Some ''canceled'') = ''canceled''"
  "\<not> is_valid_transition (Some ''open'') (Some ''pending'')" "\<not> is_valid_transition (Some ''partially_filled'') (Some ''pending'')"
  "\<not> is_terminal_text (Some ''pending'')" "is_terminal_text (Some ''canceled'')"
  "\<not> is_terminal_text (Some ''open'')" "\<not> is_terminal_text (Some ''partially_filled'')" "py_lower ''new'' = ''new''"
  by code_simp+

lemma open_cancels: "is_open_status (Some st) \<Longrightarrow> is_valid_transition (Some st) (Some ''canceled'')"
  by (auto simp: is_open_status_def is_valid_transition_def Let_def statuses_facts) 

lemma fill_write_refused:
  assumes "findable s" "(k, r) \<in> set (os_orders s)" "or_status r = ''open'' \<or> or_status r = ''partially_filled''"
    and "mo_symbol mo = or_symbol r" "id_client_order_id (mo_identity mo) = client_id r" "mo_state mo = NEW" "a \<in> set (queue_write s mo)"
  shows "persist_write fmt now s a = s"
proof -
  obtain b where b: "queue_write s mo = [b]" "order_key fmt b = k" "ra_status b = ''new''" "ra_source b = Some ''reconciliation''"
    using write_of_record [OF assms(1,2) client_id_eq [OF assms(1,2)] assms(4,5), of fmt] assms(6) by auto
  have "d_get (os_orders s) k = Some r" using assms(1,2) by (simp add: findable_def d_mem_get)
  moreover have "\<not> accepts_update r ''pending'' (fo_or (ra_timestamp b) now) (ra_source b)"
    using findableD(1) [OF assms(1,2)] assms(3) b(4) by (auto simp: accepts_update_def statuses_facts)
  ultimately show ?thesis using findableD(1) [OF assms(1,2)] b assms(7)
      refused_write [of s fmt b r now] by (simp add: statuses_facts persist_write_def Let_def)
qed

lemma until_error_inv: "(\<And>ps x. I ps \<Longrightarrow> I (fst (step ps x))) \<Longrightarrow> I ps \<Longrightarrow> I (fst (until_error step ps xs))"
proof (induction xs arbitrary: ps)
  case (Cons x xs)
  then have "I (fst (step ps x))" by blast
  with Cons.IH [OF Cons.prems(1)] show ?case by (cases "step ps x") (auto split: option.split)
qed simp

lemma foldl_inv: "(\<And>ps x. x \<in> set xs \<Longrightarrow> I ps \<Longrightarrow> I (step ps x)) \<Longrightarrow> I ps \<Longrightarrow> I (foldl step ps xs)"
  by (induction xs arbitrary: ps) auto

lemma reconcile_orders_inv:
  assumes "\<And>ps x. x \<in> set (locals_by_coid (adapter_open_orders mt wt s)) \<Longrightarrow> I ps \<Longrightarrow> I (ghost_order_step s c (exchange_by_coid exch) ps x)"
    and "\<And>ps x. I ps \<Longrightarrow> I (orphan_order_step cancel c (locals_by_coid (adapter_open_orders mt wt s)) ps x)"
    and "\<And>ps x. I ps \<Longrightarrow> I (fst (fill_mismatch_step s tx c (locals_by_coid (adapter_open_orders mt wt s)) (exchange_by_coid exch) ps x))"
    and "I \<lparr>op_writes = [], op_cancels = [], op_discs = [], op_healed = 0\<rparr>"
  shows "I (fst (reconcile_orders tx c arrange cancel mt wt exch s))"
proof -
  let ?L = "locals_by_coid (adapter_open_orders mt wt s)" and ?X = "exchange_by_coid exch"
  let ?ps2 = "foldl (orphan_order_step cancel c ?L) (foldl (ghost_order_step s c ?X)
      \<lparr>op_writes = [], op_cancels = [], op_discs = [], op_healed = 0\<rparr> ?L) ?X"
  let ?run = "until_error (fill_mismatch_step s tx c ?L ?X) ?ps2 (arrange (filter (d_has ?X) (d_keys ?L)))"
  have 1: "I (foldl (ghost_order_step s c ?X) \<lparr>op_writes = [], op_cancels = [], op_discs = [], op_healed = 0\<rparr> ?L)"
    by (rule foldl_inv [where I = I, OF assms(1) assms(4)])
  have 2: "I ?ps2" by (rule foldl_inv [where I = I, OF _ 1]) (rule assms(2))
  have "I (fst ?run)" by (rule until_error_inv [where I = I, OF assms(3) 2])
  moreover have "fst (reconcile_orders tx c arrange cancel mt wt exch s) = fst ?run"
    by (simp add: reconcile_orders_def Let_def split: prod.split option.split)
  ultimately show ?thesis by simp
qed

section \<open>Accounts of a pass\<close>

text \<open>Repairs never outnumber discrepancies; without healing there are no repairs, writes or cancellations.\<close>

lemma order_pass_accounts:
  "let ps = fst (reconcile_orders tx c arrange cancel mt wt exch s)
   in op_healed ps \<le> length (op_discs ps) \<and> (\<not> rc_heal c \<longrightarrow> op_writes ps = [] \<and> op_cancels ps = [] \<and> op_healed ps = 0)"
proof -
  let ?I = "\<lambda>ps. op_healed ps \<le> length (op_discs ps) \<and> (\<not> rc_heal c \<longrightarrow> op_writes ps = [] \<and> op_cancels ps = [] \<and> op_healed ps = 0)"
  have "?I (fst (reconcile_orders tx c arrange cancel mt wt exch s))"
  proof (rule reconcile_orders_inv)
    show "?I (ghost_order_step s c X ps x)" if "?I ps" for X ps x
      using that by (simp add: ghost_order_step_def found_order_def Let_def)
    show "?I (orphan_order_step cancel c L ps x)" if "?I ps" for L ps x
      using that by (auto simp: orphan_order_step_def Let_def)
    show "?I (fst (fill_mismatch_step s tx c L X ps x))" if "?I ps" for L X ps x
      using that by (auto simp: fill_mismatch_step_def found_order_def Let_def split: option.split sum.split)
  qed simp
  then show ?thesis by (simp add: Let_def)
qed

lemma found_accounts:
  "rp_healed ps \<le> length (rp_discs ps) \<and> (\<not> rc_heal c \<longrightarrow> rp_store ps = s \<and> rp_healed ps = 0) \<Longrightarrow>
   rp_healed (found c ps ty sy loc ex repair act) \<le> length (rp_discs (found c ps ty sy loc ex repair act)) \<and>
   (\<not> rc_heal c \<longrightarrow> rp_store (found c ps ty sy loc ex repair act) = s \<and> rp_healed (found c ps ty sy loc ex repair act) = 0)"
  by (simp add: found_def Let_def)

lemma position_pass_accounts:
  "case snd (reconcile_positions P tx c arrange exch s) of Inl e \<Rightarrow> True | Inr (ds, h, n) \<Rightarrow> h \<le> length ds \<and> (\<not> rc_heal c \<longrightarrow> h = 0)"
  "\<not> rc_heal c \<Longrightarrow> fst (reconcile_positions P tx c arrange exch s) = s"
proof -
  let ?I = "\<lambda>ps. rp_healed ps \<le> length (rp_discs ps) \<and> (\<not> rc_heal c \<longrightarrow> rp_store ps = s \<and> rp_healed ps = 0)"
  let ?D = "st_all P s" and ?X = "exchange_by_symbol tx exch"
  let ?ps1 = "foldl (ghost_position_step P c ?X) \<lparr>rp_store = s, rp_discs = [], rp_healed = 0\<rparr> ?D"
  let ?r2 = "until_error (orphan_position_step P tx c ?D) ?ps1 ?X"
  let ?r3 = "until_error (size_mismatch_step P tx c (locals_by_symbol ?D) ?X) (fst ?r2)
      (arrange (filter (d_has ?X) (d_keys (locals_by_symbol ?D))))"
  have ghost: "?I (ghost_position_step P c X ps x)" if "?I ps" for X ps x
    using that found_accounts [OF that] by (simp add: ghost_position_step_def Let_def)
  have orphan: "?I (fst (orphan_position_step P tx c D ps x))" if "?I ps" for D ps x
    using that found_accounts [OF that] by (simp add: orphan_position_step_def Let_def split: sum.split)
  have mismatch: "?I (fst (size_mismatch_step P tx c L X ps x))" if "?I ps" for L X ps x
    using that found_accounts [OF that] by (simp add: size_mismatch_step_def Let_def split: sum.split option.split prod.split)
  have 1: "?I ?ps1" by (rule foldl_inv [where I = ?I, OF ghost]) simp_all
  have 2: "?I (fst ?r2)" by (rule until_error_inv [where I = ?I, OF orphan 1])
  have 3: "?I (fst ?r3)" by (rule until_error_inv [where I = ?I, OF mismatch 2])
  have "reconcile_positions P tx c arrange exch s = (case snd ?r2 of Some e \<Rightarrow> (rp_store (fst ?r2), Inl e)
      | None \<Rightarrow> (case snd ?r3 of Some e \<Rightarrow> (rp_store (fst ?r3), Inl e)
          | None \<Rightarrow> (rp_store (fst ?r3), Inr (rp_discs (fst ?r3), rp_healed (fst ?r3), length ?D + length ?X))))"
    by (auto simp: reconcile_positions_def Let_def case_prod_beta split: option.split)
  with 2 3 show "case snd (reconcile_positions P tx c arrange exch s) of Inl e \<Rightarrow> True | Inr (ds, h, n) \<Rightarrow> h \<le> length ds \<and> (\<not> rc_heal c \<longrightarrow> h = 0)"
    "\<not> rc_heal c \<Longrightarrow> fst (reconcile_positions P tx c arrange exch s) = s"
    by (auto split: option.split)
qed

lemma position_phase_accounts:
  assumes "op_healed (fst q) \<le> length (op_discs (fst q))" "\<not> rc_heal (re_config env) \<longrightarrow> op_healed (fst q) = 0"
  shows "let out = position_phase env inp q m in rr_healing_actions (snd out) \<le> length (rr_discrepancies (snd out)) \<and>
     (\<not> rc_heal (re_config env) \<longrightarrow> rr_healing_actions (snd out) = 0 \<and> fst out = m)"
proof (cases "snd q")
  case (Inr n)
  show ?thesis
  proof (cases "ri_positions inp")
    case (Inr exch)
    obtain m' res where "reconcile_positions manager_store (re_codec env) (re_config env) (re_set_order env) exch m = (m', res)" by force
    with assms Inr \<open>snd q = Inr n\<close> position_pass_accounts [where P = manager_store and tx = "re_codec env" and c = "re_config env"
        and arrange = "re_set_order env" and exch = exch and s = m]
    show ?thesis by (cases res) (auto simp: position_phase_def Let_def)
  qed (use assms Inr in \<open>simp add: position_phase_def Let_def\<close>)
qed (use assms in \<open>simp add: position_phase_def Let_def\<close>)

lemma run_accounts:
  "let st' = fst (reconcile env inp st); r = snd (reconcile env inp st); w = rs_worker st; w' = rs_worker st'
   in rw_total_runs w' = Suc (rw_total_runs w) \<and> rw_total_healed w' = rw_total_healed w + rr_healing_actions r \<and>
     rw_total_discrepancies w' = rw_total_discrepancies w + length (rr_discrepancies r) \<and>
     rr_healing_actions r \<le> length (rr_discrepancies r) \<and>
     (\<not> rc_heal (re_config env) \<longrightarrow> rr_healing_actions r = 0 \<and> rs_orders st' = rs_orders st \<and> rs_positions st' = rs_positions st)"
proof -
  let ?q = "order_phase env inp (rs_orders st)" and ?c = "re_config env"
  have q: "op_healed (fst ?q) \<le> length (op_discs (fst ?q)) \<and> (\<not> rc_heal ?c \<longrightarrow> op_writes (fst ?q) = [] \<and> op_healed (fst ?q) = 0)"
    using order_pass_accounts [of "re_codec env" ?c "re_set_order env" "re_cancel env" "ri_now inp" "ri_now inp" _ "rs_orders st"]
    by (auto simp: order_phase_def Let_def split: sum.split)
  have "let (m', r) = position_phase env inp ?q (rs_positions st) in rr_healing_actions r \<le> length (rr_discrepancies r) \<and>
      (\<not> rc_heal ?c \<longrightarrow> rr_healing_actions r = 0 \<and> m' = rs_positions st)"
    using q position_phase_accounts by (simp add: Let_def case_prod_beta)
  with q show ?thesis
    by (auto simp: reconcile_def Let_def finish_run_def apply_writes_def split: prod.splits)
qed

section \<open>Cancelling ghosts\<close>

lemma ghost_writes:
  "rc_heal c \<Longrightarrow> op_writes (foldl (ghost_order_step s c []) ps L) = op_writes ps @
     concat (map (\<lambda>x. if out_of_scope c (canonical_key (Some (mo_symbol (snd x)))) then []
                     else queue_write s ((snd x)\<lparr>mo_state := CANCELED\<rparr>)) L)"
  by (induction L arbitrary: ps) (simp_all add: ghost_order_step_def found_order_def Let_def d_has_def)

text \<open>The write that cancels an order of the store.\<close>

definition cancel_write :: "order_store \<Rightarrow> pyfloat \<Rightarrow> pyfloat \<Rightarrow> order_record \<Rightarrow> record_args" where
  "cancel_write s mt wt r = hd (queue_write s ((managed_of_record mt wt r)\<lparr>mo_state := CANCELED\<rparr>))"

lemma cancel_write_props:
  assumes "findable s" "(k, r) \<in> set (os_orders s)"
  shows "queue_write s ((managed_of_record mt wt r)\<lparr>mo_state := CANCELED\<rparr>) = [cancel_write s mt wt r]"
    "order_key fmt (cancel_write s mt wt r) = k" "ra_status (cancel_write s mt wt r) = ''canceled''"
    "ra_timestamp (cancel_write s mt wt r) = None"
  using write_of_record [OF assms client_id_eq [OF assms], of "(managed_of_record mt wt r)\<lparr>mo_state := CANCELED\<rparr>" fmt]
  by (auto simp: cancel_write_def client_id_def)

lemma unanswered_writes:
  assumes "findable s" "rc_heal c"
  shows "op_writes (foldl (ghost_order_step s c []) \<lparr>op_writes = [], op_cancels = [], op_discs = [], op_healed = 0\<rparr>
      (locals_by_coid (adapter_open_orders mt wt s))) =
    map (\<lambda>x. cancel_write s mt wt (snd x)) (filter (\<lambda>x. \<not> out_of_scope c (canonical_key (Some (or_symbol (snd x))))) (open_records s))"
proof -
  have "set rs \<subseteq> set (os_orders s) \<Longrightarrow>
      concat (map (\<lambda>x. if out_of_scope c (canonical_key (Some (or_symbol (snd x)))) then []
        else queue_write s ((managed_of_record mt wt (snd x))\<lparr>mo_state := CANCELED\<rparr>)) rs) =
      map (\<lambda>x. cancel_write s mt wt (snd x)) (filter (\<lambda>x. \<not> out_of_scope c (canonical_key (Some (or_symbol (snd x))))) rs)" for rs
    using cancel_write_props(1) [OF assms(1)] by (induction rs) auto
  from this [of "open_records s"] show ?thesis
    by (simp add: ghost_writes [OF assms(2)] local_orders [OF assms(1)] comp_def open_records_def cong: if_cong)
qed

section \<open>Sample inputs\<close>

text \<open>One live order, which the exchange lists with a fill.\<close>

definition live_store :: order_store where
  "live_store = store_run plain_key 200 [SRecord (sample_args\<lparr>ra_status := ''open''\<rparr>) 1]"

definition listed_order :: exchange_order where
  "listed_order = \<lparr>xo_client_order_id = Some ''c1'', xo_order_id = Some ''x9'', xo_symbol = Some ''BTC'', xo_status = Some ''open'',
     xo_qty = PNum 2, xo_cum_exec_qty = PNum 1\<rparr>"

lemma live_store_ok: "findable live_store"
  "map (\<lambda>x. (fst x, or_status (snd x), client_id (snd x), map su_timestamp (or_history (snd x)))) (open_records live_store) =
     [(''c1'', ''open'', ''c1'', [1])]"
  by code_simp+

section \<open>Properties\<close>

text \<open>C26: Healed fills of live orders never land: when every open order of the store is open or partially filled and is also open on the
  exchange, the writes of a pass leave the order store exactly as it was, so every later pass finds and counts the same
  fill discrepancies again.\<close>

theorem fill_heals_never_land:
  assumes "findable s" and "list_all (\<lambda>x. or_status (snd x) = ''open'' \<or> or_status (snd x) = ''partially_filled'') (open_records s)"
    and "list_all (\<lambda>x. d_has (exchange_by_coid exch) (client_id (snd x))) (open_records s)"
  shows "apply_writes fmt now (op_writes (fst (reconcile_orders tx c arrange cancel mt wt exch s))) s = s"
proof (rule refused_writes)
  fix a
  let ?L = "locals_by_coid (adapter_open_orders mt wt s)"
  let ?I = "\<lambda>ps. \<forall>a \<in> set (op_writes ps). persist_write fmt now s a = s"
  have L: "\<exists>k r. mo = managed_of_record mt wt r \<and> coid = client_id r \<and> (k, r) \<in> set (os_orders s) \<and>
      (or_status r = ''open'' \<or> or_status r = ''partially_filled'') \<and> d_has (exchange_by_coid exch) coid" if "(coid, mo) \<in> set ?L" for coid mo
    using that assms by (fastforce simp: local_orders open_records_def list_all_iff)
  have "?I (fst (reconcile_orders tx c arrange cancel mt wt exch s))"
  proof (rule reconcile_orders_inv)
    show "?I (ghost_order_step s c (exchange_by_coid exch) ps x)" if "x \<in> set ?L" "?I ps" for ps x
      using that L [of "fst x" "snd x"] by (auto simp: ghost_order_step_def Let_def)
    show "?I (orphan_order_step cancel c ?L ps x)" if "?I ps" for ps x
      using that by (simp add: orphan_order_step_def Let_def)
    show "?I (fst (fill_mismatch_step s tx c ?L (exchange_by_coid exch) ps coid))" if I: "?I ps" for ps coid
    proof (cases "d_get ?L coid")
      case (Some mo)
      then obtain k r where r: "mo = managed_of_record mt wt r" "(k, r) \<in> set (os_orders s)"
        "or_status r = ''open'' \<or> or_status r = ''partially_filled''" using L d_get_mem by metis
      have "persist_write fmt now s a = s" if "a \<in> set (queue_write s (mo\<lparr>mo_filled_qty := x\<rparr>))" for a x
        by (rule fill_write_refused [OF assms(1) r(2,3) _ _ _ that]) (simp_all add: r(1) client_id_def)
      with I Some show ?thesis
        by (auto simp: fill_mismatch_step_def Let_def found_order_def split: option.split sum.split)
    qed (use I in \<open>simp add: fill_mismatch_step_def\<close>)
  qed simp
  then show "a \<in> set (op_writes (fst (reconcile_orders tx c arrange cancel mt wt exch s))) \<Longrightarrow> persist_write fmt now s a = s" by blast
qed

theorem fill_heals_never_land_witness:
  "apply_writes plain_key 5 (op_writes (fst (reconcile_orders plain_codec default_recon_config (\<lambda>xs. xs) (\<lambda>sy oid. Inr True) 5 5
     [listed_order] live_store))) live_store = live_store"
proof -
  have "exchange_by_coid [listed_order] = [(''c1'', listed_order)]"
    by (simp add: exchange_by_coid_def listed_order_def s_truthy_def)
  with live_store_ok show ?thesis
    by (intro fill_heals_never_land) (auto simp: map_eq_Cons_conv d_has_def)
qed

text \<open>A failed order query cancels the books: when every attempt to fetch open orders fails, a healing pass marks every open
  order in scope as canceled in the order store, though the orders may still be live on the exchange.\<close>

theorem failed_query_cancels_orders:
  assumes "findable s" and "rc_heal c" and "visits_each arrange" and "list_all (list_all (\<lambda>r. case r of Inl e \<Rightarrow> True | Inr _ \<Rightarrow> False)) attempts"
    and "(k, r) \<in> set (open_records s)" and "\<not> out_of_scope c (canonical_key (Some (or_symbol r)))"
    and "su_timestamp (last (or_history r)) \<le> now"
  shows "map_option or_status (d_get (os_orders (apply_writes fmt now (op_writes (fst (reconcile_orders tx c arrange cancel mt wt
     (client_open_orders attempts is_bybit []) s))) s)) k) = Some ''canceled''"
proof -
  have "fetch_open_orders_for_symbol as = []" if "list_all (\<lambda>r. case r of Inl e \<Rightarrow> True | Inr _ \<Rightarrow> False) as" for as
    using that by (induction as rule: fetch_open_orders_for_symbol.induct) simp_all
  with assms(4) have "concat (map fetch_open_orders_for_symbol attempts) = []" by (simp add: list_all_iff)
  then have none: "client_open_orders attempts is_bybit [] = []" by (simp add: client_open_orders_def)
  let ?rs = "filter (\<lambda>x. \<not> out_of_scope c (canonical_key (Some (or_symbol (snd x))))) (open_records s)"
  let ?ws = "map (\<lambda>x. cancel_write s mt wt (snd x)) ?rs"
  have "arrange [] = []" using assms(3) unfolding visits_each_def by (metis distinct.simps(1) list.set(1) set_empty)
  then have ws: "op_writes (fst (reconcile_orders tx c arrange cancel mt wt [] s)) = ?ws"
    using unanswered_writes [OF assms(1,2), of mt wt] by (simp add: reconcile_orders_def exchange_by_coid_def Let_def d_has_def)
  have mem: "(k, r) \<in> set ?rs" "(k, r) \<in> set (os_orders s)" using assms(5,6) by (auto simp: open_records_def)
  have sub: "set ?rs \<subseteq> set (os_orders s)" by (auto simp: open_records_def)
  note w = cancel_write_props [OF assms(1) mem(2), where mt = mt and wt = wt]
  have keys: "map (order_key fmt) ?ws = map fst ?rs" using cancel_write_props(2) [OF assms(1)] sub by (auto simp: subset_iff)
  have "distinct (map (order_key fmt) ?ws)"
    unfolding keys using assms(1) by (simp add: findable_def open_records_def distinct_map_filter)
  moreover have "cancel_write s mt wt r \<in> set ?ws" using mem(1) by force
  ultimately have "d_get (os_orders (apply_writes fmt now ?ws s)) (order_key fmt (cancel_write s mt wt r)) =
      Some (snd (record_order fmt s (cancel_write s mt wt r) now))" by (rule writes_distinct)
  moreover have "d_get (os_orders s) k = Some r" using assms(1) mem(2) by (simp add: findable_def d_mem_get)
  moreover have "accepts_update r ''canceled'' now src" for src
    using open_cancels [of "or_status r"] assms(5,7) by (auto simp: accepts_update_def open_records_def)
  ultimately show ?thesis unfolding none ws
    by (simp add: w record_order_def Let_def statuses_facts fo_or_def)
qed

theorem failed_query_cancels_orders_witness:
  "map_option or_status (d_get (os_orders (apply_writes plain_key 5 (op_writes (fst (reconcile_orders plain_codec default_recon_config
     (\<lambda>xs. xs) (\<lambda>sy oid. Inr True) 5 5 (client_open_orders [[Inl (OtherError ''timeout''), Inl (OtherError ''timeout'')]] True [])
     live_store))) live_store)) ''c1'') = Some ''canceled''"
proof -
  obtain r where r: "open_records live_store = [(''c1'', r)]" "map su_timestamp (or_history r) = [1]"
    using live_store_ok(2) by (auto simp: map_eq_Cons_conv)
  then show ?thesis
    by (intro failed_query_cancels_orders [OF live_store_ok(1) _ visits_id, where r = r]) auto
qed

text \<open>C27: Accounts of the worker: after any runs from the start, whatever the exchange answers or fails to answer, the runs are counted, the
  repairs counted never exceed the discrepancies counted, and with healing off nothing is repaired and neither orders nor
  positions change.\<close>

theorem reconciliation_accounts:
  "let st = foldl (\<lambda>st inp. fst (reconcile env inp st)) \<lparr>rs_orders = s, rs_positions = m, rs_worker = recon_worker_init\<rparr> inps
   in rw_total_runs (rs_worker st) = length inps \<and>
     rw_total_healed (rs_worker st) \<le> rw_total_discrepancies (rs_worker st) \<and>
     (rc_heal (re_config env) \<or> rw_total_healed (rs_worker st) = 0 \<and> rs_orders st = s \<and> rs_positions st = m)"
proof -
  let ?I = "\<lambda>st n. rw_total_runs (rs_worker st) = n \<and> rw_total_healed (rs_worker st) \<le> rw_total_discrepancies (rs_worker st) \<and>
     (\<not> rc_heal (re_config env) \<longrightarrow> rw_total_healed (rs_worker st) = 0 \<and> rs_orders st = s \<and> rs_positions st = m)"
  have "?I (foldl (\<lambda>st inp. fst (reconcile env inp st)) st inps) (n + length inps)" if "?I st n" for st n
    using that
  proof (induction inps arbitrary: st n)
    case (Cons inp inps)
    have "?I (fst (reconcile env inp st)) (Suc n)" using run_accounts [of env inp st] Cons.prems by (auto simp: Let_def)
    with Cons.IH [of "fst (reconcile env inp st)" "Suc n"] show ?case by simp
  qed simp
  from this [of "\<lparr>rs_orders = s, rs_positions = m, rs_worker = recon_worker_init\<rparr>" 0] show ?thesis
    by (auto simp: recon_worker_init_def Let_def)
qed

end
