(* ===== verification/Guards.thy ===== *)
theory Guards
  imports Py_Strings Machines
begin

text \<open>
  The guarded exchange client (quantgambit/execution/guards.py): a token bucket, a circuit breaker with
  exponential backoff and the wrapper that asks both before a call.  The wrapped client's answers and the clock
  readings are arguments; the text of an exception is an argument too.  Telemetry is left out.
\<close>

section \<open>Rate limiter\<close>

record rate_limiter =
  rl_max_calls_per_sec :: pyfloat
  rl_tokens :: pyfloat
  rl_last_refill :: pyfloat

definition rate_limiter_init :: "pyfloat \<Rightarrow> pyfloat \<Rightarrow> rate_limiter" where
  "rate_limiter_init rate now = \<lparr>rl_max_calls_per_sec = rate, rl_tokens = rate, rl_last_refill = now\<rparr>"

definition limiter_allow :: "rate_limiter \<Rightarrow> pyfloat \<Rightarrow> rate_limiter \<times> bool" where
  "limiter_allow rl now =
     (let elapsed = fsub now (rl_last_refill rl);
          tokens = min (rl_max_calls_per_sec rl) (fadd (rl_tokens rl) (fmul elapsed (rl_max_calls_per_sec rl)));
          rl' = rl\<lparr>rl_last_refill := now, rl_tokens := tokens\<rparr>
      in if 1 \<le> tokens then (rl'\<lparr>rl_tokens := fsub tokens 1\<rparr>, True) else (rl', False))"

section \<open>Circuit breaker\<close>

record circuit_breaker =
  cb_failure_threshold :: int
  cb_reset_after_sec :: pyfloat
  cb_base_reset_sec :: pyfloat
  cb_max_reset_sec :: pyfloat
  cb_failures :: int
  cb_consecutive_trips :: nat
  cb_opened_at :: "pyfloat option"

definition circuit_breaker_init :: "int \<Rightarrow> pyfloat \<Rightarrow> circuit_breaker" where
  "circuit_breaker_init thr reset =
     \<lparr>cb_failure_threshold = thr, cb_reset_after_sec = reset, cb_base_reset_sec = reset,
      cb_max_reset_sec = max (fmul reset 32) 300, cb_failures = 0, cb_consecutive_trips = 0, cb_opened_at = None\<rparr>"

definition breaker_allow :: "circuit_breaker \<Rightarrow> pyfloat \<Rightarrow> circuit_breaker \<times> bool" where
  "breaker_allow b now = (case cb_opened_at b of
       None \<Rightarrow> (b, True)
     | Some t \<Rightarrow> if cb_reset_after_sec b \<le> fsub now t then (b\<lparr>cb_opened_at := None, cb_failures := 0\<rparr>, True) else (b, False))"

definition record_success :: "circuit_breaker \<Rightarrow> circuit_breaker" where
  "record_success b = b\<lparr>cb_failures := 0, cb_consecutive_trips := 0, cb_reset_after_sec := cb_base_reset_sec b, cb_opened_at := None\<rparr>"

text \<open>\<open>base * (2 ** trips)\<close>: the integer is converted to a float, which fails from \<open>2 ** 1024\<close> on.\<close>

definition backoff :: "pyfloat \<Rightarrow> nat \<Rightarrow> py_error + pyfloat" where
  "backoff base trips = (if 1024 \<le> trips then Inl (OtherError ''OverflowError'') else Inr (fmul base (2 ^ trips)))"

text \<open>When the conversion fails the exception leaves the counters increased and the rest as it was.\<close>

definition record_failure :: "circuit_breaker \<Rightarrow> pyfloat \<Rightarrow> circuit_breaker \<times> py_error option" where
  "record_failure b now =
     (let b1 = b\<lparr>cb_failures := cb_failures b + 1\<rparr>
      in if cb_failure_threshold b \<le> cb_failures b1
         then (let b2 = b1\<lparr>cb_consecutive_trips := Suc (cb_consecutive_trips b)\<rparr>
               in case backoff (cb_base_reset_sec b) (cb_consecutive_trips b2) of
                    Inl e \<Rightarrow> (b2, Some e)
                  | Inr r \<Rightarrow> (b2\<lparr>cb_reset_after_sec := min r (cb_max_reset_sec b), cb_opened_at := Some now\<rparr>, None))
         else (b1, None))"

section \<open>The guarded client\<close>

record order_status =
  ot_order_id :: "string option"
  ot_status :: string
  ot_fill_price :: "pyfloat option"
  ot_fee_usd :: "pyfloat option"
  ot_filled_size :: "pyfloat option"
  ot_remaining_size :: "pyfloat option"
  ot_reference_price :: "pyfloat option"
  ot_timestamp :: "pyfloat option"
  ot_source :: "string option"
  ot_reason :: "string option"

record guard_config =
  gc_max_calls_per_sec :: pyfloat
  gc_failure_threshold :: int
  gc_reset_after_sec :: pyfloat

definition default_guard_config :: guard_config where
  "default_guard_config = \<lparr>gc_max_calls_per_sec = 5, gc_failure_threshold = 5, gc_reset_after_sec = 10\<rparr>"

record guarded_client =
  gd_limiter :: rate_limiter
  gd_breaker :: circuit_breaker

definition guarded_client_init :: "guard_config \<Rightarrow> pyfloat \<Rightarrow> guarded_client" where
  "guarded_client_init c now = \<lparr>gd_limiter = rate_limiter_init (gc_max_calls_per_sec c) now,
     gd_breaker = circuit_breaker_init (gc_failure_threshold c) (gc_reset_after_sec c)\<rparr>"

text \<open>A rejection made by the wrapper.\<close>

definition rejected :: "string option \<Rightarrow> string \<Rightarrow> order_status" where
  "rejected oid reason = \<lparr>ot_order_id = oid, ot_status = ''rejected'', ot_fill_price = None, ot_fee_usd = None, ot_filled_size = None,
     ot_remaining_size = None, ot_reference_price = None, ot_timestamp = None, ot_source = None, ot_reason = Some reason\<rparr>"

definition allow_reason :: "guarded_client \<Rightarrow> pyfloat \<Rightarrow> guarded_client \<times> string option" where
  "allow_reason g now =
     (let (rl, ok) = limiter_allow (gd_limiter g) now; g1 = g\<lparr>gd_limiter := rl\<rparr>
      in if \<not> ok then (g1, Some ''rate_limited'')
         else (let (b, closed) = breaker_allow (gd_breaker g) now; g2 = g1\<lparr>gd_breaker := b\<rparr>
               in if closed then (g2, None) else (g2, Some ''circuit_open'')))"

definition failing :: "guarded_client \<Rightarrow> pyfloat \<Rightarrow> guarded_client \<times> py_error option" where
  "failing g now = (let (b, e) = record_failure (gd_breaker g) now in (g\<lparr>gd_breaker := b\<rparr>, e))"

definition record_result :: "guarded_client \<Rightarrow> string \<Rightarrow> pyfloat \<Rightarrow> guarded_client \<times> py_error option" where
  "record_result g status now =
     (let n = py_lower status
      in if n \<in> set [''rejected'', ''failed'', ''expired''] then failing g now
         else if n \<noteq> [] then (g\<lparr>gd_breaker := record_success (gd_breaker g)\<rparr>, None)
         else (g, None))"

definition exchange_error :: "(py_error \<Rightarrow> string) \<Rightarrow> py_error \<Rightarrow> string" where
  "exchange_error show_exc e = ''exchange_error: '' @ take 500 (show_exc e)"

text \<open>After the wrapped call returned or raised: the breaker is told, and its own exception wins.\<close>

definition settle_call ::
  "(py_error \<Rightarrow> string) \<Rightarrow> guarded_client \<Rightarrow> string option \<Rightarrow> py_error + order_status \<Rightarrow> pyfloat \<Rightarrow> guarded_client \<times> (py_error + order_status)" where
  "settle_call show_exc g oid answer now =
     (case answer of
        Inl e \<Rightarrow> (let (g', err) = failing g now
                  in (g', case err of Some x \<Rightarrow> Inl x | None \<Rightarrow> Inr (rejected oid (exchange_error show_exc e))))
      | Inr r \<Rightarrow> (let (g', err) = record_result g (ot_status r) now in (g', case err of Some x \<Rightarrow> Inl x | None \<Rightarrow> Inr r)))"

text \<open>\<open>open_position\<close> and \<open>close_position\<close>; the clock is read before and after the wrapped call.\<close>

definition guarded_submit ::
  "(py_error \<Rightarrow> string) \<Rightarrow> guarded_client \<Rightarrow> pyfloat \<Rightarrow> (py_error + order_status) \<Rightarrow> pyfloat \<Rightarrow> guarded_client \<times> (py_error + order_status)" where
  "guarded_submit show_exc g now answer later =
     (case allow_reason g now of
        (g', Some why) \<Rightarrow> (g', Inr (rejected None why))
      | (g', None) \<Rightarrow> settle_call show_exc g' None answer later)"

text \<open>\<open>cancel_order\<close> and \<open>replace_order\<close>, which the wrapped client need not support.\<close>

definition guarded_amend ::
  "(py_error \<Rightarrow> string) \<Rightarrow> string \<Rightarrow> guarded_client \<Rightarrow> string option \<Rightarrow> string option \<Rightarrow> pyfloat \<Rightarrow> (py_error + order_status) option \<Rightarrow> pyfloat \<Rightarrow>
     guarded_client \<times> (py_error + order_status)" where
  "guarded_amend show_exc unsupported g oid cid now answer later =
     (case allow_reason g now of
        (g', Some why) \<Rightarrow> (g', Inr (rejected (os_or oid cid) ''guard_blocked''))
      | (g', None) \<Rightarrow> (case answer of
          None \<Rightarrow> (g', Inr (rejected (os_or oid cid) unsupported))
        | Some r \<Rightarrow> settle_call show_exc g' (os_or oid cid) r later))"

definition guarded_cancel where
  "guarded_cancel show_exc = guarded_amend show_exc ''cancel_not_supported''"

definition guarded_replace where
  "guarded_replace show_exc = guarded_amend show_exc ''replace_not_supported''"

text \<open>A protective order that returns does not touch the breaker, whatever it returns.\<close>

definition guarded_protective ::
  "guarded_client \<Rightarrow> pyfloat \<Rightarrow> (py_error + bool) option \<Rightarrow> pyfloat \<Rightarrow> guarded_client \<times> (py_error + bool)" where
  "guarded_protective g now answer later =
     (case allow_reason g now of
        (g', Some why) \<Rightarrow> (g', Inr False)
      | (g', None) \<Rightarrow> (case answer of
          None \<Rightarrow> (g', Inr False)
        | Some (Inr ok) \<Rightarrow> (g', Inr ok)
        | Some (Inl e) \<Rightarrow> (let (g'', err) = failing g' later in (g'', case err of Some x \<Rightarrow> Inl x | None \<Rightarrow> Inr False))))"

text \<open>Queries pass the wrapper; a failure counts as no answer.\<close>

definition guarded_fetch :: "(py_error + 'a) \<Rightarrow> 'a option" where
  "guarded_fetch answer = (case answer of Inl e \<Rightarrow> None | Inr x \<Rightarrow> Some x)"

definition guarded_fetch_list :: "(py_error + 'a list) option \<Rightarrow> 'a list" where
  "guarded_fetch_list answer = (case answer of None \<Rightarrow> [] | Some (Inl e) \<Rightarrow> [] | Some (Inr xs) \<Rightarrow> xs)"

section \<open>The token bucket\<close>

definition bucket_ok :: "pyfloat \<Rightarrow> rate_limiter \<Rightarrow> bool" where
  "bucket_ok rate rl = (rl_max_calls_per_sec rl = rate \<and> 0 \<le> rate \<and> is_float rate \<and> 0 \<le> rl_tokens rl \<and> rl_tokens rl \<le> rate)"

lemma bucket_step:
  assumes "bucket_ok rate rl" "rl_last_refill rl \<le> now"
  shows "bucket_ok rate (fst (limiter_allow rl now))" "rl_last_refill (fst (limiter_allow rl now)) = now"
    "snd (limiter_allow rl now) \<Longrightarrow> 1 \<le> rate"
proof -
  let ?t = "min rate (fadd (rl_tokens rl) (fmul (fsub now (rl_last_refill rl)) rate))"
  have "0 \<le> fmul (fsub now (rl_last_refill rl)) rate" using assms by (simp add: fmul_def fsub_def bucket_ok_def)
  then have t: "0 \<le> ?t" "?t \<le> rate" using assms by (simp_all add: bucket_ok_def fadd_def)
  have "fsub ?t 1 \<le> rate" unfolding fsub_def by (rule fl_le) (use assms(1) t in \<open>auto simp: bucket_ok_def\<close>)
  with t assms(1) show "bucket_ok rate (fst (limiter_allow rl now))"
    by (auto simp: limiter_allow_def Let_def bucket_ok_def fsub_def)
  from assms(1) t show "snd (limiter_allow rl now) \<Longrightarrow> 1 \<le> rate"
    by (auto simp: limiter_allow_def Let_def bucket_ok_def split: if_splits)
qed (simp add: limiter_allow_def Let_def)

text \<open>A run of requests and which of them were allowed.\<close>

fun limiter_run :: "rate_limiter \<Rightarrow> pyfloat list \<Rightarrow> rate_limiter \<times> bool list" where
  "limiter_run rl [] = (rl, [])"
| "limiter_run rl (now # ts) = (let (rl1, ok) = limiter_allow rl now; (rl2, oks) = limiter_run rl1 ts in (rl2, ok # oks))"

lemma bucket_run:
  assumes "bucket_ok rate rl" "sorted (rl_last_refill rl # ts)"
  shows "bucket_ok rate (fst (limiter_run rl ts))" "rl_last_refill (fst (limiter_run rl ts)) = last (rl_last_refill rl # ts)"
    "True \<in> set (snd (limiter_run rl ts)) \<Longrightarrow> 1 \<le> rate"
proof -
  have "bucket_ok rate (fst (limiter_run rl ts)) \<and> rl_last_refill (fst (limiter_run rl ts)) = last (rl_last_refill rl # ts) \<and>
      (True \<in> set (snd (limiter_run rl ts)) \<longrightarrow> 1 \<le> rate)"
    using assms
  proof (induction ts arbitrary: rl)
    case (Cons now ts)
    then have "rl_last_refill rl \<le> now" by simp
    note b = bucket_step [OF Cons.prems(1) this]
    from b Cons.prems(2) Cons.IH [OF b(1)] show ?case by (auto simp: case_prod_beta Let_def)
  qed simp
  then show "bucket_ok rate (fst (limiter_run rl ts))" "rl_last_refill (fst (limiter_run rl ts)) = last (rl_last_refill rl # ts)"
    "True \<in> set (snd (limiter_run rl ts)) \<Longrightarrow> 1 \<le> rate" by blast+
qed

text \<open>At one instant nothing is refilled, so each allowed request takes a token from at most \<open>k\<close>.\<close>

lemma instant_burst:
  assumes "bucket_ok rate rl" "rl_tokens rl \<le> of_int k" "0 \<le> k" "k \<le> 2 ^ 53" "list_all (\<lambda>t. t = rl_last_refill rl) ts"
  shows "int (length (filter (\<lambda>ok. ok) (snd (limiter_run rl ts)))) \<le> k"
  using assms
proof (induction ts arbitrary: rl k)
  case (Cons now ts)
  let ?rl = "fst (limiter_allow rl now)" and ?ok = "snd (limiter_allow rl now)"
  have now: "now = rl_last_refill rl" using Cons.prems(5) by simp
  have t: "min rate (fadd (rl_tokens rl) (fmul (fsub now (rl_last_refill rl)) rate)) \<le> of_int k"
  proof -
    have "fadd (rl_tokens rl) 0 \<le> of_int k"
      unfolding fadd_def by (rule fl_le) (use Cons.prems is_float_exact [of k 0] in simp_all)
    then show ?thesis by (simp add: now fsub_def fmul_def)
  qed
  have rl: "bucket_ok rate ?rl" "rl_last_refill ?rl = now" using bucket_step [OF Cons.prems(1), of now] now by simp_all
  have rest: "list_all (\<lambda>t. t = rl_last_refill ?rl) ts" using Cons.prems(5) now rl(2) by simp
  show ?case
  proof (cases ?ok)
    case True
    let ?t = "min rate (fadd (rl_tokens rl) (fmul (fsub now (rl_last_refill rl)) rate))"
    have tk: "rl_tokens ?rl = fsub ?t 1" "1 \<le> ?t"
      using True Cons.prems(1) by (auto simp: limiter_allow_def Let_def bucket_ok_def split: if_splits)
    have "fl (?t - 1) \<le> of_int (k - 1)"
      by (rule fl_le) (use t Cons.prems(3,4) is_float_exact [of "k - 1" 0] in \<open>simp_all add: abs_le_iff\<close>)
    then have "fsub ?t 1 \<le> of_int (k - 1)" by (simp only: fsub_def [of ?t 1])
    moreover have "0 \<le> k - 1" using t tk(2) by (metis of_int_1_le_iff order_trans diff_ge_0_iff_ge)
    ultimately have "int (length (filter (\<lambda>ok. ok) (snd (limiter_run ?rl ts)))) \<le> k - 1"
      using Cons.IH [OF rl(1) _ _ _ rest, of "k - 1"] tk(1) Cons.prems(4) by simp
    with True show ?thesis by (simp add: case_prod_beta Let_def)
  next
    case False
    have "rl_tokens ?rl \<le> of_int k"
      using t False Cons.prems(1) by (auto simp: limiter_allow_def Let_def bucket_ok_def split: if_splits)
    from Cons.IH [OF rl(1) this Cons.prems(3,4) rest] False show ?thesis by (simp add: case_prod_beta Let_def)
  qed
qed simp

section \<open>The breaker\<close>

text \<open>The waiting time for a number of trips.\<close>

definition reset_time :: "circuit_breaker \<Rightarrow> nat \<Rightarrow> pyfloat" where
  "reset_time b n = (if n = 0 then cb_base_reset_sec b else min (fmul (cb_base_reset_sec b) (2 ^ min n 1023)) (cb_max_reset_sec b))"

definition breaker_ok :: "circuit_breaker \<Rightarrow> bool" where
  "breaker_ok b = (0 \<le> cb_base_reset_sec b \<and> is_float (cb_base_reset_sec b) \<and> 0 \<le> cb_failures b \<and>
     cb_max_reset_sec b = max (fmul (cb_base_reset_sec b) 32) 300 \<and> cb_reset_after_sec b = reset_time b (cb_consecutive_trips b))"

lemma base_le_backoff: "0 \<le> x \<Longrightarrow> is_float x \<Longrightarrow> x \<le> fmul x (2 ^ n)"
  unfolding fmul_def by (rule fl_ge) (simp_all add: mult_le_cancel_left1)

lemma reset_time_mono:
  assumes "breaker_ok b" "m \<le> n"
  shows "reset_time b m \<le> reset_time b n"
proof (cases "m = 0")
  case True
  have "cb_base_reset_sec b \<le> fmul (cb_base_reset_sec b) 32"
    using base_le_backoff [of "cb_base_reset_sec b" 5] assms(1) by (simp add: breaker_ok_def)
  with True assms(1) base_le_backoff [of "cb_base_reset_sec b" "min n 1023"] show ?thesis
    by (auto simp: reset_time_def breaker_ok_def)
next
  case False
  have "fmul (cb_base_reset_sec b) (2 ^ min m 1023) \<le> fmul (cb_base_reset_sec b) (2 ^ min n 1023)"
    unfolding fmul_def using assms by (intro fl_mono mult_left_mono power_increasing) (auto simp: breaker_ok_def)
  then have "min (fmul (cb_base_reset_sec b) (2 ^ min m 1023)) (cb_max_reset_sec b) \<le>
      min (fmul (cb_base_reset_sec b) (2 ^ min n 1023)) (cb_max_reset_sec b)" by (rule min.mono) simp
  with False assms(2) show ?thesis by (simp add: reset_time_def)
qed

lemma breaker_init_ok: "0 \<le> reset \<Longrightarrow> is_float reset \<Longrightarrow> breaker_ok (circuit_breaker_init thr reset)"
  by (simp add: breaker_ok_def circuit_breaker_init_def reset_time_def)

lemma reset_time_update [simp]:
  "reset_time (b\<lparr>cb_failures := f\<rparr>) = reset_time b" "reset_time (b\<lparr>cb_consecutive_trips := n\<rparr>) = reset_time b"
  "reset_time (b\<lparr>cb_opened_at := o'\<rparr>) = reset_time b" "reset_time (b\<lparr>cb_reset_after_sec := r\<rparr>) = reset_time b"
  by (simp_all add: reset_time_def fun_eq_iff)

lemma failure_cases:
  assumes "breaker_ok b"
  obtains (below) "cb_failures b + 1 < cb_failure_threshold b" "record_failure b now = (b\<lparr>cb_failures := cb_failures b + 1\<rparr>, None)"
  | (trips) "cb_failure_threshold b \<le> cb_failures b + 1" "Suc (cb_consecutive_trips b) < 1024"
      "record_failure b now = (b\<lparr>cb_failures := cb_failures b + 1, cb_consecutive_trips := Suc (cb_consecutive_trips b),
         cb_reset_after_sec := reset_time b (Suc (cb_consecutive_trips b)), cb_opened_at := Some now\<rparr>, None)"
  | (raises) "cb_failure_threshold b \<le> cb_failures b + 1" "1024 \<le> Suc (cb_consecutive_trips b)"
      "record_failure b now = (b\<lparr>cb_failures := cb_failures b + 1, cb_consecutive_trips := Suc (cb_consecutive_trips b)\<rparr>,
         Some (OtherError ''OverflowError''))"
proof -
  consider "cb_failures b + 1 < cb_failure_threshold b"
    | "cb_failure_threshold b \<le> cb_failures b + 1" "Suc (cb_consecutive_trips b) < 1024"
    | "cb_failure_threshold b \<le> cb_failures b + 1" "1024 \<le> Suc (cb_consecutive_trips b)" by linarith
  then show thesis
  proof cases
    case 1
    then show ?thesis by (intro below) (simp_all add: record_failure_def Let_def)
  next
    case 2
    then have "min (Suc (cb_consecutive_trips b)) 1023 = Suc (cb_consecutive_trips b)" by simp
    then have r: "min (fmul (cb_base_reset_sec b) (2 ^ Suc (cb_consecutive_trips b))) (cb_max_reset_sec b) =
        reset_time b (Suc (cb_consecutive_trips b))" by (simp add: reset_time_def)
    from 2 have "record_failure b now = (b\<lparr>cb_failures := cb_failures b + 1, cb_consecutive_trips := Suc (cb_consecutive_trips b),
         cb_reset_after_sec := min (fmul (cb_base_reset_sec b) (2 ^ Suc (cb_consecutive_trips b))) (cb_max_reset_sec b),
         cb_opened_at := Some now\<rparr>, None)"
      by (simp add: record_failure_def Let_def backoff_def)
    then show ?thesis unfolding r by (rule trips [OF 2])
  next
    case 3
    then show ?thesis by (intro raises) (simp_all add: record_failure_def Let_def backoff_def)
  qed
qed

lemma failure_ok:
  assumes "breaker_ok b"
  shows "breaker_ok (fst (record_failure b now))"
  using assms
proof (cases rule: failure_cases [of b now])
  case raises
  have "reset_time b (Suc (cb_consecutive_trips b)) = reset_time b (cb_consecutive_trips b)"
    using raises(2) by (simp add: reset_time_def min_absorb2 del: power_Suc)
  with raises assms show ?thesis by (simp add: breaker_ok_def)
qed (use assms in \<open>auto simp: breaker_ok_def\<close>)

lemma success_ok: "breaker_ok b \<Longrightarrow> breaker_ok (record_success b)"
  by (simp add: breaker_ok_def record_success_def) (simp add: reset_time_def)

lemma allow_ok: "breaker_ok b \<Longrightarrow> breaker_ok (fst (breaker_allow b now))"
  by (auto simp: breaker_ok_def breaker_allow_def split: option.split)

section \<open>Runs of the guarded client\<close>

text \<open>Requests for admission and completions of admitted calls, in any interleaving.\<close>

datatype guard_event =
    GAdmit pyfloat
  | GDone "py_error + order_status" pyfloat

fun guard_step :: "guarded_client \<Rightarrow> guard_event \<Rightarrow> guarded_client" where
  "guard_step g (GAdmit now) = fst (allow_reason g now)"
| "guard_step g (GDone answer now) = fst (settle_call (\<lambda>_. []) g None answer now)"

fun event_time :: "guard_event \<Rightarrow> pyfloat" where
  "event_time (GAdmit now) = now"
| "event_time (GDone answer now) = now"

text \<open>A completion that the breaker takes for a success.\<close>

fun succeeds :: "guard_event \<Rightarrow> bool" where
  "succeeds (GAdmit now) = False"
| "succeeds (GDone (Inl e) now) = False"
| "succeeds (GDone (Inr r) now) = (py_lower (ot_status r) \<notin> set [[], ''rejected'', ''failed'', ''expired''])"

lemma step_breaker:
  "gd_breaker (guard_step g e) = gd_breaker g \<or> (\<exists>now. e = GAdmit now \<and> gd_breaker (guard_step g e) = fst (breaker_allow (gd_breaker g) now)) \<or>
     (\<exists>answer now. e = GDone answer now \<and> \<not> succeeds e \<and> gd_breaker (guard_step g e) = fst (record_failure (gd_breaker g) now)) \<or>
     (succeeds e \<and> gd_breaker (guard_step g e) = record_success (gd_breaker g))"
proof (cases e)
  case (GAdmit now)
  then show ?thesis by (auto simp: allow_reason_def case_prod_beta Let_def)
next
  case (GDone answer now)
  then show ?thesis
    by (cases answer) (auto simp: settle_call_def failing_def record_result_def case_prod_beta Let_def split: if_splits)
qed

lemma guard_step_ok: "breaker_ok (gd_breaker g) \<Longrightarrow> breaker_ok (gd_breaker (guard_step g e))"
  using step_breaker [of g e] by (auto simp: failure_ok success_ok allow_ok)

text \<open>The circuit has been open since \<open>T\<close> or later and waits at least \<open>R\<close>.\<close>

definition open_since :: "pyfloat \<Rightarrow> pyfloat \<Rightarrow> guarded_client \<Rightarrow> bool" where
  "open_since T R g = (\<exists>t. cb_opened_at (gd_breaker g) = Some t \<and> T \<le> t \<and> R \<le> cb_reset_after_sec (gd_breaker g))"

definition in_window :: "pyfloat \<Rightarrow> pyfloat \<Rightarrow> guard_event \<Rightarrow> bool" where
  "in_window T R e = (T \<le> event_time e \<and> fsub (event_time e) T < R)"

lemma open_blocks:
  assumes "open_since T R g" "in_window T R (GAdmit now)"
  shows "snd (allow_reason g now) \<noteq> None" "open_since T R (guard_step g (GAdmit now))"
proof -
  obtain t where t: "cb_opened_at (gd_breaker g) = Some t" "T \<le> t" "R \<le> cb_reset_after_sec (gd_breaker g)"
    using assms(1) by (auto simp: open_since_def)
  have "fsub now t \<le> fsub now T" using t(2) by (simp add: fsub_def fl_mono)
  then have "\<not> cb_reset_after_sec (gd_breaker g) \<le> fsub now t" using t(3) assms(2) by (simp add: in_window_def)
  then have "breaker_allow (gd_breaker g) now = (gd_breaker g, False)" using t(1) by (simp add: breaker_allow_def)
  with assms(1) show "snd (allow_reason g now) \<noteq> None" "open_since T R (guard_step g (GAdmit now))"
    by (auto simp: allow_reason_def case_prod_beta Let_def open_since_def)
qed

lemma open_stays:
  assumes "breaker_ok (gd_breaker g)" "in_window T R e" "open_since T R g" "\<not> succeeds e"
  shows "open_since T R (guard_step g e)"
proof (cases e)
  case (GAdmit now)
  with open_blocks(2) assms(2,3) show ?thesis by simp
next
  case (GDone answer now)
  from step_breaker [of g e] consider "gd_breaker (guard_step g e) = gd_breaker g"
    | "gd_breaker (guard_step g e) = fst (record_failure (gd_breaker g) now)" using GDone assms(4) by auto
  then show ?thesis
  proof cases
    case 1
    with assms(3) show ?thesis by (simp add: open_since_def)
  next
    case 2
    from assms(1) show ?thesis
    proof (cases rule: failure_cases [of "gd_breaker g" now])
      case trips
      have "cb_reset_after_sec (gd_breaker g) \<le> reset_time (gd_breaker g) (Suc (cb_consecutive_trips (gd_breaker g)))"
        using reset_time_mono [OF assms(1), of "cb_consecutive_trips (gd_breaker g)"] assms(1) by (simp add: breaker_ok_def)
      with trips 2 GDone assms(2,3) show ?thesis by (auto simp: open_since_def in_window_def)
    qed (use 2 assms(3) in \<open>auto simp: open_since_def\<close>)
  qed
qed

interpretation guard: invariant_machine guard_step "\<lambda>e. True" "\<lambda>g. breaker_ok (gd_breaker g)"
  by unfold_locales (rule guard_step_ok)

interpretation circuit: latch guard_step "in_window T R" "\<lambda>g. breaker_ok (gd_breaker g)" "open_since T R" succeeds "\<lambda>g. ()" for T R
  by unfold_locales (auto intro: guard_step_ok open_stays)

section \<open>Consecutive failures\<close>

definition failures_run :: "guarded_client \<Rightarrow> pyfloat list \<Rightarrow> guarded_client" where
  "failures_run g ts = foldl (\<lambda>g t. fst (failing g t)) g ts"

text \<open>How many trips a number of consecutive failures makes.\<close>

definition trips_after :: "int \<Rightarrow> nat \<Rightarrow> nat" where
  "trips_after thr n = nat (int n + 1 - thr)"

lemma failing_breaker: "gd_breaker (fst (failing g t)) = fst (record_failure (gd_breaker g) t)" "snd (failing g t) = snd (record_failure (gd_breaker g) t)"
  by (simp_all add: failing_def case_prod_beta)

lemma failures_run_state:
  assumes "0 \<le> reset" "is_float reset" "1 \<le> thr"
    and g: "gd_breaker g = circuit_breaker_init thr reset"
  shows "breaker_ok (gd_breaker (failures_run g ts)) \<and> cb_failure_threshold (gd_breaker (failures_run g ts)) = thr \<and>
     cb_failures (gd_breaker (failures_run g ts)) = int (length ts) \<and>
     cb_consecutive_trips (gd_breaker (failures_run g ts)) = trips_after thr (length ts) \<and>
     reset_time (gd_breaker (failures_run g ts)) = reset_time (circuit_breaker_init thr reset) \<and>
     (cb_opened_at (gd_breaker (failures_run g ts)) = None \<longleftrightarrow> int (length ts) < thr)"
proof (induction ts rule: rev_induct)
  case Nil
  show ?case using assms(3) breaker_init_ok [OF assms(1,2)]
    by (auto simp: failures_run_def g trips_after_def) (simp_all add: circuit_breaker_init_def)
next
  case (snoc t ts)
  let ?b = "gd_breaker (failures_run g ts)"
  have run: "gd_breaker (failures_run g (ts @ [t])) = fst (record_failure ?b t)"
    by (simp add: failures_run_def failing_breaker)
  have ok: "breaker_ok ?b" using snoc by blast
  from ok show ?case
  proof (cases rule: failure_cases [of ?b t])
    case below
    then show ?thesis using snoc failure_ok [OF ok, of t] by (auto simp: run trips_after_def)
  next
    case trips
    then show ?thesis using snoc failure_ok [OF ok, of t] by (auto simp: run trips_after_def)
  next
    case raises
    then have "thr \<le> int (length ts)" using snoc by (auto simp: trips_after_def)
    with raises show ?thesis using snoc failure_ok [OF ok, of t] by (auto simp: run trips_after_def)
  qed
qed

section \<open>Properties\<close>

text \<open>C28: While the circuit is open no order call reaches the exchange: after any history that left the circuit open since \<open>T\<close>, as long
  as the clock shows less than the current waiting time since \<open>T\<close> and no call in flight succeeds, the wrapper itself answers every
  opening, closing, cancelling, replacing and protective call with a refusal, and its next state, like the answer, depends on nothing
  that the exchange would have said, also when further calls in flight fail.  Queries (\<open>fetch_*\<close>) pass the wrapper
  unguarded.\<close>

theorem open_circuit_blocks:
  assumes "0 \<le> gc_reset_after_sec c" and "is_float (gc_reset_after_sec c)"
    and "g = foldl guard_step (guarded_client_init c t0) es" and "cb_opened_at (gd_breaker g) = Some T" and "R = cb_reset_after_sec (gd_breaker g)"
    and "list_all (in_window T R) es'" and "\<not> list_ex succeeds es'" and "T \<le> now" and "fsub now T < R"
  shows "let h = foldl guard_step g es'; h' = fst (allow_reason h now)
    in (\<exists>why \<in> {''rate_limited'', ''circuit_open''}. guarded_submit show_exc h now answer later = (h', Inr (rejected None why))) \<and>
       guarded_cancel show_exc h oid cid now amended later = (h', Inr (rejected (os_or oid cid) ''guard_blocked'')) \<and>
       guarded_replace show_exc h oid cid now amended later = (h', Inr (rejected (os_or oid cid) ''guard_blocked'')) \<and>
       guarded_protective h now placed later = (h', Inr False)"
proof -
  let ?h = "foldl guard_step g es'"
  have ok: "breaker_ok (gd_breaker g)"
    unfolding assms(3) by (rule guard.run_inv)
      (simp_all add: guarded_client_init_def breaker_init_ok assms(1,2) list_all_iff)
  have "open_since T R g" using assms(4,5) by (simp add: open_since_def)
  then have "open_since T R ?h" using circuit.run_closed [OF ok assms(6) _ assms(7)] by blast
  from open_blocks(1) [OF this, of now] assms(8,9) have "snd (allow_reason ?h now) \<noteq> None" by (simp add: in_window_def)
  then obtain why where w: "allow_reason ?h now = (fst (allow_reason ?h now), Some why)" by (cases "allow_reason ?h now") auto
  then have "why \<in> {''rate_limited'', ''circuit_open''}"
    by (auto simp: allow_reason_def case_prod_beta Let_def split: if_splits)
  moreover have "guarded_submit show_exc ?h now answer later = (fst (allow_reason ?h now), Inr (rejected None why))"
    "guarded_cancel show_exc ?h oid cid now amended later = (fst (allow_reason ?h now), Inr (rejected (os_or oid cid) ''guard_blocked''))"
    "guarded_replace show_exc ?h oid cid now amended later = (fst (allow_reason ?h now), Inr (rejected (os_or oid cid) ''guard_blocked''))"
    "guarded_protective ?h now placed later = (fst (allow_reason ?h now), Inr False)"
    unfolding guarded_submit_def guarded_cancel_def guarded_replace_def guarded_amend_def guarded_protective_def by ((subst w, simp)+)
  ultimately show ?thesis unfolding Let_def by blast
qed

lemma default_guard_fields [simp]: "gc_reset_after_sec default_guard_config = 10" "gc_failure_threshold default_guard_config = 5"
  by (simp_all add: default_guard_config_def)

definition sample_outage :: "guard_event list" where
  "sample_outage = map (GDone (Inl (OtherError ''timeout''))) [1, 2, 3, 4, 5]"

lemma sample_outage_state:
  "cb_opened_at (gd_breaker (foldl guard_step (guarded_client_init default_guard_config 0) sample_outage)) = Some 5"
  "cb_reset_after_sec (gd_breaker (foldl guard_step (guarded_client_init default_guard_config 0) sample_outage)) = 20"
  by code_simp+

theorem open_circuit_blocks_witness:
  "\<exists>g why. g = foldl guard_step (foldl guard_step (guarded_client_init default_guard_config 0) sample_outage)
       [GDone (Inl (OtherError ''timeout'')) 6, GAdmit 7] \<and>
     guarded_submit (\<lambda>_. []) g 24 (Inl (OtherError ''timeout'')) 25 = (fst (allow_reason g 24), Inr (rejected None why)) \<and>
     guarded_cancel (\<lambda>_. []) g (Some ''o1'') None 24 (Some (Inr (rejected None []))) 25 = (fst (allow_reason g 24), Inr (rejected (Some ''o1'') ''guard_blocked'')) \<and>
     guarded_protective g 24 (Some (Inr True)) 25 = (fst (allow_reason g 24), Inr False)"
proof -
  have w: "list_all (in_window 5 20) [GDone (Inl (OtherError ''timeout'')) 6, GAdmit 7]" "\<not> list_ex succeeds [GDone (Inl (OtherError ''timeout'')) 6, GAdmit 7]"
    "(5 :: pyfloat) \<le> 24" "fsub 24 5 < 20"
    by (simp_all add: in_window_def fsub_def)
  have c: "0 \<le> gc_reset_after_sec default_guard_config" "is_float (gc_reset_after_sec default_guard_config)" by (simp_all add: is_float_def)
  from open_circuit_blocks [OF c refl sample_outage_state(1) sample_outage_state(2) [symmetric] w, of "\<lambda>_. []" "Inl (OtherError ''timeout'')" 25
      "Some ''o1''" None "Some (Inr (rejected None []))" "Some (Inr True)"]
  show ?thesis unfolding Let_def by (auto simp: os_or_def s_truthy_def)
qed

text \<open>Consecutive failures trip the circuit exactly from the threshold on, and every further failure counts as another trip and
  doubles the waiting time up to its cap, so the first trip already waits twice the configured time; at the 1024th trip the
  conversion of the power to a float fails and the exception escapes the wrapper.\<close>

theorem failures_back_off:
  assumes "0 \<le> gc_reset_after_sec c" and "is_float (gc_reset_after_sec c)" and "1 \<le> gc_failure_threshold c"
  shows "let g = failures_run (guarded_client_init c t0) ts; n = length ts; k = trips_after (gc_failure_threshold c) n
     in (cb_opened_at (gd_breaker g) \<noteq> None \<longleftrightarrow> gc_failure_threshold c \<le> int n) \<and> cb_consecutive_trips (gd_breaker g) = k \<and>
        cb_reset_after_sec (gd_breaker g) = (if k = 0 then gc_reset_after_sec c
          else min (fmul (gc_reset_after_sec c) (2 ^ min k 1023)) (max (fmul (gc_reset_after_sec c) 32) 300)) \<and>
        (snd (settle_call show_exc g oid (Inl e) t) = Inl (OtherError ''OverflowError'') \<longleftrightarrow> 1024 \<le> trips_after (gc_failure_threshold c) (Suc n))"
proof -
  let ?g = "failures_run (guarded_client_init c t0) ts"
  have init: "gd_breaker (guarded_client_init c t0) = circuit_breaker_init (gc_failure_threshold c) (gc_reset_after_sec c)"
    by (simp add: guarded_client_init_def)
  note st = failures_run_state [OF assms init, of ts]
  have b: "breaker_ok (gd_breaker ?g)" using st by blast
  have rt: "reset_time (circuit_breaker_init (gc_failure_threshold c) (gc_reset_after_sec c)) k = (if k = 0 then gc_reset_after_sec c
      else min (fmul (gc_reset_after_sec c) (2 ^ min k 1023)) (max (fmul (gc_reset_after_sec c) 32) 300))" for k
    by (simp add: reset_time_def circuit_breaker_init_def)
  have "cb_reset_after_sec (gd_breaker ?g) = reset_time (gd_breaker ?g) (cb_consecutive_trips (gd_breaker ?g))" using b by (simp add: breaker_ok_def)
  also have "\<dots> = reset_time (circuit_breaker_init (gc_failure_threshold c) (gc_reset_after_sec c)) (trips_after (gc_failure_threshold c) (length ts))"
    using st by simp
  finally have r: "cb_reset_after_sec (gd_breaker ?g) =
      reset_time (circuit_breaker_init (gc_failure_threshold c) (gc_reset_after_sec c)) (trips_after (gc_failure_threshold c) (length ts))" .
  from b have "snd (record_failure (gd_breaker ?g) t) = Some (OtherError ''OverflowError'') \<longleftrightarrow>
      1024 \<le> trips_after (gc_failure_threshold c) (Suc (length ts))"
    and "snd (record_failure (gd_breaker ?g) t) \<in> {None, Some (OtherError ''OverflowError'')}"
    using st by (cases rule: failure_cases [of "gd_breaker ?g" t]; auto simp: trips_after_def)+
  then have "snd (settle_call show_exc ?g oid (Inl e) t) = Inl (OtherError ''OverflowError'') \<longleftrightarrow>
      1024 \<le> trips_after (gc_failure_threshold c) (Suc (length ts))"
    by (auto simp: settle_call_def failing_breaker case_prod_beta)
  with st show ?thesis unfolding Let_def r rt by (auto simp: not_less)
qed

theorem failures_back_off_witness:
  "cb_reset_after_sec (gd_breaker (failures_run (guarded_client_init default_guard_config 0) [1, 2, 3, 4, 5, 6])) = 40"
  using failures_back_off [of default_guard_config 0 "[1, 2, 3, 4, 5, 6]" "\<lambda>_. []" None "OtherError []" 7]
  by (simp add: is_float_def fmul_def Let_def trips_after_def)

text \<open>The token bucket: on a clock that does not run backwards the tokens stay between zero and the rate, a rate below one call
  per second never allows a call, and at one instant at most the rate, rounded up, many calls are allowed.\<close>

theorem limiter_bounds:
  assumes "0 \<le> rate" and "is_float rate" and "sorted (t0 # ts)"
  shows "let (rl, oks) = limiter_run (rate_limiter_init rate t0) ts
     in 0 \<le> rl_tokens rl \<and> rl_tokens rl \<le> rate \<and> (1 \<le> rate \<or> True \<notin> set oks) \<and>
        (\<lceil>rate\<rceil> \<le> 2 ^ 53 \<longrightarrow> int (length (filter (\<lambda>ok. ok) (snd (limiter_run rl (replicate n (last (t0 # ts))))))) \<le> \<lceil>rate\<rceil>)"
proof -
  let ?r0 = "rate_limiter_init rate t0"
  have b: "bucket_ok rate ?r0" using assms(1,2) by (simp add: bucket_ok_def rate_limiter_init_def)
  have s: "sorted (rl_last_refill ?r0 # ts)" using assms(3) by (simp add: rate_limiter_init_def)
  note r = bucket_run [OF b s]
  have last: "rl_last_refill (fst (limiter_run ?r0 ts)) = last (t0 # ts)" using r(2) by (simp add: rate_limiter_init_def)
  have "rl_tokens (fst (limiter_run ?r0 ts)) \<le> of_int \<lceil>rate\<rceil>" 
    using r(1) by (meson bucket_ok_def le_of_int_ceiling order_trans)
  moreover have "0 \<le> \<lceil>rate\<rceil>" using assms(1) by linarith
  ultimately have "\<lceil>rate\<rceil> \<le> 2 ^ 53 \<Longrightarrow>
      int (length (filter (\<lambda>ok. ok) (snd (limiter_run (fst (limiter_run ?r0 ts)) (replicate n (last (t0 # ts))))))) \<le> \<lceil>rate\<rceil>"
    using instant_burst [OF r(1), of "\<lceil>rate\<rceil>" "replicate n (last (t0 # ts))"] last by (simp add: list_all_iff)
  with r(1,3) show ?thesis by (auto simp: case_prod_beta bucket_ok_def)
qed

theorem limiter_bounds_witness:
  "let (rl, oks) = limiter_run (rate_limiter_init 5 0) [0, 0, 1]
   in 0 \<le> rl_tokens rl \<and> rl_tokens rl \<le> 5 \<and> int (length (filter (\<lambda>ok. ok) (snd (limiter_run rl (replicate 9 1))))) \<le> 5"
  using limiter_bounds [of 5 0 "[0, 0, 1]" 9] by (auto simp: is_float_def case_prod_beta)

end
