(* ===== verification/Degradation.thy ===== *)
theory Degradation
  imports Py_Float Machines "HOL-Library.Sublist"
begin

text \<open>
  Graceful degradation (quantgambit/risk/degradation.py): per symbol a trading mode that data quality and market
  conditions lower at once and that recovers one level at a time.  A reason is a constructor with the measured
  value instead of the formatted text.  Every reading of the clock is an argument; a state that is created reads it
  twice before the evaluation reads it again.
\<close>

section \<open>Trading modes\<close>

datatype trading_mode = NORMAL | REDUCE_SIZE | NO_ENTRIES | FLATTEN

fun mode_level :: "trading_mode \<Rightarrow> nat" where
  "mode_level NORMAL = 0"
| "mode_level REDUCE_SIZE = 1"
| "mode_level NO_ENTRIES = 2"
| "mode_level FLATTEN = 3"

instantiation trading_mode :: linorder
begin

definition less_eq_trading_mode :: "trading_mode \<Rightarrow> trading_mode \<Rightarrow> bool" where
  "less_eq_trading_mode a b = (mode_level a \<le> mode_level b)"

definition less_trading_mode :: "trading_mode \<Rightarrow> trading_mode \<Rightarrow> bool" where
  "less_trading_mode a b = (mode_level a < mode_level b)"

lemma mode_level_inj: "mode_level a = mode_level b \<Longrightarrow> a = b"
  by (cases a; cases b) simp_all

instance
  by standard (auto simp: less_eq_trading_mode_def less_trading_mode_def intro: mode_level_inj)

end

text \<open>\<open>TradingMode(n)\<close> raises for other numbers; the code only calls it between the levels.\<close>

fun mode_of_level :: "nat \<Rightarrow> trading_mode option" where
  "mode_of_level n = (if n = 0 then Some NORMAL else if n = 1 then Some REDUCE_SIZE
     else if n = 2 then Some NO_ENTRIES else if n = 3 then Some FLATTEN else None)"

definition mode_allows_entries :: "trading_mode \<Rightarrow> bool" where "mode_allows_entries m = (m < NO_ENTRIES)"
definition mode_allows_exits :: "trading_mode \<Rightarrow> bool" where "mode_allows_exits m = True"

definition size_multiplier :: "trading_mode \<Rightarrow> pyfloat" where
  "size_multiplier m = (if m = NORMAL then 1 else if m = REDUCE_SIZE then 1 / 2 else 0)"

section \<open>Configuration and state\<close>

record degradation_config =
  dg_trade_stale_reduce_sec :: pyfloat
  dg_trade_stale_no_entry_sec :: pyfloat
  dg_trade_stale_flatten_sec :: pyfloat
  dg_orderbook_stale_reduce_sec :: pyfloat
  dg_orderbook_stale_no_entry_sec :: pyfloat
  dg_orderbook_stale_flatten_sec :: pyfloat
  dg_quality_reduce_threshold :: pyfloat
  dg_quality_no_entry_threshold :: pyfloat
  dg_quality_flatten_threshold :: pyfloat
  dg_spread_reduce_bps :: pyfloat
  dg_spread_no_entry_bps :: pyfloat
  dg_depth_reduce_usd :: pyfloat
  dg_depth_no_entry_usd :: pyfloat
  dg_upgrade_cooldown_sec :: pyfloat
  dg_downgrade_cooldown_sec :: pyfloat
  dg_flatten_on_ws_disconnect :: bool

definition default_degradation_config :: degradation_config where
  "default_degradation_config =
     \<lparr>dg_trade_stale_reduce_sec = 15, dg_trade_stale_no_entry_sec = 30, dg_trade_stale_flatten_sec = 600,
      dg_orderbook_stale_reduce_sec = 10, dg_orderbook_stale_no_entry_sec = 30, dg_orderbook_stale_flatten_sec = 600,
      dg_quality_reduce_threshold = 1 / 2, dg_quality_no_entry_threshold = fl (3 / 10), dg_quality_flatten_threshold = fl (1 / 20),
      dg_spread_reduce_bps = 20, dg_spread_no_entry_bps = 50, dg_depth_reduce_usd = 5000, dg_depth_no_entry_usd = 1000,
      dg_upgrade_cooldown_sec = 60, dg_downgrade_cooldown_sec = 0, dg_flatten_on_ws_disconnect = False\<rparr>"

datatype degr_reason =
    ManualOverride trading_mode
  | WsDisconnected
  | Measured string pyfloat
  | Healthy
  | Forced string

record degradation_state =
  ds_current_mode :: trading_mode
  ds_mode_since :: pyfloat
  ds_last_evaluation :: pyfloat
  ds_reasons :: "degr_reason list"
  ds_consecutive_healthy_checks :: int
  ds_consecutive_unhealthy_checks :: int

definition new_degradation_state :: "pyfloat \<times> pyfloat \<Rightarrow> degradation_state" where
  "new_degradation_state created = \<lparr>ds_current_mode = NORMAL, ds_mode_since = fst created, ds_last_evaluation = snd created,
     ds_reasons = [], ds_consecutive_healthy_checks = 0, ds_consecutive_unhealthy_checks = 0\<rparr>"

record degradation_decision =
  dd_mode :: trading_mode
  dd_reasons :: "degr_reason list"
  dd_size_multiplier :: pyfloat
  dd_allows_entries :: bool
  dd_allows_exits :: bool
  dd_should_flatten :: bool
  dd_metrics :: "(string \<times> pyfloat) list"

record degradation_manager =
  dm_config :: degradation_config
  dm_states :: "(string, degradation_state) dict"

definition degradation_manager_init :: "degradation_config option \<Rightarrow> degradation_manager" where
  "degradation_manager_init c = \<lparr>dm_config = (case c of None \<Rightarrow> default_degradation_config | Some c \<Rightarrow> c), dm_states = []\<rparr>"

definition get_or_create_state :: "degradation_manager \<Rightarrow> string \<Rightarrow> pyfloat \<times> pyfloat \<Rightarrow> degradation_manager \<times> degradation_state" where
  "get_or_create_state m sy created = (case d_get (dm_states m) sy of
       Some s \<Rightarrow> (m, s)
     | None \<Rightarrow> (let s = new_degradation_state created in (m\<lparr>dm_states := d_put (dm_states m) sy s\<rparr>, s)))"

section \<open>The checks\<close>

text \<open>The measures that an evaluation is given.\<close>

record degr_inputs =
  di_feed_staleness :: "(string, pyfloat option) dict option"
  di_data_quality :: "pyfloat option"
  di_spread_bps :: "pyfloat option"
  di_bid_depth_usd :: "pyfloat option"
  di_ask_depth_usd :: "pyfloat option"
  di_ws_connected :: bool
  di_manual_override :: "trading_mode option"

text \<open>Each check adds reasons with their recommended modes, and metrics.\<close>

type_synonym check_findings = "(degr_reason \<times> trading_mode) list \<times> (string \<times> pyfloat) list"

definition override_check :: "degr_inputs \<Rightarrow> check_findings" where
  "override_check i = (case di_manual_override i of None \<Rightarrow> ([], []) | Some m \<Rightarrow> ([(ManualOverride m, m)], []))"

definition ws_check :: "degradation_config \<Rightarrow> degr_inputs \<Rightarrow> check_findings" where
  "ws_check c i = (if \<not> di_ws_connected i \<and> dg_flatten_on_ws_disconnect c then ([(WsDisconnected, FLATTEN)], []) else ([], []))"

definition feed_age :: "degr_inputs \<Rightarrow> string \<Rightarrow> pyfloat option" where
  "feed_age i feed = (case di_feed_staleness i of None \<Rightarrow> None | Some d \<Rightarrow> (case d_get d feed of None \<Rightarrow> None | Some x \<Rightarrow> x))"

definition stale_check :: "string \<Rightarrow> pyfloat \<Rightarrow> pyfloat \<Rightarrow> pyfloat \<Rightarrow> pyfloat option \<Rightarrow> check_findings" where
  "stale_check feed reduce no_entry flatten age = (case age of None \<Rightarrow> ([], []) | Some x \<Rightarrow>
     (if flatten \<le> x then [(Measured (feed @ ''_stale_flatten'') x, FLATTEN)]
      else if no_entry \<le> x then [(Measured (feed @ ''_stale_no_entry'') x, NO_ENTRIES)]
      else if reduce \<le> x then [(Measured (feed @ ''_stale_reduce'') x, REDUCE_SIZE)]
      else [], [(feed @ ''_stale_sec'', x)]))"

definition quality_check :: "degradation_config \<Rightarrow> pyfloat option \<Rightarrow> check_findings" where
  "quality_check c q = (case q of None \<Rightarrow> ([], []) | Some x \<Rightarrow>
     (if x < dg_quality_flatten_threshold c then [(Measured ''quality_flatten'' x, FLATTEN)]
      else if x < dg_quality_no_entry_threshold c then [(Measured ''quality_no_entry'' x, NO_ENTRIES)]
      else if x < dg_quality_reduce_threshold c then [(Measured ''quality_reduce'' x, REDUCE_SIZE)]
      else [], [(''data_quality'', x)]))"

definition spread_check :: "degradation_config \<Rightarrow> pyfloat option \<Rightarrow> check_findings" where
  "spread_check c s = (case s of None \<Rightarrow> ([], []) | Some x \<Rightarrow>
     (if dg_spread_no_entry_bps c \<le> x then [(Measured ''spread_no_entry'' x, NO_ENTRIES)]
      else if dg_spread_reduce_bps c \<le> x then [(Measured ''spread_reduce'' x, REDUCE_SIZE)]
      else [], [(''spread_bps'', x)]))"

definition depth_check :: "degradation_config \<Rightarrow> pyfloat option \<Rightarrow> pyfloat option \<Rightarrow> check_findings" where
  "depth_check c bid ask = (case (bid, ask) of
     (Some b, Some a) \<Rightarrow> (let x = min b a in
       (if x < dg_depth_no_entry_usd c then [(Measured ''depth_no_entry'' x, NO_ENTRIES)]
        else if x < dg_depth_reduce_usd c then [(Measured ''depth_reduce'' x, REDUCE_SIZE)]
        else [], [(''min_depth_usd'', x)]))
   | _ \<Rightarrow> ([], []))"

definition degr_checks :: "degradation_config \<Rightarrow> degr_inputs \<Rightarrow> check_findings list" where
  "degr_checks c i =
     [override_check i, ws_check c i,
      stale_check ''trade'' (dg_trade_stale_reduce_sec c) (dg_trade_stale_no_entry_sec c) (dg_trade_stale_flatten_sec c) (feed_age i ''trade''),
      stale_check ''orderbook'' (dg_orderbook_stale_reduce_sec c) (dg_orderbook_stale_no_entry_sec c) (dg_orderbook_stale_flatten_sec c)
        (feed_age i ''orderbook''),
      quality_check c (di_data_quality i), spread_check c (di_spread_bps i), depth_check c (di_bid_depth_usd i) (di_ask_depth_usd i)]"

definition recommendations :: "degradation_config \<Rightarrow> degr_inputs \<Rightarrow> (degr_reason \<times> trading_mode) list" where
  "recommendations c i = concat (map fst (degr_checks c i))"

text \<open>The most restrictive recommendation, and \<open>NORMAL\<close> without any.\<close>

definition recommended_mode :: "degradation_config \<Rightarrow> degr_inputs \<Rightarrow> trading_mode" where
  "recommended_mode c i = (case map snd (recommendations c i) of [] \<Rightarrow> NORMAL | m # ms \<Rightarrow> foldl max m ms)"

section \<open>Operations\<close>

definition apply_transition_rules :: "degradation_config \<Rightarrow> degradation_state \<Rightarrow> trading_mode \<Rightarrow> pyfloat \<Rightarrow> trading_mode" where
  "apply_transition_rules c s new now =
     (let cur = ds_current_mode s
      in if cur < new then new
         else if new < cur then
           (if fsub now (ds_mode_since s) < dg_upgrade_cooldown_sec c then cur
            else if 1 < mode_level cur - mode_level new
              then (case mode_of_level (mode_level cur - 1) of Some m \<Rightarrow> m | None \<Rightarrow> cur)
              else new)
         else cur)"

definition degr_evaluate ::
  "degradation_manager \<Rightarrow> string \<Rightarrow> degr_inputs \<Rightarrow> pyfloat \<times> pyfloat \<Rightarrow> pyfloat \<Rightarrow> degradation_manager \<times> degradation_decision" where
  "degr_evaluate m sy i created now =
     (let (m1, s) = get_or_create_state m sy created;
          recs = recommendations (dm_config m) i;
          reasons = (if recs = [] then [Healthy] else map fst recs);
          final = apply_transition_rules (dm_config m) s (recommended_mode (dm_config m) i) now;
          s1 = (if final \<noteq> ds_current_mode s then s\<lparr>ds_current_mode := final, ds_mode_since := now\<rparr> else s);
          s2 = s1\<lparr>ds_reasons := reasons, ds_last_evaluation := now\<rparr>
      in (m1\<lparr>dm_states := d_put (dm_states m1) sy s2\<rparr>,
          \<lparr>dd_mode = final, dd_reasons = reasons, dd_size_multiplier = size_multiplier final, dd_allows_entries = mode_allows_entries final,
           dd_allows_exits = mode_allows_exits final, dd_should_flatten = (final = FLATTEN),
           dd_metrics = concat (map snd (degr_checks (dm_config m) i))\<rparr>))"

definition degr_get_mode :: "degradation_manager \<Rightarrow> string \<Rightarrow> trading_mode" where
  "degr_get_mode m sy = (case d_get (dm_states m) sy of None \<Rightarrow> NORMAL | Some s \<Rightarrow> ds_current_mode s)"

definition force_mode :: "degradation_manager \<Rightarrow> string \<Rightarrow> trading_mode \<Rightarrow> string \<Rightarrow> pyfloat \<times> pyfloat \<Rightarrow> pyfloat \<Rightarrow> degradation_manager" where
  "force_mode m sy mode reason created now =
     (let (m1, s) = get_or_create_state m sy created
      in m1\<lparr>dm_states := d_put (dm_states m1) sy (s\<lparr>ds_current_mode := mode, ds_mode_since := now, ds_reasons := [Forced reason]\<rparr>)\<rparr>)"

text \<open>Without a symbol, or with the empty one, everything is forgotten.\<close>

definition degr_reset :: "degradation_manager \<Rightarrow> string option \<Rightarrow> degradation_manager" where
  "degr_reset m sy = (if s_truthy sy then m\<lparr>dm_states := d_pop (dm_states m) (the sy)\<rparr> else m\<lparr>dm_states := []\<rparr>)"

section \<open>Modes\<close>

lemma mode_le_iff: "a \<le> b \<longleftrightarrow> mode_level a \<le> mode_level b"
  by (simp add: less_eq_trading_mode_def)

lemma mode_less_iff: "a < b \<longleftrightarrow> mode_level a < mode_level b"
  by (simp add: less_trading_mode_def)

lemma mode_level_max: "mode_level (max a b) = max (mode_level a) (mode_level b)"
  by (simp add: max_def mode_le_iff)

lemma mode_of_level_inverse [simp]: "mode_of_level (mode_level m) = Some m"
  by (cases m) simp_all

lemma mode_pred: "a < b \<Longrightarrow> \<exists>m. mode_of_level (mode_level b - 1) = Some m \<and> mode_level m = mode_level b - 1"
  by (cases b) (simp_all add: mode_less_iff)

lemma normal_least [simp]: "NORMAL \<le> m" "\<not> m < NORMAL"
  by (simp_all add: mode_le_iff mode_less_iff)

lemma allows_entries_iff: "mode_allows_entries m \<longleftrightarrow> mode_level m \<le> 1"
  by (cases m) (simp_all add: mode_allows_entries_def mode_less_iff)

lemma foldl_max_ge: "foldl max (m :: 'a :: linorder) ms \<le> x \<longleftrightarrow> m \<le> x \<and> (\<forall>y \<in> set ms. y \<le> x)"
  by (induction ms arbitrary: m) auto

lemma recommended_le_iff:
  "recommended_mode c i \<le> m \<longleftrightarrow> (\<forall>r \<in> set (recommendations c i). snd r \<le> m)"
  by (cases "recommendations c i") (simp_all add: recommended_mode_def foldl_max_ge)

lemma recommended_normal_iff: "recommended_mode c i = NORMAL \<longleftrightarrow> (\<forall>r \<in> set (recommendations c i). snd r = NORMAL)"
proof -
  have "recommended_mode c i = NORMAL \<longleftrightarrow> recommended_mode c i \<le> NORMAL" by (simp add: antisym_conv)
  then show ?thesis by (simp add: recommended_le_iff antisym_conv)
qed

text \<open>The measures are inside the limits for entries.\<close>

definition within_entry_limits :: "degradation_config \<Rightarrow> degr_inputs \<Rightarrow> bool" where
  "within_entry_limits c i =
     ((case di_manual_override i of None \<Rightarrow> True | Some m \<Rightarrow> mode_allows_entries m) \<and>
      (di_ws_connected i \<or> \<not> dg_flatten_on_ws_disconnect c) \<and>
      (case feed_age i ''trade'' of None \<Rightarrow> True | Some x \<Rightarrow> x < dg_trade_stale_no_entry_sec c \<and> x < dg_trade_stale_flatten_sec c) \<and>
      (case feed_age i ''orderbook'' of None \<Rightarrow> True | Some x \<Rightarrow> x < dg_orderbook_stale_no_entry_sec c \<and> x < dg_orderbook_stale_flatten_sec c) \<and>
      (case di_data_quality i of None \<Rightarrow> True | Some q \<Rightarrow> dg_quality_no_entry_threshold c \<le> q \<and> dg_quality_flatten_threshold c \<le> q) \<and>
      (case di_spread_bps i of None \<Rightarrow> True | Some x \<Rightarrow> x < dg_spread_no_entry_bps c) \<and>
      (case (di_bid_depth_usd i, di_ask_depth_usd i) of
         (Some b, Some a) \<Rightarrow> dg_depth_no_entry_usd c \<le> b \<and> dg_depth_no_entry_usd c \<le> a | _ \<Rightarrow> True))"

definition entry_free :: "check_findings \<Rightarrow> bool" where
  "entry_free f = (\<forall>r \<in> set (fst f). mode_allows_entries (snd r))"

lemma check_entry_free:
  "entry_free (override_check i) \<longleftrightarrow> (case di_manual_override i of None \<Rightarrow> True | Some m \<Rightarrow> mode_allows_entries m)"
  "entry_free (ws_check c i) \<longleftrightarrow> di_ws_connected i \<or> \<not> dg_flatten_on_ws_disconnect c"
  "entry_free (stale_check feed r n f age) \<longleftrightarrow> (case age of None \<Rightarrow> True | Some x \<Rightarrow> x < n \<and> x < f)"
  "entry_free (quality_check c q) \<longleftrightarrow> (case q of None \<Rightarrow> True | Some x \<Rightarrow>
     dg_quality_no_entry_threshold c \<le> x \<and> dg_quality_flatten_threshold c \<le> x)"
  "entry_free (spread_check c s) \<longleftrightarrow> (case s of None \<Rightarrow> True | Some x \<Rightarrow> x < dg_spread_no_entry_bps c)"
  "entry_free (depth_check c b a) \<longleftrightarrow> (case (b, a) of (Some b, Some a) \<Rightarrow> dg_depth_no_entry_usd c \<le> b \<and> dg_depth_no_entry_usd c \<le> a | _ \<Rightarrow> True)"
  by (auto simp: entry_free_def override_check_def ws_check_def stale_check_def quality_check_def spread_check_def depth_check_def
      allows_entries_iff Let_def split: option.split)

lemma recommended_allows_entries: "mode_allows_entries (recommended_mode c i) \<longleftrightarrow> within_entry_limits c i"
proof -
  have e: "mode_allows_entries m \<longleftrightarrow> m \<le> REDUCE_SIZE" for m by (simp add: allows_entries_iff mode_le_iff)
  have "mode_allows_entries (recommended_mode c i) \<longleftrightarrow> (\<forall>r \<in> set (recommendations c i). mode_allows_entries (snd r))"
    unfolding e by (rule recommended_le_iff)
  also have "\<dots> \<longleftrightarrow> (\<forall>f \<in> set (degr_checks c i). entry_free f)"
    by (auto simp: recommendations_def entry_free_def)
  also have "\<dots> \<longleftrightarrow> within_entry_limits c i"
    by (simp add: degr_checks_def check_entry_free within_entry_limits_def)
  finally show ?thesis .
qed

section \<open>One evaluation\<close>

text \<open>The state that an evaluation finds.\<close>

definition state_before :: "degradation_manager \<Rightarrow> string \<Rightarrow> pyfloat \<times> pyfloat \<Rightarrow> degradation_state" where
  "state_before m sy created = (case d_get (dm_states m) sy of None \<Rightarrow> new_degradation_state created | Some s \<Rightarrow> s)"

lemma get_or_create: "snd (get_or_create_state m sy created) = state_before m sy created"
  "dm_config (fst (get_or_create_state m sy created)) = dm_config m"
  "d_put (dm_states (fst (get_or_create_state m sy created))) sy s = d_put (dm_states m) sy s"
  by (auto simp: get_or_create_state_def state_before_def Let_def d_put_put split: option.split)

lemma transition_cases:
  fixes s :: degradation_state
  obtains (worse) "ds_current_mode s < new" "apply_transition_rules c s new now = new"
  | (same) "apply_transition_rules c s new now = ds_current_mode s" "new \<le> ds_current_mode s"
      "new < ds_current_mode s \<Longrightarrow> fsub now (ds_mode_since s) < dg_upgrade_cooldown_sec c"
  | (better) "new < ds_current_mode s" "dg_upgrade_cooldown_sec c \<le> fsub now (ds_mode_since s)"
      "mode_level (apply_transition_rules c s new now) = mode_level (ds_current_mode s) - 1"
proof -
  consider "ds_current_mode s < new" | "new = ds_current_mode s"
    | "new < ds_current_mode s" "fsub now (ds_mode_since s) < dg_upgrade_cooldown_sec c"
    | "new < ds_current_mode s" "dg_upgrade_cooldown_sec c \<le> fsub now (ds_mode_since s)" by (metis linorder_neqE not_less)
  then show thesis
  proof cases
    case 1
    then show ?thesis by (intro worse) (simp_all add: apply_transition_rules_def)
  next
    case 4
    with mode_pred [OF 4(1)] have "mode_level (apply_transition_rules c s new now) = mode_level (ds_current_mode s) - 1"
      by (auto simp: apply_transition_rules_def Let_def mode_less_iff)
    with 4 show ?thesis by (rule better)
  qed (intro same; auto simp: apply_transition_rules_def Let_def)+
qed

text \<open>What an evaluation does to a symbol's state and to the others.\<close>

definition degr_move :: "degradation_config \<Rightarrow> degr_inputs \<Rightarrow> pyfloat \<Rightarrow> degradation_state \<Rightarrow> trading_mode \<times> pyfloat" where
  "degr_move c i now s = (let final = apply_transition_rules c s (recommended_mode c i) now
     in (final, if final \<noteq> ds_current_mode s then now else ds_mode_since s))"

lemma evaluate_state:
  "dm_config (fst (degr_evaluate m sy i created now)) = dm_config m"
  "sy' \<noteq> sy \<Longrightarrow> d_get (dm_states (fst (degr_evaluate m sy i created now))) sy' = d_get (dm_states m) sy'"
  "dd_mode (snd (degr_evaluate m sy i created now)) =
     apply_transition_rules (dm_config m) (state_before m sy created) (recommended_mode (dm_config m) i) now"
  "\<exists>s. d_get (dm_states (fst (degr_evaluate m sy i created now))) sy = Some s \<and>
     (ds_current_mode s, ds_mode_since s) = degr_move (dm_config m) i now (state_before m sy created)"
proof -
  obtain m1 s where g: "get_or_create_state m sy created = (m1, s)" by force
  have s: "s = state_before m sy created" "dm_config m1 = dm_config m" "\<And>x. d_put (dm_states m1) sy x = d_put (dm_states m) sy x"
    using get_or_create [of m sy created] by (simp_all add: g)
  show "dm_config (fst (degr_evaluate m sy i created now)) = dm_config m"
    "sy' \<noteq> sy \<Longrightarrow> d_get (dm_states (fst (degr_evaluate m sy i created now))) sy' = d_get (dm_states m) sy'"
    "dd_mode (snd (degr_evaluate m sy i created now)) =
       apply_transition_rules (dm_config m) (state_before m sy created) (recommended_mode (dm_config m) i) now"
    "\<exists>s. d_get (dm_states (fst (degr_evaluate m sy i created now))) sy = Some s \<and>
       (ds_current_mode s, ds_mode_since s) = degr_move (dm_config m) i now (state_before m sy created)"
    by (simp_all add: degr_evaluate_def g s Let_def degr_move_def)
qed

lemma evaluate_decision:
  "dd_allows_entries (snd (degr_evaluate m sy i created now)) = mode_allows_entries (dd_mode (snd (degr_evaluate m sy i created now)))"
  "dd_should_flatten (snd (degr_evaluate m sy i created now)) = (dd_mode (snd (degr_evaluate m sy i created now)) = FLATTEN)"
  "dd_size_multiplier (snd (degr_evaluate m sy i created now)) = size_multiplier (dd_mode (snd (degr_evaluate m sy i created now)))"
  by (simp_all add: degr_evaluate_def Let_def case_prod_beta)

section \<open>Runs\<close>

datatype degr_event =
    DEval string degr_inputs "pyfloat \<times> pyfloat" pyfloat
  | DForce string trading_mode string "pyfloat \<times> pyfloat" pyfloat
  | DReset "string option"

fun degr_step :: "degradation_manager \<Rightarrow> degr_event \<Rightarrow> degradation_manager" where
  "degr_step m (DEval sy i created now) = fst (degr_evaluate m sy i created now)"
| "degr_step m (DForce sy mode reason created now) = force_mode m sy mode reason created now"
| "degr_step m (DReset sy) = degr_reset m sy"

text \<open>Events that set or forget the mode of a symbol by hand, and the times of its evaluations.\<close>

fun overrides :: "string \<Rightarrow> degr_event \<Rightarrow> bool" where
  "overrides sy (DForce sy' mode reason created now) = (sy' = sy)"
| "overrides sy (DReset sy') = (\<not> s_truthy sy' \<or> sy' = Some sy)"
| "overrides sy (DEval sy' i created now) = False"

fun eval_times :: "string \<Rightarrow> degr_event list \<Rightarrow> pyfloat list" where
  "eval_times sy [] = []"
| "eval_times sy (DEval sy' i created now # es) = (if sy' = sy then now # eval_times sy es else eval_times sy es)"
| "eval_times sy (e # es) = eval_times sy es"

lemma force_mode_state:
  "dm_config (force_mode m sy mode reason created now) = dm_config m"
  "sy' \<noteq> sy \<Longrightarrow> d_get (dm_states (force_mode m sy mode reason created now)) sy' = d_get (dm_states m) sy'"
proof -
  obtain m1 s where g: "get_or_create_state m sy created = (m1, s)" by force
  have "dm_config m1 = dm_config m" "\<And>x. d_put (dm_states m1) sy x = d_put (dm_states m) sy x"
    using get_or_create [of m sy created] by (simp_all add: g)
  then show "dm_config (force_mode m sy mode reason created now) = dm_config m"
    "sy' \<noteq> sy \<Longrightarrow> d_get (dm_states (force_mode m sy mode reason created now)) sy' = d_get (dm_states m) sy'"
    by (simp_all add: force_mode_def g Let_def)
qed

lemma d_get_pop_other: "k' \<noteq> k \<Longrightarrow> d_get (d_pop d k) k' = d_get d k'"
  by (induction d k rule: d_pop.induct) auto

lemma other_events:
  assumes "\<not> overrides sy e" "eval_times sy [e] = []"
  shows "dm_config (degr_step m e) = dm_config m" "d_get (dm_states (degr_step m e)) sy = d_get (dm_states m) sy"
proof -
  have "dm_config (degr_step m e) = dm_config m \<and> d_get (dm_states (degr_step m e)) sy = d_get (dm_states m) sy"
  proof (cases e)
    case (DReset x)
    with assms show ?thesis by (cases x) (auto simp: degr_reset_def s_truthy_def d_get_pop_other)
  qed (use assms in \<open>auto simp: evaluate_state force_mode_state split: if_splits\<close>)
  then show "dm_config (degr_step m e) = dm_config m" "d_get (dm_states (degr_step m e)) sy = d_get (dm_states m) sy" by simp_all
qed

lemma step_config [simp]: "dm_config (degr_step m e) = dm_config m"
  by (cases e) (simp_all add: evaluate_state force_mode_state degr_reset_def)

text \<open>Times of which each is at least the cooldown after the one before.\<close>

fun spaced :: "pyfloat \<Rightarrow> pyfloat \<Rightarrow> pyfloat list \<Rightarrow> bool" where
  "spaced cd since [] = True"
| "spaced cd since (t # ts) = (cd \<le> fsub t since \<and> spaced cd t ts)"

lemma spaced_earlier: "spaced cd since ts \<Longrightarrow> since' \<le> since \<Longrightarrow> spaced cd since' ts"
  by (cases ts) (auto intro: order_trans fsub_mono)

lemma spaced_take: "spaced cd since ts \<Longrightarrow> spaced cd since (take n ts)"
  by (induction ts arbitrary: n since) (auto simp: take_Cons split: nat.split)

text \<open>One evaluation either leaves mode and time, worsens the mode at this time, or improves it by one level after the cooldown.\<close>

lemma move_cases:
  obtains (stays) "degr_move c i now s = (ds_current_mode s, ds_mode_since s)"
      "recommended_mode c i < ds_current_mode s \<Longrightarrow> fsub now (ds_mode_since s) < dg_upgrade_cooldown_sec c"
  | (worsens) mode where "degr_move c i now s = (mode, now)" "ds_current_mode s < mode" "mode = recommended_mode c i"
  | (improves) mode where "degr_move c i now s = (mode, now)" "mode_level (ds_current_mode s) = Suc (mode_level mode)"
      "dg_upgrade_cooldown_sec c \<le> fsub now (ds_mode_since s)" "recommended_mode c i < ds_current_mode s"
proof (cases rule: transition_cases [of s "recommended_mode c i" c now])
  case worse
  then show ?thesis by (intro worsens [OF _ worse(1) refl]) (simp add: degr_move_def Let_def less_imp_neq [THEN not_sym])
next
  case same
  then show ?thesis by (intro stays) (simp_all add: degr_move_def Let_def)
next
  case better
  then have l: "mode_level (ds_current_mode s) = Suc (mode_level (apply_transition_rules c s (recommended_mode c i) now))"
    by (simp add: mode_less_iff)
  then have "apply_transition_rules c s (recommended_mode c i) now \<noteq> ds_current_mode s" by (metis n_not_Suc_n)
  with better l show ?thesis by (intro improves [OF _ l]) (simp_all add: degr_move_def Let_def)
qed

lemma eval_step:
  assumes "d_get (dm_states m) sy = Some s"
  shows "\<exists>s'. d_get (dm_states (degr_step m (DEval sy i created now))) sy = Some s' \<and>
    (ds_current_mode s', ds_mode_since s') = degr_move (dm_config m) i now s"
  using evaluate_state(4) [of m sy i created now] assms by (simp add: state_before_def)

lemma recovery_run:
  assumes "d_get (dm_states m) sy = Some s" "\<not> list_ex (overrides sy) es" "sorted (ds_mode_since s # eval_times sy es)"
  shows "\<exists>s' ts. d_get (dm_states (foldl degr_step m es)) sy = Some s' \<and> subseq ts (eval_times sy es) \<and>
     length ts = mode_level (ds_current_mode s) - mode_level (ds_current_mode s') \<and>
     spaced (dg_upgrade_cooldown_sec (dm_config m)) (ds_mode_since s) ts"
  using assms
proof (induction es arbitrary: m s)
  case (Cons e es)
  show ?case
  proof (cases "eval_times sy [e] = []")
    case True
    with Cons.prems(2) have "d_get (dm_states (degr_step m e)) sy = Some s" using other_events(2) [of sy e m] Cons.prems(1) by simp
    moreover have "eval_times sy (e # es) = eval_times sy es" using True by (cases e) (auto split: if_splits)
    ultimately show ?thesis using Cons.IH [of "degr_step m e" s] Cons.prems by simp
  next
    case False
    then obtain i created now where e: "e = DEval sy i created now" by (cases e) (auto split: if_splits)
    let ?cd = "dg_upgrade_cooldown_sec (dm_config m)"
    obtain s1 where s1: "d_get (dm_states (degr_step m e)) sy = Some s1"
      "(ds_current_mode s1, ds_mode_since s1) = degr_move (dm_config m) i now s"
      using eval_step [OF Cons.prems(1)] e by blast
    have le: "ds_mode_since s \<le> now" "sorted (now # eval_times sy es)" using Cons.prems(3) e by simp_all
    have since: "ds_mode_since s \<le> ds_mode_since s1" "ds_mode_since s1 \<le> now"
      using s1(2) le by (cases rule: move_cases [of "dm_config m" i now s]; simp)+
    then have "sorted (ds_mode_since s1 # eval_times sy es)" using le by (auto intro: order_trans)
    with Cons.IH [OF s1(1)] Cons.prems(2) obtain s' ts where IH: "d_get (dm_states (foldl degr_step (degr_step m e) es)) sy = Some s'"
      "subseq ts (eval_times sy es)" "length ts = mode_level (ds_current_mode s1) - mode_level (ds_current_mode s')"
      "spaced ?cd (ds_mode_since s1) ts" by auto
    show ?thesis
    proof (cases "mode_level (ds_current_mode s1) < mode_level (ds_current_mode s) \<and> mode_level (ds_current_mode s') < mode_level (ds_current_mode s)")
      case True
      then have "mode_level (ds_current_mode s) = Suc (mode_level (ds_current_mode s1)) \<and> ds_mode_since s1 = now \<and> ?cd \<le> fsub now (ds_mode_since s)"
        using s1(2) by (cases rule: move_cases [of "dm_config m" i now s]) (auto simp: mode_less_iff)
      with IH True e show ?thesis by (intro exI [of _ s'] exI [of _ "now # ts"]) (auto simp: Suc_diff_le)
    next
      case False
      let ?n = "mode_level (ds_current_mode s) - mode_level (ds_current_mode s')"
      from False IH(3) have "?n \<le> length ts" by auto
      moreover have "subseq (take ?n ts) (eval_times sy es)" using IH(2) by (meson subseq_order.trans prefix_imp_subseq take_is_prefix)
      moreover have "spaced ?cd (ds_mode_since s) (take ?n ts)" by (rule spaced_take [OF spaced_earlier [OF IH(4) since(1)]])
      ultimately show ?thesis using IH(1) e by (intro exI [of _ s'] exI [of _ "take ?n ts"]) auto
    qed
  qed
qed simp

fun healthy_eval :: "degradation_config \<Rightarrow> string \<Rightarrow> degr_event \<Rightarrow> bool" where
  "healthy_eval c sy (DEval sy' i created now) = (sy' = sy \<and> recommended_mode c i = NORMAL)"
| "healthy_eval c sy e = False"

lemma healthy_run:
  assumes "d_get (dm_states m) sy = Some s" "list_all (healthy_eval (dm_config m) sy) es"
    and "spaced (dg_upgrade_cooldown_sec (dm_config m)) (ds_mode_since s) (eval_times sy es)" "sorted (ds_mode_since s # eval_times sy es)"
  shows "\<exists>s'. d_get (dm_states (foldl degr_step m es)) sy = Some s' \<and>
     mode_level (ds_current_mode s') = mode_level (ds_current_mode s) - length es"
  using assms
proof (induction es arbitrary: m s)
  case (Cons e es)
  then obtain i created now where e: "e = DEval sy i created now" "recommended_mode (dm_config m) i = NORMAL"
    by (cases e) auto
  obtain s1 where s1: "d_get (dm_states (degr_step m e)) sy = Some s1"
    "(ds_current_mode s1, ds_mode_since s1) = degr_move (dm_config m) i now s"
    using eval_step [OF Cons.prems(1)] e by blast
  let ?cd = "dg_upgrade_cooldown_sec (dm_config m)"
  have cd: "?cd \<le> fsub now (ds_mode_since s)" "spaced ?cd now (eval_times sy es)" "ds_mode_since s \<le> now" "sorted (now # eval_times sy es)"
    using Cons.prems(3,4) e by simp_all
  have "mode_level (ds_current_mode s1) = mode_level (ds_current_mode s) - 1 \<and> ds_mode_since s1 \<le> now"
  proof (cases rule: move_cases [of "dm_config m" i now s])
    case stays
    with s1(2) cd e(2) have "mode_level (ds_current_mode s) = 0" by (auto simp: mode_less_iff)
    with stays s1(2) cd show ?thesis by simp
  qed (use s1(2) e(2) in \<open>auto simp: mode_less_iff\<close>)
  moreover from this cd have "spaced ?cd (ds_mode_since s1) (eval_times sy es)" "sorted (ds_mode_since s1 # eval_times sy es)"
    by (auto intro: spaced_earlier order_trans)
  ultimately show ?case using Cons.IH [OF s1(1)] Cons.prems(2) by auto
qed simp

section \<open>Properties\<close>

text \<open>An evaluation allows entries exactly when every measure it is given is inside the limits for entries and the symbol was
  in a mode that allows them, or in \<open>NO_ENTRIES\<close> for at least the cooldown.\<close>

theorem entries_allowed_iff:
  "dd_allows_entries (snd (degr_evaluate m sy i created now)) \<longleftrightarrow>
     within_entry_limits (dm_config m) i \<and>
     (let s = state_before m sy created in mode_allows_entries (ds_current_mode s) \<or>
       ds_current_mode s = NO_ENTRIES \<and> dg_upgrade_cooldown_sec (dm_config m) \<le> fsub now (ds_mode_since s))"
proof -
  let ?s = "state_before m sy created" and ?c = "dm_config m"
  let ?r = "recommended_mode ?c i" and ?f = "apply_transition_rules (dm_config m) (state_before m sy created) (recommended_mode (dm_config m) i) now"
  have no: "ds_current_mode ?s = NO_ENTRIES \<longleftrightarrow> mode_level (ds_current_mode ?s) = 2" by (cases "ds_current_mode ?s") simp_all
  have "mode_allows_entries ?f \<longleftrightarrow> mode_allows_entries ?r \<and>
      (mode_allows_entries (ds_current_mode ?s) \<or> ds_current_mode ?s = NO_ENTRIES \<and> dg_upgrade_cooldown_sec ?c \<le> fsub now (ds_mode_since ?s))"
    unfolding no by (cases rule: transition_cases [of ?s ?r ?c now]) (auto simp: allows_entries_iff mode_less_iff mode_le_iff)
  then show ?thesis by (simp add: evaluate_decision evaluate_state(3) recommended_allows_entries Let_def)
qed

text \<open>C11: Recovery is slow: over any events of which none sets or resets the symbol's mode by hand, on a clock that does not run
  backwards, every level that the mode has improved has its own evaluation, at least the cooldown after the one before, so a
  symbol in \<open>FLATTEN\<close> cannot trade again before two cooldowns have passed.\<close>

theorem recovery_is_slow:
  assumes "d_get (dm_states m) sy = Some s" and "\<not> list_ex (overrides sy) es" and "sorted (ds_mode_since s # eval_times sy es)"
  shows "\<exists>ts. subseq ts (eval_times sy es) \<and>
     length ts = mode_level (ds_current_mode s) - mode_level (degr_get_mode (foldl degr_step m es) sy) \<and>
     spaced (dg_upgrade_cooldown_sec (dm_config m)) (ds_mode_since s) ts"
  using recovery_run [OF assms] by (auto simp: degr_get_mode_def)

text \<open>Recovery comes: healthy evaluations that are each at least the cooldown after the one before improve the mode by one level
  each until it is \<open>NORMAL\<close>, so three of them are enough from any mode.\<close>

theorem healthy_evaluations_recover:
  assumes "d_get (dm_states m) sy = Some s" and "list_all (healthy_eval (dm_config m) sy) es"
    and "spaced (dg_upgrade_cooldown_sec (dm_config m)) (ds_mode_since s) (eval_times sy es)"
    and "sorted (ds_mode_since s # eval_times sy es)"
  shows "mode_level (degr_get_mode (foldl degr_step m es) sy) = mode_level (ds_current_mode s) - length es \<and>
     (3 \<le> length es \<longrightarrow> degr_get_mode (foldl degr_step m es) sy = NORMAL)"
proof -
  from healthy_run [OF assms] have l: "mode_level (degr_get_mode (foldl degr_step m es) sy) = mode_level (ds_current_mode s) - length es"
    by (auto simp: degr_get_mode_def)
  moreover have "mode_level (ds_current_mode s) \<le> 3" by (cases "ds_current_mode s") simp_all
  ultimately show ?thesis by (cases "degr_get_mode (foldl degr_step m es) sy") auto
qed

text \<open>The override \<open>NORMAL\<close> is only one recommendation among others, so it never makes a difference to the mode.\<close>

theorem override_normal_is_ignored:
  assumes "di_manual_override i = None"
  shows "dd_mode (snd (degr_evaluate m sy (i\<lparr>di_manual_override := Some NORMAL\<rparr>) created now)) = dd_mode (snd (degr_evaluate m sy i created now))"
proof -
  have "recommendations (dm_config m) (i\<lparr>di_manual_override := Some NORMAL\<rparr>) = (ManualOverride NORMAL, NORMAL) # recommendations (dm_config m) i"
    using assms by (simp add: recommendations_def degr_checks_def override_check_def ws_check_def feed_age_def)
  then have "recommended_mode (dm_config m) (i\<lparr>di_manual_override := Some NORMAL\<rparr>) = recommended_mode (dm_config m) i"
    by (cases "recommendations (dm_config m) i") (simp_all add: recommended_mode_def max_absorb2)
  then show ?thesis by (simp add: evaluate_state(3))
qed

section \<open>Examples\<close>

definition good_inputs :: degr_inputs where
  "good_inputs = \<lparr>di_feed_staleness = Some [(''trade'', Some 1)], di_data_quality = Some 1, di_spread_bps = Some 2,
     di_bid_depth_usd = Some 90000, di_ask_depth_usd = Some 80000, di_ws_connected = True, di_manual_override = None\<rparr>"

definition flattened_manager :: degradation_manager where
  "flattened_manager = degr_step (degradation_manager_init None)
     (DEval ''BTCUSDT'' (good_inputs\<lparr>di_data_quality := Some 0\<rparr>) (9, 9) 10)"

definition recovery_events :: "degr_event list" where
  "recovery_events = map (DEval ''BTCUSDT'' good_inputs (0, 0)) [70, 130, 200]"

lemma flattened_state:
  "map_option (\<lambda>s. (ds_current_mode s, ds_mode_since s)) (d_get (dm_states flattened_manager) ''BTCUSDT'') = Some (FLATTEN, 10)"
  "dm_config flattened_manager = default_degradation_config"
  by code_simp+

lemma recovery_events_healthy:
  "list_all (healthy_eval default_degradation_config ''BTCUSDT'') recovery_events" "eval_times ''BTCUSDT'' recovery_events = [70, 130, 200]"
  "spaced (dg_upgrade_cooldown_sec default_degradation_config) 10 [70, 130, 200]" "\<not> list_ex (overrides ''BTCUSDT'') recovery_events"
  by code_simp+

theorem recovery_is_slow_witness:
  "\<exists>ts. subseq ts [70, 130, 200] \<and> length ts = 3 - mode_level (degr_get_mode (foldl degr_step flattened_manager recovery_events) ''BTCUSDT'') \<and>
     spaced 60 10 ts"
proof -
  obtain s where s: "d_get (dm_states flattened_manager) ''BTCUSDT'' = Some s" "ds_current_mode s = FLATTEN" "ds_mode_since s = 10"
    using flattened_state by auto
  show ?thesis using recovery_is_slow [OF s(1) recovery_events_healthy(4)]
    by (simp add: s recovery_events_healthy(2) flattened_state(2)) (simp add: default_degradation_config_def)
qed

theorem healthy_evaluations_recover_witness:
  "degr_get_mode (foldl degr_step flattened_manager recovery_events) ''BTCUSDT'' = NORMAL"
proof -
  obtain s where s: "d_get (dm_states flattened_manager) ''BTCUSDT'' = Some s" "ds_current_mode s = FLATTEN" "ds_mode_since s = 10"
    using flattened_state by auto
  show ?thesis using healthy_evaluations_recover [OF s(1), of recovery_events]
    by (simp add: s recovery_events_healthy flattened_state(2) del: spaced.simps) (simp add: recovery_events_def)
qed

end
