(* ===== verification/Global_Gate.thy ===== *)
theory Global_Gate
  imports Degradation Py_Strings
begin

text \<open>
  The side-agnostic gate that runs before signal generation (quantgambit/signals/stages/global_gate.py), on top of the
  degradation manager.  The stage context is the record of the entries the gate reads from and writes into \<open>ctx.data\<close>;
  reasons are constructors with the values of the formatted text; the metrics dictionary and the trace logging are left out.
  An entry of the market context that is present but \<open>None\<close> counts as a missing one throughout; for \<open>spread_percentile\<close> the code
  takes the default only for a missing key, and with an explicit \<open>None\<close> it raises when there is a volatility shock, which is outside the
  model.
\<close>

section \<open>Configuration\<close>

record vol_shock_config =
  vs_size_multiplier_by_strategy :: "(string, pyfloat) dict"
  vs_ev_multiplier_by_strategy :: "(string, pyfloat) dict"
  vs_spread_threshold_for_taker :: pyfloat
  vs_reduced_maker_ttl_ms :: int

definition default_vol_shock_config :: vol_shock_config where
  "default_vol_shock_config = \<lparr>
     vs_size_multiplier_by_strategy = [(''mean_reversion'', 1 / 2), (''breakout'', 3 / 4), (''trend_pullback'', fl (7 / 10)), (''default'', 1 / 2)],
     vs_ev_multiplier_by_strategy = [(''mean_reversion'', 3 / 2), (''breakout'', 5 / 4), (''trend_pullback'', fl (13 / 10)), (''default'', 3 / 2)],
     vs_spread_threshold_for_taker = fl (4 / 5), vs_reduced_maker_ttl_ms = 2000\<rparr>"

record global_gate_config =
  gg_snapshot_age_ok_ms :: pyfloat
  gg_snapshot_age_reduce_ms :: pyfloat
  gg_snapshot_age_block_ms :: pyfloat
  gg_max_spread_bps :: pyfloat
  gg_max_spread_vs_typical_ratio :: pyfloat
  gg_min_depth_per_side_usd :: pyfloat
  gg_depth_typical_multiplier :: "pyfloat option"
  gg_block_on_vol_shock :: bool
  gg_vol_shock_config :: vol_shock_config
  gg_stale_data_size_factor :: pyfloat
  gg_wide_spread_size_factor :: pyfloat

definition default_global_gate_config :: global_gate_config where
  "default_global_gate_config = \<lparr>gg_snapshot_age_ok_ms = 2000, gg_snapshot_age_reduce_ms = 5000, gg_snapshot_age_block_ms = 10000,
     gg_max_spread_bps = 10, gg_max_spread_vs_typical_ratio = 3, gg_min_depth_per_side_usd = 10000,
     gg_depth_typical_multiplier = Some (1 / 2), gg_block_on_vol_shock = False, gg_vol_shock_config = default_vol_shock_config,
     gg_stale_data_size_factor = 1 / 2, gg_wide_spread_size_factor = 1 / 2\<rparr>"

section \<open>The stage context\<close>

datatype stage_result = CONTINUE | REJECT | COMPLETE | SKIP_TO_EXECUTION

text \<open>The fields of a market snapshot that the gate reads.\<close>

record gate_snapshot =
  sn_snapshot_age_ms :: pyfloat
  sn_spread_bps :: pyfloat
  sn_typical_spread_bps :: pyfloat
  sn_bid_depth_usd :: pyfloat
  sn_ask_depth_usd :: pyfloat
  sn_vol_shock :: bool
  sn_ws_connected :: bool

record gate_market_context =
  mc_feed_staleness :: "(string, pyfloat option) dict option"
  mc_data_quality_score :: "pyfloat option"
  mc_spread_percentile :: "pyfloat option"
  mc_mode :: "string option"

definition empty_market_context :: gate_market_context where
  "empty_market_context = \<lparr>mc_feed_staleness = None, mc_data_quality_score = None, mc_spread_percentile = None, mc_mode = None\<rparr>"

datatype gate_reason =
    NoSnapshot
  | FlattenMode "degr_reason list"
  | NoEntriesMode "degr_reason list"
  | SnapshotTooOld pyfloat pyfloat
  | SpreadTooWide pyfloat pyfloat
  | DepthTooThin pyfloat pyfloat
  | VolShockDetected
  | LowDataQuality pyfloat

record gate_decision =
  gt_allowed :: bool
  gt_gate_name :: string
  gt_reasons :: "gate_reason list"

record gate_ctx =
  gx_symbol :: string
  gx_snapshot :: "gate_snapshot option"
  gx_market_context :: "gate_market_context option"
  gx_is_exit_signal :: "bool option"
  gx_mode :: "string option"
  gx_resolved_min_depth :: "pyfloat option"
  gx_typical_depth_usd :: "pyfloat option"
  gx_strategy_type :: "string option"
  gx_profile_strategy_type :: "string option"
  gx_candidate_strategy_id :: "string option"
  gx_trading_mode :: "trading_mode option"
  gx_degradation_decision :: "degradation_decision option"
  gx_should_flatten :: bool
  gx_size_factor :: "pyfloat option"
  gx_vol_shock_active :: bool
  gx_vol_shock_size_multiplier :: "pyfloat option"
  gx_vol_shock_ev_multiplier :: "pyfloat option"
  gx_vol_shock_execution_mode :: "string option"
  gx_force_taker :: bool
  gx_maker_ttl_ms :: "int option"
  gx_gate_decisions :: "gate_decision list"
  gx_rejection_reason :: "gate_reason option"
  gx_rejection_stage :: "string option"
  gx_rejection_detail :: "gate_reason list"

section \<open>The stage\<close>

definition gate_reject :: "gate_ctx \<Rightarrow> gate_reason list \<Rightarrow> gate_ctx" where
  "gate_reject x reasons = x\<lparr>gx_rejection_reason := Some (hd reasons), gx_rejection_stage := Some ''global_gate'', gx_rejection_detail := reasons,
     gx_gate_decisions := gx_gate_decisions x @ [\<lparr>gt_allowed = False, gt_gate_name = ''global_gate'', gt_reasons = reasons\<rparr>]\<rparr>"

definition known_strategy_types :: "string list" where
  "known_strategy_types = [''mean_reversion'', ''breakout'', ''trend_pullback'']"

definition get_strategy_type :: "gate_ctx \<Rightarrow> string" where
  "get_strategy_type x = (case gx_strategy_type x of Some t \<Rightarrow> t
     | None \<Rightarrow> (case gx_profile_strategy_type x of Some t \<Rightarrow> t
     | None \<Rightarrow> (case gx_candidate_strategy_id x of None \<Rightarrow> ''default''
     | Some i \<Rightarrow> (case find (\<lambda>t. py_contains t (py_lower i)) known_strategy_types of Some t \<Rightarrow> t | None \<Rightarrow> ''default''))))"

definition vol_multiplier :: "(string, pyfloat) dict \<Rightarrow> string \<Rightarrow> pyfloat \<Rightarrow> pyfloat" where
  "vol_multiplier d strategy fallback = d_get_or d strategy (d_get_or d ''default'' fallback)"

definition apply_vol_shock :: "global_gate_config \<Rightarrow> gate_ctx \<Rightarrow> string \<Rightarrow> pyfloat \<Rightarrow> gate_ctx \<times> pyfloat" where
  "apply_vol_shock c x strategy percentile =
     (let v = gg_vol_shock_config c;
          size_mult = vol_multiplier (vs_size_multiplier_by_strategy v) strategy (1 / 2);
          ev_mult = vol_multiplier (vs_ev_multiplier_by_strategy v) strategy (3 / 2);
          taker = vs_spread_threshold_for_taker v < percentile;
          x1 = x\<lparr>gx_vol_shock_active := True, gx_vol_shock_size_multiplier := Some size_mult, gx_vol_shock_ev_multiplier := Some ev_mult,
                 gx_vol_shock_execution_mode := Some (if taker then ''taker_only'' else ''maker_first_reduced_ttl'')\<rparr>
      in (if taker then x1\<lparr>gx_force_taker := True\<rparr> else x1\<lparr>gx_maker_ttl_ms := Some (vs_reduced_maker_ttl_ms v)\<rparr>, size_mult))"

definition is_backtest :: "gate_ctx \<Rightarrow> bool" where
  "is_backtest x = (gx_mode x = Some ''backtest'' \<or>
     (case gx_market_context x of None \<Rightarrow> False | Some mc \<Rightarrow> mc_mode mc = Some ''backtest''))"

definition depth_threshold :: "global_gate_config \<Rightarrow> gate_ctx \<Rightarrow> pyfloat" where
  "depth_threshold c x = (case gx_resolved_min_depth x of Some d \<Rightarrow> d
     | None \<Rightarrow> (case (gx_typical_depth_usd x, gg_depth_typical_multiplier c) of
         (Some t, Some k) \<Rightarrow> if 0 < t then fmul k t else gg_min_depth_per_side_usd c
       | _ \<Rightarrow> gg_min_depth_per_side_usd c))"

definition gate_inputs :: "gate_market_context \<Rightarrow> gate_snapshot \<Rightarrow> degr_inputs" where
  "gate_inputs mc s = \<lparr>di_feed_staleness = Some (opt_list (mc_feed_staleness mc)), di_data_quality = mc_data_quality_score mc,
     di_spread_bps = Some (sn_spread_bps s), di_bid_depth_usd = Some (sn_bid_depth_usd s), di_ask_depth_usd = Some (sn_ask_depth_usd s),
     di_ws_connected = sn_ws_connected s, di_manual_override = None\<rparr>"

text \<open>The checks after the degradation mode: their reasons, the changed context and the size factor, in the order of the code.\<close>

definition traditional_checks ::
  "global_gate_config \<Rightarrow> gate_ctx \<Rightarrow> gate_market_context \<Rightarrow> gate_snapshot \<Rightarrow> degradation_decision \<Rightarrow> pyfloat \<Rightarrow> gate_ctx \<times> gate_reason list \<times> pyfloat" where
  "traditional_checks c x mc s dd size0 =
     (let age = sn_snapshot_age_ms s; spread = sn_spread_bps s;
          r1 = (if gg_snapshot_age_block_ms c < age then [SnapshotTooOld age (gg_snapshot_age_block_ms c)] else []);
          size1 = (if gg_snapshot_age_block_ms c < age then size0
                   else if gg_snapshot_age_reduce_ms c < age then fmul size0 (gg_stale_data_size_factor c) else size0);
          r2 = (if gg_max_spread_bps c < spread then [SpreadTooWide spread (gg_max_spread_bps c)] else []);
          size2 = (if 0 < sn_typical_spread_bps s \<and> fmul (sn_typical_spread_bps s) (gg_max_spread_vs_typical_ratio c) < spread
                   then fmul size1 (gg_wide_spread_size_factor c) else size1);
          depth = min (sn_bid_depth_usd s) (sn_ask_depth_usd s);
          r3 = (if \<not> is_backtest x \<and> depth < depth_threshold c x then [DepthTooThin depth (depth_threshold c x)] else []);
          r4 = (if sn_vol_shock s \<and> gg_block_on_vol_shock c then [VolShockDetected] else []);
          (x1, size3) = (if sn_vol_shock s \<and> \<not> gg_block_on_vol_shock c
             then (let (x1, k) = apply_vol_shock c x (get_strategy_type x)
                        (case mc_spread_percentile mc of None \<Rightarrow> 1 / 2 | Some p \<Rightarrow> p) in (x1, fmul size2 k))
             else (x, size2));
          r5 = (case mc_data_quality_score mc of None \<Rightarrow> []
                | Some q \<Rightarrow> if q < 1 / 2 \<and> dd_mode dd = NORMAL then [LowDataQuality q] else [])
      in (x1, r1 @ r2 @ r3 @ r4 @ r5, size3))"

definition global_gate_run ::
  "global_gate_config \<Rightarrow> degradation_manager \<Rightarrow> gate_ctx \<Rightarrow> pyfloat \<times> pyfloat \<Rightarrow> pyfloat \<Rightarrow> degradation_manager \<times> gate_ctx \<times> stage_result" where
  "global_gate_run c m x created now =
     (case gx_snapshot x of
        None \<Rightarrow> (m, gate_reject x [NoSnapshot], REJECT)
      | Some s \<Rightarrow>
        (let mc = (case gx_market_context x of None \<Rightarrow> empty_market_context | Some mc \<Rightarrow> mc);
             (m', dd) = degr_evaluate m (gx_symbol x) (gate_inputs mc s) created now;
             x0 = x\<lparr>gx_trading_mode := Some (dd_mode dd), gx_degradation_decision := Some dd\<rparr>
         in if dd_mode dd = FLATTEN
            then (m', gate_reject (x0\<lparr>gx_should_flatten := True\<rparr>) [FlattenMode (take 3 (dd_reasons dd))], REJECT)
            else if dd_mode dd = NO_ENTRIES \<and> gx_is_exit_signal x \<noteq> Some True
            then (m', gate_reject x0 [NoEntriesMode (take 3 (dd_reasons dd))], REJECT)
            else (let (x1, reasons, sz) = traditional_checks c x0 mc s dd (if dd_mode dd = REDUCE_SIZE then fmul 1 (dd_size_multiplier dd) else 1)
                  in if reasons \<noteq> [] then (m', gate_reject x1 reasons, REJECT)
                     else (m', x1\<lparr>gx_size_factor := Some sz, gx_gate_decisions := gx_gate_decisions x1 @
                              [\<lparr>gt_allowed = True, gt_gate_name = ''global_gate'', gt_reasons = []\<rparr>]\<rparr>, CONTINUE))))"

section \<open>What a run does\<close>

text \<open>The market context that the stage works with, and the mode that the degradation manager answers.\<close>

definition market_of :: "gate_ctx \<Rightarrow> gate_market_context" where
  "market_of x = (case gx_market_context x of None \<Rightarrow> empty_market_context | Some mc \<Rightarrow> mc)"

definition gate_mode :: "degradation_manager \<Rightarrow> gate_ctx \<Rightarrow> gate_snapshot \<Rightarrow> pyfloat \<times> pyfloat \<Rightarrow> pyfloat \<Rightarrow> trading_mode" where
  "gate_mode m x s created now = dd_mode (snd (degr_evaluate m (gx_symbol x) (gate_inputs (market_of x) s) created now))"

text \<open>The market conditions that the stage demands of entries and exits alike.\<close>

definition market_acceptable :: "global_gate_config \<Rightarrow> gate_ctx \<Rightarrow> gate_snapshot \<Rightarrow> trading_mode \<Rightarrow> bool" where
  "market_acceptable c x s mode =
     (sn_snapshot_age_ms s \<le> gg_snapshot_age_block_ms c \<and> sn_spread_bps s \<le> gg_max_spread_bps c \<and>
      (is_backtest x \<or> depth_threshold c x \<le> sn_bid_depth_usd s \<and> depth_threshold c x \<le> sn_ask_depth_usd s) \<and>
      \<not> (sn_vol_shock s \<and> gg_block_on_vol_shock c) \<and>
      (case mc_data_quality_score (market_of x) of None \<Rightarrow> True | Some q \<Rightarrow> 1 / 2 \<le> q \<or> mode \<noteq> NORMAL))"

lemma traditional_reasons:
  "fst (snd (traditional_checks c x (market_of x) s dd sz)) = [] \<longleftrightarrow> market_acceptable c x s (dd_mode dd)"
  by (auto simp: traditional_checks_def market_acceptable_def Let_def case_prod_beta not_less split: option.split)

lemma traditional_frame:
  "gx_gate_decisions (fst (traditional_checks c x mc s dd sz)) = gx_gate_decisions x"
  "gx_rejection_stage (fst (traditional_checks c x mc s dd sz)) = gx_rejection_stage x"
  "gx_rejection_reason (fst (traditional_checks c x mc s dd sz)) = gx_rejection_reason x"
  by (simp_all add: traditional_checks_def Let_def case_prod_beta apply_vol_shock_def)

lemma degradation_fields_irrelevant:
  fixes x :: gate_ctx
  shows "market_of (x\<lparr>gx_trading_mode := a, gx_degradation_decision := b\<rparr>) = market_of x"
    "market_acceptable c (x\<lparr>gx_trading_mode := a, gx_degradation_decision := b\<rparr>) s mode = market_acceptable c x s mode"
proof -
  have "depth_threshold c (x\<lparr>gx_trading_mode := a, gx_degradation_decision := b\<rparr>) = depth_threshold c x"
    by (simp add: depth_threshold_def split: option.split)
  then show "market_of (x\<lparr>gx_trading_mode := a, gx_degradation_decision := b\<rparr>) = market_of x"
    "market_acceptable c (x\<lparr>gx_trading_mode := a, gx_degradation_decision := b\<rparr>) s mode = market_acceptable c x s mode"
    by (simp_all add: market_of_def market_acceptable_def is_backtest_def)
qed

lemma gate_run_cases:
  assumes "gx_snapshot x = Some s"
  shows "fst (global_gate_run c m x created now) = fst (degr_evaluate m (gx_symbol x) (gate_inputs (market_of x) s) created now)"
    "snd (snd (global_gate_run c m x created now)) = CONTINUE \<longleftrightarrow>
       gate_mode m x s created now \<noteq> FLATTEN \<and> (gate_mode m x s created now = NO_ENTRIES \<longrightarrow> gx_is_exit_signal x = Some True) \<and>
       market_acceptable c x s (gate_mode m x s created now)"
proof -
  obtain m' dd where e: "degr_evaluate m (gx_symbol x) (gate_inputs (market_of x) s) created now = (m', dd)" by force
  then have mode: "gate_mode m x s created now = dd_mode dd" by (simp add: gate_mode_def)
  note r = traditional_reasons [of c "x\<lparr>gx_trading_mode := Some (dd_mode dd), gx_degradation_decision := Some dd\<rparr>" s dd,
      unfolded degradation_fields_irrelevant]
  show "fst (global_gate_run c m x created now) = fst (degr_evaluate m (gx_symbol x) (gate_inputs (market_of x) s) created now)"
    using assms e by (simp add: global_gate_run_def market_of_def [symmetric] Let_def case_prod_beta)
  show "snd (snd (global_gate_run c m x created now)) = CONTINUE \<longleftrightarrow>
       gate_mode m x s created now \<noteq> FLATTEN \<and> (gate_mode m x s created now = NO_ENTRIES \<longrightarrow> gx_is_exit_signal x = Some True) \<and>
       market_acceptable c x s (gate_mode m x s created now)"
    using assms e r by (auto simp: global_gate_run_def market_of_def [symmetric] Let_def case_prod_beta mode)
qed

text \<open>The size factor is a product of factors of the configuration.\<close>

definition factors_ok :: "global_gate_config \<Rightarrow> bool" where
  "factors_ok c = (0 < gg_stale_data_size_factor c \<and> gg_stale_data_size_factor c \<le> 1 \<and>
     0 < gg_wide_spread_size_factor c \<and> gg_wide_spread_size_factor c \<le> 1 \<and>
     list_all (\<lambda>(t, k). 0 < k \<and> k \<le> 1) (vs_size_multiplier_by_strategy (gg_vol_shock_config c)))"

lemma vol_multiplier_bounds:
  assumes "list_all (\<lambda>(t, k). 0 < k \<and> k \<le> 1) d"
  shows "0 < vol_multiplier d t (1 / 2) \<and> vol_multiplier d t (1 / 2) \<le> 1"
proof -
  have "0 < k \<and> k \<le> 1" if "d_get d t = Some k" for t k
    using d_get_mem [OF that] assms by (auto simp: list_all_iff)
  then show ?thesis by (auto simp: vol_multiplier_def d_get_or_def split: option.split)
qed

lemma fmul_shrinks: "0 < a \<Longrightarrow> a \<le> b \<Longrightarrow> is_float b \<Longrightarrow> 0 < k \<Longrightarrow> k \<le> 1 \<Longrightarrow> 0 < fmul a k \<and> fmul a k \<le> b"
proof
  assume a: "0 < a" "a \<le> b" "is_float b" "0 < k" "k \<le> (1 :: rat)"
  then show "0 < fmul a k" by (simp add: fmul_def)
  have "a * k \<le> b * 1" using a by (intro mult_mono) auto
  then show "fmul a k \<le> b" unfolding fmul_def using a(3) by (intro fl_le) simp_all
qed

lemma size_bounds:
  assumes "factors_ok c" "0 < sz" "sz \<le> b" "is_float b"
  shows "0 < snd (snd (traditional_checks c x mc s dd sz)) \<and> snd (snd (traditional_checks c x mc s dd sz)) \<le> b"
proof -
  define s1 where "s1 = (if gg_snapshot_age_block_ms c < sn_snapshot_age_ms s then sz
     else if gg_snapshot_age_reduce_ms c < sn_snapshot_age_ms s then fmul sz (gg_stale_data_size_factor c) else sz)"
  define s2 where "s2 = (if 0 < sn_typical_spread_bps s \<and> fmul (sn_typical_spread_bps s) (gg_max_spread_vs_typical_ratio c) < sn_spread_bps s
     then fmul s1 (gg_wide_spread_size_factor c) else s1)"
  have 1: "0 < s1 \<and> s1 \<le> b" using assms fmul_shrinks [of sz b] by (auto simp: s1_def factors_ok_def)
  then have 2: "0 < s2 \<and> s2 \<le> b" using assms fmul_shrinks [of s1 b] by (auto simp: s2_def factors_ok_def)
  have "list_all (\<lambda>(t, k). 0 < k \<and> k \<le> 1) (vs_size_multiplier_by_strategy (gg_vol_shock_config c))"
    using assms(1) by (simp add: factors_ok_def)
  note k = vol_multiplier_bounds [OF this]
  have "snd (snd (traditional_checks c x mc s dd sz)) = (if sn_vol_shock s \<and> \<not> gg_block_on_vol_shock c
      then fmul s2 (vol_multiplier (vs_size_multiplier_by_strategy (gg_vol_shock_config c)) (get_strategy_type x) (1 / 2)) else s2)"
    unfolding s1_def s2_def by (simp add: traditional_checks_def Let_def case_prod_beta apply_vol_shock_def)
  with 2 k fmul_shrinks [of s2 b] assms(4) show ?thesis by simp
qed

lemma gate_result: "snd (snd (global_gate_run c m x created now)) \<in> {CONTINUE, REJECT}"
  by (auto simp: global_gate_run_def Let_def case_prod_beta split: option.split)

section \<open>Properties\<close>

text \<open>The gate as a specification: it continues exactly when there is a snapshot, the degradation mode is not \<open>FLATTEN\<close>, is
  \<open>NO_ENTRIES\<close> only for exits, and the market is acceptable, which is demanded of exits as well; either way it records exactly
  one decision that says so, and it changes the manager exactly as one evaluation does.\<close>

theorem gate_decides:
  "let (m', x', r) = global_gate_run c m x created now
   in (r = CONTINUE \<longleftrightarrow> (case gx_snapshot x of None \<Rightarrow> False | Some s \<Rightarrow>
         gate_mode m x s created now \<noteq> FLATTEN \<and> (gate_mode m x s created now = NO_ENTRIES \<longrightarrow> gx_is_exit_signal x = Some True) \<and>
         market_acceptable c x s (gate_mode m x s created now))) \<and>
      r \<in> {CONTINUE, REJECT} \<and>
      (\<exists>d. gx_gate_decisions x' = gx_gate_decisions x @ [d] \<and> gt_allowed d = (r = CONTINUE) \<and> gt_reasons d = [] = (r = CONTINUE)) \<and>
      (r = REJECT \<longrightarrow> gx_rejection_stage x' = Some ''global_gate'') \<and> (r = CONTINUE \<longrightarrow> gx_rejection_stage x' = gx_rejection_stage x) \<and>
      m' = (case gx_snapshot x of None \<Rightarrow> m | Some s \<Rightarrow> fst (degr_evaluate m (gx_symbol x) (gate_inputs (market_of x) s) created now))"
proof (cases "gx_snapshot x")
  case None
  then show ?thesis by (simp add: global_gate_run_def gate_reject_def)
next
  case (Some s)
  note runs = gate_run_cases [OF Some, of c m created now]
  have "\<exists>d. gx_gate_decisions (fst (snd (global_gate_run c m x created now))) = gx_gate_decisions x @ [d] \<and>
      gt_allowed d = (snd (snd (global_gate_run c m x created now)) = CONTINUE) \<and>
      gt_reasons d = [] = (snd (snd (global_gate_run c m x created now)) = CONTINUE)"
    and "snd (snd (global_gate_run c m x created now)) = REJECT \<longrightarrow>
      gx_rejection_stage (fst (snd (global_gate_run c m x created now))) = Some ''global_gate''"
    and "snd (snd (global_gate_run c m x created now)) = CONTINUE \<longrightarrow>
      gx_rejection_stage (fst (snd (global_gate_run c m x created now))) = gx_rejection_stage x"
    by (auto simp: Some global_gate_run_def gate_reject_def case_prod_beta Let_def traditional_frame)
  with runs Some gate_result [of c m x created now] show ?thesis by (simp add: case_prod_beta)
qed

text \<open>C10: An entry that passes the gate is safe: its measures are inside the entry limits of the degradation configuration, the
  symbol was in a mode that allows entries or had waited out the cooldown, the market is acceptable, and its size factor is
  positive and at most one, and at most one half in mode \<open>REDUCE_SIZE\<close>.\<close>

theorem gate_entry_safe:
  assumes "global_gate_run c m x created now = (m', x', CONTINUE)" and "gx_is_exit_signal x \<noteq> Some True" and "factors_ok c"
  shows "\<exists>s k. gx_snapshot x = Some s \<and> within_entry_limits (dm_config m) (gate_inputs (market_of x) s) \<and>
     (let st = state_before m (gx_symbol x) created in mode_allows_entries (ds_current_mode st) \<or>
        ds_current_mode st = NO_ENTRIES \<and> dg_upgrade_cooldown_sec (dm_config m) \<le> fsub now (ds_mode_since st)) \<and>
     market_acceptable c x s (gate_mode m x s created now) \<and>
     gx_size_factor x' = Some k \<and> 0 < k \<and> k \<le> 1 \<and> (gx_trading_mode x' = Some REDUCE_SIZE \<longrightarrow> k \<le> 1 / 2)"
proof -
  obtain s where s: "gx_snapshot x = Some s"
    using assms(1) by (cases "gx_snapshot x") (auto simp: global_gate_run_def)
  let ?i = "gate_inputs (market_of x) s"
  obtain m1 dd where e: "degr_evaluate m (gx_symbol x) ?i created now = (m1, dd)" by force
  have mode: "gate_mode m x s created now = dd_mode dd" by (simp add: gate_mode_def e)
  from gate_run_cases(2) [OF s, of c m created now] assms(1,2) mode
  have c: "dd_mode dd \<noteq> FLATTEN" "dd_mode dd \<noteq> NO_ENTRIES" "market_acceptable c x s (dd_mode dd)" by auto
  then have "mode_allows_entries (dd_mode dd)" by (cases "dd_mode dd") (simp_all add: allows_entries_iff)
  then have entry: "dd_allows_entries (snd (degr_evaluate m (gx_symbol x) ?i created now))" unfolding evaluate_decision by (simp add: e)
  let ?x0 = "x\<lparr>gx_trading_mode := Some (dd_mode dd), gx_degradation_decision := Some dd\<rparr>"
  define sz where "sz = (if dd_mode dd = REDUCE_SIZE then fmul 1 (dd_size_multiplier dd) else 1)"
  let ?t = "traditional_checks c ?x0 (market_of x) s dd sz"
  have half: "is_float (1 / 2)" "is_float 1" using is_float_exact [of 1 "-1"] by (simp_all add: is_float_def)
  have sz: "sz = (if dd_mode dd = REDUCE_SIZE then 1 / 2 else 1)"
    using evaluate_decision(3) [of m "gx_symbol x" ?i created now] half by (simp add: e size_multiplier_def fmul_def is_float_def sz_def)
  have x': "gx_size_factor x' = Some (snd (snd ?t))" "gx_trading_mode x' = gx_trading_mode (fst ?t)"
    using assms(1) s e c by (auto simp: global_gate_run_def market_of_def [symmetric] sz_def Let_def case_prod_beta split: if_splits)
  have "gx_trading_mode (fst ?t) = Some (dd_mode dd)"
    by (simp add: traditional_checks_def Let_def case_prod_beta apply_vol_shock_def)
  with x' sz size_bounds [OF assms(3), of sz sz ?x0 "market_of x" s dd] half
  have "gx_size_factor x' = Some (snd (snd ?t)) \<and> 0 < snd (snd ?t) \<and> snd (snd ?t) \<le> 1 \<and>
      (gx_trading_mode x' = Some REDUCE_SIZE \<longrightarrow> snd (snd ?t) \<le> 1 / 2)"
    by (auto split: if_splits)
  with s c(3) mode entry show ?thesis unfolding entries_allowed_iff by auto
qed

text \<open>An entry that passes with a stale snapshot and a volatility shock.\<close>

definition shock_ctx :: gate_ctx where
  "shock_ctx = \<lparr>gx_symbol = ''BTCUSDT'', gx_snapshot = Some \<lparr>sn_snapshot_age_ms = 6000, sn_spread_bps = 2, sn_typical_spread_bps = 2,
       sn_bid_depth_usd = 90000, sn_ask_depth_usd = 80000, sn_vol_shock = True, sn_ws_connected = True\<rparr>, gx_market_context = None,
     gx_is_exit_signal = None, gx_mode = None, gx_resolved_min_depth = None, gx_typical_depth_usd = Some 60000, gx_strategy_type = None,
     gx_profile_strategy_type = None, gx_candidate_strategy_id = Some ''Breakout_1m'', gx_trading_mode = None,
     gx_degradation_decision = None, gx_should_flatten = False, gx_size_factor = None, gx_vol_shock_active = False,
     gx_vol_shock_size_multiplier = None, gx_vol_shock_ev_multiplier = None, gx_vol_shock_execution_mode = None, gx_force_taker = False,
     gx_maker_ttl_ms = None, gx_gate_decisions = [], gx_rejection_reason = None, gx_rejection_stage = None, gx_rejection_detail = []\<rparr>"

lemma shock_run:
  "snd (snd (global_gate_run default_global_gate_config (degradation_manager_init None) shock_ctx (0, 0) 1)) = CONTINUE"
  "gx_size_factor (fst (snd (global_gate_run default_global_gate_config (degradation_manager_init None) shock_ctx (0, 0) 1))) = Some (3 / 8)"
  by code_simp+

theorem gate_entry_safe_witness:
  "\<exists>s k. gx_snapshot shock_ctx = Some s \<and> within_entry_limits default_degradation_config (gate_inputs (market_of shock_ctx) s) \<and>
     gx_size_factor (fst (snd (global_gate_run default_global_gate_config (degradation_manager_init None) shock_ctx (0, 0) 1))) = Some k \<and>
     0 < k \<and> k \<le> 1"
proof -
  obtain m' x' where r: "global_gate_run default_global_gate_config (degradation_manager_init None) shock_ctx (0, 0) 1 = (m', x', CONTINUE)"
    using shock_run(1) by (metis prod.collapse)
  have "gx_is_exit_signal shock_ctx \<noteq> Some True" "factors_ok default_global_gate_config"
    by code_simp+
  moreover have "dm_config (degradation_manager_init None) = default_degradation_config" by (simp add: degradation_manager_init_def)
  ultimately show ?thesis using gate_entry_safe [OF r] by (auto simp: r)
qed

text \<open>An exit is rejected like an entry when the spread is above the absolute limit.\<close>

theorem wide_spread_blocks_exits:
  assumes "gx_snapshot x = Some s" and "gx_is_exit_signal x = Some True" and "gg_max_spread_bps c < sn_spread_bps s"
  shows "snd (snd (global_gate_run c m x created now)) = REJECT"
proof -
  have "snd (snd (global_gate_run c m x created now)) \<noteq> CONTINUE"
    using assms(3) by (simp add: gate_run_cases(2) [OF assms(1)] market_acceptable_def)
  then show ?thesis using gate_result [of c m x created now] by simp
qed

end
