(* ===== verification/Py_Data.thy ===== *)
theory Py_Data
  imports Py_Float Py_Strings
begin

text \<open>
  Dynamically typed values: the signals, positions and context entries of the signal pipeline are dictionaries or objects
  whose entries may have any type.  This theory holds their datatype and the operations of Python that the pipeline
  applies to them: truthiness, \<open>or\<close>, \<open>.get\<close>, attribute lookup with a default, and the conversions \<open>float()\<close> and \<open>int()\<close>.
  Infinities and NaN are outside the model of floats, so the texts \<open>inf\<close> and \<open>nan\<close> do not parse.
\<close>

section \<open>Values\<close>

datatype py_data =
    DNone
  | DBool bool
  | DInt int
  | DNum pyfloat
  | DStr string
  | DList "py_data list"
  | DDict "(string \<times> py_data) list"
  | DObj "(string \<times> py_data) list"

fun py_truthy :: "py_data \<Rightarrow> bool" where
  "py_truthy DNone = False"
| "py_truthy (DBool b) = b"
| "py_truthy (DInt i) = (i \<noteq> 0)"
| "py_truthy (DNum x) = (x \<noteq> 0)"
| "py_truthy (DStr s) = (s \<noteq> [])"
| "py_truthy (DList xs) = (xs \<noteq> [])"
| "py_truthy (DDict d) = (d \<noteq> [])"
| "py_truthy (DObj d) = True"

definition py_or :: "py_data \<Rightarrow> py_data \<Rightarrow> py_data" where
  "py_or a b = (if py_truthy a then a else b)"

fun is_dict :: "py_data \<Rightarrow> bool" where
  "is_dict (DDict d) = True"
| "is_dict x = False"

text \<open>A key of a dictionary or an attribute of an object, with a default; other values have none of the names looked up.\<close>

fun get_field :: "py_data \<Rightarrow> string \<Rightarrow> py_data \<Rightarrow> py_data" where
  "get_field (DDict d) k dflt = d_get_or d k dflt"
| "get_field (DObj d) k dflt = d_get_or d k dflt"
| "get_field x k dflt = dflt"

text \<open>\<open>x.get(k, default)\<close>, which only dictionaries have.\<close>

fun dict_get :: "py_data \<Rightarrow> string \<Rightarrow> py_data \<Rightarrow> py_error + py_data" where
  "dict_get (DDict d) k dflt = Inr (d_get_or d k dflt)"
| "dict_get x k dflt = Inl (OtherError ''AttributeError'')"

fun dict_set :: "py_data \<Rightarrow> string \<Rightarrow> py_data \<Rightarrow> py_data" where
  "dict_set (DDict d) k v = DDict (d_put d k v)"
| "dict_set x k v = x"

section \<open>Numbers\<close>

text \<open>The number in a comparison or a product; everything else raises \<open>TypeError\<close>.\<close>

fun py_num :: "py_data \<Rightarrow> py_error + rat" where
  "py_num (DBool b) = Inr (if b then 1 else 0)"
| "py_num (DInt i) = Inr (of_int i)"
| "py_num (DNum x) = Inr x"
| "py_num x = Inl (OtherError ''TypeError'')"

definition drop_sign :: "string \<Rightarrow> bool \<times> string" where
  "drop_sign s = (case s of [] \<Rightarrow> (False, []) | c # cs \<Rightarrow>
     if c = CHR ''-'' then (True, cs) else if c = CHR ''+'' then (False, cs) else (False, c # cs))"

text \<open>Digits with an optional point among them: the value, or nothing.\<close>

definition parse_decimal :: "string \<Rightarrow> rat option" where
  "parse_decimal s = (case split_char CHR ''.'' s of
       [i] \<Rightarrow> map_option of_nat (parse_nat i)
     | [i, f] \<Rightarrow>
         if i = [] \<and> f = [] then None
         else (case (if i = [] then Some 0 else parse_nat i, if f = [] then Some 0 else parse_nat f) of
             (Some a, Some b) \<Rightarrow> Some (of_nat a + of_nat b / 10 ^ length (filter (\<lambda>c. c \<noteq> CHR ''_'') f))
           | _ \<Rightarrow> None)
     | _ \<Rightarrow> None)"

definition parse_unsigned_float :: "string \<Rightarrow> rat option" where
  "parse_unsigned_float s = (case split_char CHR ''e'' (py_lower s) of
       [m] \<Rightarrow> parse_decimal m
     | [m, e] \<Rightarrow> (let (neg, ds) = drop_sign e
         in case (parse_decimal m, parse_nat ds) of
             (Some x, Some n) \<Rightarrow> Some (if neg then x / 10 ^ n else x * 10 ^ n)
           | _ \<Rightarrow> None)
     | _ \<Rightarrow> None)"

definition parse_float :: "string \<Rightarrow> pyfloat option" where
  "parse_float s = (let (neg, u) = drop_sign (strip s)
     in map_option (\<lambda>x. fl (if neg then - x else x)) (parse_unsigned_float u))"

text \<open>\<open>float(x)\<close> and \<open>int(x)\<close>; nothing when they raise \<open>TypeError\<close> or \<open>ValueError\<close>.\<close>

fun py_to_float :: "py_data \<Rightarrow> pyfloat option" where
  "py_to_float (DBool b) = Some (if b then 1 else 0)"
| "py_to_float (DInt i) = Some (fl (of_int i))"
| "py_to_float (DNum x) = Some x"
| "py_to_float (DStr s) = parse_float s"
| "py_to_float x = None"

definition trunc :: "rat \<Rightarrow> int" where
  "trunc x = (if 0 \<le> x then \<lfloor>x\<rfloor> else - \<lfloor>- x\<rfloor>)"

fun py_to_int :: "py_data \<Rightarrow> int option" where
  "py_to_int (DBool b) = Some (if b then 1 else 0)"
| "py_to_int (DInt i) = Some i"
| "py_to_int (DNum x) = Some (trunc x)"
| "py_to_int (DStr s) = (case parse_int s of Inl e \<Rightarrow> None | Inr i \<Rightarrow> Some i)"
| "py_to_int x = None"

section \<open>Library\<close>

lemma get_field_none [simp]: "get_field DNone k d = d"
  by simp

lemma get_dict_set [simp]: "is_dict x \<Longrightarrow> get_field (dict_set x k v) k' d = (if k' = k then v else get_field x k' d)"
  by (cases x) simp_all

lemma is_dict_set [simp]: "is_dict (dict_set x k v) = is_dict x"
  by (cases x) simp_all

lemma parse_float_examples:
  "parse_float '' -2.5 '' = Some (- 5 / 2)" "parse_float ''abc'' = None" "parse_float ''.'' = None"
  by code_simp+

end
