(* ===== verification/Pipeline.thy ===== *)
theory Pipeline
  imports Py_Data Global_Gate
begin

text \<open>
  The orchestrator of the signal pipeline (quantgambit/signals/pipeline.py): stages run one after the other on a shared
  context, with contracts on the context's entries before and after each stage, an exit signal that skips to the risk and
  execution stages, and an open position that skips entry generation.  A stage is its name and its effect on the context
  and on a world of its own state, so exceptions and state of the stages are part of the model.  Telemetry, latencies and
  the copies of gate decisions in the trace are left out.
\<close>

section \<open>Stages and contexts\<close>

datatype reject_detail =
    ContractDetail string string "string list"
  | PositionOpen string string string
  | StageDetail py_data

record stage_context =
  sc_symbol :: string
  sc_data :: py_data
  sc_rejection_reason :: "string option"
  sc_rejection_stage :: "string option"
  sc_rejection_detail :: "reject_detail option"
  sc_profile_id :: "string option"
  sc_signal :: py_data

datatype trace_result = Skipped | Ran stage_result

record trace_entry =
  tr_stage :: string
  tr_result :: trace_result
  tr_warnings_pre :: "string list"
  tr_warnings_post :: "string list"
  tr_reason :: "string option"
  tr_detail :: "reject_detail option"

record 'w pipe_stage =
  pg_name :: string
  pg_run :: "'w \<Rightarrow> stage_context \<Rightarrow> 'w \<times> (py_error + stage_context \<times> stage_result)"

section \<open>Stage order\<close>

definition canonical_stage_order :: "string list" where
  "canonical_stage_order = [''data_readiness'', ''amt_calculator'', ''global_gate'', ''profile_routing'', ''signal_check'', ''arbitration'',
     ''confirmation'', ''ev_gate'', ''execution_feasibility'', ''execution'']"

definition flexible_stages :: "string list" where
  "flexible_stages = [''position_evaluation'', ''risk_check'', ''prediction_gate'']"

definition default_profile_id :: string where "default_profile_id = ''default''"

fun position_in :: "string \<Rightarrow> string list \<Rightarrow> nat option" where
  "position_in x [] = None"
| "position_in x (y # ys) = (if x = y then Some 0 else map_option Suc (position_in x ys))"

datatype ordering_error = AppearsAfter string nat string nat | EvGateBeforeSignal nat nat

text \<open>The loop over the names, with the position and name of the last stage that was in order.\<close>

fun order_errors :: "(int \<times> string) \<Rightarrow> string list \<Rightarrow> ordering_error list" where
  "order_errors prev [] = []"
| "order_errors prev (n # ns) =
     (if n \<in> set flexible_stages then order_errors prev ns
      else case position_in n canonical_stage_order of
        None \<Rightarrow> order_errors prev ns
      | Some p \<Rightarrow> if int p < fst prev then AppearsAfter n p (snd prev) (nat (fst prev)) # order_errors prev ns
                  else order_errors (int p, n) ns)"

text \<open>The index of the last occurrence.\<close>

definition last_index :: "string \<Rightarrow> string list \<Rightarrow> nat option" where
  "last_index x ns = map_option (\<lambda>k. length ns - 1 - k) (position_in x (rev ns))"

definition validate_stage_ordering :: "string list \<Rightarrow> bool \<times> ordering_error list" where
  "validate_stage_ordering ns =
     (let errs = order_errors (-1, []) ns @
        (case (last_index ''ev_gate'' ns, last_index ''signal_check'' ns) of
           (Some e, Some s) \<Rightarrow> if e < s then [EvGateBeforeSignal e s] else []
         | _ \<Rightarrow> [])
      in (errs = [], errs))"

section \<open>Contracts\<close>

definition stage_required_data_keys :: "(string, string list) dict" where
  "stage_required_data_keys =
     [(''data_readiness'', [''features'', ''market_context'']), (''amt_calculator'', [''features'', ''market_context'']),
      (''symbol_characteristics'', [''features'', ''market_context'']), (''snapshot_builder'', [''features'', ''market_context'']),
      (''global_gate'', [''market_context'']), (''profile_routing'', [''market_context'']), (''position_evaluation'', [''market_context'']),
      (''cooldown'', [''market_context'']), (''prediction_gate'', [''market_context'']), (''signal_check'', [''features'', ''market_context'']),
      (''confirmation'', [''market_context'']), (''strategy_trend_alignment'', [''market_context'']),
      (''model_direction_alignment'', [''prediction'']), (''cost_data_quality'', [''features'', ''market_context'']),
      (''ev_gate'', [''features'', ''market_context'', ''prediction'']), (''fee_aware_entry'', [''features'', ''market_context'']),
      (''session_filter'', [''market_context'']), (''confidence_position_sizer'', [''prediction'']), (''ev_position_sizer'', [''ev_gate_result'']),
      (''candidate_generation'', [''snapshot'']), (''candidate_veto'', [''candidate'', ''snapshot'']), (''risk_check'', [''signal'']),
      (''execution'', [''signal''])]"

definition stage_post_required_keys :: "(string, string list) dict" where
  "stage_post_required_keys = [(''profile_routing'', [''profile_id'']), (''signal_check'', [''signal'']), (''candidate_generation'', [''candidate''])]"

record pipeline_config =
  pc_validation_enabled :: bool
  pc_validation_strict :: bool
  pc_profile_router_present :: bool
  pc_trace_detail :: bool
  pc_block_if_position_exists :: bool
  pc_allow_position_replacement :: bool
  pc_max_positions_per_symbol :: int

text \<open>The names at construction: a strict orchestrator refuses a wrong order.\<close>

definition orchestrator_init :: "bool \<Rightarrow> bool \<Rightarrow> string list \<Rightarrow> pipeline_config \<Rightarrow> py_error + pipeline_config" where
  "orchestrator_init validate strict ns c =
     (if \<not> validate then Inr (c\<lparr>pc_profile_router_present := True\<rparr>)
      else if \<not> fst (validate_stage_ordering ns) \<and> strict then Inl (OtherError ''ConfigurationError'')
      else Inr (c\<lparr>pc_profile_router_present := (''profile_routing'' \<in> set ns)\<rparr>))"

text \<open>Keys once each, in the order of their first occurrence.\<close>

definition first_occurrences :: "'a list \<Rightarrow> 'a list" where "first_occurrences xs = rev (remdups (rev xs))"

definition contract_keys :: "bool \<Rightarrow> string \<Rightarrow> string list" where
  "contract_keys post n =
     (let req = d_get_or stage_required_data_keys n []
      in if post then first_occurrences (req @ d_get_or stage_post_required_keys n []) else req)"

definition key_missing :: "stage_context \<Rightarrow> string \<Rightarrow> bool" where
  "key_missing x k =
     (if k = ''signal'' then \<not> py_truthy (sc_signal x)
      else if k = ''profile_id'' then \<not> s_truthy (sc_profile_id x)
      else (let v = get_field (sc_data x) k DNone
            in v = DNone \<or> k \<in> {''features'', ''market_context''} \<and> v = DDict []))"

definition validate_contract :: "pipeline_config \<Rightarrow> bool \<Rightarrow> string \<Rightarrow> stage_context \<Rightarrow> stage_context \<times> bool \<times> string list" where
  "validate_contract c post n x =
     (let missing = (if pc_validation_enabled c then filter (key_missing x) (contract_keys post n) else [])
      in if missing = [] then (x, True, [])
         else if pc_validation_strict c then
           (x\<lparr>sc_rejection_reason := Some ''stage_data_contract_violation'', sc_rejection_stage := Some n,
              sc_rejection_detail := Some (ContractDetail (if post then ''post'' else ''pre'') n missing)\<rparr>, False, missing)
         else (x, True, missing))"

section \<open>Open positions\<close>

text \<open>\<open>_normalize_symbol\<close>: upper case, no settlement suffix, no separators, no contract suffixes.\<close>

definition strip_suffix :: "string \<Rightarrow> string \<Rightarrow> string" where
  "strip_suffix suf s = (if length suf \<le> length s \<and> drop (length s - length suf) s = suf then take (length s - length suf) s else s)"

definition normalize_symbol_text :: "string \<Rightarrow> string" where
  "normalize_symbol_text s =
     (let u = py_upper s; v = (if CHR '':'' \<in> set u then before_char CHR '':'' u else u);
          w = filter (\<lambda>ch. ch \<noteq> CHR ''/'' \<and> ch \<noteq> CHR ''-'') v
      in strip_suffix ''PERPETUAL'' (strip_suffix ''PERP'' (strip_suffix ''SWAP'' w)))"

definition normalize_symbol :: "py_data \<Rightarrow> py_error + string" where
  "normalize_symbol x = (if \<not> py_truthy x then Inr [] else case x of DStr s \<Rightarrow> Inr (normalize_symbol_text s) | _ \<Rightarrow> Inl (OtherError ''AttributeError''))"

definition py_elements :: "py_data \<Rightarrow> py_error + py_data list" where
  "py_elements x = (case x of DList xs \<Rightarrow> Inr xs | _ \<Rightarrow> if py_truthy x then Inl (OtherError ''TypeError'') else Inr [])"

definition same_symbol_positions :: "stage_context \<Rightarrow> py_error + py_data list" where
  "same_symbol_positions x = (case py_elements (py_or (get_field (sc_data x) ''positions'' DNone) (DList [])) of Inl e \<Rightarrow> Inl e
     | Inr ps \<Rightarrow> (case try_map (\<lambda>p. case normalize_symbol (get_field p ''symbol'' DNone) of Inl e \<Rightarrow> Inl e | Inr s \<Rightarrow> Inr (p, s)) ps of
         Inl e \<Rightarrow> Inl e
       | Inr qs \<Rightarrow> Inr (map fst (filter (\<lambda>q. snd q = (if sc_symbol x = [] then [] else normalize_symbol_text (sc_symbol x))) qs))))"

definition max_positions_per_symbol :: "pipeline_config \<Rightarrow> stage_context \<Rightarrow> py_error + rat" where
  "max_positions_per_symbol c x = (case dict_get (py_or (get_field (sc_data x) ''risk_limits'' DNone) (DDict [])) ''max_positions_per_symbol'' DNone of
       Inl e \<Rightarrow> Inl e | Inr DNone \<Rightarrow> Inr (of_int (pc_max_positions_per_symbol c)) | Inr v \<Rightarrow> py_num v)"

definition position_limit_reached :: "pipeline_config \<Rightarrow> stage_context \<Rightarrow> py_error + bool" where
  "position_limit_reached c x =
     (if \<not> py_truthy (get_field (sc_data x) ''positions'' DNone) then Inr False
      else case max_positions_per_symbol c x of Inl e \<Rightarrow> Inl e
       | Inr m \<Rightarrow> (case same_symbol_positions x of Inl e \<Rightarrow> Inl e | Inr ps \<Rightarrow> Inr (m \<le> of_nat (length ps))))"

definition should_skip_entry_generation :: "pipeline_config \<Rightarrow> stage_context \<Rightarrow> py_error + bool" where
  "should_skip_entry_generation c x =
     (if \<not> pc_block_if_position_exists c \<or> pc_allow_position_replacement c then Inr False else position_limit_reached c x)"

section \<open>Execution\<close>

definition final_stages :: "string list" where "final_stages = [''risk_check'', ''execution'']"

text \<open>How the remaining stages are treated.\<close>

datatype skip_mode = NoSkip | SkipToExecution | SkipEntry

definition skipped_entry :: "string \<Rightarrow> trace_entry" where
  "skipped_entry n = \<lparr>tr_stage = n, tr_result = Skipped, tr_warnings_pre = [], tr_warnings_post = [], tr_reason = None, tr_detail = None\<rparr>"

definition reject_entry :: "string \<Rightarrow> stage_context \<Rightarrow> string list \<Rightarrow> string list \<Rightarrow> trace_entry" where
  "reject_entry n x pre post = \<lparr>tr_stage = n, tr_result = Ran REJECT, tr_warnings_pre = pre, tr_warnings_post = post,
     tr_reason = sc_rejection_reason x, tr_detail = sc_rejection_detail x\<rparr>"

definition position_exists :: "pipeline_config \<Rightarrow> string \<Rightarrow> stage_context \<Rightarrow> stage_context" where
  "position_exists c n x = (let y = x\<lparr>sc_rejection_reason := Some ''position_exists'', sc_rejection_stage := Some n\<rparr>
     in if pc_trace_detail c then y\<lparr>sc_rejection_detail := Some (PositionOpen (sc_symbol x) ''same_symbol_position_open'' ''entry_generation_short_circuit'')\<rparr>
        else y)"

text \<open>One stage that is not skipped: its contract, its run, its second contract.\<close>

definition run_stage ::
  "pipeline_config \<Rightarrow> 'w pipe_stage \<Rightarrow> 'w \<Rightarrow> stage_context \<Rightarrow> 'w \<times> (py_error + stage_context \<times> trace_entry \<times> stage_result)" where
  "run_stage c s w x =
     (let (x1, ok, pre) = validate_contract c False (pg_name s) x
      in if \<not> ok then (w, Inr (x1, reject_entry (pg_name s) x1 [] [], REJECT))
         else case pg_run s w x1 of
           (w', Inl e) \<Rightarrow> (w', Inl e)
         | (w', Inr (x2, r)) \<Rightarrow>
           if r = REJECT then (w', Inr (x2\<lparr>sc_rejection_stage := (if sc_rejection_stage x2 = None then Some (pg_name s) else sc_rejection_stage x2)\<rparr>,
               reject_entry (pg_name s) x2 pre [], REJECT))
           else (let (x3, ok, post) = validate_contract c True (pg_name s) x2
                 in if \<not> ok then (w', Inr (x3, reject_entry (pg_name s) x3 pre post, REJECT))
                    else (w', Inr (x3, \<lparr>tr_stage = pg_name s, tr_result = Ran r, tr_warnings_pre = pre, tr_warnings_post = post,
                            tr_reason = None, tr_detail = None\<rparr>, r))))"

definition next_mode :: "pipeline_config \<Rightarrow> string \<Rightarrow> stage_context \<Rightarrow> stage_result \<Rightarrow> skip_mode \<Rightarrow> py_error + skip_mode" where
  "next_mode c n x r mode =
     (if r = SKIP_TO_EXECUTION then Inr SkipToExecution
      else if n = ''position_evaluation'' \<and> r = CONTINUE \<and> \<not> py_truthy (sc_signal x)
      then (case should_skip_entry_generation c x of Inl e \<Rightarrow> Inl e | Inr b \<Rightarrow> Inr (if b \<and> mode = NoSkip then SkipEntry else mode))
      else Inr mode)"

fun run_stages ::
  "pipeline_config \<Rightarrow> 'w pipe_stage list \<Rightarrow> 'w \<Rightarrow> stage_context \<Rightarrow> skip_mode \<Rightarrow> stage_result \<Rightarrow>
     'w \<times> (py_error + stage_context \<times> trace_entry list \<times> stage_result)" where
  "run_stages c [] w x mode prev = (w, Inr (x, [], prev))"
| "run_stages c (s # ss) w x mode prev =
     (if mode \<noteq> NoSkip \<and> pg_name s \<notin> set final_stages then
        (case run_stages c ss w x mode prev of
           (w', Inl e) \<Rightarrow> (w', Inl e)
         | (w', Inr (x', tr, r)) \<Rightarrow> (w', Inr (x', skipped_entry (pg_name s) # tr, r)))
      else if mode = SkipEntry \<and> pg_name s = ''risk_check'' then
        (let y = position_exists c (pg_name s) x in (w, Inr (y, [reject_entry (pg_name s) y [] []], REJECT)))
      else case run_stage c s w x of
          (w1, Inl e) \<Rightarrow> (w1, Inl e)
        | (w1, Inr (x1, t, r)) \<Rightarrow>
          if r = REJECT \<or> r = COMPLETE then (w1, Inr (x1, [t], r))
          else (case next_mode c (pg_name s) x1 r mode of
              Inl e \<Rightarrow> (w1, Inl e)
            | Inr mode' \<Rightarrow>
              (case run_stages c ss w1 x1 mode' CONTINUE of
                 (w', Inl e) \<Rightarrow> (w', Inl e)
               | (w', Inr (x', tr, r')) \<Rightarrow> (w', Inr (x', t # tr, r')))))"

definition pipeline_execute ::
  "pipeline_config \<Rightarrow> 'w pipe_stage list \<Rightarrow> 'w \<Rightarrow> stage_context \<Rightarrow> 'w \<times> (py_error + stage_context \<times> trace_entry list \<times> stage_result)" where
  "pipeline_execute c ss w x =
     (let x0 = (if \<not> pc_profile_router_present c \<and> sc_profile_id x = None then x\<lparr>sc_profile_id := Some default_profile_id\<rparr> else x)
      in case run_stages c ss w x0 NoSkip REJECT of
           (w', Inl e) \<Rightarrow> (w', Inl e)
         | (w', Inr (x', tr, r)) \<Rightarrow>
           (w', Inr (x', tr, if r \<in> {COMPLETE, CONTINUE} \<and> py_truthy (sc_signal x') then COMPLETE else REJECT)))"

section \<open>Stage order\<close>

definition canonical_positions :: "string list \<Rightarrow> nat list" where
  "canonical_positions ns = List.map_filter (\<lambda>n. position_in n canonical_stage_order) ns"

lemma map_filter_append: "List.map_filter f (xs @ ys) = List.map_filter f xs @ List.map_filter f ys"
  by (simp add: List.map_filter_def)

lemma map_filter_Cons: "List.map_filter f (x # xs) = (case f x of None \<Rightarrow> List.map_filter f xs | Some y \<Rightarrow> y # List.map_filter f xs)"
  by (simp add: List.map_filter_def split: option.split)

lemma map_filter_mem: "x \<in> set xs \<Longrightarrow> f x = Some y \<Longrightarrow> y \<in> set (List.map_filter f xs)"
  by (induction xs) (auto simp: map_filter_Cons split: option.split)

lemma flexible_not_canonical: "n \<in> set flexible_stages \<Longrightarrow> position_in n canonical_stage_order = None"
proof -
  have "list_all (\<lambda>n. position_in n canonical_stage_order = None) flexible_stages" by code_simp
  then show "n \<in> set flexible_stages \<Longrightarrow> position_in n canonical_stage_order = None" by (simp add: list_all_iff)
qed

lemma order_errors_none:
  "order_errors (k, nm) ns = [] \<longleftrightarrow> (\<forall>p \<in> set (canonical_positions ns). k \<le> int p) \<and> sorted (canonical_positions ns)"
proof (induction ns arbitrary: k nm)
  case (Cons n ns)
  show ?case
  proof (cases "position_in n canonical_stage_order")
    case (Some p)
    then have "n \<notin> set flexible_stages" using flexible_not_canonical by fastforce
    with Some show ?thesis
      using Cons.IH [of "int p" n] by (auto simp: canonical_positions_def map_filter_Cons) (meson not_less of_nat_le_iff order_trans)
  next
    case None
    with Cons.IH [of k nm] show ?thesis by (simp add: canonical_positions_def map_filter_Cons)
  qed
qed (simp add: canonical_positions_def List.map_filter_def)

lemma position_in_nth: "position_in x xs = Some k \<Longrightarrow> k < length xs \<and> xs ! k = x"
proof (induction xs arbitrary: k)
  case (Cons y ys)
  then show ?case by (cases k) (auto split: if_splits)
qed simp

lemma last_index_nth: "last_index x ns = Some i \<Longrightarrow> i < length ns \<and> ns ! i = x"
  using position_in_nth [of x "rev ns"] by (auto simp: last_index_def rev_nth)

lemma sorted_positions_nth:
  assumes "sorted (canonical_positions ns)" "i < j" "j < length ns" "position_in (ns ! i) canonical_stage_order = Some p"
    "position_in (ns ! j) canonical_stage_order = Some q"
  shows "p \<le> q"
proof -
  have "canonical_positions (take j ns @ ns ! j # drop (Suc j) ns) = canonical_positions (take j ns) @ q # canonical_positions (drop (Suc j) ns)"
    by (simp only: canonical_positions_def map_filter_append map_filter_Cons assms(5) option.case)
  then have c: "canonical_positions ns = canonical_positions (take j ns) @ q # canonical_positions (drop (Suc j) ns)"
    by (simp only: id_take_nth_drop [OF assms(3), symmetric])
  have "ns ! i \<in> set (take j ns)" using assms(2,3) by (auto simp: in_set_conv_nth)
  then have "p \<in> set (canonical_positions (take j ns))"
    unfolding canonical_positions_def by (rule map_filter_mem [where f = "\<lambda>n. position_in n canonical_stage_order", OF _ assms(4)])
  with assms(1) show ?thesis unfolding c by (auto simp: sorted_append)
qed

section \<open>Runs\<close>

lemma run_stage_entry:
  assumes "run_stage c s w x = (w', Inr (x', t, r))"
  shows "tr_stage t = pg_name s" "tr_result t = Ran r"
  using assms by (auto simp: run_stage_def reject_entry_def Let_def case_prod_beta split: prod.splits sum.splits if_splits)

lemma run_stage_ran:
  assumes "run_stage c s w x = (w', Inr (x', t, r))" "r \<noteq> REJECT"
  shows "\<exists>x1 x2. pg_run s w x1 = (w', Inr (x2, r))"
  using assms by (auto simp: run_stage_def Let_def case_prod_beta split: prod.splits sum.splits if_splits)

text \<open>The four ways in which a run goes on at a stage.\<close>

lemma run_stages_cases:
  assumes "run_stages c (s # ss) w x mode prev = (w', Inr (x', tr, r))"
  obtains (skips) tr1 where "mode \<noteq> NoSkip" "pg_name s \<notin> set final_stages" "tr = skipped_entry (pg_name s) # tr1"
      "run_stages c ss w x mode prev = (w', Inr (x', tr1, r))"
  | (short_circuit) "mode = SkipEntry" "pg_name s = ''risk_check''" "w' = w" "x' = position_exists c (pg_name s) x"
      "tr = [reject_entry (pg_name s) x' [] []]" "r = REJECT"
  | (ends) t where "mode = NoSkip \<or> pg_name s \<in> set final_stages" "run_stage c s w x = (w', Inr (x', t, r))" "tr = [t]" "r = REJECT \<or> r = COMPLETE"
  | (goes_on) w1 x1 t r1 mode1 tr1 where "mode = NoSkip \<or> pg_name s \<in> set final_stages" "run_stage c s w x = (w1, Inr (x1, t, r1))"
      "r1 = CONTINUE \<or> r1 = SKIP_TO_EXECUTION" "next_mode c (pg_name s) x1 r1 mode = Inr mode1" "tr = t # tr1"
      "run_stages c ss w1 x1 mode1 CONTINUE = (w', Inr (x', tr1, r))"
proof (cases "mode \<noteq> NoSkip \<and> pg_name s \<notin> set final_stages")
  case True
  with assms show ?thesis by (auto intro: skips split: prod.splits sum.splits)
next
  case False
  note nf = this
  show ?thesis
  proof (cases "mode = SkipEntry \<and> pg_name s = ''risk_check''")
    case True
    with nf assms show ?thesis by (intro short_circuit) (auto simp: Let_def)
  next
    case no: False
    obtain w1 a where rs: "run_stage c s w x = (w1, a)" by force
    with nf no assms obtain x1 t r1 where a: "a = Inr (x1, t, r1)" by (cases a) auto
    show ?thesis
    proof (cases "r1 = REJECT \<or> r1 = COMPLETE")
      case True
      with nf no assms rs a show ?thesis by (intro ends [of t]) auto
    next
      case False
      then have r1: "r1 = CONTINUE \<or> r1 = SKIP_TO_EXECUTION" by (cases r1) auto
      from False nf no assms rs a obtain mode1 where m: "next_mode c (pg_name s) x1 r1 mode = Inr mode1"
        by (cases "next_mode c (pg_name s) x1 r1 mode") auto
      from False nf no assms rs a m obtain tr1 where "tr = t # tr1" "run_stages c ss w1 x1 mode1 CONTINUE = (w', Inr (x', tr1, r))"
        by (auto split: prod.splits sum.splits)
      with nf rs a r1 m show ?thesis by (intro goes_on [of w1 x1 t r1 mode1 tr1]) auto
    qed
  qed
qed

lemma next_mode_keeps: "next_mode c n x r mode = Inr mode1 \<Longrightarrow> mode \<noteq> NoSkip \<Longrightarrow> mode1 \<noteq> NoSkip"
  by (auto simp: next_mode_def split: if_splits sum.splits)

lemma next_mode_skip: "next_mode c n x SKIP_TO_EXECUTION mode = Inr mode1 \<Longrightarrow> mode1 \<noteq> NoSkip"
  by (simp add: next_mode_def)

text \<open>The shape of a trace: the stages in their order up to the one that ended the run, and nothing after it.\<close>

definition stops :: "trace_entry \<Rightarrow> bool" where
  "stops t = (tr_result t = Ran REJECT \<or> tr_result t = Ran COMPLETE)"

definition trace_ok :: "string list \<Rightarrow> trace_entry list \<Rightarrow> stage_result \<Rightarrow> stage_result \<Rightarrow> bool" where
  "trace_ok ns tr prev r =
     (map tr_stage tr = take (length tr) ns \<and> (\<forall>t \<in> set (butlast tr). \<not> stops t) \<and>
      (if tr = [] then r = prev else if stops (last tr) then tr_result (last tr) = Ran r else r = CONTINUE \<and> length tr = length ns) \<and>
      length tr \<le> length ns \<and> (tr = [] \<longrightarrow> ns = []))"

lemma trace_ok_Cons:
  assumes "trace_ok ns tr prev r" "\<not> stops t" "tr_stage t = n" "prev = CONTINUE \<or> tr \<noteq> [] \<or> ns \<noteq> []"
  shows "trace_ok (n # ns) (t # tr) prev' r"
  using assms by (cases tr) (auto simp: trace_ok_def)

lemma run_stages_trace:
  "run_stages c ss w x mode prev = (w', Inr (x', tr, r)) \<Longrightarrow> mode \<noteq> NoSkip \<longrightarrow> prev = CONTINUE \<Longrightarrow> trace_ok (map pg_name ss) tr prev r"
proof (induction ss arbitrary: w x mode prev tr)
  case Nil
  then show ?case by (simp add: trace_ok_def)
next
  case (Cons s ss)
  from Cons.prems(1) show ?case
  proof (cases rule: run_stages_cases)
    case (skips tr1)
    with Cons.IH [OF skips(4)] Cons.prems(2) show ?thesis
      by (auto intro!: trace_ok_Cons simp: skipped_entry_def stops_def)
  next
    case short_circuit
    then show ?thesis by (simp add: trace_ok_def stops_def reject_entry_def)
  next
    case (ends t)
    with run_stage_entry [OF ends(2)] show ?thesis by (auto simp: trace_ok_def stops_def)
  next
    case (goes_on w1 x1 t r1 mode1 tr1)
    with run_stage_entry [OF goes_on(2)] Cons.IH [OF goes_on(6)] show ?thesis
      by (auto intro!: trace_ok_Cons simp: stops_def)
  qed
qed

text \<open>Once stages are skipped, only the final stages run.\<close>

lemma skip_mode_final:
  "run_stages c ss w x mode prev = (w', Inr (x', tr, r)) \<Longrightarrow> mode \<noteq> NoSkip \<Longrightarrow> t \<in> set tr \<Longrightarrow> tr_stage t \<notin> set final_stages \<Longrightarrow> tr_result t = Skipped"
proof (induction ss arbitrary: w x mode prev tr)
  case (Cons s ss)
  from Cons.prems(1) show ?case
  proof (cases rule: run_stages_cases)
    case (skips tr1)
    with Cons.IH [OF skips(4)] Cons.prems(2-) show ?thesis by (auto simp: skipped_entry_def)
  next
    case short_circuit
    then show ?thesis using Cons.prems(3,4) by (simp add: reject_entry_def final_stages_def)
  next
    case (ends t)
    with run_stage_entry [OF ends(2)] Cons.prems(2-) show ?thesis by auto
  next
    case (goes_on w1 x1 t1 r1 mode1 tr1)
    with run_stage_entry [OF goes_on(2)] Cons.IH [OF goes_on(6)] next_mode_keeps [OF goes_on(4)] Cons.prems(2-) show ?thesis by auto
  qed
qed simp

definition exits_only_final :: "trace_entry \<Rightarrow> trace_entry \<Rightarrow> bool" where
  "exits_only_final t u = (tr_result t = Ran SKIP_TO_EXECUTION \<longrightarrow> tr_stage u \<in> set final_stages \<or> tr_result u = Skipped)"

lemma exit_skips:
  "run_stages c ss w x mode prev = (w', Inr (x', tr, r)) \<Longrightarrow> sorted_wrt exits_only_final tr"
proof (induction ss arbitrary: w x mode prev tr)
  case (Cons s ss)
  from Cons.prems show ?case
  proof (cases rule: run_stages_cases)
    case (skips tr1)
    with Cons.IH [OF skips(4)] show ?thesis by (simp add: skipped_entry_def exits_only_final_def)
  next
    case (goes_on w1 x1 t1 r1 mode1 tr1)
    have "exits_only_final t1 u" if "u \<in> set tr1" for u
    proof (unfold exits_only_final_def, rule impI)
      assume "tr_result t1 = Ran SKIP_TO_EXECUTION"
      with run_stage_entry(2) [OF goes_on(2)] goes_on(4) have "mode1 \<noteq> NoSkip" by (simp add: next_mode_skip)
      from skip_mode_final [OF goes_on(6) this that] show "tr_stage u \<in> set final_stages \<or> tr_result u = Skipped" by blast
    qed
    with goes_on(5) Cons.IH [OF goes_on(6)] show ?thesis by simp
  qed auto
qed simp

lemma validate_contract_ok: "validate_contract c post n x = (x1, True, ks) \<Longrightarrow> x1 = x"
  by (auto simp: validate_contract_def Let_def split: if_splits)

text \<open>A stage that did not reject ran on the very context it was handed.\<close>

lemma run_stage_passed:
  assumes "run_stage c s w x = (w', Inr (x', t, r))" "r \<noteq> REJECT"
  shows "\<exists>x2. pg_run s w x = (w', Inr (x2, r))"
  using assms by (auto simp: run_stage_def Let_def split: prod.splits sum.splits if_splits dest!: validate_contract_ok)

text \<open>A stage after \<open>g\<close> that is not final only runs when the stages before \<open>g\<close> and then \<open>g\<close> itself ran and did not reject: the run
  is cut into the run of the first stages, the run of \<open>g\<close> on the world and context they left, and the rest.\<close>

lemma run_cut:
  "run_stages c (as @ g # bs) w x mode prev = (w', Inr (x', tr, r)) \<Longrightarrow> pg_name g \<notin> set final_stages \<Longrightarrow>
     t \<in> set (drop (Suc (length as)) tr) \<Longrightarrow> tr_stage t \<notin> set final_stages \<Longrightarrow> tr_result t \<noteq> Skipped \<Longrightarrow>
     \<exists>w1 y w2 y2 r2. run_stages c as w x mode prev = (w1, Inr (y, take (length as) tr, if as = [] then prev else CONTINUE)) \<and>
       run_stage c g w1 y = (w2, Inr (y2, tr ! length as, r2)) \<and> (r2 = CONTINUE \<or> r2 = SKIP_TO_EXECUTION) \<and> length as < length tr"
proof (induction as arbitrary: w x mode prev tr)
  case Nil
  from Nil.prems(1) have "run_stages c (g # bs) w x mode prev = (w', Inr (x', tr, r))" by simp
  then show ?case
  proof (cases rule: run_stages_cases)
    case (skips tr1)
    with skip_mode_final [OF skips(4,1)] Nil.prems(3-) show ?thesis by auto
  next
    case (goes_on w1 x1 t1 r1 mode1 tr1)
    then show ?thesis by auto
  qed (use Nil.prems(3) in auto)
next
  case (Cons a as)
  from Cons.prems(1) have "run_stages c (a # (as @ g # bs)) w x mode prev = (w', Inr (x', tr, r))" by simp
  then show ?case
  proof (cases rule: run_stages_cases)
    case (skips tr1)
    with skip_mode_final [OF skips(4,1), of t] Cons.prems(3-) show ?thesis by (auto dest: in_set_dropD)
  next
    case (goes_on w1 x1 t1 r1 mode1 tr1)
    from Cons.IH [OF goes_on(6) Cons.prems(2)] Cons.prems(3-) goes_on(5) obtain w2 y w3 y3 r3 where
      *: "run_stages c as w1 x1 mode1 CONTINUE = (w2, Inr (y, take (length as) tr1, if as = [] then CONTINUE else CONTINUE))"
        "run_stage c g w2 y = (w3, Inr (y3, tr1 ! length as, r3))" "r3 = CONTINUE \<or> r3 = SKIP_TO_EXECUTION" "length as < length tr1"
      by auto
    have "\<not> (mode = SkipEntry \<and> pg_name a = ''risk_check'')"
    proof
      assume "mode = SkipEntry \<and> pg_name a = ''risk_check''"
      then have "mode \<noteq> NoSkip" by simp
      from skip_mode_final [OF Cons.prems(1) this _ Cons.prems(4)] Cons.prems(3,5) show False by (auto dest: in_set_dropD)
    qed
    with * goes_on show ?thesis by (intro exI [of _ w2] exI [of _ y] exI [of _ w3] exI [of _ y3] exI [of _ r3]) auto
  qed (use Cons.prems(3) in auto)
qed

text \<open>With an open position and no exit signal, nothing runs until the risk check, which rejects.\<close>

lemma skip_entry_rejects:
  "''risk_check'' \<in> set (map pg_name ss) \<Longrightarrow> ''execution'' \<notin> set (takeWhile (\<lambda>n. n \<noteq> ''risk_check'') (map pg_name ss)) \<Longrightarrow>
     \<exists>tr. run_stages c ss w x SkipEntry prev = (w, Inr (position_exists c ''risk_check'' x, tr, REJECT)) \<and>
       (\<forall>t \<in> set (butlast tr). tr_result t = Skipped)"
proof (induction ss)
  case (Cons s ss)
  show ?case
  proof (cases "pg_name s = ''risk_check''")
    case True
    then show ?thesis by (simp add: final_stages_def Let_def)
  next
    case False
    with Cons obtain tr where tr: "run_stages c ss w x SkipEntry prev = (w, Inr (position_exists c ''risk_check'' x, tr, REJECT))"
      "\<forall>t \<in> set (butlast tr). tr_result t = Skipped" by auto
    have "tr \<noteq> []" using Cons.prems(1) False tr(1) by (cases ss) (auto simp: Let_def split: prod.splits sum.splits if_splits)
    moreover have "pg_name s \<notin> set final_stages" using False Cons.prems(2) by (auto simp: final_stages_def)
    ultimately show ?thesis using tr by (auto simp: skipped_entry_def)
  qed
qed simp

section \<open>The gating pipeline\<close>

text \<open>The stages that the decision engine builds, with the optional confirmation stage.\<close>

definition gating_stage_names :: "bool \<Rightarrow> string list" where
  "gating_stage_names confirm =
     [''data_readiness'', ''amt_calculator'', ''symbol_characteristics'', ''snapshot_builder'', ''global_gate'', ''position_evaluation'',
      ''profile_routing'', ''cooldown'', ''prediction_gate'', ''signal_check''] @ (if confirm then [''confirmation''] else []) @
     [''strategy_trend_alignment'', ''model_direction_alignment'', ''cost_data_quality'', ''ev_gate'', ''session_filter'', ''ev_position_sizer'',
      ''candidate_generation'', ''candidate_veto'', ''risk_check'', ''execution_feasibility'', ''execution'']"

text \<open>The global gate as a stage: what it reads from the context and writes back, with the degradation manager as its state.\<close>

definition opt_num :: "py_data \<Rightarrow> pyfloat option" where
  "opt_num x = (case py_num x of Inl e \<Rightarrow> None | Inr v \<Rightarrow> Some v)"

definition opt_str :: "py_data \<Rightarrow> string option" where
  "opt_str x = (case x of DStr s \<Rightarrow> Some s | _ \<Rightarrow> None)"

definition num_or_0 :: "py_data \<Rightarrow> string \<Rightarrow> pyfloat" where
  "num_or_0 x k = (case opt_num (get_field x k DNone) of None \<Rightarrow> 0 | Some v \<Rightarrow> v)"

definition snapshot_view :: "py_data \<Rightarrow> gate_snapshot" where
  "snapshot_view s = \<lparr>sn_snapshot_age_ms = num_or_0 s ''snapshot_age_ms'', sn_spread_bps = num_or_0 s ''spread_bps'',
     sn_typical_spread_bps = num_or_0 s ''typical_spread_bps'', sn_bid_depth_usd = num_or_0 s ''bid_depth_usd'',
     sn_ask_depth_usd = num_or_0 s ''ask_depth_usd'', sn_vol_shock = py_truthy (get_field s ''vol_shock'' (DBool False)),
     sn_ws_connected = py_truthy (get_field s ''ws_connected'' (DBool True))\<rparr>"

definition market_view :: "py_data \<Rightarrow> gate_market_context" where
  "market_view mc = \<lparr>mc_feed_staleness = (case get_field mc ''feed_staleness'' DNone of DDict d \<Rightarrow> Some (map (\<lambda>(k, v). (k, opt_num v)) d) | _ \<Rightarrow> None),
     mc_data_quality_score = opt_num (get_field mc ''data_quality_score'' DNone),
     mc_spread_percentile = opt_num (get_field mc ''spread_percentile'' DNone), mc_mode = opt_str (get_field mc ''mode'' DNone)\<rparr>"

definition gate_view :: "stage_context \<Rightarrow> gate_ctx" where
  "gate_view x = (let d = sc_data x in
     \<lparr>gx_symbol = sc_symbol x,
      gx_snapshot = (let s = get_field d ''snapshot'' DNone in if s = DNone then None else Some (snapshot_view s)),
      gx_market_context = (let mc = get_field d ''market_context'' DNone in if py_truthy mc then Some (market_view mc) else None),
      gx_is_exit_signal = Some (py_truthy (get_field d ''is_exit_signal'' (DBool False))), gx_mode = opt_str (get_field d ''mode'' DNone),
      gx_resolved_min_depth = opt_num (get_field (get_field d ''resolved_params'' DNone) ''min_depth_per_side_usd'' DNone),
      gx_typical_depth_usd = opt_num (get_field (get_field d ''symbol_characteristics'' DNone) ''typical_depth_usd'' DNone),
      gx_strategy_type = opt_str (get_field d ''strategy_type'' DNone),
      gx_profile_strategy_type = opt_str (get_field (get_field d ''profile_params'' DNone) ''strategy_type'' DNone),
      gx_candidate_strategy_id = (let cd = get_field d ''candidate_signal'' DNone in
        if cd = DNone then None else opt_str (get_field cd ''strategy_id'' (DStr []))),
      gx_trading_mode = None, gx_degradation_decision = None, gx_should_flatten = False, gx_size_factor = None, gx_vol_shock_active = False,
      gx_vol_shock_size_multiplier = None, gx_vol_shock_ev_multiplier = None, gx_vol_shock_execution_mode = None, gx_force_taker = False,
      gx_maker_ttl_ms = None, gx_gate_decisions = [], gx_rejection_reason = None, gx_rejection_stage = None, gx_rejection_detail = []\<rparr>)"

text \<open>The written entries; nothing is written where the gate wrote nothing.\<close>

definition gate_writes :: "gate_ctx \<Rightarrow> (string \<times> py_data) list" where
  "gate_writes g =
     (case gx_trading_mode g of None \<Rightarrow> [] | Some m \<Rightarrow> [(''trading_mode'', DInt (int (mode_level m)))]) @
     (if gx_should_flatten g then [(''should_flatten'', DBool True)] else []) @
     (if gx_vol_shock_active g then [(''vol_shock_active'', DBool True)] else []) @
     (case gx_vol_shock_size_multiplier g of None \<Rightarrow> [] | Some k \<Rightarrow> [(''vol_shock_size_multiplier'', DNum k)]) @
     (case gx_vol_shock_ev_multiplier g of None \<Rightarrow> [] | Some k \<Rightarrow> [(''vol_shock_ev_multiplier'', DNum k)]) @
     (case gx_vol_shock_execution_mode g of None \<Rightarrow> [] | Some s \<Rightarrow> [(''vol_shock_execution_mode'', DStr s)]) @
     (if gx_force_taker g then [(''force_taker'', DBool True)] else []) @
     (case gx_maker_ttl_ms g of None \<Rightarrow> [] | Some i \<Rightarrow> [(''maker_ttl_ms'', DInt i)]) @
     (case gx_size_factor g of None \<Rightarrow> [] | Some k \<Rightarrow> [(''size_factor'', DNum k)])"

definition global_gate_stage ::
  "(gate_reason \<Rightarrow> string) \<Rightarrow> global_gate_config \<Rightarrow> pyfloat \<times> pyfloat \<Rightarrow> pyfloat \<Rightarrow> (degradation_manager \<times> 'w) pipe_stage" where
  "global_gate_stage show_reason c created now = \<lparr>pg_name = ''global_gate'', pg_run = (\<lambda>(m, w) x.
     let (m', g, r) = global_gate_run c m (gate_view x) created now;
         y = x\<lparr>sc_data := fold (\<lambda>(k, v) d. dict_set d k v) (gate_writes g) (sc_data x)\<rparr>
     in ((m', w), Inr (if r = REJECT then y\<lparr>sc_rejection_reason := map_option show_reason (gx_rejection_reason g),
           sc_rejection_stage := gx_rejection_stage g\<rparr> else y, r)))\<rparr>"

text \<open>The position evaluation stands behind the gate in every trace.\<close>

lemma position_evaluation_after_gate:
  assumes "trace_ok (map pg_name ss) tr prev r"
    and "map pg_name ss = gating_stage_names confirm" "t \<in> set tr" "tr_stage t = ''position_evaluation''"
  shows "t \<in> set (drop 5 tr)"
proof -
  have "map tr_stage tr = take (length tr) (gating_stage_names confirm)" using assms(1,2) by (simp add: trace_ok_def)
  then have "map tr_stage (take 5 tr) = take (length tr) (take 5 (gating_stage_names confirm))"
    by (simp add: take_map [symmetric] min.commute)
  then have "''position_evaluation'' \<notin> set (map tr_stage (take 5 tr))"
    by (auto simp: gating_stage_names_def dest!: in_set_takeD)
  then show ?thesis using assms(3,4) by (metis append_take_drop_id image_eqI set_map Un_iff set_append)
qed

section \<open>Properties\<close>

text \<open>C7: A run of the orchestrator that returns: its trace lists the stages in their order and nothing after the one that ended it; it
  ends early only with a rejection or a completion; and it answers \<open>COMPLETE\<close> exactly when it was not rejected and the context
  holds a signal, so no rejection is ever overruled.\<close>

theorem orchestrator_trace:
  assumes "pipeline_execute c ss w x = (w', Inr (x', tr, r))"
  shows "map tr_stage tr = take (length tr) (map pg_name ss) \<and> (\<forall>t \<in> set (butlast tr). \<not> stops t) \<and>
     (length tr < length ss \<longrightarrow> tr \<noteq> [] \<and> stops (last tr)) \<and>
     (r = COMPLETE \<longleftrightarrow> ss \<noteq> [] \<and> (\<forall>t \<in> set tr. tr_result t \<noteq> Ran REJECT) \<and> py_truthy (sc_signal x')) \<and> r \<in> {COMPLETE, REJECT}"
proof -
  obtain x0 r0 where run: "run_stages c ss w x0 NoSkip REJECT = (w', Inr (x', tr, r0))"
    and r: "r = (if r0 \<in> {COMPLETE, CONTINUE} \<and> py_truthy (sc_signal x') then COMPLETE else REJECT)"
    using assms by (auto simp: pipeline_execute_def Let_def split: prod.splits sum.splits)
  note t = run_stages_trace [OF run, simplified, unfolded trace_ok_def]
  have "(\<forall>t \<in> set tr. tr_result t \<noteq> Ran REJECT) \<longleftrightarrow> tr = [] \<or> r0 \<noteq> REJECT"
  proof (cases tr rule: rev_cases)
    case (snoc ts u)
    with t show ?thesis by (auto simp: stops_def split: if_splits)
  qed simp
  moreover have "tr = [] \<longleftrightarrow> ss = []" "tr = [] \<Longrightarrow> r0 = REJECT" using t by (auto split: if_splits)
  moreover have "r0 \<noteq> SKIP_TO_EXECUTION" using t by (auto simp: stops_def split: if_splits)
  ultimately show ?thesis using t r by (cases r0) (auto split: if_splits)
qed

text \<open>An exit signal takes the shortest way: after a stage that answered \<open>SKIP_TO_EXECUTION\<close> no stage runs but the risk check and the
  execution.\<close>

theorem exit_signal_skips_gates:
  assumes "pipeline_execute c ss w x = (w', Inr (x', tr, r))"
  shows "sorted_wrt exits_only_final tr"
  using assms exit_skips by (fastforce simp: pipeline_execute_def Let_def split: prod.splits sum.splits)

text \<open>C8: In the pipeline of the decision engine positions are evaluated for exits only behind an open gate: whenever the position
  evaluation ran in a run of the pipeline, the four stages before the gate had run to the end, the gate stood next in the trace with
  the answer \<open>CONTINUE\<close>, and at the degradation manager and the context which those four stages had left, the mode was not \<open>FLATTEN\<close>,
  was \<open>NO_ENTRIES\<close> only with an exit flag in the context, and the market was acceptable for entries.  In the modes meant to leave
  positions nothing leaves them.\<close>

theorem exits_need_open_gate:
  fixes ss :: "(degradation_manager \<times> 'w) pipe_stage list"
  assumes "map pg_name ss = gating_stage_names confirm" and "ss ! 4 = global_gate_stage show_reason gc created now"
    and "pipeline_execute c ss w x = (w', Inr (x', tr, r))"
    and "t \<in> set tr" and "tr_stage t = ''position_evaluation''" and "tr_result t \<noteq> Skipped"
  shows "\<exists>m w1 y s.
     run_stages c (take 4 ss) w (if \<not> pc_profile_router_present c \<and> sc_profile_id x = None then x\<lparr>sc_profile_id := Some default_profile_id\<rparr>
         else x) NoSkip REJECT = ((m, w1), Inr (y, take 4 tr, CONTINUE)) \<and>
     4 < length tr \<and> tr_stage (tr ! 4) = ''global_gate'' \<and> tr_result (tr ! 4) = Ran CONTINUE \<and>
     gx_snapshot (gate_view y) = Some s \<and>
     (let mode = gate_mode m (gate_view y) s created now
      in mode \<noteq> FLATTEN \<and> (mode = NO_ENTRIES \<longrightarrow> py_truthy (get_field (sc_data y) ''is_exit_signal'' (DBool False))) \<and>
         market_acceptable gc (gate_view y) s mode)"
proof -
  let ?x0 = "if \<not> pc_profile_router_present c \<and> sc_profile_id x = None then x\<lparr>sc_profile_id := Some default_profile_id\<rparr> else x"
  obtain r0 where run: "run_stages c ss w ?x0 NoSkip REJECT = (w', Inr (x', tr, r0))"
    using assms(3) by (auto simp: pipeline_execute_def Let_def split: prod.splits sum.splits)
  have len: "4 < length ss" using assms(1) by (auto simp: gating_stage_names_def dest!: arg_cong [where f = length])
  then have ss: "ss = take 4 ss @ global_gate_stage show_reason gc created now # drop 5 ss"
    using assms(2) id_take_nth_drop [OF len] by simp
  have l4: "length (take 4 ss) = 4" "take 4 ss \<noteq> []" using len by auto
  have t: "t \<in> set (drop (Suc (length (take 4 ss))) tr)"
    using position_evaluation_after_gate [OF run_stages_trace [OF run, simplified] assms(1,4,5)] len by (simp add: eval_nat_numeral)
  let ?g = "global_gate_stage show_reason gc created now :: (degradation_manager \<times> 'w) pipe_stage"
  have run': "run_stages c (take 4 ss @ ?g # drop 5 ss) w ?x0 NoSkip REJECT = (w', Inr (x', tr, r0))"
    using run by (simp only: ss [symmetric])
  have names: "pg_name ?g \<notin> set final_stages" "tr_stage t \<notin> set final_stages"
    using assms(5) by (simp_all add: global_gate_stage_def final_stages_def)
  from run_cut [OF run' names(1) t names(2) assms(6)] l4 obtain m v y w2 y2 r2
    where g: "run_stages c (take 4 ss) w ?x0 NoSkip REJECT = ((m, v), Inr (y, take 4 tr, CONTINUE))"
      "run_stage c ?g (m, v) y = (w2, Inr (y2, tr ! 4, r2))" "r2 = CONTINUE \<or> r2 = SKIP_TO_EXECUTION" "4 < length tr" by auto
  from run_stage_passed [OF g(2)] g(3) obtain x2 where pr: "pg_run ?g (m, v) y = (w2, Inr (x2, r2))" by auto
  let ?run = "global_gate_run gc m (gate_view y) created now"
  have c: "snd (snd ?run) = CONTINUE" "r2 = CONTINUE"
    using pr g(3) gate_result [of gc m "gate_view y" created now] by (auto simp: global_gate_stage_def Let_def case_prod_beta)
  then obtain s where s: "gx_snapshot (gate_view y) = Some s"
    by (cases "gx_snapshot (gate_view y)") (auto simp: global_gate_run_def)
  have "gx_is_exit_signal (gate_view y) = Some (py_truthy (get_field (sc_data y) ''is_exit_signal'' (DBool False)))"
    by (simp add: gate_view_def Let_def)
  with gate_run_cases(2) [OF s, of gc m created now] c g run_stage_entry [OF g(2)] s show ?thesis
    by (intro exI [of _ m] exI [of _ v] exI [of _ y] exI [of _ s]) (simp add: Let_def global_gate_stage_def)
qed

text \<open>With an open position at its limit, no replacement allowed and no exit signal, nothing can open another one: after the position
  evaluation no stage of the decision engine's pipeline runs, so predictions, strategies and their state are left alone, and the
  risk check rejects in the name of the position.\<close>

theorem open_position_short_circuits:
  assumes "map pg_name ss = gating_stage_names confirm" and "run_stage c (ss ! 5) w x = (w1, Inr (x1, t, CONTINUE))"
    and "\<not> py_truthy (sc_signal x1)" and "should_skip_entry_generation c x1 = Inr True"
  shows "\<exists>tr. run_stages c (drop 5 ss) w x NoSkip prev = (w1, Inr (position_exists c ''risk_check'' x1, t # tr, REJECT)) \<and>
     (\<forall>u \<in> set (butlast tr). tr_result u = Skipped)"
proof -
  have "drop 6 (map pg_name ss) = drop 6 (gating_stage_names confirm)" by (simp only: assms(1))
  then have names: "map pg_name (drop 6 ss) = drop 6 (gating_stage_names confirm)" by (simp only: drop_map)
  have len: "5 < length ss" using assms(1) by (auto simp: gating_stage_names_def dest!: arg_cong [where f = length])
  then have ss: "drop 5 ss = ss ! 5 # drop 6 ss" by (simp add: Cons_nth_drop_Suc [symmetric] eval_nat_numeral)
  have "pg_name (ss ! 5) = map pg_name ss ! 5" using len by simp
  also have "\<dots> = ''position_evaluation''" unfolding assms(1) by (simp add: gating_stage_names_def)
  finally have n: "pg_name (ss ! 5) = ''position_evaluation''" .
  obtain tr where tr: "run_stages c (drop 6 ss) w1 x1 SkipEntry CONTINUE = (w1, Inr (position_exists c ''risk_check'' x1, tr, REJECT))"
    "\<forall>u \<in> set (butlast tr). tr_result u = Skipped"
    using skip_entry_rejects [of "drop 6 ss" c w1 x1 CONTINUE] unfolding names by (cases confirm) (auto simp: gating_stage_names_def)
  from assms(2-) tr n show ?thesis unfolding ss by (simp add: next_mode_def)
qed

text \<open>Validation of the stage order accepts exactly the lists whose canonical stages, flexible and unknown ones aside, stand in
  canonical order; the separate check that signals come before the expected-value gate never adds a rejection.\<close>

theorem ordering_valid_iff_sorted:
  "fst (validate_stage_ordering ns) \<longleftrightarrow> sorted (canonical_positions ns)"
proof -
  have "order_errors (-1, []) ns = [] \<longleftrightarrow> sorted (canonical_positions ns)" by (simp add: order_errors_none)
  moreover have "\<not> e < s" if "sorted (canonical_positions ns)" "last_index ''ev_gate'' ns = Some e" "last_index ''signal_check'' ns = Some s" for e s
  proof
    assume "e < s"
    have "position_in ''ev_gate'' canonical_stage_order = Some 7" "position_in ''signal_check'' canonical_stage_order = Some 4"
      by code_simp+
    with sorted_positions_nth [OF that(1) \<open>e < s\<close>, of 7 4] last_index_nth [OF that(2)] last_index_nth [OF that(3)] show False by simp
  qed
  ultimately show ?thesis by (auto simp: validate_stage_ordering_def Let_def split: option.split)
qed

section \<open>Examples\<close>

text \<open>A pipeline whose stages pass the context on, but for the position evaluation, which emits an exit signal.\<close>

definition passing_stage :: "string \<Rightarrow> 'w pipe_stage" where
  "passing_stage n = \<lparr>pg_name = n, pg_run = (\<lambda>w x. (w, Inr (x, CONTINUE)))\<rparr>"

definition exiting_stage :: "'w pipe_stage" where
  "exiting_stage = \<lparr>pg_name = ''position_evaluation'',
     pg_run = (\<lambda>w x. (w, Inr (x\<lparr>sc_signal := DDict [(''is_exit_signal'', DBool True)]\<rparr>, SKIP_TO_EXECUTION)))\<rparr>"

definition demo_gate :: "(degradation_manager \<times> unit) pipe_stage" where
  "demo_gate = global_gate_stage (\<lambda>_. []) default_global_gate_config (0, 0) 1"

definition demo_stages :: "(degradation_manager \<times> unit) pipe_stage list" where
  "demo_stages = map passing_stage (take 4 (gating_stage_names False)) @ demo_gate # exiting_stage #
     map passing_stage (drop 6 (gating_stage_names False))"

definition demo_pipeline_config :: pipeline_config where
  "demo_pipeline_config = \<lparr>pc_validation_enabled = True, pc_validation_strict = False, pc_profile_router_present = True, pc_trace_detail = False,
     pc_block_if_position_exists = True, pc_allow_position_replacement = False, pc_max_positions_per_symbol = 1\<rparr>"

definition demo_context :: stage_context where
  "demo_context = \<lparr>sc_symbol = ''BTCUSDT'', sc_data = DDict [(''features'', DDict [(''x'', DInt 1)]), (''market_context'', DDict [(''x'', DInt 1)]),
       (''snapshot'', DObj [(''snapshot_age_ms'', DNum 10), (''spread_bps'', DNum 1), (''typical_spread_bps'', DNum 1),
         (''bid_depth_usd'', DNum 20000), (''ask_depth_usd'', DNum 20000)])],
     sc_rejection_reason = None, sc_rejection_stage = None, sc_rejection_detail = None, sc_profile_id = None, sc_signal = DNone\<rparr>"

definition demo_outcome :: "py_error + (string \<times> trace_result) list \<times> stage_result" where
  "demo_outcome = (case snd (pipeline_execute demo_pipeline_config demo_stages (degradation_manager_init None, ()) demo_context) of
     Inl e \<Rightarrow> Inl e | Inr (x, tr, r) \<Rightarrow> Inr (map (\<lambda>t. (tr_stage t, tr_result t)) tr, r))"

lemma demo_runs:
  "demo_outcome = Inr (map (\<lambda>n. (n, Ran CONTINUE)) (take 5 (gating_stage_names False)) @
     [(''position_evaluation'', Ran SKIP_TO_EXECUTION)] @
     map (\<lambda>n. (n, if n \<in> set final_stages then Ran CONTINUE else Skipped)) (drop 6 (gating_stage_names False)), COMPLETE)"
  by code_simp

lemma demo_run:
  obtains w' x' tr where "pipeline_execute demo_pipeline_config demo_stages (degradation_manager_init None, ()) demo_context = (w', Inr (x', tr, COMPLETE))"
    "map (\<lambda>t. (tr_stage t, tr_result t)) tr = map (\<lambda>n. (n, Ran CONTINUE)) (take 5 (gating_stage_names False)) @
       [(''position_evaluation'', Ran SKIP_TO_EXECUTION)] @
       map (\<lambda>n. (n, if n \<in> set final_stages then Ran CONTINUE else Skipped)) (drop 6 (gating_stage_names False))"
  using demo_runs
  by (cases "pipeline_execute demo_pipeline_config demo_stages (degradation_manager_init None, ()) demo_context")
    (auto simp: demo_outcome_def split: sum.splits)

lemma demo_names: "map pg_name demo_stages = gating_stage_names False" "demo_stages ! 4 = demo_gate"
  by (simp_all add: demo_stages_def gating_stage_names_def passing_stage_def exiting_stage_def demo_gate_def global_gate_stage_def)

theorem orchestrator_trace_witness:
  "\<exists>w' x' tr. pipeline_execute demo_pipeline_config demo_stages (degradation_manager_init None, ()) demo_context = (w', Inr (x', tr, COMPLETE)) \<and>
     map tr_stage tr = take (length tr) (gating_stage_names False) \<and> (\<forall>t \<in> set tr. tr_result t \<noteq> Ran REJECT)"
proof -
  obtain w' x' tr where run: "pipeline_execute demo_pipeline_config demo_stages (degradation_manager_init None, ()) demo_context = (w', Inr (x', tr, COMPLETE))"
    by (rule demo_run)
  from orchestrator_trace [OF run] run show ?thesis unfolding demo_names by blast
qed

theorem exit_signal_skips_gates_witness:
  "\<exists>w' x' tr. pipeline_execute demo_pipeline_config demo_stages (degradation_manager_init None, ()) demo_context = (w', Inr (x', tr, COMPLETE)) \<and>
     sorted_wrt exits_only_final tr"
proof -
  obtain w' x' tr where run: "pipeline_execute demo_pipeline_config demo_stages (degradation_manager_init None, ()) demo_context = (w', Inr (x', tr, COMPLETE))"
    by (rule demo_run)
  from exit_signal_skips_gates [OF run] run show ?thesis by blast
qed

theorem exits_need_open_gate_witness:
  "\<exists>w' x' tr m w1 y s. pipeline_execute demo_pipeline_config demo_stages (degradation_manager_init None, ()) demo_context = (w', Inr (x', tr, COMPLETE)) \<and>
     run_stages demo_pipeline_config (take 4 demo_stages) (degradation_manager_init None, ()) demo_context NoSkip REJECT =
       ((m, w1), Inr (y, take 4 tr, CONTINUE)) \<and> tr_stage (tr ! 4) = ''global_gate'' \<and> tr_result (tr ! 4) = Ran CONTINUE \<and>
     gx_snapshot (gate_view y) = Some s \<and>
     market_acceptable default_global_gate_config (gate_view y) s (gate_mode m (gate_view y) s (0, 0) 1)"
proof -
  obtain w' x' tr where run: "pipeline_execute demo_pipeline_config demo_stages (degradation_manager_init None, ()) demo_context = (w', Inr (x', tr, COMPLETE))"
    and tr: "map (\<lambda>t. (tr_stage t, tr_result t)) tr = map (\<lambda>n. (n, Ran CONTINUE)) (take 5 (gating_stage_names False)) @
       [(''position_evaluation'', Ran SKIP_TO_EXECUTION)] @
       map (\<lambda>n. (n, if n \<in> set final_stages then Ran CONTINUE else Skipped)) (drop 6 (gating_stage_names False))"
    by (rule demo_run)
  have "(''position_evaluation'', Ran SKIP_TO_EXECUTION) \<in> set (map (\<lambda>t. (tr_stage t, tr_result t)) tr)" unfolding tr by simp
  then obtain t where t: "t \<in> set tr" "tr_stage t = ''position_evaluation''" and ran: "tr_result t = Ran SKIP_TO_EXECUTION" by auto
  then have "tr_result t \<noteq> Skipped" by simp
  note t = t this
  have "(if \<not> pc_profile_router_present demo_pipeline_config \<and> sc_profile_id demo_context = None
       then demo_context\<lparr>sc_profile_id := Some default_profile_id\<rparr> else demo_context) = demo_context" by (simp add: demo_pipeline_config_def)
  note exits_need_open_gate [OF demo_names(1) demo_names(2) [unfolded demo_gate_def] run t, unfolded this]
  with run show ?thesis unfolding Let_def by blast
qed

text \<open>The same pipeline, with a position evaluation that finds nothing to exit, and a position in another spelling of the symbol.\<close>

definition holding_stages :: "(degradation_manager \<times> unit) pipe_stage list" where
  "holding_stages = map passing_stage (gating_stage_names True)"

definition holding_context :: stage_context where
  "holding_context = demo_context\<lparr>sc_data := dict_set (sc_data demo_context) ''positions''
     (DList [DDict [(''symbol'', DStr ''BTC/USDT:USDT''), (''size'', DNum 1)]])\<rparr>"

theorem open_position_short_circuits_witness:
  "\<exists>t tr. run_stages demo_pipeline_config (drop 5 holding_stages) (degradation_manager_init None, ()) holding_context NoSkip REJECT =
     ((degradation_manager_init None, ()), Inr (position_exists demo_pipeline_config ''risk_check'' holding_context, t # tr, REJECT)) \<and>
     (\<forall>u \<in> set (butlast tr). tr_result u = Skipped)"
proof -
  have "map pg_name holding_stages = gating_stage_names True" by (simp add: holding_stages_def passing_stage_def comp_def)
  moreover have "holding_stages ! 5 = passing_stage ''position_evaluation''" by (simp add: holding_stages_def gating_stage_names_def)
  moreover have "filter (key_missing holding_context) (contract_keys False ''position_evaluation'') = []"
    "filter (key_missing holding_context) (contract_keys True ''position_evaluation'') = []"
    by code_simp+
  then have "validate_contract demo_pipeline_config b ''position_evaluation'' holding_context = (holding_context, True, [])" for b
    by (cases b) (simp_all add: validate_contract_def Let_def)
  ultimately have "run_stage demo_pipeline_config (holding_stages ! 5) w holding_context = (w, Inr (holding_context,
      \<lparr>tr_stage = ''position_evaluation'', tr_result = Ran CONTINUE, tr_warnings_pre = [], tr_warnings_post = [], tr_reason = None, tr_detail = None\<rparr>,
      CONTINUE))" for w by (simp add: run_stage_def passing_stage_def)
  moreover have "should_skip_entry_generation demo_pipeline_config holding_context = Inr True" "\<not> py_truthy (sc_signal holding_context)"
    by code_simp+
  ultimately show ?thesis
    using open_position_short_circuits [of holding_stages True demo_pipeline_config "(degradation_manager_init None, ())" holding_context]
    by (simp add: holding_stages_def passing_stage_def comp_def) blast
qed

end
