(* ===== verification/Correlation.thy ===== *)
theory Correlation
  imports Py_Float Py_Strings "HOL-Library.Char_ord" "HOL-Library.List_Lexorder"
begin

text \<open>
  The correlation guard (quantgambit/core/risk/correlation_guard.py): a new position is blocked when an open position
  of the same direction in another, correlated symbol exists.  A position is its symbol and its signed size; a missing
  symbol is \<open>None\<close>, on which the code raises.  The formatted reason and the alert are left out.
\<close>

section \<open>Configuration and the matrix\<close>

record correlation_config =
  cf_enabled :: bool
  cf_max_correlation :: pyfloat
  cf_max_correlation_long :: "pyfloat option"
  cf_max_correlation_short :: "pyfloat option"
  cf_excluded_symbols :: "string list"

definition default_correlation_config :: correlation_config where
  "default_correlation_config = \<lparr>cf_enabled = True, cf_max_correlation = fl (7 / 10), cf_max_correlation_long = None,
     cf_max_correlation_short = None, cf_excluded_symbols = []\<rparr>"

type_synonym correlations = "(string \<times> string, pyfloat) dict"

definition correlation_matrix :: correlations where
  "correlation_matrix =
   [((''BTCUSDT'', ''ETHUSDT''), fl (85 / 100)), ((''BTCUSDT'', ''SOLUSDT''), fl (75 / 100)),
    ((''BTCUSDT'', ''BNBUSDT''), fl (70 / 100)), ((''BTCUSDT'', ''XRPUSDT''), fl (68 / 100)),
    ((''BTCUSDT'', ''ADAUSDT''), fl (72 / 100)), ((''BTCUSDT'', ''AVAXUSDT''), fl (78 / 100)),
    ((''BTCUSDT'', ''LINKUSDT''), fl (74 / 100)), ((''BTCUSDT'', ''DOTUSDT''), fl (73 / 100)),
    ((''BTCUSDT'', ''MATICUSDT''), fl (71 / 100)),
    ((''ETHUSDT'', ''SOLUSDT''), fl (80 / 100)), ((''ETHUSDT'', ''BNBUSDT''), fl (65 / 100)),
    ((''ETHUSDT'', ''AVAXUSDT''), fl (82 / 100)), ((''ETHUSDT'', ''LINKUSDT''), fl (76 / 100)),
    ((''ETHUSDT'', ''DOTUSDT''), fl (75 / 100)), ((''ETHUSDT'', ''MATICUSDT''), fl (78 / 100)),
    ((''ETHUSDT'', ''OPUSDT''), fl (80 / 100)), ((''ETHUSDT'', ''ARBUSDT''), fl (81 / 100)),
    ((''SOLUSDT'', ''AVAXUSDT''), fl (76 / 100)), ((''SOLUSDT'', ''NEARUSDT''), fl (74 / 100)),
    ((''AVAXUSDT'', ''NEARUSDT''), fl (72 / 100)),
    ((''BNBUSDT'', ''CAKEUSDT''), fl (65 / 100)),
    ((''DOGEUSDT'', ''SHIBUSDT''), fl (68 / 100)), ((''DOGEUSDT'', ''PEPEUSDT''), fl (62 / 100)),
    ((''SHIBUSDT'', ''PEPEUSDT''), fl (65 / 100)),
    ((''LTCUSDT'', ''BCHUSDT''), fl (70 / 100)), ((''XRPUSDT'', ''XLMUSDT''), fl (72 / 100))]"

record correlation_result =
  cr_allowed :: bool
  cr_blocking_symbol :: "string option"
  cr_correlation :: "pyfloat option"

definition correlation_allowed :: correlation_result where
  "correlation_allowed = \<lparr>cr_allowed = True, cr_blocking_symbol = None, cr_correlation = None\<rparr>"

record correlation_guard =
  cg_config :: correlation_config
  cg_correlations :: correlations
  cg_checks_total :: nat
  cg_blocks_total :: nat

text \<open>An empty dictionary counts as none given.\<close>

definition correlation_guard_init :: "correlation_config option \<Rightarrow> correlations option \<Rightarrow> correlation_guard" where
  "correlation_guard_init c m = \<lparr>cg_config = (case c of None \<Rightarrow> default_correlation_config | Some c \<Rightarrow> c),
     cg_correlations = (if opt_list m = [] then correlation_matrix else opt_list m), cg_checks_total = 0, cg_blocks_total = 0\<rparr>"

section \<open>Operations\<close>

definition threshold_for_side :: "correlation_config \<Rightarrow> string \<Rightarrow> pyfloat" where
  "threshold_for_side c side =
     (let s = py_lower side
      in case (s = ''long'', cf_max_correlation_long c) of (True, Some t) \<Rightarrow> t
       | _ \<Rightarrow> (case (s = ''short'', cf_max_correlation_short c) of (True, Some t) \<Rightarrow> t | _ \<Rightarrow> cf_max_correlation c))"

definition get_correlation :: "correlations \<Rightarrow> string \<Rightarrow> string \<Rightarrow> pyfloat" where
  "get_correlation m a b =
     (if a = b then 1
      else (let a = py_upper a; b = py_upper b
            in case d_get m (a, b) of Some c \<Rightarrow> c
             | None \<Rightarrow> (case d_get m (b, a) of Some c \<Rightarrow> c | None \<Rightarrow> 0)))"

type_synonym held_position = "string option \<times> pyfloat"

text \<open>The loop over the positions: the first one that blocks, or an exception at a position without a symbol.\<close>

fun scan_positions ::
  "correlation_config \<Rightarrow> correlations \<Rightarrow> string \<Rightarrow> string \<Rightarrow> held_position list \<Rightarrow> py_error + (string \<times> pyfloat) option" where
  "scan_positions c m new_symbol side [] = Inr None"
| "scan_positions c m new_symbol side ((symbol, sz) # ps) =
     (if sz = 0 then scan_positions c m new_symbol side ps
      else case symbol of
        None \<Rightarrow> Inl (OtherError ''AttributeError'')
      | Some s \<Rightarrow>
          if s \<noteq> [] \<and> py_upper s = py_upper new_symbol then scan_positions c m new_symbol side ps
          else if py_upper s \<in> set (cf_excluded_symbols c) then scan_positions c m new_symbol side ps
          else (let corr = get_correlation m new_symbol s
                in if threshold_for_side c side \<le> corr \<and> side = (if 0 < sz then ''long'' else ''short'') then Inr (Some (s, corr))
                   else scan_positions c m new_symbol side ps))"

definition correlation_check ::
  "correlation_guard \<Rightarrow> string \<Rightarrow> string \<Rightarrow> held_position list \<Rightarrow> correlation_guard \<times> (py_error + correlation_result)" where
  "correlation_check g new_symbol new_side ps =
     (let g1 = g\<lparr>cg_checks_total := Suc (cg_checks_total g)\<rparr>; c = cg_config g; side = py_lower new_side
      in if \<not> cf_enabled c then (g1, Inr correlation_allowed)
         else if py_upper new_symbol \<in> set (cf_excluded_symbols c) then (g1, Inr correlation_allowed)
         else if side \<notin> {''long'', ''short''} then (g1, Inr correlation_allowed)
         else case scan_positions c (cg_correlations g) new_symbol side ps of
            Inl e \<Rightarrow> (g1, Inl e)
          | Inr None \<Rightarrow> (g1, Inr correlation_allowed)
          | Inr (Some (s, corr)) \<Rightarrow> (g1\<lparr>cg_blocks_total := Suc (cg_blocks_total g)\<rparr>,
              Inr \<lparr>cr_allowed = False, cr_blocking_symbol = Some s, cr_correlation = Some corr\<rparr>))"

definition update_correlation :: "correlation_guard \<Rightarrow> string \<Rightarrow> string \<Rightarrow> pyfloat \<Rightarrow> correlation_guard" where
  "update_correlation g a b c =
     (let a = py_upper a; b = py_upper b; (a, b) = (if b < a then (b, a) else (a, b))
      in g\<lparr>cg_correlations := d_put (cg_correlations g) (a, b) c\<rparr>)"

definition block_rate :: "correlation_guard \<Rightarrow> pyfloat" where
  "block_rate g = (if 0 < cg_checks_total g then fl (of_nat (cg_blocks_total g) / of_nat (cg_checks_total g)) else 0)"

definition known_correlations :: "correlation_guard \<Rightarrow> (string, pyfloat) dict" where
  "known_correlations g = fold (\<lambda>((a, b), c) d. d_put d (a @ ''_'' @ b) c) (cg_correlations g) []"

section \<open>What blocks an entry\<close>

definition side_text :: "bool \<Rightarrow> string" where "side_text long = (if long then ''long'' else ''short'')"

definition conflicts :: "correlation_config \<Rightarrow> correlations \<Rightarrow> string \<Rightarrow> string \<Rightarrow> string \<times> pyfloat \<Rightarrow> bool" where
  "conflicts c m new_symbol side p =
     (snd p \<noteq> 0 \<and> (fst p = [] \<or> py_upper (fst p) \<noteq> py_upper new_symbol) \<and> py_upper (fst p) \<notin> set (cf_excluded_symbols c) \<and>
      threshold_for_side c side \<le> get_correlation m new_symbol (fst p) \<and> side = side_text (0 < snd p))"

definition held :: "(string \<times> pyfloat) list \<Rightarrow> held_position list" where
  "held ps = map (\<lambda>(s, z). (Some s, z)) ps"

lemma scan_held:
  "scan_positions c m new_symbol side (held ps) =
     Inr (map_option (\<lambda>p. (fst p, get_correlation m new_symbol (fst p))) (find (conflicts c m new_symbol side) ps))"
  by (induction ps) (auto simp: held_def conflicts_def side_text_def Let_def)

text \<open>The requests that the guard looks at.\<close>

definition guard_applies :: "correlation_config \<Rightarrow> string \<Rightarrow> string \<Rightarrow> bool" where
  "guard_applies c new_symbol side =
     (cf_enabled c \<and> py_upper new_symbol \<notin> set (cf_excluded_symbols c) \<and> py_lower side \<in> {''long'', ''short''})"

lemma check_held:
  "correlation_check g new_symbol side (held ps) =
     (let c = cg_config g; g1 = g\<lparr>cg_checks_total := Suc (cg_checks_total g)\<rparr>
      in case (if guard_applies c new_symbol side then find (conflicts c (cg_correlations g) new_symbol (py_lower side)) ps else None) of
           None \<Rightarrow> (g1, Inr correlation_allowed)
         | Some p \<Rightarrow> (g1\<lparr>cg_blocks_total := Suc (cg_blocks_total g)\<rparr>, Inr \<lparr>cr_allowed = False, cr_blocking_symbol = Some (fst p),
             cr_correlation = Some (get_correlation (cg_correlations g) new_symbol (fst p))\<rparr>))"
  by (auto simp: correlation_check_def guard_applies_def scan_held Let_def split: option.split)

lemma check_config [simp]:
  "cg_config (fst (correlation_check g n side ps)) = cg_config g"
  "cg_correlations (fst (correlation_check g n side ps)) = cg_correlations g"
  by (auto simp: correlation_check_def Let_def split: sum.split option.split)

section \<open>Guarded portfolios\<close>

text \<open>Requests for positions (symbol, long or short, size) of which only the allowed ones are opened.\<close>

definition signed_size :: "bool \<Rightarrow> pyfloat \<Rightarrow> pyfloat" where "signed_size long sz = (if long then \<bar>sz\<bar> else - \<bar>sz\<bar>)"

fun open_guarded ::
  "correlation_guard \<Rightarrow> (string \<times> pyfloat) list \<Rightarrow> (string \<times> bool \<times> pyfloat) list \<Rightarrow> correlation_guard \<times> (string \<times> pyfloat) list" where
  "open_guarded g ps [] = (g, ps)"
| "open_guarded g ps ((s, long, sz) # rs) =
     (let (g', r) = correlation_check g s (side_text long) (held ps)
      in open_guarded g' (if (case r of Inl e \<Rightarrow> False | Inr x \<Rightarrow> cr_allowed x) then ps @ [(s, signed_size long sz)] else ps) rs)"

text \<open>Two positions that may be held together, the second opened after the first.\<close>

definition compatible :: "correlation_config \<Rightarrow> correlations \<Rightarrow> string \<times> pyfloat \<Rightarrow> string \<times> pyfloat \<Rightarrow> bool" where
  "compatible c m p q =
     (cf_enabled c \<and> snd p \<noteq> 0 \<and> snd q \<noteq> 0 \<and> (0 < snd p) = (0 < snd q) \<and> fst p \<noteq> [] \<and> py_upper (fst p) \<noteq> py_upper (fst q) \<and>
      py_upper (fst p) \<notin> set (cf_excluded_symbols c) \<and> py_upper (fst q) \<notin> set (cf_excluded_symbols c) \<longrightarrow>
      get_correlation m (fst q) (fst p) < threshold_for_side c (side_text (0 < snd q)))"

lemma py_lower_side [simp]: "py_lower (side_text long) = side_text long"
  by (simp add: side_text_def py_lower_def lower_char_def)

lemma side_text_simps [simp]: "side_text long = ''long'' \<or> side_text long = ''short''" "side_text a = side_text b \<longleftrightarrow> a = b"
  by (simp_all add: side_text_def)

lemma compatible_if_no_conflict:
  assumes "guard_applies c s (side_text long) \<Longrightarrow> \<not> conflicts c m s (side_text long) p"
  shows "compatible c m p (s, signed_size long sz)"
proof (cases "sz = 0")
  case False
  then have "(0 < signed_size long sz) = long" by (simp add: signed_size_def)
  with assms show ?thesis
    by (auto simp: compatible_def conflicts_def guard_applies_def not_le)
qed (simp add: compatible_def signed_size_def)

lemma open_guarded_compatible:
  "sorted_wrt (compatible (cg_config g) (cg_correlations g)) ps \<Longrightarrow>
     sorted_wrt (compatible (cg_config g) (cg_correlations g)) (snd (open_guarded g ps rs))"
proof (induction rs arbitrary: g ps)
  case (Cons r rs)
  obtain s long sz where r: "r = (s, long, sz)" by (cases r) auto
  let ?c = "cg_config g" and ?m = "cg_correlations g"
  let ?g = "fst (correlation_check g s (side_text long) (held ps))" and ?a = "snd (correlation_check g s (side_text long) (held ps))"
  let ?ps = "if (case ?a of Inl e \<Rightarrow> False | Inr x \<Rightarrow> cr_allowed x) then ps @ [(s, signed_size long sz)] else ps"
  have "sorted_wrt (compatible ?c ?m) ?ps"
  proof (cases "case ?a of Inl e \<Rightarrow> False | Inr x \<Rightarrow> cr_allowed x")
    case True
    then have none: "\<not> conflicts ?c ?m s (side_text long) p" if "guard_applies ?c s (side_text long)" "p \<in> set ps" for p
      using that by (cases p) (auto simp: check_held Let_def find_None_iff split: option.splits)
    then have "\<forall>p \<in> set ps. compatible ?c ?m p (s, signed_size long sz)" by (blast intro: compatible_if_no_conflict)
    with True Cons.prems show ?thesis by (simp add: sorted_wrt_append)
  next
    case False
    with Cons.prems show ?thesis by simp
  qed
  with Cons.IH [of ?g ?ps] show ?case by (simp add: r case_prod_beta Let_def)
qed simp

section \<open>Lookups after an update\<close>

text \<open>Both orders of a pair, the requested one first.\<close>

definition lookup_pair :: "('a \<times> 'a, pyfloat) dict \<Rightarrow> 'a \<Rightarrow> 'a \<Rightarrow> pyfloat" where
  "lookup_pair m x y = (case d_get m (x, y) of Some c \<Rightarrow> c | None \<Rightarrow> (case d_get m (y, x) of Some c \<Rightarrow> c | None \<Rightarrow> 0))"

lemma lookup_pair_put:
  fixes x :: "'a :: linorder"
  shows "lookup_pair (d_put m (min A B, max A B) c) x y =
     (if {x, y} = {A, B} then (if y < x \<and> d_has m (x, y) then lookup_pair m x y else c) else lookup_pair m x y)"
proof (cases "{x, y} = {A, B}")
  case True
  then have key: "(min A B, max A B) = (min x y, max x y)" by (metis doubleton_eq_iff min.commute max.commute)
  show ?thesis
  proof (cases "y < x")
    case less: True
    then have mm: "min x y = y" "max x y = x" by simp_all
    have "lookup_pair (d_put m (y, x) c) x y = (if d_has m (x, y) then lookup_pair m x y else c)"
    proof -
      have "x \<noteq> y" using less by blast
      then have "d_get (d_put m (y, x) c) (x, y) = d_get m (x, y)" "d_get (d_put m (y, x) c) (y, x) = Some c"
        by (simp_all only: d_get_put prod.inject simp_thms if_True if_False)
      then show ?thesis by (cases "d_get m (x, y)") (simp_all add: lookup_pair_def d_has_def)
    qed
    then show ?thesis unfolding key mm using True less by (simp only: simp_thms if_True)
  next
    case False
    then have mm: "min x y = x" "max x y = y" by (simp_all add: min_absorb1 max_absorb2)
    have "lookup_pair (d_put m (x, y) c) x y = c" by (simp add: lookup_pair_def)
    then show ?thesis unfolding key mm using True False by (simp only: simp_thms if_True if_False)
  qed
next
  case False
  then have "(x, y) \<noteq> (min A B, max A B)" "(y, x) \<noteq> (min A B, max A B)" by (auto simp: min_def max_def doubleton_eq_iff split: if_splits)
  then have "d_get (d_put m (min A B, max A B) c) (x, y) = d_get m (x, y)" "d_get (d_put m (min A B, max A B) c) (y, x) = d_get m (y, x)"
    by (simp_all only: d_get_put if_False)
  with False show ?thesis by (simp only: lookup_pair_def if_False)
qed

section \<open>Properties\<close>

text \<open>The guard on a portfolio whose positions all have a symbol never raises; an enabled guard, asked for a symbol that is not
  excluded and a known side, answers with the first position in conflict, and allows exactly when there is none; otherwise it
  allows.  Checks and blocks are counted.\<close>

theorem guard_finds_first_conflict:
  "let c = cg_config g; (g', r) = correlation_check g new_symbol side (held ps);
       hit = (if guard_applies c new_symbol side then find (conflicts c (cg_correlations g) new_symbol (py_lower side)) ps else None)
   in r = Inr \<lparr>cr_allowed = (hit = None), cr_blocking_symbol = map_option fst hit,
               cr_correlation = map_option (\<lambda>p. get_correlation (cg_correlations g) new_symbol (fst p)) hit\<rparr> \<and>
      cg_checks_total g' = Suc (cg_checks_total g) \<and> cg_blocks_total g' = cg_blocks_total g + (if hit = None then 0 else 1)"
  by (auto simp: check_held Let_def correlation_allowed_def split: option.split)

text \<open>C32: A portfolio that is opened through the guard never holds two positions of the same direction in different symbols, neither
  excluded, whose correlation reaches the threshold of the later one's side, unless the guard is disabled.\<close>

theorem guarded_portfolio_uncorrelated:
  "sorted_wrt (compatible (cg_config g) (cg_correlations g)) (snd (open_guarded g [] requests))"
  by (rule open_guarded_compatible) simp

text \<open>What \<open>update_correlation\<close> stores is what \<open>get_correlation\<close> then returns, but not when the matrix has the pair in the order
  of the request and that order is not alphabetical: the old entry stays and wins, while the swapped request sees the new value.
  Other pairs keep their values.\<close>

theorem update_then_get:
  "let m = cg_correlations g; m' = cg_correlations (update_correlation g a b c); A = py_upper a; B = py_upper b
   in get_correlation m' a b = (if a = b then 1 else if B < A \<and> d_has m (A, B) then get_correlation m a b else c) \<and>
      get_correlation m' b a = (if a = b then 1 else if A < B \<and> d_has m (B, A) then get_correlation m b a else c) \<and>
      (\<forall>x y. {py_upper x, py_upper y} \<noteq> {A, B} \<longrightarrow> get_correlation m' x y = get_correlation m x y)"
proof -
  let ?m = "cg_correlations g" and ?A = "py_upper a" and ?B = "py_upper b"
  have m': "cg_correlations (update_correlation g a b c) = d_put ?m (min ?A ?B, max ?A ?B) c"
    by (auto simp: update_correlation_def Let_def min_def max_def)
  have g: "get_correlation m x y = (if x = y then 1 else lookup_pair m (py_upper x) (py_upper y))" for m x y
    by (simp add: get_correlation_def lookup_pair_def Let_def)
  show ?thesis unfolding m' Let_def g lookup_pair_put by (auto simp: doubleton_eq_iff)
qed

theorem update_then_get_witness:
  "get_correlation (cg_correlations (update_correlation (correlation_guard_init None None) ''ethusdt'' ''LTCUSDT'' (1 / 2))) ''ETHUSDT'' ''BNBUSDT'' =
     fl (65 / 100)"
proof -
  have "get_correlation (cg_correlations (correlation_guard_init None None)) ''ETHUSDT'' ''BNBUSDT'' = fl (65 / 100)"
    by code_simp
  moreover have "{py_upper ''ETHUSDT'', py_upper ''BNBUSDT''} \<noteq> {py_upper ''ethusdt'', py_upper ''LTCUSDT''}"
    by code_simp
  ultimately show ?thesis
    using update_then_get [of "correlation_guard_init None None" "''ethusdt''" "''LTCUSDT''" "1 / 2",
      unfolded Let_def, THEN conjunct2, THEN conjunct2, rule_format] by metis
qed

text \<open>With the built-in matrix, which is not in alphabetical order, an update of such a pair is lost in one direction.\<close>

theorem built_in_pair_goes_stale:
  "let m = cg_correlations (update_correlation (correlation_guard_init None None) ''SOLUSDT'' ''AVAXUSDT'' (1 / 8))
   in get_correlation m ''SOLUSDT'' ''AVAXUSDT'' = fl (76 / 100) \<and> get_correlation m ''AVAXUSDT'' ''SOLUSDT'' = 1 / 8"
  by code_simp

end
