(* ===== verification/Risk_Limits.thy ===== *)
theory Risk_Limits
  imports Py_Data Machines
begin

text \<open>
  The risk validator of the signal pipeline and of the risk worker: the limits of
  quantgambit/deeptrader_core/layer3_risk_execution/risk_validator.py and the adapter around them in
  quantgambit/risk/validator.py, which falls back to the signal's own \<open>risk_ok\<close> flag whenever it cannot ask them.
  The formatted parts of the reasons, the warnings and the identifiers of a coerced signal are left out; a dictionary of
  risk limits is taken to name no other attribute of the validator than its seven limits.
\<close>

section \<open>Signals\<close>

datatype signal_type = SigLong | SigShort | SigCloseLong | SigCloseShort

record trading_signal =
  ts_symbol :: string
  ts_signal_type :: signal_type
  ts_confidence :: pyfloat
  ts_entry_price :: pyfloat
  ts_stop_loss :: pyfloat
  ts_take_profit :: pyfloat
  ts_current_price :: pyfloat
  ts_risk_bps :: pyfloat
  ts_reward_bps :: pyfloat
  ts_risk_reward_ratio :: pyfloat
  ts_confirmation_count :: int
  ts_is_invalidated :: bool
  ts_is_on_cooldown :: bool
  ts_profile_id :: string
  ts_strategy_id :: string

definition signal_is_valid :: "trading_signal \<Rightarrow> bool" where
  "signal_is_valid s = (\<not> ts_is_invalidated s \<and> \<not> ts_is_on_cooldown s \<and> 0 < ts_confidence s \<and> 1 \<le> ts_confirmation_count s \<and>
     0 < ts_entry_price s \<and> 0 < ts_stop_loss s \<and> 0 < ts_take_profit s \<and> 1 \<le> ts_risk_reward_ratio s)"

record strategy_signal =
  sg_strategy_id :: string
  sg_symbol :: string
  sg_side :: string
  sg_size :: pyfloat
  sg_entry_price :: pyfloat
  sg_stop_loss :: pyfloat
  sg_take_profit :: pyfloat
  sg_profile_id :: string

text \<open>What the adapter is asked about: one of the two classes, or a dictionary and the trading signal under its key, if any.\<close>

datatype risk_signal =
    TradingSig trading_signal
  | StrategySig strategy_signal
  | DictSig py_data "trading_signal option"

section \<open>The limits\<close>

record dt_validator =
  dt_max_positions :: int
  dt_max_positions_per_symbol :: int
  dt_max_total_exposure_pct :: pyfloat
  dt_max_exposure_per_symbol_pct :: pyfloat
  dt_max_daily_loss_pct :: pyfloat
  dt_max_consecutive_losses :: int
  dt_max_drawdown_pct :: pyfloat
  dt_signals_validated :: nat
  dt_signals_approved :: nat
  dt_signals_rejected :: nat
  dt_rejection_reasons :: "(string, nat) dict"

definition dt_validator_init :: dt_validator where
  "dt_validator_init = \<lparr>dt_max_positions = 4, dt_max_positions_per_symbol = 1, dt_max_total_exposure_pct = 1 / 2,
     dt_max_exposure_per_symbol_pct = fl (1 / 5), dt_max_daily_loss_pct = fl (1 / 20), dt_max_consecutive_losses = 3,
     dt_max_drawdown_pct = fl (1 / 10), dt_signals_validated = 0, dt_signals_approved = 0, dt_signals_rejected = 0, dt_rejection_reasons = []\<rparr>"

definition dt_reject :: "dt_validator \<Rightarrow> string \<Rightarrow> dt_validator \<times> (py_error + string option)" where
  "dt_reject v reason = (v\<lparr>dt_signals_rejected := Suc (dt_signals_rejected v), dt_rejection_reasons := d_incr (dt_rejection_reasons v) reason\<rparr>,
     Inr (Some reason))"

type_synonym coerced_position = "py_data \<times> py_data"

definition sum_size_usd :: "coerced_position list \<Rightarrow> py_error + pyfloat" where
  "sum_size_usd ps = (case try_map (\<lambda>p. py_num (snd p)) ps of Inl e \<Rightarrow> Inl e | Inr xs \<Rightarrow> Inr (fsum xs))"

definition drawdown_pct :: "pyfloat \<Rightarrow> pyfloat \<Rightarrow> py_error + pyfloat" where
  "drawdown_pct peak balance = (case fdiv (fsub peak balance) peak of Inl e \<Rightarrow> Inl e | Inr q \<Rightarrow> Inr (fmul q 100))"

text \<open>The last checks: losses, drawdown, minimal size and the signal itself.\<close>

definition validate_tail ::
  "dt_validator \<Rightarrow> trading_signal \<Rightarrow> pyfloat \<Rightarrow> pyfloat \<Rightarrow> py_data \<Rightarrow> py_data \<Rightarrow> py_data \<Rightarrow> dt_validator \<times> (py_error + string option)" where
  "validate_tail v s amount balance losses peak minimum =
     (case py_num losses of
        Inl e \<Rightarrow> (v, Inl e)
      | Inr n \<Rightarrow>
        if of_int (dt_max_consecutive_losses v) \<le> n then dt_reject v ''max_consecutive_losses_exceeded''
        else case (case py_num peak of Inl e \<Rightarrow> Inl e | Inr p \<Rightarrow> drawdown_pct p balance) of
          Inl e \<Rightarrow> (v, Inl e)
        | Inr dd \<Rightarrow>
          if dt_max_drawdown_pct v < dd then dt_reject v ''max_drawdown_exceeded''
          else case py_num minimum of
            Inl e \<Rightarrow> (v, Inl e)
          | Inr m \<Rightarrow>
            if amount < m then dt_reject v ''min_position_size''
            else if \<not> signal_is_valid s then dt_reject v ''invalid_signal''
            else (v\<lparr>dt_signals_approved := Suc (dt_signals_approved v)\<rparr>, Inr None))"

definition validate_signal ::
  "dt_validator \<Rightarrow> trading_signal \<Rightarrow> pyfloat \<Rightarrow> pyfloat \<Rightarrow> coerced_position list \<Rightarrow> py_data \<Rightarrow> py_data \<Rightarrow> py_data \<Rightarrow> py_data \<Rightarrow>
     dt_validator \<times> (py_error + string option)" where
  "validate_signal v0 s amount balance ps daily losses peak minimum =
     (let v = v0\<lparr>dt_signals_validated := Suc (dt_signals_validated v0)\<rparr>;
          same = filter (\<lambda>p. fst p = DStr (ts_symbol s)) ps
      in if dt_max_positions v \<le> int (length ps) then dt_reject v ''max_positions_exceeded''
         else if dt_max_positions_per_symbol v \<le> int (length same) then dt_reject v ''max_positions_per_symbol_exceeded''
         else case (case sum_size_usd ps of Inl e \<Rightarrow> Inl e | Inr x \<Rightarrow> fdiv (fadd x amount) balance) of
           Inl e \<Rightarrow> (v, Inl e)
         | Inr tot \<Rightarrow>
           if dt_max_total_exposure_pct v < tot then dt_reject v ''max_total_exposure_exceeded''
           else case (case sum_size_usd same of Inl e \<Rightarrow> Inl e | Inr x \<Rightarrow> fdiv (fadd x amount) balance) of
             Inl e \<Rightarrow> (v, Inl e)
           | Inr per_symbol \<Rightarrow>
             if dt_max_exposure_per_symbol_pct v < per_symbol then dt_reject v ''max_exposure_per_symbol_exceeded''
             else case (case py_num daily of Inl e \<Rightarrow> Inl e | Inr d \<Rightarrow> fdiv d balance) of
               Inl e \<Rightarrow> (v, Inl e)
             | Inr day \<Rightarrow>
               if day < - dt_max_daily_loss_pct v then dt_reject v ''max_daily_loss_exceeded''
               else validate_tail v s amount balance losses peak minimum)"

section \<open>The adapter\<close>

record risk_adapter =
  ra_validator :: "dt_validator option"
  ra_last_rejection_reason :: "string option"

text \<open>\<open>RiskValidator.allow\<close>: only a dictionary can say no.\<close>

definition risk_ok :: "risk_signal \<Rightarrow> bool" where
  "risk_ok s = (case s of DictSig d t \<Rightarrow> py_truthy (get_field d ''risk_ok'' (DBool True)) | _ \<Rightarrow> True)"

definition base_allow :: "risk_adapter \<Rightarrow> risk_signal \<Rightarrow> risk_adapter \<times> bool" where
  "base_allow a s = (a\<lparr>ra_last_rejection_reason := (if risk_ok s then None else Some ''risk_blocked'')\<rparr>, risk_ok s)"

text \<open>A price difference in basis points of the entry price, when both prices are given.\<close>

definition bps_of :: "pyfloat \<Rightarrow> pyfloat \<Rightarrow> pyfloat \<Rightarrow> py_error + pyfloat" where
  "bps_of diff entry other = (if entry \<noteq> 0 \<and> other \<noteq> 0
     then (case fdiv diff entry of Inl e \<Rightarrow> Inl e | Inr q \<Rightarrow> Inr (fmul q 10000)) else Inr 0)"

definition coerce_trading_signal :: "risk_signal \<Rightarrow> py_data \<Rightarrow> py_error + trading_signal option" where
  "coerce_trading_signal s ctx = (case s of
       TradingSig t \<Rightarrow> Inr (Some t)
     | DictSig d t \<Rightarrow> Inr t
     | StrategySig g \<Rightarrow>
        (let side = py_lower (sg_side g);
             ty = (if side \<in> {''sell'', ''short''} then SigShort else SigLong)
         in case (if sg_entry_price g \<noteq> 0 then Inr (sg_entry_price g) else py_num (py_or (get_field ctx ''price'' (DNum 0)) (DNum 0))) of
              Inl e \<Rightarrow> Inl e
            | Inr entry \<Rightarrow>
              (case (bps_of (fsub entry (sg_stop_loss g)) entry (sg_stop_loss g), bps_of (fsub (sg_take_profit g) entry) entry (sg_take_profit g)) of
                 (Inr risk, Inr reward) \<Rightarrow>
                   (case (if risk \<noteq> 0 then fdiv reward risk else Inr 0) of
                      Inl e \<Rightarrow> Inl e
                    | Inr ratio \<Rightarrow> Inr (Some \<lparr>ts_symbol = sg_symbol g, ts_signal_type = ty, ts_confidence = 1, ts_entry_price = entry,
                        ts_stop_loss = sg_stop_loss g, ts_take_profit = sg_take_profit g, ts_current_price = entry, ts_risk_bps = risk,
                        ts_reward_bps = reward, ts_risk_reward_ratio = ratio, ts_confirmation_count = 1, ts_is_invalidated = False,
                        ts_is_on_cooldown = False, ts_profile_id = sg_profile_id g, ts_strategy_id = sg_strategy_id g\<rparr>))
               | (Inl e, _) \<Rightarrow> Inl e
               | (_, Inl e) \<Rightarrow> Inl e)))"

definition coerce_position :: "py_data \<Rightarrow> py_error + coerced_position" where
  "coerce_position p =
     (if is_dict p then Inr (get_field p ''symbol'' DNone, py_or (get_field p ''size_usd'' DNone) (py_or (get_field p ''notional'' DNone) (DNum 0)))
      else case get_field p ''size_usd'' DNone of
          DNone \<Rightarrow> (case (py_num (get_field p ''size'' (DNum 0)),
                         py_num (py_or (get_field p ''entry_price'' DNone) (py_or (get_field p ''current_price'' DNone) (DNum 0)))) of
              (Inr sz, Inr price) \<Rightarrow> Inr (get_field p ''symbol'' DNone, DNum \<bar>fmul sz price\<bar>)
            | (Inl e, _) \<Rightarrow> Inl e
            | (_, Inl e) \<Rightarrow> Inl e)
        | x \<Rightarrow> Inr (get_field p ''symbol'' DNone, x))"

definition elements :: "py_data \<Rightarrow> py_error + py_data list" where
  "elements x = (case x of DList xs \<Rightarrow> Inr xs | _ \<Rightarrow> if py_truthy x then Inl (OtherError ''TypeError'') else Inr [])"

definition coerce_positions :: "py_data \<Rightarrow> py_error + coerced_position list" where
  "coerce_positions ctx = (case elements (get_field ctx ''positions'' (DList [])) of Inl e \<Rightarrow> Inl e
     | Inr ps \<Rightarrow> (case try_map coerce_position ps of Inl e \<Rightarrow> Inl e | Inr cs \<Rightarrow> Inr (filter (\<lambda>c. py_truthy (fst c)) cs)))"

definition account_of :: "py_data \<Rightarrow> py_data" where
  "account_of ctx = py_or (get_field ctx ''account'' DNone) (get_field ctx ''account_state'' DNone)"

definition coerce_account_balance :: "py_data \<Rightarrow> py_data" where
  "coerce_account_balance ctx = py_or (get_field (account_of ctx) ''equity'' DNone) (py_or (get_field (account_of ctx) ''account_balance'' DNone)
     (py_or (get_field ctx ''account_equity'' DNone) (DNum 0)))"

definition coerce_daily_pnl :: "py_data \<Rightarrow> py_data" where
  "coerce_daily_pnl ctx = py_or (get_field (account_of ctx) ''daily_pnl'' DNone) (py_or (get_field ctx ''daily_pnl'' DNone) (DNum 0))"

text \<open>The limits of a call: each named limit that converts, then the scaling of the conservative mode.\<close>

definition set_limit :: "string \<times> py_data \<Rightarrow> dt_validator \<Rightarrow> dt_validator" where
  "set_limit kv v = (let k = fst kv; x = snd kv in
     if k = ''max_positions'' then (case py_to_int x of Some i \<Rightarrow> v\<lparr>dt_max_positions := i\<rparr> | None \<Rightarrow> v)
     else if k = ''max_positions_per_symbol'' then (case py_to_int x of Some i \<Rightarrow> v\<lparr>dt_max_positions_per_symbol := i\<rparr> | None \<Rightarrow> v)
     else if k = ''max_consecutive_losses'' then (case py_to_int x of Some i \<Rightarrow> v\<lparr>dt_max_consecutive_losses := i\<rparr> | None \<Rightarrow> v)
     else if k = ''max_total_exposure_pct'' then (case py_to_float x of Some f \<Rightarrow> v\<lparr>dt_max_total_exposure_pct := f\<rparr> | None \<Rightarrow> v)
     else if k = ''max_exposure_per_symbol_pct'' then (case py_to_float x of Some f \<Rightarrow> v\<lparr>dt_max_exposure_per_symbol_pct := f\<rparr> | None \<Rightarrow> v)
     else if k = ''max_daily_loss_pct'' then (case py_to_float x of Some f \<Rightarrow> v\<lparr>dt_max_daily_loss_pct := f\<rparr> | None \<Rightarrow> v)
     else if k = ''max_drawdown_pct'' then (case py_to_float x of Some f \<Rightarrow> v\<lparr>dt_max_drawdown_pct := f\<rparr> | None \<Rightarrow> v)
     else v)"

definition scale_limits :: "pyfloat \<Rightarrow> dt_validator \<Rightarrow> dt_validator" where
  "scale_limits k v = v\<lparr>
     dt_max_positions := max 1 (round_half_even (fmul (fl (of_int (dt_max_positions v))) k)),
     dt_max_positions_per_symbol := max 1 (round_half_even (fmul (fl (of_int (dt_max_positions_per_symbol v))) k)),
     dt_max_total_exposure_pct := max (fl (1 / 100)) (fmul (dt_max_total_exposure_pct v) k),
     dt_max_exposure_per_symbol_pct := max (fl (5 / 1000)) (fmul (dt_max_exposure_per_symbol_pct v) k)\<rparr>"

definition apply_risk_limits :: "dt_validator \<Rightarrow> py_data \<Rightarrow> dt_validator" where
  "apply_risk_limits v ctx =
     (let v1 = (case get_field ctx ''risk_limits'' DNone of DDict d \<Rightarrow> fold set_limit d v | _ \<Rightarrow> v);
          mc = py_or (get_field ctx ''market_context'' DNone) (DDict []);
          scale = (case py_to_float (py_or (get_field mc ''risk_scale'' DNone) (DNum 1)) of Some x \<Rightarrow> x | None \<Rightarrow> 1)
      in if get_field mc ''risk_mode'' DNone = DStr ''conservative'' \<and> 0 < scale then scale_limits scale v1 else v1)"

definition restore_risk_limits :: "dt_validator \<Rightarrow> dt_validator \<Rightarrow> dt_validator" where
  "restore_risk_limits original v = v\<lparr>dt_max_positions := dt_max_positions original,
     dt_max_positions_per_symbol := dt_max_positions_per_symbol original, dt_max_total_exposure_pct := dt_max_total_exposure_pct original,
     dt_max_exposure_per_symbol_pct := dt_max_exposure_per_symbol_pct original, dt_max_daily_loss_pct := dt_max_daily_loss_pct original,
     dt_max_consecutive_losses := dt_max_consecutive_losses original, dt_max_drawdown_pct := dt_max_drawdown_pct original\<rparr>"

text \<open>The size to validate: the given one, or that of the signal, capped by the exposure limit of the context.\<close>

definition raw_size_usd :: "risk_signal \<Rightarrow> py_data \<Rightarrow> py_error + pyfloat" where
  "raw_size_usd s ctx = (case s of
       TradingSig t \<Rightarrow> Inr 0
     | StrategySig g \<Rightarrow> Inr \<bar>fmul (sg_size g) (sg_entry_price g)\<bar>
     | DictSig d t \<Rightarrow>
        (if py_truthy (get_field d ''size'' DNone) \<and> py_truthy (get_field d ''entry_price'' DNone)
         then (case (py_to_float (get_field d ''size'' DNone), py_to_float (get_field d ''entry_price'' DNone)) of
                 (Some a, Some b) \<Rightarrow> Inr \<bar>fmul a b\<bar> | _ \<Rightarrow> Inl (OtherError ''ValueError''))
         else (case (py_num (py_or (get_field d ''size'' DNone) (DNum 0)),
                     py_num (py_or (get_field d ''entry_price'' DNone) (get_field ctx ''price'' (DNum 0)))) of
                 (Inr a, Inr b) \<Rightarrow> Inr \<bar>fmul a b\<bar> | _ \<Rightarrow> Inl (OtherError ''TypeError''))))"

definition estimate_position_size_usd :: "risk_signal \<Rightarrow> py_data \<Rightarrow> py_error + pyfloat" where
  "estimate_position_size_usd s ctx = (case get_field ctx ''position_size_usd'' DNone of
       DNone \<Rightarrow>
         (let account = py_or (get_field ctx ''account'' DNone) (DDict []);
              equity = py_or (get_field account ''equity'' DNone) (py_or (get_field ctx ''account_equity'' DNone) (DNum 0));
              limits = py_or (get_field ctx ''risk_limits'' DNone) (DDict []);
              pct = py_or (get_field limits ''max_exposure_per_symbol_pct'' DNone) (DNum (fl (1 / 5)))
          in case py_num equity of
               Inl e \<Rightarrow> Inl e
             | Inr eq \<Rightarrow>
               if eq \<le> 0 then raw_size_usd s ctx
               else case py_num pct of
                   Inl e \<Rightarrow> Inl e
                 | Inr p \<Rightarrow> (case raw_size_usd s ctx of Inl e \<Rightarrow> Inl e
                     | Inr raw \<Rightarrow> Inr (if fmul eq p < raw \<and> 0 < fmul eq p then fmul eq p else raw)))
     | x \<Rightarrow> (case py_to_float x of Some f \<Rightarrow> Inr f | None \<Rightarrow> Inl (OtherError ''ValueError'')))"

text \<open>The body of the \<open>try\<close> block: an exception, no verdict, or the validator's; with the validator as it is then.\<close>

datatype attempt = Undecided | Verdict "string option"

definition attempt_validation :: "dt_validator \<Rightarrow> risk_signal \<Rightarrow> py_data \<Rightarrow> dt_validator \<times> (py_error + attempt)" where
  "attempt_validation v s ctx = (case coerce_trading_signal s ctx of
       Inl e \<Rightarrow> (v, Inl e)
     | Inr None \<Rightarrow> (v, Inr Undecided)
     | Inr (Some t) \<Rightarrow> (case coerce_positions ctx of
         Inl e \<Rightarrow> (v, Inl e)
       | Inr ps \<Rightarrow> (case py_num (coerce_account_balance ctx) of
           Inl e \<Rightarrow> (v, Inl e)
         | Inr balance \<Rightarrow>
           if balance \<le> 0 then (v, Inr Undecided)
           else (let v1 = apply_risk_limits v ctx
                 in case estimate_position_size_usd s ctx of
                   Inl e \<Rightarrow> (restore_risk_limits v v1, Inl e)
                 | Inr amount \<Rightarrow>
                   (let (v2, r) = validate_signal v1 t amount balance ps (coerce_daily_pnl ctx) (get_field ctx ''consecutive_losses'' (DInt 0))
                          (get_field ctx ''peak_balance'' (coerce_account_balance ctx)) (get_field ctx ''min_position_size_usd'' (DNum 0))
                    in (restore_risk_limits v v2, case r of Inl e \<Rightarrow> Inl e | Inr x \<Rightarrow> Inr (Verdict x)))))))"

definition risk_allow :: "risk_adapter \<Rightarrow> risk_signal \<Rightarrow> py_data \<Rightarrow> risk_adapter \<times> bool" where
  "risk_allow a s ctx = (case ra_validator a of
       None \<Rightarrow> base_allow a s
     | Some v \<Rightarrow> (let (v', r) = attempt_validation v s ctx; a' = a\<lparr>ra_validator := Some v'\<rparr>
         in case r of
              Inr (Verdict reason) \<Rightarrow> (a'\<lparr>ra_last_rejection_reason := reason\<rparr>, reason = None)
            | _ \<Rightarrow> base_allow a' s))"

section \<open>The limits as a specification\<close>

text \<open>The first limit that a request breaks, in the order of the checks.\<close>

definition first_broken_limit ::
  "dt_validator \<Rightarrow> trading_signal \<Rightarrow> pyfloat \<Rightarrow> pyfloat \<Rightarrow> (py_data \<times> pyfloat) list \<Rightarrow> pyfloat \<Rightarrow> pyfloat \<Rightarrow> pyfloat \<Rightarrow> pyfloat \<Rightarrow> string option" where
  "first_broken_limit v s amount balance ps daily losses peak minimum =
     (let same = filter (\<lambda>p. fst p = DStr (ts_symbol s)) ps;
          share = (\<lambda>xs. fl (fadd (fsum (map snd xs)) amount / balance))
      in map_option fst (find snd
        [(''max_positions_exceeded'', dt_max_positions v \<le> int (length ps)),
         (''max_positions_per_symbol_exceeded'', dt_max_positions_per_symbol v \<le> int (length same)),
         (''max_total_exposure_exceeded'', dt_max_total_exposure_pct v < share ps),
         (''max_exposure_per_symbol_exceeded'', dt_max_exposure_per_symbol_pct v < share same),
         (''max_daily_loss_exceeded'', fl (daily / balance) < - dt_max_daily_loss_pct v),
         (''max_consecutive_losses_exceeded'', of_int (dt_max_consecutive_losses v) \<le> losses),
         (''max_drawdown_exceeded'', dt_max_drawdown_pct v < fmul (fl (fsub peak balance / peak)) 100),
         (''min_position_size'', amount < minimum),
         (''invalid_signal'', \<not> signal_is_valid s)]))"

definition sized :: "(py_data \<times> pyfloat) list \<Rightarrow> coerced_position list" where
  "sized ps = map (\<lambda>p. (fst p, DNum (snd p))) ps"

lemma sum_sized [simp]: "sum_size_usd (sized ps) = Inr (fsum (map snd ps))"
proof -
  have "try_map (\<lambda>p. py_num (snd p)) (sized ps) = Inr (map snd ps)"
    by (induction ps) (simp_all add: sized_def)
  then show ?thesis by (simp add: sum_size_usd_def)
qed

lemma filter_sized [simp]: "filter (\<lambda>p. fst p = x) (sized ps) = sized (filter (\<lambda>p. fst p = x) ps)"
  by (induction ps) (simp_all add: sized_def)

lemma length_sized [simp]: "length (sized ps) = length ps"
  by (simp add: sized_def)

lemma validate_numeric:
  assumes "balance \<noteq> 0" "peak \<noteq> 0" "py_num daily_x = Inr daily" "py_num losses_x = Inr losses" "py_num peak_x = Inr peak" "py_num minimum_x = Inr minimum"
  shows "snd (validate_signal v s amount balance (sized ps) daily_x losses_x peak_x minimum_x) =
    Inr (first_broken_limit v s amount balance ps daily losses peak minimum)"
  using assms by (simp add: validate_signal_def validate_tail_def first_broken_limit_def dt_reject_def drawdown_pct_def fdiv_def Let_def)

text \<open>The counters: every request that was counted was approved, rejected for a counted reason, or ended in an exception.\<close>

definition dt_ok :: "dt_validator \<Rightarrow> bool" where
  "dt_ok v = (d_wf (dt_rejection_reasons v) \<and> sum_list (d_vals (dt_rejection_reasons v)) = dt_signals_rejected v \<and>
     dt_signals_approved v + dt_signals_rejected v \<le> dt_signals_validated v)"

definition dt_limits_of :: "dt_validator \<Rightarrow> int \<times> int \<times> pyfloat \<times> pyfloat \<times> pyfloat \<times> int \<times> pyfloat" where
  "dt_limits_of v = (dt_max_positions v, dt_max_positions_per_symbol v, dt_max_total_exposure_pct v, dt_max_exposure_per_symbol_pct v,
     dt_max_daily_loss_pct v, dt_max_consecutive_losses v, dt_max_drawdown_pct v)"

definition dt_counters_of :: "dt_validator \<Rightarrow> nat \<times> nat \<times> nat \<times> (string, nat) dict" where
  "dt_counters_of v = (dt_signals_validated v, dt_signals_approved v, dt_signals_rejected v, dt_rejection_reasons v)"

lemma restore_parts: "dt_limits_of (restore_risk_limits v w) = dt_limits_of v" "dt_counters_of (restore_risk_limits v w) = dt_counters_of w"
  by (simp_all add: dt_limits_of_def dt_counters_of_def restore_risk_limits_def)

lemma dt_ok_counters: "dt_counters_of v = dt_counters_of w \<Longrightarrow> dt_ok v = dt_ok w"
  by (simp add: dt_counters_of_def dt_ok_def)

lemma set_limit_counters: "dt_counters_of (set_limit kv v) = dt_counters_of v"
  by (simp add: set_limit_def dt_counters_of_def Let_def split: option.split)

lemma apply_counters: "dt_counters_of (apply_risk_limits v ctx) = dt_counters_of v"
proof -
  have "dt_counters_of (fold set_limit d v) = dt_counters_of v" for d
    by (induction d arbitrary: v) (simp_all add: set_limit_counters)
  moreover have "dt_counters_of (scale_limits k w) = dt_counters_of w" for k w
    by (simp add: dt_counters_of_def scale_limits_def)
  ultimately show ?thesis by (simp add: apply_risk_limits_def Let_def split: py_data.split)
qed

lemma reject_ok:
  assumes "d_wf (dt_rejection_reasons v)" "sum_list (d_vals (dt_rejection_reasons v)) = dt_signals_rejected v"
    "dt_signals_approved v + dt_signals_rejected v < dt_signals_validated v"
  shows "dt_ok (fst (dt_reject v r))"
  using assms by (simp add: dt_reject_def dt_ok_def sum_list_incr)

lemma validate_ok:
  assumes "dt_ok v"
  shows "dt_ok (fst (validate_signal v s amount balance ps daily losses peak minimum))"
proof -
  let ?v = "v\<lparr>dt_signals_validated := Suc (dt_signals_validated v)\<rparr>"
  have r: "dt_ok (fst (dt_reject ?v r))" for r using assms by (intro reject_ok) (simp_all add: dt_ok_def)
  have e: "dt_ok ?v" and a: "dt_ok (?v\<lparr>dt_signals_approved := Suc (dt_signals_approved ?v)\<rparr>)" using assms by (simp_all add: dt_ok_def)
  show ?thesis using r e a
    by (simp add: validate_signal_def validate_tail_def Let_def split: sum.split)
qed

lemma attempt_keeps:
  assumes "dt_ok v"
  shows "dt_ok (fst (attempt_validation v s ctx))" "dt_limits_of (fst (attempt_validation v s ctx)) = dt_limits_of v"
proof -
  have rest: "dt_ok (restore_risk_limits v w)" if "dt_ok w" for w
    using that dt_ok_counters [OF restore_parts(2)] by blast
  have "dt_ok (apply_risk_limits v ctx)" using assms dt_ok_counters [OF apply_counters] by blast
  then show "dt_ok (fst (attempt_validation v s ctx))" using assms
    by (auto simp: attempt_validation_def Let_def case_prod_beta intro!: rest validate_ok split: sum.split option.split)
  show "dt_limits_of (fst (attempt_validation v s ctx)) = dt_limits_of v"
    by (auto simp: attempt_validation_def Let_def case_prod_beta restore_parts split: sum.split option.split)
qed

text \<open>Requests one after the other.\<close>

definition adapter_ok :: "int \<times> int \<times> pyfloat \<times> pyfloat \<times> pyfloat \<times> int \<times> pyfloat \<Rightarrow> risk_adapter \<Rightarrow> bool" where
  "adapter_ok L a = (case ra_validator a of None \<Rightarrow> True | Some v \<Rightarrow> dt_ok v \<and> dt_limits_of v = L)"

definition allow_step :: "risk_adapter \<Rightarrow> risk_signal \<times> py_data \<Rightarrow> risk_adapter" where
  "allow_step a r = fst (risk_allow a (fst r) (snd r))"

lemma base_allow_parts: "ra_validator (fst (base_allow a s)) = ra_validator a" "snd (base_allow a s) = risk_ok s"
  by (simp_all add: base_allow_def)

lemma allow_keeps: "adapter_ok L a \<Longrightarrow> adapter_ok L (allow_step a r)"
proof (cases "ra_validator a")
  case (Some v)
  moreover assume "adapter_ok L a"
  ultimately have v: "dt_ok v" "dt_limits_of v = L" by (simp_all add: adapter_ok_def)
  obtain s ctx where r: "r = (s, ctx)" by force
  from attempt_keeps [OF v(1), of s ctx] v(2) Some show ?thesis
    by (auto simp: r allow_step_def risk_allow_def adapter_ok_def Let_def case_prod_beta base_allow_parts split: sum.split attempt.split)
qed (simp add: allow_step_def risk_allow_def adapter_ok_def base_allow_parts)

interpretation risk_checks: invariant_machine allow_step "\<lambda>r. True" "adapter_ok L" for L
  by unfold_locales (rule allow_keeps)

section \<open>Properties\<close>

text \<open>A signal in the form of a dictionary is never validated: whatever the account, the positions and the limits are, the verdict
  is the signal's own \<open>risk_ok\<close> entry, true when there is none, and the validator is not asked.  The signal stage and the risk
  worker turn every signal into a dictionary before they ask.\<close>

theorem dict_signals_skip_limits:
  "risk_allow a (DictSig d None) ctx =
     (let ok = py_truthy (get_field d ''risk_ok'' (DBool True))
      in (a\<lparr>ra_last_rejection_reason := (if ok then None else Some ''risk_blocked'')\<rparr>, ok))"
  by (cases "ra_validator a")
    (simp_all add: risk_allow_def base_allow_def risk_ok_def attempt_validation_def coerce_trading_signal_def Let_def)

text \<open>C33: Where the validator is asked with readable figures it decides by its limits: a signal that can be coerced is allowed exactly
  when no limit of the call is broken, and the reason names the first broken one.\<close>

theorem validator_applies_limits:
  assumes "ra_validator a = Some v" and "coerce_trading_signal s ctx = Inr (Some t)" and "coerce_positions ctx = Inr (sized ps)"
    and "py_num (coerce_account_balance ctx) = Inr balance" and "0 < balance" and "estimate_position_size_usd s ctx = Inr amount"
    and "py_num (coerce_daily_pnl ctx) = Inr daily" and "py_num (get_field ctx ''consecutive_losses'' (DInt 0)) = Inr losses"
    and "py_num (get_field ctx ''peak_balance'' (coerce_account_balance ctx)) = Inr peak" and "peak \<noteq> 0"
    and "py_num (get_field ctx ''min_position_size_usd'' (DNum 0)) = Inr minimum"
  shows "let broken = first_broken_limit (apply_risk_limits v ctx) t amount balance ps daily losses peak minimum
     in snd (risk_allow a s ctx) = (broken = None) \<and> ra_last_rejection_reason (fst (risk_allow a s ctx)) = broken"
proof -
  have "snd (validate_signal (apply_risk_limits v ctx) t amount balance (sized ps) (coerce_daily_pnl ctx)
      (get_field ctx ''consecutive_losses'' (DInt 0)) (get_field ctx ''peak_balance'' (coerce_account_balance ctx))
      (get_field ctx ''min_position_size_usd'' (DNum 0))) =
    Inr (first_broken_limit (apply_risk_limits v ctx) t amount balance ps daily losses peak minimum)"
    using assms by (intro validate_numeric) simp_all
  with assms have "snd (attempt_validation v s ctx) =
      Inr (Verdict (first_broken_limit (apply_risk_limits v ctx) t amount balance ps daily losses peak minimum))"
    by (simp add: attempt_validation_def Let_def case_prod_beta)
  with assms(1) show ?thesis by (simp add: risk_allow_def Let_def case_prod_beta)
qed

text \<open>The adapter fails open: without equity, as with any context that it cannot read, the limits are not asked, so every signal
  that is not a dictionary is allowed.\<close>

theorem broke_account_is_allowed:
  assumes "py_num (coerce_account_balance ctx) = Inr balance" and "balance \<le> 0"
  shows "snd (risk_allow a s ctx) = risk_ok s"
proof (cases "ra_validator a")
  case (Some v)
  have "\<not> (\<exists>x. snd (attempt_validation v s ctx) = Inr (Verdict x))"
    using assms by (auto simp: attempt_validation_def split: sum.split option.split)
  with Some show ?thesis
    by (auto simp: risk_allow_def base_allow_parts Let_def case_prod_beta split: sum.split attempt.split)
qed (simp add: risk_allow_def base_allow_parts)

text \<open>Limits are per call: after any requests the validator's limits are those of the beginning, whatever the requests' own limits
  and however they ended, and every counted request was approved, rejected for a counted reason, or ended in an exception.\<close>

theorem limits_restored:
  assumes "ra_validator a = Some v" and "dt_ok v"
  shows "\<exists>v'. ra_validator (foldl allow_step a requests) = Some v' \<and> dt_ok v' \<and> dt_limits_of v' = dt_limits_of v"
proof -
  have "adapter_ok (dt_limits_of v) (foldl allow_step a requests)"
    using assms by (intro risk_checks.run_inv) (simp_all add: adapter_ok_def list_all_iff)
  moreover have "ra_validator (allow_step a r) \<noteq> None" if "ra_validator a \<noteq> None" for a r
    using that by (auto simp: allow_step_def risk_allow_def Let_def case_prod_beta base_allow_parts split: sum.split attempt.split)
  then have "ra_validator (foldl allow_step a requests) \<noteq> None"
    using assms(1) by (intro invariant_machine.run_inv [where admits = "\<lambda>r. True" and inv = "\<lambda>a. ra_validator a \<noteq> None"])
      (simp_all add: invariant_machine_def list_all_iff)
  ultimately show ?thesis by (auto simp: adapter_ok_def)
qed

text \<open>The drawdown limit is a fraction, but it is compared with percents: with the limit 0.1, documented as ten percent, every
  request is rejected or raises as soon as the balance is one part in 512 below its peak.\<close>

theorem drawdown_limit_is_in_percent:
  assumes "dt_max_drawdown_pct v = dt_max_drawdown_pct dt_validator_init" and "is_float peak" and "0 < peak" and "balance \<le> peak * (511 / 512)"
  shows "snd (validate_signal v s amount balance ps daily losses (DNum peak) minimum) \<noteq> Inr None"
proof -
  have e: "(2 :: rat) powi - 9 = 1 / 512" by (simp add: power_int_minus)
  have "peak * 2 powi - 9 \<le> fsub peak balance"
    unfolding fsub_def using assms(4) e by (intro fl_ge is_float_scale assms(2)) (simp add: field_simps)
  then have "1 * 2 powi - 9 \<le> fsub peak balance / peak" using assms(3) by (simp add: e field_simps)
  then have "1 * 2 powi - 9 \<le> fl (fsub peak balance / peak)" by (intro fl_ge is_float_scale) (simp_all add: is_float_def)
  then have "fl (100 * 2 powi - 9) \<le> fmul (fl (fsub peak balance / peak)) 100" unfolding fmul_def by (intro fl_mono) simp
  moreover have "fl (100 * 2 powi - 9) = 100 / 512" unfolding fl_scale by (simp add: e)
  moreover have "fl (1 / 10) < 100 / 512"
  proof -
    have "fl (1 / 10) \<le> 1 * 2 powi - 3" by (rule fl_le [OF is_float_scale]) (simp_all add: is_float_def power_int_minus)
    then show ?thesis by (simp add: power_int_minus)
  qed
  ultimately have "dt_max_drawdown_pct v < fmul (fl (fsub peak balance / peak)) 100"
    using assms(1) by (simp add: dt_validator_init_def)
  then have "\<forall>w. dt_max_drawdown_pct w = dt_max_drawdown_pct v \<longrightarrow> snd (validate_tail w s amount balance losses (DNum peak) minimum) \<noteq> Inr None"
    using assms(3) by (auto simp: validate_tail_def dt_reject_def drawdown_pct_def fdiv_def split: sum.split)
  then show ?thesis by (auto simp: validate_signal_def dt_reject_def Let_def split: sum.split)
qed

section \<open>Examples\<close>

definition sample_strategy_signal :: strategy_signal where
  "sample_strategy_signal = \<lparr>sg_strategy_id = ''breakout'', sg_symbol = ''BTCUSDT'', sg_side = ''long'', sg_size = 1, sg_entry_price = 100,
     sg_stop_loss = 99, sg_take_profit = 102, sg_profile_id = ''default''\<rparr>"

definition sample_risk_context :: "pyfloat \<Rightarrow> py_data" where
  "sample_risk_context equity = DDict [(''account'', DDict [(''equity'', DNum equity)]),
     (''positions'', DList [DDict [(''symbol'', DStr ''ETHUSDT''), (''size_usd'', DNum 100)]])]"

definition sample_adapter :: risk_adapter where
  "sample_adapter = \<lparr>ra_validator = Some dt_validator_init, ra_last_rejection_reason = None\<rparr>"

lemma sample_readable:
  "coerce_trading_signal (StrategySig sample_strategy_signal) (sample_risk_context 1000) = Inr (Some \<lparr>ts_symbol = ''BTCUSDT'',
     ts_signal_type = SigLong, ts_confidence = 1, ts_entry_price = 100, ts_stop_loss = 99, ts_take_profit = 102, ts_current_price = 100,
     ts_risk_bps = 100, ts_reward_bps = 200, ts_risk_reward_ratio = 2, ts_confirmation_count = 1, ts_is_invalidated = False,
     ts_is_on_cooldown = False, ts_profile_id = ''default'', ts_strategy_id = ''breakout''\<rparr>)"
  "coerce_positions (sample_risk_context 1000) = Inr (sized [(DStr ''ETHUSDT'', 100)])"
  "estimate_position_size_usd (StrategySig sample_strategy_signal) (sample_risk_context 1000) = Inr 100"
  "py_num (coerce_account_balance (sample_risk_context 1000)) = Inr 1000"
  "py_num (coerce_daily_pnl (sample_risk_context 1000)) = Inr 0"
  "py_num (get_field (sample_risk_context 1000) ''consecutive_losses'' (DInt 0)) = Inr 0"
  "py_num (get_field (sample_risk_context 1000) ''peak_balance'' (coerce_account_balance (sample_risk_context 1000))) = Inr 1000"
  "py_num (get_field (sample_risk_context 1000) ''min_position_size_usd'' (DNum 0)) = Inr 0"
  by code_simp+

lemma sample_limits:
  "first_broken_limit (apply_risk_limits dt_validator_init (sample_risk_context 1000)) \<lparr>ts_symbol = ''BTCUSDT'',
     ts_signal_type = SigLong, ts_confidence = 1, ts_entry_price = 100, ts_stop_loss = 99, ts_take_profit = 102, ts_current_price = 100,
     ts_risk_bps = 100, ts_reward_bps = 200, ts_risk_reward_ratio = 2, ts_confirmation_count = 1, ts_is_invalidated = False,
     ts_is_on_cooldown = False, ts_profile_id = ''default'', ts_strategy_id = ''breakout''\<rparr> 100 1000 [(DStr ''ETHUSDT'', 100)] 0 0 1000 0 = None"
  by code_simp

theorem validator_applies_limits_witness:
  "snd (risk_allow sample_adapter (StrategySig sample_strategy_signal) (sample_risk_context 1000))"
proof -
  have "ra_validator sample_adapter = Some dt_validator_init" by (simp add: sample_adapter_def)
  from validator_applies_limits [OF this sample_readable(1,2,4) _ sample_readable(3,5,6,7) _ sample_readable(8)] sample_limits
  show ?thesis by (simp add: Let_def)
qed

theorem broke_account_is_allowed_witness:
  "snd (risk_allow sample_adapter (StrategySig sample_strategy_signal) (sample_risk_context (-5)))"
proof -
  have "py_num (coerce_account_balance (sample_risk_context (-5))) = Inr (-5)" by code_simp
  from broke_account_is_allowed [OF this] show ?thesis by (simp add: risk_ok_def)
qed

theorem limits_restored_witness:
  "\<exists>v'. ra_validator (foldl allow_step sample_adapter [(StrategySig sample_strategy_signal, DDict [(''risk_limits'', DDict [(''max_positions'', DInt 9)])])]) = Some v' \<and>
     dt_max_positions v' = 4"
proof -
  have "ra_validator sample_adapter = Some dt_validator_init" "dt_ok dt_validator_init"
    by (simp_all add: sample_adapter_def dt_ok_def dt_validator_init_def d_vals_def)
  from limits_restored [OF this, of "[(StrategySig sample_strategy_signal, DDict [(''risk_limits'', DDict [(''max_positions'', DInt 9)])])]"]
  show ?thesis by (auto simp: dt_limits_of_def dt_validator_init_def)
qed

theorem drawdown_limit_is_in_percent_witness:
  "\<forall>s. snd (validate_signal dt_validator_init s 100 998 [] (DNum 0) (DInt 0) (DNum 1000) (DNum 0)) \<noteq> Inr None"
  using drawdown_limit_is_in_percent [of dt_validator_init 1000 998] by (simp add: is_float_def)

end
