(* ===== verification/Risk_Stage.thy ===== *)
theory Risk_Stage
  imports Pipeline Correlation Risk_Limits
begin

text \<open>
  The risk stage of the signal pipeline (\<open>RiskStage\<close> of quantgambit/signals/pipeline.py) with the replacement of
  positions: exits pass, replacements pass, an open position at its limit rejects, the correlation guard is asked, and
  then the validator.  The environment's switches are configuration; logging and the copy of the open positions in a
  rejection's detail are left out.
\<close>

section \<open>Replacing a position\<close>

record replace_config =
  rp_opposite_only :: bool
  rp_min_hold_sec :: pyfloat
  rp_min_edge_bps :: pyfloat
  rp_min_confidence :: pyfloat

definition default_replace_config :: replace_config where
  "default_replace_config = \<lparr>rp_opposite_only = True, rp_min_hold_sec = 0, rp_min_edge_bps = 0, rp_min_confidence = 0\<rparr>"

text \<open>Sides other than texts have no text among the names.\<close>

definition normalize_side :: "py_data \<Rightarrow> string option" where
  "normalize_side x = (case x of
       DStr s \<Rightarrow> (let t = py_lower (strip s)
         in if t \<in> {''long'', ''buy'', ''up''} then Some ''long'' else if t \<in> {''short'', ''sell'', ''down''} then Some ''short'' else None)
     | _ \<Rightarrow> None)"

fun first_given :: "py_data \<Rightarrow> string list \<Rightarrow> py_data option" where
  "first_given d [] = None"
| "first_given d (k # ks) = (let v = get_field d k DNone in if v = DNone then first_given d ks else Some v)"

definition extract_expected_edge_bps :: "py_data \<Rightarrow> stage_context \<Rightarrow> pyfloat option" where
  "extract_expected_edge_bps sig x = (case first_given sig [''expected_edge_bps'', ''edge_bps''] of
       Some v \<Rightarrow> py_to_float v
     | None \<Rightarrow> py_to_float (get_field (get_field (sc_data x) ''candidate'' DNone) ''expected_edge_bps'' DNone))"

definition extract_signal_confidence :: "py_data \<Rightarrow> pyfloat option" where
  "extract_signal_confidence sig = (case first_given sig [''prediction_confidence'', ''confidence'', ''signal_confidence''] of
       Some v \<Rightarrow> py_to_float v | None \<Rightarrow> None)"

definition normalize_timestamp_seconds :: "py_data \<Rightarrow> pyfloat option" where
  "normalize_timestamp_seconds v = (case py_to_float v of None \<Rightarrow> None
     | Some ts \<Rightarrow> Some (if 10 ^ 12 < ts then fl (ts / 1000) else ts))"

definition held_too_short :: "replace_config \<Rightarrow> pyfloat \<Rightarrow> py_data \<Rightarrow> bool" where
  "held_too_short rp now existing =
     (let opened = get_field existing ''opened_at'' DNone
      in 0 < rp_min_hold_sec rp \<and> py_truthy opened \<and>
         (case normalize_timestamp_seconds opened of None \<Rightarrow> False | Some t \<Rightarrow> fsub now t < rp_min_hold_sec rp))"

text \<open>The replacement is refused for another reason, or the signal is marked.\<close>

definition mark_replacement :: "replace_config \<Rightarrow> pyfloat \<Rightarrow> py_data \<Rightarrow> stage_context \<Rightarrow> py_data \<Rightarrow> py_data option" where
  "mark_replacement rp now sig x existing =
     (case (normalize_side (get_field sig ''side'' DNone), normalize_side (get_field existing ''side'' DNone)) of
        (Some new, Some old) \<Rightarrow>
          (let edge = extract_expected_edge_bps sig x; conf = extract_signal_confidence sig
           in if rp_opposite_only rp \<and> new = old then None
              else if held_too_short rp now existing then None
              else if (case edge of Some v \<Rightarrow> v < rp_min_edge_bps rp | None \<Rightarrow> False) then None
              else if (case conf of Some v \<Rightarrow> v < rp_min_confidence rp | None \<Rightarrow> False) then None
              else (let s1 = dict_set (dict_set (dict_set (dict_set sig ''replace_position'' (DBool True))
                          ''replace_reason'' (DStr (if new \<noteq> old then ''replace_opposite_side'' else ''replace_allowed'')))
                          ''replace_existing_side'' (DStr old)) ''replace_existing_size'' (get_field existing ''size'' DNone);
                        s2 = (case edge of Some v \<Rightarrow> dict_set s1 ''replace_expected_edge_bps'' (DNum v) | None \<Rightarrow> s1)
                    in Some (case conf of Some v \<Rightarrow> dict_set s2 ''replace_signal_confidence'' (DNum v) | None \<Rightarrow> s2)))
      | _ \<Rightarrow> None)"

definition maybe_allow_replacement ::
  "pipeline_config \<Rightarrow> replace_config \<Rightarrow> pyfloat \<Rightarrow> py_data \<Rightarrow> stage_context \<Rightarrow> py_error + py_data option" where
  "maybe_allow_replacement c rp now sig x =
     (if \<not> is_dict sig then Inr None
      else if py_truthy (get_field sig ''replace_position'' DNone) then Inr (Some sig)
      else if \<not> pc_allow_position_replacement c \<or> \<not> py_truthy (get_field (sc_data x) ''positions'' DNone) then Inr None
      else case max_positions_per_symbol c x of
          Inl e \<Rightarrow> Inl e
        | Inr m \<Rightarrow> (case same_symbol_positions x of
            Inl e \<Rightarrow> Inl e
          | Inr ps \<Rightarrow>
            if of_nat (length ps) < m then Inr None
            else (case ps of [] \<Rightarrow> Inl IndexError | existing # rest \<Rightarrow> Inr (mark_replacement rp now sig x existing))))"

definition should_block_existing_position :: "pipeline_config \<Rightarrow> py_data \<Rightarrow> stage_context \<Rightarrow> py_error + bool" where
  "should_block_existing_position c sig x =
     (if \<not> is_dict sig \<or> py_truthy (get_field sig ''replace_position'' DNone) \<or> \<not> pc_block_if_position_exists c then Inr False
      else position_limit_reached c x)"

section \<open>The stage\<close>

text \<open>A dictionary is handed to the guard as it is, with its size unsigned; an object's size gets the sign of its side.  Sizes are
  read as numbers here, so one of another type raises also where the guard would have skipped the position.\<close>

definition symbol_option :: "py_data \<Rightarrow> string option" where
  "symbol_option x = (case x of DStr s \<Rightarrow> Some s | _ \<Rightarrow> None)"

definition position_to_held :: "py_data \<Rightarrow> py_error + held_position" where
  "position_to_held p =
     (if is_dict p then (case py_num (get_field p ''size'' (DInt 0)) of Inl e \<Rightarrow> Inl e
        | Inr z \<Rightarrow> Inr (symbol_option (get_field p ''symbol'' (DStr [])), z))
      else (case py_num (get_field p ''size'' (DInt 0)) of Inl e \<Rightarrow> Inl e
        | Inr z \<Rightarrow> (let side = get_field p ''side'' DNone; s = symbol_option (get_field p ''symbol'' DNone)
            in if \<not> py_truthy side then Inr (s, z)
               else case side of
                   DStr t \<Rightarrow> Inr (s, if py_lower t \<in> {''short'', ''sell''} \<and> 0 < z then - z else z)
                 | _ \<Rightarrow> Inl (OtherError ''AttributeError''))))"

definition positions_to_held :: "stage_context \<Rightarrow> py_error + held_position list" where
  "positions_to_held x = (case py_elements (py_or (get_field (sc_data x) ''positions'' DNone) (DList [])) of
     Inl e \<Rightarrow> Inl e | Inr ps \<Rightarrow> try_map position_to_held ps)"

text \<open>The side of the signal for the guard: nothing for an unknown one.\<close>

definition guard_side :: "py_data \<Rightarrow> py_error + string option" where
  "guard_side sig = (let side = py_or (get_field sig ''side'' DNone) (get_field sig ''direction'' DNone)
     in if \<not> py_truthy side then Inr None
        else case side of
          DStr s \<Rightarrow> Inr (if py_lower s \<in> {''buy'', ''long''} then Some ''long''
            else if py_lower s \<in> {''sell'', ''short''} then Some ''short'' else None)
        | _ \<Rightarrow> Inl (OtherError ''AttributeError''))"

definition risk_context :: "stage_context \<Rightarrow> py_data" where
  "risk_context x = (let d = sc_data x in
     DDict ((''symbol'', DStr (sc_symbol x)) # map (\<lambda>k. (k, get_field d k DNone)) [''market_context'', ''features'', ''account'', ''positions'', ''risk_limits'']))"

record risk_state =
  rs_adapter :: risk_adapter
  rs_guard :: "correlation_guard option"

definition ask_guard :: "risk_state \<Rightarrow> py_data \<Rightarrow> stage_context \<Rightarrow> risk_state \<times> (py_error + correlation_result)" where
  "ask_guard rs sig x = (case rs_guard rs of
       None \<Rightarrow> (rs, Inr correlation_allowed)
     | Some g \<Rightarrow> (case guard_side sig of
         Inl e \<Rightarrow> (rs, Inl e)
       | Inr None \<Rightarrow> (rs, Inr correlation_allowed)
       | Inr (Some side) \<Rightarrow> (case positions_to_held x of
           Inl e \<Rightarrow> (rs, Inl e)
         | Inr hs \<Rightarrow> (let (g', r) = correlation_check g (sc_symbol x) side hs in (rs\<lparr>rs_guard := Some g'\<rparr>, r)))))"

text \<open>What the validator finds in the signal: a dictionary may carry a \<open>TradingSignal\<close> under \<open>trading_signal\<close>, which is then the one
  that is validated; any other value there counts for nothing.  \<open>classify\<close> says what an object that is no dictionary is.\<close>

definition attached_signal :: "(py_data \<Rightarrow> risk_signal) \<Rightarrow> py_data \<Rightarrow> trading_signal option" where
  "attached_signal classify sig =
     (let v = get_field sig ''trading_signal'' DNone
      in if py_truthy v \<and> \<not> is_dict v then (case classify v of TradingSig t \<Rightarrow> Some t | _ \<Rightarrow> None) else None)"

definition handed_signal :: "(py_data \<Rightarrow> risk_signal) \<Rightarrow> py_data \<Rightarrow> risk_signal" where
  "handed_signal classify sig = (if is_dict sig then DictSig sig (attached_signal classify sig) else classify sig)"

definition ask_validator ::
  "pipeline_config \<Rightarrow> (py_data \<Rightarrow> risk_signal) \<Rightarrow> risk_state \<Rightarrow> py_data \<Rightarrow> stage_context \<Rightarrow> risk_state \<times> stage_context \<times> stage_result" where
  "ask_validator c classify rs sig x =
     (let (a', ok) = risk_allow (rs_adapter rs) (handed_signal classify sig) (risk_context x);
          rs' = rs\<lparr>rs_adapter := a'\<rparr>;
          reason = (if s_truthy (ra_last_rejection_reason a') then the (ra_last_rejection_reason a') else ''risk_blocked'')
      in if ok then (rs', x, CONTINUE)
         else (rs', (let y = x\<lparr>sc_rejection_reason := Some reason, sc_rejection_stage := Some ''risk_check''\<rparr>
                 in if pc_trace_detail c then y\<lparr>sc_rejection_detail := Some (StageDetail (DStr reason))\<rparr> else y), REJECT))"

definition is_exit_signal :: "py_data \<Rightarrow> bool" where
  "is_exit_signal sig = (py_truthy (get_field sig ''is_exit_signal'' (DBool False)) \<or> py_truthy (get_field sig ''reduce_only'' (DBool False)))"

definition risk_stage_run ::
  "pipeline_config \<Rightarrow> replace_config \<Rightarrow> (py_data \<Rightarrow> risk_signal) \<Rightarrow> pyfloat \<Rightarrow> risk_state \<Rightarrow> stage_context \<Rightarrow>
     risk_state \<times> (py_error + stage_context \<times> stage_result)" where
  "risk_stage_run c rp classify now rs x =
     (let sig = py_or (sc_signal x) (DDict [])
      in if is_exit_signal sig then (rs, Inr (x, CONTINUE))
         else case maybe_allow_replacement c rp now sig x of
           Inl e \<Rightarrow> (rs, Inl e)
         | Inr (Some sig') \<Rightarrow> (rs, Inr (if py_truthy (sc_signal x) then x\<lparr>sc_signal := sig'\<rparr> else x, CONTINUE))
         | Inr None \<Rightarrow> (case should_block_existing_position c sig x of
             Inl e \<Rightarrow> (rs, Inl e)
           | Inr True \<Rightarrow> (rs, Inr ((let y = x\<lparr>sc_rejection_reason := Some ''position_exists'', sc_rejection_stage := Some ''risk_check''\<rparr>
               in if pc_trace_detail c then y\<lparr>sc_rejection_detail := Some (PositionOpen (sc_symbol x) ''same_symbol_position_open'' [])\<rparr> else y),
               REJECT))
           | Inr False \<Rightarrow> (case ask_guard rs sig x of
               (rs1, Inl e) \<Rightarrow> (rs1, Inl e)
             | (rs1, Inr r) \<Rightarrow>
               if \<not> cr_allowed r
               then (rs1, Inr ((let y = x\<lparr>sc_rejection_reason := Some ''correlation_blocked'', sc_rejection_stage := Some ''correlation_guard''\<rparr>
                   in if pc_trace_detail c then y\<lparr>sc_rejection_detail := Some (StageDetail (DDict
                        [(''blocking_symbol'', (case cr_blocking_symbol r of None \<Rightarrow> DNone | Some s \<Rightarrow> DStr s)),
                         (''correlation'', (case cr_correlation r of None \<Rightarrow> DNone | Some k \<Rightarrow> DNum k))]))\<rparr> else y), REJECT))
               else (case ask_validator c classify rs1 sig x of (rs2, y, res) \<Rightarrow> (rs2, Inr (y, res))))))"

text \<open>As a stage of the pipeline, whose world is the stage's state and others'.\<close>

definition risk_stage :: "pipeline_config \<Rightarrow> replace_config \<Rightarrow> (py_data \<Rightarrow> risk_signal) \<Rightarrow> pyfloat \<Rightarrow> (risk_state \<times> 'w) pipe_stage" where
  "risk_stage c rp classify now = \<lparr>pg_name = ''risk_check'', pg_run = (\<lambda>(rs, w) x.
     let (rs', r) = risk_stage_run c rp classify now rs x in ((rs', w), r))\<rparr>"


section \<open>Verdicts\<close>

text \<open>The size of a position as the guard reads it and its symbol, for positions that can be read.\<close>

definition guard_conflict :: "correlation_guard \<Rightarrow> string \<Rightarrow> string \<Rightarrow> (string \<times> pyfloat) list \<Rightarrow> (string \<times> pyfloat) option" where
  "guard_conflict g s side ps =
     (if guard_applies (cg_config g) s side then find (conflicts (cg_config g) (cg_correlations g) s side) ps else None)"

lemma guard_side_cases:
  assumes "guard_side sig = Inr (Some side)"
  shows "side = ''long'' \<or> side = ''short''"
  using assms by (auto simp: guard_side_def Let_def split: if_splits py_data.splits)

lemma ask_guard_allowed:
  assumes "rs_guard rs = Some g" "guard_side sig = Inr (Some side)" "positions_to_held x = Inr (held ps)"
  shows "\<exists>rs' r. ask_guard rs sig x = (rs', Inr r) \<and> rs_adapter rs' = rs_adapter rs \<and> cr_allowed r = (guard_conflict g (sc_symbol x) side ps = None)"
proof -
  have "py_lower side = side" using guard_side_cases [OF assms(2)] by (auto simp: py_lower_def lower_char_def)
  with assms show ?thesis
    by (auto simp: ask_guard_def check_held guard_conflict_def Let_def correlation_allowed_def split: option.split)
qed

lemma ask_guard_none:
  assumes "rs_guard rs = None \<or> guard_side sig = Inr None"
  shows "ask_guard rs sig x = (rs, Inr correlation_allowed)"
  using assms by (auto simp: ask_guard_def split: option.split)

lemma dict_verdict: "snd (risk_allow a (DictSig d None) ctx) = py_truthy (get_field d ''risk_ok'' (DBool True))"
  by (cases "ra_validator a")
    (simp_all add: risk_allow_def base_allow_def risk_ok_def attempt_validation_def coerce_trading_signal_def Let_def)

text \<open>The verdict on a dictionary: its own entry, unless it carries a signal to validate.\<close>

definition dict_signal_allowed :: "(py_data \<Rightarrow> risk_signal) \<Rightarrow> risk_adapter \<Rightarrow> py_data \<Rightarrow> py_data \<Rightarrow> bool" where
  "dict_signal_allowed classify a sig ctx = (case attached_signal classify sig of
       None \<Rightarrow> py_truthy (get_field sig ''risk_ok'' (DBool True))
     | Some t \<Rightarrow> snd (risk_allow a (DictSig sig (Some t)) ctx))"

lemma ask_validator_dict:
  assumes "is_dict sig"
  shows "\<exists>rs' y. ask_validator c classify rs sig x =
    (rs', y, if dict_signal_allowed classify (rs_adapter rs) sig (risk_context x) then CONTINUE else REJECT)"
proof -
  have "snd (risk_allow (rs_adapter rs) (handed_signal classify sig) (risk_context x)) =
      dict_signal_allowed classify (rs_adapter rs) sig (risk_context x)"
    using assms by (simp add: handed_signal_def dict_signal_allowed_def dict_verdict split: option.split)
  then show ?thesis by (auto simp: ask_validator_def Let_def case_prod_beta)
qed

lemma mark_deserved:
  assumes "mark_replacement rp now sig x old = Some sig'"
  shows "\<exists>new_side old_side. normalize_side (get_field sig ''side'' DNone) = Some new_side \<and>
      normalize_side (get_field old ''side'' DNone) = Some old_side \<and> (rp_opposite_only rp \<longrightarrow> new_side \<noteq> old_side) \<and> \<not> held_too_short rp now old"
    and "\<forall>v. extract_expected_edge_bps sig x = Some v \<longrightarrow> rp_min_edge_bps rp \<le> v"
    and "\<forall>v. extract_signal_confidence sig = Some v \<longrightarrow> rp_min_confidence rp \<le> v"
  using assms by (auto simp: mark_replacement_def Let_def split: option.splits if_splits)

lemma mark_kept:
  assumes "is_dict sig" "mark_replacement rp now sig x old = Some sig'"
  shows "py_truthy (get_field sig' ''replace_position'' DNone)"
    and "take 8 k \<noteq> ''replace_'' \<Longrightarrow> get_field sig' k dflt = get_field sig k dflt"
proof -
  show "py_truthy (get_field sig' ''replace_position'' DNone)"
    using assms by (auto simp: mark_replacement_def Let_def split: option.splits if_split_asm)
  assume "take 8 k \<noteq> ''replace_''"
  then have "''replace_position'' \<noteq> k" "''replace_reason'' \<noteq> k" "''replace_existing_side'' \<noteq> k" "''replace_existing_size'' \<noteq> k"
      "''replace_expected_edge_bps'' \<noteq> k" "''replace_signal_confidence'' \<noteq> k"
    by auto
  with assms show "get_field sig' k dflt = get_field sig k dflt"
    by (auto simp: mark_replacement_def Let_def simp del: is_dict.simps split: option.splits if_split_asm)
qed

text \<open>A signal that nobody marked: no exit and no replacement.\<close>

definition plain_entry :: "py_data \<Rightarrow> bool" where
  "plain_entry sig = (is_dict sig \<and> py_truthy sig \<and> \<not> is_exit_signal sig \<and> \<not> py_truthy (get_field sig ''replace_position'' DNone))"

lemma plain_entry_blocked:
  assumes "plain_entry (sc_signal x)" "\<not> pc_allow_position_replacement c" "should_block_existing_position c (sc_signal x) x = Inr True"
  shows "\<exists>y. risk_stage_run c rp classify now rs x = (rs, Inr (y, REJECT))"
  using assms by (simp add: risk_stage_run_def plain_entry_def py_or_def maybe_allow_replacement_def Let_def)

lemma plain_entry_asked:
  assumes "plain_entry (sc_signal x)" "\<not> pc_allow_position_replacement c" "should_block_existing_position c (sc_signal x) x = Inr False"
    and "ask_guard rs (sc_signal x) x = (rs1, Inr r)" "ask_validator c classify rs1 (sc_signal x) x = (rs2, y, res)"
  shows "\<exists>rs' y. risk_stage_run c rp classify now rs x = (rs', Inr (y, if cr_allowed r then res else REJECT))"
  using assms by (simp add: risk_stage_run_def plain_entry_def py_or_def maybe_allow_replacement_def Let_def)

section \<open>Properties\<close>

text \<open>C9: What the risk check lets through: for an entry signal in the form of a dictionary, where replacement is off, with a
  correlation guard and readable positions, it continues exactly when no position of the symbol is at its limit (where open positions
  block), the guard finds no correlated position of the same direction, and the validator agrees.  The validator decides by its
  limits only when the dictionary carries a \<open>TradingSignal\<close> object, which is then validated against the account; without one its
  answer is the signal's own \<open>risk_ok\<close>, true when there is none, so that neither the adapter nor the context is looked at.\<close>

theorem risk_check_decides:
  assumes "plain_entry (sc_signal x)" and "\<not> pc_allow_position_replacement c"
    and "rs_guard rs = Some g" and "guard_side (sc_signal x) = Inr (Some side)" and "positions_to_held x = Inr (held ps)"
    and "position_limit_reached c x = Inr full"
  shows "\<exists>rs' y r. risk_stage_run c rp classify now rs x = (rs', Inr (y, r)) \<and>
     r = (if (pc_block_if_position_exists c \<longrightarrow> \<not> full) \<and> guard_conflict g (sc_symbol x) side ps = None \<and>
             (case attached_signal classify (sc_signal x) of
                None \<Rightarrow> py_truthy (get_field (sc_signal x) ''risk_ok'' (DBool True))
              | Some t \<Rightarrow> snd (risk_allow (rs_adapter rs) (DictSig (sc_signal x) (Some t)) (risk_context x)))
          then CONTINUE else REJECT)"
proof -
  have d: "is_dict (sc_signal x)" using assms(1) by (simp add: plain_entry_def)
  have block: "should_block_existing_position c (sc_signal x) x = Inr (pc_block_if_position_exists c \<and> full)"
    using assms(1,6) by (auto simp: plain_entry_def should_block_existing_position_def)
  obtain rs1 r1 where g: "ask_guard rs (sc_signal x) x = (rs1, Inr r1)" "rs_adapter rs1 = rs_adapter rs" "cr_allowed r1 = (guard_conflict g (sc_symbol x) side ps = None)"
    using ask_guard_allowed [OF assms(3-5)] by auto
  obtain rs2 y where v: "ask_validator c classify rs1 (sc_signal x) x =
      (rs2, y, if dict_signal_allowed classify (rs_adapter rs) (sc_signal x) (risk_context x) then CONTINUE else REJECT)"
    using ask_validator_dict [OF d, of c classify rs1] unfolding g(2) by blast
  show ?thesis
  proof (cases "pc_block_if_position_exists c \<and> full")
    case True
    then show ?thesis using plain_entry_blocked [OF assms(1,2), of rp classify now rs] block by auto
  next
    case False
    then have "should_block_existing_position c (sc_signal x) x = Inr False" using block by simp
    from plain_entry_asked [OF assms(1,2) this g(1) v] False g(3) show ?thesis by (auto simp: dict_signal_allowed_def)
  qed
qed

text \<open>A replacement that the risk check grants to a signal that did not ask for it is deserved: replacement is switched on, the
  symbol is at its position limit, the first position of the symbol has the other side (where only opposite sides may replace) and
  was held long enough, and the given edge and confidence reach their minima; the signal keeps all entries but those of the
  replacement.  Such a signal continues at once: neither the guard nor the validator is asked.\<close>

theorem replacement_is_deserved:
  assumes "maybe_allow_replacement c rp now sig x = Inr (Some sig')" and "\<not> py_truthy (get_field sig ''replace_position'' DNone)"
  shows "pc_allow_position_replacement c \<and> position_limit_reached c x = Inr True \<and>
     (\<exists>old rest new_side old_side. same_symbol_positions x = Inr (old # rest) \<and> normalize_side (get_field sig ''side'' DNone) = Some new_side \<and>
        normalize_side (get_field old ''side'' DNone) = Some old_side \<and> (rp_opposite_only rp \<longrightarrow> new_side \<noteq> old_side) \<and> \<not> held_too_short rp now old) \<and>
     (\<forall>v. extract_expected_edge_bps sig x = Some v \<longrightarrow> rp_min_edge_bps rp \<le> v) \<and>
     (\<forall>v. extract_signal_confidence sig = Some v \<longrightarrow> rp_min_confidence rp \<le> v) \<and>
     py_truthy (get_field sig' ''replace_position'' DNone) \<and> (\<forall>k. take 8 k \<noteq> ''replace_'' \<longrightarrow> get_field sig' k dflt = get_field sig k dflt)"
proof -
  obtain m old rest where c: "is_dict sig" "pc_allow_position_replacement c" "py_truthy (get_field (sc_data x) ''positions'' DNone)"
      "max_positions_per_symbol c x = Inr m" "same_symbol_positions x = Inr (old # rest)" "m \<le> of_nat (length (old # rest))"
      "mark_replacement rp now sig x old = Some sig'"
    using assms by (auto simp: maybe_allow_replacement_def not_less split: if_splits sum.splits list.splits)
  then have "position_limit_reached c x = Inr True" by (simp add: position_limit_reached_def)
  moreover note mark_deserved [OF c(7)] mark_kept [OF c(1,7)]
  ultimately show ?thesis using c(2,5) by auto
qed

section \<open>Examples\<close>

text \<open>A long entry in SOL beside a long position in ETH, whose correlation is 0.8, and one that replaces a short position.\<close>

definition entry_signal :: py_data where
  "entry_signal = DDict [(''symbol'', DStr ''SOLUSDT''), (''side'', DStr ''buy''), (''edge_bps'', DNum 12)]"

definition entry_context :: "py_data list \<Rightarrow> stage_context" where
  "entry_context ps = \<lparr>sc_symbol = ''SOLUSDT'', sc_data = DDict [(''positions'', DList ps)], sc_rejection_reason = None,
     sc_rejection_stage = None, sc_rejection_detail = None, sc_profile_id = None, sc_signal = entry_signal\<rparr>"

definition eth_long :: py_data where
  "eth_long = DObj [(''symbol'', DStr ''ETHUSDT''), (''size'', DNum 1), (''side'', DStr ''long'')]"

definition sol_short :: py_data where
  "sol_short = DObj [(''symbol'', DStr ''SOL/USDT:USDT''), (''size'', DNum 1), (''side'', DStr ''SHORT''), (''opened_at'', DNum 0)]"

text \<open>The same entry beside no position, with a \<open>TradingSignal\<close> on cooldown attached.\<close>

definition attached_entry :: stage_context where
  "attached_entry = \<lparr>sc_symbol = ''SOLUSDT'', sc_data = DDict [(''account'', DDict [(''equity'', DNum 1000)])], sc_rejection_reason = None,
     sc_rejection_stage = None, sc_rejection_detail = None, sc_profile_id = None,
     sc_signal = dict_set entry_signal ''trading_signal'' (DObj [(''symbol'', DStr ''SOLUSDT'')])\<rparr>"

definition cooling_signal :: trading_signal where
  "cooling_signal = \<lparr>ts_symbol = ''SOLUSDT'', ts_signal_type = SigLong, ts_confidence = 1, ts_entry_price = 100, ts_stop_loss = 99,
     ts_take_profit = 102, ts_current_price = 100, ts_risk_bps = 100, ts_reward_bps = 200, ts_risk_reward_ratio = 2, ts_confirmation_count = 1,
     ts_is_invalidated = False, ts_is_on_cooldown = True, ts_profile_id = [], ts_strategy_id = []\<rparr>"

lemma attached_entry_attached: "attached_signal (\<lambda>_. TradingSig cooling_signal) (sc_signal attached_entry) = Some cooling_signal"
  by code_simp

lemma cooling_signal_refused:
  "\<not> snd (risk_allow sample_adapter (DictSig (sc_signal attached_entry) (Some cooling_signal)) (risk_context attached_entry))"
  by code_simp

theorem risk_check_decides_witness:
  "(\<exists>rs' y. risk_stage_run demo_pipeline_config default_replace_config (\<lambda>_. TradingSig cooling_signal) 0
     \<lparr>rs_adapter = sample_adapter, rs_guard = Some (correlation_guard_init None None)\<rparr> (entry_context [eth_long]) = (rs', Inr (y, REJECT))) \<and>
   (\<exists>rs' y. risk_stage_run demo_pipeline_config default_replace_config (\<lambda>_. TradingSig cooling_signal) 0
     \<lparr>rs_adapter = sample_adapter, rs_guard = Some (correlation_guard_init None None)\<rparr> attached_entry = (rs', Inr (y, REJECT)))"
proof -
  let ?g = "correlation_guard_init None None"
  let ?rs = "\<lparr>rs_adapter = sample_adapter, rs_guard = Some ?g\<rparr>"
  have e: "plain_entry (sc_signal (entry_context [eth_long]))" "guard_side (sc_signal (entry_context [eth_long])) = Inr (Some ''long'')"
    "positions_to_held (entry_context [eth_long]) = Inr (held [(''ETHUSDT'', 1)])"
    "position_limit_reached demo_pipeline_config (entry_context [eth_long]) = Inr False"
    "\<not> pc_allow_position_replacement demo_pipeline_config" "guard_conflict ?g ''SOLUSDT'' ''long'' [(''ETHUSDT'', 1)] = Some (''ETHUSDT'', 1)"
    by code_simp+
  have c: "plain_entry (sc_signal attached_entry)" "guard_side (sc_signal attached_entry) = Inr (Some ''long'')"
    "positions_to_held attached_entry = Inr (held [])" "position_limit_reached demo_pipeline_config attached_entry = Inr False"
    by code_simp+
  have g: "rs_guard ?rs = Some ?g" "rs_adapter ?rs = sample_adapter" "sc_symbol (entry_context [eth_long]) = ''SOLUSDT''"
    by (simp_all add: entry_context_def)
  from risk_check_decides [OF e(1,5) g(1) e(2,3,4), of default_replace_config "\<lambda>_. TradingSig cooling_signal" 0] e(6) g
    risk_check_decides [OF c(1) e(5) g(1) c(2,3,4), of default_replace_config "\<lambda>_. TradingSig cooling_signal" 0]
    attached_entry_attached cooling_signal_refused
  show ?thesis by simp
qed

theorem replacement_is_deserved_witness:
  "position_limit_reached (demo_pipeline_config\<lparr>pc_allow_position_replacement := True\<rparr>) (entry_context [sol_short]) = Inr True"
proof -
  let ?c = "demo_pipeline_config\<lparr>pc_allow_position_replacement := True\<rparr>"
  have "maybe_allow_replacement ?c default_replace_config 100 entry_signal (entry_context [sol_short]) =
      Inr (Some (DDict [(''symbol'', DStr ''SOLUSDT''), (''side'', DStr ''buy''), (''edge_bps'', DNum 12), (''replace_position'', DBool True),
        (''replace_reason'', DStr ''replace_opposite_side''), (''replace_existing_side'', DStr ''short''), (''replace_existing_size'', DNum 1),
        (''replace_expected_edge_bps'', DNum 12)]))" "\<not> py_truthy (get_field entry_signal ''replace_position'' DNone)"
    by code_simp+
  from replacement_is_deserved [OF this] show ?thesis by blast
qed

end
