(* ===== verification/Throttle.thy ===== *)
theory Throttle
  imports Py_Float Py_Strings
begin

text \<open>
  Throttle modes (quantgambit/config/trading_mode.py): presets for cooldowns and exits, a global mode with overrides per
  symbol, and its storage.  What is written to Redis is an output and what is read an argument, as the parsed
  JSON value; the time stamp in it, the events and the Redis key are left out.
\<close>

section \<open>Modes and presets\<close>

datatype throttle_mode = SCALPING | SPOT | SWING | CONSERVATIVE

fun mode_value :: "throttle_mode \<Rightarrow> string" where
  "mode_value SCALPING = ''scalping''"
| "mode_value SPOT = ''spot''"
| "mode_value SWING = ''swing''"
| "mode_value CONSERVATIVE = ''conservative''"

text \<open>\<open>TradingMode(text)\<close>, which raises for other texts.\<close>

definition mode_of_value :: "string \<Rightarrow> py_error + throttle_mode" where
  "mode_of_value s = (if s = ''scalping'' then Inr SCALPING else if s = ''spot'' then Inr SPOT else if s = ''swing'' then Inr SWING
     else if s = ''conservative'' then Inr CONSERVATIVE else Inl (OtherError ''ValueError''))"

record throttle_config =
  tc_mode :: throttle_mode
  tc_min_order_interval_sec :: pyfloat
  tc_entry_cooldown_sec :: pyfloat
  tc_exit_cooldown_sec :: pyfloat
  tc_same_direction_hysteresis_sec :: pyfloat
  tc_max_entries_per_hour :: int
  tc_min_hold_time_sec :: pyfloat
  tc_min_confirmations_for_exit :: int
  tc_min_profit_buffer_bps :: pyfloat
  tc_fee_check_grace_period_sec :: pyfloat
  tc_urgency_bypass_threshold :: pyfloat
  tc_confirmation_bypass_count :: int
  tc_deterioration_force_exit_count :: int

fun get_preset :: "throttle_mode \<Rightarrow> throttle_config" where
  "get_preset SCALPING = \<lparr>tc_mode = SCALPING, tc_min_order_interval_sec = 15, tc_entry_cooldown_sec = 15, tc_exit_cooldown_sec = 10,
     tc_same_direction_hysteresis_sec = 30, tc_max_entries_per_hour = 50, tc_min_hold_time_sec = 10, tc_min_confirmations_for_exit = 1,
     tc_min_profit_buffer_bps = 3, tc_fee_check_grace_period_sec = 15, tc_urgency_bypass_threshold = fl (8 / 10),
     tc_confirmation_bypass_count = 3, tc_deterioration_force_exit_count = 3\<rparr>"
| "get_preset SPOT = \<lparr>tc_mode = SPOT, tc_min_order_interval_sec = 15, tc_entry_cooldown_sec = 45, tc_exit_cooldown_sec = 10,
     tc_same_direction_hysteresis_sec = 90, tc_max_entries_per_hour = 24, tc_min_hold_time_sec = 60, tc_min_confirmations_for_exit = 1,
     tc_min_profit_buffer_bps = 4, tc_fee_check_grace_period_sec = 20, tc_urgency_bypass_threshold = fl (8 / 10),
     tc_confirmation_bypass_count = 3, tc_deterioration_force_exit_count = 4\<rparr>"
| "get_preset SWING = \<lparr>tc_mode = SWING, tc_min_order_interval_sec = 60, tc_entry_cooldown_sec = 60, tc_exit_cooldown_sec = 30,
     tc_same_direction_hysteresis_sec = 120, tc_max_entries_per_hour = 10, tc_min_hold_time_sec = 30, tc_min_confirmations_for_exit = 2,
     tc_min_profit_buffer_bps = 5, tc_fee_check_grace_period_sec = 30, tc_urgency_bypass_threshold = fl (8 / 10),
     tc_confirmation_bypass_count = 3, tc_deterioration_force_exit_count = 5\<rparr>"
| "get_preset CONSERVATIVE = \<lparr>tc_mode = CONSERVATIVE, tc_min_order_interval_sec = 120, tc_entry_cooldown_sec = 120, tc_exit_cooldown_sec = 60,
     tc_same_direction_hysteresis_sec = 300, tc_max_entries_per_hour = 6, tc_min_hold_time_sec = 60, tc_min_confirmations_for_exit = 2,
     tc_min_profit_buffer_bps = 10, tc_fee_check_grace_period_sec = 60, tc_urgency_bypass_threshold = fl (9 / 10),
     tc_confirmation_bypass_count = 4, tc_deterioration_force_exit_count = 7\<rparr>"

definition validate_throttle_config :: "throttle_config \<Rightarrow> bool" where
  "validate_throttle_config c =
     (if tc_min_order_interval_sec c \<le> 0 then False
      else if tc_max_entries_per_hour c \<le> 0 then False
      else if \<not> (0 < tc_urgency_bypass_threshold c \<and> tc_urgency_bypass_threshold c \<le> 1) then False
      else if tc_deterioration_force_exit_count c < 1 then False
      else if tc_min_hold_time_sec c < 0 then False
      else \<not> tc_min_confirmations_for_exit c < 1)"

section \<open>The manager\<close>

text \<open>The configuration cache holds the presets and is never changed.\<close>

record throttle_manager =
  tm_redis :: bool
  tm_default_mode :: throttle_mode
  tm_symbol_overrides :: "(string, throttle_mode) dict"
  tm_loaded :: bool

definition throttle_manager_init :: "bool \<Rightarrow> throttle_mode \<Rightarrow> throttle_manager" where
  "throttle_manager_init redis m = \<lparr>tm_redis = redis, tm_default_mode = m, tm_symbol_overrides = [], tm_loaded = False\<rparr>"

definition throttle_get_mode :: "throttle_manager \<Rightarrow> string option \<Rightarrow> throttle_mode" where
  "throttle_get_mode t symbol = (case symbol of
       Some s \<Rightarrow> if s \<noteq> [] then d_get_or (tm_symbol_overrides t) s (tm_default_mode t) else tm_default_mode t
     | None \<Rightarrow> tm_default_mode t)"

definition throttle_get_config :: "throttle_manager \<Rightarrow> string option \<Rightarrow> throttle_config" where
  "throttle_get_config t symbol = get_preset (throttle_get_mode t symbol)"

record throttle_payload =
  tp_default_mode :: "string option"
  tp_symbol_overrides :: "(string, string) dict"

definition persist_payload :: "throttle_manager \<Rightarrow> throttle_payload list" where
  "persist_payload t = (if \<not> tm_redis t then []
     else [\<lparr>tp_default_mode = Some (mode_value (tm_default_mode t)),
            tp_symbol_overrides = map (\<lambda>(s, m). (s, mode_value m)) (tm_symbol_overrides t)\<rparr>])"

definition throttle_set_mode :: "throttle_manager \<Rightarrow> throttle_mode \<Rightarrow> string option \<Rightarrow> bool \<Rightarrow> throttle_manager \<times> throttle_payload list" where
  "throttle_set_mode t m symbol persist =
     (let t' = (if s_truthy symbol then t\<lparr>tm_symbol_overrides := d_put (tm_symbol_overrides t) (the symbol) m\<rparr> else t\<lparr>tm_default_mode := m\<rparr>)
      in (t', if persist then persist_payload t' else []))"

definition clear_symbol_override :: "throttle_manager \<Rightarrow> string \<Rightarrow> bool \<Rightarrow> throttle_manager \<times> throttle_payload list" where
  "clear_symbol_override t symbol persist =
     (if d_has (tm_symbol_overrides t) symbol
      then (let t' = t\<lparr>tm_symbol_overrides := d_pop (tm_symbol_overrides t) symbol\<rparr> in (t', if persist then persist_payload t' else []))
      else (t, []))"

text \<open>Nothing stored, or Redis or the JSON parser raised: \<open>None\<close>.  An unknown mode raises and is caught, with what was assigned before it.\<close>

definition throttle_load :: "throttle_manager \<Rightarrow> throttle_payload option \<Rightarrow> throttle_manager" where
  "throttle_load t stored =
     (if \<not> tm_redis t then t\<lparr>tm_loaded := True\<rparr>
      else case stored of
        None \<Rightarrow> t\<lparr>tm_loaded := True\<rparr>
      | Some p \<Rightarrow> (case mode_of_value (case tp_default_mode p of Some s \<Rightarrow> s | None \<Rightarrow> ''swing'') of
          Inl e \<Rightarrow> t\<lparr>tm_loaded := True\<rparr>
        | Inr m \<Rightarrow> (let t1 = t\<lparr>tm_default_mode := m, tm_loaded := True\<rparr>
            in case try_map (\<lambda>(s, v). case mode_of_value v of Inl e \<Rightarrow> Inl e | Inr m \<Rightarrow> Inr (s, m)) (tp_symbol_overrides p) of
                 Inl e \<Rightarrow> t1
               | Inr ms \<Rightarrow> t1\<lparr>tm_symbol_overrides := ms\<rparr>)))"

text \<open>The default mode from the environment's \<open>MARKET_TYPE\<close> and \<open>THROTTLE_MODE\<close>.\<close>

definition throttle_manager_from_env :: "bool \<Rightarrow> string \<Rightarrow> string option \<Rightarrow> throttle_manager" where
  "throttle_manager_from_env redis market_type throttle_mode =
     (let dflt = (if py_lower (strip market_type) = ''spot'' then SPOT else SWING)
      in throttle_manager_init redis (case mode_of_value (py_lower (case throttle_mode of Some s \<Rightarrow> s | None \<Rightarrow> mode_value dflt)) of
           Inl e \<Rightarrow> dflt | Inr m \<Rightarrow> m))"

section \<open>Library\<close>

lemma mode_of_value_inverse [simp]: "mode_of_value (mode_value m) = Inr m"
  by (cases m) (simp_all add: mode_of_value_def)

lemma preset_mode [simp]: "tc_mode (get_preset m) = m"
  by (cases m) simp_all

lemma load_values:
  "try_map (\<lambda>(s, v). case mode_of_value v of Inl e \<Rightarrow> Inl e | Inr m \<Rightarrow> Inr (s, m)) (map (\<lambda>(s, m). (s, mode_value m)) ms) = Inr ms"
  by (induction ms) auto

section \<open>Properties\<close>

text \<open>Every preset is valid in the sense of the validator and carries its own mode.\<close>

theorem presets_valid:
  "validate_throttle_config (get_preset m) \<and> tc_mode (get_preset m) = m"
proof -
  have "fl (8 / 10) \<le> fl 1" "fl (9 / 10) \<le> fl 1" by (rule fl_mono, simp)+
  then show ?thesis by (cases m) (simp_all add: validate_throttle_config_def)
qed

text \<open>What a manager stores, another one loads: after a change of mode that is persisted, loading the written value restores the
  default mode and all overrides, whatever the loading manager was before.\<close>

theorem stored_modes_load:
  assumes "tm_redis t" and "throttle_set_mode t m symbol True = (t', [p])" and "tm_redis fresh"
  shows "throttle_load fresh (Some p) = t'\<lparr>tm_loaded := True\<rparr>"
proof -
  have p: "p = \<lparr>tp_default_mode = Some (mode_value (tm_default_mode t')), tp_symbol_overrides = map (\<lambda>(s, m). (s, mode_value m)) (tm_symbol_overrides t')\<rparr>"
    and "tm_redis t'" using assms by (auto simp: throttle_set_mode_def persist_payload_def Let_def split: if_splits)
  with assms(3) show ?thesis by (simp add: throttle_load_def load_values)
qed

theorem stored_modes_load_witness:
  "throttle_get_mode (throttle_load (throttle_manager_init True SPOT)
     (Some \<lparr>tp_default_mode = Some ''swing'', tp_symbol_overrides = [(''BTCUSDT'', ''scalping'')]\<rparr>)) (Some ''BTCUSDT'') = SCALPING"
proof -
  let ?t = "throttle_manager_init True SWING"
  have "throttle_set_mode ?t SCALPING (Some ''BTCUSDT'') True =
      (?t\<lparr>tm_symbol_overrides := [(''BTCUSDT'', SCALPING)]\<rparr>, [\<lparr>tp_default_mode = Some ''swing'', tp_symbol_overrides = [(''BTCUSDT'', ''scalping'')]\<rparr>])"
    by code_simp
  from stored_modes_load [OF _ this, of "throttle_manager_init True SPOT"] show ?thesis
    by (simp add: throttle_manager_init_def throttle_get_mode_def d_get_or_def)
qed

text \<open>A stored value with one unknown override is half applied: the default mode is taken over, the overrides are not.\<close>

lemma unknown_override_half_loads:
  assumes "tm_redis t" "tp_default_mode p = Some (mode_value m)" "(s, v) \<in> set (tp_symbol_overrides p)" "\<And>m. v \<noteq> mode_value m"
  shows "throttle_load t (Some p) = t\<lparr>tm_default_mode := m, tm_loaded := True\<rparr>"
proof -
  have "\<exists>e. mode_of_value v = Inl e" using assms(4) [of SCALPING] assms(4) [of SPOT] assms(4) [of SWING] assms(4) [of CONSERVATIVE]
    by (simp add: mode_of_value_def)
  then have "\<exists>e. try_map (\<lambda>(s, v). case mode_of_value v of Inl e \<Rightarrow> Inl e | Inr m \<Rightarrow> Inr (s, m)) (tp_symbol_overrides p) = Inl e"
    by (elim exE, intro try_map_fails [OF assms(3)]) simp
  with assms(1,2) show ?thesis by (auto simp: throttle_load_def Let_def)
qed

end
