(* ===== verification/Cooldown.thy ===== *)
theory Cooldown
  imports Risk_Stage Throttle
begin

text \<open>
  The cooldown stage of the signal pipeline (quantgambit/signals/stages/cooldown.py): the manager's record of entries and
  exits, the four checks on a candidate, and the stage.  A reason is a constructor with the remaining time; \<open>show\<close>
  formats it, and \<open>text_of\<close> is \<open>str\<close> of a value that is not a text.  The clock readings of a run are the fields of a record,
  named by what they are read for.  Metrics, gate decisions and telemetry are left out.
\<close>

section \<open>State\<close>

record cooldown_config =
  cd_default_entry_cooldown_sec :: pyfloat
  cd_exit_cooldown_sec :: pyfloat
  cd_stop_out_cooldown_sec :: pyfloat
  cd_strategy_cooldowns :: "(string, pyfloat) dict"
  cd_same_direction_hysteresis_sec :: pyfloat
  cd_max_entries_per_hour :: int

definition default_cooldown_config :: cooldown_config where
  "default_cooldown_config = \<lparr>cd_default_entry_cooldown_sec = 60, cd_exit_cooldown_sec = 30, cd_stop_out_cooldown_sec = 60,
     cd_strategy_cooldowns = [], cd_same_direction_hysteresis_sec = 120, cd_max_entries_per_hour = 10\<rparr>"

record cooldown_manager =
  cm_last_entry :: "(string \<times> string, pyfloat) dict"
  cm_last_exit :: "(string, pyfloat) dict"
  cm_last_direction :: "(string, string) dict"
  cm_hourly_entries :: "(string, pyfloat list) dict"
  cm_last_trade_pnl :: "(string, py_data) dict"
  cm_last_exit_reason :: "(string, string) dict"

definition cooldown_manager_init :: cooldown_manager where
  "cooldown_manager_init = \<lparr>cm_last_entry = [], cm_last_exit = [], cm_last_direction = [], cm_hourly_entries = [],
     cm_last_trade_pnl = [], cm_last_exit_reason = []\<rparr>"

section \<open>The manager\<close>

definition record_entry :: "cooldown_manager \<Rightarrow> string \<Rightarrow> string \<Rightarrow> string \<Rightarrow> pyfloat \<Rightarrow> cooldown_manager" where
  "record_entry m symbol strategy side now = m\<lparr>
     cm_last_entry := d_put (cm_last_entry m) (symbol, strategy) now,
     cm_last_direction := d_put (cm_last_direction m) symbol side,
     cm_hourly_entries := d_put (cm_hourly_entries m) symbol
       (filter (\<lambda>t. fsub now 3600 < t) (d_get_or (cm_hourly_entries m) symbol [] @ [now]))\<rparr>"

definition record_exit :: "(py_data \<Rightarrow> string) \<Rightarrow> cooldown_manager \<Rightarrow> string \<Rightarrow> py_data \<Rightarrow> py_data \<Rightarrow> pyfloat \<Rightarrow> cooldown_manager" where
  "record_exit text_of m symbol pnl_pct exit_reason now =
     (let m1 = m\<lparr>cm_last_exit := d_put (cm_last_exit m) symbol now\<rparr>;
          m2 = (if pnl_pct = DNone then m1 else m1\<lparr>cm_last_trade_pnl := d_put (cm_last_trade_pnl m1) symbol pnl_pct\<rparr>)
      in if py_truthy exit_reason
         then m2\<lparr>cm_last_exit_reason := d_put (cm_last_exit_reason m2) symbol
                (py_lower (case exit_reason of DStr s \<Rightarrow> s | _ \<Rightarrow> text_of exit_reason))\<rparr>
         else m2)"

definition was_last_trade_profitable :: "cooldown_manager \<Rightarrow> string \<Rightarrow> py_error + bool" where
  "was_last_trade_profitable m symbol = (case py_num (d_get_or (cm_last_trade_pnl m) symbol (DNum 0)) of Inl e \<Rightarrow> Inl e | Inr x \<Rightarrow> Inr (0 < x))"

definition get_time_since_entry :: "cooldown_manager \<Rightarrow> string \<Rightarrow> string \<Rightarrow> pyfloat \<Rightarrow> pyfloat option" where
  "get_time_since_entry m symbol strategy now = map_option (fsub now) (d_get (cm_last_entry m) (symbol, strategy))"

definition get_time_since_exit :: "cooldown_manager \<Rightarrow> string \<Rightarrow> pyfloat \<Rightarrow> pyfloat option" where
  "get_time_since_exit m symbol now = map_option (fsub now) (d_get (cm_last_exit m) symbol)"

definition was_last_exit_stop_out :: "cooldown_manager \<Rightarrow> string \<Rightarrow> bool" where
  "was_last_exit_stop_out m symbol = (let reason = d_get_or (cm_last_exit_reason m) symbol []
     in list_ex (\<lambda>token. py_contains token reason) [''stop'', ''invalidation'', ''safety''])"

definition get_last_direction :: "cooldown_manager \<Rightarrow> string \<Rightarrow> string option" where
  "get_last_direction m symbol = d_get (cm_last_direction m) symbol"

definition get_hourly_entry_count :: "cooldown_manager \<Rightarrow> string \<Rightarrow> pyfloat \<Rightarrow> cooldown_manager \<times> nat" where
  "get_hourly_entry_count m symbol now = (case d_get (cm_hourly_entries m) symbol of
       None \<Rightarrow> (m, 0)
     | Some ts \<Rightarrow> (let ts' = filter (\<lambda>t. fsub now 3600 < t) ts
         in (m\<lparr>cm_hourly_entries := d_put (cm_hourly_entries m) symbol ts'\<rparr>, length ts')))"

section \<open>The stage\<close>

datatype cooldown_reason =
    EntryCooldown pyfloat
  | ExitCooldown pyfloat
  | SameDirectionHysteresis pyfloat
  | HourlyLimitReached nat int

record cooldown_clock =
  ck_entry :: pyfloat
  ck_exit :: pyfloat
  ck_hour :: pyfloat
  ck_record :: pyfloat

text \<open>Entry cooldown, exit cooldown, hysteresis and entries per hour.\<close>

definition cooldown_limits :: "cooldown_config \<Rightarrow> throttle_config option \<Rightarrow> string \<Rightarrow> pyfloat \<times> pyfloat \<times> pyfloat \<times> int" where
  "cooldown_limits c mode strategy = (case mode of
       Some t \<Rightarrow> (tc_entry_cooldown_sec t, tc_exit_cooldown_sec t, tc_same_direction_hysteresis_sec t, tc_max_entries_per_hour t)
     | None \<Rightarrow> (d_get_or (cd_strategy_cooldowns c) strategy (cd_default_entry_cooldown_sec c), cd_exit_cooldown_sec c,
         cd_same_direction_hysteresis_sec c, cd_max_entries_per_hour c))"

definition effective_exit_cooldown :: "cooldown_config \<Rightarrow> cooldown_manager \<Rightarrow> string \<Rightarrow> pyfloat \<Rightarrow> pyfloat" where
  "effective_exit_cooldown c m symbol exit_cd = (if was_last_exit_stop_out m symbol then max exit_cd (cd_stop_out_cooldown_sec c) else exit_cd)"

definition same_direction_check :: "cooldown_manager \<Rightarrow> string \<Rightarrow> string \<Rightarrow> pyfloat option \<Rightarrow> pyfloat \<Rightarrow> py_error + cooldown_reason list" where
  "same_direction_check m symbol side since hysteresis = (case since of
       Some t \<Rightarrow> if get_last_direction m symbol = Some side
         then (case was_last_trade_profitable m symbol of
             Inl e \<Rightarrow> Inl e
           | Inr p \<Rightarrow> (let h = (if p then fmul hysteresis (1 / 2) else hysteresis)
               in Inr (if t < h then [SameDirectionHysteresis (fsub h t)] else [])))
         else Inr []
     | None \<Rightarrow> Inr [])"

definition cooldown_checks ::
  "cooldown_config \<Rightarrow> throttle_config option \<Rightarrow> cooldown_manager \<Rightarrow> string \<Rightarrow> string \<Rightarrow> string \<Rightarrow> cooldown_clock \<Rightarrow>
     cooldown_manager \<times> (py_error + cooldown_reason list)" where
  "cooldown_checks c mode m symbol strategy side ck =
     (let (entry_cd, exit_cd, hysteresis, per_hour) = cooldown_limits c mode strategy;
          since = get_time_since_entry m symbol strategy (ck_entry ck);
          r1 = (case since of Some t \<Rightarrow> if t < entry_cd then [EntryCooldown (fsub entry_cd t)] else [] | None \<Rightarrow> []);
          cd = effective_exit_cooldown c m symbol exit_cd;
          r2 = (case get_time_since_exit m symbol (ck_exit ck) of Some t \<Rightarrow> if t < cd then [ExitCooldown (fsub cd t)] else [] | None \<Rightarrow> [])
      in case same_direction_check m symbol side since hysteresis of
           Inl e \<Rightarrow> (m, Inl e)
         | Inr r3 \<Rightarrow>
           if 0 < per_hour
           then (let (m', n) = get_hourly_entry_count m symbol (ck_hour ck)
                 in (m', Inr (r1 @ r2 @ r3 @ (if per_hour \<le> int n then [HourlyLimitReached n per_hour] else []))))
           else (m, Inr (r1 @ r2 @ r3)))"

definition attr_text :: "py_data \<Rightarrow> string \<Rightarrow> py_error + string" where
  "attr_text x k = (case x of DObj d \<Rightarrow> (case d_get d k of Some (DStr s) \<Rightarrow> Inr s | _ \<Rightarrow> Inl (OtherError ''AttributeError''))
     | _ \<Rightarrow> Inl (OtherError ''AttributeError''))"

definition exit_reason_of :: "py_data \<Rightarrow> py_data" where
  "exit_reason_of sig = py_or (get_field sig ''meta_reason'' DNone) (py_or (get_field sig ''exit_reason'' DNone) (get_field sig ''exit_type'' DNone))"

definition cooldown_reject :: "(cooldown_reason \<Rightarrow> string) \<Rightarrow> stage_context \<Rightarrow> cooldown_reason list \<Rightarrow> stage_context" where
  "cooldown_reject show x rs = x\<lparr>sc_rejection_reason := Some (case rs of [] \<Rightarrow> ''cooldown_active'' | r # _ \<Rightarrow> show r),
     sc_rejection_stage := Some ''cooldown'', sc_rejection_detail := Some (StageDetail (DDict [(''reasons'', DList (map (DStr \<circ> show) rs))]))\<rparr>"

definition cooldown_run ::
  "(py_data \<Rightarrow> string) \<Rightarrow> (cooldown_reason \<Rightarrow> string) \<Rightarrow> cooldown_config \<Rightarrow> throttle_manager option \<Rightarrow> cooldown_clock \<Rightarrow>
     cooldown_manager \<Rightarrow> stage_context \<Rightarrow> cooldown_manager \<times> (py_error + stage_context \<times> stage_result)" where
  "cooldown_run text_of show c modes ck m x =
     (let sig = sc_signal x; cand = get_field (sc_data x) ''candidate'' DNone; symbol = sc_symbol x
      in if py_truthy sig \<and> is_exit_signal sig
         then (record_exit text_of m symbol (get_field sig ''pnl_pct'' DNone) (exit_reason_of sig) (ck_exit ck), Inr (x, CONTINUE))
         else if \<not> py_truthy cand then (m, Inr (x, CONTINUE))
         else case (attr_text cand ''strategy_id'', attr_text cand ''side'') of
             (Inr strategy, Inr side) \<Rightarrow>
               (case cooldown_checks c (map_option (\<lambda>t. throttle_get_config t (Some symbol)) modes) m symbol strategy side ck of
                  (m1, Inl e) \<Rightarrow> (m1, Inl e)
                | (m1, Inr rs) \<Rightarrow>
                    if rs \<noteq> [] then (m1, Inr (cooldown_reject show x rs, REJECT))
                    else (record_entry m1 symbol strategy side (ck_record ck), Inr (x, CONTINUE)))
           | (Inl e, _) \<Rightarrow> (m, Inl e)
           | (_, Inl e) \<Rightarrow> (m, Inl e))"

text \<open>As a stage, with the manager in front of the world of the other stages.\<close>

definition cooldown_stage ::
  "(py_data \<Rightarrow> string) \<Rightarrow> (cooldown_reason \<Rightarrow> string) \<Rightarrow> cooldown_config \<Rightarrow> throttle_manager option \<Rightarrow> cooldown_clock \<Rightarrow>
     (cooldown_manager \<times> 'w) pipe_stage" where
  "cooldown_stage text_of show c modes ck = \<lparr>pg_name = ''cooldown'', pg_run = (\<lambda>(m, w) x.
     let (m', r) = cooldown_run text_of show c modes ck m x in ((m', w), r))\<rparr>"

section \<open>Histories\<close>

text \<open>What the stage let through, newest first: exits, and entries with the readings of their run.\<close>

datatype cd_log = Exited string pyfloat | Entered string string string cooldown_clock

definition cd_logged :: "stage_context \<Rightarrow> cooldown_clock \<Rightarrow> cd_log list" where
  "cd_logged x ck = (let sig = sc_signal x; cand = get_field (sc_data x) ''candidate'' DNone
     in if py_truthy sig \<and> is_exit_signal sig then [Exited (sc_symbol x) (ck_exit ck)]
        else case (attr_text cand ''strategy_id'', attr_text cand ''side'') of
            (Inr strategy, Inr side) \<Rightarrow> [Entered (sc_symbol x) strategy side ck]
          | _ \<Rightarrow> [])"

definition cooldown_step ::
  "(py_data \<Rightarrow> string) \<Rightarrow> (cooldown_reason \<Rightarrow> string) \<Rightarrow> cooldown_config \<Rightarrow> throttle_manager option \<Rightarrow>
     cooldown_manager \<times> cd_log list \<Rightarrow> stage_context \<times> cooldown_clock \<Rightarrow> cooldown_manager \<times> cd_log list" where
  "cooldown_step text_of show c modes st e =
     (let (m', r) = cooldown_run text_of show c modes (snd e) (fst st) (fst e)
      in (m', (case r of Inr (y, CONTINUE) \<Rightarrow> cd_logged (fst e) (snd e) @ snd st | _ \<Rightarrow> snd st)))"

text \<open>Clocks that do not run backwards.\<close>

fun clocks_from :: "pyfloat \<Rightarrow> (stage_context \<times> cooldown_clock) list \<Rightarrow> bool" where
  "clocks_from t [] = True"
| "clocks_from t ((x, ck) # es) = (t \<le> ck_entry ck \<and> ck_entry ck \<le> ck_exit ck \<and> ck_exit ck \<le> ck_hour ck \<and> ck_hour ck \<le> ck_record ck \<and>
     clocks_from (ck_record ck) es)"

fun entry_times :: "string \<Rightarrow> cd_log list \<Rightarrow> pyfloat list" where
  "entry_times s [] = []"
| "entry_times s (Exited s' t # es) = entry_times s es"
| "entry_times s (Entered s' strategy side ck # es) = (if s' = s then ck_record ck # entry_times s es else entry_times s es)"

definition limits_of :: "cooldown_config \<Rightarrow> throttle_manager option \<Rightarrow> string \<Rightarrow> string \<Rightarrow> pyfloat \<times> pyfloat \<times> pyfloat \<times> int" where
  "limits_of c modes s strategy = cooldown_limits c (map_option (\<lambda>t. throttle_get_config t (Some s)) modes) strategy"

text \<open>What an entry owes to the entries and exits before it.\<close>

definition entry_spaced :: "cooldown_config \<Rightarrow> throttle_manager option \<Rightarrow> string \<Rightarrow> string \<Rightarrow> cooldown_clock \<Rightarrow> cd_log list \<Rightarrow> bool" where
  "entry_spaced c modes s strategy ck hist = (let (entry_cd, exit_cd, hysteresis, per_hour) = limits_of c modes s strategy in
     (\<forall>side ck'. Entered s strategy side ck' \<in> set hist \<longrightarrow> entry_cd \<le> fsub (ck_entry ck) (ck_record ck')) \<and>
     (\<forall>t. Exited s t \<in> set hist \<longrightarrow> exit_cd \<le> fsub (ck_exit ck) t) \<and>
     (0 < per_hour \<longrightarrow> int (length (filter (\<lambda>t. fsub (ck_record ck) 3600 < t) (ck_record ck # entry_times s hist))) \<le> per_hour))"

fun log_spaced :: "cooldown_config \<Rightarrow> throttle_manager option \<Rightarrow> cd_log list \<Rightarrow> bool" where
  "log_spaced c modes [] = True"
| "log_spaced c modes (Exited s t # hist) = log_spaced c modes hist"
| "log_spaced c modes (Entered s strategy side ck # hist) = (entry_spaced c modes s strategy ck hist \<and> log_spaced c modes hist)"

text \<open>The manager knows the history.\<close>

definition manager_knows :: "pyfloat \<Rightarrow> cooldown_manager \<Rightarrow> cd_log list \<Rightarrow> bool" where
  "manager_knows now m hist =
     ((\<forall>s strategy side ck. Entered s strategy side ck \<in> set hist \<longrightarrow>
         (\<exists>t. d_get (cm_last_entry m) (s, strategy) = Some t \<and> ck_record ck \<le> t \<and> t \<le> now)) \<and>
      (\<forall>s t. Exited s t \<in> set hist \<longrightarrow> (\<exists>u. d_get (cm_last_exit m) s = Some u \<and> t \<le> u \<and> u \<le> now)) \<and>
      (\<forall>s. \<exists>b \<le> fsub now 3600. d_get_or (cm_hourly_entries m) s [] = rev (filter (\<lambda>t. b < t) (entry_times s hist))))"

lemma knows_entryD:
  assumes "manager_knows now m hist" "Entered s strategy side ck \<in> set hist"
  obtains t where "d_get (cm_last_entry m) (s, strategy) = Some t" "ck_record ck \<le> t" "t \<le> now"
  using assms unfolding manager_knows_def by metis

lemma knows_exitD:
  assumes "manager_knows now m hist" "Exited s t \<in> set hist"
  obtains u where "d_get (cm_last_exit m) s = Some u" "t \<le> u" "u \<le> now"
  using assms unfolding manager_knows_def by metis

lemma manager_knows_later: "manager_knows t m hist \<Longrightarrow> t \<le> u \<Longrightarrow> manager_knows u m hist"
  unfolding manager_knows_def by (meson fsub_mono order_trans order_refl)

lemma knows_exit:
  assumes "manager_knows now m hist" "now \<le> t"
  shows "manager_knows t (record_exit text_of m s p r t) (Exited s t # hist)"
proof -
  have e: "cm_last_entry (record_exit text_of m s p r t) = cm_last_entry m" "cm_hourly_entries (record_exit text_of m s p r t) = cm_hourly_entries m"
    "cm_last_exit (record_exit text_of m s p r t) = d_put (cm_last_exit m) s t"
    by (simp_all add: record_exit_def Let_def)
  show ?thesis using manager_knows_later [OF assms] assms(2) unfolding manager_knows_def e by (auto 0 3)
qed

lemma filter_later: "b \<le> (b' :: pyfloat) \<Longrightarrow> filter (\<lambda>t. b' < t) (filter (\<lambda>t. b < t) xs) = filter (\<lambda>t. b' < t) xs"
  by (auto intro: filter_cong)

lemma knows_count:
  assumes "manager_knows now m hist" "now \<le> t" "get_hourly_entry_count m s t = (m', n)"
  shows "manager_knows t m' hist" and "n = length (filter (\<lambda>u. fsub t 3600 < u) (entry_times s hist))"
    and "cm_last_entry m' = cm_last_entry m" and "cm_last_exit m' = cm_last_exit m"
proof -
  obtain b where b: "b \<le> fsub now 3600" "d_get_or (cm_hourly_entries m) s [] = rev (filter (\<lambda>t. b < t) (entry_times s hist))"
    using assms(1) unfolding manager_knows_def by blast
  have bt: "b \<le> fsub t 3600" using b(1) fsub_mono [OF assms(2), of 3600 3600] by simp
  have f: "filter (\<lambda>u. fsub t 3600 < u) (d_get_or (cm_hourly_entries m) s []) = rev (filter (\<lambda>u. fsub t 3600 < u) (entry_times s hist))"
    unfolding b(2) using bt by (simp add: rev_filter [symmetric] filter_later del: filter_filter)
  show *: "cm_last_entry m' = cm_last_entry m" "cm_last_exit m' = cm_last_exit m"
    using assms(3) by (auto simp: get_hourly_entry_count_def Let_def split: option.splits)
  have h: "d_get_or (cm_hourly_entries m') s' [] =
      (if s' = s then rev (filter (\<lambda>u. fsub t 3600 < u) (entry_times s hist)) else d_get_or (cm_hourly_entries m) s' [])" for s'
    using assms(3) f by (auto simp: get_hourly_entry_count_def d_get_or_def Let_def split: option.splits)
  show "n = length (filter (\<lambda>u. fsub t 3600 < u) (entry_times s hist))"
    using assms(3) f by (auto simp: get_hourly_entry_count_def d_get_or_def Let_def split: option.splits)
  show "manager_knows t m' hist"
    using manager_knows_later [OF assms(1,2)] unfolding manager_knows_def * h by auto
qed

lemma knows_entry:
  assumes "manager_knows now m hist" "now \<le> ck_record ck"
  shows "manager_knows (ck_record ck) (record_entry m s strategy side (ck_record ck)) (Entered s strategy side ck # hist)"
proof -
  let ?t = "ck_record ck" and ?m = "record_entry m s strategy side (ck_record ck)"
  note k = manager_knows_later [OF assms]
  obtain b where b: "b \<le> fsub ?t 3600" "d_get_or (cm_hourly_entries m) s [] = rev (filter (\<lambda>t. b < t) (entry_times s hist))"
    using k unfolding manager_knows_def by blast
  have "d_get_or (cm_hourly_entries ?m) s [] = rev (filter (\<lambda>t. fsub ?t 3600 < t) (?t # entry_times s hist))"
    using b(1) by (simp add: record_entry_def b(2) rev_filter [symmetric] filter_later del: filter_filter)
  moreover have "d_get_or (cm_hourly_entries ?m) s' [] = d_get_or (cm_hourly_entries m) s' []" if "s' \<noteq> s" for s'
    using that by (simp add: record_entry_def d_get_or_def)
  ultimately have "\<exists>b \<le> fsub ?t 3600. d_get_or (cm_hourly_entries ?m) s' [] = rev (filter (\<lambda>t. b < t) (entry_times s' (Entered s strategy side ck # hist)))" for s'
    using k by (cases "s' = s") (auto simp: manager_knows_def)
  moreover have "cm_last_entry ?m = d_put (cm_last_entry m) (s, strategy) ?t" "cm_last_exit ?m = cm_last_exit m"
    by (simp_all add: record_entry_def)
  moreover have "ck_record ck' \<le> ck_record ck" if "Entered s' strategy' side' ck' \<in> set hist" for s' strategy' side' ck'
    by (rule knows_entryD [OF k that]) simp
  ultimately show ?thesis using k unfolding manager_knows_def by (auto 0 3)
qed

lemma length_filter_imp: "(\<And>x. P x \<Longrightarrow> Q x) \<Longrightarrow> length (filter P xs) \<le> length (filter Q xs)"
  by (induction xs) (auto intro: le_SucI)

text \<open>What the checks establish when they find no reason.\<close>

lemma checks_passed:
  assumes "manager_knows now m hist" "now \<le> ck_entry ck" "ck_entry ck \<le> ck_exit ck" "ck_exit ck \<le> ck_hour ck" "ck_hour ck \<le> ck_record ck"
    and "cooldown_checks c (map_option (\<lambda>t. throttle_get_config t (Some s)) modes) m s strategy side ck = (m', r)"
  shows "manager_knows (ck_hour ck) m' hist" and "r = Inr [] \<Longrightarrow> entry_spaced c modes s strategy ck hist"
proof -
  obtain entry_cd exit_cd hy per where l: "limits_of c modes s strategy = (entry_cd, exit_cd, hy, per)"
    by (cases "limits_of c modes s strategy") auto
  note lim = l [unfolded limits_of_def]
  obtain m1 n where g: "get_hourly_entry_count m s (ck_hour ck) = (m1, n)" by force
  have now: "now \<le> ck_hour ck" using assms(2-4) by simp
  note cnt = knows_count [OF assms(1) now g]
  have m': "m' = m \<or> m' = m1" using assms(6) by (auto simp: cooldown_checks_def lim g Let_def split: sum.splits if_splits)
  then show "manager_knows (ck_hour ck) m' hist" using cnt(1) manager_knows_later [OF assms(1) now] by auto
  assume r: "r = Inr []"
  have e: "\<not> t < entry_cd" if "get_time_since_entry m s strategy (ck_entry ck) = Some t" for t
    using assms(6) r that by (auto simp: cooldown_checks_def lim Let_def split: sum.splits if_splits prod.splits)
  have x: "\<not> t < effective_exit_cooldown c m s exit_cd" if "get_time_since_exit m s (ck_exit ck) = Some t" for t
    using assms(6) r that by (auto simp: cooldown_checks_def lim Let_def split: sum.splits if_splits prod.splits)
  have h: "\<not> per \<le> int n" if "0 < per"
    using assms(6) r that by (auto simp: cooldown_checks_def lim g Let_def split: sum.splits if_splits)
  have "entry_cd \<le> fsub (ck_entry ck) (ck_record ck')" if hit: "Entered s strategy sd ck' \<in> set hist" for sd ck'
  proof -
    obtain t where t: "d_get (cm_last_entry m) (s, strategy) = Some t" "ck_record ck' \<le> t" by (rule knows_entryD [OF assms(1) hit])
    with e [of "fsub (ck_entry ck) t"] have "entry_cd \<le> fsub (ck_entry ck) t" by (simp add: get_time_since_entry_def)
    also have "\<dots> \<le> fsub (ck_entry ck) (ck_record ck')" using t(2) by (intro fsub_mono) simp_all
    finally show ?thesis .
  qed
  moreover have "exit_cd \<le> fsub (ck_exit ck) t" if hit: "Exited s t \<in> set hist" for t
  proof -
    obtain u where u: "d_get (cm_last_exit m) s = Some u" "t \<le> u" by (rule knows_exitD [OF assms(1) hit])
    have "exit_cd \<le> effective_exit_cooldown c m s exit_cd" by (simp add: effective_exit_cooldown_def)
    also have "\<dots> \<le> fsub (ck_exit ck) u" using x [of "fsub (ck_exit ck) u"] u(1) by (simp add: get_time_since_exit_def)
    also have "\<dots> \<le> fsub (ck_exit ck) t" using u(2) by (intro fsub_mono) simp_all
    finally show ?thesis .
  qed
  moreover have "int (length (filter (\<lambda>t. fsub (ck_record ck) 3600 < t) (ck_record ck # entry_times s hist))) \<le> per" if "0 < per"
  proof -
    have "fsub (ck_hour ck) 3600 \<le> fsub (ck_record ck) 3600" using assms(5) by (intro fsub_mono) simp_all
    then have "length (filter (\<lambda>t. fsub (ck_record ck) 3600 < t) (entry_times s hist)) \<le> n"
      unfolding cnt(2) by (intro length_filter_imp) auto
    with h [OF that] show ?thesis by (auto intro: order_trans)
  qed
  ultimately show "entry_spaced c modes s strategy ck hist" by (simp add: entry_spaced_def l)
qed

lemma cooldown_step_keeps:
  assumes "manager_knows now (fst st) (snd st)" "log_spaced c modes (snd st)" "clocks_from now [e]"
  shows "manager_knows (ck_record (snd e)) (fst (cooldown_step text_of show c modes st e)) (snd (cooldown_step text_of show c modes st e)) \<and>
     log_spaced c modes (snd (cooldown_step text_of show c modes st e))"
proof -
  obtain m hist x ck where st: "st = (m, hist)" "e = (x, ck)" by (cases st, cases e) auto
  have ck: "now \<le> ck_entry ck" "ck_entry ck \<le> ck_exit ck" "ck_exit ck \<le> ck_hour ck" "ck_hour ck \<le> ck_record ck" using assms(3) st by simp_all
  have now: "now \<le> ck_exit ck" "now \<le> ck_record ck" using ck by simp_all
  note k = assms(1) [unfolded st fst_conv snd_conv] and sp = assms(2) [unfolded st snd_conv]
  note k' = manager_knows_later [OF k now(2)]
  let ?cand = "get_field (sc_data x) ''candidate'' DNone"
  consider (exit) "py_truthy (sc_signal x)" "is_exit_signal (sc_signal x)"
    | (idle) "\<not> (py_truthy (sc_signal x) \<and> is_exit_signal (sc_signal x))" "\<not> py_truthy ?cand \<or> (\<exists>e. attr_text ?cand ''strategy_id'' = Inl e) \<or> (\<exists>e. attr_text ?cand ''side'' = Inl e)"
    | (cand) strategy side where "\<not> (py_truthy (sc_signal x) \<and> is_exit_signal (sc_signal x))" "py_truthy ?cand"
        "attr_text ?cand ''strategy_id'' = Inr strategy" "attr_text ?cand ''side'' = Inr side"
    by (cases "attr_text ?cand ''strategy_id''"; cases "attr_text ?cand ''side''") blast+
  then show ?thesis
  proof cases
    case exit
    note knows_exit [OF k now(1), of text_of "sc_symbol x" "get_field (sc_signal x) ''pnl_pct'' DNone" "exit_reason_of (sc_signal x)"]
    then have "manager_knows (ck_record ck) (record_exit text_of m (sc_symbol x) (get_field (sc_signal x) ''pnl_pct'' DNone) (exit_reason_of (sc_signal x)) (ck_exit ck))
        (Exited (sc_symbol x) (ck_exit ck) # hist)" by (rule manager_knows_later) (use ck in simp)
    with exit sp show ?thesis by (simp add: st cooldown_step_def cooldown_run_def cd_logged_def Let_def)
  next
    case idle
    have "?cand = DNone \<or> \<not> (\<exists>d. ?cand = DObj d) \<or> py_truthy ?cand" by (cases ?cand) simp_all
    with idle have "cd_logged x ck = []" by (cases ?cand) (auto simp: cd_logged_def attr_text_def Let_def split: option.splits py_data.splits)
    with idle k' sp show ?thesis by (auto simp: st cooldown_step_def cooldown_run_def Let_def split: sum.splits)
  next
    case cand
    obtain m1 r where c: "cooldown_checks c (map_option (\<lambda>t. throttle_get_config t (Some (sc_symbol x))) modes) m (sc_symbol x) strategy side ck = (m1, r)"
      by force
    note chk = checks_passed [OF k ck c]
    show ?thesis
    proof (cases "r = Inr []")
      case True
      from cand(1) have n: "(py_truthy (sc_signal x) \<and> is_exit_signal (sc_signal x)) = False" by simp
      from chk True knows_entry [OF chk(1) ck(4), of "sc_symbol x" strategy side] sp show ?thesis
        by (simp add: st cooldown_step_def cooldown_run_def cd_logged_def Let_def n cand c)
    next
      case False
      with chk(1) sp ck(4) cand c show ?thesis
        by (auto simp: st cooldown_step_def cooldown_run_def Let_def intro: manager_knows_later split: sum.splits)
    qed
  qed
qed

lemma cooldown_run_keeps:
  "manager_knows now (fst st) (snd st) \<Longrightarrow> log_spaced c modes (snd st) \<Longrightarrow> clocks_from now es \<Longrightarrow>
     log_spaced c modes (snd (foldl (cooldown_step text_of show c modes) st es))"
proof (induction es arbitrary: now st)
  case (Cons e es)
  obtain x ck where e: "e = (x, ck)" by force
  have "clocks_from now [e]" "clocks_from (ck_record ck) es" using Cons.prems(3) by (simp_all add: e)
  with cooldown_step_keeps [OF Cons.prems(1,2), of e text_of "show"] Cons.IH [of "ck_record ck"] show ?case by (simp add: e)
qed simp

section \<open>The stage in its pipeline\<close>

text \<open>Nothing is proposed yet: no signal and no candidate.\<close>

definition nothing_proposed :: "stage_context \<Rightarrow> bool" where
  "nothing_proposed x = (\<not> py_truthy (sc_signal x) \<and> \<not> py_truthy (get_field (sc_data x) ''candidate'' DNone))"

text \<open>A stage that proposes no candidate, and no signal unless it asks to skip the rest.\<close>

definition proposes_nothing :: "'w pipe_stage \<Rightarrow> bool" where
  "proposes_nothing s = (\<forall>w x w' y r. pg_run s w x = (w', Inr (y, r)) \<longrightarrow> nothing_proposed x \<longrightarrow> r = CONTINUE \<longrightarrow> nothing_proposed y)"

lemma contract_proposal: "nothing_proposed (fst (validate_contract c post n x)) = nothing_proposed x"
  by (simp add: validate_contract_def nothing_proposed_def Let_def)

lemma run_stage_proposal:
  assumes "proposes_nothing s" "nothing_proposed x" "run_stage c s w x = (w', Inr (y, t, CONTINUE))"
  shows "nothing_proposed y"
proof -
  obtain x1 ok pre where v: "validate_contract c False (pg_name s) x = (x1, ok, pre)" by (metis prod_cases3)
  then have x1: "nothing_proposed x1" using assms(2) contract_proposal [of c False "pg_name s" x] by simp
  show ?thesis
  proof (cases "pg_run s w x1")
    case (Pair w1 q)
    with assms(3) v obtain x2 where q: "q = Inr (x2, CONTINUE)" "y = fst (validate_contract c True (pg_name s) x2)"
      by (auto simp: run_stage_def Let_def split: if_splits sum.splits prod.splits)
    then have "nothing_proposed x2" using assms(1) Pair x1 unfolding proposes_nothing_def by blast
    with q show ?thesis by (simp add: contract_proposal)
  qed
qed

lemma stage_names [simp]: "pg_name (cooldown_stage text_of show cd modes ck) = ''cooldown''" "pg_name (passing_stage n) = n"
  by (simp_all add: cooldown_stage_def passing_stage_def)

lemma passing_run [simp]: "pg_run (passing_stage n) w x = (w, Inr (x, CONTINUE))"
  by (simp add: passing_stage_def)

lemma cooldown_passes:
  assumes "nothing_proposed x"
  shows "run_stage c (cooldown_stage text_of show cd modes ck) w x = run_stage c (passing_stage ''cooldown'') w x"
proof -
  obtain x1 ok pre where v: "validate_contract c False ''cooldown'' x = (x1, ok, pre)" by (metis prod_cases3)
  then have "nothing_proposed x1" using assms contract_proposal [of c False "''cooldown''" x] by simp
  then have "pg_run (cooldown_stage text_of show cd modes ck) w x1 = (w, Inr (x1, CONTINUE))"
    by (cases w) (simp add: cooldown_stage_def cooldown_run_def nothing_proposed_def Let_def)
  then show ?thesis unfolding run_stage_def stage_names v by (simp add: Let_def)
qed

lemma cooldown_replaced:
  assumes "\<forall>s \<in> set pre. proposes_nothing s" "mode \<noteq> NoSkip \<or> nothing_proposed x"
  shows "run_stages c (pre @ cooldown_stage text_of show cd modes ck # post) w x mode prev = run_stages c (pre @ passing_stage ''cooldown'' # post) w x mode prev"
  using assms
proof (induction pre arbitrary: w x mode prev)
  case Nil
  have n: "''cooldown'' \<notin> set final_stages" by (simp add: final_stages_def)
  show ?case
  proof (cases "mode = NoSkip")
    case True
    with Nil have "nothing_proposed x" by simp
    from cooldown_passes [OF this, of c text_of "show" cd modes ck w] True show ?thesis unfolding append_Nil run_stages.simps stage_names by simp
  qed (simp add: n)
next
  case (Cons s pre)
  have pre: "\<forall>s \<in> set pre. proposes_nothing s" and s: "proposes_nothing s" using Cons.prems(1) by simp_all
  have go: "run_stages c (pre @ cooldown_stage text_of show cd modes ck # post) w1 x1 m CONTINUE =
      run_stages c (pre @ passing_stage ''cooldown'' # post) w1 x1 m CONTINUE"
    if run: "run_stage c s w x = (w1, Inr (x1, t, r))" "next_mode c (pg_name s) x1 r mode = Inr m" "r \<noteq> REJECT" "r \<noteq> COMPLETE" for w1 x1 t r m
  proof (rule Cons.IH [OF pre])
    show "m \<noteq> NoSkip \<or> nothing_proposed x1"
    proof (cases "mode = NoSkip \<and> r = CONTINUE")
      case True
      with Cons.prems(2) s run(1) show ?thesis using run_stage_proposal [of s x c w w1 x1 t] by simp
    next
      case False
      with run(3,4) have "mode \<noteq> NoSkip \<or> r = SKIP_TO_EXECUTION" by (cases r) auto
      then show ?thesis using next_mode_keeps [OF run(2)] next_mode_skip run(2) by blast
    qed
  qed
  show ?case
    using Cons.IH [OF pre Cons.prems(2)] go by (auto split: sum.splits prod.splits)
qed

section \<open>Properties\<close>

text \<open>C39: Entries that the cooldown stage lets through are spaced: on clocks that do not run backwards and under unchanging limits, two
  entries of a symbol by the same strategy are at least the entry cooldown apart, an entry comes at least the exit cooldown after
  every exit of its symbol, and where the limits name an hourly number, the symbol has at most so many entries in the hour up to
  any of them, itself included.\<close>

theorem accepted_entries_spaced:
  assumes "clocks_from now runs"
  shows "log_spaced c modes (snd (foldl (cooldown_step text_of show c modes) (cooldown_manager_init, []) runs))"
  using assms
  by (intro cooldown_run_keeps [of now]) (auto simp: manager_knows_def cooldown_manager_init_def d_get_or_def)

text \<open>In the decision engine's pipeline the cooldown stage has nothing to do: it stands before the stages that propose a candidate, and an
  exit signal skips it.  If no stage before it proposes a candidate, nor a signal without skipping the rest, every run is the run
  of the pipeline with a stage in its place that lets everything pass, so no cooldown is ever enforced or recorded.\<close>

theorem cooldown_never_acts:
  fixes ss :: "(cooldown_manager \<times> 'w) pipe_stage list"
  assumes "map pg_name ss = gating_stage_names confirm" and "ss ! 7 = cooldown_stage text_of show cd modes ck"
    and "\<forall>s \<in> set (take 7 ss). proposes_nothing s" and "nothing_proposed x"
  shows "pipeline_execute c ss w x = pipeline_execute c (ss[7 := passing_stage ''cooldown'']) w x"
proof -
  have len: "7 < length ss" using assms(1) by (auto simp: gating_stage_names_def dest!: arg_cong [where f = length])
  have ss: "ss = take 7 ss @ cooldown_stage text_of show cd modes ck # drop 8 ss" using assms(2) id_take_nth_drop [OF len] by simp
  have upd: "ss[7 := passing_stage ''cooldown''] = take 7 ss @ passing_stage ''cooldown'' # drop 8 ss"
    using upd_conv_take_nth_drop [OF len] by simp
  have "run_stages c ss w y NoSkip REJECT = run_stages c (ss[7 := passing_stage ''cooldown'']) w y NoSkip REJECT" if "nothing_proposed y" for y
    unfolding upd by (subst ss) (rule cooldown_replaced [OF assms(3)], simp add: that)
  moreover have "nothing_proposed (if b then x\<lparr>sc_profile_id := p\<rparr> else x)" for b p using assms(4) by (simp add: nothing_proposed_def)
  ultimately show ?thesis by (simp only: pipeline_execute_def Let_def)
qed

section \<open>Examples\<close>

text \<open>Two proposals for the same strategy a minute apart, and an exit between them.\<close>

definition proposal_context :: stage_context where
  "proposal_context = \<lparr>sc_symbol = ''BTCUSDT'', sc_data = DDict [(''candidate'', DObj [(''strategy_id'', DStr ''breakout''), (''side'', DStr ''long'')])],
     sc_rejection_reason = None, sc_rejection_stage = None, sc_rejection_detail = None, sc_profile_id = None, sc_signal = DNone\<rparr>"

definition at_time :: "pyfloat \<Rightarrow> cooldown_clock" where
  "at_time t = \<lparr>ck_entry = t, ck_exit = t, ck_hour = t, ck_record = t\<rparr>"

definition proposal_runs :: "(stage_context \<times> cooldown_clock) list" where
  "proposal_runs = [(proposal_context, at_time 0), (proposal_context, at_time 60), (proposal_context, at_time 130)]"

theorem accepted_entries_spaced_witness:
  "log_spaced default_cooldown_config None
     (snd (foldl (cooldown_step (\<lambda>_. []) (\<lambda>_. []) default_cooldown_config None) (cooldown_manager_init, []) proposal_runs))"
proof -
  have "clocks_from 0 proposal_runs" by (simp add: proposal_runs_def proposal_context_def at_time_def)
  then show ?thesis by (rule accepted_entries_spaced)
qed

text \<open>The second of them is refused, the third is not.\<close>

lemma proposals_accepted:
  "snd (foldl (cooldown_step (\<lambda>_. []) (\<lambda>_. []) default_cooldown_config None) (cooldown_manager_init, []) proposal_runs) =
     [Entered ''BTCUSDT'' ''breakout'' ''long'' (at_time 130), Entered ''BTCUSDT'' ''breakout'' ''long'' (at_time 0)]"
  by code_simp

definition cooling_stages :: "(cooldown_manager \<times> unit) pipe_stage list" where
  "cooling_stages = (map passing_stage (gating_stage_names False))
     [7 := cooldown_stage (\<lambda>_. []) (\<lambda>_. []) default_cooldown_config None (at_time 0)]"

theorem cooldown_never_acts_witness:
  "pipeline_execute demo_pipeline_config cooling_stages (cooldown_manager_init, ()) demo_context =
     pipeline_execute demo_pipeline_config (cooling_stages[7 := passing_stage ''cooldown'']) (cooldown_manager_init, ()) demo_context"
proof (rule cooldown_never_acts)
  show "map pg_name cooling_stages = gating_stage_names False"
    by (simp add: cooling_stages_def gating_stage_names_def passing_stage_def cooldown_stage_def)
  show "cooling_stages ! 7 = cooldown_stage (\<lambda>_. []) (\<lambda>_. []) default_cooldown_config None (at_time 0)"
    by (simp add: cooling_stages_def gating_stage_names_def)
  show "\<forall>s \<in> set (take 7 cooling_stages). proposes_nothing s"
    by (simp add: cooling_stages_def gating_stage_names_def passing_stage_def proposes_nothing_def)
  show "nothing_proposed demo_context" by code_simp
qed

end
