(* ===== verification/Fee_Model.thy ===== *)
theory Fee_Model
  imports Py_Float Py_Strings
begin

text \<open>
  Trading fees and breakeven thresholds (quantgambit/risk/fee_model.py): fees of an order, of a round trip, the price
  and the distance at which a position covers them, and the check that an exit pays.  \<open>round(x, n)\<close> rounds the
  exact value of the float to \<open>n\<close> decimals, ties to even, and returns the nearest float.
\<close>

section \<open>Configurations\<close>

record fee_config =
  fe_taker_fee_rate :: pyfloat
  fe_maker_fee_rate :: pyfloat
  fe_maker_rebate_rate :: pyfloat

definition fee_rates :: "rat \<Rightarrow> rat \<Rightarrow> rat \<Rightarrow> fee_config" where
  "fee_rates taker maker rebate = \<lparr>fe_taker_fee_rate = fl taker, fe_maker_fee_rate = fl maker, fe_maker_rebate_rate = fl rebate\<rparr>"

definition okx_regular :: fee_config where "okx_regular = fee_rates (6 / 10000) (4 / 10000) 0"
definition okx_vip1 :: fee_config where "okx_vip1 = fee_rates (4 / 10000) (2 / 10000) (1 / 10000)"
definition okx_vip2 :: fee_config where "okx_vip2 = fee_rates (35 / 100000) (15 / 100000) (15 / 100000)"
definition bybit_regular :: fee_config where "bybit_regular = fee_rates (55 / 100000) (2 / 10000) 0"
definition bybit_vip1 :: fee_config where "bybit_vip1 = fee_rates (4 / 10000) (15 / 100000) 0"
definition bybit_spot :: fee_config where "bybit_spot = fee_rates (1 / 1000) (1 / 1000) 0"
definition okx_spot :: fee_config where "okx_spot = fee_rates (1 / 1000) (8 / 10000) 0"
definition binance_spot :: fee_config where "binance_spot = fee_rates (1 / 1000) (1 / 1000) 0"

definition fee_config_to_dict :: "fee_config \<Rightarrow> (string, pyfloat) dict" where
  "fee_config_to_dict c = [(''taker_fee_rate'', fe_taker_fee_rate c), (''maker_fee_rate'', fe_maker_fee_rate c),
     (''maker_rebate_rate'', fe_maker_rebate_rate c)]"

definition fee_config_from_dict :: "(string, pyfloat) dict \<Rightarrow> fee_config" where
  "fee_config_from_dict d = \<lparr>fe_taker_fee_rate = d_get_or d ''taker_fee_rate'' (fl (6 / 10000)),
     fe_maker_fee_rate = d_get_or d ''maker_fee_rate'' (fl (4 / 10000)), fe_maker_rebate_rate = d_get_or d ''maker_rebate_rate'' 0\<rparr>"

section \<open>Fees\<close>

definition calculate_entry_fee :: "fee_config \<Rightarrow> pyfloat \<Rightarrow> pyfloat \<Rightarrow> bool \<Rightarrow> pyfloat" where
  "calculate_entry_fee c sz price is_maker =
     (if sz \<le> 0 \<or> price \<le> 0 then 0
      else let notional = fmul sz price
      in if is_maker then fmul notional (max 0 (fsub (fe_maker_fee_rate c) (fe_maker_rebate_rate c)))
         else fmul notional (fe_taker_fee_rate c))"

definition calculate_exit_fee :: "fee_config \<Rightarrow> pyfloat \<Rightarrow> pyfloat \<Rightarrow> bool \<Rightarrow> pyfloat" where
  "calculate_exit_fee c sz price is_maker = calculate_entry_fee c sz price is_maker"

definition calculate_round_trip_fee :: "fee_config \<Rightarrow> pyfloat \<Rightarrow> pyfloat \<Rightarrow> pyfloat \<Rightarrow> bool \<Rightarrow> bool \<Rightarrow> pyfloat" where
  "calculate_round_trip_fee c sz entry_price exit_price entry_is_maker exit_is_maker =
     fadd (calculate_entry_fee c sz entry_price entry_is_maker) (calculate_exit_fee c sz exit_price exit_is_maker)"

text \<open>An amount in basis points of the notional.\<close>

definition bps_of_notional :: "pyfloat \<Rightarrow> pyfloat \<Rightarrow> pyfloat" where
  "bps_of_notional amount notional = (if 0 < notional then fmul (fl (amount / notional)) 10000 else 0)"

record breakeven_result =
  br_breakeven_price :: pyfloat
  br_breakeven_bps :: pyfloat
  br_round_trip_fee_usd :: pyfloat
  br_entry_fee_usd :: pyfloat
  br_exit_fee_usd :: pyfloat
  br_side :: string
  br_entry_price :: pyfloat
  br_size :: pyfloat

definition calculate_breakeven :: "fee_config \<Rightarrow> pyfloat \<Rightarrow> pyfloat \<Rightarrow> string \<Rightarrow> bool \<Rightarrow> bool \<Rightarrow> breakeven_result option" where
  "calculate_breakeven c sz entry_price side entry_is_maker exit_is_maker =
     (let s = py_lower side
      in if sz \<le> 0 \<or> entry_price \<le> 0 then None
         else if s \<notin> {''long'', ''short''} then None
         else let entry_fee = calculate_entry_fee c sz entry_price entry_is_maker;
                  exit_fee = calculate_exit_fee c sz entry_price exit_is_maker;
                  round_trip = fadd entry_fee exit_fee;
                  movement = fl (round_trip / sz)
         in Some \<lparr>br_breakeven_price = (if s = ''long'' then fadd entry_price movement else fsub entry_price movement),
              br_breakeven_bps = bps_of_notional round_trip (fmul sz entry_price), br_round_trip_fee_usd = round_trip,
              br_entry_fee_usd = entry_fee, br_exit_fee_usd = exit_fee, br_side = s, br_entry_price = entry_price, br_size = sz\<rparr>)"

definition calculate_breakeven_bps :: "pyfloat \<Rightarrow> bool \<Rightarrow> bool \<Rightarrow> pyfloat \<Rightarrow> pyfloat" where
  "calculate_breakeven_bps taker entry_is_maker exit_is_maker maker =
     fmul (fadd (if entry_is_maker then maker else taker) (if exit_is_maker then maker else taker)) 10000"

section \<open>Exits\<close>

definition py_round :: "pyfloat \<Rightarrow> nat \<Rightarrow> pyfloat" where
  "py_round x n = fl (of_int (round_half_even (x * 10 ^ n)) / 10 ^ n)"

record exit_check =
  xc_should_allow_exit :: bool
  xc_gross_pnl_bps :: pyfloat
  xc_net_pnl_bps :: pyfloat
  xc_breakeven_bps :: pyfloat
  xc_min_required_bps :: pyfloat
  xc_shortfall_bps :: pyfloat
  xc_reason :: string
  xc_gross_pnl_usd :: "pyfloat option"
  xc_net_pnl_usd :: "pyfloat option"
  xc_estimated_exit_fee_usd :: "pyfloat option"

definition invalid_exit :: "string \<Rightarrow> exit_check" where
  "invalid_exit reason = \<lparr>xc_should_allow_exit = False, xc_gross_pnl_bps = 0, xc_net_pnl_bps = 0, xc_breakeven_bps = 0, xc_min_required_bps = 0,
     xc_shortfall_bps = 0, xc_reason = reason, xc_gross_pnl_usd = None, xc_net_pnl_usd = None, xc_estimated_exit_fee_usd = None\<rparr>"

definition gross_pnl_usd :: "string \<Rightarrow> pyfloat \<Rightarrow> pyfloat \<Rightarrow> pyfloat \<Rightarrow> pyfloat" where
  "gross_pnl_usd s sz entry_price price = (if s = ''long'' then fmul (fsub price entry_price) sz else fmul (fsub entry_price price) sz)"

definition check_exit_profitability ::
  "fee_config \<Rightarrow> pyfloat \<Rightarrow> pyfloat \<Rightarrow> pyfloat \<Rightarrow> string \<Rightarrow> pyfloat \<Rightarrow> bool \<Rightarrow> bool \<Rightarrow> pyfloat option \<Rightarrow> exit_check" where
  "check_exit_profitability c sz entry_price price side buffer entry_is_maker exit_is_maker paid =
     (let s = py_lower side
      in if sz \<le> 0 \<or> entry_price \<le> 0 \<or> price \<le> 0 then invalid_exit ''invalid_inputs''
         else if s \<notin> {''long'', ''short''} then invalid_exit ''invalid_side''
         else let notional = fmul sz entry_price;
                  gross = gross_pnl_usd s sz entry_price price;
                  gross_bps = bps_of_notional gross notional;
                  entry_fee = (case paid of Some f \<Rightarrow> f | None \<Rightarrow> calculate_entry_fee c sz entry_price entry_is_maker);
                  exit_fee = calculate_exit_fee c sz price exit_is_maker;
                  fees = fadd entry_fee exit_fee;
                  net = fsub gross fees;
                  breakeven = bps_of_notional fees notional;
                  required = fadd breakeven (max 0 buffer)
         in \<lparr>xc_should_allow_exit = (required \<le> gross_bps), xc_gross_pnl_bps = py_round gross_bps 2,
              xc_net_pnl_bps = py_round (bps_of_notional net notional) 2, xc_breakeven_bps = py_round breakeven 2,
              xc_min_required_bps = py_round required 2, xc_shortfall_bps = py_round (max 0 (fsub required gross_bps)) 2,
              xc_reason = (if required \<le> gross_bps then ''profit_exceeds_threshold''
                else if breakeven \<le> gross_bps then ''profit_below_buffer'' else ''profit_below_breakeven''),
              xc_gross_pnl_usd = Some (py_round gross 4), xc_net_pnl_usd = Some (py_round net 4),
              xc_estimated_exit_fee_usd = Some (py_round exit_fee 4)\<rparr>)"

section \<open>Library\<close>

lemma allows_exit:
  "xc_should_allow_exit (check_exit_profitability c sz entry_price price side buffer m x None) \<longleftrightarrow>
     0 < sz \<and> 0 < entry_price \<and> 0 < price \<and> py_lower side \<in> {''long'', ''short''} \<and>
     fadd (bps_of_notional (fadd (calculate_entry_fee c sz entry_price m) (calculate_exit_fee c sz price x)) (fmul sz entry_price)) (max 0 buffer)
       \<le> bps_of_notional (gross_pnl_usd (py_lower side) sz entry_price price) (fmul sz entry_price)"
  by (simp add: check_exit_profitability_def invalid_exit_def Let_def)

lemma fee_nonneg: "0 \<le> fe_taker_fee_rate c \<Longrightarrow> 0 \<le> calculate_entry_fee c sz price m"
  by (auto simp: calculate_entry_fee_def Let_def fmul_def)

lemma taker_fee_pos: "0 < fe_taker_fee_rate c \<Longrightarrow> 0 < sz \<Longrightarrow> 0 < price \<Longrightarrow> 0 < calculate_entry_fee c sz price False"
  by (simp add: calculate_entry_fee_def Let_def fmul_def)

lemma bps_mono: "a \<le> b \<Longrightarrow> bps_of_notional a n \<le> bps_of_notional b n"
  by (auto simp: bps_of_notional_def fmul_def intro!: fl_mono divide_right_mono)

lemma bps_pos_iff: "0 < n \<Longrightarrow> 0 < bps_of_notional a n \<longleftrightarrow> 0 < a"
  by (simp add: bps_of_notional_def fmul_def zero_less_divide_iff)

lemma bps_float: "is_float (bps_of_notional a n)"
  by (simp add: bps_of_notional_def)

lemma fadd_buffer: "is_float x \<Longrightarrow> x \<le> fadd x (max 0 b)"
  unfolding fadd_def by (rule fl_ge) simp_all

lemma gross_pos_iff:
  assumes "0 < sz"
  shows "0 < gross_pnl_usd ''long'' sz entry price \<longleftrightarrow> entry < price" "s \<noteq> ''long'' \<Longrightarrow> 0 < gross_pnl_usd s sz entry price \<longleftrightarrow> price < entry"
  using assms by (auto simp: gross_pnl_usd_def fmul_def fsub_def zero_less_mult_iff)

lemma fmul_mono: "0 \<le> k \<Longrightarrow> a \<le> b \<Longrightarrow> fmul a k \<le> fmul b k"
  unfolding fmul_def by (intro fl_mono mult_right_mono)

text \<open>The rounding of the amounts: each operation is off by at most one part in \<open>2 ^ 52\<close>.\<close>

definition below_one :: rat where "below_one = 1 - 1 / 2 ^ 52"
definition above_one :: rat where "above_one = 1 + 1 / 2 ^ 52"

lemma near_one: "0 < below_one" "below_one \<le> 1" "1 \<le> above_one" "above_one ^ 4 \<le> (1 + 1 / 2 ^ 48) * below_one ^ 4"
  by (simp_all add: below_one_def above_one_def power4_eq_xxxx)

lemma fl_near:
  assumes "0 \<le> x"
  shows "x * below_one \<le> fl x" "fl x \<le> x * above_one"
  using fl_error [OF assms] by (simp_all add: below_one_def above_one_def)

lemma fl_twice_near:
  assumes "0 \<le> x" "0 \<le> k"
  shows "x * k * below_one ^ 2 \<le> fl (fl x * k)" "fl (fl x * k) \<le> x * k * above_one ^ 2"
proof -
  have "x * below_one * k * below_one \<le> fl x * k * below_one"
    using fl_near(1) [OF assms(1)] assms(2) near_one(1) by (intro mult_right_mono) simp_all
  also have "\<dots> \<le> fl (fl x * k)" using assms by (intro fl_near) simp
  finally show "x * k * below_one ^ 2 \<le> fl (fl x * k)" by (simp add: power2_eq_square ac_simps)
  have "fl (fl x * k) \<le> fl x * k * above_one" using assms by (intro fl_near) simp
  also have "\<dots> \<le> x * above_one * k * above_one"
    using fl_near(2) [OF assms(1)] assms(2) near_one(3) by (intro mult_right_mono) simp_all
  finally show "fl (fl x * k) \<le> x * k * above_one ^ 2" by (simp add: power2_eq_square ac_simps)
qed

lemma bps_near:
  assumes "0 \<le> a" "0 < n"
  shows "a / n * 10000 * below_one ^ 2 \<le> bps_of_notional a n" "bps_of_notional a n \<le> a / n * 10000 * above_one ^ 2"
  using fl_twice_near [of "a / n" 10000] assms by (simp_all add: bps_of_notional_def fmul_def)

lemma required_near:
  assumes "0 \<le> a" "0 < n" "0 \<le> b"
  shows "(a / n * 10000 + b) * below_one ^ 3 \<le> fadd (bps_of_notional a n) b"
    "fadd (bps_of_notional a n) b \<le> (a / n * 10000 + b) * above_one ^ 3"
proof -
  note bps = bps_near [OF assms(1,2)] and one = near_one
  have pos: "0 \<le> bps_of_notional a n" using assms by (simp add: bps_of_notional_def fmul_def)
  have b: "b * below_one ^ 2 \<le> b" "b \<le> b * above_one ^ 2"
    using assms(3) one(1-3) by (simp_all add: mult_left_le power_le_one mult_le_cancel_left1)
  have "(a / n * 10000 + b) * below_one ^ 2 \<le> bps_of_notional a n + b" using bps(1) b(1) by (simp add: ring_distribs)
  then have "(a / n * 10000 + b) * below_one ^ 2 * below_one \<le> (bps_of_notional a n + b) * below_one"
    using one(1) by (intro mult_right_mono) simp_all
  also have "\<dots> \<le> fadd (bps_of_notional a n) b" unfolding fadd_def using pos assms(3) by (intro fl_near) simp
  finally show "(a / n * 10000 + b) * below_one ^ 3 \<le> fadd (bps_of_notional a n) b" by (simp add: eval_nat_numeral ac_simps)
  have "fadd (bps_of_notional a n) b \<le> (bps_of_notional a n + b) * above_one" unfolding fadd_def using pos assms(3) by (intro fl_near) simp
  also have "bps_of_notional a n + b \<le> (a / n * 10000 + b) * above_one ^ 2" using bps(2) b(2) by (simp add: ring_distribs)
  then have "(bps_of_notional a n + b) * above_one \<le> (a / n * 10000 + b) * above_one ^ 2 * above_one"
    using one(3) by (intro mult_right_mono) simp_all
  finally show "fadd (bps_of_notional a n) b \<le> (a / n * 10000 + b) * above_one ^ 3" by (simp add: eval_nat_numeral ac_simps)
qed

text \<open>The exact gain of a price and the exact costs: the fees and the buffer on the notional.\<close>

definition exact_gain :: "string \<Rightarrow> rat \<Rightarrow> rat \<Rightarrow> rat \<Rightarrow> rat" where
  "exact_gain s sz entry price = (if s = ''long'' then price - entry else entry - price) * sz"

definition exact_costs :: "rat \<Rightarrow> rat \<Rightarrow> rat \<Rightarrow> rat \<Rightarrow> rat" where
  "exact_costs fees buffer sz entry = fees + max 0 buffer * (sz * entry) / 10000"

lemma gross_near:
  assumes "0 \<le> exact_gain s sz entry price" "0 < sz"
  shows "exact_gain s sz entry price * below_one ^ 2 \<le> gross_pnl_usd s sz entry price"
    "gross_pnl_usd s sz entry price \<le> exact_gain s sz entry price * above_one ^ 2"
  using fl_twice_near [of "if s = ''long'' then price - entry else entry - price" sz] assms
  by (auto simp: exact_gain_def gross_pnl_usd_def fmul_def fsub_def zero_le_mult_iff split: if_splits)

lemma gross_neg: "exact_gain s sz entry price < 0 \<Longrightarrow> 0 < sz \<Longrightarrow> gross_pnl_usd s sz entry price < 0"
  by (auto simp: exact_gain_def gross_pnl_usd_def fmul_def fsub_def mult_less_0_iff split: if_splits)

text \<open>The costs on the rounded notional.\<close>

lemma costs_near:
  assumes "0 \<le> fees" "0 < sz * entry"
  shows "exact_costs fees buffer sz entry * below_one \<le> fees + max 0 buffer * fmul sz entry / 10000"
    "fees + max 0 buffer * fmul sz entry / 10000 \<le> exact_costs fees buffer sz entry * above_one" "0 \<le> exact_costs fees buffer sz entry"
proof -
  have n: "sz * entry * below_one \<le> fmul sz entry" "fmul sz entry \<le> sz * entry * above_one"
    unfolding fmul_def using assms(2) by (auto intro: fl_near)
  have f: "fees * below_one \<le> fees" "fees \<le> fees * above_one"
    using assms(1) near_one by (simp_all add: mult_left_le mult_le_cancel_left1)
  have b: "0 \<le> max 0 buffer / 10000" by simp
  from f(1) mult_left_mono [OF n(1) b] show "exact_costs fees buffer sz entry * below_one \<le> fees + max 0 buffer * fmul sz entry / 10000"
    by (simp add: exact_costs_def ring_distribs ac_simps)
  from f(2) mult_left_mono [OF n(2) b] show "fees + max 0 buffer * fmul sz entry / 10000 \<le> exact_costs fees buffer sz entry * above_one"
    by (simp add: exact_costs_def ring_distribs ac_simps)
  show "0 \<le> exact_costs fees buffer sz entry" using assms by (simp add: exact_costs_def)
qed

text \<open>The check in exact terms.\<close>

lemma check_near:
  fixes s :: string and fees sz entry price buffer :: rat and V :: bool
  assumes "0 \<le> fees" "0 < sz \<and> 0 < entry \<and> 0 < price \<and> V"
  defines "n \<equiv> fmul sz entry" and "G \<equiv> gross_pnl_usd s sz entry price" and "X \<equiv> exact_gain s sz entry price"
    and "C \<equiv> exact_costs fees buffer sz entry"
  shows "fadd (bps_of_notional fees n) (max 0 buffer) \<le> bps_of_notional G n \<longrightarrow> C \<le> X * (1 + 1 / 2 ^ 48)"
    "C * (1 + 1 / 2 ^ 48) \<le> X \<longrightarrow> fadd (bps_of_notional fees n) (max 0 buffer) \<le> bps_of_notional G n"
proof -
  note one = near_one
  have p: "0 < sz * entry" "0 < sz" using assms(2) by simp_all
  then have n: "0 < n" by (simp add: n_def fmul_pos_iff)
  let ?D = "fees + max 0 buffer * n / 10000" and ?req = "fadd (bps_of_notional fees n) (max 0 buffer)"
  note c = costs_near [OF assms(1) p(1), of buffer, folded n_def C_def]
  have d: "fees / n * 10000 + max 0 buffer = ?D * (10000 / n)" using n by (simp add: field_simps)
  note r = required_near [OF assms(1) n, of "max 0 buffer", unfolded d]
  have k: "0 < 10000 / n" using n by simp
  have D0: "0 \<le> ?D" using assms(1) n by simp
  show "?req \<le> bps_of_notional G n \<longrightarrow> C \<le> X * (1 + 1 / 2 ^ 48)"
  proof
    assume le: "?req \<le> bps_of_notional G n"
    have "0 \<le> ?D * (10000 / n) * below_one ^ 3" using D0 k one(1) by simp
    then have "0 \<le> bps_of_notional G n" using r(1) le by simp
    then have "\<not> G < 0" using n by (auto simp: bps_of_notional_def fmul_def not_less zero_le_mult_iff zero_le_divide_iff)
    then have X: "0 \<le> X" using gross_neg p(2) unfolding G_def X_def by (meson not_less)
    note g = gross_near [OF X [unfolded X_def] p(2), folded G_def X_def]
    have G: "0 \<le> G" using \<open>\<not> G < 0\<close> by simp
    have "?D * (10000 / n) * below_one ^ 3 \<le> G / n * 10000 * above_one ^ 2" using r(1) le bps_near(2) [OF G n] by simp
    then have "(?D * below_one ^ 3) * (10000 / n) \<le> (G * above_one ^ 2) * (10000 / n)" by (simp add: ac_simps)
    then have "?D * below_one ^ 3 \<le> G * above_one ^ 2" using k by (simp only: mult_le_cancel_right_pos)
    moreover have "C * below_one * below_one ^ 3 \<le> ?D * below_one ^ 3" using c(1) one(1) by (intro mult_right_mono) simp_all
    moreover have "G * above_one ^ 2 \<le> X * above_one ^ 2 * above_one ^ 2" using g(2) by (intro mult_right_mono) simp_all
    moreover have "X * above_one ^ 4 \<le> X * ((1 + 1 / 2 ^ 48) * below_one ^ 4)" using one(4) X by (intro mult_left_mono)
    ultimately have "C * below_one ^ 4 \<le> (X * (1 + 1 / 2 ^ 48)) * below_one ^ 4" by (simp add: eval_nat_numeral ac_simps)
    then show "C \<le> X * (1 + 1 / 2 ^ 48)" using one(1) by (simp only: mult_le_cancel_right_pos zero_less_power)
  qed
  show "C * (1 + 1 / 2 ^ 48) \<le> X \<longrightarrow> ?req \<le> bps_of_notional G n"
  proof
    assume le: "C * (1 + 1 / 2 ^ 48) \<le> X"
    have "0 \<le> C * (1 + 1 / 2 ^ 48)" using c(3) by (intro mult_nonneg_nonneg) simp_all
    then have X: "0 \<le> X" using le by simp
    note g = gross_near [OF X [unfolded X_def] p(2), folded G_def X_def]
    have G: "0 \<le> G" using g(1) X one(1) by (meson mult_nonneg_nonneg order_trans zero_le_power less_imp_le)
    have "?D * above_one ^ 3 \<le> C * above_one * above_one ^ 3" using c(2) one(3) by (intro mult_right_mono) simp_all
    also have "\<dots> = C * above_one ^ 4" by (simp add: eval_nat_numeral)
    also have "\<dots> \<le> C * ((1 + 1 / 2 ^ 48) * below_one ^ 4)" using one(4) c(3) by (intro mult_left_mono)
    also have "\<dots> = (C * (1 + 1 / 2 ^ 48)) * below_one ^ 4" by (simp only: mult.assoc)
    also have "\<dots> \<le> X * below_one ^ 4" using le one(1) by (intro mult_right_mono) simp_all
    also have "\<dots> = X * below_one ^ 2 * below_one ^ 2" by (simp add: eval_nat_numeral)
    also have "\<dots> \<le> G * below_one ^ 2" using g(1) by (intro mult_right_mono) simp_all
    finally have "?D * above_one ^ 3 * (10000 / n) \<le> G * below_one ^ 2 * (10000 / n)" using k by (intro mult_right_mono) simp_all
    then have "?D * (10000 / n) * above_one ^ 3 \<le> G / n * 10000 * below_one ^ 2" by (simp add: ac_simps)
    with r(2) bps_near(1) [OF G n] show "?req \<le> bps_of_notional G n" by simp
  qed
qed

section \<open>Properties\<close>

text \<open>C40: The exit check decides by the costs: an exit with valid inputs and fees that are not negative is allowed only when its exact gain covers
  the fees (of the entry, paid or estimated, and of the exit) and the buffer on the notional, and it is allowed whenever the
  gain covers them, both up to one part in \<open>2 ^ 48\<close>; the reason reports exactly the allowed exits as profitable.  Nothing is assumed of
  the rates, so the fees may be those of makers or takers on either leg, and with fees and buffer of zero an exit at the entry price
  is allowed.\<close>

theorem exit_check_covers_costs:
  fixes c :: fee_config and paid :: "pyfloat option"
  defines "fees \<equiv> \<lambda>sz entry price m x. fadd (case paid of Some f \<Rightarrow> f | None \<Rightarrow> calculate_entry_fee c sz entry m) (calculate_exit_fee c sz price x)"
  assumes "0 \<le> fees sz entry price m x"
  shows "let r = check_exit_profitability c sz entry price side buffer m x paid; s = py_lower side;
       valid = (0 < sz \<and> 0 < entry \<and> 0 < price \<and> s \<in> {''long'', ''short''});
       costs = exact_costs (fees sz entry price m x) buffer sz entry; gain = exact_gain s sz entry price
    in (xc_should_allow_exit r \<longrightarrow> valid \<and> costs \<le> gain * (1 + 1 / 2 ^ 48)) \<and>
       (valid \<and> costs * (1 + 1 / 2 ^ 48) \<le> gain \<longrightarrow> xc_should_allow_exit r) \<and>
       (xc_should_allow_exit r \<longleftrightarrow> xc_reason r = ''profit_exceeds_threshold'')"
proof -
  let ?r = "check_exit_profitability c sz entry price side buffer m x paid" and ?s = "py_lower side"
  let ?F = "fees sz entry price m x" and ?n = "fmul sz entry"
  let ?C = "exact_costs ?F buffer sz entry" and ?X = "exact_gain ?s sz entry price" and ?G = "gross_pnl_usd ?s sz entry price"
  let ?valid = "0 < sz \<and> 0 < entry \<and> 0 < price \<and> ?s \<in> {''long'', ''short''}"
  have allow: "xc_should_allow_exit ?r \<longleftrightarrow> ?valid \<and> fadd (bps_of_notional ?F ?n) (max 0 buffer) \<le> bps_of_notional ?G ?n"
    by (simp add: check_exit_profitability_def invalid_exit_def Let_def fees_def)
  have reason: "xc_should_allow_exit ?r \<longleftrightarrow> xc_reason ?r = ''profit_exceeds_threshold''"
    by (simp add: check_exit_profitability_def invalid_exit_def Let_def)
  have "?valid \<Longrightarrow> fadd (bps_of_notional ?F ?n) (max 0 buffer) \<le> bps_of_notional ?G ?n \<longrightarrow> ?C \<le> ?X * (1 + 1 / 2 ^ 48)"
    "?valid \<Longrightarrow> ?C * (1 + 1 / 2 ^ 48) \<le> ?X \<longrightarrow> fadd (bps_of_notional ?F ?n) (max 0 buffer) \<le> bps_of_notional ?G ?n"
    by (rule check_near [OF assms(2)], assumption)+
  with allow reason show ?thesis unfolding Let_def by blast
qed

theorem exit_check_covers_costs_witness:
  "xc_should_allow_exit (check_exit_profitability okx_regular 1 100 101 ''Long'' 5 False True (Some (1 / 16))) \<and>
   exact_costs (fadd (1 / 16) (calculate_exit_fee okx_regular 1 101 True)) 5 1 100 \<le> exact_gain ''long'' 1 100 101 * (1 + 1 / 2 ^ 48)"
proof -
  have f: "0 \<le> fadd (case Some (1 / 16) of Some f \<Rightarrow> f | None \<Rightarrow> calculate_entry_fee okx_regular 1 100 False) (calculate_exit_fee okx_regular 1 101 True)"
    by code_simp
  have "exact_costs (fadd (1 / 16) (calculate_exit_fee okx_regular 1 101 True)) 5 1 100 * (1 + 1 / 2 ^ 48) \<le> exact_gain ''long'' 1 100 101" by code_simp
  moreover have "py_lower ''Long'' = ''long''" by code_simp
  ultimately show ?thesis using exit_check_covers_costs [OF f, of "''Long''" 5] by (simp add: Let_def)
qed

text \<open>With both legs at a positive taker fee and no fee paid yet, an exit that the fee check allows is a gain: a long position exits only above its entry price and
  a short one only below it, whatever the buffer; the reason says so and no shortfall is reported.\<close>

theorem fee_checked_exit_gains:
  assumes "0 < fe_taker_fee_rate c" and "xc_should_allow_exit (check_exit_profitability c sz entry price side buffer False False None)"
  shows "(if py_lower side = ''long'' then entry < price else py_lower side = ''short'' \<and> price < entry) \<and>
     xc_shortfall_bps (check_exit_profitability c sz entry price side buffer False False None) = 0 \<and>
     xc_reason (check_exit_profitability c sz entry price side buffer False False None) = ''profit_exceeds_threshold''"
proof -
  let ?s = "py_lower side" and ?n = "fmul sz entry"
  have v: "0 < sz" "0 < entry" "0 < price" "?s = ''long'' \<or> ?s = ''short''"
    using assms(2) by (auto simp: check_exit_profitability_def invalid_exit_def Let_def split: if_splits)
  let ?fees = "fadd (calculate_entry_fee c sz entry False) (calculate_exit_fee c sz price False)"
  have req: "fadd (bps_of_notional ?fees ?n) (max 0 buffer) \<le> bps_of_notional (gross_pnl_usd ?s sz entry price) ?n"
    using assms(2) v by (auto simp: check_exit_profitability_def Let_def)
  have n: "0 < ?n" using v by (simp add: fmul_pos_iff zero_less_mult_iff)
  have "0 < ?fees" using taker_fee_pos [OF assms(1) v(1)] v by (simp add: fadd_def calculate_exit_fee_def add_pos_pos)
  then have "0 < bps_of_notional ?fees ?n" using n by (simp add: bps_pos_iff)
  also have "\<dots> \<le> fadd (bps_of_notional ?fees ?n) (max 0 buffer)" by (intro fadd_buffer bps_float)
  also note req
  finally have "0 < gross_pnl_usd ?s sz entry price" using n by (simp add: bps_pos_iff)
  then have "if ?s = ''long'' then entry < price else price < entry" using v(4) gross_pos_iff [OF v(1)] by auto
  moreover have "max 0 (fsub (fadd (bps_of_notional ?fees ?n) (max 0 buffer)) (bps_of_notional (gross_pnl_usd ?s sz entry price) ?n)) = 0"
    using req by (simp add: fsub_def max_def)
  ultimately show ?thesis using v req
    by (auto simp: check_exit_profitability_def Let_def py_round_def round_half_even_of_int [of 0, simplified])
qed

theorem fee_checked_exit_gains_witness:
  "xc_should_allow_exit (check_exit_profitability okx_regular 1 100 101 ''Long'' 5 False False None) \<and> (100 :: rat) < 101"
proof -
  have "0 < fe_taker_fee_rate okx_regular" by (simp add: okx_regular_def fee_rates_def)
  moreover have allowed: "xc_should_allow_exit (check_exit_profitability okx_regular 1 100 101 ''Long'' 5 False False None)" unfolding allows_exit by code_simp
  moreover have "py_lower ''Long'' = ''long''" by code_simp
  ultimately have "(100 :: rat) < 101" using fee_checked_exit_gains [of okx_regular 1 100 101 "''Long''" 5] by simp
  with allowed show ?thesis by blast
qed

text \<open>For a short position the check is monotone: an exit that it allows at a price it allows at every lower positive price and with
  every smaller buffer.\<close>

theorem short_exits_monotone:
  assumes "0 \<le> fe_taker_fee_rate c" and "py_lower side = ''short''" and "0 < price'" and "price' \<le> price" and "buffer' \<le> buffer"
    and "xc_should_allow_exit (check_exit_profitability c sz entry price side buffer False False None)"
  shows "xc_should_allow_exit (check_exit_profitability c sz entry price' side buffer' False False None)"
proof -
  have v: "0 < sz" "0 < entry" "0 < price" using assms(2,6) by (auto simp: check_exit_profitability_def invalid_exit_def Let_def split: if_splits)
  let ?n = "fmul sz entry"
  let ?fees = "\<lambda>p. fadd (calculate_entry_fee c sz entry False) (calculate_exit_fee c sz p False)"
  let ?req = "\<lambda>p b. fadd (bps_of_notional (?fees p) ?n) (max 0 b)"
  have "calculate_exit_fee c sz price' False \<le> calculate_exit_fee c sz price False"
    using assms(1,3,4) v by (simp add: calculate_exit_fee_def calculate_entry_fee_def Let_def fmul_def) (intro fl_mono mult_right_mono mult_left_mono, simp_all)
  then have "bps_of_notional (?fees price') ?n \<le> bps_of_notional (?fees price) ?n"
    unfolding fadd_def by (intro bps_mono fl_mono) simp
  then have "?req price' buffer' \<le> ?req price buffer" using assms(5) unfolding fadd_def by (intro fl_mono add_mono) auto
  also have "\<dots> \<le> bps_of_notional (gross_pnl_usd ''short'' sz entry price) ?n"
    using assms(2,6) v by (simp add: check_exit_profitability_def Let_def)
  also have "\<dots> \<le> bps_of_notional (gross_pnl_usd ''short'' sz entry price') ?n"
    using assms(4) v by (intro bps_mono) (simp add: gross_pnl_usd_def fmul_mono fsub_mono)
  finally show ?thesis using assms(2,3) v by (simp add: check_exit_profitability_def Let_def)
qed

theorem short_exits_monotone_witness:
  "xc_should_allow_exit (check_exit_profitability okx_regular 1 100 90 ''short'' 0 False False None)"
proof (rule short_exits_monotone [where price = 99 and buffer = 5])
  show "0 \<le> fe_taker_fee_rate okx_regular" by (simp add: okx_regular_def fee_rates_def)
  show "py_lower ''short'' = ''short''" by code_simp
  show "xc_should_allow_exit (check_exit_profitability okx_regular 1 100 99 ''short'' 5 False False None)" unfolding allows_exit by code_simp
qed simp_all

text \<open>A configuration survives its dictionary.\<close>

lemma fee_config_dict: "fee_config_from_dict (fee_config_to_dict c) = c"
  by (simp add: fee_config_from_dict_def fee_config_to_dict_def d_get_or_def)

end
