(* ===== verification/Guard_Rules.thy ===== *)
theory Guard_Rules
  imports Fee_Model Positions Py_Data
begin

text \<open>
  The rules of the position guard (quantgambit/execution/position_guard_worker.py): when a position is to be closed, when an
  old one may be kept longer, and when a soft exit is put off.  A decision may end the evaluation without a reason, so the
  rules return an optional optional reason.  The live prediction is a dictionary that is an argument; \<open>text_of\<close> is
  \<open>str\<close> of a value that is not a text.  Telemetry fields of the answers are left out.
\<close>

section \<open>Configuration\<close>

record guard_rules =
  gr_max_position_age_sec :: pyfloat
  gr_trailing_stop_bps :: pyfloat
  gr_trailing_activation_bps :: pyfloat
  gr_trailing_min_hold_sec :: pyfloat
  gr_breakeven_activation_bps :: pyfloat
  gr_breakeven_buffer_bps :: pyfloat
  gr_breakeven_min_hold_sec :: pyfloat
  gr_profit_lock_activation_bps :: pyfloat
  gr_profit_lock_retrace_bps :: pyfloat
  gr_profit_lock_min_hold_sec :: pyfloat
  gr_verify_exchange_protection :: bool
  gr_protection_grace_sec :: pyfloat
  gr_require_protection :: bool
  gr_require_stop_loss :: bool
  gr_flatten_all_on_protection_failure :: bool
  gr_continuation_gate_enabled :: bool
  gr_continuation_min_confidence :: pyfloat
  gr_continuation_min_pnl_bps :: pyfloat
  gr_continuation_max_prediction_age_sec :: pyfloat
  gr_continuation_max_defer_sec :: pyfloat
  gr_continuation_max_defers :: int
  gr_continuation_symbol_min_confidence :: "(string, pyfloat) dict"
  gr_continuation_symbol_min_pnl_bps :: "(string, pyfloat) dict"
  gr_continuation_symbol_max_defer_sec :: "(string, pyfloat) dict"
  gr_tp_limit_exit_enabled :: bool
  gr_tp_limit_price_buffer_bps :: pyfloat
  gr_tp_limit_exit_reasons :: "string list"
  gr_max_age_hard_sec :: pyfloat
  gr_max_age_confirmations :: int
  gr_max_age_recheck_sec :: pyfloat
  gr_max_age_extension_sec :: pyfloat
  gr_max_age_max_extensions :: int
  gr_min_pnl_bps_to_extend :: pyfloat

definition default_guard_rules :: guard_rules where
  "default_guard_rules = \<lparr>gr_max_position_age_sec = 0, gr_trailing_stop_bps = 0, gr_trailing_activation_bps = 0, gr_trailing_min_hold_sec = 0,
     gr_breakeven_activation_bps = 0, gr_breakeven_buffer_bps = 0, gr_breakeven_min_hold_sec = 0, gr_profit_lock_activation_bps = 0,
     gr_profit_lock_retrace_bps = 0, gr_profit_lock_min_hold_sec = 0, gr_verify_exchange_protection = False, gr_protection_grace_sec = 5,
     gr_require_protection = False, gr_require_stop_loss = False, gr_flatten_all_on_protection_failure = True,
     gr_continuation_gate_enabled = True, gr_continuation_min_confidence = fl (7 / 10), gr_continuation_min_pnl_bps = 10,
     gr_continuation_max_prediction_age_sec = 20, gr_continuation_max_defer_sec = 90, gr_continuation_max_defers = 60,
     gr_continuation_symbol_min_confidence = [], gr_continuation_symbol_min_pnl_bps = [], gr_continuation_symbol_max_defer_sec = [],
     gr_tp_limit_exit_enabled = False, gr_tp_limit_price_buffer_bps = 1 / 2, gr_tp_limit_exit_reasons = [], gr_max_age_hard_sec = 0,
     gr_max_age_confirmations = 1, gr_max_age_recheck_sec = 45, gr_max_age_extension_sec = 0, gr_max_age_max_extensions = 0,
     gr_min_pnl_bps_to_extend = 6\<rparr>"

section \<open>Prices\<close>

definition pos_is_long :: "pos_core \<Rightarrow> bool" where "pos_is_long p = (py_lower (ps_side p) \<in> {''long'', ''buy''})"
definition pos_is_short :: "pos_core \<Rightarrow> bool" where "pos_is_short p = (py_lower (ps_side p) \<in> {''short'', ''sell''})"

definition current_pnl_bps :: "pos_core \<Rightarrow> pyfloat \<Rightarrow> pyfloat option" where
  "current_pnl_bps p price = (case ps_entry_price p of
       Some e \<Rightarrow> if 0 < e then Some (fmul (fl ((if pos_is_long p then fsub price e else fsub e price) / e)) 10000) else None
     | None \<Rightarrow> None)"

text \<open>The time since opening, if the position has an opening time that is not zero.\<close>

definition hold_time :: "pos_core \<Rightarrow> pyfloat \<Rightarrow> pyfloat option" where
  "hold_time p now = (case ps_opened_at p of Some t \<Rightarrow> if t \<noteq> 0 then Some (fsub now t) else None | None \<Rightarrow> None)"

definition held_less :: "pyfloat \<Rightarrow> pos_core \<Rightarrow> pyfloat \<Rightarrow> bool" where
  "held_less limit p now = (0 < limit \<and> (case hold_time p now of Some h \<Rightarrow> h < limit | None \<Rightarrow> False))"

definition mfe_bps :: "pos_core \<Rightarrow> pyfloat \<Rightarrow> pyfloat option" where
  "mfe_bps p price = (case ps_mfe_pct p of Some m \<Rightarrow> Some (fmul m 100) | None \<Rightarrow> current_pnl_bps p price)"

definition reaches :: "pyfloat option \<Rightarrow> pyfloat \<Rightarrow> bool" where
  "reaches x limit = (case x of Some v \<Rightarrow> limit \<le> v | None \<Rightarrow> False)"

section \<open>When to close\<close>

definition protective_exit :: "pos_core \<Rightarrow> pyfloat \<Rightarrow> string option" where
  "protective_exit p price =
     (let sl = (case ps_stop_loss p of Some s \<Rightarrow> pos_is_long p \<and> price \<le> s \<or> pos_is_short p \<and> s \<le> price | None \<Rightarrow> False);
          tp = (case ps_take_profit p of Some t \<Rightarrow> pos_is_long p \<and> t \<le> price \<or> pos_is_short p \<and> price \<le> t | None \<Rightarrow> False)
      in if sl then Some ''stop_loss_hit'' else if tp then Some ''take_profit_hit'' else None)"

definition breakeven_stop_price :: "fee_config option \<Rightarrow> pos_core \<Rightarrow> pyfloat \<Rightarrow> pyfloat option" where
  "breakeven_stop_price fee p buffer = (case ps_entry_price p of
       None \<Rightarrow> None
     | Some e \<Rightarrow>
       if e \<le> 0 \<or> ps_size p \<le> 0 then None
       else let side = (if pos_is_long p then ''long'' else ''short'');
                be = (case fee of None \<Rightarrow> 0
                      | Some c \<Rightarrow> (case calculate_breakeven c (ps_size p) e side False False of None \<Rightarrow> 0 | Some b \<Rightarrow> br_breakeven_bps b));
                tot = max 0 (fadd be (max 0 buffer))
            in Some (if side = ''long'' then fmul e (fadd 1 (fl (tot / 10000))) else fmul e (fsub 1 (fl (tot / 10000)))))"

definition breakeven_rule :: "guard_rules \<Rightarrow> fee_config option \<Rightarrow> pos_core \<Rightarrow> pyfloat \<Rightarrow> pyfloat \<Rightarrow> string option option" where
  "breakeven_rule c fee p price now =
     (if 0 < gr_breakeven_activation_bps c \<and> ps_entry_price p \<noteq> None \<and> reaches (mfe_bps p price) (gr_breakeven_activation_bps c)
      then if held_less (gr_breakeven_min_hold_sec c) p now then Some None
           else (case breakeven_stop_price fee p (gr_breakeven_buffer_bps c) of
               None \<Rightarrow> None
             | Some stop \<Rightarrow> if pos_is_long p \<and> price \<le> stop \<or> pos_is_short p \<and> stop \<le> price then Some (Some ''breakeven_stop_hit'') else None)
      else None)"

definition profit_lock_rule :: "guard_rules \<Rightarrow> pos_core \<Rightarrow> pyfloat \<Rightarrow> pyfloat \<Rightarrow> string option option" where
  "profit_lock_rule c p price now =
     (if 0 < gr_profit_lock_activation_bps c \<and> 0 \<le> gr_profit_lock_retrace_bps c \<and> current_pnl_bps p price \<noteq> None \<and>
         reaches (mfe_bps p price) (gr_profit_lock_activation_bps c)
      then if held_less (gr_profit_lock_min_hold_sec c) p now then Some None
           else if the (current_pnl_bps p price) \<le> gr_profit_lock_retrace_bps c then Some (Some ''profit_lock_retrace'') else None
      else None)"

definition peak_key :: "pos_core \<Rightarrow> string" where
  "peak_key p = ps_symbol p @ '':'' @ py_lower (ps_side p)"

type_synonym trailing_peaks = "(string, pyfloat) dict"

definition check_trailing_stop :: "pos_core \<Rightarrow> pyfloat \<Rightarrow> pyfloat \<Rightarrow> trailing_peaks \<Rightarrow> trailing_peaks \<times> string option" where
  "check_trailing_stop p price bps peaks =
     (if bps \<le> 0 then (peaks, None)
      else let peak = d_get_or peaks (peak_key p) price
      in if pos_is_long p
         then if peak < price then (d_put peaks (peak_key p) price, None)
              else (peaks, if price \<le> fmul peak (fsub 1 (fl (bps / 10000))) then Some ''trailing_stop_hit'' else None)
         else if price < peak then (d_put peaks (peak_key p) price, None)
              else (peaks, if fmul peak (fadd 1 (fl (bps / 10000))) \<le> price then Some ''trailing_stop_hit'' else None))"

text \<open>The rule ends the evaluation once it is active, with or without a reason.\<close>

definition trailing_rule :: "guard_rules \<Rightarrow> pos_core \<Rightarrow> pyfloat \<Rightarrow> pyfloat \<Rightarrow> trailing_peaks \<Rightarrow> trailing_peaks \<times> string option option" where
  "trailing_rule c p price now peaks =
     (if 0 < gr_trailing_stop_bps c
      then if held_less (gr_trailing_min_hold_sec c) p now then (peaks, Some None)
           else if gr_trailing_activation_bps c \<le> 0 \<or> reaches (mfe_bps p price) (gr_trailing_activation_bps c)
           then (let (peaks', r) = check_trailing_stop p price (gr_trailing_stop_bps c) peaks in (peaks', Some r))
           else (peaks, None)
      else (peaks, None))"

definition time_budget_rule :: "guard_rules \<Rightarrow> pos_core \<Rightarrow> pyfloat \<Rightarrow> string option" where
  "time_budget_rule c p now = (case hold_time p now of
       None \<Rightarrow> None
     | Some h \<Rightarrow>
       if (case ps_max_hold_sec p of Some m \<Rightarrow> 0 < m \<and> m \<le> h | None \<Rightarrow> False) then Some ''max_hold_exceeded''
       else if (case (ps_time_to_work_sec p, ps_mfe_min_bps p) of
                  (Some t, Some b) \<Rightarrow> t \<le> h \<and> fmul (fo_or (ps_mfe_pct p) 0) 100 < b | _ \<Rightarrow> False) then Some ''time_to_work_fail''
       else if 0 < gr_max_position_age_sec c \<and> gr_max_position_age_sec c \<le> h then Some ''max_age_exceeded''
       else None)"

definition should_close ::
  "guard_rules \<Rightarrow> fee_config option \<Rightarrow> pos_core \<Rightarrow> pyfloat \<Rightarrow> pyfloat \<Rightarrow> trailing_peaks \<Rightarrow> trailing_peaks \<times> string option" where
  "should_close c fee p price now peaks =
     (case protective_exit p price of
        Some r \<Rightarrow> (peaks, Some r)
      | None \<Rightarrow> (case breakeven_rule c fee p price now of
          Some r \<Rightarrow> (peaks, r)
        | None \<Rightarrow> (case profit_lock_rule c p price now of
            Some r \<Rightarrow> (peaks, r)
          | None \<Rightarrow> (case trailing_rule c p price now peaks of
              (peaks', Some r) \<Rightarrow> (peaks', r)
            | (peaks', None) \<Rightarrow> (peaks', time_budget_rule c p now)))))"

text \<open>The fallback of the worker for a position beyond the age limit.\<close>

definition close_reason ::
  "guard_rules \<Rightarrow> fee_config option \<Rightarrow> pos_core \<Rightarrow> pyfloat \<Rightarrow> pyfloat \<Rightarrow> trailing_peaks \<Rightarrow> trailing_peaks \<times> string option" where
  "close_reason c fee p price now peaks = (case should_close c fee p price now peaks of
       (peaks', Some r) \<Rightarrow> (peaks', Some r)
     | (peaks', None) \<Rightarrow> (peaks', if 0 < gr_max_position_age_sec c \<and> reaches (hold_time p now) (gr_max_position_age_sec c)
         then Some ''max_age_exceeded'' else None))"

definition is_emergency_exit_reason :: "string option \<Rightarrow> bool" where
  "is_emergency_exit_reason reason = (let t = py_lower (strip (case reason of Some r \<Rightarrow> r | None \<Rightarrow> []))
     in t \<noteq> [] \<and> (t \<in> {''stop_loss_hit'', ''max_age_hard_exceeded''} \<or>
        list_ex (\<lambda>k. py_contains k t) [''emergency'', ''critical'', ''liquidation'', ''safety_exit'', ''risk'']))"

definition exit_side :: "string \<Rightarrow> string" where
  "exit_side side = (if py_lower side \<in> {''long'', ''buy''} then ''sell'' else if py_lower side \<in> {''short'', ''sell''} then ''buy'' else ''sell'')"

section \<open>Fees\<close>

text \<open>The check of a trailing exit, at a price worse by the assumed slippage; nothing for every other reason.\<close>

definition apply_fee_check :: "fee_config option \<Rightarrow> pyfloat \<Rightarrow> pyfloat \<Rightarrow> pos_core \<Rightarrow> pyfloat \<Rightarrow> string \<Rightarrow> exit_check option" where
  "apply_fee_check fee buffer slippage p price reason = (case (fee, ps_entry_price p) of
       (Some c, Some e) \<Rightarrow>
         if reason \<noteq> ''trailing_stop_hit'' \<or> ps_size p \<le> 0 then None
         else (let side = (if pos_is_long p then ''long'' else ''short'');
                   k = fl (slippage / 10000);
                   worse = (if 0 < slippage then if side = ''long'' then fmul price (fsub 1 k) else fmul price (fadd 1 k) else price)
               in Some (check_exit_profitability c (ps_size p) e worse side buffer False False None))
     | _ \<Rightarrow> None)"

section \<open>Live predictions\<close>

definition py_text :: "(py_data \<Rightarrow> string) \<Rightarrow> py_data \<Rightarrow> string" where
  "py_text text_of x = (if \<not> py_truthy x then [] else case x of DStr s \<Rightarrow> s | _ \<Rightarrow> text_of x)"

text \<open>The prediction stored for the symbol, or the latest one if it is for the symbol.\<close>

definition load_live_prediction :: "(py_data \<Rightarrow> string) \<Rightarrow> bool \<Rightarrow> string \<Rightarrow> py_data \<Rightarrow> py_data \<Rightarrow> py_data" where
  "load_live_prediction text_of reader symbol per_symbol latest =
     (if \<not> reader then DNone
      else if is_dict per_symbol then per_symbol
      else if is_dict latest \<and> py_upper (py_text text_of (get_field latest ''symbol'' DNone)) = py_upper symbol then latest
      else DNone)"

definition direction_aligns :: "string \<Rightarrow> pos_core \<Rightarrow> bool" where
  "direction_aligns d p = (let t = py_lower d in if pos_is_long p then t \<in> {''up'', ''long'', ''buy''}
     else if pos_is_short p then t \<in> {''down'', ''short'', ''sell''} else False)"

definition symbol_float_override :: "string \<Rightarrow> (string, pyfloat) dict \<Rightarrow> pyfloat \<Rightarrow> pyfloat" where
  "symbol_float_override symbol overrides dflt = d_get_or overrides (py_upper symbol) dflt"

text \<open>A confident, recent prediction in the direction of the position.\<close>

definition prediction_supports :: "(py_data \<Rightarrow> string) \<Rightarrow> guard_rules \<Rightarrow> pos_core \<Rightarrow> pyfloat \<Rightarrow> py_data \<Rightarrow> bool" where
  "prediction_supports text_of c p now pred =
     (let min_conf = symbol_float_override (py_upper (ps_symbol p)) (gr_continuation_symbol_min_confidence c) (gr_continuation_min_confidence c);
          direction = py_lower (py_text text_of (get_field pred ''direction'' DNone))
      in (case py_to_float (get_field pred ''confidence'' DNone) of None \<Rightarrow> False | Some k \<Rightarrow> \<not> k < min_conf) \<and>
         direction \<notin> {[], ''flat'', ''none''} \<and> direction_aligns direction p \<and>
         (case py_to_float (get_field pred ''timestamp'' DNone) of None \<Rightarrow> False
          | Some t \<Rightarrow> \<not> gr_continuation_max_prediction_age_sec c < fsub now t))"

section \<open>Old positions\<close>

definition should_extend_max_age :: "(py_data \<Rightarrow> string) \<Rightarrow> guard_rules \<Rightarrow> pos_core \<Rightarrow> pyfloat \<Rightarrow> pyfloat \<Rightarrow> py_data \<Rightarrow> bool" where
  "should_extend_max_age text_of c p price now pred =
     (if \<not> reaches (current_pnl_bps p price) (gr_min_pnl_bps_to_extend c) then False
      else if \<not> py_truthy pred then False
      else if py_lower (py_text text_of (get_field pred ''status'' DNone)) \<in> {''suppressed'', ''blocked''} then False
      else prediction_supports text_of c p now pred)"

record max_age_state =
  ma_next_soft_deadline :: pyfloat
  ma_last_recheck :: pyfloat
  ma_extensions_used :: int
  ma_fail_count :: int

type_synonym max_age_states = "(string, max_age_state) dict"

definition fresh_max_age :: "guard_rules \<Rightarrow> pyfloat \<Rightarrow> max_age_state" where
  "fresh_max_age c opened = \<lparr>ma_next_soft_deadline = fadd opened (gr_max_position_age_sec c), ma_last_recheck = 0, ma_extensions_used = 0, ma_fail_count = 0\<rparr>"

text \<open>The answer of one evaluation: close or not, with the reason to close.\<close>

definition recheck_max_age ::
  "(py_data \<Rightarrow> string) \<Rightarrow> guard_rules \<Rightarrow> pyfloat option \<Rightarrow> pyfloat \<Rightarrow> max_age_state \<Rightarrow> pos_core \<Rightarrow> pyfloat \<Rightarrow> pyfloat \<Rightarrow> py_data \<Rightarrow> max_age_state \<times> bool" where
  "recheck_max_age text_of c hard soft_at st p price now pred =
     (let st1 = st\<lparr>ma_last_recheck := now\<rparr>; ext = max 0 (gr_max_age_extension_sec c)
      in if ma_extensions_used st < max 0 (gr_max_age_max_extensions c) \<and> 0 < ext \<and> should_extend_max_age text_of c p price now pred
         then (let d = fadd soft_at ext; d' = (case hard of Some h \<Rightarrow> min d h | None \<Rightarrow> d)
               in (st1\<lparr>ma_extensions_used := ma_extensions_used st + 1, ma_fail_count := 0, ma_next_soft_deadline := d'\<rparr>, False))
         else (let n = ma_fail_count st + 1
               in (st1\<lparr>ma_fail_count := n\<rparr>, \<not> n < max 1 (gr_max_age_confirmations c))))"

definition evaluate_max_age ::
  "(py_data \<Rightarrow> string) \<Rightarrow> guard_rules \<Rightarrow> max_age_states \<Rightarrow> pos_core \<Rightarrow> pyfloat \<Rightarrow> pyfloat \<Rightarrow> py_data \<Rightarrow> max_age_states \<times> string option" where
  "evaluate_max_age text_of c sts p price now pred =
     (if gr_max_position_age_sec c \<le> 0 \<or> \<not> f_truthy (ps_opened_at p) then (sts, Some ''max_age_exceeded'')
      else let opened = the (ps_opened_at p); symbol = ps_symbol p;
               st = d_get_or sts symbol (fresh_max_age c opened); sts1 = d_put sts symbol st;
               hard = (if 0 < gr_max_age_hard_sec c then Some (fadd opened (gr_max_age_hard_sec c)) else None);
               soft_at = f_or (ma_next_soft_deadline st) (fadd opened (gr_max_position_age_sec c));
               recheck = max 1 (f_or (gr_max_age_recheck_sec c) 45)
      in if (case hard of Some h \<Rightarrow> h \<le> now | None \<Rightarrow> False) then (sts1, Some ''max_age_hard_exceeded'')
         else if now < soft_at then (sts1, None)
         else if 0 < ma_last_recheck st \<and> fsub now (ma_last_recheck st) < recheck then (sts1, None)
         else (let (st', close) = recheck_max_age text_of c hard soft_at st p price now pred
               in (d_put sts1 symbol st', if close then Some ''max_age_exceeded'' else None)))"

section \<open>Soft exits\<close>

record continuation_state =
  cs_first_ts :: pyfloat
  cs_count :: int
  cs_reason :: string

type_synonym continuation_states = "(string, continuation_state) dict"

definition soft_reasons :: "string list" where "soft_reasons = [''trailing_stop_hit'', ''max_hold_exceeded'', ''time_to_work_fail'']"
definition time_budget_reasons :: "string list" where "time_budget_reasons = [''max_hold_exceeded'', ''time_to_work_fail'']"

text \<open>The profit a soft exit needs to be put off: none for a time budget exit in profit that does not yet cover its fees.\<close>

definition defer_min_pnl :: "guard_rules \<Rightarrow> fee_config option \<Rightarrow> pyfloat \<Rightarrow> pos_core \<Rightarrow> string \<Rightarrow> pyfloat \<Rightarrow> pyfloat" where
  "defer_min_pnl c fee buffer p reason price =
     (let m = symbol_float_override (py_upper (ps_symbol p)) (gr_continuation_symbol_min_pnl_bps c) (gr_continuation_min_pnl_bps c)
      in case (fee, ps_entry_price p, current_pnl_bps p price) of
           (Some f, Some e, Some pnl) \<Rightarrow>
             if reason \<in> set time_budget_reasons \<and> 0 < e \<and> 0 < ps_size p \<and> 0 < pnl \<and>
                \<not> xc_should_allow_exit (check_exit_profitability f (ps_size p) e price (if pos_is_long p then ''long'' else ''short'') buffer False False None)
             then min m 0 else m
         | _ \<Rightarrow> m)"

definition should_defer_soft_exit ::
  "(py_data \<Rightarrow> string) \<Rightarrow> guard_rules \<Rightarrow> fee_config option \<Rightarrow> pyfloat \<Rightarrow> continuation_states \<Rightarrow> pos_core \<Rightarrow> string \<Rightarrow> pyfloat \<Rightarrow> pyfloat \<Rightarrow> py_data \<Rightarrow>
     continuation_states \<times> bool" where
  "should_defer_soft_exit text_of c fee buffer sts p reason price now pred =
     (if \<not> gr_continuation_gate_enabled c \<or> reason \<notin> set soft_reasons then (sts, False)
      else if (case ps_entry_price p of None \<Rightarrow> True | Some e \<Rightarrow> e \<le> 0) then (sts, False)
      else if \<not> reaches (current_pnl_bps p price) (defer_min_pnl c fee buffer p reason price) then (sts, False)
      else if \<not> py_truthy pred \<or> \<not> prediction_supports text_of c p now pred then (sts, False)
      else let symbol = ps_symbol p;
               fresh = \<lparr>cs_first_ts = now, cs_count = 0, cs_reason = reason\<rparr>;
               st = (case d_get sts symbol of Some s \<Rightarrow> if cs_reason s \<noteq> reason then fresh else s | None \<Rightarrow> fresh);
               sts1 = (if d_get sts symbol = Some st then sts else d_put sts symbol st);
               elapsed = max 0 (fsub now (f_or (cs_first_ts st) now))
      in if symbol_float_override (py_upper symbol) (gr_continuation_symbol_max_defer_sec c) (gr_continuation_max_defer_sec c) \<le> elapsed then (sts1, False)
         else if gr_continuation_max_defers c \<le> cs_count st then (sts1, False)
         else (d_put sts1 symbol (st\<lparr>cs_count := cs_count st + 1\<rparr>), True))"

section \<open>Trailing stops\<close>

text \<open>A trailing distance of at least a thousandth of a basis point is not lost in rounding.\<close>

lemma trigger_long:
  assumes "0 < price" "1 / 1000 \<le> bps"
  shows "fmul price (fsub 1 (fl (bps / 10000))) < price"
proof -
  have "is_float (1 * 2 powi - 24)" by (intro is_float_scale) (simp add: is_float_def)
  then have "1 / 2 ^ 24 \<le> fl (bps / 10000)" using assms(2) by (intro fl_ge) (simp_all add: power_int_minus field_simps)
  moreover have "is_float (of_int (2 ^ 24 - 1) * 2 powi - 24)" by (rule is_float_exact) simp
  ultimately have k: "fsub 1 (fl (bps / 10000)) \<le> 1 - 1 / 2 ^ 24"
    unfolding fsub_def by (intro fl_le) (simp_all add: power_int_minus field_simps)
  have "fmul price (fsub 1 (fl (bps / 10000))) \<le> fl (price * (1 - 1 / 2 ^ 24))"
    unfolding fmul_def using k assms(1) by (intro fl_mono mult_left_mono) simp_all
  also have "\<dots> \<le> price * (1 - 1 / 2 ^ 24) * (1 + 1 / 2 ^ 52)" using assms(1) by (intro fl_error) simp
  also have "\<dots> < price" using assms(1) by simp
  finally show ?thesis .
qed

lemma trigger_short:
  assumes "0 < price" "1 / 1000 \<le> bps"
  shows "price < fmul price (fadd 1 (fl (bps / 10000)))"
proof -
  have "is_float (1 * 2 powi - 24)" by (intro is_float_scale) (simp add: is_float_def)
  then have "1 / 2 ^ 24 \<le> fl (bps / 10000)" using assms(2) by (intro fl_ge) (simp_all add: power_int_minus field_simps)
  moreover have "is_float (of_int (2 ^ 24 + 1) * 2 powi - 24)" by (rule is_float_exact) simp
  ultimately have k: "1 + 1 / 2 ^ 24 \<le> fadd 1 (fl (bps / 10000))"
    unfolding fadd_def by (intro fl_ge) (simp_all add: power_int_minus field_simps)
  have "price < price * (1 + 1 / 2 ^ 24) * (1 - 1 / 2 ^ 52)" using assms(1) by simp
  also have "\<dots> \<le> fl (price * (1 + 1 / 2 ^ 24))" using assms(1) by (intro fl_error) simp
  also have "\<dots> \<le> fmul price (fadd 1 (fl (bps / 10000)))"
    unfolding fmul_def using k assms(1) by (intro fl_mono mult_left_mono) simp_all
  finally show ?thesis .
qed

lemma trailing_idle:
  assumes "0 < price" "gr_trailing_stop_bps c \<le> 0 \<or> 1 / 1000 \<le> gr_trailing_stop_bps c"
  shows "fst (trailing_rule c p price now []) = [] \<and> (snd (trailing_rule c p price now []) = None \<or> snd (trailing_rule c p price now []) = Some None)"
  using assms trigger_long [OF assms(1), of "gr_trailing_stop_bps c"] trigger_short [OF assms(1), of "gr_trailing_stop_bps c"]
  by (auto simp: trailing_rule_def check_trailing_stop_def d_get_or_def Let_def)

text \<open>Evaluations one after the other, with the reasons.\<close>

fun guard_evaluations ::
  "guard_rules \<Rightarrow> fee_config option \<Rightarrow> trailing_peaks \<Rightarrow> (pos_core \<times> pyfloat \<times> pyfloat) list \<Rightarrow> trailing_peaks \<times> string option list" where
  "guard_evaluations c fee peaks [] = (peaks, [])"
| "guard_evaluations c fee peaks ((p, price, now) # es) =
     (let (peaks1, r) = close_reason c fee p price now peaks; (peaks2, rs) = guard_evaluations c fee peaks1 es in (peaks2, r # rs))"

lemma rule_reasons:
  "protective_exit p price = Some r \<Longrightarrow> r = ''stop_loss_hit'' \<or> r = ''take_profit_hit''"
  "breakeven_rule c fee p price now = Some (Some r) \<Longrightarrow> r = ''breakeven_stop_hit''"
  "profit_lock_rule c p price now = Some (Some r) \<Longrightarrow> r = ''profit_lock_retrace''"
  "time_budget_rule c p now = Some r \<Longrightarrow> r \<in> {''max_hold_exceeded'', ''time_to_work_fail'', ''max_age_exceeded''}"
  by (auto simp: protective_exit_def breakeven_rule_def profit_lock_rule_def time_budget_rule_def Let_def split: if_splits option.splits)

lemma close_reason_idle:
  assumes "0 < price" "gr_trailing_stop_bps c \<le> 0 \<or> 1 / 1000 \<le> gr_trailing_stop_bps c"
  shows "fst (close_reason c fee p price now []) = [] \<and> snd (close_reason c fee p price now []) \<noteq> Some ''trailing_stop_hit''"
proof -
  obtain q where t: "trailing_rule c p price now [] = ([], q)" "q = None \<or> q = Some None"
    using trailing_idle [OF assms, of p now] by (cases "trailing_rule c p price now []") auto
  have other: "protective_exit p price \<noteq> Some ''trailing_stop_hit''" "breakeven_rule c fee p price now \<noteq> Some (Some ''trailing_stop_hit'')"
    "profit_lock_rule c p price now \<noteq> Some (Some ''trailing_stop_hit'')" "time_budget_rule c p now \<noteq> Some ''trailing_stop_hit''"
    by (auto dest: rule_reasons)
  define d1 d2 d3 d4 where "d1 = protective_exit p price" and "d2 = breakeven_rule c fee p price now"
    and "d3 = profit_lock_rule c p price now" and "d4 = time_budget_rule c p now"
  note ds = d1_def [symmetric] d2_def [symmetric] d3_def [symmetric] d4_def [symmetric]
  show ?thesis using other t(2) unfolding close_reason_def should_close_def t(1) ds
    by (cases d1; cases d2; cases d3; cases d4) (auto split: option.split)
qed

section \<open>Bounded postponement\<close>

definition rechecked :: "guard_rules \<Rightarrow> max_age_states \<Rightarrow> pos_core \<Rightarrow> pyfloat \<Rightarrow> bool" where
  "rechecked c sts p now =
     (0 < gr_max_position_age_sec c \<and> f_truthy (ps_opened_at p) \<and>
      (let opened = the (ps_opened_at p); st = d_get_or sts (ps_symbol p) (fresh_max_age c opened)
       in \<not> (0 < gr_max_age_hard_sec c \<and> fadd opened (gr_max_age_hard_sec c) \<le> now) \<and>
          f_or (ma_next_soft_deadline st) (fadd opened (gr_max_position_age_sec c)) \<le> now \<and>
          \<not> (0 < ma_last_recheck st \<and> fsub now (ma_last_recheck st) < max 1 (f_or (gr_max_age_recheck_sec c) 45))))"

text \<open>How often a position beyond its age is looked at and kept, until the first decision to close.\<close>

fun kept_rechecks ::
  "(py_data \<Rightarrow> string) \<Rightarrow> guard_rules \<Rightarrow> max_age_states \<Rightarrow> pos_core \<Rightarrow> (pyfloat \<times> pyfloat \<times> py_data) list \<Rightarrow> nat" where
  "kept_rechecks text_of c sts p [] = 0"
| "kept_rechecks text_of c sts p ((price, now, pred) # es) =
     (let (sts', r) = evaluate_max_age text_of c sts p price now pred
      in if r \<noteq> None then 0 else (if rechecked c sts p now then 1 else 0) + kept_rechecks text_of c sts' p es)"

definition confirms :: "guard_rules \<Rightarrow> int" where "confirms c = max 1 (gr_max_age_confirmations c)"
definition extensions :: "guard_rules \<Rightarrow> int" where "extensions c = max 0 (gr_max_age_max_extensions c)"

text \<open>What is left before a recheck closes.\<close>

definition patience :: "guard_rules \<Rightarrow> max_age_state \<Rightarrow> int" where
  "patience c st = (extensions c - ma_extensions_used st) * confirms c + (confirms c - 1 - ma_fail_count st)"

definition max_age_ok :: "guard_rules \<Rightarrow> max_age_state \<Rightarrow> bool" where
  "max_age_ok c st = (0 \<le> ma_fail_count st \<and> ma_fail_count st < confirms c \<and> ma_extensions_used st \<le> extensions c)"

lemma patience_nonneg: "max_age_ok c st \<Longrightarrow> 0 \<le> patience c st"
proof -
  assume ok: "max_age_ok c st"
  have "0 < confirms c" by (simp add: confirms_def)
  with ok have "0 \<le> (extensions c - ma_extensions_used st) * confirms c" by (intro mult_nonneg_nonneg) (simp_all add: max_age_ok_def)
  with ok show ?thesis by (simp add: patience_def max_age_ok_def)
qed

lemma recheck_patience:
  assumes "max_age_ok c st" "recheck_max_age text_of c hard soft_at st p price now pred = (st', False)"
  shows "max_age_ok c st' \<and> patience c st' < patience c st"
proof -
  have c: "0 < confirms c" by (simp add: confirms_def)
  have "ma_extensions_used st' = ma_extensions_used st + 1 \<and> ma_fail_count st' = 0 \<and> ma_extensions_used st < extensions c \<or>
      ma_extensions_used st' = ma_extensions_used st \<and> ma_fail_count st' = ma_fail_count st + 1 \<and> ma_fail_count st + 1 < confirms c"
    using assms(2) by (auto simp: recheck_max_age_def confirms_def extensions_def Let_def split: if_splits)
  then show ?thesis
  proof
    assume *: "ma_extensions_used st' = ma_extensions_used st + 1 \<and> ma_fail_count st' = 0 \<and> ma_extensions_used st < extensions c"
    then have "patience c st' = (extensions c - ma_extensions_used st) * confirms c - 1" by (simp add: patience_def algebra_simps)
    with * assms(1) c show ?thesis by (auto simp: patience_def max_age_ok_def)
  next
    assume "ma_extensions_used st' = ma_extensions_used st \<and> ma_fail_count st' = ma_fail_count st + 1 \<and> ma_fail_count st + 1 < confirms c"
    with assms(1) show ?thesis by (simp add: patience_def max_age_ok_def)
  qed
qed

lemma evaluate_patience:
  assumes "max_age_ok c (d_get_or sts (ps_symbol p) (fresh_max_age c (the (ps_opened_at p))))"
    and "evaluate_max_age text_of c sts p price now pred = (sts', None)"
  shows "max_age_ok c (d_get_or sts' (ps_symbol p) (fresh_max_age c (the (ps_opened_at p)))) \<and>
     patience c (d_get_or sts' (ps_symbol p) (fresh_max_age c (the (ps_opened_at p)))) + (if rechecked c sts p now then 1 else 0)
       \<le> patience c (d_get_or sts (ps_symbol p) (fresh_max_age c (the (ps_opened_at p))))"
proof -
  let ?st = "d_get_or sts (ps_symbol p) (fresh_max_age c (the (ps_opened_at p)))"
  let ?soft = "f_or (ma_next_soft_deadline ?st) (fadd (the (ps_opened_at p)) (gr_max_position_age_sec c))"
  let ?hard = "if 0 < gr_max_age_hard_sec c then Some (fadd (the (ps_opened_at p)) (gr_max_age_hard_sec c)) else None"
  have on: "0 < gr_max_position_age_sec c" "f_truthy (ps_opened_at p)"
    using assms(2) by (auto simp: evaluate_max_age_def split: if_splits)
  have nohard: "\<not> (0 < gr_max_age_hard_sec c \<and> fadd (the (ps_opened_at p)) (gr_max_age_hard_sec c) \<le> now)"
    using assms(2) on by (auto simp: evaluate_max_age_def Let_def split: if_splits)
  show ?thesis
  proof (cases "rechecked c sts p now")
    case True
    then have "?soft \<le> now" "\<not> (0 < ma_last_recheck ?st \<and> fsub now (ma_last_recheck ?st) < max 1 (f_or (gr_max_age_recheck_sec c) 45))"
      by (simp_all add: rechecked_def Let_def)
    moreover obtain st' b where r: "recheck_max_age text_of c ?hard ?soft ?st p price now pred = (st', b)" by force
    ultimately have e: "evaluate_max_age text_of c sts p price now pred =
        (d_put (d_put sts (ps_symbol p) ?st) (ps_symbol p) st', if b then Some ''max_age_exceeded'' else None)"
      using on nohard by (auto simp: evaluate_max_age_def Let_def not_less)
    with assms(2) have b: "b = False" "sts' = d_put (d_put sts (ps_symbol p) ?st) (ps_symbol p) st'" by (auto split: if_splits)
    from recheck_patience [OF assms(1) r [unfolded b(1)]] b(2) True show ?thesis by (simp add: d_get_or_def)
  next
    case False
    with on nohard have "now < ?soft \<or> 0 < ma_last_recheck ?st \<and> fsub now (ma_last_recheck ?st) < max 1 (f_or (gr_max_age_recheck_sec c) 45)"
      by (auto simp: rechecked_def Let_def not_less)
    with assms(2) on nohard have "sts' = d_put sts (ps_symbol p) ?st" by (auto simp: evaluate_max_age_def Let_def split: if_splits)
    with assms(1) False show ?thesis by (simp add: d_get_or_def)
  qed
qed

lemma kept_bound:
  "max_age_ok c (d_get_or sts (ps_symbol p) (fresh_max_age c (the (ps_opened_at p)))) \<Longrightarrow>
     int (kept_rechecks text_of c sts p es) \<le> patience c (d_get_or sts (ps_symbol p) (fresh_max_age c (the (ps_opened_at p))))"
proof (induction es arbitrary: sts)
  case Nil
  then show ?case by (simp add: patience_nonneg)
next
  case (Cons e es)
  obtain price now pred where e: "e = (price, now, pred)" by (cases e) auto
  obtain sts' r where ev: "evaluate_max_age text_of c sts p price now pred = (sts', r)" by force
  show ?case
  proof (cases r)
    case None
    from evaluate_patience [OF Cons.prems ev [unfolded None]] Cons.IH [of sts'] show ?thesis
      by (auto simp: e ev None)
  qed (simp add: e ev Cons.prems patience_nonneg)
qed

lemma evaluations_idle:
  assumes "gr_trailing_stop_bps c \<le> 0 \<or> 1 / 1000 \<le> gr_trailing_stop_bps c" "\<forall>(p, price, now) \<in> set es. 0 < price"
  shows "fst (guard_evaluations c fee [] es) = [] \<and> Some ''trailing_stop_hit'' \<notin> set (snd (guard_evaluations c fee [] es))"
  using assms(2)
proof (induction es)
  case (Cons e es)
  obtain p price now where e: "e = (p, price, now)" by (cases e) auto
  then have "0 < price" using Cons.prems by simp
  from close_reason_idle [OF this assms(1), of fee p now] Cons show ?case
    by (cases "close_reason c fee p price now []") (auto simp: e case_prod_beta)
qed simp

section \<open>Properties\<close>

text \<open>C37: The trailing stop never fires: the peak of a position is only stored when the price exceeds the stored one, and the default for
  a missing one is the price itself.  From the start of the worker, over any evaluations of any positions at positive prices, no
  peak is ever stored and no evaluation ends with a trailing stop, for any trailing distance of at least a thousandth
  of a basis point.\<close>

theorem trailing_stop_never_fires:
  assumes "1 / 1000 \<le> gr_trailing_stop_bps c" and "\<forall>(p, price, now) \<in> set evaluations. 0 < price"
  shows "guard_evaluations c fee [] evaluations = ([], snd (guard_evaluations c fee [] evaluations)) \<and>
     Some ''trailing_stop_hit'' \<notin> set (snd (guard_evaluations c fee [] evaluations))"
  using evaluations_idle [of c evaluations fee] assms by (metis prod.collapse)

lemma stop_loss_rule:
  "(snd (close_reason c fee p price now peaks) = Some ''stop_loss_hit'' \<longleftrightarrow>
      (\<exists>s. ps_stop_loss p = Some s \<and> (pos_is_long p \<and> price \<le> s \<or> pos_is_short p \<and> s \<le> price))) \<and>
   apply_fee_check fee buffer slippage p price ''stop_loss_hit'' = None \<and>
   should_defer_soft_exit text_of c fee buffer sts p ''stop_loss_hit'' price now pred = (sts, False)"
proof -
  have "r \<noteq> ''stop_loss_hit''" if "snd (trailing_rule c p price now peaks) = Some (Some r)" for r
    using that by (auto simp: trailing_rule_def check_trailing_stop_def Let_def split: if_splits)
  then have "protective_exit p price = Some ''stop_loss_hit''" if "snd (close_reason c fee p price now peaks) = Some ''stop_loss_hit''"
    using that by (auto simp: close_reason_def should_close_def dest: rule_reasons split: option.splits prod.splits if_splits)
  moreover have "snd (close_reason c fee p price now peaks) = Some ''stop_loss_hit''" if "protective_exit p price = Some ''stop_loss_hit''"
    using that by (simp add: close_reason_def should_close_def)
  moreover have "protective_exit p price = Some ''stop_loss_hit'' \<longleftrightarrow>
      (\<exists>s. ps_stop_loss p = Some s \<and> (pos_is_long p \<and> price \<le> s \<or> pos_is_short p \<and> s \<le> price))"
    by (auto simp: protective_exit_def Let_def split: option.split)
  ultimately show ?thesis
    by (auto simp: apply_fee_check_def should_defer_soft_exit_def soft_reasons_def split: option.split)
qed

text \<open>A stop loss is never put off: at a price on the wrong side of the stop the reason is the stop loss, whatever the other
  rules, the peaks and the time say, and neither the fee check nor the continuation gate applies to it; and it is the reason at
  no other price.\<close>

theorem stop_loss_comes_first:
  "(snd (close_reason c fee p price now peaks) = Some ''stop_loss_hit'' \<longleftrightarrow>
      (\<exists>s. ps_stop_loss p = Some s \<and> (pos_is_long p \<and> price \<le> s \<or> pos_is_short p \<and> s \<le> price))) \<and>
   apply_fee_check fee buffer slippage p price ''stop_loss_hit'' = None \<and>
   should_defer_soft_exit text_of c fee buffer sts p ''stop_loss_hit'' price now pred = (sts, False)"
  by (rule stop_loss_rule)

text \<open>An active trailing stop switches the time budgets off: without an activation threshold and without a minimal holding time
  no position is ever closed for its own maximal holding time or for not having worked in time; only the age limit
  remains, by the worker's fallback.\<close>

theorem trailing_hides_time_budgets:
  assumes "1 / 1000 \<le> gr_trailing_stop_bps c" and "gr_trailing_activation_bps c \<le> 0"
  shows "snd (close_reason c fee p price now peaks) \<notin> {Some ''max_hold_exceeded'', Some ''time_to_work_fail''}"
proof -
  have t: "snd (trailing_rule c p price now peaks) \<noteq> None" "snd (trailing_rule c p price now peaks) \<noteq> Some (Some r)" if "r \<noteq> ''trailing_stop_hit''" for r
    using assms that by (auto simp: trailing_rule_def check_trailing_stop_def Let_def split: prod.splits if_splits)
  show ?thesis
  proof
    assume "snd (close_reason c fee p price now peaks) \<in> {Some ''max_hold_exceeded'', Some ''time_to_work_fail''}"
    then show False using t [of "''max_hold_exceeded''"] t [of "''time_to_work_fail''"]
      by (auto simp: close_reason_def should_close_def dest: rule_reasons split: option.splits prod.splits if_splits)
  qed
qed

text \<open>C38: A position beyond its age is not kept for ever: until the first decision to close it is looked at again at most once less than
  the number of confirmations times one more than the number of extensions, however prices and predictions change.\<close>

theorem max_age_rechecks_bounded:
  assumes "d_get sts (ps_symbol p) = None"
  shows "int (kept_rechecks text_of c sts p ticks) < (extensions c + 1) * confirms c"
proof -
  let ?st = "d_get_or sts (ps_symbol p) (fresh_max_age c (the (ps_opened_at p)))"
  have "?st = fresh_max_age c (the (ps_opened_at p))" using assms by (simp add: d_get_or_def)
  then have "max_age_ok c ?st" "patience c ?st < (extensions c + 1) * confirms c"
    by (simp_all add: max_age_ok_def patience_def fresh_max_age_def confirms_def extensions_def algebra_simps)
  with kept_bound [of c sts p text_of ticks] show ?thesis by simp
qed

text \<open>The hard limit closes at once.\<close>

lemma hard_age_closes:
  assumes "0 < gr_max_position_age_sec c" "ps_opened_at p = Some t" "t \<noteq> 0" "0 < gr_max_age_hard_sec c" "fadd t (gr_max_age_hard_sec c) \<le> now"
  shows "snd (evaluate_max_age text_of c sts p price now pred) = Some ''max_age_hard_exceeded''"
  using assms by (simp add: evaluate_max_age_def f_truthy_def Let_def)

section \<open>Examples\<close>

definition sample_position :: pos_core where
  "sample_position = (position_args ''BTCUSDT'' ''long'' 1)\<lparr>ps_entry_price := Some 100, ps_stop_loss := Some 90, ps_opened_at := Some 1000,
     ps_max_hold_sec := Some 60\<rparr>"

definition trailing_rules :: guard_rules where
  "trailing_rules = default_guard_rules\<lparr>gr_trailing_stop_bps := 50\<rparr>"

theorem trailing_stop_never_fires_witness:
  "guard_evaluations trailing_rules None [] [(sample_position, 120, 1001), (sample_position, 95, 1002)] = ([], [None, None])"
proof -
  let ?es = "[(sample_position, 120 :: pyfloat, 1001 :: pyfloat), (sample_position, 95, 1002)]"
  have "1 / 1000 \<le> gr_trailing_stop_bps trailing_rules" "\<forall>(p, price, now) \<in> set ?es. 0 < price"
    by (simp_all add: trailing_rules_def default_guard_rules_def)
  from trailing_stop_never_fires [OF this, of None] have "fst (guard_evaluations trailing_rules None [] ?es) = []" by (metis fst_conv)
  moreover have "snd (guard_evaluations trailing_rules None [] ?es) = [None, None]" by code_simp
  ultimately show ?thesis by (metis prod.collapse)
qed

theorem trailing_hides_time_budgets_witness:
  "snd (close_reason default_guard_rules None sample_position 101 2000 []) = Some ''max_hold_exceeded'' \<and>
   snd (close_reason trailing_rules None sample_position 101 2000 []) \<notin> {Some ''max_hold_exceeded'', Some ''time_to_work_fail''}"
proof
  show "snd (close_reason default_guard_rules None sample_position 101 2000 []) = Some ''max_hold_exceeded''" by code_simp
  show "snd (close_reason trailing_rules None sample_position 101 2000 []) \<notin> {Some ''max_hold_exceeded'', Some ''time_to_work_fail''}"
    by (rule trailing_hides_time_budgets) (simp_all add: trailing_rules_def default_guard_rules_def)
qed

theorem max_age_rechecks_bounded_witness:
  "kept_rechecks (\<lambda>_. []) (default_guard_rules\<lparr>gr_max_position_age_sec := 60, gr_max_age_confirmations := 3\<rparr>) [] sample_position
     [(101, 1100, DNone), (101, 1200, DNone), (101, 1300, DNone), (101, 1400, DNone)] < 3"
  using max_age_rechecks_bounded [of "[]" sample_position "\<lambda>_. []" "default_guard_rules\<lparr>gr_max_position_age_sec := 60, gr_max_age_confirmations := 3\<rparr>"
    "[(101, 1100, DNone), (101, 1200, DNone), (101, 1300, DNone), (101, 1400, DNone)]"]
  by (simp add: extensions_def confirms_def default_guard_rules_def)

end
