(* ===== verification/Executions.thy ===== *)
theory Executions
  imports Py_Data
begin

text \<open>
  The pure helpers of quantgambit/execution/manager.py that positions are closed with: the classes of an order's status, the
  profit of a closed position, and the summary of an order's trades.  Trades are dictionaries of the exchange; a trade that is not
  a dictionary is skipped.  A trade's own id may have any type, so it is compared as a value.
\<close>

section \<open>Statuses and profit\<close>

definition is_filled_status :: "string \<Rightarrow> bool" where
  "is_filled_status s = (py_lower s \<in> {''filled'', ''complete'', ''done''})"

definition is_partial_status :: "string \<Rightarrow> bool" where
  "is_partial_status s = (py_lower s \<in> {''partial'', ''partially_filled'', ''partiallyfilled''})"

definition is_rejected_status :: "string \<Rightarrow> bool" where
  "is_rejected_status s = (py_lower s \<in> {''rejected'', ''canceled'', ''cancelled'', ''expired'', ''failed''})"

record pnl_breakdown =
  pb_gross :: "pyfloat option"
  pb_net :: "pyfloat option"
  pb_net_pct :: "pyfloat option"
  pb_total_fees :: "pyfloat option"

definition compute_pnl_breakdown ::
  "pyfloat option \<Rightarrow> pyfloat option \<Rightarrow> pyfloat \<Rightarrow> string \<Rightarrow> pyfloat option \<Rightarrow> pyfloat option \<Rightarrow> pnl_breakdown" where
  "compute_pnl_breakdown entry exit_price sz side entry_fee exit_fee =
     (case (entry, exit_price) of
        (Some e, Some x) \<Rightarrow>
          if e \<le> 0 \<or> sz \<le> 0 then \<lparr>pb_gross = None, pb_net = None, pb_net_pct = None, pb_total_fees = None\<rparr>
          else let gross = (if py_lower side \<in> {''short'', ''sell''} then fmul (fsub e x) sz else fmul (fsub x e) sz);
                   fees = (if entry_fee \<noteq> None \<or> exit_fee \<noteq> None then Some (fadd (fo_or entry_fee 0) (fo_or exit_fee 0)) else None);
                   net = (case fees of None \<Rightarrow> gross | Some f \<Rightarrow> fsub gross f)
               in \<lparr>pb_gross = Some gross, pb_net = Some net, pb_net_pct = Some (fmul (fl (net / fmul e sz)) 100), pb_total_fees = fees\<rparr>
      | _ \<Rightarrow> \<lparr>pb_gross = None, pb_net = None, pb_net_pct = None, pb_total_fees = None\<rparr>)"

definition compute_realized_pnl ::
  "pyfloat option \<Rightarrow> pyfloat option \<Rightarrow> pyfloat \<Rightarrow> string \<Rightarrow> pyfloat option \<Rightarrow> pyfloat option \<Rightarrow> pyfloat option \<times> pyfloat option" where
  "compute_realized_pnl entry exit_price sz side fee entry_fee =
     (let b = compute_pnl_breakdown entry exit_price sz side entry_fee fee in (pb_net b, pb_net_pct b))"

definition sum_cost_bps :: "pyfloat option list \<Rightarrow> pyfloat option" where
  "sum_cost_bps vs = (let present = List.map_filter id vs in if present = [] then None else Some (fsum present))"

section \<open>Trades\<close>

text \<open>\<open>d.get(k1) or d.get(k2) or \<dots>\<close>, whose value is the last operand when all are falsy.\<close>

fun first_truthy :: "py_data list \<Rightarrow> py_data" where
  "first_truthy [] = DNone"
| "first_truthy [x] = x"
| "first_truthy (x # y # xs) = py_or x (first_truthy (y # xs))"

definition field_values :: "py_data \<Rightarrow> string list \<Rightarrow> py_data list" where
  "field_values d ks = map (\<lambda>k. get_field d k DNone) ks"

text \<open>The trade's \<open>info\<close>, of which only dictionaries are looked into.\<close>

definition info_of :: "py_data \<Rightarrow> py_data option" where
  "info_of trade = (let i = get_field trade ''info'' DNone in if is_dict i then Some i else None)"

definition info_field :: "py_data \<Rightarrow> string \<Rightarrow> py_data" where
  "info_field trade k = (case info_of trade of Some i \<Rightarrow> get_field i k DNone | None \<Rightarrow> DNone)"

definition extract_trade_order_id :: "py_data \<Rightarrow> py_data" where
  "extract_trade_order_id trade = (case info_of trade of
       Some i \<Rightarrow> first_truthy (field_values i [''orderId'', ''order_id'', ''orderID'', ''ordId''])
     | None \<Rightarrow> first_truthy (field_values trade [''order'', ''orderId'']))"

definition extract_trade_client_order_id :: "py_data \<Rightarrow> py_data" where
  "extract_trade_client_order_id trade = (case info_of trade of
       Some i \<Rightarrow> first_truthy (field_values i [''orderLinkId'', ''clientOrderId'', ''client_order_id''])
     | None \<Rightarrow> first_truthy (field_values trade [''clientOrderId'', ''client_order_id'']))"

definition extract_trade_fee_usd :: "py_data \<Rightarrow> pyfloat option" where
  "extract_trade_fee_usd trade =
     (let fee = get_field trade ''fee'' DNone
      in if is_dict fee then py_to_float (first_truthy (field_values fee [''cost'', ''fee'']))
         else let v = first_truthy (field_values trade [''fee'', ''commission''])
         in if v \<noteq> DNone then py_to_float v
            else (case info_of trade of
                Some i \<Rightarrow> py_to_float (first_truthy (field_values i [''execFee'', ''fee'', ''commission'']))
              | None \<Rightarrow> None))"

definition coerce_epoch_sec :: "py_data \<Rightarrow> pyfloat option" where
  "coerce_epoch_sec v = map_option (\<lambda>ts. if 10 ^ 12 < ts then fl (ts / 1000) else ts) (py_to_float v)"

definition trade_matches :: "string option \<Rightarrow> string option \<Rightarrow> py_data \<Rightarrow> bool" where
  "trade_matches oid cid trade = (is_dict trade \<and>
     (\<not> s_truthy oid \<and> \<not> s_truthy cid \<or>
      s_truthy oid \<and> extract_trade_order_id trade = DStr (the oid) \<or>
      s_truthy cid \<and> extract_trade_client_order_id trade = DStr (the cid)))"

record trade_totals =
  tt_qty :: pyfloat
  tt_cost :: pyfloat
  tt_price_qty :: pyfloat
  tt_fees :: pyfloat
  tt_fee_found :: bool
  tt_latest :: "pyfloat option"

definition add_trade :: "py_data \<Rightarrow> trade_totals \<Rightarrow> trade_totals" where
  "add_trade trade t =
     (let qty = py_to_float (first_truthy (field_values trade [''amount'', ''qty'', ''size''] @ [info_field trade ''execQty'']));
          price = py_to_float (first_truthy (field_values trade [''price'', ''avgPrice''] @ [info_field trade ''execPrice'']));
          cost0 = py_to_float (first_truthy (field_values trade [''cost'', ''quoteQty''] @ [info_field trade ''execValue'']));
          cost = (case (cost0, qty, price) of (None, Some q, Some p) \<Rightarrow> Some (fmul q p) | _ \<Rightarrow> cost0);
          fee = extract_trade_fee_usd trade;
          ts0 = first_truthy (field_values trade [''timestamp'', ''ts'']);
          ts = coerce_epoch_sec (if ts0 = DNone then info_field trade ''execTime'' else ts0)
      in t\<lparr>tt_qty := (case qty of Some q \<Rightarrow> fadd (tt_qty t) q | None \<Rightarrow> tt_qty t),
           tt_price_qty := (case (qty, price) of (Some q, Some p) \<Rightarrow> fadd (tt_price_qty t) (fmul q p) | _ \<Rightarrow> tt_price_qty t),
           tt_cost := (case cost of Some k \<Rightarrow> fadd (tt_cost t) k | None \<Rightarrow> tt_cost t),
           tt_fees := (case fee of Some f \<Rightarrow> fadd (tt_fees t) f | None \<Rightarrow> tt_fees t),
           tt_fee_found := (tt_fee_found t \<or> fee \<noteq> None),
           tt_latest := (case (ts, tt_latest t) of
               (Some s, None) \<Rightarrow> Some s | (Some s, Some l) \<Rightarrow> Some (if l < s then s else l) | (None, l) \<Rightarrow> l)\<rparr>)"

definition no_trades :: trade_totals where
  "no_trades = \<lparr>tt_qty = 0, tt_cost = 0, tt_price_qty = 0, tt_fees = 0, tt_fee_found = False, tt_latest = None\<rparr>"

record execution_summary =
  es_avg_price :: "pyfloat option"
  es_total_qty :: pyfloat
  es_total_fees_usd :: "pyfloat option"
  es_exit_timestamp :: "pyfloat option"
  es_trade_count :: nat

definition aggregate_execution_trades :: "py_data list \<Rightarrow> string option \<Rightarrow> string option \<Rightarrow> execution_summary option" where
  "aggregate_execution_trades trades oid cid =
     (let matched = filter (trade_matches oid cid) trades; t = fold add_trade matched no_trades
      in if matched = [] \<or> tt_qty t \<le> 0 then None
         else Some \<lparr>es_avg_price = (if 0 < tt_price_qty t then Some (fl (tt_price_qty t / tt_qty t))
                       else if 0 < tt_cost t then Some (fl (tt_cost t / tt_qty t)) else None),
                    es_total_qty = tt_qty t, es_total_fees_usd = (if tt_fee_found t then Some (tt_fees t) else None),
                    es_exit_timestamp = tt_latest t, es_trade_count = length matched\<rparr>)"

text \<open>The exchange is asked for an order's trades if it can be and the order has an id; an exception reads as no summary.\<close>

definition reconcile_execution :: "(py_error + py_data list) option \<Rightarrow> string option \<Rightarrow> string option \<Rightarrow> execution_summary option" where
  "reconcile_execution fetched oid cid =
     (if \<not> s_truthy oid \<and> \<not> s_truthy cid then None
      else case fetched of Some (Inr trades) \<Rightarrow> aggregate_execution_trades trades oid cid | _ \<Rightarrow> None)"

section \<open>Library\<close>

lemma status_classes:
  "\<not> (is_filled_status s \<and> is_partial_status s)" "\<not> (is_filled_status s \<and> is_rejected_status s)"
  "\<not> (is_partial_status s \<and> is_rejected_status s)"
  by (auto simp: is_filled_status_def is_partial_status_def is_rejected_status_def)

text \<open>A long and a short position with the same prices have opposite gross profits.\<close>

lemma gross_antisymmetric:
  assumes "0 < e" "0 < sz"
  shows "pb_gross (compute_pnl_breakdown (Some e) (Some x) sz ''long'' f g) =
     map_option uminus (pb_gross (compute_pnl_breakdown (Some e) (Some x) sz ''short'' f g))"
proof -
  have "fsub x e = - fsub e x" unfolding fsub_def fl_minus [symmetric] by simp
  then have "fmul (fsub x e) sz = - fmul (fsub e x) sz" unfolding fmul_def fl_minus [symmetric] by simp
  moreover have "py_lower ''long'' = ''long''" "py_lower ''short'' = ''short''" by code_simp+
  ultimately show ?thesis using assms by (simp add: compute_pnl_breakdown_def Let_def)
qed

text \<open>A trade with a cost and without a price counts in the quantity only, so it drags the average price down.\<close>

lemma unpriced_trade_halves_average:
  "map_option es_avg_price (aggregate_execution_trades
     [DDict [(''order'', DStr ''o1''), (''amount'', DInt 1), (''price'', DInt 100)],
      DDict [(''order'', DStr ''o1''), (''amount'', DInt 1), (''cost'', DInt 100)]] (Some ''o1'') None) = Some (Some 50)"
  by code_simp

end
