(* ===== verification/Position_Guard.thy ===== *)
theory Position_Guard
  imports Guard_Rules Executions Guards Order_Store
begin

text \<open>
  The worker of the position guard (quantgambit/execution/position_guard_worker.py): one tick over the open positions, the check
  of the protection at the exchange, and the closing of a position.  The exchange, the clock, the claims of the idempotency store and the live
  predictions are an environment with a state of its own type, of which nothing is assumed; its answers may be exceptions.
  A run of a method is a function from the world to the world and an exception or a result, so an exception keeps
  what was changed before it.  Requests to the exchange and published events are appended to a log; the order
  and lifecycle events are kept with the figures the worker computes for them.  Logging, the text of alerts and the attribution of
  entries are left out.
\<close>

section \<open>The worker and its environment\<close>

record guard_settings =
  gs_rules :: guard_rules
  gs_close_dedupe_ttl_sec :: int
  gs_tp_limit_fill_window_ms :: int
  gs_tp_limit_poll_interval_ms :: int
  gs_tp_limit_time_in_force :: string
  gs_fee_model :: "fee_config option"
  gs_min_profit_buffer_bps :: pyfloat
  gs_fee_check_slippage_bps :: pyfloat
  gs_bot_id :: string
  gs_exchange_id :: string
  gs_idempotent :: bool
  gs_telemetry :: bool
  gs_alerts :: bool
  gs_kill_switch :: bool
  gs_snapshot_reader :: bool

record close_request =
  cq_symbol :: string
  cq_side :: string
  cq_size :: pyfloat
  cq_client_order_id :: string
  cq_limit :: "(pyfloat \<times> string) option"

record exit_path =
  ep_path :: string
  ep_attempted :: bool
  ep_filled :: bool
  ep_fallback :: bool
  ep_limit_price :: "pyfloat option"

record close_report =
  cp_symbol :: string
  cp_side :: string
  cp_size :: pyfloat
  cp_status :: string
  cp_reason :: string
  cp_slippage_bps :: "pyfloat option"
  cp_fee_usd :: "pyfloat option"
  cp_exit_price :: "pyfloat option"
  cp_exit_timestamp :: pyfloat
  cp_pnl :: pnl_breakdown
  cp_entry_fee_bps :: "pyfloat option"
  cp_exit_fee_bps :: "pyfloat option"
  cp_total_cost_bps :: "pyfloat option"
  cp_path :: exit_path
  cp_hold_time_sec :: "pyfloat option"

datatype guard_output =
    Ask_Close close_request
  | Ask_Cancel "string option" string string
  | Kill_Switch_Triggered string
  | Order_Event close_report
  | Closed_Event close_report
  | Unfilled_Event string string string
  | Guard_Alert string string "pyfloat option" pnl_breakdown "pyfloat option"

text \<open>One pass of a polling loop: the clock before it, and the answers by exchange id and by client id.\<close>

type_synonym poll_pass = "pyfloat \<times> (py_error + order_status option) \<times> (py_error + order_status option)"

record 'x guard_env =
  ge_now :: "'x \<Rightarrow> 'x \<times> pyfloat"
  ge_reference_price :: "'x \<Rightarrow> string \<Rightarrow> pyfloat option"
  ge_best_bid_ask :: "'x \<Rightarrow> string \<Rightarrow> pyfloat option \<times> pyfloat option"
  ge_fetch_positions :: "'x \<Rightarrow> string \<Rightarrow> 'x \<times> (py_error + py_data list) option"
  ge_close_position :: "'x \<Rightarrow> close_request \<Rightarrow> 'x \<times> (py_error + order_status)"
  ge_cancel_order :: "'x \<Rightarrow> string option \<Rightarrow> string \<Rightarrow> string \<Rightarrow> 'x \<times> (py_error + order_status)"
  ge_poll :: "'x \<Rightarrow> 'x \<times> poll_pass list"
  ge_fetch_executions :: "'x \<Rightarrow> string \<Rightarrow> 'x \<times> (py_error + py_data list) option"
  ge_claim :: "'x \<Rightarrow> string \<Rightarrow> 'x \<times> (py_error + bool)"
  ge_prediction :: "'x \<Rightarrow> string \<Rightarrow> py_data \<times> py_data"
  ge_kill_switch :: "'x \<Rightarrow> 'x \<times> (py_error + bool)"
  ge_text_of :: "py_data \<Rightarrow> string"
  ge_float_text :: "pyfloat \<Rightarrow> string"
  ge_sha256 :: "string \<Rightarrow> string"

record 'x guard_world =
  gw_peaks :: trailing_peaks
  gw_closing :: "string list"
  gw_continuation :: continuation_states
  gw_max_age :: max_age_states
  gw_positions :: state_manager
  gw_log :: "guard_output list"
  gw_outside :: 'x

type_synonym ('x, 'a) guard_run = "'x guard_world \<Rightarrow> 'x guard_world \<times> (py_error + 'a)"

definition guard_world_init :: "state_manager \<Rightarrow> 'x \<Rightarrow> 'x guard_world" where
  "guard_world_init m x = \<lparr>gw_peaks = [], gw_closing = [], gw_continuation = [], gw_max_age = [], gw_positions = m, gw_log = [], gw_outside = x\<rparr>"

definition g_return :: "'a \<Rightarrow> ('x, 'a) guard_run" where "g_return a w = (w, Inr a)"

definition g_then :: "('x, 'a) guard_run \<Rightarrow> ('a \<Rightarrow> ('x, 'b) guard_run) \<Rightarrow> ('x, 'b) guard_run" where
  "g_then m f w = (case m w of (w', Inl e) \<Rightarrow> (w', Inl e) | (w', Inr a) \<Rightarrow> f a w')"

definition g_change :: "('x guard_world \<Rightarrow> 'x guard_world) \<Rightarrow> ('x, unit) guard_run" where "g_change f w = (f w, Inr ())"

definition g_read :: "('x guard_world \<Rightarrow> 'a) \<Rightarrow> ('x, 'a) guard_run" where "g_read f w = (w, Inr (f w))"

text \<open>\<open>try \<dots> finally\<close> with a clean-up that does not raise, and \<open>try \<dots> except Exception\<close>.\<close>

definition g_finally :: "('x, 'a) guard_run \<Rightarrow> ('x guard_world \<Rightarrow> 'x guard_world) \<Rightarrow> ('x, 'a) guard_run" where
  "g_finally m f w = (case m w of (w', r) \<Rightarrow> (f w', r))"

definition g_catch :: "('x, 'a) guard_run \<Rightarrow> 'a \<Rightarrow> ('x, 'a) guard_run" where
  "g_catch m a w = (case m w of (w', Inl e) \<Rightarrow> (w', Inr a) | (w', Inr b) \<Rightarrow> (w', Inr b))"

text \<open>A call of the environment.\<close>

definition g_call :: "('x \<Rightarrow> 'x \<times> (py_error + 'a)) \<Rightarrow> ('x, 'a) guard_run" where
  "g_call f w = (case f (gw_outside w) of (x, r) \<Rightarrow> (w\<lparr>gw_outside := x\<rparr>, r))"

definition g_ask :: "('x \<Rightarrow> 'x \<times> 'a) \<Rightarrow> ('x, 'a) guard_run" where
  "g_ask f w = (case f (gw_outside w) of (x, a) \<Rightarrow> (w\<lparr>gw_outside := x\<rparr>, Inr a))"

definition g_emit :: "guard_output \<Rightarrow> ('x, unit) guard_run" where
  "g_emit ev = g_change (\<lambda>w. w\<lparr>gw_log := gw_log w @ [ev]\<rparr>)"

definition change_positions :: "(state_manager \<Rightarrow> state_manager) \<Rightarrow> ('x, unit) guard_run" where
  "change_positions f = g_change (\<lambda>w. w\<lparr>gw_positions := f (gw_positions w)\<rparr>)"

fun g_each :: "('a \<Rightarrow> ('x, unit) guard_run) \<Rightarrow> 'a list \<Rightarrow> ('x, unit) guard_run" where
  "g_each f [] = g_return ()"
| "g_each f (p # ps) = g_then (f p) (\<lambda>_. g_each f ps)"

section \<open>Prices and identifiers\<close>

definition reference_price :: "'x guard_env \<Rightarrow> pos_core \<Rightarrow> 'x guard_world \<Rightarrow> pyfloat option" where
  "reference_price env p w = (case ge_reference_price env (gw_outside w) (ps_symbol p) of None \<Rightarrow> ps_reference_price p | Some x \<Rightarrow> Some x)"

definition tp_limit_price :: "guard_rules \<Rightarrow> pos_core \<Rightarrow> pyfloat option \<times> pyfloat option \<Rightarrow> pyfloat option \<Rightarrow> pyfloat option" where
  "tp_limit_price c p book ref =
     (let buffer = fl (max 0 (gr_tp_limit_price_buffer_bps c) / 10000); quot = (if pos_is_long p then fst book else snd book);
          base = (case quot of Some q \<Rightarrow> if 0 < q then Some q else ref | None \<Rightarrow> ref)
      in case base of
           None \<Rightarrow> None
         | Some b \<Rightarrow> if b \<le> 0 then None else Some (fmul b (if pos_is_long p then fsub 1 buffer else fadd 1 buffer)))"

definition guard_client_order_id ::
  "(string \<Rightarrow> string) \<Rightarrow> (pyfloat \<Rightarrow> string) \<Rightarrow> string \<Rightarrow> pos_core \<Rightarrow> string \<Rightarrow> int \<Rightarrow> string" where
  "guard_client_order_id sha show_float bot_id p reason bucket =
     ''qg-guard-'' @ take 16 (sha (''guard:'' @ bot_id @ '':'' @ ps_symbol p @ '':'' @ ps_side p @ '':'' @ show_float (ps_size p) @
       '':'' @ reason @ '':'' @ int_to_str bucket))"

definition retry_bucket :: "guard_settings \<Rightarrow> pyfloat \<Rightarrow> int" where
  "retry_bucket c now = (let ttl = gs_close_dedupe_ttl_sec c; window = max 1 (if ttl = 0 then 60 else ttl) in \<lfloor>now / of_int window\<rfloor>)"

definition tp_limit_reasons :: "guard_rules \<Rightarrow> string list" where
  "tp_limit_reasons c = (if gr_tp_limit_exit_reasons c = [] then [''take_profit_hit'', ''profit_lock_retrace''] else gr_tp_limit_exit_reasons c)"

section \<open>The close order\<close>

definition ask_close :: "'x guard_env \<Rightarrow> close_request \<Rightarrow> ('x, order_status) guard_run" where
  "ask_close env q = g_then (g_emit (Ask_Close q)) (\<lambda>_. g_call (\<lambda>x. ge_close_position env x q))"

definition ask_cancel :: "'x guard_env \<Rightarrow> string option \<Rightarrow> string \<Rightarrow> string \<Rightarrow> ('x, order_status) guard_run" where
  "ask_cancel env oid cid symbol = g_then (g_emit (Ask_Cancel oid cid symbol)) (\<lambda>_. g_call (\<lambda>x. ge_cancel_order env x oid cid symbol))"

text \<open>The passes of the polling loop until its end, given by the clock; the answer by client id is only asked for without one by
  exchange id.\<close>

fun poll_terminal :: "pyfloat \<Rightarrow> bool \<Rightarrow> poll_pass list \<Rightarrow> py_error + order_status option" where
  "poll_terminal end_at has_id [] = Inr None"
| "poll_terminal end_at has_id ((now, by_id, by_client) # passes) =
     (if end_at \<le> now then Inr None
      else case (if has_id then by_id else Inr None) of
          Inl e \<Rightarrow> Inl e
        | Inr found \<Rightarrow> (case (if found = None then by_client else Inr found) of
              Inl e \<Rightarrow> Inl e
            | Inr (Some st) \<Rightarrow> if is_terminal_text (Some (ot_status st)) then Inr (Some st) else poll_terminal end_at has_id passes
            | Inr None \<Rightarrow> poll_terminal end_at has_id passes))"

definition poll_close_status :: "'x guard_env \<Rightarrow> string option \<Rightarrow> pyfloat \<Rightarrow> ('x, order_status option) guard_run" where
  "poll_close_status env oid window_ms =
     g_then (g_ask (ge_now env)) (\<lambda>start.
       g_then (g_ask (ge_poll env)) (\<lambda>passes.
         \<lambda>w. (w, poll_terminal (fadd start (max (fl (1 / 20)) (fl (window_ms / 1000)))) (s_truthy oid) passes)))"

definition market_close :: "pos_core \<Rightarrow> string \<Rightarrow> close_request" where
  "market_close p cid = \<lparr>cq_symbol = ps_symbol p, cq_side = ps_side p, cq_size = ps_size p, cq_client_order_id = cid, cq_limit = None\<rparr>"

definition market_path :: exit_path where
  "market_path = \<lparr>ep_path = ''market'', ep_attempted = False, ep_filled = False, ep_fallback = False, ep_limit_price = None\<rparr>"

definition found_filled :: "order_status option \<Rightarrow> bool" where
  "found_filled st = (case st of Some s \<Rightarrow> is_filled_status (ot_status s) | None \<Rightarrow> False)"

definition limit_close :: "guard_settings \<Rightarrow> pos_core \<Rightarrow> string \<Rightarrow> pyfloat \<Rightarrow> close_request" where
  "limit_close c p cid price = (market_close p cid)\<lparr>cq_limit := Some (price,
     if gs_tp_limit_time_in_force c = [] then ''GTC'' else gs_tp_limit_time_in_force c)\<rparr>"

text \<open>The limit order of a take profit: polled for a while, then canceled, polled again and replaced by a market order.\<close>

definition limit_then_market ::
  "'x guard_env \<Rightarrow> guard_settings \<Rightarrow> pos_core \<Rightarrow> string \<Rightarrow> pyfloat \<Rightarrow> ('x, order_status \<times> exit_path) guard_run" where
  "limit_then_market env c p cid price =
     (let lid = cid @ '':tpl''; path = \<lparr>ep_path = ''tp_limit'', ep_attempted = True, ep_filled = False, ep_fallback = False, ep_limit_price = Some price\<rparr>;
          late = path\<lparr>ep_fallback := True, ep_path := ''tp_limit_fallback_market''\<rparr>
      in g_then (ask_close env (limit_close c p lid price)) (\<lambda>st.
           if is_filled_status (ot_status st) then g_return (st, path\<lparr>ep_filled := True\<rparr>)
           else g_then (poll_close_status env (ot_order_id st) (of_int (max 50 (gs_tp_limit_fill_window_ms c)))) (\<lambda>found.
             if found_filled found then g_return (the found, path\<lparr>ep_filled := True\<rparr>)
             else g_then (ask_cancel env (ot_order_id st) lid (ps_symbol p)) (\<lambda>_.
               g_then (poll_close_status env (ot_order_id st) (of_int (max 100 (gs_tp_limit_poll_interval_ms c * 4)))) (\<lambda>after.
                 if found_filled after then g_return (the after, late\<lparr>ep_filled := True, ep_path := ''tp_limit_cancel_fill_race''\<rparr>)
                 else g_then (ask_close env (market_close p (cid @ '':mkt''))) (\<lambda>market. g_return (market, late)))))))"

definition execute_close_order ::
  "'x guard_env \<Rightarrow> guard_settings \<Rightarrow> pos_core \<Rightarrow> string \<Rightarrow> string \<Rightarrow> ('x, order_status \<times> exit_path) guard_run" where
  "execute_close_order env c p reason cid =
     (let r = gs_rules c; market = g_then (ask_close env (market_close p cid)) (\<lambda>st. g_return (st, market_path))
      in if gr_tp_limit_exit_enabled r \<and> reason \<in> set (tp_limit_reasons r) \<and> \<not> is_emergency_exit_reason (Some reason) \<and> 0 < ps_size p
         then g_then (g_read (\<lambda>w. tp_limit_price r p (ge_best_bid_ask env (gw_outside w) (ps_symbol p)) (reference_price env p w))) (\<lambda>limit.
           case limit of None \<Rightarrow> market | Some x \<Rightarrow> if x \<le> 0 then market else limit_then_market env c p cid x)
         else market)"

section \<open>The outcome of a close\<close>

definition no_position_rejected :: "order_status \<Rightarrow> bool" where
  "no_position_rejected st = (let reason = py_lower (case ot_reason st of Some r \<Rightarrow> r | None \<Rightarrow> [])
     in ot_status st = ''rejected'' \<and>
        list_ex (\<lambda>k. py_contains k reason) [''110017'', ''position is zero'', ''position not found'', ''no position''])"

text \<open>The figures of a fill, corrected by the exchange's own trades.\<close>

record exit_fill =
  ef_price :: "pyfloat option"
  ef_fee_usd :: "pyfloat option"
  ef_size :: pyfloat
  ef_timestamp :: pyfloat

definition reconciled_fill :: "exit_fill \<Rightarrow> execution_summary option \<Rightarrow> exit_fill" where
  "reconciled_fill f summary = (case summary of
       None \<Rightarrow> f
     | Some s \<Rightarrow> \<lparr>ef_price = of_or (es_avg_price s) (ef_price f),
         ef_fee_usd = (if es_total_fees_usd s \<noteq> None then es_total_fees_usd s else ef_fee_usd f),
         ef_size = f_or (es_total_qty s) (ef_size f), ef_timestamp = fo_or (es_exit_timestamp s) (ef_timestamp f)\<rparr>)"

definition bps_of_notional_price :: "pyfloat option \<Rightarrow> pyfloat \<Rightarrow> pyfloat option \<Rightarrow> pyfloat option" where
  "bps_of_notional_price price sz fee = (case (price, fee) of
       (Some p, Some f) \<Rightarrow> if 0 < p \<and> 0 < sz then Some (fmul (fl (f / fmul p sz)) 10000) else None
     | _ \<Rightarrow> None)"

definition exit_slippage_bps :: "pyfloat option \<Rightarrow> pyfloat option \<Rightarrow> pyfloat option" where
  "exit_slippage_bps ref price = (case (ref, price) of
       (Some r, Some x) \<Rightarrow> if 0 < r \<and> x \<noteq> 0 then Some (fmul \<bar>fl (fsub x r / r)\<bar> 10000) else None
     | _ \<Rightarrow> None)"

definition exit_pnl :: "pos_core \<Rightarrow> exit_fill \<Rightarrow> pnl_breakdown" where
  "exit_pnl p f = compute_pnl_breakdown (ps_entry_price p) (ef_price f) (ef_size f) (ps_side p) (ps_entry_fee_usd p) (ef_fee_usd f)"

definition no_pnl :: pnl_breakdown where
  "no_pnl = \<lparr>pb_gross = None, pb_net = None, pb_net_pct = None, pb_total_fees = None\<rparr>"

definition close_report_of ::
  "pos_core \<Rightarrow> string \<Rightarrow> string \<Rightarrow> exit_path \<Rightarrow> exit_fill \<Rightarrow> bool \<Rightarrow> pyfloat option \<Rightarrow> close_report" where
  "close_report_of p reason status path f ended ref =
     (let slip = exit_slippage_bps ref (ef_price f); entry_bps = bps_of_notional_price (ps_entry_price p) (ef_size f) (ps_entry_fee_usd p);
          exit_bps = bps_of_notional_price (ef_price f) (ef_size f) (ef_fee_usd f)
      in \<lparr>cp_symbol = ps_symbol p, cp_side = exit_side (ps_side p), cp_size = ef_size f, cp_status = status, cp_reason = reason,
          cp_slippage_bps = slip, cp_fee_usd = ef_fee_usd f, cp_exit_price = ef_price f, cp_exit_timestamp = ef_timestamp f,
          cp_pnl = (if ended then exit_pnl p f else no_pnl), cp_entry_fee_bps = entry_bps, cp_exit_fee_bps = exit_bps,
          cp_total_cost_bps = sum_cost_bps [entry_bps, exit_bps, slip], cp_path = path, cp_hold_time_sec = None\<rparr>)"

text \<open>The lifecycle event shows the position's own side and size.\<close>

definition lifecycle_report :: "pos_core \<Rightarrow> close_report \<Rightarrow> pyfloat option \<Rightarrow> close_report" where
  "lifecycle_report p r hold = r\<lparr>cp_side := ps_side p, cp_size := ps_size p, cp_status := ''closed'', cp_hold_time_sec := hold\<rparr>"

section \<open>Closing a position\<close>

definition drop_symbol :: "string \<Rightarrow> 'x guard_world \<Rightarrow> 'x guard_world" where
  "drop_symbol symbol w = w\<lparr>gw_continuation := d_pop (gw_continuation w) symbol, gw_max_age := d_pop (gw_max_age w) symbol\<rparr>"

definition claim_close :: "'x guard_env \<Rightarrow> guard_settings \<Rightarrow> string \<Rightarrow> ('x, bool) guard_run" where
  "claim_close env c cid = (if gs_idempotent c then g_catch (g_call (\<lambda>x. ge_claim env x cid)) False else g_return True)"

definition fill_of :: "'x guard_env \<Rightarrow> pos_core \<Rightarrow> order_status \<Rightarrow> string \<Rightarrow> ('x, exit_fill) guard_run" where
  "fill_of env p st cid =
     g_then (if f_truthy (ot_timestamp st) then g_return (the (ot_timestamp st)) else g_ask (ge_now env)) (\<lambda>t.
       let f = \<lparr>ef_price = ot_fill_price st, ef_fee_usd = ot_fee_usd st, ef_size = fo_or (ot_filled_size st) (ps_size p), ef_timestamp = t\<rparr>
       in if is_filled_status (ot_status st)
          then g_then (g_ask (\<lambda>x. ge_fetch_executions env x (ps_symbol p))) (\<lambda>fetched.
                 g_return (reconciled_fill f (reconcile_execution fetched (ot_order_id st) (Some cid))))
          else g_return f)"

definition settle_filled ::
  "guard_settings \<Rightarrow> pos_core \<Rightarrow> exit_fill \<Rightarrow> close_report \<Rightarrow> ('x, pnl_breakdown \<times> pyfloat option) guard_run" where
  "settle_filled c p f report =
     (let hold = (if f_truthy (ps_opened_at p) then Some (fsub (ef_timestamp f) (the (ps_opened_at p))) else None)
      in g_then (change_positions (\<lambda>m. finalize_close m (ps_symbol p))) (\<lambda>_.
         g_then (g_change (\<lambda>w. w\<lparr>gw_peaks := d_pop (gw_peaks w) (peak_key p)\<rparr>)) (\<lambda>_.
         g_then (if gs_telemetry c then g_emit (Closed_Event (lifecycle_report p report hold)) else g_return ()) (\<lambda>_.
           g_return (exit_pnl p f, hold)))))"

text \<open>The guardrail event of an unfilled close is published without asking whether there is telemetry.\<close>

definition settle_unfilled :: "guard_settings \<Rightarrow> pos_core \<Rightarrow> string \<Rightarrow> string \<Rightarrow> ('x, pnl_breakdown \<times> pyfloat option) guard_run" where
  "settle_unfilled c p reason status =
     (if gs_telemetry c then g_then (g_emit (Unfilled_Event (ps_symbol p) reason status)) (\<lambda>_. g_return (no_pnl, None))
      else (\<lambda>w. (w, Inl (OtherError ''AttributeError''))))"

definition settle_close ::
  "'x guard_env \<Rightarrow> guard_settings \<Rightarrow> pos_core \<Rightarrow> string \<Rightarrow> string \<Rightarrow> order_status \<times> exit_path \<Rightarrow> ('x, unit) guard_run" where
  "settle_close env c p reason cid answer =
     (let (st, path) = answer
      in g_then (if no_position_rejected st then change_positions (\<lambda>m. finalize_close m (ps_symbol p)) else g_return ()) (\<lambda>_.
         g_then (fill_of env p st cid) (\<lambda>f.
         g_then (g_read (reference_price env p)) (\<lambda>ref.
         let ended = (is_filled_status (ot_status st) \<and> ef_price f \<noteq> None); report = close_report_of p reason (ot_status st) path f ended ref
         in g_then (if gs_telemetry c then g_emit (Order_Event report) else g_return ()) (\<lambda>_.
            g_then (if ended then settle_filled c p f report else settle_unfilled c p reason (ot_status st)) (\<lambda>(pnl, hold).
              if gs_alerts c then g_emit (Guard_Alert (ps_symbol p) reason (ot_fill_price st) pnl hold) else g_return ()))))))"

definition clear_closing :: "string \<Rightarrow> 'x guard_world \<Rightarrow> 'x guard_world" where
  "clear_closing symbol w = drop_symbol symbol (w\<lparr>gw_closing := filter (\<lambda>s. s \<noteq> symbol) (gw_closing w)\<rparr>)"

definition guard_close_position :: "'x guard_env \<Rightarrow> guard_settings \<Rightarrow> pos_core \<Rightarrow> string \<Rightarrow> ('x, unit) guard_run" where
  "guard_close_position env c p reason =
     g_then (g_ask (ge_now env)) (\<lambda>t.
       let cid = guard_client_order_id (ge_sha256 env) (ge_float_text env) (gs_bot_id c) p reason (retry_bucket c t)
       in g_then (claim_close env c cid) (\<lambda>claimed.
            if \<not> claimed then g_return ()
            else g_finally
              (g_then (g_change (\<lambda>w. w\<lparr>gw_closing := List.insert (ps_symbol p) (gw_closing w)\<rparr>)) (\<lambda>_.
               g_then (change_positions (\<lambda>m. mark_closing m (ps_symbol p) reason)) (\<lambda>_.
               g_then (execute_close_order env c p reason cid) (settle_close env c p reason cid))))
              (clear_closing (ps_symbol p))))"

section \<open>Protection at the exchange\<close>

text \<open>The answer without asking the exchange, if there is one.\<close>

definition protection_assumed :: "guard_rules \<Rightarrow> pos_core \<Rightarrow> pyfloat \<Rightarrow> bool option" where
  "protection_assumed c p now =
     (if \<not> gr_require_protection c then Some True
      else if (case hold_time p now of Some h \<Rightarrow> h < gr_protection_grace_sec c | None \<Rightarrow> False) then Some True
      else if ps_stop_loss p = None \<and> ps_take_profit p = None then Some False
      else if gr_require_stop_loss c \<and> ps_stop_loss p = None then Some False
      else None)"

definition row_symbol :: "(py_data \<Rightarrow> string) \<Rightarrow> py_data \<Rightarrow> string option" where
  "row_symbol text_of row = (if is_dict row then case get_field row ''symbol'' DNone of
       DStr s \<Rightarrow> Some s | x \<Rightarrow> if py_truthy x then Some (text_of x) else None else None)"

text \<open>The first truthy of the keys, or else what the \<open>info\<close> dictionary has, which may be an empty text or zero.\<close>

definition protective_field :: "py_data \<Rightarrow> string list \<Rightarrow> string \<Rightarrow> py_error + py_data" where
  "protective_field row ks info_key = (case filter py_truthy (field_values row ks) of
       v # _ \<Rightarrow> Inr v
     | [] \<Rightarrow> dict_get (py_or (get_field row ''info'' DNone) (DDict [])) info_key DNone)"

definition protection_shown :: "(py_data \<Rightarrow> string) \<Rightarrow> guard_settings \<Rightarrow> pos_core \<Rightarrow> py_data list \<Rightarrow> py_error + bool" where
  "protection_shown text_of c p rows =
     (let ex = Some (gs_exchange_id c); wanted = os_or (normalize_exchange_symbol ex (Some (ps_symbol p)) None) (Some (ps_symbol p))
      in case filter (\<lambda>row. normalize_exchange_symbol ex (row_symbol text_of row) None = wanted) rows of
           [] \<Rightarrow> Inr True
         | row # _ \<Rightarrow>
             (case protective_field row [''stopLoss'', ''stop_loss'', ''sl'', ''slPrice''] ''stopLoss'' of
                Inl e \<Rightarrow> Inl e
              | Inr sl \<Rightarrow> (case protective_field row [''takeProfit'', ''take_profit'', ''tp'', ''tpPrice''] ''takeProfit'' of
                  Inl e \<Rightarrow> Inl e
                | Inr tp \<Rightarrow> Inr (\<not> (ps_stop_loss p \<noteq> None \<and> sl = DNone) \<and> \<not> (ps_take_profit p \<noteq> None \<and> tp = DNone)))))"

definition verify_protection :: "'x guard_env \<Rightarrow> guard_settings \<Rightarrow> pos_core \<Rightarrow> pyfloat \<Rightarrow> ('x, bool) guard_run" where
  "verify_protection env c p now = (case protection_assumed (gs_rules c) p now of
       Some b \<Rightarrow> g_return b
     | None \<Rightarrow> g_then (g_ask (\<lambda>x. ge_fetch_positions env x (ps_symbol p))) (\<lambda>fetched.
         case fetched of Some (Inr rows) \<Rightarrow> (\<lambda>w. (w, protection_shown (ge_text_of env) c p rows)) | _ \<Rightarrow> g_return True))"

text \<open>The kill switch's answer is whether it was triggered; what it raises is caught.\<close>

definition trigger_protection_kill :: "'x guard_env \<Rightarrow> string \<Rightarrow> ('x, unit) guard_run" where
  "trigger_protection_kill env symbol = g_catch (g_then (g_call (ge_kill_switch env)) (\<lambda>triggered.
       if triggered then g_emit (Kill_Switch_Triggered symbol) else g_return ())) ()"

definition handle_protection_failure :: "'x guard_env \<Rightarrow> guard_settings \<Rightarrow> pos_core \<Rightarrow> ('x, unit) guard_run" where
  "handle_protection_failure env c p =
     g_then (if gs_kill_switch c then trigger_protection_kill env (ps_symbol p) else g_return ()) (\<lambda>_.
       if gr_flatten_all_on_protection_failure (gs_rules c)
       then g_then (g_read (\<lambda>w. list_positions (gw_positions w) False)) (g_each (\<lambda>q.
              g_then (g_read (\<lambda>w. ps_symbol q \<in> set (gw_closing w))) (\<lambda>busy.
                if busy then g_return () else guard_close_position env c q ''protection_failure'')))
       else guard_close_position env c p ''protection_failure'')"

section \<open>The tick\<close>

definition live_prediction :: "'x guard_env \<Rightarrow> guard_settings \<Rightarrow> pos_core \<Rightarrow> 'x guard_world \<Rightarrow> py_data" where
  "live_prediction env c p w = (let (own, latest) = ge_prediction env (gw_outside w) (ps_symbol p)
     in load_live_prediction (ge_text_of env) (gs_snapshot_reader c) (ps_symbol p) own latest)"

text \<open>A position beyond its age: the reason to close it, if it is not kept.\<close>

definition govern_max_age :: "'x guard_env \<Rightarrow> guard_settings \<Rightarrow> pos_core \<Rightarrow> pyfloat \<Rightarrow> pyfloat \<Rightarrow> string \<Rightarrow> ('x, string option) guard_run" where
  "govern_max_age env c p price now reason =
     (if reason = ''max_age_exceeded''
      then (\<lambda>w. let (sts, r) = evaluate_max_age (ge_text_of env) (gs_rules c) (gw_max_age w) p price now (live_prediction env c p w)
                in (w\<lparr>gw_max_age := sts\<rparr>, Inr r))
      else g_return (Some reason))"

definition defer_exit :: "'x guard_env \<Rightarrow> guard_settings \<Rightarrow> pos_core \<Rightarrow> string \<Rightarrow> pyfloat \<Rightarrow> pyfloat \<Rightarrow> ('x, bool) guard_run" where
  "defer_exit env c p reason price now = (\<lambda>w.
     let (sts, b) = should_defer_soft_exit (ge_text_of env) (gs_rules c) (gs_fee_model c) (gs_min_profit_buffer_bps c) (gw_continuation w)
           p reason price now (live_prediction env c p w)
     in (w\<lparr>gw_continuation := sts\<rparr>, Inr b))"

definition evaluate_exit :: "'x guard_env \<Rightarrow> guard_settings \<Rightarrow> pos_core \<Rightarrow> pyfloat \<Rightarrow> pyfloat \<Rightarrow> ('x, unit) guard_run" where
  "evaluate_exit env c p price now =
     g_then (change_positions (\<lambda>m. update_mfe_mae m (ps_symbol p) price)) (\<lambda>_.
     g_then (\<lambda>w. let (peaks, r) = close_reason (gs_rules c) (gs_fee_model c) p price now (gw_peaks w) in (w\<lparr>gw_peaks := peaks\<rparr>, Inr r)) (\<lambda>r.
       case r of
         None \<Rightarrow> g_change (drop_symbol (ps_symbol p))
       | Some trigger \<Rightarrow> g_then (govern_max_age env c p price now trigger) (\<lambda>final.
           case final of
             None \<Rightarrow> g_return ()
           | Some reason \<Rightarrow>
               if (case apply_fee_check (gs_fee_model c) (gs_min_profit_buffer_bps c) (gs_fee_check_slippage_bps c) p price reason of
                     Some check \<Rightarrow> \<not> xc_should_allow_exit check | None \<Rightarrow> False)
               then g_return ()
               else g_then (defer_exit env c p reason price now) (\<lambda>kept.
                 if kept then g_return () else guard_close_position env c p reason))))"

definition guard_position :: "'x guard_env \<Rightarrow> guard_settings \<Rightarrow> pyfloat \<Rightarrow> pos_core \<Rightarrow> ('x, unit) guard_run" where
  "guard_position env c now p =
     g_then (g_read (\<lambda>w. (ps_symbol p \<in> set (gw_closing w), reference_price env p w))) (\<lambda>(busy, price).
       if busy then g_return ()
       else case price of
           None \<Rightarrow> g_return ()
         | Some x \<Rightarrow> g_then (if gr_verify_exchange_protection (gs_rules c) then verify_protection env c p now else g_return True) (\<lambda>ok.
             if ok then evaluate_exit env c p x now else handle_protection_failure env c p))"

definition guard_tick :: "'x guard_env \<Rightarrow> guard_settings \<Rightarrow> ('x, unit) guard_run" where
  "guard_tick env c = g_then (g_ask (ge_now env)) (\<lambda>now.
     g_then (g_read (\<lambda>w. list_positions (gw_positions w) False)) (g_each (guard_position env c now)))"

section \<open>Relations that runs respect\<close>

definition runs_by :: "('x guard_world \<Rightarrow> 'x guard_world \<Rightarrow> bool) \<Rightarrow> ('x, 'a) guard_run \<Rightarrow> bool" where
  "runs_by R m = (\<forall>w. R w (fst (m w)))"

definition listed :: "'x guard_world \<Rightarrow> pos_core list" where
  "listed w = list_positions (gw_positions w) False"

text \<open>A reflexive and transitive relation between the worlds before and after.  A change that touches neither the positions nor the log is
  inside it, and so are events, requests to close a position that may be closed, and the changes of such a position; the
  listed positions are those that may be closed, wherever the relation says anything.\<close>

locale guard_relation =
  fixes R :: "'x guard_world \<Rightarrow> 'x guard_world \<Rightarrow> bool" and may :: "pos_core \<Rightarrow> bool"
  assumes r_refl: "R w w" and r_trans: "R w w1 \<Longrightarrow> R w1 w2 \<Longrightarrow> R w w2"
    and quiet: "gw_positions w1 = gw_positions w \<Longrightarrow> gw_log w1 = gw_log w \<Longrightarrow> R w w1"
    and tells: "gw_positions w1 = gw_positions w \<Longrightarrow> gw_log w1 = gw_log w @ [ev] \<Longrightarrow>
      (\<And>q. ev = Ask_Close q \<Longrightarrow> \<exists>p. may p \<and> cq_symbol q = ps_symbol p \<and> cq_side q = ps_side p \<and> cq_size q = ps_size p) \<Longrightarrow> R w w1"
    and moves: "may p \<Longrightarrow> gw_log w1 = gw_log w \<Longrightarrow>
      gw_positions w1 \<in> {mark_closing (gw_positions w) (ps_symbol p) reason, finalize_close (gw_positions w) (ps_symbol p),
        update_mfe_mae (gw_positions w) (ps_symbol p) price} \<Longrightarrow> R w w1"
    and relists: "((\<And>q. q \<in> set (listed w) \<Longrightarrow> may q) \<Longrightarrow> R w w1) \<Longrightarrow> R w w1"
begin

lemma by_quiet: "(\<And>w. gw_positions (fst (m w)) = gw_positions w \<and> gw_log (fst (m w)) = gw_log w) \<Longrightarrow> runs_by R m"
  by (simp add: runs_by_def quiet)

lemma by_return: "runs_by R (g_return a)"
  by (rule by_quiet) (simp add: g_return_def)

lemma by_read: "runs_by R (g_read f)"
  by (rule by_quiet) (simp add: g_read_def)

lemma by_call: "runs_by R (g_call f)" and by_ask: "runs_by R (g_ask h)"
  by (rule by_quiet, simp add: g_call_def g_ask_def case_prod_beta)+

lemma by_then: "runs_by R m \<Longrightarrow> (\<And>a. runs_by R (f a)) \<Longrightarrow> runs_by R (g_then m f)"
proof (unfold runs_by_def, intro allI)
  fix w
  assume m: "\<forall>w. R w (fst (m w))" and f: "\<And>a. \<forall>w. R w (fst (f a w))"
  obtain w1 r where mw: "m w = (w1, r)" by force
  with m have "R w w1" by (metis fst_conv)
  moreover have "R w1 (fst (f a w1))" for a using f by blast
  ultimately show "R w (fst (g_then m f w))" unfolding g_then_def by (cases r) (auto simp: mw intro: r_trans)
qed

lemma by_finally: "runs_by R m \<Longrightarrow> (\<And>w. gw_positions (f w) = gw_positions w \<and> gw_log (f w) = gw_log w) \<Longrightarrow> runs_by R (g_finally m f)"
  unfolding runs_by_def g_finally_def
  by (metis (no_types, lifting) case_prod_beta fst_conv quiet r_trans)

lemma by_catch: "runs_by R m \<Longrightarrow> runs_by R (g_catch m a)"
  unfolding runs_by_def g_catch_def by (auto simp: case_prod_beta split: sum.split)

lemma by_if: "(b \<Longrightarrow> runs_by R m) \<Longrightarrow> (\<not> b \<Longrightarrow> runs_by R k) \<Longrightarrow> runs_by R (if b then m else k)"
  by simp

lemma by_option: "(v = None \<Longrightarrow> runs_by R m) \<Longrightarrow> (\<And>x. v = Some x \<Longrightarrow> runs_by R (f x)) \<Longrightarrow> runs_by R (case v of None \<Rightarrow> m | Some x \<Rightarrow> f x)"
  by (cases v) simp_all

lemma by_pair: "(\<And>a b. runs_by R (f a b)) \<Longrightarrow> runs_by R (case v of (a, b) \<Rightarrow> f a b)"
  by (cases v) simp

lemma by_emit: "(\<And>q. ev \<noteq> Ask_Close q) \<Longrightarrow> runs_by R (g_emit ev)"
  by (auto simp: runs_by_def g_emit_def g_change_def intro!: tells)

lemma by_each: "(\<And>a. a \<in> set xs \<Longrightarrow> runs_by R (f a)) \<Longrightarrow> runs_by R (g_each f xs)"
  by (induction xs) (auto intro!: by_return by_then)

lemma by_listed: "(\<And>ps. (\<And>q. q \<in> set ps \<Longrightarrow> may q) \<Longrightarrow> runs_by R (f ps)) \<Longrightarrow>
    runs_by R (g_then (g_read (\<lambda>w. list_positions (gw_positions w) False)) f)"
  unfolding runs_by_def
proof
  fix w
  assume f: "\<And>ps. (\<And>q. q \<in> set ps \<Longrightarrow> may q) \<Longrightarrow> \<forall>w. R w (fst (f ps w))"
  have "R w (fst (f (listed w) w))" by (rule relists) (use f [of "listed w"] in blast)
  then show "R w (fst (g_then (g_read (\<lambda>w. list_positions (gw_positions w) False)) f w))"
    by (simp add: g_then_def g_read_def listed_def)
qed

lemmas by_intros = by_return by_read by_call by_ask by_then by_catch by_if by_option by_pair by_emit by_each

lemma by_ask_close:
  "may p \<Longrightarrow> cq_symbol q = ps_symbol p \<Longrightarrow> cq_side q = ps_side p \<Longrightarrow> cq_size q = ps_size p \<Longrightarrow> runs_by R (ask_close env q)"
  unfolding ask_close_def by (intro by_then by_call) (auto simp: runs_by_def g_emit_def g_change_def intro!: tells)

lemma by_poll: "runs_by R (poll_close_status env oid ms)"
  unfolding poll_close_status_def by (intro by_then by_ask) (rule by_quiet, simp)

lemma by_ask_cancel: "runs_by R (ask_cancel env oid cid symbol)"
  unfolding ask_cancel_def by (intro by_intros) simp

lemma by_limit: "may p \<Longrightarrow> runs_by R (limit_then_market env c p cid price)"
  unfolding limit_then_market_def Let_def
  by (intro by_intros by_poll by_ask_cancel by_ask_close [of p]) (simp_all add: limit_close_def market_close_def)

lemma by_execute: "may p \<Longrightarrow> runs_by R (execute_close_order env c p reason cid)"
  unfolding execute_close_order_def Let_def
  by (intro by_intros by_limit by_ask_close [of p]) (simp_all add: market_close_def)

lemma by_change:
  "may p \<Longrightarrow> f \<in> {\<lambda>m. mark_closing m (ps_symbol p) reason, \<lambda>m. finalize_close m (ps_symbol p), \<lambda>m. update_mfe_mae m (ps_symbol p) price} \<Longrightarrow>
    runs_by R (change_positions f)"
  unfolding runs_by_def change_positions_def g_change_def by (auto intro: moves [of p _ _ reason price])

lemma by_fill: "runs_by R (fill_of env p st cid)"
  unfolding fill_of_def Let_def by (intro by_intros)

lemma by_settle: "may p \<Longrightarrow> runs_by R (settle_close env c p reason cid answer)"
proof -
  assume p: "may p"
  have gone: "runs_by R (change_positions (\<lambda>m. finalize_close m (ps_symbol p)))" by (rule by_change [OF p]) simp
  have "runs_by R (g_change (\<lambda>w. w\<lparr>gw_peaks := d_pop (gw_peaks w) k\<rparr>))" for k by (rule by_quiet) (simp add: g_change_def)
  then have filled: "runs_by R (settle_filled c p f report)" for f report
    unfolding settle_filled_def Let_def by (intro by_intros gone) simp_all
  have "runs_by R (\<lambda>w. (w, Inl e))" for e by (rule by_quiet) simp
  then have "runs_by R (settle_unfilled c p reason status)" for status
    unfolding settle_unfilled_def by (intro by_intros) simp_all
  with gone filled show ?thesis
    unfolding settle_close_def Let_def case_prod_beta by (intro by_intros by_fill) simp_all
qed

lemma by_close: "may p \<Longrightarrow> runs_by R (guard_close_position env c p reason)"
proof -
  assume p: "may p"
  have "runs_by R (g_change (\<lambda>w. w\<lparr>gw_closing := List.insert (ps_symbol p) (gw_closing w)\<rparr>))" by (rule by_quiet) (simp add: g_change_def)
  moreover have "runs_by R (change_positions (\<lambda>m. mark_closing m (ps_symbol p) reason))" by (rule by_change [OF p, where reason = reason]) simp
  moreover have "runs_by R (claim_close env c cid)" for cid unfolding claim_close_def by (intro by_intros)
  ultimately show ?thesis
    unfolding guard_close_position_def Let_def
    by (intro by_then by_ask by_if by_return by_finally by_execute by_settle p) (simp_all add: clear_closing_def drop_symbol_def)
qed

lemma by_protection: "may p \<Longrightarrow> runs_by R (handle_protection_failure env c p)"
proof -
  assume p: "may p"
  have "runs_by R (trigger_protection_kill env s)" for s unfolding trigger_protection_kill_def by (intro by_intros) simp
  then show ?thesis
    unfolding handle_protection_failure_def by (intro by_then by_if by_return by_read by_listed by_each by_close p) simp_all
qed

lemma by_evaluate: "may p \<Longrightarrow> runs_by R (evaluate_exit env c p price now)"
proof -
  assume p: "may p"
  have tracked: "runs_by R (change_positions (\<lambda>m. update_mfe_mae m (ps_symbol p) price))" by (rule by_change [OF p, where price = price]) simp
  have judged: "runs_by R (\<lambda>w. let (peaks, r) = close_reason (gs_rules c) (gs_fee_model c) p price now (gw_peaks w) in (w\<lparr>gw_peaks := peaks\<rparr>, Inr r))"
    by (rule by_quiet) (simp add: case_prod_beta Let_def)
  have dropped: "runs_by R (g_change (drop_symbol s))" for s by (rule by_quiet) (simp add: g_change_def drop_symbol_def)
  have "runs_by R (\<lambda>w. let (sts, r) = evaluate_max_age (ge_text_of env) (gs_rules c) (gw_max_age w) p price now (live_prediction env c p w)
      in (w\<lparr>gw_max_age := sts\<rparr>, Inr r))" by (rule by_quiet) (simp add: case_prod_beta Let_def)
  then have governed: "runs_by R (govern_max_age env c p price now trigger)" for trigger
    unfolding govern_max_age_def by (intro by_if by_return)
  have deferred: "runs_by R (defer_exit env c p r price now)" for r
    unfolding defer_exit_def by (rule by_quiet) (simp add: case_prod_beta Let_def)
  show ?thesis
    unfolding evaluate_exit_def by (intro by_then by_option by_if by_return tracked judged dropped governed deferred by_close p)
qed

lemma by_guard: "may p \<Longrightarrow> runs_by R (guard_position env c now p)"
proof -
  assume p: "may p"
  have "runs_by R (\<lambda>w. (w, v))" for v by (rule by_quiet) simp
  then have "runs_by R (verify_protection env c p now)"
    unfolding verify_protection_def by (auto intro!: by_then by_option by_ask by_return split: option.split sum.split)
  with p show ?thesis
    unfolding guard_position_def case_prod_beta by (intro by_then by_read by_if by_option by_return by_evaluate by_protection)
qed

lemma by_tick: "R w (fst (guard_tick env c w))"
proof -
  have "runs_by R (guard_tick env c)"
    unfolding guard_tick_def by (intro by_then by_ask by_listed by_each by_guard)
  then show ?thesis by (simp add: runs_by_def)
qed

end

section \<open>What a run of ticks keeps\<close>

text \<open>Ticks one after the other, each in its own environment; a tick that raises is followed by the next one, as after a restart of
  the worker.\<close>

definition guard_ticks :: "guard_settings \<Rightarrow> 'x guard_world \<Rightarrow> 'x guard_env list \<Rightarrow> 'x guard_world" where
  "guard_ticks c w envs = foldl (\<lambda>w env. fst (guard_tick env c w)) w envs"

context guard_relation
begin

lemma by_ticks: "R w (guard_ticks c w envs)"
proof -
  have "R w (foldl (\<lambda>w env. fst (guard_tick env c w)) w envs)"
    by (induction envs arbitrary: w) (auto intro: r_refl r_trans by_tick)
  then show ?thesis by (simp add: guard_ticks_def)
qed

end

lemma set_listed: "set (listed w) = pos_core.truncate ` {r \<in> set (d_vals (sm_positions (gw_positions w))). \<not> pr_closing r}"
  by (auto simp: listed_def list_positions_def)

subsection \<open>A position that is being closed is left alone\<close>

definition being_closed :: "string \<Rightarrow> 'x guard_world \<Rightarrow> bool" where
  "being_closed sy w = (positions_keyed (gw_positions w) \<and>
     (case d_get (sm_positions (gw_positions w)) sy of Some r \<Rightarrow> pr_closing r | None \<Rightarrow> False))"

definition close_requests :: "string \<Rightarrow> 'x guard_world \<Rightarrow> close_request list" where
  "close_requests sy w = [q. Ask_Close q \<leftarrow> gw_log w, cq_symbol q = sy]"

definition leaves_alone :: "string \<Rightarrow> 'x guard_world \<Rightarrow> 'x guard_world \<Rightarrow> bool" where
  "leaves_alone sy w w1 = (being_closed sy w \<longrightarrow> being_closed sy w1 \<and>
     d_get (sm_positions (gw_positions w1)) sy = d_get (sm_positions (gw_positions w)) sy \<and> close_requests sy w1 = close_requests sy w)"

lemma being_closed_unlisted: "being_closed sy w \<Longrightarrow> q \<in> set (listed w) \<Longrightarrow> ps_symbol q \<noteq> sy"
proof
  assume b: "being_closed sy w" and q: "q \<in> set (listed w)" and sy: "ps_symbol q = sy"
  from q obtain r where r: "r \<in> set (d_vals (sm_positions (gw_positions w)))" "\<not> pr_closing r" "q = pos_core.truncate r"
    unfolding set_listed by auto
  then obtain k where k: "(k, r) \<in> set (sm_positions (gw_positions w))" by (auto simp: d_vals_def)
  from b have key: "d_wf (sm_positions (gw_positions w))" "list_all (\<lambda>(k, p). ps_symbol p = k) (sm_positions (gw_positions w))"
    by (simp_all add: being_closed_def positions_keyed_def)
  with k have "ps_symbol r = k" by (auto simp: list_all_iff)
  with sy r(3) have "k = sy" by (simp add: pos_core.defs)
  with key k have "d_get (sm_positions (gw_positions w)) sy = Some r" by (simp add: d_mem_get)
  with b r(2) show False by (simp add: being_closed_def)
qed

lemma other_position_moves:
  assumes "positions_keyed m" "m1 \<in> {mark_closing m k reason, finalize_close m k, update_mfe_mae m k price}"
  shows "positions_keyed m1" "sy \<noteq> k \<Longrightarrow> d_get (sm_positions m1) sy = d_get (sm_positions m) sy"
proof -
  from assms(2) have "m1 \<in> position_step m ` {Closing k reason, Closed k, Tick k price}" by simp
  then show "positions_keyed m1" using position_step_keyed [OF assms(1)] by blast
  show "sy \<noteq> k \<Longrightarrow> d_get (sm_positions m1) sy = d_get (sm_positions m) sy"
    using assms by (auto simp: positions_keyed_def mark_closing_def finalize_close_def update_mfe_mae_def split: option.splits)
qed

interpretation idle: guard_relation "leaves_alone sy" "\<lambda>p. ps_symbol p \<noteq> sy" for sy
proof
  fix w w1 :: "'a guard_world" and ev
  assume "gw_positions w1 = gw_positions w" "gw_log w1 = gw_log w @ [ev]"
    "\<And>q. ev = Ask_Close q \<Longrightarrow> \<exists>p. ps_symbol p \<noteq> sy \<and> cq_symbol q = ps_symbol p \<and> cq_side q = ps_side p \<and> cq_size q = ps_size p"
  then show "leaves_alone sy w w1"
    by (cases ev) (auto simp: leaves_alone_def being_closed_def close_requests_def)
next
  fix w w1 :: "'a guard_world" and p reason price
  assume "ps_symbol p \<noteq> sy" "gw_log w1 = gw_log w" "gw_positions w1 \<in> {mark_closing (gw_positions w) (ps_symbol p) reason,
      finalize_close (gw_positions w) (ps_symbol p), update_mfe_mae (gw_positions w) (ps_symbol p) price}"
  then show "leaves_alone sy w w1" using other_position_moves [of "gw_positions w" "gw_positions w1"]
    by (auto simp: leaves_alone_def being_closed_def close_requests_def)
next
  fix w w1 :: "'a guard_world"
  assume "(\<And>q. q \<in> set (listed w) \<Longrightarrow> ps_symbol q \<noteq> sy) \<Longrightarrow> leaves_alone sy w w1"
  then show "leaves_alone sy w w1" using being_closed_unlisted unfolding leaves_alone_def by blast
qed (auto simp: leaves_alone_def being_closed_def close_requests_def)

subsection \<open>Only listed positions are closed\<close>

definition core_of :: "pos_core \<Rightarrow> string \<times> string \<times> pyfloat" where
  "core_of p = (ps_symbol p, ps_side p, ps_size p)"

definition request_core :: "close_request \<Rightarrow> string \<times> string \<times> pyfloat" where
  "request_core q = (cq_symbol q, cq_side q, cq_size q)"

definition covered :: "(string \<times> string \<times> pyfloat) set \<Rightarrow> 'x guard_world \<Rightarrow> bool" where
  "covered S w = (core_of ` set (listed w) \<subseteq> S \<and> (\<forall>q. Ask_Close q \<in> set (gw_log w) \<longrightarrow> request_core q \<in> S))"

lemma d_vals_put: "set (d_vals (d_put d k v)) \<subseteq> insert v (set (d_vals d))"
  by (induction d k v rule: d_put.induct) (auto simp: d_vals_def)

lemma d_vals_pop: "set (d_vals (d_pop d k)) \<subseteq> set (d_vals d)"
  using set_d_pop_subset [of d k] by (auto simp: d_vals_def)

lemma core_of_truncate: "core_of (pos_core.truncate r) = (ps_symbol r, ps_side r, ps_size r)"
  by (simp add: core_of_def pos_core.defs)

lemma moved_cores:
  assumes "gw_positions w1 \<in> {mark_closing (gw_positions w) k reason, finalize_close (gw_positions w) k, update_mfe_mae (gw_positions w) k price}"
  shows "core_of ` set (listed w1) \<subseteq> core_of ` set (listed w)"
proof -
  let ?d = "sm_positions (gw_positions w)"
  have "r \<in> set (d_vals ?d)" if "d_get ?d k = Some r" for r using d_get_mem [OF that] by (force simp: d_vals_def)
  moreover have "ps_symbol (track_price r price) = ps_symbol r \<and> ps_side (track_price r price) = ps_side r \<and> ps_size (track_price r price) = ps_size r \<and>
      pr_closing (track_price r price) = pr_closing r" for r by (simp add: track_price_def Let_def)
  ultimately show ?thesis using assms d_vals_put [of ?d k] d_vals_pop [of ?d k]
    by (auto simp: set_listed image_image core_of_truncate mark_closing_def finalize_close_def update_mfe_mae_def split: option.splits if_splits)
      (fastforce simp: image_iff)+
qed

interpretation covering: guard_relation "\<lambda>w w1. covered S w \<longrightarrow> covered S w1" "\<lambda>p. core_of p \<in> S" for S
proof
  fix w w1 :: "'a guard_world" and p reason price
  assume "gw_log w1 = gw_log w" "gw_positions w1 \<in> {mark_closing (gw_positions w) (ps_symbol p) reason,
      finalize_close (gw_positions w) (ps_symbol p), update_mfe_mae (gw_positions w) (ps_symbol p) price}"
  then show "covered S w \<longrightarrow> covered S w1" using moved_cores [of w1 w "ps_symbol p" reason price] by (auto simp: covered_def)
next
  fix w w1 :: "'a guard_world" and ev
  assume "gw_positions w1 = gw_positions w" "gw_log w1 = gw_log w @ [ev]"
    "\<And>q. ev = Ask_Close q \<Longrightarrow> \<exists>p. core_of p \<in> S \<and> cq_symbol q = ps_symbol p \<and> cq_side q = ps_side p \<and> cq_size q = ps_size p"
  moreover from this(3) have "ev = Ask_Close q \<Longrightarrow> request_core q \<in> S" for q by (auto simp: core_of_def request_core_def)
  ultimately show "covered S w \<longrightarrow> covered S w1" by (auto simp: covered_def listed_def)
next
  fix w w1 :: "'a guard_world"
  assume "(\<And>q. q \<in> set (listed w) \<Longrightarrow> core_of q \<in> S) \<Longrightarrow> covered S w \<longrightarrow> covered S w1"
  then show "covered S w \<longrightarrow> covered S w1" unfolding covered_def by blast
next
  fix w w1 w2 :: "'a guard_world"
  show "covered S w \<longrightarrow> covered S w" by (rule impI)
  show "covered S w \<longrightarrow> covered S w1 \<Longrightarrow> covered S w1 \<longrightarrow> covered S w2 \<Longrightarrow> covered S w \<longrightarrow> covered S w2" by (iprover)
  show "gw_positions w1 = gw_positions w \<Longrightarrow> gw_log w1 = gw_log w \<Longrightarrow> covered S w \<longrightarrow> covered S w1"
    by (simp only: covered_def listed_def simp_thms)
qed

interpretation logging: guard_relation "\<lambda>w w1. \<exists>es. gw_log w1 = gw_log w @ es" "\<lambda>_. True"
  by unfold_locales (auto intro: exI [of _ "[]"])

section \<open>Closing, step by step\<close>

lemma g_then_Inr: "m w = (w1, Inr a) \<Longrightarrow> g_then m f w = f a w1"
  by (simp add: g_then_def)

lemma claim_granted:
  assumes "gs_idempotent c \<longrightarrow> (\<forall>x k. snd (ge_claim env x k) = Inr True)"
  obtains x where "claim_close env c cid w = (w\<lparr>gw_outside := x\<rparr>, Inr True)"
proof (cases "gs_idempotent c")
  case True
  obtain x r where "ge_claim env (gw_outside w) cid = (x, r)" by force
  moreover from this True assms have "r = Inr True" by (metis snd_conv)
  ultimately show ?thesis using True that [of x] by (simp add: claim_close_def g_catch_def g_call_def)
next
  case False
  then show ?thesis using that [of "gw_outside w"] by (simp add: claim_close_def g_return_def)
qed

lemma execute_market:
  assumes "\<not> gr_tp_limit_exit_enabled (gs_rules c) \<or> is_emergency_exit_reason (Some reason)"
  shows "execute_close_order env c p reason cid = g_then (ask_close env (market_close p cid)) (\<lambda>st. g_return (st, market_path))"
  using assms by (auto simp: execute_close_order_def Let_def)

text \<open>A claimed close marks the position, asks the exchange, and what follows depends on the answer.\<close>

definition marked_world :: "pos_core \<Rightarrow> string \<Rightarrow> 'x \<Rightarrow> 'x guard_world \<Rightarrow> 'x guard_world" where
  "marked_world p reason x w = w\<lparr>gw_outside := x, gw_closing := List.insert (ps_symbol p) (gw_closing w),
     gw_positions := mark_closing (gw_positions w) (ps_symbol p) reason\<rparr>"

lemma close_steps:
  assumes "gs_idempotent c \<longrightarrow> (\<forall>x k. snd (ge_claim env x k) = Inr True)"
    and "\<not> gr_tp_limit_exit_enabled (gs_rules c) \<or> is_emergency_exit_reason (Some reason)"
  obtains cid x where "guard_close_position env c p reason w =
    g_finally (g_then (ask_close env (market_close p cid)) (\<lambda>st. settle_close env c p reason cid (st, market_path)))
      (clear_closing (ps_symbol p)) (marked_world p reason x w)"
proof -
  obtain y t where now: "ge_now env (gw_outside w) = (y, t)" by force
  define cid where "cid = guard_client_order_id (ge_sha256 env) (ge_float_text env) (gs_bot_id c) p reason (retry_bucket c t)"
  obtain x where "claim_close env c cid (w\<lparr>gw_outside := y\<rparr>) = (w\<lparr>gw_outside := x\<rparr>, Inr True)"
    using claim_granted [OF assms(1), of cid "w\<lparr>gw_outside := y\<rparr>"] by auto
  then have "guard_close_position env c p reason w = g_finally
      (g_then (ask_close env (market_close p cid)) (\<lambda>st. settle_close env c p reason cid (st, market_path)))
      (clear_closing (ps_symbol p)) (marked_world p reason x w)"
    unfolding guard_close_position_def execute_market [OF assms(2)]
    by (simp add: g_then_def g_ask_def now cid_def [symmetric] g_finally_def g_change_def change_positions_def marked_world_def g_return_def
        case_prod_beta cong: sum.case_cong) (auto split: sum.split)
  then show thesis by (rule that)
qed

lemma close_asks:
  assumes "gs_idempotent c \<longrightarrow> (\<forall>x k. snd (ge_claim env x k) = Inr True)"
    and "\<not> gr_tp_limit_exit_enabled (gs_rules c) \<or> is_emergency_exit_reason (Some reason)"
  obtains cid es where "gw_log (fst (guard_close_position env c p reason w)) = gw_log w @ Ask_Close (market_close p cid) # es"
proof -
  obtain cid x where run: "guard_close_position env c p reason w =
      g_finally (g_then (ask_close env (market_close p cid)) (\<lambda>st. settle_close env c p reason cid (st, market_path)))
        (clear_closing (ps_symbol p)) (marked_world p reason x w)" using close_steps [OF assms] .
  let ?q = "market_close p cid" and ?settle = "\<lambda>st. settle_close env c p reason cid (st, market_path)"
  let ?w = "marked_world p reason x w"
  obtain y r where answer: "ge_close_position env x ?q = (y, r)" by force
  let ?v = "?w\<lparr>gw_log := gw_log w @ [Ask_Close ?q], gw_outside := y\<rparr>"
  have ask: "ask_close env ?q ?w = (?v, r)"
    by (simp add: ask_close_def g_then_def g_emit_def g_change_def g_call_def marked_world_def answer)
  have "\<exists>es. gw_log (fst (?settle st ?v)) = gw_log ?v @ es" for st
    using logging.by_settle [OF TrueI, of env c p reason cid "(st, market_path)"] unfolding runs_by_def by blast
  then have "\<exists>es. gw_log (fst (g_then (ask_close env ?q) ?settle ?w)) = gw_log ?v @ es"
    by (cases r) (auto simp: g_then_def ask)
  then show thesis using that [of cid] by (auto simp: run g_finally_def case_prod_beta clear_closing_def drop_symbol_def)
qed

text \<open>An answer that neither fills nor says that there is no position leaves the marked position as it is.\<close>

definition close_refused :: "py_error + order_status \<Rightarrow> bool" where
  "close_refused answer = (case answer of Inl e \<Rightarrow> True | Inr st \<Rightarrow> \<not> is_filled_status (ot_status st) \<and> \<not> no_position_rejected st)"

lemma fill_positions: "gw_positions (fst (fill_of env p st cid w)) = gw_positions w"
  by (simp add: fill_of_def g_then_def g_return_def g_ask_def Let_def case_prod_beta split: sum.split)

lemma refused_positions:
  assumes "\<not> is_filled_status (ot_status st)" "\<not> no_position_rejected st"
  shows "gw_positions (fst (settle_close env c p reason cid (st, path) w)) = gw_positions w"
proof -
  obtain w1 f where fill: "fill_of env p st cid w = (w1, f)" by force
  with fill_positions [of env p st cid w] have "gw_positions w1 = gw_positions w" by simp
  with fill assms show ?thesis
    by (cases f) (simp_all add: settle_close_def settle_unfilled_def g_then_def g_return_def g_read_def g_emit_def g_change_def Let_def case_prod_beta)
qed

lemma refused_close_marks:
  assumes "gs_idempotent c \<longrightarrow> (\<forall>x k. snd (ge_claim env x k) = Inr True)"
    and "\<not> gr_tp_limit_exit_enabled (gs_rules c) \<or> is_emergency_exit_reason (Some reason)"
    and "\<forall>x q. close_refused (snd (ge_close_position env x q))"
  shows "gw_positions (fst (guard_close_position env c p reason w)) = mark_closing (gw_positions w) (ps_symbol p) reason"
proof -
  obtain cid x where run: "guard_close_position env c p reason w =
      g_finally (g_then (ask_close env (market_close p cid)) (\<lambda>st. settle_close env c p reason cid (st, market_path)))
        (clear_closing (ps_symbol p)) (marked_world p reason x w)" using close_steps [OF assms(1,2)] .
  obtain y r where answer: "ge_close_position env x (market_close p cid) = (y, r)" by force
  with assms(3) have r: "close_refused r" by (metis snd_conv)
  show ?thesis using r
    by (cases r) (simp_all add: run g_finally_def g_then_def ask_close_def g_emit_def g_change_def g_call_def marked_world_def answer case_prod_beta
        clear_closing_def drop_symbol_def refused_positions close_refused_def)
qed

section \<open>Properties\<close>

text \<open>C36: The guard closes only what is open: over any ticks in any environment, whatever prices, predictions and answers it gets, each
  request to close is for a position that was open before, with its symbol, side and size.\<close>

theorem guard_closes_open_positions:
  assumes "Ask_Close q \<in> set (gw_log (guard_ticks c (guard_world_init m x) envs))"
  shows "\<exists>p \<in> set (list_positions m False). cq_symbol q = ps_symbol p \<and> cq_side q = ps_side p \<and> cq_size q = ps_size p"
proof -
  let ?w = "guard_world_init m x" and ?S = "core_of ` set (list_positions m False)"
  have "covered ?S ?w" by (simp add: covered_def guard_world_init_def listed_def)
  with covering.by_ticks [of ?S ?w c envs] have "covered ?S (guard_ticks c ?w envs)" by iprover
  with assms have "request_core q \<in> ?S" unfolding covered_def by iprover
  then show ?thesis by (auto simp: core_of_def request_core_def)
qed

text \<open>C35: A stop loss is executed: when an open position's price is on the wrong side of its stop, the guard's first request for it is a market
  order that closes the whole position, whatever the other rules and the caches say, provided the claim of the
  close is granted and the exchange is not asked about the protection.\<close>

theorem stop_loss_closes_at_market:
  assumes "reference_price env p w = Some price" and "ps_stop_loss p = Some s"
    and "pos_is_long p \<and> price \<le> s \<or> pos_is_short p \<and> s \<le> price"
    and "ps_symbol p \<notin> set (gw_closing w)" and "\<not> gr_verify_exchange_protection (gs_rules c)"
    and "gs_idempotent c \<longrightarrow> (\<forall>x k. snd (ge_claim env x k) = Inr True)"
  shows "\<exists>cid rest. gw_log (fst (guard_position env c now p w)) = gw_log w @ Ask_Close (market_close p cid) # rest"
proof -
  have "is_emergency_exit_reason (Some ''stop_loss_hit'')" by code_simp
  then have emergency: "\<not> gr_tp_limit_exit_enabled (gs_rules c) \<or> is_emergency_exit_reason (Some ''stop_loss_hit'')" ..
  have r: "snd (close_reason (gs_rules c) fee p price now peaks) = Some ''stop_loss_hit''"
    "apply_fee_check fee buffer slippage p price ''stop_loss_hit'' = None"
    "should_defer_soft_exit text_of (gs_rules c) fee buffer sts p ''stop_loss_hit'' price now pred = (sts, False)"
    for fee peaks buffer slippage text_of sts pred
    using stop_loss_rule [of "gs_rules c" fee p price now peaks] stop_loss_rule [of "gs_rules c" fee p price now peaks buffer slippage]
      stop_loss_rule [of "gs_rules c" fee p price now peaks buffer slippage text_of sts pred] assms(2,3) by blast+
  let ?w1 = "w\<lparr>gw_positions := update_mfe_mae (gw_positions w) (ps_symbol p) price,
      gw_peaks := fst (close_reason (gs_rules c) (gs_fee_model c) p price now (gw_peaks w))\<rparr>"
  have run: "guard_position env c now p w = guard_close_position env c p ''stop_loss_hit'' ?w1"
    using assms(1,4,5) by (simp add: guard_position_def evaluate_exit_def g_then_def g_read_def g_return_def g_change_def change_positions_def
        govern_max_age_def defer_exit_def case_prod_beta r Let_def)
  have log: "gw_log ?w1 = gw_log w" by simp
  obtain cid es where "gw_log (fst (guard_close_position env c p ''stop_loss_hit'' ?w1)) = gw_log ?w1 @ Ask_Close (market_close p cid) # es"
    using close_asks [OF assms(6) emergency] .
  then show ?thesis unfolding run log by iprover
qed

text \<open>C34: A refused close abandons the position: the guard marks a position before it asks the exchange and never takes the mark back, so when
  the exchange raises or refuses, the position stays marked, is listed no more, and no later tick in any environment ever
  asks to close it again, unless another component replaces it.\<close>

theorem refused_close_abandons:
  assumes "positions_keyed (gw_positions w)" and "p \<in> set (listed w)"
    and "gs_idempotent c \<longrightarrow> (\<forall>x k. snd (ge_claim env x k) = Inr True)" and "\<not> gr_tp_limit_exit_enabled (gs_rules c)"
    and "\<forall>x q. close_refused (snd (ge_close_position env x q))"
    and "w1 = fst (guard_close_position env c p reason w)" and "w2 = guard_ticks c w1 envs"
  shows "(\<exists>r. sm_get_position (gw_positions w2) (ps_symbol p) = Some r \<and> pr_closing r) \<and>
     ps_symbol p \<notin> ps_symbol ` set (listed w2) \<and> close_requests (ps_symbol p) w2 = close_requests (ps_symbol p) w1"
proof -
  have marked: "gw_positions w1 = mark_closing (gw_positions w) (ps_symbol p) reason"
    using refused_close_marks [OF assms(3) _ assms(5)] assms(4,6) by blast
  obtain k r where "(k, r) \<in> set (sm_positions (gw_positions w))" "p = pos_core.truncate r"
    using assms(2) unfolding set_listed by (auto simp: d_vals_def)
  moreover from this assms(1) have "ps_symbol p = k" by (auto simp: positions_keyed_def list_all_iff pos_core.defs)
  ultimately have "d_get (sm_positions (gw_positions w)) (ps_symbol p) = Some r" using assms(1) by (simp add: positions_keyed_def d_mem_get)
  then have "being_closed (ps_symbol p) w1" using position_step_keyed [OF assms(1), of "Closing (ps_symbol p) reason"]
    by (simp add: being_closed_def marked) (simp add: mark_closing_def)
  with idle.by_ticks [of "ps_symbol p" w1 c envs] have alone: "being_closed (ps_symbol p) w2" "close_requests (ps_symbol p) w2 = close_requests (ps_symbol p) w1"
    unfolding leaves_alone_def assms(7) by iprover+
  from alone(1) have "\<exists>r. sm_get_position (gw_positions w2) (ps_symbol p) = Some r \<and> pr_closing r"
    by (auto simp: being_closed_def sm_get_position_def split: option.splits)
  moreover have "ps_symbol p \<notin> ps_symbol ` set (listed w2)" using being_closed_unlisted [OF alone(1)] by fastforce
  ultimately show ?thesis using alone(2) by iprover
qed

text \<open>Without telemetry an unfilled close raises out of the tick.\<close>

lemma unfilled_close_raises:
  assumes "\<not> gs_telemetry c" "\<not> is_filled_status (ot_status st)"
  shows "snd (settle_close env c p reason cid (st, path) w) = Inl (OtherError ''AttributeError'')"
  using assms
  by (simp add: settle_close_def settle_unfilled_def fill_of_def g_then_def g_return_def g_read_def g_ask_def change_positions_def g_change_def
      Let_def case_prod_beta)

text \<open>The empty text or the zero that an exchange reports for a missing stop counts as protection.\<close>

lemma empty_stop_counts_as_protection:
  assumes "protective_field row [''takeProfit'', ''take_profit'', ''tp'', ''tpPrice''] ''takeProfit'' = Inr tp" "tp \<noteq> DNone"
    "filter py_truthy (field_values row [''stopLoss'', ''stop_loss'', ''sl'', ''slPrice'']) = []"
    "get_field row ''info'' DNone = DDict info" "d_get info ''stopLoss'' \<in> {Some (DStr []), Some (DInt 0)}"
    "normalize_exchange_symbol (Some (gs_exchange_id c)) (row_symbol text_of row) None =
       os_or (normalize_exchange_symbol (Some (gs_exchange_id c)) (Some (ps_symbol p)) None) (Some (ps_symbol p))"
  shows "protection_shown text_of c p [row] = Inr True"
proof -
  from assms(5) have "info \<noteq> []" by auto
  with assms(3,4,5) have "protective_field row [''stopLoss'', ''stop_loss'', ''sl'', ''slPrice''] ''stopLoss'' \<in> {Inr (DStr []), Inr (DInt 0)}"
    by (auto simp: protective_field_def py_or_def d_get_or_def)
  with assms(1,2,6) show ?thesis by (auto simp: protection_shown_def Let_def)
qed

section \<open>Examples\<close>

text \<open>An exchange that gives every close the same answer, at a fixed price.\<close>

definition sample_env :: "pyfloat \<Rightarrow> (py_error + order_status) \<Rightarrow> unit guard_env" where
  "sample_env price answer = \<lparr>ge_now = \<lambda>x. (x, 2000), ge_reference_price = \<lambda>x s. Some price, ge_best_bid_ask = \<lambda>x s. (None, None),
     ge_fetch_positions = \<lambda>x s. (x, None), ge_close_position = \<lambda>x q. (x, answer), ge_cancel_order = \<lambda>x a b d. (x, answer),
     ge_poll = \<lambda>x. (x, []), ge_fetch_executions = \<lambda>x s. (x, None), ge_claim = \<lambda>x k. (x, Inr True), ge_prediction = \<lambda>x s. (DNone, DNone),
     ge_kill_switch = \<lambda>x. (x, Inr True), ge_text_of = \<lambda>_. [], ge_float_text = \<lambda>_. [], ge_sha256 = \<lambda>s. s\<rparr>"

definition sample_settings :: guard_settings where
  "sample_settings = \<lparr>gs_rules = default_guard_rules, gs_close_dedupe_ttl_sec = 60, gs_tp_limit_fill_window_ms = 800,
     gs_tp_limit_poll_interval_ms = 150, gs_tp_limit_time_in_force = ''GTC'', gs_fee_model = None, gs_min_profit_buffer_bps = 5,
     gs_fee_check_slippage_bps = 2, gs_bot_id = ''b'', gs_exchange_id = ''bybit'', gs_idempotent = True, gs_telemetry = True, gs_alerts = False,
     gs_kill_switch = False, gs_snapshot_reader = False\<rparr>"

definition sample_open :: state_manager where
  "sample_open = add_position state_manager_init sample_position"

definition sample_filled :: order_status where
  "sample_filled = \<lparr>ot_order_id = Some ''o1'', ot_status = ''filled'', ot_fill_price = Some 89, ot_fee_usd = None, ot_filled_size = Some 1,
     ot_remaining_size = None, ot_reference_price = None, ot_timestamp = Some 2001, ot_source = None, ot_reason = None\<rparr>"

lemma sample_tick:
  "list_ex (\<lambda>ev. ev = Ask_Close (market_close sample_position ''qg-guard-guard:b:BTCUSDT:''))
     (gw_log (guard_ticks sample_settings (guard_world_init sample_open ()) [sample_env 89 (Inr sample_filled)]))"
  by code_simp

theorem guard_closes_open_positions_witness:
  "\<exists>p \<in> set (list_positions sample_open False). cq_size (market_close sample_position ''qg-guard-guard:b:BTCUSDT:'') = ps_size p"
proof -
  let ?q = "market_close sample_position ''qg-guard-guard:b:BTCUSDT:''"
  have "Ask_Close ?q \<in> set (gw_log (guard_ticks sample_settings (guard_world_init sample_open ()) [sample_env 89 (Inr sample_filled)]))"
    using sample_tick by (simp add: list_ex_iff)
  from guard_closes_open_positions [OF this] show ?thesis by blast
qed

theorem stop_loss_closes_at_market_witness:
  "\<exists>cid rest. gw_log (fst (guard_position (sample_env 89 (Inl (OtherError []))) sample_settings 2000 sample_position
     (guard_world_init sample_open ()))) = Ask_Close (market_close sample_position cid) # rest"
proof -
  have "ps_stop_loss sample_position = Some 90" "pos_is_long sample_position" by code_simp+
  moreover have "reference_price (sample_env 89 (Inl (OtherError []))) sample_position (guard_world_init sample_open ()) = Some 89"
    by (simp add: reference_price_def sample_env_def)
  ultimately show ?thesis
    using stop_loss_closes_at_market [of "sample_env 89 (Inl (OtherError []))" sample_position "guard_world_init sample_open ()" 89 90 sample_settings 2000]
    by (simp add: guard_world_init_def sample_settings_def sample_env_def default_guard_rules_def)
qed

definition sample_listed :: pos_core where
  "sample_listed = pos_core.truncate (fresh_position sample_position)"

theorem refused_close_abandons_witness:
  "ps_symbol sample_listed \<notin> ps_symbol ` set (listed (guard_ticks sample_settings
     (fst (guard_close_position (sample_env 89 (Inl (OtherError []))) sample_settings sample_listed ''stop_loss_hit'' (guard_world_init sample_open ())))
     [sample_env 80 (Inr sample_filled), sample_env 70 (Inr sample_filled)]))"
proof -
  let ?w = "guard_world_init sample_open ()" and ?env = "sample_env 89 (Inl (OtherError []))"
  have "positions_keyed (gw_positions ?w)" "list_ex (\<lambda>p. p = sample_listed) (listed ?w)" by code_simp+
  then have "positions_keyed (gw_positions ?w)" "sample_listed \<in> set (listed ?w)" by (simp_all add: list_ex_iff)
  from refused_close_abandons [OF this, of sample_settings ?env _ "''stop_loss_hit''"] show ?thesis
    by (simp add: sample_settings_def sample_env_def default_guard_rules_def close_refused_def)
qed

end
