(* ===== verification/EV_Costs.thy ===== *)
theory EV_Costs
  imports Fee_Model
begin

text \<open>
  What a trade is expected to cost: execution assumptions by kind of setup (quantgambit/execution/execution_policy.py), slippage and
  adverse selection (quantgambit/risk/slippage_model.py), and the estimator of the expected-value gate that puts
  them together (quantgambit/signals/stages/ev_gate.py, \<open>CostEstimator\<close>).  The values of the environment variables are the
  record of the slippage model and an argument.
\<close>

section \<open>Execution plans\<close>

record execution_plan =
  xp_entry_urgency :: string
  xp_exit_urgency :: string
  xp_p_entry_maker :: pyfloat
  xp_p_exit_maker :: pyfloat
  xp_entry_timeout_ms :: int
  xp_exit_timeout_ms :: int

definition valid_urgencies :: "string list" where "valid_urgencies = [''immediate'', ''patient'', ''passive'']"

text \<open>What \<open>__post_init__\<close> asks of a plan.\<close>

definition plan_ok :: "execution_plan \<Rightarrow> bool" where
  "plan_ok p = (0 \<le> xp_p_entry_maker p \<and> xp_p_entry_maker p \<le> 1 \<and> 0 \<le> xp_p_exit_maker p \<and> xp_p_exit_maker p \<le> 1 \<and>
     xp_entry_urgency p \<in> set valid_urgencies \<and> xp_exit_urgency p \<in> set valid_urgencies \<and>
     0 < xp_entry_timeout_ms p \<and> 0 < xp_exit_timeout_ms p)"

definition infer_setup_type :: "string \<Rightarrow> string" where
  "infer_setup_type strategy_id =
     (let s = py_lower strategy_id
      in if py_contains ''mean_reversion'' s \<or> py_contains ''fade'' s then ''mean_reversion''
         else if py_contains ''breakout'' s \<or> py_contains ''momentum'' s then ''breakout''
         else if py_contains ''pullback'' s \<or> py_contains ''trend'' s then ''trend_pullback''
         else if py_contains ''low_vol'' s \<or> py_contains ''grind'' s then ''low_vol_grind''
         else ''unknown'')"

definition plan_execution :: "bool \<Rightarrow> string \<Rightarrow> string option \<Rightarrow> execution_plan" where
  "plan_execution force_taker strategy_id setup =
     (if force_taker
      then \<lparr>xp_entry_urgency = ''immediate'', xp_exit_urgency = ''immediate'', xp_p_entry_maker = 0, xp_p_exit_maker = 0,
        xp_entry_timeout_ms = 500, xp_exit_timeout_ms = 1000\<rparr>
      else let s = (case setup of None \<Rightarrow> infer_setup_type strategy_id | Some t \<Rightarrow> t)
      in if s = ''mean_reversion''
         then \<lparr>xp_entry_urgency = ''immediate'', xp_exit_urgency = ''patient'', xp_p_entry_maker = fl (1 / 10), xp_p_exit_maker = fl (6 / 10),
           xp_entry_timeout_ms = 500, xp_exit_timeout_ms = 30000\<rparr>
         else if s = ''breakout''
         then \<lparr>xp_entry_urgency = ''immediate'', xp_exit_urgency = ''immediate'', xp_p_entry_maker = 0, xp_p_exit_maker = fl (1 / 10),
           xp_entry_timeout_ms = 200, xp_exit_timeout_ms = 1000\<rparr>
         else if s = ''trend_pullback''
         then \<lparr>xp_entry_urgency = ''patient'', xp_exit_urgency = ''immediate'', xp_p_entry_maker = fl (4 / 10), xp_p_exit_maker = fl (1 / 10),
           xp_entry_timeout_ms = 2000, xp_exit_timeout_ms = 500\<rparr>
         else if s = ''low_vol_grind''
         then \<lparr>xp_entry_urgency = ''passive'', xp_exit_urgency = ''passive'', xp_p_entry_maker = fl (7 / 10), xp_p_exit_maker = fl (7 / 10),
           xp_entry_timeout_ms = 5000, xp_exit_timeout_ms = 5000\<rparr>
         else \<lparr>xp_entry_urgency = ''immediate'', xp_exit_urgency = ''patient'', xp_p_entry_maker = 0, xp_p_exit_maker = 1 / 2,
           xp_entry_timeout_ms = 1000, xp_exit_timeout_ms = 2000\<rparr>)"

definition expected_fee :: "pyfloat \<Rightarrow> pyfloat \<Rightarrow> pyfloat \<Rightarrow> pyfloat" where
  "expected_fee p maker taker = fadd (fmul p maker) (fmul (fsub 1 p) taker)"

definition calculate_expected_fees_bps :: "fee_config \<Rightarrow> execution_plan \<Rightarrow> pyfloat \<Rightarrow> pyfloat \<Rightarrow> pyfloat \<Rightarrow> pyfloat" where
  "calculate_expected_fees_bps c plan entry_price exit_price sz =
     (let entry_fee = expected_fee (xp_p_entry_maker plan) (calculate_entry_fee c sz entry_price True) (calculate_entry_fee c sz entry_price False);
          exit_fee = expected_fee (xp_p_exit_maker plan) (calculate_exit_fee c sz exit_price True) (calculate_exit_fee c sz exit_price False)
      in fadd (bps_of_notional entry_fee (fmul sz entry_price)) (bps_of_notional exit_fee (fmul sz exit_price)))"

section \<open>Slippage\<close>

record slippage_model =
  sl_multiplier :: pyfloat
  sl_floor_override_bps :: pyfloat
  sl_max_slippage_bps :: pyfloat
  sl_min_depth_usd :: pyfloat
  sl_max_depth_factor :: pyfloat

definition default_slippage_model :: slippage_model where
  "default_slippage_model = \<lparr>sl_multiplier = 1, sl_floor_override_bps = 0, sl_max_slippage_bps = 250, sl_min_depth_usd = 500,
     sl_max_depth_factor = 10\<rparr>"

definition symbol_floors :: "(string, pyfloat) dict" where
  "symbol_floors = [(''BTCUSDT'', 1 / 2), (''ETHUSDT'', fl (8 / 10)), (''SOLUSDT'', 2), (''BNBUSDT'', 1), (''ADAUSDT'', 5 / 2),
     (''DOGEUSDT'', 3), (''XRPUSDT'', 3 / 2)]"

definition volatility_multiplier :: "string option \<Rightarrow> pyfloat" where
  "volatility_multiplier regime = (case regime of None \<Rightarrow> 1
     | Some r \<Rightarrow> d_get_or [(''low'', fl (8 / 10)), (''normal'', 1), (''high'', 3 / 2), (''extreme'', 5 / 2)] (py_lower r) 1)"

definition urgency_multiplier :: "string option \<Rightarrow> pyfloat" where
  "urgency_multiplier urgency = (case urgency of None \<Rightarrow> 1
     | Some u \<Rightarrow> d_get_or [(''passive'', 1 / 2), (''patient'', fl (8 / 10)), (''immediate'', fl (12 / 10))] (py_lower u) 1)"

definition slippage_base :: "slippage_model \<Rightarrow> string \<Rightarrow> pyfloat" where
  "slippage_base m symbol = max (d_get_or symbol_floors symbol 2) (sl_floor_override_bps m)"

definition spread_factor :: "pyfloat \<Rightarrow> pyfloat" where "spread_factor spread_bps = max 1 (fl (spread_bps / 2))"

definition depth_factor :: "slippage_model \<Rightarrow> pyfloat option \<Rightarrow> pyfloat option \<Rightarrow> py_error + pyfloat" where
  "depth_factor m book_depth order_size = (case (book_depth, order_size) of
       (Some b, Some sz) \<Rightarrow>
         if 0 < sz then (case fdiv sz (max b (sl_min_depth_usd m)) of
             Inl e \<Rightarrow> Inl e
           | Inr ratio \<Rightarrow> Inr (min (fadd 1 (fmul ratio 10)) (sl_max_depth_factor m)))
         else Inr 1
     | _ \<Rightarrow> Inr 1)"

text \<open>The product of the factors, from the left, then the floor, the global multiplier and the cap.\<close>

definition combined_slippage :: "slippage_model \<Rightarrow> pyfloat \<Rightarrow> pyfloat \<Rightarrow> pyfloat \<Rightarrow> pyfloat \<Rightarrow> pyfloat \<Rightarrow> pyfloat" where
  "combined_slippage m base spread depth vol urgency =
     (let s = max base (fmul (fmul (fmul (fmul base spread) depth) vol) urgency)
      in min (max (fmul base (sl_multiplier m)) (fmul s (sl_multiplier m))) (sl_max_slippage_bps m))"

definition calculate_slippage_bps ::
  "slippage_model \<Rightarrow> string \<Rightarrow> pyfloat \<Rightarrow> pyfloat option \<Rightarrow> pyfloat option \<Rightarrow> string option \<Rightarrow> string option \<Rightarrow> py_error + pyfloat" where
  "calculate_slippage_bps m symbol spread_bps book_depth order_size regime urgency =
     (case depth_factor m book_depth order_size of
        Inl e \<Rightarrow> Inl e
      | Inr d \<Rightarrow> Inr (combined_slippage m (slippage_base m symbol) (spread_factor spread_bps) d (volatility_multiplier regime)
          (urgency_multiplier urgency)))"

record slippage_estimate =
  se_slippage_bps :: pyfloat
  se_base_bps :: pyfloat
  se_spread_factor :: pyfloat
  se_depth_factor :: pyfloat
  se_volatility_multiplier :: pyfloat
  se_urgency_multiplier :: pyfloat

definition calculate_slippage_with_detail ::
  "slippage_model \<Rightarrow> string \<Rightarrow> pyfloat \<Rightarrow> pyfloat option \<Rightarrow> pyfloat option \<Rightarrow> string option \<Rightarrow> string option \<Rightarrow> py_error + slippage_estimate" where
  "calculate_slippage_with_detail m symbol spread_bps book_depth order_size regime urgency =
     (case depth_factor m book_depth order_size of
        Inl e \<Rightarrow> Inl e
      | Inr d \<Rightarrow> (let base = slippage_base m symbol; sf = spread_factor spread_bps; vol = volatility_multiplier regime; u = urgency_multiplier urgency
          in Inr \<lparr>se_slippage_bps = combined_slippage m base sf d vol u, se_base_bps = fmul base (sl_multiplier m), se_spread_factor = sf,
               se_depth_factor = d, se_volatility_multiplier = vol, se_urgency_multiplier = u\<rparr>))"

definition adverse_selection_base :: "(string, pyfloat) dict" where
  "adverse_selection_base = [(''BTCUSDT'', 1), (''ETHUSDT'', fl (12 / 10)), (''SOLUSDT'', 2), (''BNBUSDT'', 3 / 2), (''ADAUSDT'', 5 / 2),
     (''DOGEUSDT'', 3), (''XRPUSDT'', fl (18 / 10))]"

definition calculate_adverse_selection_bps :: "string \<Rightarrow> string option \<Rightarrow> pyfloat option \<Rightarrow> pyfloat" where
  "calculate_adverse_selection_bps symbol regime hold =
     (let base = d_get_or adverse_selection_base symbol (3 / 2);
          time = (case hold of Some h \<Rightarrow> if 0 < h then fadd 1 (fmul (fl (h / 300)) (fl (1 / 10))) else 1 | None \<Rightarrow> 1)
      in fmul (fmul base (volatility_multiplier regime)) time)"

record cost_breakdown =
  cb_fee_bps :: pyfloat
  cb_spread_bps :: pyfloat
  cb_slippage_bps :: pyfloat
  cb_adverse_selection_bps :: pyfloat
  cb_total_bps :: pyfloat

definition stress_multiplier :: "pyfloat option \<Rightarrow> string option \<Rightarrow> pyfloat" where
  "stress_multiplier percentile regime =
     (let m = (case percentile of Some p \<Rightarrow> if 70 < p then 3 / 2 else 1 | None \<Rightarrow> 1)
      in case regime of Some r \<Rightarrow> if py_lower r \<in> {''high'', ''extreme''} then fmul m (fl (18 / 10)) else m | None \<Rightarrow> m)"

definition calculate_stress_costs :: "cost_breakdown \<Rightarrow> pyfloat option \<Rightarrow> string option \<Rightarrow> cost_breakdown" where
  "calculate_stress_costs c percentile regime =
     (let k = stress_multiplier percentile regime;
          spread = fmul (cb_spread_bps c) k; slip = fmul (cb_slippage_bps c) k; adverse = fmul (cb_adverse_selection_bps c) k
      in \<lparr>cb_fee_bps = cb_fee_bps c, cb_spread_bps = spread, cb_slippage_bps = slip, cb_adverse_selection_bps = adverse,
          cb_total_bps = fadd (fadd (fadd (cb_fee_bps c) spread) slip) adverse\<rparr>)"

section \<open>The estimator\<close>

record cost_estimator =
  ce_fee_config :: fee_config
  ce_force_taker :: bool
  ce_slippage_model :: slippage_model

text \<open>The default fees: those named by the environment if there are such, else by the exchange's name.\<close>

definition named_fees :: "string \<Rightarrow> fee_config option" where
  "named_fees name = d_get [(''okx_regular'', okx_regular), (''okx_vip1'', okx_vip1), (''okx_vip2'', okx_vip2), (''bybit_regular'', bybit_regular),
     (''bybit_vip1'', bybit_vip1), (''bybit_spot'', bybit_spot), (''okx_spot'', okx_spot), (''binance_spot'', binance_spot)] name"

definition resolve_default_fees :: "string \<Rightarrow> string \<Rightarrow> fee_config" where
  "resolve_default_fees config_name exchange =
     (let dflt = (if py_contains ''bybit'' (py_lower (strip exchange)) then bybit_regular else okx_regular); n = py_lower (strip config_name)
      in if n = [] then dflt else case named_fees n of Some c \<Rightarrow> c | None \<Rightarrow> dflt)"

record cost_request =
  cr_symbol :: string
  cr_strategy_id :: string
  cr_setup_type :: string
  cr_entry_price :: pyfloat
  cr_exit_price :: pyfloat
  cr_size :: pyfloat
  cr_best_bid :: pyfloat
  cr_best_ask :: pyfloat
  cr_order_size_usd :: pyfloat
  cr_volatility_regime :: "string option"
  cr_bid_depth_usd :: "pyfloat option"
  cr_ask_depth_usd :: "pyfloat option"
  cr_hold_time_sec :: pyfloat
  cr_observed_slippage_bps :: "pyfloat option"

definition estimated_spread_bps :: "cost_request \<Rightarrow> pyfloat" where
  "estimated_spread_bps q =
     (let mid = (if 0 < cr_best_bid q \<and> 0 < cr_best_ask q then fl (fadd (cr_best_bid q) (cr_best_ask q) / 2) else cr_entry_price q)
      in if 0 < mid then fmul (fl (fsub (cr_best_ask q) (cr_best_bid q) / mid)) 10000 else 0)"

definition thinner_depth :: "cost_request \<Rightarrow> pyfloat option" where
  "thinner_depth q = (if f_truthy (cr_bid_depth_usd q) \<and> f_truthy (cr_ask_depth_usd q)
     then Some (min (the (cr_bid_depth_usd q)) (the (cr_ask_depth_usd q))) else None)"

definition cost_parts :: "pyfloat \<Rightarrow> pyfloat \<Rightarrow> pyfloat \<Rightarrow> pyfloat \<Rightarrow> cost_breakdown" where
  "cost_parts spread fee slip adverse = \<lparr>cb_fee_bps = fee, cb_spread_bps = spread, cb_slippage_bps = slip, cb_adverse_selection_bps = adverse,
     cb_total_bps = fadd (fadd (fadd spread fee) slip) adverse\<rparr>"

definition estimate_costs :: "cost_estimator \<Rightarrow> cost_request \<Rightarrow> py_error + cost_breakdown" where
  "estimate_costs e q =
     (let spread = estimated_spread_bps q; plan = plan_execution (ce_force_taker e) (cr_strategy_id q) (Some (cr_setup_type q));
          fee = calculate_expected_fees_bps (ce_fee_config e) plan (cr_entry_price q) (cr_exit_price q) (cr_size q)
      in case calculate_slippage_bps (ce_slippage_model e) (cr_symbol q) spread (thinner_depth q) (Some (cr_order_size_usd q))
             (cr_volatility_regime q) (Some (xp_entry_urgency plan)) of
           Inl x \<Rightarrow> Inl x
         | Inr modelled \<Rightarrow>
             (let slip = (case cr_observed_slippage_bps q of Some v \<Rightarrow> if 0 < v then max modelled v else modelled | None \<Rightarrow> modelled);
                  regime = (if s_truthy (cr_volatility_regime q) then cr_volatility_regime q else Some ''normal'');
                  adverse = calculate_adverse_selection_bps (cr_symbol q) regime (Some (cr_hold_time_sec q))
              in Inr (cost_parts spread fee slip adverse)))"

section \<open>Library\<close>

lemma fmul_le: "0 \<le> a \<Longrightarrow> 0 \<le> b' \<Longrightarrow> a \<le> a' \<Longrightarrow> b \<le> b' \<Longrightarrow> fmul a b \<le> fmul a' b'"
proof -
  assume h: "0 \<le> a" "0 \<le> b'" "a \<le> a'" "b \<le> b'"
  then have "a * b \<le> a' * b'" using mult_mono [of a a' b b'] by (meson mult_left_mono mult_right_mono order_trans)
  then show ?thesis by (simp add: fmul_def fl_mono)
qed

lemma fmul_ge_zero [simp]: "0 \<le> a \<Longrightarrow> 0 \<le> b \<Longrightarrow> 0 \<le> fmul a b"
  by (simp add: fmul_def)

lemma multipliers_nonneg [simp]: "0 \<le> volatility_multiplier r" "0 \<le> urgency_multiplier u" "0 \<le> slippage_base m s"
proof -
  show "0 \<le> volatility_multiplier r" "0 \<le> urgency_multiplier u"
    by (simp_all add: volatility_multiplier_def urgency_multiplier_def d_get_or_def split: option.split)
  have "0 \<le> d_get_or symbol_floors s 2" by (simp add: symbol_floors_def d_get_or_def)
  then show "0 \<le> slippage_base m s" by (simp add: slippage_base_def le_max_iff_disj)
qed

lemma spread_factor_mono: "a \<le> b \<Longrightarrow> spread_factor a \<le> spread_factor b" "1 \<le> spread_factor a"
proof -
  show "spread_factor a \<le> spread_factor b" if "a \<le> b"
    using that unfolding spread_factor_def by (intro max.mono fl_mono order_refl) simp
qed (simp add: spread_factor_def)

lemma depth_factor_mono:
  assumes "0 < sl_min_depth_usd m" "1 \<le> sl_max_depth_factor m" "0 < sz" "sz \<le> sz'" "b' \<le> b"
  obtains d d' where "depth_factor m (Some b) (Some sz) = Inr d" "depth_factor m (Some b') (Some sz') = Inr d'" "0 \<le> d" "d \<le> d'"
proof -
  let ?k = "max b (sl_min_depth_usd m)" and ?k' = "max b' (sl_min_depth_usd m)"
  have k: "0 < ?k'" "?k' \<le> ?k" "0 < ?k" using assms(1,5) by auto
  have "sz / ?k \<le> sz' / ?k'" using k assms(3,4) by (intro frac_le) auto
  then have "fadd 1 (fmul (fl (sz / ?k)) 10) \<le> fadd 1 (fmul (fl (sz' / ?k')) 10)"
    unfolding fadd_def fmul_def by (intro fl_mono add_left_mono mult_right_mono) simp_all
  moreover have "0 \<le> fadd 1 (fmul (fl (sz / ?k)) 10)" using k assms(3) by (intro fadd_nonneg) simp_all
  ultimately show thesis using k assms(2,3,4)
    by (intro that [of "min (fadd 1 (fmul (fl (sz / ?k)) 10)) (sl_max_depth_factor m)" "min (fadd 1 (fmul (fl (sz' / ?k')) 10)) (sl_max_depth_factor m)"])
      (auto simp: depth_factor_def fdiv_def intro: min.mono)
qed

lemma combined_slippage_mono:
  assumes "0 \<le> sl_multiplier m" "0 \<le> base" "0 \<le> spread" "spread \<le> spread'" "0 \<le> d" "d \<le> d'" "0 \<le> v" "0 \<le> u"
  shows "combined_slippage m base spread d v u \<le> combined_slippage m base spread' d' v u"
proof -
  let ?p = "fmul (fmul (fmul (fmul base spread) d) v) u" and ?p' = "fmul (fmul (fmul (fmul base spread') d') v) u"
  have "0 \<le> spread'" "0 \<le> d'" using assms by linarith+
  then have pp: "?p \<le> ?p'" using assms by (intro fmul_le fmul_ge_zero order_refl) assumption+
  have "fmul (max base ?p) (sl_multiplier m) \<le> fmul (max base ?p') (sl_multiplier m)"
    by (rule fmul_mono [OF assms(1) max.mono [OF order_refl pp]])
  then show ?thesis unfolding combined_slippage_def Let_def by (intro min.mono max.mono order_refl)
qed

lemma plan_probabilities: "plan_ok (plan_execution force strategy setup)"
proof -
  have "fl x \<le> 1" if "x \<le> 1" for x using fl_mono [OF that] by simp
  then show ?thesis by (simp add: plan_execution_def plan_ok_def valid_urgencies_def Let_def)
qed

section \<open>Properties\<close>

text \<open>Slippage estimates are never optimistic about size: with the same symbol, regime and urgency, a larger order in a thinner book at a
  wider spread is never estimated to slip less, and an estimate is at least the symbol's floor times the multiplier, up to the cap.\<close>

theorem slippage_grows:
  assumes "0 < sl_min_depth_usd m" and "1 \<le> sl_max_depth_factor m" and "0 \<le> sl_multiplier m"
    and "0 < sz" and "sz \<le> sz'" and "b' \<le> b" and "spread \<le> spread'"
  shows "\<exists>s s'. calculate_slippage_bps m symbol spread (Some b) (Some sz) regime urgency = Inr s \<and>
     calculate_slippage_bps m symbol spread' (Some b') (Some sz') regime urgency = Inr s' \<and> s \<le> s' \<and>
     min (fmul (slippage_base m symbol) (sl_multiplier m)) (sl_max_slippage_bps m) \<le> s \<and> s' \<le> sl_max_slippage_bps m"
proof -
  obtain d d' where d: "depth_factor m (Some b) (Some sz) = Inr d" "depth_factor m (Some b') (Some sz') = Inr d'" "0 \<le> d" "d \<le> d'"
    using depth_factor_mono [OF assms(1,2,4,5,6)] .
  let ?c = "\<lambda>sp d. combined_slippage m (slippage_base m symbol) (spread_factor sp) d (volatility_multiplier regime) (urgency_multiplier urgency)"
  have "?c spread d \<le> ?c spread' d'"
    using assms(3) d(3,4) spread_factor_mono(1) [of spread spread'] assms(7) order_trans [OF zero_le_one spread_factor_mono(2)]
    by (intro combined_slippage_mono) simp_all
  moreover have "min (fmul (slippage_base m symbol) (sl_multiplier m)) (sl_max_slippage_bps m) \<le> ?c spread d" "?c spread' d' \<le> sl_max_slippage_bps m"
    by (simp_all add: combined_slippage_def Let_def min.coboundedI1 le_max_iff_disj)
  ultimately show ?thesis by (simp add: calculate_slippage_bps_def d)
qed

theorem slippage_grows_witness:
  "\<exists>s s'. calculate_slippage_bps default_slippage_model ''BTCUSDT'' 1 (Some 50000) (Some 1000) None None = Inr s \<and>
     calculate_slippage_bps default_slippage_model ''BTCUSDT'' 4 (Some 20000) (Some 5000) None None = Inr s' \<and> s \<le> s'"
  using slippage_grows [of default_slippage_model 1000 5000 20000 50000 1 4 "''BTCUSDT''"]
  by (fastforce simp: default_slippage_model_def)

text \<open>The two estimators agree, and the detailed one shows the factors used.\<close>

lemma detail_agrees:
  "map_sum id se_slippage_bps (calculate_slippage_with_detail m symbol spread b sz regime urgency) =
     calculate_slippage_bps m symbol spread b sz regime urgency"
  by (simp add: calculate_slippage_with_detail_def calculate_slippage_bps_def Let_def split: sum.split)

end
