(* ===== verification/Calibration_State.thy ===== *)
theory Calibration_State
  imports Py_Float Py_Strings
begin

text \<open>
  The calibration state machine (quantgambit/signals/services/calibration_state.py): how much a strategy's own probability is
  believed, from the number of its trades and the reliability of its calibration, and how a new strategy is sized.  The
  values of the environment variables are arguments.
\<close>

datatype calibration_stage = COLD | WARMING | CALIBRATED

fun stage_value :: "calibration_stage \<Rightarrow> string" where
  "stage_value COLD = ''cold''"
| "stage_value WARMING = ''warming''"
| "stage_value CALIBRATED = ''ok''"

record calibration_env =
  cl_min_shrinkage_weight :: pyfloat
  cl_cold_min_edge_bps :: pyfloat
  cl_warm_min_edge_bps :: pyfloat

definition default_calibration_env :: calibration_env where
  "default_calibration_env = \<lparr>cl_min_shrinkage_weight = fl (2 / 10), cl_cold_min_edge_bps = 4, cl_warm_min_edge_bps = 2\<rparr>"

record calibration_status =
  cs_state :: calibration_stage
  cs_n_trades :: int
  cs_reliability :: pyfloat
  cs_p_effective :: pyfloat
  cs_p_prior :: pyfloat
  cs_p_observed :: "pyfloat option"
  cs_shrinkage_weight :: pyfloat
  cs_size_multiplier :: pyfloat
  cs_max_cost_bps_adjustment :: pyfloat
  cs_min_edge_bps_adjustment :: pyfloat

definition strategy_priors :: "(string \<times> pyfloat) list" where
  "strategy_priors = [(''mean_reversion'', fl (48 / 100)), (''breakout'', fl (45 / 100)), (''trend_pullback'', fl (47 / 100)),
     (''low_vol_grind'', fl (48 / 100)), (''default'', fl (45 / 100))]"

definition get_calibration_state :: "int \<Rightarrow> pyfloat option \<Rightarrow> calibration_stage" where
  "get_calibration_state n reliability =
     (if n < 30 then COLD
      else if n < 200 then WARMING
      else if (case reliability of Some r \<Rightarrow> r < fl (4 / 10) | None \<Rightarrow> False) then WARMING
      else CALIBRATED)"

definition get_strategy_prior :: "string \<Rightarrow> pyfloat" where
  "get_strategy_prior strategy_id =
     (let s = py_lower strategy_id
      in if py_contains ''scalp'' s then fl (48 / 100)
         else case filter (\<lambda>(family, prior). py_contains family s) strategy_priors of
             (family, prior) # _ \<Rightarrow> prior
           | [] \<Rightarrow> fl (45 / 100))"

definition unit_clamp :: "pyfloat \<Rightarrow> pyfloat" where "unit_clamp x = min 1 (max 0 x)"

definition compute_shrinkage_weight :: "calibration_env \<Rightarrow> int \<Rightarrow> pyfloat" where
  "compute_shrinkage_weight env n =
     (let w = unit_clamp (fl (of_int n / 200))
      in if n < 30 then max w (unit_clamp (cl_min_shrinkage_weight env)) else w)"

definition compute_effective_probability :: "calibration_env \<Rightarrow> pyfloat option \<Rightarrow> pyfloat \<Rightarrow> int \<Rightarrow> pyfloat option \<Rightarrow> pyfloat" where
  "compute_effective_probability env observed prior n weight = (case observed of
       None \<Rightarrow> prior
     | Some p \<Rightarrow> (let w = (case weight of Some x \<Rightarrow> x | None \<Rightarrow> compute_shrinkage_weight env n)
         in fadd (fmul w p) (fmul (fsub 1 w) prior)))"

text \<open>Size multiplier, additional costs and additional edge.\<close>

fun get_cold_start_adjustments :: "calibration_env \<Rightarrow> calibration_stage \<Rightarrow> pyfloat \<times> pyfloat \<times> pyfloat" where
  "get_cold_start_adjustments env COLD = (1 / 4, 3, cl_cold_min_edge_bps env)"
| "get_cold_start_adjustments env WARMING = (1 / 2, 3 / 2, cl_warm_min_edge_bps env)"
| "get_cold_start_adjustments env CALIBRATED = (1, 0, 0)"

definition evaluate_calibration :: "calibration_env \<Rightarrow> string \<Rightarrow> int \<Rightarrow> pyfloat option \<Rightarrow> pyfloat option \<Rightarrow> calibration_status" where
  "evaluate_calibration env strategy_id n observed reliability =
     (let st = get_calibration_state n reliability; prior = get_strategy_prior strategy_id;
          w = (if observed = None then 0 else compute_shrinkage_weight env n);
          p = compute_effective_probability env observed prior n (Some w);
          (size_mult, cost_adj, edge_adj) = get_cold_start_adjustments env st;
          rel = (case reliability of Some r \<Rightarrow> r
            | None \<Rightarrow> (case st of COLD \<Rightarrow> 0 | WARMING \<Rightarrow> fadd (fl (3 / 10)) (fmul (fl (4 / 10)) w) | CALIBRATED \<Rightarrow> fl (8 / 10)))
      in \<lparr>cs_state = st, cs_n_trades = n, cs_reliability = rel, cs_p_effective = p, cs_p_prior = prior, cs_p_observed = observed,
          cs_shrinkage_weight = w, cs_size_multiplier = size_mult, cs_max_cost_bps_adjustment = cost_adj, cs_min_edge_bps_adjustment = edge_adj\<rparr>)"

section \<open>Library\<close>

fun stage_rank :: "calibration_stage \<Rightarrow> nat" where
  "stage_rank COLD = 0"
| "stage_rank WARMING = 1"
| "stage_rank CALIBRATED = 2"

lemma state_mono: "n \<le> n' \<Longrightarrow> stage_rank (get_calibration_state n r) \<le> stage_rank (get_calibration_state n' r)"
  by (simp add: get_calibration_state_def split: option.split)

lemma size_by_rank: "fst (get_cold_start_adjustments env st) = (1 / 4) * 2 ^ stage_rank st"
  by (cases st) simp_all

lemma shrinkage_weight_bounds: "0 \<le> compute_shrinkage_weight env n" "compute_shrinkage_weight env n \<le> 1"
  by (auto simp: compute_shrinkage_weight_def unit_clamp_def Let_def le_max_iff_disj)

lemma prior_bounds: "fl (45 / 100) \<le> get_strategy_prior s" "get_strategy_prior s \<le> fl (48 / 100)"
  by (auto simp: get_strategy_prior_def strategy_priors_def Let_def intro: fl_mono)

lemma status_size: "cs_size_multiplier (evaluate_calibration env s n obs r) = fst (get_cold_start_adjustments env (get_calibration_state n r))"
  by (simp add: evaluate_calibration_def case_prod_beta Let_def)

lemma status_edge: "cs_min_edge_bps_adjustment (evaluate_calibration env s n obs r) = snd (snd (get_cold_start_adjustments env (get_calibration_state n r)))"
  by (simp add: evaluate_calibration_def case_prod_beta Let_def)

lemma status_state [simp]: "cs_state (evaluate_calibration env s n obs r) = get_calibration_state n r"
  by (simp add: evaluate_calibration_def case_prod_beta Let_def)

section \<open>Properties\<close>

text \<open>Experience never counts against a strategy: with the same reliability, more trades never lower the stage of calibration, the size
  multiplier never shrinks and the additional edge asked for never grows, as long as the environment asks for more of
  a cold strategy than of a warming one and for nothing negative.\<close>

theorem experience_never_hurts:
  assumes "n \<le> n'" and "0 \<le> cl_warm_min_edge_bps env" and "cl_warm_min_edge_bps env \<le> cl_cold_min_edge_bps env"
  shows "stage_rank (cs_state (evaluate_calibration env s n obs r)) \<le> stage_rank (cs_state (evaluate_calibration env s' n' obs' r)) \<and>
     cs_size_multiplier (evaluate_calibration env s n obs r) \<le> cs_size_multiplier (evaluate_calibration env s' n' obs' r) \<and>
     cs_min_edge_bps_adjustment (evaluate_calibration env s' n' obs' r) \<le> cs_min_edge_bps_adjustment (evaluate_calibration env s n obs r)"
  using state_mono [OF assms(1), of r] assms(2,3)
  by (cases "get_calibration_state n r"; cases "get_calibration_state n' r") (simp_all add: status_size status_edge)

theorem experience_never_hurts_witness:
  "cs_size_multiplier (evaluate_calibration default_calibration_env ''scalp'' 10 None None) \<le>
   cs_size_multiplier (evaluate_calibration default_calibration_env ''scalp'' 250 None None)"
  using experience_never_hurts [of 10 250 default_calibration_env "''scalp''" None None "''scalp''" None] by (simp add: default_calibration_env_def)

text \<open>With a reliability below the limit a strategy with any number of trades stays on half size.\<close>

lemma unreliable_stays_warming:
  "200 \<le> n \<Longrightarrow> r < fl (4 / 10) \<Longrightarrow> cs_size_multiplier (evaluate_calibration env s n obs (Some r)) = 1 / 2"
  by (simp add: status_size get_calibration_state_def)

end
