(* ===== verification/EV_Gate.thy ===== *)
theory EV_Gate
  imports EV_Costs Calibration_State Py_Data Global_Gate
begin

text \<open>
  The expected-value gate (quantgambit/signals/stages/ev_gate.py): an entry passes if its expected value in units of the stop
  distance, after costs, reaches a threshold that adapts to the market and to what is known about the strategy.  Signal,
  market context and features are records of the entries the gate reads; an absent entry is \<open>None\<close>, and a present one has a value
  of its documented type.  \<open>a or b\<close> on numbers is \<open>of_or\<close>.  A ratio that would be NaN or infinite is \<open>None\<close>.  The values of
  environment variables and the readings of the clock are arguments.  Reasons are constructors; diagnostics, telemetry and
  metrics are left out.
\<close>

section \<open>Configuration\<close>

record ev_gate_config =
  eg_ev_min :: pyfloat
  eg_ev_min_floor :: pyfloat
  eg_adverse_selection_bps :: pyfloat
  eg_min_slippage_bps :: pyfloat
  eg_max_book_age_ms :: pyfloat
  eg_max_spread_age_ms :: pyfloat
  eg_min_stop_distance_bps :: pyfloat
  eg_p_margin_uncalibrated :: pyfloat
  eg_min_reliability_score :: pyfloat
  eg_min_expected_edge_bps :: pyfloat
  eg_min_edge_by_symbol :: "(string, pyfloat) dict"
  eg_min_edge_by_side :: "(string, pyfloat) dict"
  eg_min_edge_by_symbol_side :: "(string, pyfloat) dict"
  eg_max_exchange_latency_ms :: pyfloat
  eg_relaxation_spread_percentile :: pyfloat
  eg_relaxation_multiplier :: pyfloat
  eg_tightening_spread_percentile :: pyfloat
  eg_tightening_multiplier :: pyfloat
  eg_mode :: string

definition default_ev_gate_config :: ev_gate_config where
  "default_ev_gate_config = \<lparr>eg_ev_min = fl (2 / 100), eg_ev_min_floor = fl (1 / 100), eg_adverse_selection_bps = 3 / 2, eg_min_slippage_bps = 1 / 2,
     eg_max_book_age_ms = 250, eg_max_spread_age_ms = 250, eg_min_stop_distance_bps = 5, eg_p_margin_uncalibrated = fl (3 / 100),
     eg_min_reliability_score = fl (6 / 10), eg_min_expected_edge_bps = 0, eg_min_edge_by_symbol = [], eg_min_edge_by_side = [],
     eg_min_edge_by_symbol_side = [], eg_max_exchange_latency_ms = 500, eg_relaxation_spread_percentile = fl (3 / 10),
     eg_relaxation_multiplier = fl (8 / 10), eg_tightening_spread_percentile = fl (7 / 10), eg_tightening_multiplier = 5 / 4, eg_mode = ''enforce''\<rparr>"

text \<open>The first failing check of \<open>__post_init__\<close>, by the field it names.\<close>

definition ev_config_error :: "ev_gate_config \<Rightarrow> string option" where
  "ev_config_error c =
     (if eg_ev_min c < 0 then Some ''ev_min''
      else if eg_ev_min_floor c < 0 \<or> eg_ev_min c < eg_ev_min_floor c then Some ''ev_min_floor''
      else if eg_adverse_selection_bps c < 0 then Some ''adverse_selection_bps''
      else if eg_min_slippage_bps c < 0 then Some ''min_slippage_bps''
      else if eg_max_book_age_ms c \<le> 0 then Some ''max_book_age_ms''
      else if eg_max_exchange_latency_ms c \<le> 0 then Some ''max_exchange_latency_ms''
      else if eg_min_stop_distance_bps c \<le> 0 then Some ''min_stop_distance_bps''
      else if eg_min_expected_edge_bps c < 0 then Some ''min_expected_edge_bps''
      else if list_ex (\<lambda>(k, x). x < 0) (eg_min_edge_by_symbol c) then Some ''min_expected_edge_bps_by_symbol''
      else if list_ex (\<lambda>(k, x). k \<notin> {''long'', ''short''} \<or> x < 0) (eg_min_edge_by_side c) then Some ''min_expected_edge_bps_by_side''
      else if list_ex (\<lambda>(k, x). CHR '':'' \<notin> set k \<or> x < 0) (eg_min_edge_by_symbol_side c) then Some ''min_expected_edge_bps_by_symbol_side''
      else if eg_mode c \<notin> {''shadow'', ''enforce''} then Some ''mode''
      else None)"

section \<open>Expected value\<close>

text \<open>Stop distance, profit distance and their ratio; a stop or target on the wrong side gives no ratio.\<close>

definition distance_bps :: "pyfloat \<Rightarrow> pyfloat \<Rightarrow> pyfloat \<Rightarrow> pyfloat" where
  "distance_bps a b entry_price = fmul (fl (fsub a b / entry_price)) 10000"

definition calculate_L_G_R :: "pyfloat \<Rightarrow> pyfloat \<Rightarrow> pyfloat \<Rightarrow> string \<Rightarrow> pyfloat \<times> pyfloat \<times> pyfloat option" where
  "calculate_L_G_R e stop_loss take_profit side =
     (if e \<le> 0 then (0, 0, None)
      else let l = (if py_lower side = ''long'' then distance_bps e stop_loss e else distance_bps stop_loss e e);
               g = (if py_lower side = ''long'' then distance_bps take_profit e e else distance_bps e take_profit e)
      in if l \<le> 0 \<or> g \<le> 0 then (0, 0, None) else (l, g, Some (fl (g / l))))"

definition calculate_cost_ratio :: "pyfloat \<Rightarrow> pyfloat \<Rightarrow> pyfloat option" where
  "calculate_cost_ratio costs l = (if l \<le> 0 then None else Some (fl (costs / l)))"

definition calculate_ev :: "pyfloat \<Rightarrow> pyfloat \<Rightarrow> pyfloat \<Rightarrow> pyfloat" where
  "calculate_ev p r c = fsub (fsub (fmul p r) (fsub 1 p)) c"

definition calculate_p_min :: "pyfloat \<Rightarrow> pyfloat \<Rightarrow> pyfloat option" where
  "calculate_p_min r c = (if r \<le> - 1 then None else Some (fl (fadd 1 c / fadd r 1)))"

text \<open>\<open>SYMBOL:value\<close> lists: a map of all non-negative values, and the value text of the first entry of a symbol.\<close>

definition symbol_entries :: "string list \<Rightarrow> (string \<times> string) list" where
  "symbol_entries tokens = List.map_filter (\<lambda>t. let s = strip t in if s = [] then None
     else map_option (\<lambda>(a, b). (py_upper (strip a), strip b)) (split_once CHR '':'' s)) tokens"

definition parse_symbol_float_map :: "string \<Rightarrow> (string, pyfloat) dict" where
  "parse_symbol_float_map raw = fold (\<lambda>(k, v) d. case parse_float v of
       Some x \<Rightarrow> if k = [] \<or> x < 0 then d else d_put d k x | None \<Rightarrow> d) (symbol_entries (split_char CHR '','' raw)) []"

definition symbol_setting :: "string list \<Rightarrow> string \<Rightarrow> string option" where
  "symbol_setting tokens key = map_option snd (List.find (\<lambda>(k, v). k = key) (symbol_entries tokens))"

section \<open>Relaxation\<close>

datatype ev_reason =
    Cold_Start_Edge | Spread_Imbalance | Volatility_Session | Spread_Tightening | Cost_Multiple
  | Calibration_Stage calibration_stage | Borderline_P_Min | Edge_Tolerance | EV_Tolerance

definition relaxation_disabled :: "ev_gate_config \<Rightarrow> pyfloat \<Rightarrow> pyfloat \<Rightarrow> bool" where
  "relaxation_disabled c reliability book_age = (reliability < fl (8 / 10) \<or> eg_max_book_age_ms c < book_age)"

definition spread_imbalance_factor :: "ev_gate_config \<Rightarrow> pyfloat \<Rightarrow> pyfloat \<Rightarrow> string \<Rightarrow> (pyfloat \<times> ev_reason) option" where
  "spread_imbalance_factor c percentile imbalance side =
     (if eg_relaxation_spread_percentile c \<le> percentile then None
      else if py_lower side = ''long'' \<and> 0 < imbalance \<or> py_lower side = ''short'' \<and> imbalance < 0
      then Some (eg_relaxation_multiplier c, Spread_Imbalance) else None)"

definition volatility_session_factor :: "string \<Rightarrow> string \<Rightarrow> (pyfloat \<times> ev_reason) option" where
  "volatility_session_factor regime session =
     (if py_lower regime = ''low'' \<and> py_lower session \<in> {''us'', ''europe''} then Some (fl (9 / 10), Volatility_Session) else None)"

definition spread_tightening_factor :: "ev_gate_config \<Rightarrow> pyfloat \<Rightarrow> (pyfloat \<times> ev_reason) option" where
  "spread_tightening_factor c percentile =
     (if percentile \<le> eg_tightening_spread_percentile c then None else Some (eg_tightening_multiplier c, Spread_Tightening))"

text \<open>\<open>min\<close> by the factor, the first one among equals.\<close>

definition least_factor :: "(pyfloat \<times> ev_reason) option \<Rightarrow> (pyfloat \<times> ev_reason) option \<Rightarrow> (pyfloat \<times> ev_reason) option" where
  "least_factor a b = (case (a, b) of (Some x, Some y) \<Rightarrow> if fst y < fst x then Some y else Some x | (None, y) \<Rightarrow> y | (x, None) \<Rightarrow> x)"

definition compute_adjustment ::
  "ev_gate_config \<Rightarrow> pyfloat \<Rightarrow> pyfloat \<Rightarrow> string \<Rightarrow> string \<Rightarrow> string \<Rightarrow> pyfloat \<Rightarrow> pyfloat \<Rightarrow> pyfloat \<times> ev_reason list" where
  "compute_adjustment c percentile imbalance side regime session reliability book_age =
     (let relax = (if relaxation_disabled c reliability book_age then None
            else least_factor (spread_imbalance_factor c percentile imbalance side) (volatility_session_factor regime session));
          tighten = spread_tightening_factor c percentile;
          rf = (case relax of Some (f, _) \<Rightarrow> f | None \<Rightarrow> 1); tf = (case tighten of Some (f, _) \<Rightarrow> f | None \<Rightarrow> 1)
      in (fmul rf tf,
          (case relax of Some (f, x) \<Rightarrow> if f < 1 then [x] else [] | None \<Rightarrow> []) @
          (case tighten of Some (f, x) \<Rightarrow> if 1 < f then [x] else [] | None \<Rightarrow> [])))"

definition apply_adjustment :: "ev_gate_config \<Rightarrow> pyfloat \<Rightarrow> pyfloat \<Rightarrow> pyfloat" where
  "apply_adjustment c base factor = max (fmul base factor) (eg_ev_min_floor c)"

definition get_adjusted_ev_min ::
  "ev_gate_config \<Rightarrow> pyfloat \<Rightarrow> pyfloat \<Rightarrow> string \<Rightarrow> string \<Rightarrow> string \<Rightarrow> pyfloat \<Rightarrow> calibration_status \<Rightarrow> pyfloat \<Rightarrow> pyfloat \<times> ev_reason list" where
  "get_adjusted_ev_min c percentile imbalance side regime session book_age status l =
     (let extra = cs_min_edge_bps_adjustment status;
          base = (if 0 < extra then fadd (eg_ev_min c) (fl (extra / max l 1)) else eg_ev_min c);
          (factor, reasons) = compute_adjustment c percentile imbalance side regime session (cs_reliability status) book_age
      in (apply_adjustment c base factor, (if 0 < extra then [Cold_Start_Edge] else []) @ reasons))"

section \<open>Library\<close>

text \<open>At the required probability the computed expected value is zero up to rounding.\<close>

lemma fl_above:
  assumes "x \<le> k" "0 \<le> k"
  shows "fl x \<le> k * (1 + 1 / 2 ^ 52)"
  using fl_mono [OF assms(1)] fl_error(2) [OF assms(2)] by linarith

lemma break_even_ev:
  assumes r: "0 < r" and c: "0 \<le> c" "c \<le> 1" and p: "p = fl (fadd 1 c / fadd r 1)"
  shows "calculate_ev p r c \<le> 1 / 1000000"
proof -
  define u :: rat where "u = 1 / 2 ^ 52"
  have u: "0 < u" "u \<le> 1 / 1000000000" by (simp_all add: u_def)
  have v: "0 \<le> u * u" "u * u \<le> u * (1 / 1000000000)" using u by (auto intro: mult_left_mono)
  have cu: "c * u \<le> u" "0 \<le> c * u" using c u mult_right_mono [of c 1 u] by simp_all
  note err = fl_error [folded u_def] and up = fl_above [folded u_def]
  have a: "fadd 1 c \<le> (1 + c) * (1 + u)" using c err(2) [of "1 + c"] by (simp add: fadd_def)
  have b: "(r + 1) * (1 - u) \<le> fadd r 1" using r err(1) [of "r + 1"] by (simp add: fadd_def)
  have b0: "0 < fadd r 1" using r by (simp add: fadd_def)
  have q0: "0 \<le> fadd 1 c / fadd r 1" using c b0 by (simp add: fadd_nonneg)
  then have p0: "0 \<le> p" by (simp add: p)
  have "p * fadd r 1 \<le> fadd 1 c / fadd r 1 * (1 + u) * fadd r 1"
    unfolding p using mult_right_mono [OF err(2) [OF q0], of "fadd r 1"] b0 by simp
  also have "\<dots> = fadd 1 c * (1 + u)" using b0 by simp
  also have "\<dots> \<le> (1 + c) * (1 + u) * (1 + u)" using mult_right_mono [OF a, of "1 + u"] u by simp
  finally have pu: "p * ((r + 1) * (1 - u)) \<le> (1 + c) * (1 + u) * (1 + u)" using mult_left_mono [OF b p0] by linarith
  have sqs: "(1 + u) * (1 + u) = 1 + 2 * u + u * u" "(1 + 4 * u) * (1 - u) = 1 + 3 * u - 4 * (u * u)" by algebra+
  have "1 + 2 * u + u * u \<le> 1 + 3 * u - 4 * (u * u)" using u v by simp
  then have sq: "(1 + u) * (1 + u) \<le> (1 + 4 * u) * (1 - u)" by (simp only: sqs)
  have "p * (r + 1) * (1 - u) \<le> (1 + c) * ((1 + u) * (1 + u))" using pu by (simp only: mult.assoc)
  also have "\<dots> \<le> (1 + c) * ((1 + 4 * u) * (1 - u))"
    using sq c by (intro mult_left_mono) simp_all
  finally have "p * (r + 1) \<le> (1 + c) * (1 + 4 * u)" using u by (simp only: mult.assoc [symmetric] mult_le_cancel_right)
  then have s: "p * r + p \<le> 1 + c + 8 * u" using cu by (simp add: algebra_simps)
  have x: "fmul p r \<le> p * r * (1 + u)" using p0 r err(2) [of "p * r"] by (simp add: fmul_def)
  have p3: "p \<le> 3" "p * r \<le> 3" using s c u p0 mult_nonneg_nonneg [of p r] r by linarith+
  have y: "1 - p - 4 * u \<le> fsub 1 p"
  proof (cases "p \<le> 1")
    case True
    have "p * u \<le> 1 * u" "0 \<le> p * u" using True p0 u by (auto intro: mult_right_mono)
    then have "1 - p - 4 * u \<le> (1 - p) * (1 - u)" using u by (simp add: algebra_simps)
    then show ?thesis using True err(1) [of "1 - p"] by (simp add: fsub_def)
  next
    case False
    have "p * u \<le> 3 * u" using p3(1) u by (intro mult_right_mono) simp_all
    then have "(p - 1) * (1 + u) \<le> p - 1 + 4 * u" using u by (simp add: algebra_simps)
    moreover have "fsub 1 p = - fl (p - 1)" using fl_minus [of "p - 1"] by (simp add: fsub_def)
    ultimately show ?thesis using False err(2) [of "p - 1"] by simp
  qed
  have "p * r * u \<le> 3 * u" using p3(2) u by (intro mult_right_mono) simp_all
  then have "fmul p r - fsub 1 p \<le> c + 15 * u" using x y s by (simp add: algebra_simps)
  then have z: "fsub (fmul p r) (fsub 1 p) \<le> (c + 15 * u) * (1 + u)" unfolding fsub_def [of "fmul p r"] using c u by (intro up) simp_all
  also have "\<dots> \<le> c + 17 * u" using v cu by (simp add: algebra_simps)
  finally have "fsub (fmul p r) (fsub 1 p) - c \<le> 17 * u" by linarith
  then have "calculate_ev p r c \<le> 17 * u * (1 + u)" unfolding calculate_ev_def fsub_def [of _ c] using u by (intro up) simp_all
  also have "\<dots> \<le> 17 * u * 2" using u by (intro mult_left_mono) simp_all
  also have "\<dots> \<le> 1 / 1000000" using u by simp
  finally show ?thesis .
qed

end
