(* ===== verification/EV_Evaluate.thy ===== *)
theory EV_Evaluate
  imports EV_Gate
begin

text \<open>
  The evaluation of an entry by the expected-value gate (quantgambit/signals/stages/ev_gate.py, \<open>EVGateStage\<close>): required fields and
  defaults, connectivity, levels, freshness, costs, calibrated probability, threshold, and the verdict.  A Python dictionary
  of the pipeline is a \<open>py_inputs\<close>: its numbers, its texts, the flag of a synchronised book and the map of feed staleness; a
  key whose value is \<open>None\<close> counts as absent.  The readings of the clock and the environment variables are the record \<open>ev_env\<close>.
\<close>

section \<open>Inputs\<close>

record py_inputs =
  pi_numbers :: "(string, pyfloat) dict"
  pi_texts :: "(string, string) dict"
  pi_synced :: "bool option"
  pi_staleness :: "(string, pyfloat) dict"

definition no_inputs :: py_inputs where
  "no_inputs = \<lparr>pi_numbers = [], pi_texts = [], pi_synced = None, pi_staleness = []\<rparr>"

definition num :: "py_inputs \<Rightarrow> string \<Rightarrow> pyfloat option" where "num d k = d_get (pi_numbers d) k"
definition txt_or :: "py_inputs \<Rightarrow> string \<Rightarrow> string \<Rightarrow> string" where "txt_or d k v = d_get_or (pi_texts d) k v"
definition set_num :: "py_inputs \<Rightarrow> string \<Rightarrow> pyfloat \<Rightarrow> py_inputs" where
  "set_num d k v = d\<lparr>pi_numbers := d_put (pi_numbers d) k v\<rparr>"

text \<open>\<open>a or b or ...\<close> over optional numbers.\<close>

fun first_of :: "pyfloat option list \<Rightarrow> pyfloat option" where
  "first_of [] = None"
| "first_of [a] = a"
| "first_of (a # as) = of_or a (first_of as)"

datatype calibration_entry =
    Cal_Empty
  | Cal_Fields "pyfloat option" "pyfloat option"
  | Cal_Count pyfloat

record ev_context =
  ec_symbol :: string
  ec_signal :: py_inputs
  ec_market :: py_inputs
  ec_features :: py_inputs
  ec_calibration :: "(string, calibration_entry) dict"

record ev_env =
  ee_cost_multiple :: pyfloat
  ee_recent_cost_by_symbol :: string
  ee_recent_cost :: string
  ee_pmin_tolerance_by_symbol :: string
  ee_pmin_tolerance :: "string option"
  ee_edge_tolerance_by_symbol :: string
  ee_edge_tolerance :: "string option"
  ee_ignore_feed_gaps :: string
  ee_calibration :: calibration_env
  ee_costs :: cost_estimator
  ee_now_book_ms :: pyfloat
  ee_now_spread_ms :: pyfloat

datatype ev_reject_code =
    MISSING_STOP_LOSS | MISSING_TAKE_PROFIT | MISSING_REQUIRED_FIELD | INVALID_SL | INVALID_R | INVALID_P | STOP_TOO_TIGHT
  | COST_EXCEEDS_SL | STALE_BOOK | STALE_SPREAD | EXCHANGE_CONNECTIVITY | ORDERBOOK_SYNC | EV_BELOW_MIN | P_BELOW_PMIN
  | EXPECTED_EDGE_BELOW_MIN

datatype ev_failure = Refused ev_reject_code | Raised py_error

section \<open>Required fields and defaults\<close>

definition implicit_target_strategies :: "string list" where
  "implicit_target_strategies = [''time_based_exit'', ''trailing_stop'']"

definition known_price :: "py_inputs \<Rightarrow> py_inputs \<Rightarrow> py_inputs \<Rightarrow> pyfloat option" where
  "known_price s mc f = first_of [num s ''entry_price'', num mc ''price'', num mc ''mid_price'', num f ''price'', num f ''mid_price'']"

definition check_required_fields :: "py_inputs \<Rightarrow> py_inputs \<Rightarrow> py_inputs \<Rightarrow> string option" where
  "check_required_fields s mc f =
     (if (case known_price s mc f of None \<Rightarrow> True | Some x \<Rightarrow> x \<le> 0) then Some ''entry_price''
      else if txt_or s ''side'' [] = [] then Some ''side''
      else if list_all (\<lambda>k. num s k = None) [''sl_distance_bps'', ''sl_price'', ''stop_loss''] then Some ''sl_distance_bps or sl_price''
      else if list_all (\<lambda>k. num s k = None) [''tp_distance_bps'', ''tp_price'', ''take_profit'', ''target_price''] \<and>
              txt_or s ''strategy_id'' [] \<notin> set implicit_target_strategies then Some ''tp_distance_bps or tp_price''
      else None)"

definition extract_setup_type :: "string \<Rightarrow> string \<Rightarrow> string" where
  "extract_setup_type strategy_id meta_reason =
     (let t = infer_setup_type strategy_id; m = py_lower meta_reason
      in if t \<noteq> ''unknown'' then t
         else if py_contains ''mean_reversion'' m \<or> py_contains ''fade'' m then ''mean_reversion''
         else if py_contains ''breakout'' m then ''breakout''
         else if py_contains ''pullback'' m then ''trend_pullback''
         else ''mean_reversion'')"

definition p_hat_defaults :: "(string, pyfloat) dict" where
  "p_hat_defaults = [(''mean_reversion'', fl (48 / 100)), (''breakout'', fl (45 / 100)), (''trend_pullback'', fl (47 / 100)),
     (''low_vol_grind'', fl (48 / 100)), (''default'', fl (45 / 100))]"

definition setup_of :: "py_inputs \<Rightarrow> string" where
  "setup_of s = extract_setup_type (txt_or s ''strategy_id'' []) (txt_or s ''meta_reason'' [])"

definition put_default :: "string \<Rightarrow> pyfloat option \<Rightarrow> py_inputs \<Rightarrow> py_inputs" where
  "put_default k v s = (case (num s k, v) of (None, Some x) \<Rightarrow> set_num s k x | _ \<Rightarrow> s)"

definition level_distance_bps :: "pyfloat \<Rightarrow> pyfloat option \<Rightarrow> pyfloat option" where
  "level_distance_bps e level = (case level of Some x \<Rightarrow> if 0 < e then Some (fmul (fl (\<bar>fsub e x\<bar> / e)) 10000) else None | None \<Rightarrow> None)"

text \<open>A missing or non-positive quote is replaced beside the entry price, in both dictionaries.\<close>

definition default_quote :: "string \<Rightarrow> string \<Rightarrow> pyfloat \<Rightarrow> py_inputs \<times> py_inputs \<Rightarrow> py_inputs \<times> py_inputs" where
  "default_quote best plain v = (\<lambda>(mc, f).
     case first_of [num mc best, num f best, num f plain, num mc plain] of
       Some x \<Rightarrow> if x \<le> 0 then (set_num mc best v, set_num f best v) else (mc, f)
     | None \<Rightarrow> (set_num mc best v, set_num f best v))"

definition default_quotes :: "pyfloat \<Rightarrow> py_inputs \<times> py_inputs \<Rightarrow> py_inputs \<times> py_inputs" where
  "default_quotes e = default_quote ''best_ask'' ''ask'' (fmul e (fl (10001 / 10000))) \<circ> default_quote ''best_bid'' ''bid'' (fmul e (fl (9999 / 10000)))"

definition compute_defaults :: "py_inputs \<Rightarrow> py_inputs \<Rightarrow> py_inputs \<Rightarrow> py_inputs \<times> py_inputs \<times> py_inputs" where
  "compute_defaults s mc f =
     (let e = fo_or (known_price s mc f) 0;
          s1 = put_default ''p_hat'' (Some (d_get_or p_hat_defaults (setup_of s) (fl (45 / 100)))) s;
          s2 = put_default ''cost_estimate_bps'' (Some (fadd (fadd (d_get_or (pi_numbers mc) ''spread_bps'' 3) 7) 3)) s1;
          s3 = put_default ''sl_distance_bps'' (level_distance_bps e (first_of [num s ''sl_price'', num s ''stop_loss''])) s2;
          s4 = put_default ''tp_distance_bps'' (level_distance_bps e (first_of [num s ''tp_price'', num s ''take_profit'', num s ''target_price''])) s3
      in (s4, default_quotes e (mc, f)))"

text \<open>An empty dictionary is not the one in the context (\<open>or {}\<close>), so the evaluation does not see the quotes written into it.\<close>

definition seen_after :: "py_inputs \<Rightarrow> py_inputs \<Rightarrow> py_inputs" where
  "seen_after old new = (if old = no_inputs then no_inputs else new)"

section \<open>Connectivity and freshness\<close>

definition above :: "pyfloat option \<Rightarrow> pyfloat \<Rightarrow> bool" where
  "above x limit = (case x of Some v \<Rightarrow> limit < v | None \<Rightarrow> False)"

definition check_connectivity :: "ev_gate_config \<Rightarrow> py_inputs \<Rightarrow> ev_reject_code option" where
  "check_connectivity c mc =
     (if above (num mc ''exchange_latency_ms'') (eg_max_exchange_latency_ms c) then Some EXCHANGE_CONNECTIVITY
      else if pi_synced mc = Some False then Some ORDERBOOK_SYNC
      else if above (first_of [num mc ''orderbook_lag_ms'', num mc ''book_lag_ms'']) (eg_max_book_age_ms c) then Some ORDERBOOK_SYNC
      else None)"

definition sanitize_age_ms :: "pyfloat \<Rightarrow> pyfloat option" where
  "sanitize_age_ms age = (if age < 0 then None else Some age)"

definition ignores_feed_gaps :: "ev_env \<Rightarrow> bool" where
  "ignores_feed_gaps env = (py_lower (ee_ignore_feed_gaps env) \<in> {''1'', ''true'', ''yes''})"

definition get_book_age_ms :: "ev_env \<Rightarrow> py_inputs \<Rightarrow> pyfloat option" where
  "get_book_age_ms env mc =
     (if ignores_feed_gaps env then Some 0
      else let now = ee_now_book_ms env
      in case first_of [num mc ''book_lag_ms'', num mc ''orderbook_lag_ms''] of Some x \<Rightarrow> sanitize_age_ms x
       | None \<Rightarrow> case d_get (pi_staleness mc) ''orderbook'' of Some x \<Rightarrow> sanitize_age_ms (fmul x 1000)
       | None \<Rightarrow> case num mc ''book_recv_ms'' of Some x \<Rightarrow> sanitize_age_ms (fsub now x)
       | None \<Rightarrow> if f_truthy (first_of [num mc ''book_timestamp_ms'', num mc ''timestamp_ms''])
                 then sanitize_age_ms (fsub now (the (first_of [num mc ''book_timestamp_ms'', num mc ''timestamp_ms''])))
                 else case num mc ''book_cts_ms'' of Some x \<Rightarrow> sanitize_age_ms (fsub now x) | None \<Rightarrow> None)"

definition get_spread_age_ms :: "ev_env \<Rightarrow> py_inputs \<Rightarrow> py_inputs \<Rightarrow> pyfloat option" where
  "get_spread_age_ms env mc f =
     (if ignores_feed_gaps env then Some 0
      else let now = ee_now_spread_ms env
      in case d_get (pi_staleness mc) ''orderbook'' of Some x \<Rightarrow> sanitize_age_ms (fmul x 1000)
       | None \<Rightarrow> case num mc ''book_recv_ms'' of Some x \<Rightarrow> sanitize_age_ms (fsub now x)
       | None \<Rightarrow> case first_of [num mc ''spread_timestamp_ms'', num f ''spread_timestamp_ms''] of Some x \<Rightarrow> sanitize_age_ms (fsub now x)
       | None \<Rightarrow> case num mc ''book_cts_ms'' of Some x \<Rightarrow> sanitize_age_ms (fsub now x) | None \<Rightarrow> None)"

definition check_age :: "ev_reject_code \<Rightarrow> pyfloat \<Rightarrow> pyfloat option \<Rightarrow> ev_failure + pyfloat" where
  "check_age code limit age = (case age of Some x \<Rightarrow> if limit < x then Inl (Refused code) else Inr x | None \<Rightarrow> Inl (Refused code))"

section \<open>Levels\<close>

definition offset_price :: "pyfloat \<Rightarrow> pyfloat \<Rightarrow> bool \<Rightarrow> pyfloat" where
  "offset_price e bps up = fmul e (if up then fadd 1 (fl (bps / 10000)) else fsub 1 (fl (bps / 10000)))"

definition estimate_implicit_target :: "pyfloat \<Rightarrow> pyfloat \<Rightarrow> string \<Rightarrow> pyfloat" where
  "estimate_implicit_target e sl side = (if py_lower side = ''long'' then fadd e \<bar>fsub e sl\<bar> else fsub e \<bar>fsub e sl\<bar>)"

text \<open>A target on the wrong side is mirrored to the right one.\<close>

definition fix_target :: "pyfloat \<Rightarrow> pyfloat \<Rightarrow> string \<Rightarrow> pyfloat" where
  "fix_target e tp side =
     (let dist = f_or \<bar>fsub tp e\<bar> \<bar>fmul e (fl (1 / 1000))\<bar>
      in if side = ''short'' \<and> e \<le> tp then fsub e dist else if side = ''long'' \<and> tp \<le> e then fadd e dist else tp)"

text \<open>Entry price, side, stop and target, from the completed signal.\<close>

definition resolve_levels :: "py_inputs \<Rightarrow> py_inputs \<Rightarrow> py_inputs \<Rightarrow> ev_failure + (pyfloat \<times> string \<times> pyfloat \<times> pyfloat)" where
  "resolve_levels s mc f =
     (let e = (case first_of [num s ''entry_price'', num mc ''price'', num f ''price''] of Some x \<Rightarrow> x | None \<Rightarrow> 0);
          side = py_lower (txt_or s ''side'' ''long'');
          sl = (case first_of [num s ''stop_loss'', num s ''sl_price''] of Some x \<Rightarrow> Some x
             | None \<Rightarrow> map_option (\<lambda>d. offset_price e d (side \<noteq> ''long'')) (num s ''sl_distance_bps''));
          tp = (case first_of [num s ''take_profit'', num s ''target_price'', num s ''tp_price''] of Some x \<Rightarrow> Some x
             | None \<Rightarrow> map_option (\<lambda>d. offset_price e d (side = ''long'')) (num s ''tp_distance_bps''))
      in case sl of None \<Rightarrow> Inl (Refused MISSING_STOP_LOSS)
       | Some stop_loss \<Rightarrow>
           (case tp of
              Some x \<Rightarrow> Inr (e, side, stop_loss, fix_target e x side)
            | None \<Rightarrow> if txt_or s ''strategy_id'' [] \<in> set implicit_target_strategies
                then Inr (e, side, stop_loss, fix_target e (estimate_implicit_target e stop_loss side) side)
                else Inl (Refused MISSING_TAKE_PROFIT)))"

definition check_geometry :: "ev_gate_config \<Rightarrow> pyfloat \<Rightarrow> pyfloat \<Rightarrow> pyfloat \<Rightarrow> string \<Rightarrow> ev_failure + (pyfloat \<times> pyfloat \<times> pyfloat)" where
  "check_geometry c e sl tp side =
     (let (l, g, ratio) = calculate_L_G_R e sl tp side
      in if l \<le> 0 then Inl (Refused INVALID_SL)
         else if l < eg_min_stop_distance_bps c then Inl (Refused STOP_TOO_TIGHT)
         else case ratio of None \<Rightarrow> Inl (Refused INVALID_R)
            | Some r \<Rightarrow> if r \<le> 0 then Inl (Refused INVALID_R) else Inr (l, g, r))"

section \<open>Costs\<close>

definition estimate_size_usd :: "py_inputs \<Rightarrow> pyfloat \<Rightarrow> pyfloat" where
  "estimate_size_usd s e = (let sz = of_or (num s ''size'') (Some (d_get_or (pi_numbers s) ''quantity'' 0))
     in if f_truthy sz \<and> e \<noteq> 0 then \<bar>fmul (the sz) e\<bar> else 0)"

definition estimate_hold_time :: "string \<Rightarrow> pyfloat" where
  "estimate_hold_time setup = d_get_or [(''mean_reversion'', 600), (''breakout'', 1200), (''trend_pullback'', 2400), (''low_vol_grind'', 7200)] setup 300"

definition first_text :: "py_inputs \<Rightarrow> py_inputs \<Rightarrow> string \<Rightarrow> string option" where
  "first_text mc f k = (if s_truthy (d_get (pi_texts mc) k) then d_get (pi_texts mc) k else d_get (pi_texts f) k)"

definition first_present :: "pyfloat option \<Rightarrow> pyfloat option \<Rightarrow> pyfloat option" where
  "first_present a b = (if a = None then b else a)"

definition cost_request_of :: "string \<Rightarrow> py_inputs \<Rightarrow> py_inputs \<Rightarrow> py_inputs \<Rightarrow> pyfloat \<Rightarrow> pyfloat \<Rightarrow> cost_request" where
  "cost_request_of symbol s mc f e tp =
     \<lparr>cr_symbol = symbol, cr_strategy_id = txt_or s ''strategy_id'' [], cr_setup_type = setup_of s, cr_entry_price = e, cr_exit_price = tp,
      cr_size = fo_or (num s ''size'') (d_get_or (pi_numbers s) ''quantity'' (fl (1 / 10))),
      cr_best_bid = fo_or (num mc ''best_bid'') (d_get_or (pi_numbers f) ''best_bid'' 0),
      cr_best_ask = fo_or (num mc ''best_ask'') (d_get_or (pi_numbers f) ''best_ask'' 0),
      cr_order_size_usd = fo_or (num s ''size_usd'') (estimate_size_usd s e),
      cr_volatility_regime = first_text mc f ''volatility_regime'',
      cr_bid_depth_usd = first_present (num mc ''bid_depth_usd'') (num f ''bid_depth_usd''),
      cr_ask_depth_usd = first_present (num mc ''ask_depth_usd'') (num f ''ask_depth_usd''),
      cr_hold_time_sec = estimate_hold_time (setup_of s),
      cr_observed_slippage_bps = first_of [num mc ''observed_slippage_bps'', num f ''observed_slippage_bps'']\<rparr>"

text \<open>The costs with the configured floors; the cost ratio does not use them.\<close>

definition floored_costs :: "ev_gate_config \<Rightarrow> cost_breakdown \<Rightarrow> pyfloat" where
  "floored_costs c b = fadd (fadd (fadd (cb_spread_bps b) (cb_fee_bps b)) (max (cb_slippage_bps b) (eg_min_slippage_bps c)))
     (max (cb_adverse_selection_bps b) (eg_adverse_selection_bps c))"

definition check_costs :: "ev_gate_config \<Rightarrow> ev_env \<Rightarrow> cost_request \<Rightarrow> pyfloat \<Rightarrow> ev_failure + (pyfloat \<times> pyfloat)" where
  "check_costs c env q l = (case estimate_costs (ee_costs env) q of
       Inl x \<Rightarrow> Inl (Raised x)
     | Inr b \<Rightarrow> (case calculate_cost_ratio (cb_total_bps b) l of
         None \<Rightarrow> Inl (Refused COST_EXCEEDS_SL)
       | Some r \<Rightarrow> if 1 < r then Inl (Refused COST_EXCEEDS_SL) else Inr (r, floored_costs c b)))"

section \<open>What is measured before the probability\<close>

record ev_measure =
  em_signal :: py_inputs
  em_market :: py_inputs
  em_features :: py_inputs
  em_side :: string
  em_L :: pyfloat
  em_G :: pyfloat
  em_R :: pyfloat
  em_C :: pyfloat
  em_total_cost_bps :: pyfloat
  em_book_age_ms :: pyfloat
  em_spread_age_ms :: pyfloat

definition bind_ev :: "ev_failure + 'a \<Rightarrow> ('a \<Rightarrow> ev_failure + 'b) \<Rightarrow> ev_failure + 'b" where
  "bind_ev m k = (case m of Inl x \<Rightarrow> Inl x | Inr v \<Rightarrow> k v)"

definition measure_entry :: "ev_gate_config \<Rightarrow> ev_env \<Rightarrow> ev_context \<Rightarrow> ev_failure + ev_measure" where
  "measure_entry c env ctx =
     (let s0 = ec_signal ctx; mc0 = ec_market ctx; f0 = ec_features ctx
      in if check_required_fields s0 mc0 f0 \<noteq> None then Inl (Refused MISSING_REQUIRED_FIELD)
         else let (s, mc1, f1) = compute_defaults s0 mc0 f0; mc = seen_after mc0 mc1; f = seen_after f0 f1
         in case check_connectivity c mc of Some code \<Rightarrow> Inl (Refused code)
          | None \<Rightarrow>
            bind_ev (resolve_levels s mc f) (\<lambda>(e, side, sl, tp).
            bind_ev (check_geometry c e sl tp side) (\<lambda>(l, g, r).
            bind_ev (check_age STALE_BOOK (eg_max_book_age_ms c) (get_book_age_ms env mc1)) (\<lambda>book_age.
            bind_ev (check_age STALE_SPREAD (eg_max_spread_age_ms c) (get_spread_age_ms env mc1 f1)) (\<lambda>spread_age.
            bind_ev (check_costs c env (cost_request_of (ec_symbol ctx) s mc f e tp) l) (\<lambda>(ratio, total_cost).
              Inr \<lparr>em_signal = s, em_market = mc, em_features = f, em_side = side, em_L = l, em_G = g, em_R = r, em_C = ratio,
                em_total_cost_bps = total_cost, em_book_age_ms = book_age, em_spread_age_ms = spread_age\<rparr>))))))"

section \<open>Probability\<close>

definition normalize_p :: "pyfloat \<Rightarrow> pyfloat" where
  "normalize_p p = (if 0 \<le> p \<and> p \<le> 1 then p else if 1 < p \<and> p \<le> 100 then fl (p / 100) else max 0 (min 1 p))"

definition normalize_percentile :: "pyfloat option \<Rightarrow> pyfloat" where
  "normalize_percentile v = (case v of None \<Rightarrow> 1 / 2 | Some x \<Rightarrow> if 1 < x then fl (x / 100) else x)"

fun entry_truthy :: "calibration_entry \<Rightarrow> bool" where
  "entry_truthy Cal_Empty = False"
| "entry_truthy (Cal_Fields r n) = True"
| "entry_truthy (Cal_Count x) = (x \<noteq> 0)"

definition find_calibration :: "(string, calibration_entry) dict \<Rightarrow> string \<Rightarrow> string \<Rightarrow> calibration_entry" where
  "find_calibration d symbol strategy =
     (case filter entry_truthy (List.map_filter (d_get d) [symbol @ '':'' @ strategy, strategy, symbol]) of x # _ \<Rightarrow> x | [] \<Rightarrow> Cal_Empty)"

fun entry_reliability :: "calibration_entry \<Rightarrow> pyfloat option" where
  "entry_reliability (Cal_Fields r n) = r"
| "entry_reliability x = None"

fun entry_trades :: "calibration_entry \<Rightarrow> pyfloat option" where
  "entry_trades (Cal_Fields r n) = n"
| "entry_trades (Cal_Count x) = Some (of_int (trunc x))"
| "entry_trades Cal_Empty = None"

text \<open>Numbers of trades are whole.\<close>

definition calibrate_entry :: "ev_env \<Rightarrow> string \<Rightarrow> (string, calibration_entry) dict \<Rightarrow> string \<Rightarrow> py_inputs \<Rightarrow> pyfloat \<Rightarrow> calibration_status" where
  "calibrate_entry env symbol calibration strategy mc p =
     (let x = find_calibration calibration symbol strategy;
          rel = fo_or (entry_reliability x) (d_get_or (pi_numbers mc) ''calibration_reliability'' 0);
          n = fo_or (entry_trades x) (d_get_or (pi_numbers mc) ''n_trades'' 0)
      in evaluate_calibration (ee_calibration env) strategy (trunc n) (Some p) (if 0 < rel then Some rel else None))"

definition tolerance_setting :: "pyfloat \<Rightarrow> string \<Rightarrow> string option \<Rightarrow> string \<Rightarrow> pyfloat" where
  "tolerance_setting dflt by_symbol global symbol =
     (let key = py_upper (strip symbol);
          own = (if key = [] then None else case symbol_setting (split_char CHR '','' (replace_char CHR '';'' CHR '','' by_symbol)) key of
              Some v \<Rightarrow> parse_float v | None \<Rightarrow> None)
      in case own of Some x \<Rightarrow> max 0 x
       | None \<Rightarrow> (case global of None \<Rightarrow> max 0 dflt | Some v \<Rightarrow> (case parse_float v of Some x \<Rightarrow> max 0 x | None \<Rightarrow> dflt)))"

definition mean_reversion_pmin_tolerance :: "ev_env \<Rightarrow> string \<Rightarrow> pyfloat" where
  "mean_reversion_pmin_tolerance env = tolerance_setting (fl (15 / 1000)) (ee_pmin_tolerance_by_symbol env) (ee_pmin_tolerance env)"

definition mean_reversion_expected_edge_tolerance_bps :: "ev_env \<Rightarrow> string \<Rightarrow> pyfloat" where
  "mean_reversion_expected_edge_tolerance_bps env = tolerance_setting 8 (ee_edge_tolerance_by_symbol env) (ee_edge_tolerance env)"

definition fading_strategies :: "string list" where "fading_strategies = [''mean_reversion_fade'', ''vwap_reversion'']"

text \<open>The probability the decision uses: the effective one, or the required one where a rule lifts it.\<close>

datatype p_origin = As_Calibrated | Calibrated_Floor | Fade_Buffer | PMin_Tolerance

definition decide_p :: "ev_gate_config \<Rightarrow> pyfloat \<Rightarrow> string \<Rightarrow> string \<Rightarrow> calibration_stage \<Rightarrow> pyfloat \<Rightarrow> pyfloat \<Rightarrow> pyfloat \<Rightarrow> pyfloat \<times> p_origin" where
  "decide_p c tolerance strategy setup st p_raw p p_min =
     (let gap = fsub p_min p
      in if st \<noteq> CALIBRATED
         then (if p < p_min \<and> p_min \<le> p_raw then (p_min, Calibrated_Floor)
               else if strategy \<in> set fading_strategies \<and> 0 < gap \<and> gap \<le> max (fadd (eg_p_margin_uncalibrated c) (fl (15 / 1000))) tolerance
               then (p_min, Fade_Buffer) else (p, As_Calibrated))
         else if setup = ''mean_reversion'' \<and> p < p_min \<and> gap \<le> tolerance then (p_min, PMin_Tolerance) else (p, As_Calibrated))"

end
