(* ===== verification/Float_Eval.thy ===== *)
theory Float_Eval
  imports Py_Float
begin

text \<open>
  Evaluation of the rounding function on literals by the simplifier: a fraction of numerals is rounded with integer arithmetic only,
  so concrete runs of code that computes with floats are decided by \<open>simp add: fl_eval\<close>.
\<close>

primrec num_len :: "num \<Rightarrow> int" where
  "num_len num.One = 1"
| "num_len (num.Bit0 n) = num_len n + 1"
| "num_len (num.Bit1 n) = num_len n + 1"

lemma num_len_bounds: "2 powi (num_len n - 1) \<le> (numeral n :: rat)" "(numeral n :: rat) < 2 powi num_len n"
proof (induction n)
  case (Bit0 n)
  have s: "(2 :: rat) powi (num_len n) = 2 * 2 powi (num_len n - 1)" "(2 :: rat) powi (num_len n + 1) = 2 * 2 powi num_len n"
    using powi_Suc [of "num_len n - 1"] powi_Suc [of "num_len n"] by simp_all
  { case 1 show ?case using Bit0(1) s(1) unfolding numeral_Bit0 [of n] num_len.simps add_diff_cancel_right' by linarith }
  { case 2 show ?case using Bit0(2) s(2) unfolding numeral_Bit0 [of n] num_len.simps by linarith }
next
  case (Bit1 n)
  have s: "(2 :: rat) powi (num_len n) = 2 * 2 powi (num_len n - 1)" "(2 :: rat) powi (num_len n + 1) = 2 * 2 powi num_len n"
    using powi_Suc [of "num_len n - 1"] powi_Suc [of "num_len n"] by simp_all
  have i: "2 * (numeral n :: int) + 1 < 2 * 2 ^ nat (num_len n)" if "(numeral n :: int) < 2 ^ nat (num_len n)" using that by linarith
  have p: "0 < num_len n" for n by (induction n) simp_all
  have q: "(2 :: rat) powi num_len n = of_int (2 ^ nat (num_len n))" using p [of n] by (simp add: power_int_def)
  have "(numeral n :: int) < 2 ^ nat (num_len n)" using Bit1(2) unfolding q by (metis of_int_less_iff of_int_numeral)
  then have j: "(2 * (numeral n :: int) + 1) < 2 * 2 ^ nat (num_len n)" by (rule i)
  then have "(of_int (2 * (numeral n :: int) + 1) :: rat) < of_int (2 * 2 ^ nat (num_len n))" by (simp only: of_int_less_iff)
  then have k: "2 * (numeral n :: rat) + 1 < 2 * 2 powi num_len n" unfolding q by simp
  { case 1 show ?case using Bit1(1) s(1) unfolding numeral_Bit1 [of n] num_len.simps add_diff_cancel_right' by linarith }
  { case 2 show ?case using k s(2) unfolding numeral_Bit1 [of n] num_len.simps by linarith }
qed simp_all

lemma ilog2_ratio:
  fixes a b :: num
  defines "x \<equiv> (numeral a / numeral b :: rat)"
  shows "ilog2 x = (let e = num_len a - num_len b in if 2 powi e \<le> x then e else e - 1)"
proof -
  let ?e = "num_len a - num_len b"
  have "x < 2 powi num_len a / 2 powi (num_len b - 1)"
    unfolding x_def using num_len_bounds [of a] num_len_bounds [of b] by (intro frac_less) simp_all
  also have "\<dots> = 2 powi (?e + 1)" by (simp add: power_int_diff [symmetric] algebra_simps)
  finally have u: "x < 2 powi (?e + 1)" .
  have "2 powi (?e - 1) = (2 powi (num_len a - 1) / 2 powi num_len b :: rat)" by (simp add: power_int_diff [symmetric] algebra_simps)
  also have "\<dots> \<le> x" unfolding x_def using num_len_bounds [of a] num_len_bounds [of b] by (intro frac_le) simp_all
  finally have l: "2 powi (?e - 1) \<le> x" .
  show ?thesis using u l ilog2_unique [of ?e x] ilog2_unique [of "?e - 1" x] by (auto simp: Let_def)
qed

definition div_half_even :: "int \<Rightarrow> int \<Rightarrow> int" where
  "div_half_even n d = (let q = n div d; r = 2 * (n - q * d) in if r < d then q else if d < r then q + 1 else if even q then q else q + 1)"

lemma round_half_even_ratio: "0 < d \<Longrightarrow> round_half_even (of_int n / of_int d) = div_half_even n d"
proof -
  assume d: "0 < d"
  let ?q = "n div d"
  have q: "\<lfloor>(of_int n / of_int d :: rat)\<rfloor> = ?q" by (rule floor_divide_of_int_eq)
  have e: "(of_int n / of_int d - of_int ?q :: rat) = of_int (n - ?q * d) / of_int d" using d by (simp add: field_simps)
  have "(of_int (n - ?q * d) / of_int d < (1 / 2 :: rat)) = (2 * (n - ?q * d) < d)"
    using d by (simp add: divide_simps) (metis (mono_tags) mult.commute of_int_diff of_int_less_iff of_int_mult of_int_numeral)
  moreover have "((1 / 2 :: rat) < of_int (n - ?q * d) / of_int d) = (d < 2 * (n - ?q * d))"
    using d by (simp add: divide_simps) (metis (mono_tags) mult.commute of_int_diff of_int_less_iff of_int_mult of_int_numeral)
  ultimately show ?thesis unfolding round_half_even_def Let_def q e div_half_even_def by simp
qed

lemma fl_ratio:
  "fl (numeral a / numeral b) = (let e = num_len a - num_len b;
       le = (if 0 \<le> e then numeral b * 2 ^ nat e \<le> (numeral a :: int) else numeral b \<le> (numeral a * 2 ^ nat (- e) :: int));
       k = (if le then e else e - 1) - 52
     in if 0 \<le> k then of_int (div_half_even (numeral a) (numeral b * 2 ^ nat k) * 2 ^ nat k)
        else of_int (div_half_even (numeral a * 2 ^ nat (- k)) (numeral b)) / 2 ^ nat (- k))"
proof -
  define x where "x = (numeral a / numeral b :: rat)"
  define e where "e = num_len a - num_len b"
  define le where "le = (if 0 \<le> e then numeral b * 2 ^ nat e \<le> (numeral a :: int) else numeral b \<le> (numeral a * 2 ^ nat (- e) :: int))"
  define k where "k = (if le then e else e - 1) - 52"
  have "le \<longleftrightarrow> 2 powi e \<le> x"
  proof (cases "0 \<le> e")
    case True
    then have "2 powi e \<le> x \<longleftrightarrow> (of_int (numeral b * 2 ^ nat e) :: rat) \<le> of_int (numeral a)"
      by (simp add: x_def power_int_def divide_simps mult.commute)
    then show ?thesis using True by (simp only: le_def if_True of_int_le_iff)
  next
    case False
    then have "2 powi e \<le> x \<longleftrightarrow> (of_int (numeral b) :: rat) \<le> of_int (numeral a * 2 ^ nat (- e))"
      by (simp add: x_def power_int_def divide_simps mult.commute)
    then show ?thesis using False by (simp only: le_def if_False of_int_le_iff)
  qed
  then have "fl x = of_int (round_half_even (x / 2 powi k)) * 2 powi k"
    by (simp add: fl_def fl_pos_def Let_def x_def ilog2_ratio k_def e_def)
  also have "\<dots> = (if 0 \<le> k then of_int (div_half_even (numeral a) (numeral b * 2 ^ nat k) * 2 ^ nat k)
      else of_int (div_half_even (numeral a * 2 ^ nat (- k)) (numeral b)) / 2 ^ nat (- k))"
  proof (cases "0 \<le> k")
    case True
    then have "x / 2 powi k = of_int (numeral a) / of_int (numeral b * 2 ^ nat k)" by (simp add: x_def power_int_def)
    then have "round_half_even (x / 2 powi k) = div_half_even (numeral a) (numeral b * 2 ^ nat k)" by (simp only:) (rule round_half_even_ratio, simp)
    then show ?thesis using True by (simp add: power_int_def)
  next
    case False
    then have "x / 2 powi k = of_int (numeral a * 2 ^ nat (- k)) / of_int (numeral b)" by (simp add: x_def power_int_def divide_simps)
    then have "round_half_even (x / 2 powi k) = div_half_even (numeral a * 2 ^ nat (- k)) (numeral b)" by (simp only:) (rule round_half_even_ratio, simp)
    then show ?thesis using False by (simp add: power_int_def divide_simps)
  qed
  finally show ?thesis unfolding Let_def x_def e_def le_def k_def .
qed
lemmas fl_eval = fl_ratio fl_ratio [of num.One, simplified] fl_ratio [where b = num.One, simplified] div_half_even_def

end
