(* ===== verification/EV_Verdict.thy ===== *)
theory EV_Verdict
  imports EV_Evaluate Float_Eval
begin

text \<open>
  The verdict of the expected-value gate (quantgambit/signals/stages/ev_gate.py, the second half of \<open>_evaluate\<close> and \<open>run\<close>): expected
  value and net edge, the adapted thresholds, the relaxations for fading strategies, the three final checks, the size
  multipliers, and the stage in shadow and enforcing mode.
\<close>

section \<open>Thresholds\<close>

definition min_expected_edge :: "ev_gate_config \<Rightarrow> string \<Rightarrow> string \<Rightarrow> pyfloat" where
  "min_expected_edge c symbol side =
     (let k = py_upper symbol; sd = (if py_lower side \<in> {''long'', ''buy''} then ''long'' else ''short'')
      in d_get_or (eg_min_edge_by_symbol_side c) (k @ '':'' @ sd)
           (d_get_or (eg_min_edge_by_symbol c) k (d_get_or (eg_min_edge_by_side c) sd (eg_min_expected_edge_bps c))))"

definition clamped_imbalance :: "py_inputs \<Rightarrow> py_inputs \<Rightarrow> pyfloat" where
  "clamped_imbalance mc f = max (- 1) (min 1 (fo_or (first_of [num mc ''book_imbalance'', num mc ''depth_imbalance'',
     num f ''depth_imbalance'', num f ''orderbook_imbalance'']) 0))"

definition adapted_ev_min :: "ev_gate_config \<Rightarrow> ev_measure \<Rightarrow> calibration_status \<Rightarrow> pyfloat \<times> ev_reason list" where
  "adapted_ev_min c m status =
     (let mc = em_market m; f = em_features m
      in get_adjusted_ev_min c (normalize_percentile (first_of [num mc ''spread_percentile'', num f ''spread_percentile'']))
           (clamped_imbalance mc f) (em_side m) (txt_or mc ''volatility_regime'' ''medium'') (txt_or mc ''session'' ''unknown'')
           (em_book_age_ms m) status (em_L m))"

definition recent_cost :: "ev_env \<Rightarrow> string \<Rightarrow> ev_measure \<Rightarrow> pyfloat" where
  "recent_cost env symbol m =
     (let own = (case symbol_setting (split_char CHR '','' (strip (ee_recent_cost_by_symbol env))) (py_upper symbol) of
            Some v \<Rightarrow> parse_float v | None \<Rightarrow> None)
      in fo_or (first_of [own, parse_float (strip (ee_recent_cost env)), num (em_market m) ''recent_total_cost_bps_p75'',
           num (em_features m) ''recent_total_cost_bps_p75'']) (em_total_cost_bps m))"

definition cost_multiple_gate :: "ev_env \<Rightarrow> string \<Rightarrow> ev_measure \<Rightarrow> pyfloat \<times> ev_reason list \<Rightarrow> pyfloat \<times> ev_reason list" where
  "cost_multiple_gate env symbol m = (\<lambda>(ev_min, reasons).
     let recent = recent_cost env symbol m; required = fl (fmul (ee_cost_multiple env) recent / em_L m)
     in if 0 < ee_cost_multiple env \<and> 0 < recent \<and> 0 < em_L m \<and> ev_min < required then (required, reasons @ [Cost_Multiple]) else (ev_min, reasons))"

section \<open>Relaxations near the threshold\<close>

record ev_numbers =
  en_ev :: pyfloat
  en_net_edge :: pyfloat
  en_ev_min :: pyfloat
  en_min_edge :: pyfloat
  en_reasons :: "ev_reason list"

definition tiny :: pyfloat where "tiny = fl (1 / 1000000)"

definition relax_borderline :: "pyfloat \<Rightarrow> pyfloat \<Rightarrow> ev_numbers \<Rightarrow> ev_numbers" where
  "relax_borderline p p_min x =
     (if \<bar>fsub p p_min\<bar> \<le> tiny \<and> - tiny \<le> en_ev x \<and> 0 < en_ev_min x
      then \<lparr>en_ev = 0, en_net_edge = 0, en_ev_min = 0, en_min_edge = 0, en_reasons = en_reasons x @ [Borderline_P_Min]\<rparr> else x)"

definition relax_edge :: "pyfloat \<Rightarrow> ev_numbers \<Rightarrow> ev_numbers" where
  "relax_edge tolerance x =
     (if 0 < en_min_edge x \<and> en_net_edge x < en_min_edge x \<and> fsub (en_min_edge x) tolerance \<le> en_net_edge x
      then x\<lparr>en_net_edge := en_min_edge x, en_reasons := en_reasons x @ [Edge_Tolerance]\<rparr> else x)"

definition relax_ev :: "pyfloat \<Rightarrow> pyfloat \<Rightarrow> ev_numbers \<Rightarrow> ev_numbers" where
  "relax_ev tolerance l x =
     (if 0 < en_ev x \<and> en_ev x < en_ev_min x \<and> 0 < l \<and> fsub (en_ev_min x) (fl (tolerance / l)) \<le> en_ev x
      then x\<lparr>en_ev := en_ev_min x, en_reasons := en_reasons x @ [EV_Tolerance]\<rparr> else x)"

definition relax_fading :: "pyfloat \<Rightarrow> string \<Rightarrow> calibration_stage \<Rightarrow> pyfloat \<Rightarrow> pyfloat \<Rightarrow> pyfloat \<Rightarrow> ev_numbers \<Rightarrow> ev_numbers" where
  "relax_fading tolerance strategy st l p p_min x =
     (if strategy \<in> set fading_strategies \<and> st \<noteq> CALIBRATED
      then relax_ev tolerance l (relax_edge tolerance (relax_borderline p p_min x)) else x)"

section \<open>Verdict\<close>

definition final_check :: "pyfloat \<Rightarrow> pyfloat \<Rightarrow> ev_numbers \<Rightarrow> ev_reject_code option" where
  "final_check p p_min x =
     (if p < p_min then Some P_BELOW_PMIN
      else if en_ev x < en_ev_min x then Some EV_BELOW_MIN
      else if en_net_edge x < en_min_edge x then Some EXPECTED_EDGE_BELOW_MIN
      else None)"

definition marginal_multiplier :: "pyfloat \<Rightarrow> pyfloat \<Rightarrow> ev_numbers \<Rightarrow> pyfloat" where
  "marginal_multiplier p p_min x =
     (let p_buffer = max 0 (fsub p p_min); ev_buffer = max 0 (fsub (en_ev x) (en_ev_min x))
      in if p_buffer < fl (15 / 1000) \<or> ev_buffer < fl (4 / 1000) then fl (55 / 100)
         else if p_buffer < fl (3 / 100) \<or> ev_buffer < fl (8 / 1000) then 3 / 4 else 1)"

record ev_result =
  er_measure :: ev_measure
  er_status :: calibration_status
  er_p :: pyfloat
  er_p_origin :: p_origin
  er_p_min :: pyfloat
  er_numbers :: ev_numbers
  er_reject :: "ev_reject_code option"
  er_size_multiplier :: pyfloat
  er_marginal :: pyfloat

definition raw_p :: "ev_measure \<Rightarrow> pyfloat" where
  "raw_p m = normalize_p (d_get_or (pi_numbers (em_signal m)) ''p_hat'' (1 / 2))"

text \<open>The values before the relaxations.  The required probability exists, because a measured ratio is positive.\<close>

definition ev_numbers_of :: "ev_gate_config \<Rightarrow> ev_env \<Rightarrow> string \<Rightarrow> ev_measure \<Rightarrow> calibration_status \<Rightarrow> pyfloat \<Rightarrow> ev_numbers" where
  "ev_numbers_of c env symbol m status p =
     (let (ev_min, reasons) = cost_multiple_gate env symbol m (adapted_ev_min c m status)
      in \<lparr>en_ev = calculate_ev p (em_R m) (em_C m),
          en_net_edge = fsub (fsub (fmul p (em_G m)) (fmul (fsub 1 p) (em_L m))) (em_total_cost_bps m),
          en_ev_min = ev_min, en_min_edge = min_expected_edge c symbol (em_side m),
          en_reasons = reasons @ (if cs_state status = CALIBRATED then [] else [Calibration_Stage (cs_state status)])\<rparr>)"

definition assess :: "ev_gate_config \<Rightarrow> ev_env \<Rightarrow> ev_context \<Rightarrow> ev_measure \<Rightarrow> ev_result" where
  "assess c env ctx m =
     (let symbol = ec_symbol ctx; strategy = txt_or (em_signal m) ''strategy_id'' [];
          status = calibrate_entry env symbol (ec_calibration ctx) strategy (em_market m) (raw_p m);
          p_min = the (calculate_p_min (em_R m) (em_C m));
          (p, origin) = decide_p c (mean_reversion_pmin_tolerance env symbol) strategy (setup_of (em_signal m)) (cs_state status)
            (raw_p m) (cs_p_effective status) p_min;
          x = relax_fading (mean_reversion_expected_edge_tolerance_bps env symbol) strategy (cs_state status) (em_L m) p p_min
            (ev_numbers_of c env symbol m status p);
          code = final_check p p_min x; marginal = (if code = None then marginal_multiplier p p_min x else 1); base = cs_size_multiplier status
      in \<lparr>er_measure = m, er_status = status, er_p = p, er_p_origin = origin, er_p_min = p_min, er_numbers = x, er_reject = code,
          er_size_multiplier = (if marginal < 1 then max 0 (min 1 (fmul (f_or base 1) marginal)) else base), er_marginal = marginal\<rparr>)"

definition evaluate_entry :: "ev_gate_config \<Rightarrow> ev_env \<Rightarrow> ev_context \<Rightarrow> ev_failure + ev_result" where
  "evaluate_entry c env ctx = bind_ev (measure_entry c env ctx) (\<lambda>m. Inr (assess c env ctx m))"

definition evaluation_code :: "ev_failure + ev_result \<Rightarrow> py_error + ev_reject_code option" where
  "evaluation_code r = (case r of Inl (Raised x) \<Rightarrow> Inl x | Inl (Refused code) \<Rightarrow> Inr (Some code) | Inr v \<Rightarrow> Inr (er_reject v))"

section \<open>The stage\<close>

datatype ev_signal = No_Signal | Strategy_Signal py_inputs | Dict_Signal py_inputs

text \<open>\<open>getattr\<close> finds a side only on an object; an empty dictionary is no signal.\<close>

fun exempt_side :: "ev_signal \<Rightarrow> bool" where
  "exempt_side (Strategy_Signal s) = (py_lower (txt_or s ''side'' []) \<in> {''close_long'', ''close_short'', ''close''})"
| "exempt_side x = False"

fun signal_inputs :: "ev_signal \<Rightarrow> py_inputs option" where
  "signal_inputs No_Signal = None"
| "signal_inputs (Strategy_Signal s) = Some s"
| "signal_inputs (Dict_Signal s) = (if s = no_inputs then None else Some s)"

definition ev_gate_run :: "ev_gate_config \<Rightarrow> ev_env \<Rightarrow> ev_context \<Rightarrow> ev_signal \<Rightarrow> py_error + ev_reject_code option" where
  "ev_gate_run c env ctx sg = (case signal_inputs sg of None \<Rightarrow> Inr None
     | Some s \<Rightarrow> if exempt_side sg then Inr None
         else map_sum id (\<lambda>code. if eg_mode c = ''shadow'' then None else code) (evaluation_code (evaluate_entry c env (ctx\<lparr>ec_signal := s\<rparr>))))"

section \<open>Library\<close>

lemma bind_ev_Inr [simp]: "bind_ev m k = Inr v \<longleftrightarrow> (\<exists>x. m = Inr x \<and> k x = Inr v)"
  by (simp add: bind_ev_def split: sum.split)

lemma check_age_Inr: "check_age code limit age = Inr x \<longleftrightarrow> age = Some x \<and> x \<le> limit"
  by (auto simp: check_age_def split: option.splits if_splits)

lemma check_geometry_Inr:
  "check_geometry c e sl tp side = Inr (l, g, r) \<Longrightarrow> 0 < l \<and> eg_min_stop_distance_bps c \<le> l \<and> 0 < r \<and> calculate_L_G_R e sl tp side = (l, g, Some r)"
  by (auto simp: check_geometry_def split: if_splits option.splits prod.splits)

lemma check_costs_Inr: "check_costs c env q l = Inr (r, t) \<Longrightarrow> r \<le> 1 \<and> (\<exists>b. estimate_costs (ee_costs env) q = Inr b \<and> t = floored_costs c b)"
  by (auto simp: check_costs_def split: sum.splits option.splits if_splits)

lemma sanitized_ages: "get_book_age_ms env mc = Some x \<Longrightarrow> 0 \<le> x" "get_spread_age_ms env mc f = Some x \<Longrightarrow> 0 \<le> x"
  by (auto simp: get_book_age_ms_def get_spread_age_ms_def sanitize_age_ms_def Let_def split: if_splits option.splits)

definition measured_soundly :: "ev_gate_config \<Rightarrow> ev_measure \<Rightarrow> bool" where
  "measured_soundly c m = (0 < em_L m \<and> eg_min_stop_distance_bps c \<le> em_L m \<and> 0 < em_R m \<and> em_C m \<le> 1 \<and>
     0 \<le> em_book_age_ms m \<and> em_book_age_ms m \<le> eg_max_book_age_ms c \<and> 0 \<le> em_spread_age_ms m \<and> em_spread_age_ms m \<le> eg_max_spread_age_ms c)"

lemma measure_sound: "measure_entry c env ctx = Inr m \<Longrightarrow> measured_soundly c m"
  by (auto simp: measure_entry_def measured_soundly_def Let_def case_prod_beta check_age_Inr dest!: check_geometry_Inr check_costs_Inr sanitized_ages
      split: if_splits option.splits prod.splits)

lemma evaluate_measure: "evaluate_entry c env ctx = Inr r \<longleftrightarrow> (\<exists>m. measure_entry c env ctx = Inr m \<and> r = assess c env ctx m)"
  by (auto simp: evaluate_entry_def)

lemma cost_multiple_raises: "fst x \<le> fst (cost_multiple_gate env symbol m x)"
  by (cases x) (auto simp: cost_multiple_gate_def Let_def)

lemma get_adjusted_floor: "eg_ev_min_floor c \<le> fst (get_adjusted_ev_min c pct imb side regime session age status l)"
  by (simp add: get_adjusted_ev_min_def Let_def case_prod_beta apply_adjustment_def)

lemma ev_min_of_numbers:
  "en_ev_min (ev_numbers_of c env symbol m status p) = fst (cost_multiple_gate env symbol m (adapted_ev_min c m status))"
  by (simp add: ev_numbers_of_def case_prod_beta)

lemma ev_min_floor: "eg_ev_min_floor c \<le> en_ev_min (ev_numbers_of c env symbol m status p)"
  unfolding ev_min_of_numbers adapted_ev_min_def Let_def by (rule order_trans [OF get_adjusted_floor cost_multiple_raises])

lemma assess_parts:
  fixes c env ctx m
  defines "symbol \<equiv> ec_symbol ctx" and "strategy \<equiv> txt_or (em_signal m) ''strategy_id'' []"
  defines "status \<equiv> calibrate_entry env symbol (ec_calibration ctx) strategy (em_market m) (raw_p m)"
  shows "er_status (assess c env ctx m) = status"
    and "er_p_min (assess c env ctx m) = the (calculate_p_min (em_R m) (em_C m))"
    and "er_p (assess c env ctx m) = fst (decide_p c (mean_reversion_pmin_tolerance env symbol) strategy (setup_of (em_signal m)) (cs_state status)
            (raw_p m) (cs_p_effective status) (er_p_min (assess c env ctx m)))"
    and "er_p_origin (assess c env ctx m) = snd (decide_p c (mean_reversion_pmin_tolerance env symbol) strategy (setup_of (em_signal m)) (cs_state status)
            (raw_p m) (cs_p_effective status) (er_p_min (assess c env ctx m)))"
    and "er_numbers (assess c env ctx m) = relax_fading (mean_reversion_expected_edge_tolerance_bps env symbol) strategy (cs_state status) (em_L m)
            (er_p (assess c env ctx m)) (er_p_min (assess c env ctx m)) (ev_numbers_of c env symbol m status (er_p (assess c env ctx m)))"
  unfolding assms by (simp_all only: assess_def Let_def case_prod_beta ev_result.simps)

lemma assess_measure [simp]: "er_measure (assess c env ctx m) = m"
  by (simp add: assess_def Let_def case_prod_beta)

text \<open>The rules for fading strategies apply while their calibration is not complete; elsewhere the numbers are the plain ones.\<close>

definition fading_exempt :: "ev_result \<Rightarrow> bool" where
  "fading_exempt r = (txt_or (em_signal (er_measure r)) ''strategy_id'' [] \<in> set fading_strategies \<and> cs_state (er_status r) \<noteq> CALIBRATED)"

lemma assess_not_exempt:
  assumes "\<not> fading_exempt (assess c env ctx m)"
  shows "er_numbers (assess c env ctx m) = ev_numbers_of c env (ec_symbol ctx) m (er_status (assess c env ctx m)) (er_p (assess c env ctx m))"
  using assms by (auto simp: fading_exempt_def assess_def Let_def case_prod_beta relax_fading_def)

lemma assess_plain:
  assumes "txt_or (em_signal m) ''strategy_id'' [] \<notin> set fading_strategies"
  shows "er_numbers (assess c env ctx m) = ev_numbers_of c env (ec_symbol ctx) m (er_status (assess c env ctx m)) (er_p (assess c env ctx m))"
  by (rule assess_not_exempt) (simp add: fading_exempt_def assess_measure assms)

text \<open>They change the threshold only to zero, and only where the probability stands at the required one.\<close>

lemma relax_fading_ev_min:
  fixes tolerance strategy st l p p_min x
  defines "y \<equiv> relax_fading tolerance strategy st l p p_min x"
  shows "en_ev_min y = en_ev_min x \<or> strategy \<in> set fading_strategies \<and> st \<noteq> CALIBRATED \<and> \<bar>fsub p p_min\<bar> \<le> tiny \<and> en_ev_min y = 0"
  by (simp add: y_def relax_fading_def relax_ev_def relax_edge_def relax_borderline_def)

lemma assess_check:
  "er_reject (assess c env ctx m) = final_check (er_p (assess c env ctx m)) (er_p_min (assess c env ctx m)) (er_numbers (assess c env ctx m))"
  by (simp add: assess_def Let_def case_prod_beta)

lemma status_multiplier: "cs_size_multiplier (calibrate_entry env symbol cal strategy mc p) =
    (1 / 4) * 2 ^ stage_rank (cs_state (calibrate_entry env symbol cal strategy mc p))"
  unfolding calibrate_entry_def Let_def status_size status_state by (rule size_by_rank)

lemma assess_status_size: "cs_size_multiplier (er_status (assess c env ctx m)) = (1 / 4) * 2 ^ stage_rank (cs_state (er_status (assess c env ctx m)))"
  by (simp only: assess_def Let_def case_prod_beta ev_result.simps status_multiplier)

lemma marginal_pos: "0 < (if b then marginal_multiplier p p_min x else 1)"
  by (simp add: marginal_multiplier_def Let_def)

lemma assess_size:
  fixes c env ctx m
  defines "r \<equiv> assess c env ctx m"
  shows "er_size_multiplier r = (if er_marginal r < 1 then max 0 (min 1 (fmul (f_or (cs_size_multiplier (er_status r)) 1) (er_marginal r)))
      else cs_size_multiplier (er_status r))" "0 < er_marginal r"
  unfolding r_def by (simp_all only: assess_def Let_def case_prod_beta ev_result.simps marginal_pos)

lemma final_check_None: "final_check p p_min x = None \<longleftrightarrow> p_min \<le> p \<and> en_ev_min x \<le> en_ev x \<and> en_min_edge x \<le> en_net_edge x"
  by (auto simp: final_check_def)

lemma is_float_quarters: "is_float (1 / 4)" "is_float (1 / 2)" "is_float 1"
  using fl_exact [of 1 "1 / 4" "- 2"] fl_exact [of 1 "1 / 2" "- 1"] by (simp_all add: is_float_def power_int_minus)

text \<open>Without reliability nothing lowers the threshold.\<close>

lemma get_adjusted_unreliable:
  assumes "cs_reliability status < fl (8 / 10)" "is_float (eg_ev_min c)" "0 \<le> eg_ev_min c" "1 \<le> eg_tightening_multiplier c"
  shows "eg_ev_min c \<le> fst (get_adjusted_ev_min c pct imb side regime session age status l)"
proof -
  let ?e = "cs_min_edge_bps_adjustment status" and ?k = "fst (compute_adjustment c pct imb side regime session (cs_reliability status) age)"
  let ?b = "if 0 < ?e then fadd (eg_ev_min c) (fl (?e / max l 1)) else eg_ev_min c"
  have k: "1 \<le> ?k" using assms(1,4) fl_mono [of 1 "eg_tightening_multiplier c"]
    by (simp add: compute_adjustment_def Let_def relaxation_disabled_def spread_tightening_factor_def fmul_def)
  have b: "eg_ev_min c \<le> ?b"
  proof (cases "0 < ?e")
    case True
    then have "eg_ev_min c \<le> fl (eg_ev_min c + fl (?e / max l 1))"
      using fl_mono [of "eg_ev_min c" "eg_ev_min c + fl (?e / max l 1)"] assms(2) by (simp add: is_float_def)
    then show ?thesis using True by (simp add: fadd_def)
  qed simp
  have "eg_ev_min c = fl (eg_ev_min c)" using assms(2) by (simp add: is_float_def)
  also have "\<dots> \<le> fmul ?b ?k" unfolding fmul_def
    using mult_mono [OF b k] b assms(3) by (intro fl_mono) simp
  finally show ?thesis by (simp add: get_adjusted_ev_min_def Let_def case_prod_beta apply_adjustment_def le_max_iff_disj)
qed

text \<open>Defaults leave the prices of the inputs alone.\<close>

lemma num_put_default: "k \<noteq> k' \<Longrightarrow> num (put_default k v s) k' = num s k'"
  by (simp add: put_default_def num_def set_num_def split: option.split)

lemma num_default_quote:
  "best \<noteq> k \<Longrightarrow> num (fst (default_quote best plain v x)) k = num (fst x) k \<and> num (snd (default_quote best plain v x)) k = num (snd x) k"
  by (cases x) (auto simp: default_quote_def num_def set_num_def split: option.split)

lemma defaults_keep_prices:
  assumes "compute_defaults s mc f = (s', mc', f')"
  shows "num s' ''entry_price'' = num s ''entry_price''" "num mc' ''price'' = num mc ''price''" "num f' ''price'' = num f ''price''"
proof -
  have "s' = fst (compute_defaults s mc f)" "(mc', f') = snd (compute_defaults s mc f)" by (simp_all add: assms)
  moreover have "num (fst (compute_defaults s mc f)) ''entry_price'' = num s ''entry_price''"
    by (simp add: compute_defaults_def Let_def num_put_default)
  moreover have "num (fst (snd (compute_defaults s mc f))) ''price'' = num mc ''price''" "num (snd (snd (compute_defaults s mc f))) ''price'' = num f ''price''"
    by (simp_all add: compute_defaults_def Let_def default_quotes_def num_default_quote)
  ultimately show "num s' ''entry_price'' = num s ''entry_price''" "num mc' ''price'' = num mc ''price''" "num f' ''price'' = num f ''price''"
    by (metis fst_conv snd_conv)+
qed

lemma seen_after_none: "num old k = None \<Longrightarrow> num new k = None \<Longrightarrow> num (seen_after old new) k = None"
  by (simp add: seen_after_def num_def no_inputs_def)

text \<open>The middle price satisfies the check of the required fields, but an entry known by nothing else is never accepted.\<close>

lemma mid_price_alone_rejected:
  assumes "num (ec_signal ctx) ''entry_price'' = None" "num (ec_market ctx) ''price'' = None" "num (ec_features ctx) ''price'' = None"
  shows "evaluate_entry c env ctx \<noteq> Inr r"
proof
  assume "evaluate_entry c env ctx = Inr r"
  then obtain m where m: "measure_entry c env ctx = Inr m" by (auto simp: evaluate_measure)
  obtain s mc f where d: "compute_defaults (ec_signal ctx) (ec_market ctx) (ec_features ctx) = (s, mc, f)" by (metis surj_pair)
  note keep = defaults_keep_prices [OF d]
  let ?mc = "seen_after (ec_market ctx) mc" and ?f = "seen_after (ec_features ctx) f"
  have none: "first_of [num s ''entry_price'', num ?mc ''price'', num ?f ''price''] = None"
    using assms keep by (simp add: seen_after_none of_or_def f_truthy_def)
  from m obtain e side sl tp l g q where lv: "resolve_levels s ?mc ?f = Inr (e, side, sl, tp)" and geo: "check_geometry c e sl tp side = Inr (l, g, q)"
    by (auto simp: measure_entry_def d Let_def split: if_splits option.splits)
  have "e = 0" using lv unfolding resolve_levels_def Let_def none by (simp split: option.splits if_splits)
  with check_geometry_Inr [OF geo] show False by (simp add: calculate_L_G_R_def)
qed

section \<open>A run of the gate\<close>

text \<open>An environment with no variable set, a liquid market, and entries into it.\<close>

definition plain_env :: ev_env where
  "plain_env = \<lparr>ee_cost_multiple = 3, ee_recent_cost_by_symbol = [], ee_recent_cost = [], ee_pmin_tolerance_by_symbol = [], ee_pmin_tolerance = None,
     ee_edge_tolerance_by_symbol = [], ee_edge_tolerance = None, ee_ignore_feed_gaps = [], ee_calibration = default_calibration_env,
     ee_costs = \<lparr>ce_fee_config = bybit_regular, ce_force_taker = False, ce_slippage_model = default_slippage_model\<rparr>,
     ee_now_book_ms = 10000, ee_now_spread_ms = 10001\<rparr>"

definition liquid_market :: py_inputs where
  "liquid_market = \<lparr>pi_numbers = [(''price'', 50000), (''best_bid'', 49999), (''best_ask'', 50001), (''book_recv_ms'', 9900)],
     pi_texts = [(''volatility_regime'', ''normal'')], pi_synced = Some True, pi_staleness = []\<rparr>"

definition long_entry :: "string \<Rightarrow> pyfloat \<Rightarrow> pyfloat \<Rightarrow> pyfloat \<Rightarrow> py_inputs" where
  "long_entry strategy sl tp p = \<lparr>pi_numbers = [(''entry_price'', 50000), (''stop_loss'', sl), (''take_profit'', tp), (''p_hat'', p), (''size'', 1 / 8)],
     pi_texts = [(''side'', ''long''), (''strategy_id'', strategy)], pi_synced = None, pi_staleness = []\<rparr>"

definition entry_context :: "py_inputs \<Rightarrow> calibration_entry \<Rightarrow> ev_context" where
  "entry_context s x = \<lparr>ec_symbol = ''BTCUSDT'', ec_signal = s, ec_market = liquid_market, ec_features = no_inputs,
     ec_calibration = [(''BTCUSDT'', x)]\<rparr>"

text \<open>The steps of the gate on an entry at 50000 with stop 49500 and target 50500.\<close>

lemma trial_texts:
  "py_lower ''long'' = ''long''" "py_lower ''normal'' = ''normal''" "py_lower ''unknown'' = ''unknown''" "py_lower ''immediate'' = ''immediate''"
  "py_lower [] = []" "infer_setup_type ''breakout'' = ''breakout''" "extract_setup_type ''breakout'' [] = ''breakout''" "py_upper ''BTCUSDT'' = ''BTCUSDT''"
  "symbol_setting (split_char CHR '','' (strip [])) ''BTCUSDT'' = None" "parse_float (strip []) = None"
  by code_simp+

lemmas ev_eval = fl_eval Let_def fadd_def fmul_def fsub_def fdiv_def d_get_or_def of_or_def f_truthy_def fo_or_def f_or_def s_truthy_def
  num_def txt_or_def set_num_def

lemmas cost_eval = calculate_expected_fees_bps_def expected_fee_def bybit_regular_def calculate_entry_fee_def calculate_exit_fee_def
  bps_of_notional_def fee_rates_def default_slippage_model_def calculate_slippage_bps_def depth_factor_def combined_slippage_def
  slippage_base_def symbol_floors_def spread_factor_def volatility_multiplier_def urgency_multiplier_def calculate_adverse_selection_bps_def
  adverse_selection_base_def

definition trial_signal :: py_inputs where "trial_signal = long_entry ''breakout'' 49500 50500 (7 / 8)"

definition completed_signal :: py_inputs where
  "completed_signal = trial_signal\<lparr>pi_numbers := pi_numbers trial_signal @ [(''cost_estimate_bps'', 13), (''sl_distance_bps'', 100), (''tp_distance_bps'', 100)]\<rparr>"

lemmas trial_defs = completed_signal_def trial_signal_def long_entry_def liquid_market_def no_inputs_def

lemma trial_levels:
  "check_required_fields trial_signal liquid_market no_inputs = None"
  "compute_defaults trial_signal liquid_market no_inputs = (completed_signal, liquid_market, no_inputs)"
  "resolve_levels completed_signal liquid_market no_inputs = Inr (50000, ''long'', 49500, 50500)"
  "check_geometry default_ev_gate_config 50000 49500 50500 ''long'' = Inr (100, 100, 1)"
proof -
  show "check_required_fields trial_signal liquid_market no_inputs = None"
    by (simp add: ev_eval check_required_fields_def known_price_def trial_defs)
  show "compute_defaults trial_signal liquid_market no_inputs = (completed_signal, liquid_market, no_inputs)"
    by (simp add: ev_eval trial_texts compute_defaults_def known_price_def setup_of_def p_hat_defaults_def put_default_def level_distance_bps_def
        default_quote_def default_quotes_def trial_defs)
  show "resolve_levels completed_signal liquid_market no_inputs = Inr (50000, ''long'', 49500, 50500)"
    by (simp add: ev_eval trial_texts resolve_levels_def fix_target_def trial_defs)
  show "check_geometry default_ev_gate_config 50000 49500 50500 ''long'' = Inr (100, 100, 1)"
    by (simp add: ev_eval trial_texts check_geometry_def calculate_L_G_R_def distance_bps_def default_ev_gate_config_def)
qed

lemma trial_ages: "get_book_age_ms plain_env liquid_market = Some 100" "get_spread_age_ms plain_env liquid_market no_inputs = Some 101"
  by (simp_all add: ev_eval trial_texts get_book_age_ms_def get_spread_age_ms_def ignores_feed_gaps_def sanitize_age_ms_def plain_env_def liquid_market_def)

definition trial_request :: cost_request where
  "trial_request = \<lparr>cr_symbol = ''BTCUSDT'', cr_strategy_id = ''breakout'', cr_setup_type = ''breakout'', cr_entry_price = 50000, cr_exit_price = 50500,
     cr_size = 1 / 8, cr_best_bid = 49999, cr_best_ask = 50001, cr_order_size_usd = 6250, cr_volatility_regime = Some ''normal'',
     cr_bid_depth_usd = None, cr_ask_depth_usd = None, cr_hold_time_sec = 1200, cr_observed_slippage_bps = None\<rparr>"

definition trial_plan :: execution_plan where "trial_plan = plan_execution False ''breakout'' (Some ''breakout'')"

lemma trial_request: "cost_request_of ''BTCUSDT'' completed_signal liquid_market no_inputs 50000 50500 = trial_request"
  by (simp add: ev_eval trial_texts cost_request_of_def trial_request_def setup_of_def trial_defs estimate_hold_time_def first_text_def
      first_present_def estimate_size_usd_def)

lemma trial_request_fields:
  "cr_symbol trial_request = ''BTCUSDT''" "cr_strategy_id trial_request = ''breakout''" "cr_setup_type trial_request = ''breakout''"
  "cr_entry_price trial_request = 50000" "cr_exit_price trial_request = 50500" "cr_size trial_request = 1 / 8"
  "cr_order_size_usd trial_request = 6250" "cr_volatility_regime trial_request = Some ''normal''" "cr_hold_time_sec trial_request = 1200"
  "cr_observed_slippage_bps trial_request = None" "estimated_spread_bps trial_request = fl (4 / 10)" "thinner_depth trial_request = None"
  "xp_entry_urgency trial_plan = ''immediate''"
  by (simp_all add: ev_eval trial_request_def estimated_spread_bps_def thinner_depth_def trial_plan_def plan_execution_def)

lemma trial_parts:
  "calculate_expected_fees_bps bybit_regular trial_plan 50000 50500 (1 / 8) = 5995417003936973 / 562949953421312"
  "calculate_slippage_bps default_slippage_model ''BTCUSDT'' (fl (4 / 10)) None (Some 6250) (Some ''normal'') (Some ''immediate'') =
     Inr (5404319552844595 / 9007199254740992)"
  "calculate_adverse_selection_bps ''BTCUSDT'' (Some ''normal'') (Some 1200) = 3152519739159347 / 2251799813685248"
  "ee_costs plain_env = \<lparr>ce_fee_config = bybit_regular, ce_force_taker = False, ce_slippage_model = default_slippage_model\<rparr>"
  by (simp add: ev_eval cost_eval trial_plan_def plan_execution_def, simp add: ev_eval cost_eval trial_texts, simp add: ev_eval cost_eval trial_texts,
      simp add: plain_env_def)

lemma trial_estimate: "estimate_costs (ee_costs plain_env) trial_request = Inr (cost_parts (fl (4 / 10)) (5995417003936973 / 562949953421312)
    (5404319552844595 / 9007199254740992) (3152519739159347 / 2251799813685248))"
  by (simp only: estimate_costs_def Let_def trial_request_fields trial_parts cost_estimator.simps trial_plan_def [symmetric] sum.simps option.simps
      s_truthy_def if_True list.distinct not_False_eq_True refl)

lemma trial_costs: "check_costs default_ev_gate_config plain_env trial_request 100 = Inr (2350879005487399 / 18014398509481984, 7402791887490253 / 562949953421312)"
  by (simp add: ev_eval trial_estimate check_costs_def cost_parts_def calculate_cost_ratio_def floored_costs_def default_ev_gate_config_def)

definition trial_measure :: ev_measure where
  "trial_measure = \<lparr>em_signal = completed_signal, em_market = liquid_market, em_features = no_inputs, em_side = ''long'', em_L = 100, em_G = 100,
     em_R = 1, em_C = 2350879005487399 / 18014398509481984, em_total_cost_bps = 7402791887490253 / 562949953421312, em_book_age_ms = 100,
     em_spread_age_ms = 101\<rparr>"

lemma trial_guards:
  "seen_after liquid_market liquid_market = liquid_market" "seen_after no_inputs no_inputs = no_inputs"
  "check_connectivity default_ev_gate_config liquid_market = None"
  "check_age STALE_BOOK (eg_max_book_age_ms default_ev_gate_config) (Some 100) = Inr 100"
  "check_age STALE_SPREAD (eg_max_spread_age_ms default_ev_gate_config) (Some 101) = Inr 101"
  by (simp_all add: seen_after_def check_connectivity_def liquid_market_def num_def above_def of_or_def f_truthy_def check_age_def default_ev_gate_config_def)

lemma trial_context: "ec_symbol (entry_context s x) = ''BTCUSDT''" "ec_signal (entry_context s x) = s" "ec_market (entry_context s x) = liquid_market"
  "ec_features (entry_context s x) = no_inputs" "ec_calibration (entry_context s x) = [(''BTCUSDT'', x)]"
  by (simp_all add: entry_context_def)

lemma trial_measured: "measure_entry default_ev_gate_config plain_env (entry_context trial_signal x) = Inr trial_measure"
  by (simp add: measure_entry_def trial_context trial_guards trial_levels trial_ages trial_request trial_costs trial_measure_def bind_ev_def)

lemma trial_status:
  fixes rel :: pyfloat
  defines "st \<equiv> calibrate_entry plain_env ''BTCUSDT'' [(''BTCUSDT'', Cal_Fields (Some rel) (Some 300))] ''breakout'' liquid_market (7 / 8)"
  assumes "fl (4 / 10) \<le> rel"
  shows "cs_p_effective st = 7 / 8" "cs_state st = CALIBRATED" "cs_reliability st = rel" "cs_min_edge_bps_adjustment st = 0"
proof -
  have "0 < rel" using assms(2) less_le_trans [of 0 "fl (4 / 10)" rel] by simp
  then have st: "st = evaluate_calibration (ee_calibration plain_env) ''breakout'' 300 (Some (7 / 8)) (Some rel)"
    by (simp add: st_def calibrate_entry_def find_calibration_def List.map_filter_def fo_or_def f_or_def trunc_def)
  have "get_calibration_state 300 (Some rel) = CALIBRATED" using assms(2) by (simp add: get_calibration_state_def)
  moreover have "fl (7 / 8) = 7 / 8" "fl (3 / 2) = 3 / 2" by (simp_all add: fl_eval Let_def)
  ultimately show "cs_p_effective st = 7 / 8" "cs_state st = CALIBRATED" "cs_reliability st = rel" "cs_min_edge_bps_adjustment st = 0"
    by (simp_all add: st evaluate_calibration_def compute_effective_probability_def compute_shrinkage_weight_def unit_clamp_def fadd_def fmul_def fsub_def Let_def)
qed

lemma trial_facts:
  "txt_or completed_signal ''strategy_id'' [] = ''breakout''" "setup_of completed_signal = ''breakout''" "raw_p trial_measure = 7 / 8"
  "normalize_percentile (of_or (num liquid_market ''spread_percentile'') (num no_inputs ''spread_percentile'')) = 1 / 2"
  "clamped_imbalance liquid_market no_inputs = 0" "txt_or liquid_market ''volatility_regime'' ''medium'' = ''normal''"
  "txt_or liquid_market ''session'' ''unknown'' = ''unknown''" "recent_cost plain_env ''BTCUSDT'' trial_measure = 7402791887490253 / 562949953421312"
  by (simp_all add: ev_eval trial_texts setup_of_def trial_measure_def trial_defs raw_p_def normalize_p_def clamped_imbalance_def normalize_percentile_def
      recent_cost_def plain_env_def)

lemma trial_threshold:
  assumes "cs_min_edge_bps_adjustment st = 0"
  shows "adapted_ev_min default_ev_gate_config trial_measure st = (fl (2 / 100), [])"
proof -
  have "1 / 2 \<le> fl (7 / 10)" "fl (3 / 10) \<le> 1 / 2" "fl (1 / 100) \<le> fl (2 / 100)" by (simp_all add: fl_eval Let_def)
  then show ?thesis using assms
    by (simp add: adapted_ev_min_def trial_measure_def trial_facts get_adjusted_ev_min_def compute_adjustment_def relaxation_disabled_def spread_imbalance_factor_def
        volatility_session_factor_def spread_tightening_factor_def least_factor_def apply_adjustment_def default_ev_gate_config_def trial_texts fmul_def Let_def)
qed

lemma trial_calibration:
  "calibrate_entry plain_env (ec_symbol (entry_context trial_signal x)) (ec_calibration (entry_context trial_signal x))
     (txt_or (em_signal trial_measure) ''strategy_id'' []) (em_market trial_measure) (raw_p trial_measure) =
   calibrate_entry plain_env ''BTCUSDT'' [(''BTCUSDT'', x)] ''breakout'' liquid_market (7 / 8)"
  by (simp add: trial_context trial_facts, simp add: trial_measure_def trial_facts)

definition experienced :: "pyfloat \<Rightarrow> calibration_entry" where "experienced rel = Cal_Fields (Some rel) (Some 300)"

lemma trial_accepted: "er_reject (assess default_ev_gate_config plain_env (entry_context trial_signal (experienced (9 / 10))) trial_measure) = None"
proof -
  let ?r = "assess default_ev_gate_config plain_env (entry_context trial_signal (experienced (9 / 10))) trial_measure"
  have rel: "fl (4 / 10) \<le> 9 / 10" by (simp add: fl_eval Let_def)
  note st = trial_status [OF rel, folded experienced_def]
  have p_min: "er_p_min ?r = fl (fadd 1 (em_C trial_measure) / 2)" by (simp add: assess_parts calculate_p_min_def trial_measure_def fadd_def)
  have p: "er_p ?r = 7 / 8" unfolding assess_parts(3) trial_calibration by (simp add: decide_p_def st Let_def trial_facts trial_measure_def)
  have n: "er_numbers ?r = ev_numbers_of default_ev_gate_config plain_env ''BTCUSDT'' trial_measure
      (calibrate_entry plain_env ''BTCUSDT'' [(''BTCUSDT'', experienced (9 / 10))] ''breakout'' liquid_market (7 / 8)) (7 / 8)"
    unfolding assess_parts(5) trial_calibration p by (simp add: relax_fading_def st trial_context)
  show ?thesis unfolding assess_check p p_min n
    by (simp add: final_check_def ev_numbers_of_def cost_multiple_gate_def trial_threshold st trial_facts,
        simp add: ev_eval calculate_ev_def trial_measure_def default_ev_gate_config_def plain_env_def min_expected_edge_def)
qed

text \<open>A probability that is not the calibrated one is the required one.\<close>

lemma decide_lifted:
  "snd (decide_p c tol strategy setup st p_raw p p_min) \<noteq> As_Calibrated \<Longrightarrow> fst (decide_p c tol strategy setup st p_raw p p_min) = p_min"
  by (simp add: decide_p_def Let_def split: if_splits)

lemma cold_trial:
  "er_p_origin (assess default_ev_gate_config plain_env (entry_context trial_signal Cal_Empty) trial_measure) = Calibrated_Floor"
proof -
  let ?st = "calibrate_entry plain_env ''BTCUSDT'' [(''BTCUSDT'', Cal_Empty)] ''breakout'' liquid_market (7 / 8)"
  have prior: "get_strategy_prior ''breakout'' = fl (45 / 100)" by (simp add: get_strategy_prior_def strategy_priors_def) code_simp
  have "cs_state ?st = COLD \<and> cs_p_effective ?st \<le> 11 / 20"
    by (simp add: ev_eval calibrate_entry_def find_calibration_def List.map_filter_def trial_defs evaluate_calibration_def get_calibration_state_def prior
        compute_effective_probability_def compute_shrinkage_weight_def unit_clamp_def trunc_def plain_env_def default_calibration_env_def)
  moreover have "11 / 20 < er_p_min (assess default_ev_gate_config plain_env (entry_context trial_signal Cal_Empty) trial_measure)"
    "er_p_min (assess default_ev_gate_config plain_env (entry_context trial_signal Cal_Empty) trial_measure) \<le> 7 / 8"
    by (simp_all add: assess_parts calculate_p_min_def trial_measure_def ev_eval)
  ultimately show ?thesis unfolding assess_parts(4) trial_calibration by (simp add: decide_p_def Let_def trial_facts)
qed

section \<open>Properties\<close>

text \<open>C16: An accepted entry pays: its stop is at least the configured distance away, the target on the right side of the entry, the costs at most the stop
  distance, book and spread fresh, its probability at least the required one, and, for every strategy but the two fading ones,
  its expected value at least a threshold that is never below the configured floor and its net edge at least the configured minimum.\<close>

theorem accepted_entries_pay:
  assumes "evaluate_entry c env ctx = Inr r" and "er_reject r = None"
  shows "measured_soundly c (er_measure r) \<and> er_p_min r \<le> er_p r \<and>
     (txt_or (em_signal (er_measure r)) ''strategy_id'' [] \<notin> set fading_strategies \<longrightarrow>
        eg_ev_min_floor c \<le> en_ev_min (er_numbers r) \<and>
        en_ev_min (er_numbers r) \<le> calculate_ev (er_p r) (em_R (er_measure r)) (em_C (er_measure r)) \<and>
        min_expected_edge c (ec_symbol ctx) (em_side (er_measure r)) \<le>
          fsub (fsub (fmul (er_p r) (em_G (er_measure r))) (fmul (fsub 1 (er_p r)) (em_L (er_measure r)))) (em_total_cost_bps (er_measure r)))"
proof -
  obtain m where m: "measure_entry c env ctx = Inr m" "r = assess c env ctx m" using assms(1) by (auto simp: evaluate_measure)
  have k: "er_p_min r \<le> er_p r" "en_ev_min (er_numbers r) \<le> en_ev (er_numbers r)" "en_min_edge (er_numbers r) \<le> en_net_edge (er_numbers r)"
    using assms(2) by (simp_all add: m(2) assess_check final_check_None)
  show ?thesis
  proof (intro conjI impI)
    assume "txt_or (em_signal (er_measure r)) ''strategy_id'' [] \<notin> set fading_strategies"
    then have n: "er_numbers r = ev_numbers_of c env (ec_symbol ctx) m (er_status r) (er_p r)" by (simp add: m(2) assess_plain)
    show "eg_ev_min_floor c \<le> en_ev_min (er_numbers r)" unfolding n by (rule ev_min_floor)
    show "en_ev_min (er_numbers r) \<le> calculate_ev (er_p r) (em_R (er_measure r)) (em_C (er_measure r))"
      using k(2) unfolding n by (simp add: m(2) ev_numbers_of_def case_prod_beta)
    show "min_expected_edge c (ec_symbol ctx) (em_side (er_measure r)) \<le>
        fsub (fsub (fmul (er_p r) (em_G (er_measure r))) (fmul (fsub 1 (er_p r)) (em_L (er_measure r)))) (em_total_cost_bps (er_measure r))"
      using k(3) unfolding n by (simp add: m(2) ev_numbers_of_def case_prod_beta)
  qed (use measure_sound [OF m(1)] k(1) in \<open>simp_all add: m(2)\<close>)
qed

theorem accepted_entries_pay_witness:
  "\<exists>r. evaluate_entry default_ev_gate_config plain_env (entry_context trial_signal (experienced (9 / 10))) = Inr r \<and> er_reject r = None \<and>
     measured_soundly default_ev_gate_config (er_measure r) \<and> er_p_min r \<le> er_p r"
proof -
  let ?r = "assess default_ev_gate_config plain_env (entry_context trial_signal (experienced (9 / 10))) trial_measure"
  have e: "evaluate_entry default_ev_gate_config plain_env (entry_context trial_signal (experienced (9 / 10))) = Inr ?r"
    by (simp add: evaluate_measure trial_measured)
  from accepted_entries_pay [OF e trial_accepted] e trial_accepted show ?thesis by blast
qed

text \<open>C17: Relaxation needs evidence: with a tightening multiplier of at least one, the threshold on the expected value of a strategy
  whose calibration is not reliable is never below the configured minimum, whatever the spread, the imbalance, the session and the
  costs, and an accepted entry of such a strategy has at least the configured minimum of expected value.  Exempt are the two fading
  strategies while they are not calibrated: their threshold is set to zero when their probability stands at the required one, and
  only then.\<close>

theorem unreliable_never_relaxed:
  assumes "evaluate_entry c env ctx = Inr r" and "cs_reliability (er_status r) < fl (8 / 10)"
    and "is_float (eg_ev_min c)" and "0 \<le> eg_ev_min c" and "1 \<le> eg_tightening_multiplier c"
  shows "(eg_ev_min c \<le> en_ev_min (er_numbers r) \<or>
       fading_exempt r \<and> \<bar>fsub (er_p r) (er_p_min r)\<bar> \<le> tiny \<and> en_ev_min (er_numbers r) = 0) \<and>
     (er_reject r = None \<and> \<not> fading_exempt r \<longrightarrow> eg_ev_min c \<le> calculate_ev (er_p r) (em_R (er_measure r)) (em_C (er_measure r)))"
proof -
  obtain m where m: "measure_entry c env ctx = Inr m" "r = assess c env ctx m" using assms(1) by (auto simp: evaluate_measure)
  let ?x = "ev_numbers_of c env (ec_symbol ctx) m (er_status r) (er_p r)"
  have t: "eg_ev_min c \<le> en_ev_min ?x"
    unfolding ev_min_of_numbers adapted_ev_min_def Let_def
    by (rule order_trans [OF get_adjusted_unreliable cost_multiple_raises]) (use assms in auto)
  have "en_ev_min (er_numbers r) = en_ev_min ?x \<or> fading_exempt r \<and> \<bar>fsub (er_p r) (er_p_min r)\<bar> \<le> tiny \<and> en_ev_min (er_numbers r) = 0"
    unfolding m(2) fading_exempt_def assess_measure assess_parts(5) assess_parts(1) conj_assoc by (rule relax_fading_ev_min)
  moreover have "eg_ev_min c \<le> calculate_ev (er_p r) (em_R (er_measure r)) (em_C (er_measure r))" if "er_reject r = None" "\<not> fading_exempt r"
  proof -
    have n: "er_numbers r = ?x" using that(2) unfolding m(2) by (rule assess_not_exempt)
    have "en_ev_min (er_numbers r) \<le> en_ev (er_numbers r)" using that(1) by (simp add: m(2) assess_check final_check_None)
    then show ?thesis using t unfolding n by (simp add: m(2) ev_numbers_of_def case_prod_beta)
  qed
  ultimately show ?thesis using t by auto
qed

theorem unreliable_never_relaxed_witness:
  "\<exists>r. evaluate_entry default_ev_gate_config plain_env (entry_context trial_signal (experienced (1 / 2))) = Inr r \<and>
     eg_ev_min default_ev_gate_config \<le> en_ev_min (er_numbers r)"
proof -
  let ?r = "assess default_ev_gate_config plain_env (entry_context trial_signal (experienced (1 / 2))) trial_measure"
  have e: "evaluate_entry default_ev_gate_config plain_env (entry_context trial_signal (experienced (1 / 2))) = Inr ?r"
    by (simp add: evaluate_measure trial_measured)
  have rel: "fl (4 / 10) \<le> 1 / 2" "1 / 2 < fl (8 / 10)" by (simp_all add: fl_eval Let_def)
  have st: "cs_reliability (er_status ?r) < fl (8 / 10)"
    unfolding assess_parts(1) trial_calibration trial_status(3) [OF rel(1), folded experienced_def] by (rule rel(2))
  have "\<not> fading_exempt ?r"
    by (simp add: fading_exempt_def trial_measure_def trial_facts fading_strategies_def)
  moreover have "is_float (eg_ev_min default_ev_gate_config)" "0 \<le> eg_ev_min default_ev_gate_config" "1 \<le> eg_tightening_multiplier default_ev_gate_config"
    by (simp_all add: default_ev_gate_config_def)
  ultimately show ?thesis using unreliable_never_relaxed [OF e st] e by blast
qed

text \<open>C18: Lifting a probability to the required one admits no entry but those of the fading strategies: wherever the gate replaced the
  calibrated probability by the required one (for a strategy without calibration, or within the tolerance for mean reversion), the
  expected value is zero up to rounding, so with costs that are not negative the entry is rejected for its expected value as soon as
  the configured floor of the threshold is a thousandth.  The two fading strategies, while not calibrated, have their own rule, and a
  floor of zero admits lifted entries.\<close>

theorem floor_override_rejected:
  assumes "evaluate_entry c env ctx = Inr r" and "er_p_origin r \<noteq> As_Calibrated" and "\<not> fading_exempt r"
    and "0 \<le> em_C (er_measure r)" and "1 / 1000 \<le> eg_ev_min_floor c"
  shows "er_reject r = Some EV_BELOW_MIN"
proof -
  obtain m where m: "measure_entry c env ctx = Inr m" "r = assess c env ctx m" using assms(1) by (auto simp: evaluate_measure)
  have sound: "measured_soundly c m" by (rule measure_sound [OF m(1)])
  have p: "er_p r = er_p_min r" using decide_lifted assms(2) unfolding m(2) assess_parts(4) by (simp add: assess_parts(3))
  have "er_p_min r = fl (fadd 1 (em_C m) / fadd (em_R m) 1)" using sound by (simp add: m(2) assess_parts(2) calculate_p_min_def measured_soundly_def)
  then have ev: "calculate_ev (er_p r) (em_R m) (em_C m) \<le> 1 / 1000000"
    using sound assms(4) unfolding p by (intro break_even_ev) (simp_all add: m(2) measured_soundly_def)
  have n: "er_numbers r = ev_numbers_of c env (ec_symbol ctx) m (er_status r) (er_p r)" using assms(3) unfolding m(2) by (rule assess_not_exempt)
  have "en_ev (er_numbers r) = calculate_ev (er_p r) (em_R m) (em_C m)" unfolding n by (simp add: ev_numbers_of_def case_prod_beta)
  moreover have "eg_ev_min_floor c \<le> en_ev_min (er_numbers r)" unfolding n by (rule ev_min_floor)
  ultimately have "en_ev (er_numbers r) < en_ev_min (er_numbers r)" using ev assms(5) by linarith
  moreover have "er_reject r = final_check (er_p r) (er_p_min r) (er_numbers r)" unfolding m(2) by (rule assess_check)
  ultimately show ?thesis by (simp add: final_check_def p)
qed

theorem floor_override_rejected_witness:
  "map_sum id er_reject (evaluate_entry default_ev_gate_config plain_env (entry_context trial_signal Cal_Empty)) = Inr (Some EV_BELOW_MIN)"
proof -
  let ?r = "assess default_ev_gate_config plain_env (entry_context trial_signal Cal_Empty) trial_measure"
  have e: "evaluate_entry default_ev_gate_config plain_env (entry_context trial_signal Cal_Empty) = Inr ?r"
    by (simp add: evaluate_measure trial_measured)
  have "er_p_origin ?r \<noteq> As_Calibrated" by (simp add: cold_trial)
  moreover have "\<not> fading_exempt ?r" "0 \<le> em_C (er_measure ?r)"
    by (simp_all add: fading_exempt_def trial_measure_def trial_facts fading_strategies_def)
  moreover have "1 / 1000 \<le> eg_ev_min_floor default_ev_gate_config" by (simp add: default_ev_gate_config_def fl_eval Let_def)
  ultimately have "er_reject ?r = Some EV_BELOW_MIN" by (rule floor_override_rejected [OF e])
  then show ?thesis by (simp add: e)
qed

text \<open>C29: Size only shrinks: an evaluated entry is sized by at most its calibration's multiplier, so a quarter for a cold strategy and a half for
  a warming one, never by more than one, and never by nothing.\<close>

theorem gate_size_bounds:
  assumes "evaluate_entry c env ctx = Inr r"
  shows "0 < er_size_multiplier r \<and> er_size_multiplier r \<le> cs_size_multiplier (er_status r) \<and> er_size_multiplier r \<le> 1 \<and>
     (cs_state (er_status r) = COLD \<longrightarrow> er_size_multiplier r \<le> 1 / 4) \<and> (cs_state (er_status r) = WARMING \<longrightarrow> er_size_multiplier r \<le> 1 / 2)"
proof -
  obtain m where m: "r = assess c env ctx m" using assms by (auto simp: evaluate_measure)
  let ?b = "cs_size_multiplier (er_status r)" and ?st = "cs_state (er_status r)"
  have b: "?b = (1 / 4) * 2 ^ stage_rank ?st" unfolding m by (rule assess_status_size)
  have "0 < x \<and> x \<le> 1 \<and> is_float x" if "x = (1 / 4) * 2 ^ stage_rank st" for x :: pyfloat and st
    unfolding that using is_float_quarters by (cases st) simp_all
  from this [OF b] have b1: "0 < ?b" "?b \<le> 1" "is_float ?b" by blast+
  have s: "er_size_multiplier r = (if er_marginal r < 1 then max 0 (min 1 (fmul (f_or ?b 1) (er_marginal r))) else ?b)" "0 < er_marginal r"
    unfolding m by (rule assess_size)+
  have "0 < fmul ?b (er_marginal r)" using b1(1) s(2) by (simp add: fmul_def)
  moreover have "fmul ?b (er_marginal r) \<le> ?b" if "er_marginal r < 1"
    using fl_mono [of "?b * er_marginal r" ?b] b1 s(2) that by (simp add: fmul_def is_float_def)
  ultimately have "0 < er_size_multiplier r" "er_size_multiplier r \<le> ?b" using b1(1,2) by (simp_all add: s(1) f_or_def min.coboundedI2)
  then show ?thesis using b b1(2) by (cases ?st) simp_all
qed

theorem gate_size_bounds_witness:
  "\<exists>r. evaluate_entry default_ev_gate_config plain_env (entry_context trial_signal Cal_Empty) = Inr r \<and> 0 < er_size_multiplier r \<and> er_size_multiplier r \<le> 1"
proof -
  have e: "evaluate_entry default_ev_gate_config plain_env (entry_context trial_signal Cal_Empty) =
      Inr (assess default_ev_gate_config plain_env (entry_context trial_signal Cal_Empty) trial_measure)"
    by (simp add: evaluate_measure trial_measured)
  with gate_size_bounds [OF e] show ?thesis by blast
qed

text \<open>Shadow mode rejects no entry, and the closing signal of a strategy passes in both modes.\<close>

lemma shadow_never_rejects: "eg_mode c = ''shadow'' \<Longrightarrow> ev_gate_run c env ctx sg \<noteq> Inr (Some code)"
  by (simp add: ev_gate_run_def map_sum_def split: option.splits sum.splits)

lemma closing_passes: "exempt_side sg \<Longrightarrow> ev_gate_run c env ctx sg = Inr None"
  by (simp add: ev_gate_run_def split: option.split)

end
