(* ===== verification/Spec2Isabelle.thy ===== *)
theory Spec2Isabelle
  imports Hot_Path Backlog Exec_Reconcile Guards Global_Gate Risk_Stage Cooldown Position_Guard EV_Verdict
begin

text \<open>
  A verification development of the trading core of QuantGambit, the Python package under
  src/quantgambit-python/quantgambit (source paths below are relative to it).

  \<^bold>\<open>The program.\<close>  Exchange messages keep an order book per symbol; a guardian decides whether the book may be
  quoted; the hot path turns a book tick into a decision, a decision record and at most one execution intent; a kill
  switch halts it.  Beside it runs the older signal pipeline: stages on a shared context, from a gate over the state of the
  market to the risk check; a position guard closes open positions by rules of its own.  Orders and positions are tracked in memory, and a reconciliation worker compares
  them with the exchange's and heals the difference, through a client that is guarded by a rate limiter and a circuit
  breaker.

  \<^bold>\<open>Theories and sources.\<close>  Market data: Book_Types (core/book/types.py), Book_Sync (core/book/venue_sync.py),
  Bybit_Sync (io/adapters/bybit/book_sync.py), Guardian (core/book/guardian.py).  Decisions: Decision_Types, Features, Stages,
  Risk, Policy (core/decision/interfaces.py and core/decision/impl), Sym_Calibrator (risk/symbol_calibrator.py,
  core/decision/calibration.py), Decision_Record (core/decision/record.py), Kill_Switch (core/risk/kill_switch.py), Hot_Path
  (runtime/hot_path.py).  Orders and positions: Ids (core/ids.py), Lifecycle (core/lifecycle.py), Order_Store
  (execution/order_statuses.py, execution/order_store.py), Positions (portfolio/state_manager.py), Pos_Reconcile and
  Exec_Reconcile (execution/reconciliation.py with the adapters of runtime/quant_integration.py), Guards
  (execution/guards.py).  Signal pipeline: Degradation (risk/degradation.py), Global_Gate (signals/stages/global_gate.py),
  Pipeline (signals/pipeline.py, the orchestrator), Correlation (core/risk/correlation_guard.py), Risk_Limits
  (risk/validator.py and deeptrader_core/layer3_risk_execution/risk_validator.py), Risk_Stage (signals/pipeline.py,
  \<open>RiskStage\<close>), Throttle (config/trading_mode.py), Cooldown (signals/stages/cooldown.py).  Position guard: Fee_Model
  (risk/fee_model.py), Executions (helpers of execution/manager.py), Guard_Rules and Position_Guard
  (execution/position_guard_worker.py).  Expected-value gate: EV_Costs (execution/execution_policy.py, risk/slippage_model.py, the cost
  estimator), Calibration_State (signals/services/calibration_state.py), EV_Gate, EV_Evaluate and EV_Verdict
  (signals/stages/ev_gate.py: configuration and relaxation, what is measured, the verdict).  Backlog is io/backlog_policy.py.  Prelude, Py_Float, Float_Eval,
  Py_Strings, Py_Data and Machines hold what they share.

  \<^bold>\<open>Conventions.\<close>  A class is a record of its attributes, a method a function from the record to the record and its
  result, with the source's name (with a prefix where the name is taken).  An exception is a value \<open>Inl e\<close>; what the object
  is when a method raises is returned with it where it matters.  A dictionary is an association list in insertion order.
  Readings of the clock are arguments in the order of the code; callbacks, submissions and requests to other systems are
  lists of outputs, and answers of other systems are arguments.  A formatted text is a constructor with the values it
  shows.  A Python float is a rational, rounded to 53 significant bits after every operation (Py_Float).  There is no fuel:
  every loop of the modelled code runs over finite data, and its recursion is structural or has a measure.

  \<^bold>\<open>Interfaces.\<close>  The synchroniser as the guardian uses it, mappers, policies, the position store as the reconciler uses it, and the
  shared contracts of Machines (an invariant that steps keep, a latch, a quantity that never shrinks) and of the guard's runs (a relation
  between the worlds before and after) are locales; each is
  interpreted on the model's own definitions in the theory of its provider, and the properties rest on those facts.

  \<^bold>\<open>What is shown.\<close>  Books: deltas refine updates of a price map, in-order deltas reproduce the exchange's book, and every
  reachable book is sorted and uncrossed.  Guardian and hot path: only safe, coherent books are handed out; nothing is
  submitted under the kill switch; every handled book leaves exactly one record; the statistics agree with the
  records.  Kill switch: it latches, and its audit trail and counters agree with its state.  Orders: histories follow the
  transition tables, terminal states stay, indexes agree with the orders (by exchange id as long as each order has one id of its own), identifiers
  round-trip.  Reconciliation: a healing
  pass reaches the specified sizes and a second one finds nothing; its counters are consistent; and what goes wrong when
  the exchange's answer is an error.  Client: an open circuit refuses every order call before its time.  Signal pipeline: the mode
  of degradation falls at once and recovers slowly but surely; what passes the gate is inside its limits; the orchestrator
  runs stages in order and never overrules a rejection; guarded portfolios hold no correlated positions; what the risk
  check and the validator decide; the cooldown stage spaces the entries it lets through, but stands before the stages that propose them.  Position guard: it closes only open
  positions, a stop loss at once and at market, an old position after a bounded number of looks, and its exit check covers fees and buffer; what a refused close
  leaves behind, and why the trailing stop never fires.  Expected-value gate: what an accepted entry is known to have, when the threshold may
  be lowered, how far the size shrinks, and why lifting a probability to the required one admits only fading strategies.

  \<^bold>\<open>Not modelled.\<close>  Float overflow, infinities and NaN; formatted reasons, logging, metrics and serialised views;
  the interleaving of coroutines inside a method (a method runs to its end; the reconciler's queued writes are applied
  after the pass); latency timers; aliasing of objects that two components share, except where noted;
  \<open>math.exp\<close>, \<open>tanh\<close>, \<open>log\<close>, \<open>sqrt\<close>, SHA-256 and number formatting, which are arguments; the iteration order of Python sets, an
  argument; the ONNX runtime; strings beyond ASCII.  Persistence, Redis and database access, the HTTP interface,
  backtesting, the strategies' indicator code, the AI clients and the user interfaces are I/O or
  configuration around the modelled core.  Of the signal pipeline's stages the global gate, the cooldown, the
  expected-value gate and the risk check are modelled; the others compute indicators, predictions and reports.
\<close>

end
